(* ===== verification/Prelude.thy ===== *)
theory Prelude
  imports Complex_Main "HOL-Library.Word" "HOL-Library.Log_Nat"
begin

text \<open>
  What every theory of the development shares: the two collections of rewrite rules,
  the result type of code that may raise, lookups in association lists, the last
  \<open>n\<close> elements of a list, and three interfaces that several components
  implement: a clamp, a bounded buffer and a state machine with an invariant.
\<close>

named_theorems model_defs \<open>definitions unfolded when a component is evaluated\<close>
named_theorems kore_simps \<open>facts about operations, used as rewrite rules\<close>

section \<open>Results of code that may raise\<close>

text \<open>\<open>Inl\<close> is the raised exception, \<open>Inr\<close> the returned value.\<close>

fun bind_res :: "'e + 'a \<Rightarrow> ('a \<Rightarrow> 'e + 'b) \<Rightarrow> 'e + 'b" where
  "bind_res (Inl e) f = Inl e"
| "bind_res (Inr a) f = f a"

definition is_ok :: "'e + 'a \<Rightarrow> bool" where
  "is_ok r = (case r of Inl _ \<Rightarrow> False | Inr _ \<Rightarrow> True)"

lemma is_ok_simps [simp]: "is_ok (Inr a)" "\<not> is_ok (Inl e)"
  by (simp_all add: is_ok_def)

lemma bind_res_Inr_iff: "bind_res r f = Inr b \<longleftrightarrow> (\<exists>a. r = Inr a \<and> f a = Inr b)"
  by (cases r) auto

lemma bind_res_Inl_iff:
  "bind_res r f = Inl e \<longleftrightarrow> r = Inl e \<or> (\<exists>a. r = Inr a \<and> f a = Inl e)"
  by (cases r) auto

section \<open>Actions\<close>

text \<open>An action changes the state and returns a value or raises; \<open>sbind\<close> is sequencing.\<close>

definition sbind :: "('s \<Rightarrow> ('e + 'a) \<times> 's) \<Rightarrow> ('a \<Rightarrow> 's \<Rightarrow> ('e + 'b) \<times> 's) \<Rightarrow> 's \<Rightarrow> ('e + 'b) \<times> 's" where
  "sbind m k s = (case m s of (Inl e, s1) \<Rightarrow> (Inl e, s1) | (Inr a, s1) \<Rightarrow> k a s1)"

lemma sbind_Inr: "m s = (Inr a, s1) \<Longrightarrow> sbind m k s = k a s1"
  by (simp add: sbind_def)

lemma sbind_Inl: "m s = (Inl e, s1) \<Longrightarrow> sbind m k s = (Inl e, s1)"
  by (simp add: sbind_def)

lemma sbind_InrE:
  assumes "sbind m k s = (Inr b, s2)"
  obtains a s1 where "m s = (Inr a, s1)" "k a s1 = (Inr b, s2)"
  using assms by (auto simp: sbind_def split: prod.splits sum.splits)

section \<open>The last elements of a list\<close>

text \<open>Python's \<open>xs[-n:]\<close> for a positive \<open>n\<close>, and a \<open>deque(maxlen=n)\<close> after an append.\<close>

definition take_last :: "nat \<Rightarrow> 'a list \<Rightarrow> 'a list" where
  "take_last n xs = drop (length xs - n) xs"

lemma length_take_last [simp]: "length (take_last n xs) = min n (length xs)"
  by (simp add: take_last_def)

lemma set_take_last: "set (take_last n xs) \<subseteq> set xs"
  by (simp add: take_last_def set_drop_subset)

lemma take_last_all [simp]: "length xs \<le> n \<Longrightarrow> take_last n xs = xs"
  by (simp add: take_last_def)

lemma last_take_last: "0 < n \<Longrightarrow> xs \<noteq> [] \<Longrightarrow> last (take_last n xs) = last xs"
  by (simp add: take_last_def)

lemma take_last_append:
  "take_last n (xs @ ys) = take_last (n - length ys) xs @ take_last n ys"
  by (simp add: take_last_def) (cases "length ys \<le> n"; simp)

lemma take_last_take_last_snoc:
  "take_last n (take_last n xs @ ys) = take_last n (xs @ ys)"
proof (cases "length xs \<le> n")
  case True
  then show ?thesis by simp
next
  case False
  have "length xs - n + (n - (n - length ys)) = length xs - (n - length ys)"
    using False by arith
  then have "take_last (n - length ys) (take_last n xs) = take_last (n - length ys) xs"
    using False by (simp add: take_last_def add.commute)
  then show ?thesis by (simp add: take_last_append)
qed

section \<open>Association lists used as dictionaries\<close>

text \<open>
  Python dictionaries keep their insertion order and rebinding a key keeps its place;
  \<open>dict_set\<close>, \<open>dict_pop\<close> and \<open>map_of\<close> are the operations the code uses.
\<close>

fun dict_set :: "'k \<Rightarrow> 'v \<Rightarrow> ('k \<times> 'v) list \<Rightarrow> ('k \<times> 'v) list" where
  "dict_set k v [] = [(k, v)]"
| "dict_set k v ((k', v') # d) = (if k' = k then (k, v) # d else (k', v') # dict_set k v d)"

definition dict_pop :: "'k \<Rightarrow> ('k \<times> 'v) list \<Rightarrow> ('k \<times> 'v) list" where
  "dict_pop k d = filter (\<lambda>p. fst p \<noteq> k) d"

definition dict_update :: "('k \<times> 'v) list \<Rightarrow> ('k \<times> 'v) list \<Rightarrow> ('k \<times> 'v) list" where
  "dict_update d new = fold (\<lambda>(k, v). dict_set k v) new d"

lemma map_of_dict_set [simp]: "map_of (dict_set k v d) = (map_of d)(k \<mapsto> v)"
  by (induction k v d rule: dict_set.induct) auto

lemma map_of_dict_pop [simp]: "map_of (dict_pop k d) = (map_of d)(k := None)"
  by (induction d) (auto simp: dict_pop_def fun_eq_iff)

lemma map_of_dict_update:
  "map_of (dict_update d new) = map_of d ++ map_of (rev new)"
  by (induction new arbitrary: d) (auto simp: dict_update_def map_add_def fun_eq_iff
      split: option.splits)

lemma keys_dict_set: "fst ` set (dict_set k v d) = insert k (fst ` set d)"
  by (induction k v d rule: dict_set.induct) auto

lemma distinct_dict_set:
  "distinct (map fst d) \<Longrightarrow> distinct (map fst (dict_set k v d))"
proof (induction k v d rule: dict_set.induct)
  case (2 k v k' v' d)
  then show ?case using keys_dict_set [of k v d] by (auto simp: image_iff)
qed simp

lemma distinct_dict_pop: "distinct (map fst d) \<Longrightarrow> distinct (map fst (dict_pop k d))"
  by (induction d) (auto simp: dict_pop_def)

section \<open>Interfaces\<close>

text \<open>
  A clamp: the result lies between the bounds, values between the bounds are kept, and
  the order is kept.
\<close>

locale clamp_op =
  fixes le :: "'a \<Rightarrow> 'a \<Rightarrow> bool"
    and lo hi :: 'a
    and clamp :: "'a \<Rightarrow> 'a"
    and dom_ok :: "'a \<Rightarrow> bool"
  assumes clamp_ge: "dom_ok x \<Longrightarrow> le lo (clamp x)"
    and clamp_le: "dom_ok x \<Longrightarrow> le (clamp x) hi"
    and clamp_id: "dom_ok x \<Longrightarrow> le lo x \<Longrightarrow> le x hi \<Longrightarrow> clamp x = x"
    and clamp_dom: "dom_ok x \<Longrightarrow> dom_ok (clamp x)"
begin

lemma clamp_range: "dom_ok x \<Longrightarrow> le lo (clamp x) \<and> le (clamp x) hi"
  by (simp add: clamp_ge clamp_le)

lemma clamp_idem: "dom_ok x \<Longrightarrow> clamp (clamp x) = clamp x"
  by (simp add: clamp_ge clamp_le clamp_id clamp_dom)

end

text \<open>
  A bounded buffer: an append keeps the newest \<open>cap\<close> items. Whatever is appended, the
  buffer holds the end of everything appended so far.
\<close>

locale bounded_buffer =
  fixes cap :: nat
    and items :: "'b \<Rightarrow> 'a list"
    and push :: "'a \<Rightarrow> 'b \<Rightarrow> 'b"
  assumes items_push: "items (push a b) = take_last cap (items b @ [a])"
begin

lemma items_bounded: "length (items (push a b)) \<le> cap"
  by (simp add: items_push)

lemma push_newest: "0 < cap \<Longrightarrow> last (items (push a b)) = a"
  by (simp add: items_push last_take_last)

lemma items_fold_push:
  "length (items b) \<le> cap \<Longrightarrow> items (fold push as b) = take_last cap (items b @ as)"
proof (induction as arbitrary: b)
  case Nil
  then show ?case by simp
next
  case (Cons a as)
  have "items (fold push as (push a b)) = take_last cap (items (push a b) @ as)"
    by (rule Cons.IH) (rule items_bounded)
  also have "\<dots> = take_last cap (items b @ a # as)"
    by (simp add: items_push take_last_take_last_snoc)
  finally show ?case by simp
qed

lemma items_fold_bounded:
  "length (items b) \<le> cap \<Longrightarrow> length (items (fold push as b)) \<le> cap"
  by (simp add: items_fold_push)

end

text \<open>
  A deterministic machine with an invariant: what every step keeps, every run keeps.
\<close>

locale invariant_machine =
  fixes step :: "'s \<Rightarrow> 'e \<Rightarrow> 's"
    and inv :: "'s \<Rightarrow> bool"
  assumes step_inv: "inv s \<Longrightarrow> inv (step s e)"
begin

lemma run_inv: "inv s \<Longrightarrow> inv (foldl step s es)"
  by (induction es arbitrary: s) (auto intro: step_inv)

end

end
