(* ===== verification/PyFloat.thy ===== *)
theory PyFloat
  imports Prelude
begin

text \<open>
  Python floats. A double is an exact rational, a negative zero, an infinity or a NaN;
  every arithmetic operation rounds to the nearest double, ties to even, as IEEE 754
  and CPython do. The rounding is executable and is proved monotone and exact on the
  values a format represents. The last section is the 32-bit format of
  \<open>struct.pack(">f")\<close> and \<open>struct.unpack(">f")\<close>.
\<close>

section \<open>Rounding a rational to an integer\<close>

text \<open>Round half to even: Python's \<open>round(x)\<close> and the rounding of a significand.\<close>

definition rhe :: "rat \<Rightarrow> int" where
  "rhe x = (let f = \<lfloor>x\<rfloor>; d = x - of_int f
            in if d < 1/2 then f else if 1/2 < d then f + 1 else if even f then f else f + 1)"

lemma rhe_of_int [simp]: "rhe (of_int n) = n"
  by (simp add: rhe_def)

lemma rhe_cases: "rhe x = \<lfloor>x\<rfloor> \<or> rhe x = \<lfloor>x\<rfloor> + 1"
  by (simp add: rhe_def Let_def)

lemma rhe_error: "\<bar>of_int (rhe x) - x\<bar> \<le> 1/2"
proof -
  have "of_int \<lfloor>x\<rfloor> \<le> x" and "x < of_int \<lfloor>x\<rfloor> + 1"
    by (simp_all add: of_int_floor_le) linarith
  moreover define d where "d = x - of_int \<lfloor>x\<rfloor>"
  ultimately have d: "0 \<le> d" "d < 1" by simp_all
  have "of_int (rhe x) - x = (if d < 1/2 then - d else if 1/2 < d then 1 - d
      else if even \<lfloor>x\<rfloor> then - d else 1 - d)"
    by (simp add: rhe_def d_def)
  with d show ?thesis by (simp add: abs_if)
qed

lemma rhe_mono:
  assumes "x \<le> y" shows "rhe x \<le> rhe y"
proof (cases "\<lfloor>x\<rfloor> = \<lfloor>y\<rfloor>")
  case True
  then show ?thesis using assms by (auto simp: rhe_def Let_def)
next
  case False
  then have "\<lfloor>x\<rfloor> + 1 \<le> \<lfloor>y\<rfloor>" using floor_mono [OF assms] by linarith
  then show ?thesis using rhe_cases [of x] rhe_cases [of y] by linarith
qed

lemma rhe_nonneg: "0 \<le> x \<Longrightarrow> 0 \<le> rhe x"
  using rhe_mono [of 0 x] rhe_of_int [of 0] by simp

lemma rhe_le_of_int: "x \<le> of_int n \<Longrightarrow> rhe x \<le> n"
  using rhe_mono [of x "of_int n"] by simp

lemma of_int_le_rhe: "of_int n \<le> x \<Longrightarrow> n \<le> rhe x"
  using rhe_mono [of "of_int n" x] by simp

section \<open>The binary exponent of a rational\<close>

definition pow2 :: "int \<Rightarrow> rat" where
  "pow2 e = (if 0 \<le> e then 2 ^ nat e else 1 / 2 ^ nat (- e))"

lemma pow2_powi: "pow2 e = 2 powi e"
  by (simp add: pow2_def power_int_def inverse_eq_divide power_divide)

lemma pow2_pos [simp]: "0 < pow2 e"
  by (simp add: pow2_def)

lemma pow2_nonneg [simp]: "0 \<le> pow2 e"
  by (simp add: less_imp_le)

lemma pow2_nz [simp]: "pow2 e \<noteq> 0"
  using pow2_pos [of e] by linarith

lemma pow2_add: "pow2 (a + b) = pow2 a * pow2 b"
  by (simp add: pow2_powi power_int_add)

lemma pow2_diff: "pow2 (a - b) = pow2 a / pow2 b"
  by (simp add: pow2_powi power_int_diff)

lemma pow2_mono: "a \<le> b \<Longrightarrow> pow2 a \<le> pow2 b"
  by (simp add: pow2_powi power_int_increasing)

lemma pow2_strict_mono: "a < b \<Longrightarrow> pow2 a < pow2 b"
  by (simp add: pow2_powi power_int_strict_increasing)

lemma pow2_less_cancel: "pow2 a < pow2 b \<Longrightarrow> a < b"
  using pow2_mono [of b a] by (meson linorder_not_less)

lemma pow2_nat: "pow2 (int n) = of_int (2 ^ n)"
  by (simp add: pow2_def)

lemma pow2_not_le_0 [simp]: "\<not> pow2 e \<le> 0"
  by (simp add: linorder_not_le)

lemma pow2_shift: "of_int (2 ^ n) * pow2 e = pow2 (int n + e)"
  by (simp only: pow2_add pow2_nat)

definition ilog2 :: "rat \<Rightarrow> int" where
  "ilog2 x = (let (p, q) = quotient_of x; k = int (nat (bitlen p)) - int (nat (bitlen q))
              in if pow2 k \<le> x then k else k - 1)"

lemma bitlen_pow2_bounds:
  assumes "0 < p"
  shows "pow2 (bitlen p - 1) \<le> of_int p" and "(of_int p :: rat) < pow2 (bitlen p)"
proof -
  have b: "2 ^ nat (bitlen p - 1) \<le> p" "p < 2 ^ nat (bitlen p)"
    using bitlen_bounds [of p] assms by auto
  have nn: "0 \<le> bitlen p" "1 \<le> bitlen p" using assms bitlen_nonneg [of p]
    by (auto simp: bitlen_eq_zero_iff order.order_iff_strict)
  have "(of_int (2 ^ nat (bitlen p - 1)) :: rat) \<le> of_int p"
    using b(1) by (simp only: of_int_le_iff)
  then show "pow2 (bitlen p - 1) \<le> of_int p"
    using nn pow2_nat [of "nat (bitlen p - 1)"] by simp
  have "(of_int p :: rat) < of_int (2 ^ nat (bitlen p))"
    using b(2) by (simp only: of_int_less_iff)
  then show "(of_int p :: rat) < pow2 (bitlen p)"
    using nn pow2_nat [of "nat (bitlen p)"] by simp
qed

lemma ilog2_bounds:
  assumes "0 < x"
  shows "pow2 (ilog2 x) \<le> x" and "x < pow2 (ilog2 x + 1)"
proof -
  obtain p q where pq: "quotient_of x = (p, q)" by (cases "quotient_of x")
  have q: "0 < q" using pq quotient_of_denom_pos by blast
  have xq: "x = of_int p / of_int q" using quotient_of_div [OF pq] .
  have p: "0 < p" using assms xq q by (simp add: zero_less_divide_iff)
  let ?k = "bitlen p - bitlen q"
  have k: "ilog2 x = (if pow2 ?k \<le> x then ?k else ?k - 1)"
    by (simp add: ilog2_def pq bitlen_nonneg)
  have qr: "(0::rat) < of_int q" using q by simp
  have "x < pow2 (bitlen p) / of_int q"
    unfolding xq using bitlen_pow2_bounds(2) [OF p] qr by (rule divide_strict_right_mono)
  also have "\<dots> \<le> pow2 (bitlen p) / pow2 (bitlen q - 1)"
    using bitlen_pow2_bounds(1) [OF q] qr by (intro divide_left_mono) auto
  also have "\<dots> = pow2 (?k + 1)" by (simp add: pow2_diff [symmetric] algebra_simps)
  finally have up: "x < pow2 (?k + 1)" .
  have "pow2 (?k - 1) = pow2 (bitlen p - 1) / pow2 (bitlen q)"
    by (simp add: pow2_diff [symmetric] algebra_simps)
  also have "\<dots> \<le> of_int p / pow2 (bitlen q)"
    using bitlen_pow2_bounds(1) [OF p] by (simp add: divide_right_mono)
  also have "\<dots> \<le> x"
    unfolding xq using bitlen_pow2_bounds(2) [OF q] qr p by (intro divide_left_mono) auto
  finally have lo: "pow2 (?k - 1) \<le> x" .
  show "pow2 (ilog2 x) \<le> x" and "x < pow2 (ilog2 x + 1)"
    using up lo by (auto simp: k)
qed

lemma ilog2_unique:
  assumes "pow2 e \<le> x" "x < pow2 (e + 1)" shows "ilog2 x = e"
proof -
  have x: "0 < x" using assms(1) pow2_pos [of e] by linarith
  have "pow2 e < pow2 (ilog2 x + 1)" "pow2 (ilog2 x) < pow2 (e + 1)"
    using ilog2_bounds [OF x] assms by linarith+
  then have "e < ilog2 x + 1" "ilog2 x < e + 1" using pow2_less_cancel by blast+
  then show ?thesis by simp
qed

lemma ilog2_mono: "0 < x \<Longrightarrow> x \<le> y \<Longrightarrow> ilog2 x \<le> ilog2 y"
  using ilog2_bounds [of x] ilog2_bounds [of y] pow2_less_cancel [of "ilog2 x" "ilog2 y + 1"]
  by linarith


section \<open>Rounding to a binary format\<close>

text \<open>
  \<open>p\<close> is the precision and \<open>emin\<close> the least exponent of a normal number: (53, -1022) for
  a double, (24, -126) for a 32-bit float. \<open>expo\<close> is the exponent the significand is
  scaled by, \<open>ulp\<close> the distance of neighbouring values there.
\<close>

definition expo :: "int \<Rightarrow> rat \<Rightarrow> int" where
  "expo emin x = max (ilog2 \<bar>x\<bar>) emin"

definition ulp :: "nat \<Rightarrow> int \<Rightarrow> rat \<Rightarrow> rat" where
  "ulp p emin x = pow2 (expo emin x - (int p - 1))"

definition round_to :: "nat \<Rightarrow> int \<Rightarrow> rat \<Rightarrow> rat" where
  "round_to p emin x =
     (if x = 0 then 0 else of_int (rhe (x / ulp p emin x)) * ulp p emin x)"

lemma ulp_pos [simp]: "0 < ulp p emin x"
  by (simp add: ulp_def)

lemma ulp_nz [simp]: "ulp p emin x \<noteq> 0"
  using ulp_pos [of p emin x] by (metis less_irrefl)

lemma ulp_minus [simp]: "ulp p emin (- x) = ulp p emin x"
  by (simp add: ulp_def expo_def)

lemma rhe_minus: "rhe (- x) = - rhe x"
proof (cases "x \<in> \<int>")
  case True
  then obtain n where "x = of_int n" by (auto elim: Ints_cases)
  then show ?thesis using rhe_of_int [of "- n"] by simp
next
  case False
  define f where "f = \<lfloor>x\<rfloor>"
  have "x \<noteq> of_int f" using False Ints_of_int by metis
  moreover have "of_int f \<le> x" "x < of_int f + 1"
    by (simp_all add: f_def of_int_floor_le) linarith
  ultimately have "of_int (- f - 1) \<le> - x" "- x < of_int (- f - 1) + 1" by simp_all
  then have fx: "\<lfloor>- x\<rfloor> = - f - 1" by (rule floor_unique)
  show ?thesis
    unfolding rhe_def Let_def fx f_def [symmetric] by (auto simp: algebra_simps)
qed

lemma round_to_0 [simp]: "round_to p emin 0 = 0"
  by (simp add: round_to_def)

lemma round_to_minus: "round_to p emin (- x) = - round_to p emin x"
  by (simp add: round_to_def rhe_minus minus_divide_left [symmetric])

lemma round_to_nonneg: "0 \<le> x \<Longrightarrow> 0 \<le> round_to p emin x"
  by (simp add: round_to_def rhe_nonneg less_imp_le)

lemma round_to_exact:
  assumes x: "x = of_int m * pow2 e" and m: "\<bar>m\<bar> < 2 ^ p" and e: "emin - (int p - 1) \<le> e"
  shows "round_to p emin x = x"
proof (cases "m = 0")
  case True
  then show ?thesis by (simp add: x)
next
  case False
  have "\<bar>x\<bar> = of_int \<bar>m\<bar> * pow2 e" by (simp add: x abs_mult)
  also have "\<dots> < of_int (2 ^ p) * pow2 e"
    using m by (intro mult_strict_right_mono) (simp_all only: of_int_less_iff pow2_pos)
  also have "\<dots> = pow2 (int p + e)" by (simp add: pow2_add pow2_nat)
  finally have ub: "\<bar>x\<bar> < pow2 (int p + e)" .
  have "0 < \<bar>x\<bar>" using False by (simp add: x)
  then have "pow2 (ilog2 \<bar>x\<bar>) < pow2 (int p + e)"
    by (rule le_less_trans [OF ilog2_bounds(1) ub])
  then have "ilog2 \<bar>x\<bar> < int p + e" by (rule pow2_less_cancel)
  with e have le: "expo emin x - (int p - 1) \<le> e" by (simp add: expo_def)
  define k where "k = nat (e - (expo emin x - (int p - 1)))"
  have "x / ulp p emin x = of_int m * pow2 (e - (expo emin x - (int p - 1)))"
    by (simp add: x ulp_def pow2_diff)
  also have "\<dots> = of_int (m * 2 ^ k)"
    using le pow2_nat [of k] by (simp add: k_def)
  finally have q: "x / ulp p emin x = of_int (m * 2 ^ k)" .
  have "of_int (rhe (x / ulp p emin x)) * ulp p emin x = x / ulp p emin x * ulp p emin x"
    by (simp only: q rhe_of_int)
  also have "\<dots> = x" using ulp_pos [of p emin x] by simp
  finally show ?thesis using False by (simp add: round_to_def x)
qed

lemma round_to_pos_bounds:
  assumes x: "0 < x" and p: "0 < p"
  shows "round_to p emin x \<le> pow2 (expo emin x + 1)"
    and "emin \<le> ilog2 x \<Longrightarrow> pow2 (expo emin x) \<le> round_to p emin x"
proof -
  let ?u = "ulp p emin x"
  have r: "round_to p emin x = of_int (rhe (x / ?u)) * ?u"
    using x by (simp add: round_to_def)
  have "x \<le> pow2 (expo emin x + 1)"
    using ilog2_bounds(2) [OF x] pow2_mono [of "ilog2 x + 1" "expo emin x + 1"] x
    by (simp add: expo_def)
  then have "x / ?u \<le> pow2 (expo emin x + 1) / ?u" by (simp add: divide_right_mono less_imp_le)
  also have "\<dots> = of_int (2 ^ p)" by (simp add: ulp_def pow2_diff [symmetric] pow2_nat)
  finally have "rhe (x / ?u) \<le> 2 ^ p" by (rule rhe_le_of_int)
  then have "of_int (rhe (x / ?u)) * ?u \<le> of_int (2 ^ p) * ?u"
    by (intro mult_right_mono) (simp_all only: of_int_le_iff ulp_pos less_imp_le)
  also have "\<dots> = pow2 (expo emin x + 1)"
    by (simp only: ulp_def pow2_nat [symmetric] pow2_add [symmetric]) simp
  finally show "round_to p emin x \<le> pow2 (expo emin x + 1)" by (simp only: r)
  assume "emin \<le> ilog2 x"
  then have ex: "expo emin x = ilog2 x" using x by (simp add: expo_def)
  have pn: "of_int (2 ^ (p - 1)) = pow2 (int p - 1)"
    using pow2_nat [of "p - 1"] p by (simp add: of_nat_diff Suc_leI)
  also have "\<dots> = pow2 (ilog2 x) / ?u" by (simp add: ulp_def ex pow2_diff [symmetric])
  also have "\<dots> \<le> x / ?u"
    using ilog2_bounds(1) [OF x] by (simp add: divide_right_mono less_imp_le)
  finally have "2 ^ (p - 1) \<le> rhe (x / ?u)" by (rule of_int_le_rhe)
  then have "of_int (2 ^ (p - 1)) * ?u \<le> of_int (rhe (x / ?u)) * ?u"
    by (intro mult_right_mono) (simp_all only: of_int_le_iff ulp_pos less_imp_le)
  moreover have "of_int (2 ^ (p - 1)) * ?u = pow2 (expo emin x)"
    by (simp only: ulp_def pn pow2_add [symmetric]) simp
  ultimately show "pow2 (expo emin x) \<le> round_to p emin x" by (simp only: r)
qed

lemma round_to_mono_pos:
  assumes x: "0 < x" and xy: "x \<le> y" and p: "0 < p"
  shows "round_to p emin x \<le> round_to p emin y"
proof (cases "expo emin x = expo emin y")
  case True
  then have "ulp p emin x = ulp p emin y" by (simp add: ulp_def)
  moreover have "rhe (x / ulp p emin y) \<le> rhe (y / ulp p emin y)"
    using xy by (intro rhe_mono divide_right_mono) (simp_all add: less_imp_le)
  ultimately show ?thesis
    using x xy by (simp add: round_to_def mult_right_mono less_imp_le)
next
  case False
  have y: "0 < y" using x xy by simp
  have "ilog2 x \<le> ilog2 y" using ilog2_mono [OF x xy] .
  then have lt: "expo emin x + 1 \<le> expo emin y" and em: "emin \<le> ilog2 y"
    using False x y by (auto simp: expo_def)
  have "round_to p emin x \<le> pow2 (expo emin x + 1)"
    by (rule round_to_pos_bounds(1) [OF x p])
  also have "\<dots> \<le> pow2 (expo emin y)" using lt by (rule pow2_mono)
  also have "\<dots> \<le> round_to p emin y" by (rule round_to_pos_bounds(2) [OF y p em])
  finally show ?thesis .
qed

lemma round_to_mono:
  assumes "x \<le> y" and p: "0 < p"
  shows "round_to p emin x \<le> round_to p emin y"
proof -
  consider "0 < x" | "x \<le> 0" "0 \<le> y" | "y < 0" using assms(1) by linarith
  then show ?thesis
  proof cases
    case 1
    then show ?thesis using assms by (simp add: round_to_mono_pos)
  next
    case 2
    then show ?thesis
      using round_to_nonneg [of y p emin] round_to_nonneg [of "- x" p emin]
      by (simp add: round_to_minus)
  next
    case 3
    then have "round_to p emin (- y) \<le> round_to p emin (- x)"
      using assms by (intro round_to_mono_pos) simp_all
    then show ?thesis by (simp add: round_to_minus)
  qed
qed

lemma round_to_of_int:
  assumes "\<bar>m\<bar> < 2 ^ p" and "emin \<le> int p - 1"
  shows "round_to p emin (of_int m) = of_int m"
  using assms by (intro round_to_exact [where m = m and e = 0]) (auto simp: pow2_def)

lemma round_to_idem:
  assumes p: "0 < p"
  shows "round_to p emin (round_to p emin x) = round_to p emin x"
proof -
  have pos: "round_to p emin (round_to p emin x) = round_to p emin x" if x: "0 < x" for x
  proof -
    define m where "m = rhe (x / ulp p emin x)"
    define e where "e = expo emin x - (int p - 1)"
    have r: "round_to p emin x = of_int m * pow2 e"
      using x by (simp add: round_to_def m_def e_def ulp_def)
    have m0: "0 \<le> m" using x by (simp add: m_def rhe_nonneg less_imp_le)
    have e0: "emin - (int p - 1) \<le> e" by (simp add: e_def expo_def)
    have "of_int m * pow2 e \<le> pow2 (expo emin x + 1)"
      using round_to_pos_bounds(1) [OF x p, of emin] by (simp only: r)
    also have "\<dots> = of_int (2 ^ p) * pow2 e"
      by (simp only: e_def pow2_nat [symmetric] pow2_add [symmetric]) simp
    finally have "(of_int m :: rat) \<le> of_int (2 ^ p)"
      by (simp only: mult_le_cancel_right_pos [OF pow2_pos])
    then have mp: "m \<le> 2 ^ p" by (simp only: of_int_le_iff)
    show ?thesis
    proof (cases "m = 2 ^ p")
      case True
      have r1: "round_to p emin x = of_int 1 * pow2 (e + int p)"
        by (simp add: r True pow2_add pow2_nat)
      show ?thesis using e0 p by (rule_tac round_to_exact [OF r1]) auto
    next
      case False
      then have "\<bar>m\<bar> < 2 ^ p" using mp m0 by simp
      then show ?thesis by (rule round_to_exact [OF r _ e0])
    qed
  qed
  consider "0 < x" | "x = 0" | "0 < - x" by linarith
  then show ?thesis
  proof cases
    case 3
    then show ?thesis using pos [of "- x"] by (simp add: round_to_minus)
  qed (simp_all add: pos)
qed

section \<open>Python floats\<close>

datatype pyexc = ValueError | TypeError | OverflowError | ZeroDivisionError | StructError
  | IndexError | KeyError

datatype pyfloat = FFin rat | FNegZero | FPosInf | FNegInf | FNaN

definition is_double :: "rat \<Rightarrow> bool" where
  "is_double r \<longleftrightarrow> round_to 53 (-1022) r = r \<and> \<bar>r\<bar> < pow2 1024"

text \<open>A value a Python float can hold.\<close>

definition wf_float :: "pyfloat \<Rightarrow> bool" where
  "wf_float x = (case x of FFin r \<Rightarrow> is_double r | _ \<Rightarrow> True)"

text \<open>The double nearest to an exact result; \<open>neg\<close> is the sign of a zero result.\<close>

definition mk_float :: "bool \<Rightarrow> rat \<Rightarrow> pyfloat" where
  "mk_float neg r = (let r' = round_to 53 (-1022) r
     in if r' = 0 then (if neg then FNegZero else FFin 0)
        else if pow2 1024 \<le> r' then FPosInf
        else if r' \<le> - pow2 1024 then FNegInf
        else FFin r')"

fun frat :: "pyfloat \<Rightarrow> rat" where
  "frat (FFin r) = r"
| "frat _ = 0"

fun is_finite :: "pyfloat \<Rightarrow> bool" where
  "is_finite (FFin _) = True"
| "is_finite FNegZero = True"
| "is_finite _ = False"

definition is_nan :: "pyfloat \<Rightarrow> bool" where
  "is_nan x \<longleftrightarrow> x = FNaN"

definition is_inf :: "pyfloat \<Rightarrow> bool" where
  "is_inf x \<longleftrightarrow> x = FPosInf \<or> x = FNegInf"

text \<open>Comparisons: a NaN compares false, both zeros are equal.\<close>

fun flt :: "pyfloat \<Rightarrow> pyfloat \<Rightarrow> bool" where
  "flt FNaN _ = False"
| "flt _ FNaN = False"
| "flt FNegInf y = (y \<noteq> FNegInf)"
| "flt x FPosInf = (x \<noteq> FPosInf)"
| "flt FPosInf _ = False"
| "flt _ FNegInf = False"
| "flt x y = (frat x < frat y)"

fun feq :: "pyfloat \<Rightarrow> pyfloat \<Rightarrow> bool" where
  "feq FNaN _ = False"
| "feq _ FNaN = False"
| "feq FPosInf y = (y = FPosInf)"
| "feq x FPosInf = False"
| "feq FNegInf y = (y = FNegInf)"
| "feq x FNegInf = False"
| "feq x y = (frat x = frat y)"

definition fle :: "pyfloat \<Rightarrow> pyfloat \<Rightarrow> bool" where
  "fle x y \<longleftrightarrow> flt x y \<or> feq x y"

text \<open>\<open>max(a, b)\<close> and \<open>min(a, b)\<close> return their first argument unless the second beats it.\<close>

definition py_max :: "pyfloat \<Rightarrow> pyfloat \<Rightarrow> pyfloat" where
  "py_max a b = (if flt a b then b else a)"

definition py_min :: "pyfloat \<Rightarrow> pyfloat \<Rightarrow> pyfloat" where
  "py_min a b = (if flt b a then b else a)"

fun fneg :: "pyfloat \<Rightarrow> pyfloat" where
  "fneg (FFin r) = (if r = 0 then FNegZero else FFin (- r))"
| "fneg FNegZero = FFin 0"
| "fneg FPosInf = FNegInf"
| "fneg FNegInf = FPosInf"
| "fneg FNaN = FNaN"

fun fabs :: "pyfloat \<Rightarrow> pyfloat" where
  "fabs (FFin r) = FFin \<bar>r\<bar>"
| "fabs FNegZero = FFin 0"
| "fabs FPosInf = FPosInf"
| "fabs FNegInf = FPosInf"
| "fabs FNaN = FNaN"

fun fsign :: "pyfloat \<Rightarrow> bool" where
  "fsign (FFin r) = (r < 0)"
| "fsign FNegZero = True"
| "fsign FNegInf = True"
| "fsign _ = False"

fun fadd :: "pyfloat \<Rightarrow> pyfloat \<Rightarrow> pyfloat" where
  "fadd FNaN _ = FNaN"
| "fadd _ FNaN = FNaN"
| "fadd FPosInf y = (if y = FNegInf then FNaN else FPosInf)"
| "fadd FNegInf y = (if y = FPosInf then FNaN else FNegInf)"
| "fadd _ FPosInf = FPosInf"
| "fadd _ FNegInf = FNegInf"
| "fadd x y = mk_float (fsign x \<and> fsign y) (frat x + frat y)"

definition fsub :: "pyfloat \<Rightarrow> pyfloat \<Rightarrow> pyfloat" where
  "fsub x y = fadd x (fneg y)"

definition fmul :: "pyfloat \<Rightarrow> pyfloat \<Rightarrow> pyfloat" where
  "fmul x y = (let neg = (fsign x \<noteq> fsign y)
     in if is_nan x \<or> is_nan y then FNaN
        else if is_inf x \<or> is_inf y
          then (if feq x (FFin 0) \<or> feq y (FFin 0) then FNaN
                else if neg then FNegInf else FPosInf)
        else mk_float neg (frat x * frat y))"

definition fdiv :: "pyfloat \<Rightarrow> pyfloat \<Rightarrow> pyexc + pyfloat" where
  "fdiv x y = (let neg = (fsign x \<noteq> fsign y)
     in if feq y (FFin 0) then Inl ZeroDivisionError
        else if is_nan x \<or> is_nan y then Inr FNaN
        else if is_inf x then (if is_inf y then Inr FNaN
                               else Inr (if neg then FNegInf else FPosInf))
        else if is_inf y then Inr (if neg then FNegZero else FFin 0)
        else Inr (mk_float neg (frat x / frat y)))"

text \<open>\<open>float(n)\<close> of an int, \<open>int(x)\<close> and \<open>round(x)\<close> of a float.\<close>

definition float_of_int :: "int \<Rightarrow> pyexc + pyfloat" where
  "float_of_int n = (let x = mk_float False (of_int n)
     in if is_inf x then Inl OverflowError else Inr x)"

definition trunc_rat :: "rat \<Rightarrow> int" where
  "trunc_rat r = (if 0 \<le> r then \<lfloor>r\<rfloor> else \<lceil>r\<rceil>)"

fun int_of_float :: "pyfloat \<Rightarrow> pyexc + int" where
  "int_of_float FNaN = Inl ValueError"
| "int_of_float FPosInf = Inl OverflowError"
| "int_of_float FNegInf = Inl OverflowError"
| "int_of_float x = Inr (trunc_rat (frat x))"

fun round_float :: "pyfloat \<Rightarrow> pyexc + int" where
  "round_float FNaN = Inl ValueError"
| "round_float FPosInf = Inl OverflowError"
| "round_float FNegInf = Inl OverflowError"
| "round_float x = Inr (rhe (frat x))"

lemma wf_mk_float: "wf_float (mk_float neg r)"
  by (auto simp: wf_float_def mk_float_def Let_def is_double_def round_to_idem abs_if
      split: if_splits)

lemma wf_float_simps [simp]:
  "wf_float FNegZero" "wf_float FPosInf" "wf_float FNegInf" "wf_float FNaN"
  "wf_float (FFin r) = is_double r"
  by (simp_all add: wf_float_def)

lemma wf_fadd: "wf_float (fadd x y)"
  by (cases "(x, y)" rule: fadd.cases) (auto simp: wf_mk_float)

lemma wf_fmul: "wf_float (fmul x y)"
  by (auto simp: fmul_def Let_def wf_mk_float)

lemma wf_fneg: "wf_float x \<Longrightarrow> wf_float (fneg x)"
  by (cases x) (auto simp: wf_float_def is_double_def round_to_minus)

lemma wf_py_max: "wf_float x \<Longrightarrow> wf_float y \<Longrightarrow> wf_float (py_max x y)"
  by (simp add: py_max_def)

lemma wf_py_min: "wf_float x \<Longrightarrow> wf_float y \<Longrightarrow> wf_float (py_min x y)"
  by (simp add: py_min_def)

text \<open>On values that are not NaN the comparisons are a total order.\<close>

lemma feq_refl: "x \<noteq> FNaN \<Longrightarrow> feq x x"
  by (cases x) auto

lemma fle_refl: "x \<noteq> FNaN \<Longrightarrow> fle x x"
  by (simp add: fle_def feq_refl)

lemma not_flt_fle: "x \<noteq> FNaN \<Longrightarrow> y \<noteq> FNaN \<Longrightarrow> \<not> flt x y \<longleftrightarrow> fle y x"
  by (cases x; cases y) (auto simp: fle_def)

lemma flt_fle: "flt x y \<Longrightarrow> fle x y"
  by (simp add: fle_def)

lemma fle_trans: "fle x y \<Longrightarrow> fle y z \<Longrightarrow> fle x z"
  by (cases x; cases y; cases z) (auto simp: fle_def)

lemma fle_FFin [simp]: "fle (FFin a) (FFin b) \<longleftrightarrow> a \<le> b"
  by (auto simp: fle_def)

lemma flt_not_nan: "flt x y \<Longrightarrow> x \<noteq> FNaN \<and> y \<noteq> FNaN"
  by (cases x; cases y) auto

lemma fle_not_nan: "fle x y \<Longrightarrow> x \<noteq> FNaN \<and> y \<noteq> FNaN"
  by (cases x; cases y) (auto simp: fle_def)

lemma flt_irrefl [simp]: "\<not> flt x x"
  by (cases x) auto

lemma flt_fle_contra: "flt x y \<Longrightarrow> fle y x \<Longrightarrow> False"
  using not_flt_fle flt_not_nan by blast

lemma py_max_ge1: "x \<noteq> FNaN \<Longrightarrow> fle x (py_max x y)"
  by (simp add: py_max_def flt_fle fle_refl)

lemma py_max_ge2: "x \<noteq> FNaN \<Longrightarrow> y \<noteq> FNaN \<Longrightarrow> fle y (py_max x y)"
  by (simp add: py_max_def fle_refl not_flt_fle)

lemma py_min_le1: "x \<noteq> FNaN \<Longrightarrow> fle (py_min x y) x"
  by (simp add: py_min_def flt_fle fle_refl)

lemma py_min_le2: "x \<noteq> FNaN \<Longrightarrow> y \<noteq> FNaN \<Longrightarrow> fle (py_min x y) y"
  by (simp add: py_min_def fle_refl not_flt_fle)

lemma py_max_le: "fle x z \<Longrightarrow> fle y z \<Longrightarrow> fle (py_max x y) z"
  by (simp add: py_max_def)

lemma le_py_min: "fle z x \<Longrightarrow> fle z y \<Longrightarrow> fle z (py_min x y)"
  by (simp add: py_min_def)

lemma mk_float_of_int:
  "\<bar>n\<bar> < 2 ^ 53 \<Longrightarrow> mk_float False (of_int n) = FFin (of_int n)"
proof -
  assume n: "\<bar>n\<bar> < 2 ^ 53"
  have "\<bar>of_int n :: rat\<bar> < of_int (2 ^ 53)"
    using n by (simp only: of_int_abs [symmetric] of_int_less_iff)
  then have "\<bar>of_int n :: rat\<bar> < pow2 1024"
    using pow2_mono [of 53 1024] pow2_nat [of 53] by simp
  then show ?thesis
    using round_to_of_int [OF n, of "-1022"] by (simp add: mk_float_def Let_def abs_less_iff)
qed


section \<open>The 32-bit format of struct\<close>

text \<open>
  \<open>struct.unpack(">f", b)\<close> and \<open>struct.pack(">f", x)\<close> on the 32-bit number the four
  bytes hold. Packing rounds to the nearest 32-bit float and raises when a finite value
  is out of range. A NaN packs to the quiet NaN (its payload is not modelled).
\<close>

definition f32_mag :: "int \<Rightarrow> int \<Rightarrow> rat" where
  "f32_mag e f = (if e = 0 then of_int f * pow2 (-149) else of_int (2 ^ 23 + f) * pow2 (e - 150))"

definition f32_of_bits :: "int \<Rightarrow> pyfloat" where
  "f32_of_bits n = (let neg = (2 ^ 31 \<le> n); e = n div 2 ^ 23 mod 256; f = n mod 2 ^ 23
     in if e = 255 then (if f \<noteq> 0 then FNaN else if neg then FNegInf else FPosInf)
        else if e = 0 \<and> f = 0 then (if neg then FNegZero else FFin 0)
        else FFin (if neg then - f32_mag e f else f32_mag e f))"

definition f32_mag_bits :: "rat \<Rightarrow> int" where
  "f32_mag_bits r =
     (if r = 0 then 0
      else if r < pow2 (-126) then \<lfloor>r / pow2 (-149)\<rfloor>
      else let e = ilog2 r in (e + 127) * 2 ^ 23 + (\<lfloor>r / pow2 (e - 23)\<rfloor> - 2 ^ 23))"

fun bits_of_f32 :: "pyfloat \<Rightarrow> pyexc + int" where
  "bits_of_f32 FNaN = Inr 0x7FC00000"
| "bits_of_f32 FPosInf = Inr 0x7F800000"
| "bits_of_f32 FNegInf = Inr 0xFF800000"
| "bits_of_f32 FNegZero = Inr 0x80000000"
| "bits_of_f32 (FFin r) =
     (let a = round_to 24 (-126) \<bar>r\<bar>
      in if pow2 128 \<le> a then Inl OverflowError
         else Inr ((if r < 0 then 2 ^ 31 else 0) + f32_mag_bits a))"

lemma f32_mag_subnormal:
  assumes "0 < f" "f < 2 ^ 23"
  shows "round_to 24 (-126) (f32_mag 0 f) = f32_mag 0 f"
    and "f32_mag 0 f < pow2 (-126)" and "0 < f32_mag 0 f"
    and "f32_mag_bits (f32_mag 0 f) = f"
proof -
  have r: "f32_mag 0 f = of_int f * pow2 (-149)" by (simp add: f32_mag_def)
  show "round_to 24 (-126) (f32_mag 0 f) = f32_mag 0 f"
    using assms by (intro round_to_exact [OF r]) simp_all
  have "of_int f * pow2 (-149) < of_int (2 ^ 23) * pow2 (-149)"
    using assms by (intro mult_strict_right_mono) (simp_all only: of_int_less_iff pow2_pos)
  also have "\<dots> = pow2 (-126)" using pow2_shift [of 23 "-149"] by simp
  finally show lt: "f32_mag 0 f < pow2 (-126)" by (simp only: r)
  show pos: "0 < f32_mag 0 f" using assms by (simp add: r)
  show "f32_mag_bits (f32_mag 0 f) = f" using lt pos by (simp add: f32_mag_bits_def r)
qed

lemma f32_mag_normal:
  assumes e: "1 \<le> e" "e \<le> 254" and f: "0 \<le> f" "f < 2 ^ 23"
  shows "round_to 24 (-126) (f32_mag e f) = f32_mag e f"
    and "f32_mag e f < pow2 128" and "0 < f32_mag e f"
    and "f32_mag_bits (f32_mag e f) = e * 2 ^ 23 + f"
proof -
  have r: "f32_mag e f = of_int (2 ^ 23 + f) * pow2 (e - 150)" using e by (simp add: f32_mag_def)
  show "round_to 24 (-126) (f32_mag e f) = f32_mag e f"
    using e f by (intro round_to_exact [OF r]) simp_all
  have "of_int (2 ^ 23) * pow2 (e - 150) \<le> of_int (2 ^ 23 + f) * pow2 (e - 150)"
    using f by (intro mult_right_mono) simp_all
  moreover have "of_int (2 ^ 23) * pow2 (e - 150) = pow2 (e - 127)"
    using pow2_shift [of 23 "e - 150"] by simp
  ultimately have lo: "pow2 (e - 127) \<le> f32_mag e f" by (simp only: r)
  have "of_int (2 ^ 23 + f) * pow2 (e - 150) < of_int (2 ^ 24) * pow2 (e - 150)"
    using f by (intro mult_strict_right_mono) simp_all
  also have "\<dots> = pow2 (e - 127 + 1)"
    using pow2_shift [of 24 "e - 150"] by simp
  finally have hi: "f32_mag e f < pow2 (e - 127 + 1)" by (simp only: r)
  show "f32_mag e f < pow2 128"
    using hi pow2_mono [of "e - 127 + 1" 128] e by simp
  show pos: "0 < f32_mag e f" using lo pow2_pos [of "e - 127"] by linarith
  have l: "ilog2 (f32_mag e f) = e - 127" using lo hi by (rule ilog2_unique)
  have nb: "\<not> f32_mag e f < pow2 (-126)"
    using lo pow2_mono [of "-126" "e - 127"] e by simp
  have "f32_mag e f / pow2 (e - 127 - 23) = of_int (2 ^ 23 + f)" by (simp add: r)
  then have "\<lfloor>f32_mag e f / pow2 (e - 127 - 23)\<rfloor> = 2 ^ 23 + f" by (simp only: floor_of_int)
  then show "f32_mag_bits (f32_mag e f) = e * 2 ^ 23 + f"
    using pos nb by (simp add: f32_mag_bits_def l)
qed

text \<open>Packing what was unpacked gives the same 32 bits, whatever they were, NaNs apart.\<close>

lemma bits_of_f32_of_bits:
  assumes n: "0 \<le> n" "n < 2 ^ 32" and nn: "f32_of_bits n \<noteq> FNaN"
  shows "bits_of_f32 (f32_of_bits n) = Inr n"
proof -
  define e where "e = n div 2 ^ 23 mod 256"
  define f where "f = n mod 2 ^ 23"
  define s where "s = (if 2 ^ 31 \<le> n then 2 ^ 31 else 0 :: int)"
  have f: "0 \<le> f" "f < 2 ^ 23" by (simp_all add: f_def)
  have e: "0 \<le> e" "e < 256" by (simp_all add: e_def)
  have ns: "n = s + e * 2 ^ 23 + f"
  proof (cases "2 ^ 31 \<le> n")
    case True
    then have "n div 2 ^ 23 = 256 + (n - 2 ^ 31) div 2 ^ 23" by simp
    moreover have "(n - 2 ^ 31) div 2 ^ 23 < 256" "0 \<le> (n - 2 ^ 31) div 2 ^ 23"
      using n True by simp_all
    ultimately have "n div 2 ^ 23 = 256 + e" by (simp add: e_def)
    then show ?thesis using True by (simp add: s_def f_def) presburger
  next
    case False
    then have "n div 2 ^ 23 < 256" using n by simp
    then have "n div 2 ^ 23 = e" using n by (simp add: e_def)
    then show ?thesis using False by (simp add: s_def f_def) presburger
  qed
  have v: "f32_of_bits n =
    (if e = 255 then (if f \<noteq> 0 then FNaN else if 2 ^ 31 \<le> n then FNegInf else FPosInf)
     else if e = 0 \<and> f = 0 then (if 2 ^ 31 \<le> n then FNegZero else FFin 0)
     else FFin (if 2 ^ 31 \<le> n then - f32_mag e f else f32_mag e f))"
    by (simp only: f32_of_bits_def Let_def e_def f_def)
  consider "e = 255" "f = 0" | "e = 0" "f = 0" | "e = 0" "0 < f" | "1 \<le> e" "e \<le> 254"
    using v nn e f by (cases "e = 255"; cases "e = 0"; cases "f = 0") auto
  then show ?thesis
  proof cases
    case 1
    then show ?thesis using ns by (simp add: v s_def split: if_splits)
  next
    case 2
    then show ?thesis using ns by (simp add: v s_def f32_mag_bits_def split: if_splits)
  next
    case 3
    note h = f32_mag_subnormal [OF 3(2) f(2)]
    have "\<not> pow2 128 \<le> f32_mag 0 f" using h(2) pow2_mono [of "-126" 128] by simp
    then show ?thesis
      unfolding v using 3 h ns by (cases "2 ^ 31 \<le> n") (simp_all add: s_def)
  next
    case 4
    note h = f32_mag_normal [OF 4 f]
    show ?thesis
      unfolding v using 4 h ns by (cases "2 ^ 31 \<le> n") (simp_all add: s_def)
  qed
qed

lemma f32_of_bits_finite_iff:
  "is_finite (f32_of_bits n) \<longleftrightarrow> n div 2 ^ 23 mod 256 \<noteq> 255"
  by (simp add: f32_of_bits_def Let_def)

end
