(* ===== verification/Registers.thy ===== *)
theory Registers
  imports PyFloat
begin

text \<open>
  The register map, \<^verbatim>\<open>modbus_registers.py\<close>: one definition per register in the order of the
  file, the tables derived from them, and the facts the other components rest on (names
  and addresses identify a register, the blocks do not overlap, every battery-control
  word is in the protected set).
\<close>

section \<open>Registers\<close>

datatype data_type = UINT16 | UINT32 | SINT16 | SINT32 | FLOAT32 | STRING | BOOL | UINT8

datatype access = RO | RW

datatype register_group = G_DEVICE_INFO | G_POWER | G_ENERGY | G_PHASE | G_BATTERY
  | G_POWERMETER | G_CONTROL | G_BATTERY_MGMT | G_BATTERY_LIMIT_G3 | G_IO_BOARD | G_NETWORK

record modbus_register =
  rg_address :: nat
  rg_name :: string
  rg_description :: string
  rg_dtype :: data_type
  rg_count :: nat
  rg_access :: access
  rg_group :: register_group
  rg_unit :: "string option"

definition mk_reg :: "nat \<Rightarrow> string \<Rightarrow> string \<Rightarrow> data_type \<Rightarrow> nat \<Rightarrow> access \<Rightarrow> register_group
    \<Rightarrow> string option \<Rightarrow> modbus_register" where
  "mk_reg a n d t c ac g u = \<lparr>rg_address = a, rg_name = n, rg_description = d, rg_dtype = t,
     rg_count = c, rg_access = ac, rg_group = g, rg_unit = u\<rparr>"

lemma mk_reg_simps [simp]:
  "rg_address (mk_reg a n d t c ac g u) = a" "rg_name (mk_reg a n d t c ac g u) = n"
  "rg_dtype (mk_reg a n d t c ac g u) = t" "rg_count (mk_reg a n d t c ac g u) = c"
  "rg_access (mk_reg a n d t c ac g u) = ac" "rg_group (mk_reg a n d t c ac g u) = g"
  "rg_unit (mk_reg a n d t c ac g u) = u" "rg_description (mk_reg a n d t c ac g u) = d"
  by (simp_all add: mk_reg_def)

definition DEFAULT_MODBUS_PORT :: nat where
  "DEFAULT_MODBUS_PORT = 1502"

definition DEFAULT_UNIT_ID :: nat where
  "DEFAULT_UNIT_ID = 71"

definition REG_MODBUS_ENABLE :: modbus_register where
  "REG_MODBUS_ENABLE = mk_reg 2 ''modbus_enable'' ''MODBUS Enable'' BOOL 1 RW G_DEVICE_INFO (None)"

definition REG_UNIT_ID :: modbus_register where
  "REG_UNIT_ID = mk_reg 4 ''unit_id'' ''MODBUS Unit-ID'' UINT16 1 RW G_DEVICE_INFO (None)"

definition REG_BYTE_ORDER :: modbus_register where
  "REG_BYTE_ORDER = mk_reg 5 ''byte_order'' ''MODBUS Byte Order'' UINT16 1 RW G_DEVICE_INFO (None)"

definition REG_ARTICLE_NUMBER :: modbus_register where
  "REG_ARTICLE_NUMBER = mk_reg 6 ''article_number'' ''Inverter article number'' STRING 8 RO G_DEVICE_INFO (None)"

definition REG_SERIAL_NUMBER :: modbus_register where
  "REG_SERIAL_NUMBER = mk_reg 14 ''serial_number'' ''Inverter serial number'' STRING 8 RO G_DEVICE_INFO (None)"

definition REG_NUM_BIDIRECTIONAL :: modbus_register where
  "REG_NUM_BIDIRECTIONAL = mk_reg 30 ''num_bidirectional'' ''Number of bidirectional converter'' UINT16 1 RO G_DEVICE_INFO (None)"

definition REG_NUM_AC_PHASES :: modbus_register where
  "REG_NUM_AC_PHASES = mk_reg 32 ''num_ac_phases'' ''Number of AC phases'' UINT16 1 RO G_DEVICE_INFO (None)"

definition REG_NUM_PV_STRINGS :: modbus_register where
  "REG_NUM_PV_STRINGS = mk_reg 34 ''num_pv_strings'' ''Number of PV strings'' UINT16 1 RO G_DEVICE_INFO (None)"

definition REG_HW_VERSION :: modbus_register where
  "REG_HW_VERSION = mk_reg 36 ''hw_version'' ''Hardware-Version'' UINT16 2 RO G_DEVICE_INFO (None)"

definition REG_SW_VERSION_MC :: modbus_register where
  "REG_SW_VERSION_MC = mk_reg 38 ''sw_version_mc'' ''Software-Version Maincontroller'' STRING 8 RO G_DEVICE_INFO (None)"

definition REG_SW_VERSION_IOC :: modbus_register where
  "REG_SW_VERSION_IOC = mk_reg 46 ''sw_version_ioc'' ''Software-Version IO-Controller'' STRING 8 RO G_DEVICE_INFO (None)"

definition REG_POWER_ID :: modbus_register where
  "REG_POWER_ID = mk_reg 54 ''power_id'' ''Power-ID'' UINT32 2 RO G_DEVICE_INFO (None)"

definition REG_INVERTER_STATE :: modbus_register where
  "REG_INVERTER_STATE = mk_reg 56 ''inverter_state'' ''Inverter state'' UINT32 2 RO G_DEVICE_INFO (None)"

definition REG_SW_VERSION :: modbus_register where
  "REG_SW_VERSION = mk_reg 58 ''sw_version'' ''Overall software version'' STRING 13 RO G_DEVICE_INFO (None)"

definition REG_PRODUCT_NAME :: modbus_register where
  "REG_PRODUCT_NAME = mk_reg 768 ''product_name'' ''Product name'' STRING 32 RO G_DEVICE_INFO (None)"

definition REG_POWER_CLASS :: modbus_register where
  "REG_POWER_CLASS = mk_reg 800 ''power_class'' ''Power class'' STRING 32 RO G_DEVICE_INFO (None)"

definition REG_CONTROLLER_TEMP :: modbus_register where
  "REG_CONTROLLER_TEMP = mk_reg 98 ''controller_temp'' ''Temperature of controller PCB'' FLOAT32 2 RO G_POWER (Some ([CHR 0xB0] @ ''C''))"

definition REG_TOTAL_DC_POWER :: modbus_register where
  "REG_TOTAL_DC_POWER = mk_reg 100 ''total_dc_power'' ''Total DC power'' FLOAT32 2 RO G_POWER (Some ''W'')"

definition REG_EM_STATE :: modbus_register where
  "REG_EM_STATE = mk_reg 104 ''em_state'' ''State of energy manager'' UINT32 2 RO G_POWER (None)"

definition REG_HOME_FROM_BATTERY :: modbus_register where
  "REG_HOME_FROM_BATTERY = mk_reg 106 ''home_from_battery'' ''Home own consumption from battery'' FLOAT32 2 RO G_POWER (Some ''W'')"

definition REG_HOME_FROM_GRID :: modbus_register where
  "REG_HOME_FROM_GRID = mk_reg 108 ''home_from_grid'' ''Home own consumption from grid'' FLOAT32 2 RO G_POWER (Some ''W'')"

definition REG_TOTAL_HOME_BATTERY :: modbus_register where
  "REG_TOTAL_HOME_BATTERY = mk_reg 110 ''total_home_battery'' ''Total home consumption Battery'' FLOAT32 2 RO G_ENERGY (Some ''Wh'')"

definition REG_TOTAL_HOME_GRID :: modbus_register where
  "REG_TOTAL_HOME_GRID = mk_reg 112 ''total_home_grid'' ''Total home consumption Grid'' FLOAT32 2 RO G_ENERGY (Some ''Wh'')"

definition REG_TOTAL_HOME_PV :: modbus_register where
  "REG_TOTAL_HOME_PV = mk_reg 114 ''total_home_pv'' ''Total home consumption PV'' FLOAT32 2 RO G_ENERGY (Some ''Wh'')"

definition REG_HOME_FROM_PV :: modbus_register where
  "REG_HOME_FROM_PV = mk_reg 116 ''home_from_pv'' ''Home own consumption from PV'' FLOAT32 2 RO G_POWER (Some ''W'')"

definition REG_TOTAL_HOME_CONSUMPTION :: modbus_register where
  "REG_TOTAL_HOME_CONSUMPTION = mk_reg 118 ''total_home_consumption'' ''Total home consumption'' FLOAT32 2 RO G_ENERGY (Some ''Wh'')"

definition REG_ISOLATION_RESISTANCE :: modbus_register where
  "REG_ISOLATION_RESISTANCE = mk_reg 120 ''isolation_resistance'' ''Isolation resistance'' FLOAT32 2 RO G_POWER (Some ''Ohm'')"

definition REG_POWER_LIMIT_EVU :: modbus_register where
  "REG_POWER_LIMIT_EVU = mk_reg 122 ''power_limit_evu'' ''Power limit from EVU'' FLOAT32 2 RO G_POWER (Some ''%'')"

definition REG_HOME_CONSUMPTION_RATE :: modbus_register where
  "REG_HOME_CONSUMPTION_RATE = mk_reg 124 ''home_consumption_rate'' ''Total home consumption rate'' FLOAT32 2 RO G_POWER (Some ''%'')"

definition REG_WORKTIME :: modbus_register where
  "REG_WORKTIME = mk_reg 144 ''worktime'' ''Worktime'' FLOAT32 2 RO G_DEVICE_INFO (Some ''s'')"

definition REG_COS_PHI :: modbus_register where
  "REG_COS_PHI = mk_reg 150 ''cos_phi'' ''Actual cos phi'' FLOAT32 2 RO G_POWER (None)"

definition REG_GRID_FREQUENCY :: modbus_register where
  "REG_GRID_FREQUENCY = mk_reg 152 ''grid_frequency'' ''Grid frequency'' FLOAT32 2 RO G_POWER (Some ''Hz'')"

definition REG_TOTAL_AC_POWER :: modbus_register where
  "REG_TOTAL_AC_POWER = mk_reg 172 ''total_ac_power'' ''Total AC active power'' FLOAT32 2 RO G_POWER (Some ''W'')"

definition REG_TOTAL_AC_REACTIVE :: modbus_register where
  "REG_TOTAL_AC_REACTIVE = mk_reg 174 ''total_ac_reactive'' ''Total AC reactive power'' FLOAT32 2 RO G_POWER (Some ''Var'')"

definition REG_TOTAL_AC_APPARENT :: modbus_register where
  "REG_TOTAL_AC_APPARENT = mk_reg 178 ''total_ac_apparent'' ''Total AC apparent power'' FLOAT32 2 RO G_POWER (Some ''VA'')"

definition REG_PHASE1_CURRENT :: modbus_register where
  "REG_PHASE1_CURRENT = mk_reg 154 ''phase1_current'' ''Current Phase 1'' FLOAT32 2 RO G_PHASE (Some ''A'')"

definition REG_PHASE1_POWER :: modbus_register where
  "REG_PHASE1_POWER = mk_reg 156 ''phase1_power'' ''Active power Phase 1'' FLOAT32 2 RO G_PHASE (Some ''W'')"

definition REG_PHASE1_VOLTAGE :: modbus_register where
  "REG_PHASE1_VOLTAGE = mk_reg 158 ''phase1_voltage'' ''Voltage Phase 1'' FLOAT32 2 RO G_PHASE (Some ''V'')"

definition REG_PHASE2_CURRENT :: modbus_register where
  "REG_PHASE2_CURRENT = mk_reg 160 ''phase2_current'' ''Current Phase 2'' FLOAT32 2 RO G_PHASE (Some ''A'')"

definition REG_PHASE2_POWER :: modbus_register where
  "REG_PHASE2_POWER = mk_reg 162 ''phase2_power'' ''Active power Phase 2'' FLOAT32 2 RO G_PHASE (Some ''W'')"

definition REG_PHASE2_VOLTAGE :: modbus_register where
  "REG_PHASE2_VOLTAGE = mk_reg 164 ''phase2_voltage'' ''Voltage Phase 2'' FLOAT32 2 RO G_PHASE (Some ''V'')"

definition REG_PHASE3_CURRENT :: modbus_register where
  "REG_PHASE3_CURRENT = mk_reg 166 ''phase3_current'' ''Current Phase 3'' FLOAT32 2 RO G_PHASE (Some ''A'')"

definition REG_PHASE3_POWER :: modbus_register where
  "REG_PHASE3_POWER = mk_reg 168 ''phase3_power'' ''Active power Phase 3'' FLOAT32 2 RO G_PHASE (Some ''W'')"

definition REG_PHASE3_VOLTAGE :: modbus_register where
  "REG_PHASE3_VOLTAGE = mk_reg 170 ''phase3_voltage'' ''Voltage Phase 3'' FLOAT32 2 RO G_PHASE (Some ''V'')"

definition REG_DC1_CURRENT :: modbus_register where
  "REG_DC1_CURRENT = mk_reg 258 ''dc1_current'' ''Current DC1'' FLOAT32 2 RO G_POWER (Some ''A'')"

definition REG_DC1_POWER :: modbus_register where
  "REG_DC1_POWER = mk_reg 260 ''dc1_power'' ''Power DC1'' FLOAT32 2 RO G_POWER (Some ''W'')"

definition REG_DC1_VOLTAGE :: modbus_register where
  "REG_DC1_VOLTAGE = mk_reg 266 ''dc1_voltage'' ''Voltage DC1'' FLOAT32 2 RO G_POWER (Some ''V'')"

definition REG_DC2_CURRENT :: modbus_register where
  "REG_DC2_CURRENT = mk_reg 268 ''dc2_current'' ''Current DC2'' FLOAT32 2 RO G_POWER (Some ''A'')"

definition REG_DC2_POWER :: modbus_register where
  "REG_DC2_POWER = mk_reg 270 ''dc2_power'' ''Power DC2'' FLOAT32 2 RO G_POWER (Some ''W'')"

definition REG_DC2_VOLTAGE :: modbus_register where
  "REG_DC2_VOLTAGE = mk_reg 276 ''dc2_voltage'' ''Voltage DC2'' FLOAT32 2 RO G_POWER (Some ''V'')"

definition REG_DC3_CURRENT :: modbus_register where
  "REG_DC3_CURRENT = mk_reg 278 ''dc3_current'' ''Current DC3'' FLOAT32 2 RO G_POWER (Some ''A'')"

definition REG_DC3_POWER :: modbus_register where
  "REG_DC3_POWER = mk_reg 280 ''dc3_power'' ''Power DC3'' FLOAT32 2 RO G_POWER (Some ''W'')"

definition REG_DC3_VOLTAGE :: modbus_register where
  "REG_DC3_VOLTAGE = mk_reg 286 ''dc3_voltage'' ''Voltage DC3'' FLOAT32 2 RO G_POWER (Some ''V'')"

definition REG_TOTAL_YIELD :: modbus_register where
  "REG_TOTAL_YIELD = mk_reg 320 ''total_yield'' ''Total yield'' FLOAT32 2 RO G_ENERGY (Some ''Wh'')"

definition REG_DAILY_YIELD :: modbus_register where
  "REG_DAILY_YIELD = mk_reg 322 ''daily_yield'' ''Daily yield'' FLOAT32 2 RO G_ENERGY (Some ''Wh'')"

definition REG_YEARLY_YIELD :: modbus_register where
  "REG_YEARLY_YIELD = mk_reg 324 ''yearly_yield'' ''Yearly yield'' FLOAT32 2 RO G_ENERGY (Some ''Wh'')"

definition REG_MONTHLY_YIELD :: modbus_register where
  "REG_MONTHLY_YIELD = mk_reg 326 ''monthly_yield'' ''Monthly yield'' FLOAT32 2 RO G_ENERGY (Some ''Wh'')"

definition REG_BATTERY_GROSS_CAPACITY :: modbus_register where
  "REG_BATTERY_GROSS_CAPACITY = mk_reg 512 ''battery_gross_capacity'' ''Battery gross capacity'' UINT32 2 RO G_BATTERY (Some ''Ah'')"

definition REG_BATTERY_SOC :: modbus_register where
  "REG_BATTERY_SOC = mk_reg 514 ''battery_soc'' ''Battery actual SOC'' UINT16 1 RO G_BATTERY (Some ''%'')"

definition REG_BATTERY_CHARGE_CURRENT :: modbus_register where
  "REG_BATTERY_CHARGE_CURRENT = mk_reg 190 ''battery_charge_current'' ''Battery charge current'' FLOAT32 2 RO G_BATTERY (Some ''A'')"

definition REG_BATTERY_CYCLES :: modbus_register where
  "REG_BATTERY_CYCLES = mk_reg 194 ''battery_cycles'' ''Number of battery cycles'' FLOAT32 2 RO G_BATTERY (None)"

definition REG_BATTERY_ACTUAL_CURRENT :: modbus_register where
  "REG_BATTERY_ACTUAL_CURRENT = mk_reg 200 ''battery_actual_current'' ''Actual battery charge/discharge current'' FLOAT32 2 RO G_BATTERY (Some ''A'')"

definition REG_BATTERY_STATE_OF_CHARGE :: modbus_register where
  "REG_BATTERY_STATE_OF_CHARGE = mk_reg 210 ''battery_state_of_charge'' ''Act. state of charge'' FLOAT32 2 RO G_BATTERY (Some ''%'')"

definition REG_BATTERY_TEMPERATURE :: modbus_register where
  "REG_BATTERY_TEMPERATURE = mk_reg 214 ''battery_temperature'' ''Battery temperature'' FLOAT32 2 RO G_BATTERY (Some ([CHR 0xB0] @ ''C''))"

definition REG_BATTERY_VOLTAGE :: modbus_register where
  "REG_BATTERY_VOLTAGE = mk_reg 216 ''battery_voltage'' ''Battery voltage'' FLOAT32 2 RO G_BATTERY (Some ''V'')"

definition REG_BATTERY_TYPE :: modbus_register where
  "REG_BATTERY_TYPE = mk_reg 588 ''battery_type'' ''Battery Type'' UINT16 1 RO G_BATTERY (None)"

definition REG_BATTERY_WORK_CAPACITY :: modbus_register where
  "REG_BATTERY_WORK_CAPACITY = mk_reg 1068 ''battery_work_capacity'' ''Battery work capacity'' FLOAT32 2 RO G_BATTERY (Some ''Wh'')"

definition REG_BATTERY_SERIAL :: modbus_register where
  "REG_BATTERY_SERIAL = mk_reg 1070 ''battery_serial'' ''Battery serial number'' UINT32 2 RO G_BATTERY (None)"

definition REG_BATTERY_MAX_CHARGE_FROM_BAT :: modbus_register where
  "REG_BATTERY_MAX_CHARGE_FROM_BAT = mk_reg 1076 ''battery_max_charge_hw'' ''Max charge power limit (from battery)'' FLOAT32 2 RO G_BATTERY (Some ''W'')"

definition REG_BATTERY_MAX_DISCHARGE_FROM_BAT :: modbus_register where
  "REG_BATTERY_MAX_DISCHARGE_FROM_BAT = mk_reg 1078 ''battery_max_discharge_hw'' ''Max discharge power limit (from battery)'' FLOAT32 2 RO G_BATTERY (Some ''W'')"

definition REG_BATTERY_MGMT_MODE :: modbus_register where
  "REG_BATTERY_MGMT_MODE = mk_reg 1080 ''battery_mgmt_mode'' ''Battery management mode'' UINT8 1 RO G_BATTERY (None)"

definition REG_SENSOR_TYPE :: modbus_register where
  "REG_SENSOR_TYPE = mk_reg 1082 ''sensor_type'' ''Installed sensor type'' UINT8 1 RO G_BATTERY (None)"

definition REG_INVERTER_MAX_POWER :: modbus_register where
  "REG_INVERTER_MAX_POWER = mk_reg 531 ''inverter_max_power'' ''Inverter Max Power'' UINT16 1 RO G_DEVICE_INFO (Some ''W'')"

definition REG_INVERTER_GEN_POWER :: modbus_register where
  "REG_INVERTER_GEN_POWER = mk_reg 575 ''inverter_gen_power'' ''Inverter Generation Power (actual)'' SINT16 1 RO G_POWER (Some ''W'')"

definition REG_GENERATION_ENERGY :: modbus_register where
  "REG_GENERATION_ENERGY = mk_reg 577 ''generation_energy'' ''Generation Energy'' UINT32 2 RO G_ENERGY (Some ''Wh'')"

definition REG_BATTERY_CHARGE_DISCHARGE_POWER :: modbus_register where
  "REG_BATTERY_CHARGE_DISCHARGE_POWER = mk_reg 582 ''battery_cd_power'' ''Actual battery charge/discharge power'' SINT16 1 RO G_BATTERY (Some ''W'')"

definition REG_TOTAL_DC_CHARGE :: modbus_register where
  "REG_TOTAL_DC_CHARGE = mk_reg 1046 ''total_dc_charge'' ''Total DC charge energy (to battery)'' FLOAT32 2 RO G_ENERGY (Some ''Wh'')"

definition REG_TOTAL_DC_DISCHARGE :: modbus_register where
  "REG_TOTAL_DC_DISCHARGE = mk_reg 1048 ''total_dc_discharge'' ''Total DC discharge energy (from battery)'' FLOAT32 2 RO G_ENERGY (Some ''Wh'')"

definition REG_TOTAL_AC_CHARGE :: modbus_register where
  "REG_TOTAL_AC_CHARGE = mk_reg 1050 ''total_ac_charge'' ''Total AC charge energy (to battery)'' FLOAT32 2 RO G_ENERGY (Some ''Wh'')"

definition REG_TOTAL_AC_DISCHARGE :: modbus_register where
  "REG_TOTAL_AC_DISCHARGE = mk_reg 1052 ''total_ac_discharge'' ''Total AC discharge energy (battery to grid)'' FLOAT32 2 RO G_ENERGY (Some ''Wh'')"

definition REG_TOTAL_AC_CHARGE_GRID :: modbus_register where
  "REG_TOTAL_AC_CHARGE_GRID = mk_reg 1054 ''total_ac_charge_grid'' ''Total AC charge energy (grid to battery)'' FLOAT32 2 RO G_ENERGY (Some ''Wh'')"

definition REG_TOTAL_DC_PV_ENERGY :: modbus_register where
  "REG_TOTAL_DC_PV_ENERGY = mk_reg 1056 ''total_dc_pv_energy'' ''Total DC PV energy (all inputs)'' FLOAT32 2 RO G_ENERGY (Some ''Wh'')"

definition REG_TOTAL_DC_PV1 :: modbus_register where
  "REG_TOTAL_DC_PV1 = mk_reg 1058 ''total_dc_pv1'' ''Total DC energy from PV1'' FLOAT32 2 RO G_ENERGY (Some ''Wh'')"

definition REG_TOTAL_DC_PV2 :: modbus_register where
  "REG_TOTAL_DC_PV2 = mk_reg 1060 ''total_dc_pv2'' ''Total DC energy from PV2'' FLOAT32 2 RO G_ENERGY (Some ''Wh'')"

definition REG_TOTAL_DC_PV3 :: modbus_register where
  "REG_TOTAL_DC_PV3 = mk_reg 1062 ''total_dc_pv3'' ''Total DC energy from PV3'' FLOAT32 2 RO G_ENERGY (Some ''Wh'')"

definition REG_TOTAL_AC_TO_GRID :: modbus_register where
  "REG_TOTAL_AC_TO_GRID = mk_reg 1064 ''total_ac_to_grid'' ''Total energy AC-side to grid'' FLOAT32 2 RO G_ENERGY (Some ''Wh'')"

definition REG_TOTAL_DC_POWER_ALL :: modbus_register where
  "REG_TOTAL_DC_POWER_ALL = mk_reg 1066 ''total_dc_power_all'' ''Total DC power (all PV inputs)'' FLOAT32 2 RO G_POWER (Some ''W'')"

definition REG_PM_TOTAL_ACTIVE :: modbus_register where
  "REG_PM_TOTAL_ACTIVE = mk_reg 252 ''pm_total_active'' ''Total active power (powermeter)'' FLOAT32 2 RO G_POWERMETER (Some ''W'')"

definition REG_PM_TOTAL_REACTIVE :: modbus_register where
  "REG_PM_TOTAL_REACTIVE = mk_reg 254 ''pm_total_reactive'' ''Total reactive power (powermeter)'' FLOAT32 2 RO G_POWERMETER (Some ''Var'')"

definition REG_PM_TOTAL_APPARENT :: modbus_register where
  "REG_PM_TOTAL_APPARENT = mk_reg 256 ''pm_total_apparent'' ''Total apparent power (powermeter)'' FLOAT32 2 RO G_POWERMETER (Some ''VA'')"

definition REG_PM_COS_PHI :: modbus_register where
  "REG_PM_COS_PHI = mk_reg 218 ''pm_cos_phi'' ''Cos phi (powermeter)'' FLOAT32 2 RO G_POWERMETER (None)"

definition REG_PM_FREQUENCY :: modbus_register where
  "REG_PM_FREQUENCY = mk_reg 220 ''pm_frequency'' ''Frequency (powermeter)'' FLOAT32 2 RO G_POWERMETER (Some ''Hz'')"

definition REG_PM_L1_CURRENT :: modbus_register where
  "REG_PM_L1_CURRENT = mk_reg 222 ''pm_l1_current'' ''Current phase 1 (powermeter)'' FLOAT32 2 RO G_POWERMETER (Some ''A'')"

definition REG_PM_L1_ACTIVE :: modbus_register where
  "REG_PM_L1_ACTIVE = mk_reg 224 ''pm_l1_active'' ''Active power phase 1 (powermeter)'' FLOAT32 2 RO G_POWERMETER (Some ''W'')"

definition REG_PM_L1_REACTIVE :: modbus_register where
  "REG_PM_L1_REACTIVE = mk_reg 226 ''pm_l1_reactive'' ''Reactive power phase 1 (powermeter)'' FLOAT32 2 RO G_POWERMETER (Some ''Var'')"

definition REG_PM_L1_APPARENT :: modbus_register where
  "REG_PM_L1_APPARENT = mk_reg 228 ''pm_l1_apparent'' ''Apparent power phase 1 (powermeter)'' FLOAT32 2 RO G_POWERMETER (Some ''VA'')"

definition REG_PM_L1_VOLTAGE :: modbus_register where
  "REG_PM_L1_VOLTAGE = mk_reg 230 ''pm_l1_voltage'' ''Voltage phase 1 (powermeter)'' FLOAT32 2 RO G_POWERMETER (Some ''V'')"

definition REG_PM_L2_CURRENT :: modbus_register where
  "REG_PM_L2_CURRENT = mk_reg 232 ''pm_l2_current'' ''Current phase 2 (powermeter)'' FLOAT32 2 RO G_POWERMETER (Some ''A'')"

definition REG_PM_L2_ACTIVE :: modbus_register where
  "REG_PM_L2_ACTIVE = mk_reg 234 ''pm_l2_active'' ''Active power phase 2 (powermeter)'' FLOAT32 2 RO G_POWERMETER (Some ''W'')"

definition REG_PM_L2_REACTIVE :: modbus_register where
  "REG_PM_L2_REACTIVE = mk_reg 236 ''pm_l2_reactive'' ''Reactive power phase 2 (powermeter)'' FLOAT32 2 RO G_POWERMETER (Some ''Var'')"

definition REG_PM_L2_APPARENT :: modbus_register where
  "REG_PM_L2_APPARENT = mk_reg 238 ''pm_l2_apparent'' ''Apparent power phase 2 (powermeter)'' FLOAT32 2 RO G_POWERMETER (Some ''VA'')"

definition REG_PM_L2_VOLTAGE :: modbus_register where
  "REG_PM_L2_VOLTAGE = mk_reg 240 ''pm_l2_voltage'' ''Voltage phase 2 (powermeter)'' FLOAT32 2 RO G_POWERMETER (Some ''V'')"

definition REG_PM_L3_CURRENT :: modbus_register where
  "REG_PM_L3_CURRENT = mk_reg 242 ''pm_l3_current'' ''Current phase 3 (powermeter)'' FLOAT32 2 RO G_POWERMETER (Some ''A'')"

definition REG_PM_L3_ACTIVE :: modbus_register where
  "REG_PM_L3_ACTIVE = mk_reg 244 ''pm_l3_active'' ''Active power phase 3 (powermeter)'' FLOAT32 2 RO G_POWERMETER (Some ''W'')"

definition REG_PM_L3_REACTIVE :: modbus_register where
  "REG_PM_L3_REACTIVE = mk_reg 246 ''pm_l3_reactive'' ''Reactive power phase 3 (powermeter)'' FLOAT32 2 RO G_POWERMETER (Some ''Var'')"

definition REG_PM_L3_APPARENT :: modbus_register where
  "REG_PM_L3_APPARENT = mk_reg 248 ''pm_l3_apparent'' ''Apparent power phase 3 (powermeter)'' FLOAT32 2 RO G_POWERMETER (Some ''VA'')"

definition REG_PM_L3_VOLTAGE :: modbus_register where
  "REG_PM_L3_VOLTAGE = mk_reg 250 ''pm_l3_voltage'' ''Voltage phase 3 (powermeter)'' FLOAT32 2 RO G_POWERMETER (Some ''V'')"

definition REG_PSSB_FUSE_STATE :: modbus_register where
  "REG_PSSB_FUSE_STATE = mk_reg 202 ''pssb_fuse_state'' ''PSSB fuse state'' FLOAT32 2 RO G_BATTERY (None)"

definition REG_BATTERY_READY_FLAG :: modbus_register where
  "REG_BATTERY_READY_FLAG = mk_reg 208 ''battery_ready_flag'' ''Battery ready flag'' FLOAT32 2 RO G_BATTERY (None)"

definition REG_FW_MAINCONTROLLER :: modbus_register where
  "REG_FW_MAINCONTROLLER = mk_reg 515 ''fw_maincontroller'' ''Firmware maincontroller'' UINT32 2 RO G_DEVICE_INFO (None)"

definition REG_BATTERY_MANUFACTURER :: modbus_register where
  "REG_BATTERY_MANUFACTURER = mk_reg 517 ''battery_manufacturer'' ''Battery manufacturer'' STRING 8 RO G_BATTERY (None)"

definition REG_BATTERY_MODEL_ID :: modbus_register where
  "REG_BATTERY_MODEL_ID = mk_reg 525 ''battery_model_id'' ''Battery model ID'' UINT32 2 RO G_BATTERY (None)"

definition REG_BATTERY_SERIAL_ALT :: modbus_register where
  "REG_BATTERY_SERIAL_ALT = mk_reg 527 ''battery_serial_alt'' ''Battery serial number (alt)'' UINT32 2 RO G_BATTERY (None)"

definition REG_BATTERY_WORK_CAPACITY_SUNSPEC :: modbus_register where
  "REG_BATTERY_WORK_CAPACITY_SUNSPEC = mk_reg 529 ''battery_work_capacity_sunspec'' ''Battery work capacity (SunSpec)'' UINT32 2 RO G_BATTERY (Some ''Wh'')"

definition REG_BATTERY_NET_CAPACITY :: modbus_register where
  "REG_BATTERY_NET_CAPACITY = mk_reg 580 ''battery_net_capacity'' ''Battery net capacity'' UINT32 2 RO G_BATTERY (Some ''Ah'')"

definition REG_BATTERY_FW_VERSION :: modbus_register where
  "REG_BATTERY_FW_VERSION = mk_reg 586 ''battery_fw_version'' ''Battery firmware'' UINT32 2 RO G_BATTERY (None)"

definition REG_ACTIVE_POWER_SETPOINT :: modbus_register where
  "REG_ACTIVE_POWER_SETPOINT = mk_reg 533 ''active_power_setpoint'' ''Active power setpoint'' UINT16 1 RW G_CONTROL (Some ''%'')"

definition REG_REACTIVE_POWER_SETPOINT :: modbus_register where
  "REG_REACTIVE_POWER_SETPOINT = mk_reg 583 ''reactive_power_setpoint'' ''Reactive power setpoint'' SINT16 1 RW G_CONTROL (Some ''%'')"

definition REG_DELTA_COS_PHI :: modbus_register where
  "REG_DELTA_COS_PHI = mk_reg 585 ''delta_cos_phi'' ''Delta-cos phi setpoint'' SINT16 1 RW G_CONTROL (None)"

definition REG_LOW_PRIO_ACTIVE_POWER :: modbus_register where
  "REG_LOW_PRIO_ACTIVE_POWER = mk_reg 832 ''low_prio_active_power'' ''Low-Priority Active power setpoint'' UINT16 1 RW G_CONTROL (Some ''W'')"

definition REG_IO_OUTPUT_1 :: modbus_register where
  "REG_IO_OUTPUT_1 = mk_reg 608 ''io_output_1'' ''I/O-Board, Switched Output 1'' UINT16 1 RW G_IO_BOARD (None)"

definition REG_IO_OUTPUT_2 :: modbus_register where
  "REG_IO_OUTPUT_2 = mk_reg 609 ''io_output_2'' ''I/O-Board, Switched Output 2'' UINT16 1 RW G_IO_BOARD (None)"

definition REG_IO_OUTPUT_3 :: modbus_register where
  "REG_IO_OUTPUT_3 = mk_reg 610 ''io_output_3'' ''I/O-Board, Switched Output 3'' UINT16 1 RW G_IO_BOARD (None)"

definition REG_IO_OUTPUT_4 :: modbus_register where
  "REG_IO_OUTPUT_4 = mk_reg 611 ''io_output_4'' ''I/O-Board, Switched Output 4'' UINT16 1 RW G_IO_BOARD (None)"

definition REG_BAT_CHARGE_AC_SETPOINT :: modbus_register where
  "REG_BAT_CHARGE_AC_SETPOINT = mk_reg 1024 ''bat_charge_ac_setpoint'' ''Battery charge power (AC) setpoint'' SINT16 1 RO G_BATTERY_MGMT (Some ''W'')"

definition REG_BAT_CHARGE_AC_SCALE :: modbus_register where
  "REG_BAT_CHARGE_AC_SCALE = mk_reg 1025 ''bat_charge_ac_scale'' ''Power Scale Factor'' SINT16 1 RO G_BATTERY_MGMT (None)"

definition REG_BAT_CHARGE_AC_ABS :: modbus_register where
  "REG_BAT_CHARGE_AC_ABS = mk_reg 1026 ''bat_charge_ac_abs'' ''Battery charge power (AC) absolute'' FLOAT32 2 RW G_BATTERY_MGMT (Some ''W'')"

definition REG_BAT_CHARGE_DC_REL :: modbus_register where
  "REG_BAT_CHARGE_DC_REL = mk_reg 1028 ''bat_charge_dc_rel'' ''Battery charge current (DC) relative'' FLOAT32 2 RW G_BATTERY_MGMT (Some ''%'')"

definition REG_BAT_CHARGE_AC_REL :: modbus_register where
  "REG_BAT_CHARGE_AC_REL = mk_reg 1030 ''bat_charge_ac_rel'' ''Battery charge power (AC) relative'' FLOAT32 2 RW G_BATTERY_MGMT (Some ''%'')"

definition REG_BAT_CHARGE_DC_ABS_CURRENT :: modbus_register where
  "REG_BAT_CHARGE_DC_ABS_CURRENT = mk_reg 1032 ''bat_charge_dc_abs_current'' ''Battery charge current (DC) absolute'' FLOAT32 2 RW G_BATTERY_MGMT (Some ''A'')"

definition REG_BAT_CHARGE_DC_ABS_POWER :: modbus_register where
  "REG_BAT_CHARGE_DC_ABS_POWER = mk_reg 1034 ''bat_charge_dc_abs_power'' ''Battery charge power (DC) absolute'' FLOAT32 2 RW G_BATTERY_MGMT (Some ''W'')"

definition REG_BAT_CHARGE_DC_REL_POWER :: modbus_register where
  "REG_BAT_CHARGE_DC_REL_POWER = mk_reg 1036 ''bat_charge_dc_rel_power'' ''Battery charge power (DC) relative'' FLOAT32 2 RW G_BATTERY_MGMT (Some ''%'')"

definition REG_BAT_MAX_CHARGE_LIMIT :: modbus_register where
  "REG_BAT_MAX_CHARGE_LIMIT = mk_reg 1038 ''bat_max_charge_limit'' ''Battery max charge power limit'' FLOAT32 2 RW G_BATTERY_MGMT (Some ''W'')"

definition REG_BAT_MAX_DISCHARGE_LIMIT :: modbus_register where
  "REG_BAT_MAX_DISCHARGE_LIMIT = mk_reg 1040 ''bat_max_discharge_limit'' ''Battery max discharge power limit'' FLOAT32 2 RW G_BATTERY_MGMT (Some ''W'')"

definition REG_BAT_MIN_SOC :: modbus_register where
  "REG_BAT_MIN_SOC = mk_reg 1042 ''bat_min_soc'' ''Minimum SOC'' FLOAT32 2 RW G_BATTERY_MGMT (Some ''%'')"

definition REG_BAT_MAX_SOC :: modbus_register where
  "REG_BAT_MAX_SOC = mk_reg 1044 ''bat_max_soc'' ''Maximum SOC'' FLOAT32 2 RW G_BATTERY_MGMT (Some ''%'')"

definition REG_G3_MAX_CHARGE :: modbus_register where
  "REG_G3_MAX_CHARGE = mk_reg 1280 ''g3_max_charge'' ''Max battery charge power'' FLOAT32 2 RW G_BATTERY_LIMIT_G3 (Some ''W'')"

definition REG_G3_MAX_DISCHARGE :: modbus_register where
  "REG_G3_MAX_DISCHARGE = mk_reg 1282 ''g3_max_discharge'' ''Max battery discharge power'' FLOAT32 2 RW G_BATTERY_LIMIT_G3 (Some ''W'')"

definition REG_G3_MAX_CHARGE_FALLBACK :: modbus_register where
  "REG_G3_MAX_CHARGE_FALLBACK = mk_reg 1284 ''g3_max_charge_fallback'' ''Max battery charge power (fallback)'' FLOAT32 2 RW G_BATTERY_LIMIT_G3 (Some ''W'')"

definition REG_G3_MAX_DISCHARGE_FALLBACK :: modbus_register where
  "REG_G3_MAX_DISCHARGE_FALLBACK = mk_reg 1286 ''g3_max_discharge_fallback'' ''Max battery discharge power (fallback)'' FLOAT32 2 RW G_BATTERY_LIMIT_G3 (Some ''W'')"

definition REG_G3_FALLBACK_TIME :: modbus_register where
  "REG_G3_FALLBACK_TIME = mk_reg 1288 ''g3_fallback_time'' ''Time until fallback'' UINT32 2 RW G_BATTERY_LIMIT_G3 (Some ''s'')"

section \<open>Tables derived from the map\<close>

definition ALL_REGISTERS :: "modbus_register list" where
  "ALL_REGISTERS =
    [REG_MODBUS_ENABLE, REG_UNIT_ID, REG_BYTE_ORDER, REG_ARTICLE_NUMBER,
     REG_SERIAL_NUMBER, REG_NUM_BIDIRECTIONAL, REG_NUM_AC_PHASES, REG_NUM_PV_STRINGS,
     REG_HW_VERSION, REG_SW_VERSION_MC, REG_SW_VERSION_IOC, REG_POWER_ID,
     REG_INVERTER_STATE, REG_SW_VERSION, REG_PRODUCT_NAME, REG_POWER_CLASS,
     REG_CONTROLLER_TEMP, REG_TOTAL_DC_POWER, REG_EM_STATE, REG_HOME_FROM_BATTERY,
     REG_HOME_FROM_GRID, REG_TOTAL_HOME_BATTERY, REG_TOTAL_HOME_GRID, REG_TOTAL_HOME_PV,
     REG_HOME_FROM_PV, REG_TOTAL_HOME_CONSUMPTION, REG_ISOLATION_RESISTANCE, REG_POWER_LIMIT_EVU,
     REG_HOME_CONSUMPTION_RATE, REG_WORKTIME, REG_COS_PHI, REG_GRID_FREQUENCY,
     REG_TOTAL_AC_POWER, REG_TOTAL_AC_REACTIVE, REG_TOTAL_AC_APPARENT, REG_PHASE1_CURRENT,
     REG_PHASE1_POWER, REG_PHASE1_VOLTAGE, REG_PHASE2_CURRENT, REG_PHASE2_POWER,
     REG_PHASE2_VOLTAGE, REG_PHASE3_CURRENT, REG_PHASE3_POWER, REG_PHASE3_VOLTAGE,
     REG_DC1_CURRENT, REG_DC1_POWER, REG_DC1_VOLTAGE, REG_DC2_CURRENT,
     REG_DC2_POWER, REG_DC2_VOLTAGE, REG_DC3_CURRENT, REG_DC3_POWER,
     REG_DC3_VOLTAGE, REG_TOTAL_YIELD, REG_DAILY_YIELD, REG_YEARLY_YIELD,
     REG_MONTHLY_YIELD, REG_BATTERY_GROSS_CAPACITY, REG_BATTERY_SOC, REG_BATTERY_CHARGE_CURRENT,
     REG_BATTERY_CYCLES, REG_BATTERY_ACTUAL_CURRENT, REG_BATTERY_STATE_OF_CHARGE, REG_BATTERY_TEMPERATURE,
     REG_BATTERY_VOLTAGE, REG_BATTERY_TYPE, REG_BATTERY_WORK_CAPACITY, REG_BATTERY_SERIAL,
     REG_BATTERY_MAX_CHARGE_FROM_BAT, REG_BATTERY_MAX_DISCHARGE_FROM_BAT, REG_BATTERY_MGMT_MODE, REG_SENSOR_TYPE,
     REG_INVERTER_MAX_POWER, REG_INVERTER_GEN_POWER, REG_GENERATION_ENERGY, REG_BATTERY_CHARGE_DISCHARGE_POWER,
     REG_TOTAL_DC_CHARGE, REG_TOTAL_DC_DISCHARGE, REG_TOTAL_AC_CHARGE, REG_TOTAL_AC_DISCHARGE,
     REG_TOTAL_AC_CHARGE_GRID, REG_TOTAL_DC_PV_ENERGY, REG_TOTAL_DC_PV1, REG_TOTAL_DC_PV2,
     REG_TOTAL_DC_PV3, REG_TOTAL_AC_TO_GRID, REG_TOTAL_DC_POWER_ALL, REG_PM_TOTAL_ACTIVE,
     REG_PM_TOTAL_REACTIVE, REG_PM_TOTAL_APPARENT, REG_PM_COS_PHI, REG_PM_FREQUENCY,
     REG_PM_L1_CURRENT, REG_PM_L1_ACTIVE, REG_PM_L1_REACTIVE, REG_PM_L1_APPARENT,
     REG_PM_L1_VOLTAGE, REG_PM_L2_CURRENT, REG_PM_L2_ACTIVE, REG_PM_L2_REACTIVE,
     REG_PM_L2_APPARENT, REG_PM_L2_VOLTAGE, REG_PM_L3_CURRENT, REG_PM_L3_ACTIVE,
     REG_PM_L3_REACTIVE, REG_PM_L3_APPARENT, REG_PM_L3_VOLTAGE, REG_PSSB_FUSE_STATE,
     REG_BATTERY_READY_FLAG, REG_FW_MAINCONTROLLER, REG_BATTERY_MANUFACTURER, REG_BATTERY_MODEL_ID,
     REG_BATTERY_SERIAL_ALT, REG_BATTERY_WORK_CAPACITY_SUNSPEC, REG_BATTERY_NET_CAPACITY, REG_BATTERY_FW_VERSION,
     REG_ACTIVE_POWER_SETPOINT, REG_REACTIVE_POWER_SETPOINT, REG_DELTA_COS_PHI, REG_LOW_PRIO_ACTIVE_POWER,
     REG_IO_OUTPUT_1, REG_IO_OUTPUT_2, REG_IO_OUTPUT_3, REG_IO_OUTPUT_4,
     REG_BAT_CHARGE_AC_SETPOINT, REG_BAT_CHARGE_AC_SCALE, REG_BAT_CHARGE_AC_ABS, REG_BAT_CHARGE_DC_REL,
     REG_BAT_CHARGE_AC_REL, REG_BAT_CHARGE_DC_ABS_CURRENT, REG_BAT_CHARGE_DC_ABS_POWER, REG_BAT_CHARGE_DC_REL_POWER,
     REG_BAT_MAX_CHARGE_LIMIT, REG_BAT_MAX_DISCHARGE_LIMIT, REG_BAT_MIN_SOC, REG_BAT_MAX_SOC,
     REG_G3_MAX_CHARGE, REG_G3_MAX_DISCHARGE, REG_G3_MAX_CHARGE_FALLBACK, REG_G3_MAX_DISCHARGE_FALLBACK,
     REG_G3_FALLBACK_TIME]"

text \<open>Dictionary comprehensions: of two entries with one key the later would win.\<close>

definition REGISTER_BY_NAME :: "string \<Rightarrow> modbus_register option" where
  "REGISTER_BY_NAME = map_of (rev (map (\<lambda>r. (rg_name r, r)) ALL_REGISTERS))"

definition REGISTER_BY_ADDRESS :: "nat \<Rightarrow> modbus_register option" where
  "REGISTER_BY_ADDRESS = map_of (rev (map (\<lambda>r. (rg_address r, r)) ALL_REGISTERS))"

definition CONTROL_READBACK_REGISTERS :: "modbus_register list" where
  "CONTROL_READBACK_REGISTERS =
     [REG_BAT_MAX_CHARGE_LIMIT, REG_BAT_MAX_DISCHARGE_LIMIT, REG_BAT_MIN_SOC, REG_BAT_MAX_SOC,
      REG_G3_MAX_CHARGE, REG_G3_MAX_DISCHARGE, REG_G3_FALLBACK_TIME]"

definition MONITORING_REGISTERS :: "modbus_register list" where
  "MONITORING_REGISTERS =
     filter (\<lambda>r. rg_access r = RO \<and>
       rg_group r \<in> {G_POWER, G_BATTERY, G_PHASE, G_ENERGY, G_POWERMETER}) ALL_REGISTERS
     @ CONTROL_READBACK_REGISTERS"

definition WRITABLE_REGISTERS :: "modbus_register list" where
  "WRITABLE_REGISTERS = filter (\<lambda>r. rg_access r = RW) ALL_REGISTERS"

definition BATTERY_CONTROL_REGISTERS :: "modbus_register list" where
  "BATTERY_CONTROL_REGISTERS =
     filter (\<lambda>r. rg_group r \<in> {G_BATTERY_MGMT, G_BATTERY_LIMIT_G3}) WRITABLE_REGISTERS"

definition BATTERY_CONTROL_NAMES :: "string list" where
  "BATTERY_CONTROL_NAMES = map rg_name BATTERY_CONTROL_REGISTERS"

definition BATTERY_CONTROL_ADDRESSES :: "nat list" where
  "BATTERY_CONTROL_ADDRESSES =
     concat (map (\<lambda>r. [rg_address r ..< rg_address r + rg_count r]) BATTERY_CONTROL_REGISTERS)"

definition INVERTER_STATES :: "(int \<times> string) list" where
  "INVERTER_STATES =
     [(0, ''Off''), (1, ''Init''), (2, ''IsoMeas''), (3, ''GridCheck''),
      (4, ''StartUp''), (6, ''FeedIn''), (7, ''Throttled''),
      (8, ''ExtSwitchOff''), (9, ''Update''), (10, ''Standby''),
      (11, ''GridSync''), (12, ''GridPreCheck''), (13, ''GridSwitchOff''),
      (14, ''Overheating''), (15, ''Shutdown''), (16, ''ImproperDcVoltage''),
      (17, ''ESB''), (18, ''BatteryCharging''), (19, ''BatteryDischarging'')]"

lemmas REG_defs =
  REG_MODBUS_ENABLE_def REG_UNIT_ID_def REG_BYTE_ORDER_def REG_ARTICLE_NUMBER_def
  REG_SERIAL_NUMBER_def REG_NUM_BIDIRECTIONAL_def REG_NUM_AC_PHASES_def REG_NUM_PV_STRINGS_def
  REG_HW_VERSION_def REG_SW_VERSION_MC_def REG_SW_VERSION_IOC_def REG_POWER_ID_def
  REG_INVERTER_STATE_def REG_SW_VERSION_def REG_PRODUCT_NAME_def REG_POWER_CLASS_def
  REG_CONTROLLER_TEMP_def REG_TOTAL_DC_POWER_def REG_EM_STATE_def REG_HOME_FROM_BATTERY_def
  REG_HOME_FROM_GRID_def REG_TOTAL_HOME_BATTERY_def REG_TOTAL_HOME_GRID_def
  REG_TOTAL_HOME_PV_def REG_HOME_FROM_PV_def REG_TOTAL_HOME_CONSUMPTION_def
  REG_ISOLATION_RESISTANCE_def REG_POWER_LIMIT_EVU_def REG_HOME_CONSUMPTION_RATE_def
  REG_WORKTIME_def REG_COS_PHI_def REG_GRID_FREQUENCY_def REG_TOTAL_AC_POWER_def
  REG_TOTAL_AC_REACTIVE_def REG_TOTAL_AC_APPARENT_def REG_PHASE1_CURRENT_def
  REG_PHASE1_POWER_def REG_PHASE1_VOLTAGE_def REG_PHASE2_CURRENT_def REG_PHASE2_POWER_def
  REG_PHASE2_VOLTAGE_def REG_PHASE3_CURRENT_def REG_PHASE3_POWER_def REG_PHASE3_VOLTAGE_def
  REG_DC1_CURRENT_def REG_DC1_POWER_def REG_DC1_VOLTAGE_def REG_DC2_CURRENT_def
  REG_DC2_POWER_def REG_DC2_VOLTAGE_def REG_DC3_CURRENT_def REG_DC3_POWER_def
  REG_DC3_VOLTAGE_def REG_TOTAL_YIELD_def REG_DAILY_YIELD_def REG_YEARLY_YIELD_def
  REG_MONTHLY_YIELD_def REG_BATTERY_GROSS_CAPACITY_def REG_BATTERY_SOC_def
  REG_BATTERY_CHARGE_CURRENT_def REG_BATTERY_CYCLES_def REG_BATTERY_ACTUAL_CURRENT_def
  REG_BATTERY_STATE_OF_CHARGE_def REG_BATTERY_TEMPERATURE_def REG_BATTERY_VOLTAGE_def
  REG_BATTERY_TYPE_def REG_BATTERY_WORK_CAPACITY_def REG_BATTERY_SERIAL_def
  REG_BATTERY_MAX_CHARGE_FROM_BAT_def REG_BATTERY_MAX_DISCHARGE_FROM_BAT_def
  REG_BATTERY_MGMT_MODE_def REG_SENSOR_TYPE_def REG_INVERTER_MAX_POWER_def
  REG_INVERTER_GEN_POWER_def REG_GENERATION_ENERGY_def REG_BATTERY_CHARGE_DISCHARGE_POWER_def
  REG_TOTAL_DC_CHARGE_def REG_TOTAL_DC_DISCHARGE_def REG_TOTAL_AC_CHARGE_def
  REG_TOTAL_AC_DISCHARGE_def REG_TOTAL_AC_CHARGE_GRID_def REG_TOTAL_DC_PV_ENERGY_def
  REG_TOTAL_DC_PV1_def REG_TOTAL_DC_PV2_def REG_TOTAL_DC_PV3_def REG_TOTAL_AC_TO_GRID_def
  REG_TOTAL_DC_POWER_ALL_def REG_PM_TOTAL_ACTIVE_def REG_PM_TOTAL_REACTIVE_def
  REG_PM_TOTAL_APPARENT_def REG_PM_COS_PHI_def REG_PM_FREQUENCY_def REG_PM_L1_CURRENT_def
  REG_PM_L1_ACTIVE_def REG_PM_L1_REACTIVE_def REG_PM_L1_APPARENT_def REG_PM_L1_VOLTAGE_def
  REG_PM_L2_CURRENT_def REG_PM_L2_ACTIVE_def REG_PM_L2_REACTIVE_def REG_PM_L2_APPARENT_def
  REG_PM_L2_VOLTAGE_def REG_PM_L3_CURRENT_def REG_PM_L3_ACTIVE_def REG_PM_L3_REACTIVE_def
  REG_PM_L3_APPARENT_def REG_PM_L3_VOLTAGE_def REG_PSSB_FUSE_STATE_def
  REG_BATTERY_READY_FLAG_def REG_FW_MAINCONTROLLER_def REG_BATTERY_MANUFACTURER_def
  REG_BATTERY_MODEL_ID_def REG_BATTERY_SERIAL_ALT_def REG_BATTERY_WORK_CAPACITY_SUNSPEC_def
  REG_BATTERY_NET_CAPACITY_def REG_BATTERY_FW_VERSION_def REG_ACTIVE_POWER_SETPOINT_def
  REG_REACTIVE_POWER_SETPOINT_def REG_DELTA_COS_PHI_def REG_LOW_PRIO_ACTIVE_POWER_def
  REG_IO_OUTPUT_1_def REG_IO_OUTPUT_2_def REG_IO_OUTPUT_3_def REG_IO_OUTPUT_4_def
  REG_BAT_CHARGE_AC_SETPOINT_def REG_BAT_CHARGE_AC_SCALE_def REG_BAT_CHARGE_AC_ABS_def
  REG_BAT_CHARGE_DC_REL_def REG_BAT_CHARGE_AC_REL_def REG_BAT_CHARGE_DC_ABS_CURRENT_def
  REG_BAT_CHARGE_DC_ABS_POWER_def REG_BAT_CHARGE_DC_REL_POWER_def REG_BAT_MAX_CHARGE_LIMIT_def
  REG_BAT_MAX_DISCHARGE_LIMIT_def REG_BAT_MIN_SOC_def REG_BAT_MAX_SOC_def
  REG_G3_MAX_CHARGE_def REG_G3_MAX_DISCHARGE_def REG_G3_MAX_CHARGE_FALLBACK_def
  REG_G3_MAX_DISCHARGE_FALLBACK_def REG_G3_FALLBACK_TIME_def

section \<open>Facts about the map\<close>

text \<open>The words of a register, as a half-open interval.\<close>

definition reg_block :: "modbus_register \<Rightarrow> nat \<times> nat" where
  "reg_block r = (rg_address r, rg_address r + rg_count r)"

definition reg_words :: "modbus_register \<Rightarrow> nat set" where
  "reg_words r = {rg_address r ..< rg_address r + rg_count r}"

lemmas ALL_REGISTERS_unfold = ALL_REGISTERS_def [unfolded REG_defs]

lemma ALL_REGISTERS_blocks: "map reg_block ALL_REGISTERS =
     [(2, 3), (4, 5), (5, 6), (6, 14), (14, 22), (30, 31), (32, 33), (34, 35), (36, 38), (38,
      46), (46, 54), (54, 56), (56, 58), (58, 71), (768, 800), (800, 832), (98, 100), (100,
      102), (104, 106), (106, 108), (108, 110), (110, 112), (112, 114), (114, 116), (116,
      118), (118, 120), (120, 122), (122, 124), (124, 126), (144, 146), (150, 152), (152,
      154), (172, 174), (174, 176), (178, 180), (154, 156), (156, 158), (158, 160), (160,
      162), (162, 164), (164, 166), (166, 168), (168, 170), (170, 172), (258, 260), (260,
      262), (266, 268), (268, 270), (270, 272), (276, 278), (278, 280), (280, 282), (286,
      288), (320, 322), (322, 324), (324, 326), (326, 328), (512, 514), (514, 515), (190,
      192), (194, 196), (200, 202), (210, 212), (214, 216), (216, 218), (588, 589), (1068,
      1070), (1070, 1072), (1076, 1078), (1078, 1080), (1080, 1081), (1082, 1083), (531, 532),
      (575, 576), (577, 579), (582, 583), (1046, 1048), (1048, 1050), (1050, 1052), (1052,
      1054), (1054, 1056), (1056, 1058), (1058, 1060), (1060, 1062), (1062, 1064), (1064,
      1066), (1066, 1068), (252, 254), (254, 256), (256, 258), (218, 220), (220, 222), (222,
      224), (224, 226), (226, 228), (228, 230), (230, 232), (232, 234), (234, 236), (236,
      238), (238, 240), (240, 242), (242, 244), (244, 246), (246, 248), (248, 250), (250,
      252), (202, 204), (208, 210), (515, 517), (517, 525), (525, 527), (527, 529), (529,
      531), (580, 582), (586, 588), (533, 534), (583, 584), (585, 586), (832, 833), (608,
      609), (609, 610), (610, 611), (611, 612), (1024, 1025), (1025, 1026), (1026, 1028),
      (1028, 1030), (1030, 1032), (1032, 1034), (1034, 1036), (1036, 1038), (1038, 1040),
      (1040, 1042), (1042, 1044), (1044, 1046), (1280, 1282), (1282, 1284), (1284, 1286),
      (1286, 1288), (1288, 1290)]"
  by (simp add: ALL_REGISTERS_def reg_block_def REG_defs)

lemma ALL_REGISTERS_sorted_blocks: "sort_key fst (map reg_block ALL_REGISTERS) =
     [(2, 3), (4, 5), (5, 6), (6, 14), (14, 22), (30, 31), (32, 33), (34, 35), (36, 38), (38,
      46), (46, 54), (54, 56), (56, 58), (58, 71), (98, 100), (100, 102), (104, 106), (106,
      108), (108, 110), (110, 112), (112, 114), (114, 116), (116, 118), (118, 120), (120,
      122), (122, 124), (124, 126), (144, 146), (150, 152), (152, 154), (154, 156), (156,
      158), (158, 160), (160, 162), (162, 164), (164, 166), (166, 168), (168, 170), (170,
      172), (172, 174), (174, 176), (178, 180), (190, 192), (194, 196), (200, 202), (202,
      204), (208, 210), (210, 212), (214, 216), (216, 218), (218, 220), (220, 222), (222,
      224), (224, 226), (226, 228), (228, 230), (230, 232), (232, 234), (234, 236), (236,
      238), (238, 240), (240, 242), (242, 244), (244, 246), (246, 248), (248, 250), (250,
      252), (252, 254), (254, 256), (256, 258), (258, 260), (260, 262), (266, 268), (268,
      270), (270, 272), (276, 278), (278, 280), (280, 282), (286, 288), (320, 322), (322,
      324), (324, 326), (326, 328), (512, 514), (514, 515), (515, 517), (517, 525), (525,
      527), (527, 529), (529, 531), (531, 532), (533, 534), (575, 576), (577, 579), (580,
      582), (582, 583), (583, 584), (585, 586), (586, 588), (588, 589), (608, 609), (609,
      610), (610, 611), (611, 612), (768, 800), (800, 832), (832, 833), (1024, 1025), (1025,
      1026), (1026, 1028), (1028, 1030), (1030, 1032), (1032, 1034), (1034, 1036), (1036,
      1038), (1038, 1040), (1040, 1042), (1042, 1044), (1044, 1046), (1046, 1048), (1048,
      1050), (1050, 1052), (1052, 1054), (1054, 1056), (1056, 1058), (1058, 1060), (1060,
      1062), (1062, 1064), (1064, 1066), (1066, 1068), (1068, 1070), (1070, 1072), (1076,
      1078), (1078, 1080), (1080, 1081), (1082, 1083), (1280, 1282), (1282, 1284), (1284,
      1286), (1286, 1288), (1288, 1290)]"
  unfolding ALL_REGISTERS_blocks by simp

definition block_before :: "nat \<times> nat \<Rightarrow> nat \<times> nat \<Rightarrow> bool" where
  "block_before p q \<longleftrightarrow> snd p \<le> fst q \<and> fst p < snd p \<and> fst q < snd q"

lemma transp_block_before: "transp block_before"
  by (auto simp: transp_def block_before_def)

lemma sorted_blocks_ordered:
  "sorted_wrt block_before (sort_key fst (map reg_block ALL_REGISTERS))"
  unfolding successively_conv_sorted_wrt [OF transp_block_before, symmetric] ALL_REGISTERS_sorted_blocks
  by (simp add: block_before_def)

lemma ALL_REGISTERS_addresses_distinct: "distinct (map rg_address ALL_REGISTERS)"
proof -
  let ?bs = "map reg_block ALL_REGISTERS"
  have "sorted_wrt (<) (map fst (sort_key fst ?bs))"
    unfolding sorted_wrt_map by (rule sorted_wrt_mono_rel [OF _ sorted_blocks_ordered]) (auto simp: block_before_def)
  then have "distinct (map fst (sort_key fst ?bs))" by (simp add: strict_sorted_iff)
  then have "distinct (map fst ?bs)" by (simp only: distinct_map distinct_sort set_sort)
  then show ?thesis by (simp add: o_def reg_block_def)
qed

text \<open>Names are compared by a number; the numbers are distinct by a quicksort.\<close>

definition name_code :: "string \<Rightarrow> nat" where
  "name_code s = foldl (\<lambda>h c. h * 2 + of_char c) 0 s"

lemma name_codes: "map (name_code \<circ> rg_name) ALL_REGISTERS =
    [883597, 14306, 108908, 1710972, 900092, 14434990, 900817, 1815073, 110152, 926969,
      1854045, 28466, 1770625, 115784, 456675, 228429, 3447790, 1847088, 26433, 13890801,
      1736326, 29576433, 3697030, 924202, 434026, 473231856, 113652811, 3658765, 222186065,
      29363, 13249, 1731023, 1846704, 14773285, 14772228, 1749876, 437552, 1750775, 1750132,
      437616, 1751031, 1750388, 437680, 1751287, 191348, 47920, 192247, 191604, 47984, 192503,
      191860, 48048, 192759, 231176, 207048, 458184, 900552, 426454253, 208149, 426346356,
      1665589, 426350196, 853054627, 53312333, 3332343, 416473, 213281005, 1665874, 213213147,
      1705714651, 13326465, 226361, 28328688, 28327024, 13582711, 6661360, 3693603, 29550627,
      3692835, 29544483, 118173830, 29554295, 461637, 461638, 461639, 7387014, 29554880,
      3578789, 14317093, 14316036, 110657, 443855, 872820, 436005, 1745957, 1744900, 873719,
      873076, 436133, 1746469, 1745412, 873975, 873332, 436261, 1746981, 1745924, 874231,
      3656001, 26653081, 13866108, 106607244, 6663202, 26655464, 54599963973, 106610413,
      26652232, 212217260, 902180268, 836673, 229597872, 217511, 217512, 217513, 217514,
      419446700, 52430633, 13107523, 13107686, 13107590, 3355576180, 838894128, 838898416,
      105185698, 841556386, 205509, 205413, 732067, 5858339, 374868549, 2999519813, 5821715]"
  by (simp add: ALL_REGISTERS_def REG_defs name_code_def)

lemma distinct_filter_parts: "distinct (filter P xs) \<Longrightarrow> distinct (filter (\<lambda>x. \<not> P x) xs) \<Longrightarrow> distinct xs"
  by (induction xs) (auto split: if_splits)

function all_distinct :: "nat list \<Rightarrow> bool" where
  "all_distinct [] = True"
| "all_distinct (x # xs) = (let lo = filter (\<lambda>y. y < x) xs; hi = filter ((<) x) xs
     in length lo + length hi = length xs \<and> all_distinct lo \<and> all_distinct hi)"
  by pat_completeness auto
termination by (relation "measure length") (auto simp: le_imp_less_Suc)

lemma all_distinct_distinct: "all_distinct xs \<Longrightarrow> distinct xs"
proof (induction xs rule: all_distinct.induct)
  case (2 x xs)
  let ?lo = "filter (\<lambda>y. y < x) xs" and ?hi = "filter ((<) x) xs"
  have l: "length ?lo + length ?hi = length xs" "all_distinct ?lo" "all_distinct ?hi"
    using "2.prems" by (simp_all add: Let_def)
  have "distinct ?lo" "distinct ?hi" using "2.IH" l by simp_all
  moreover have "length (filter (\<lambda>y. \<not> y < x) xs) = length ?hi"
    using l(1) sum_length_filter_compl [of "\<lambda>y. y < x" xs] by simp
  moreover have h: "?hi = filter ((<) x) (filter (\<lambda>y. \<not> y < x) xs)" by (auto intro: filter_cong)
  ultimately have e: "filter ((<) x) (filter (\<lambda>y. \<not> y < x) xs) = filter (\<lambda>y. \<not> y < x) xs"
    by (metis length_filter_less filter_id_conv nat_neq_iff)
  then have "\<forall>y\<in>set (filter (\<lambda>y. \<not> y < x) xs). x < y" by (simp only: filter_id_conv)
  then have "x \<notin> set xs" by auto
  moreover have "distinct xs"
    using \<open>distinct ?lo\<close> \<open>distinct ?hi\<close> e h
    by (metis distinct_filter_parts)
  ultimately show ?case by simp
qed simp

lemma ALL_REGISTERS_names_distinct: "distinct (map rg_name ALL_REGISTERS)"
proof -
  have "all_distinct (map (name_code \<circ> rg_name) ALL_REGISTERS)"
    unfolding name_codes by (simp add: Let_def)
  then have "distinct (map name_code (map rg_name ALL_REGISTERS))"
    using all_distinct_distinct by simp
  then show ?thesis by (rule distinct_map [THEN iffD1, THEN conjunct1])
qed

lemma sorted_wrt_total:
  "sorted_wrt P xs \<Longrightarrow> x \<in> set xs \<Longrightarrow> y \<in> set xs \<Longrightarrow> x = y \<or> P x y \<or> P y x"
  by (induction xs) auto

lemma reg_block_inj: "inj_on reg_block (set ALL_REGISTERS)"
  using ALL_REGISTERS_addresses_distinct
  by (auto simp: distinct_map reg_block_def inj_on_def)

lemma registers_disjoint:
  assumes "r \<in> set ALL_REGISTERS" "s \<in> set ALL_REGISTERS" "r \<noteq> s"
  shows "reg_words r \<inter> reg_words s = {}"
proof -
  have "reg_block r \<noteq> reg_block s" using assms reg_block_inj by (auto dest: inj_onD)
  moreover have "reg_block r \<in> set (sort_key fst (map reg_block ALL_REGISTERS))"
    "reg_block s \<in> set (sort_key fst (map reg_block ALL_REGISTERS))" using assms by simp_all
  ultimately have "block_before (reg_block r) (reg_block s) \<or> block_before (reg_block s) (reg_block r)"
    using sorted_wrt_total [OF sorted_blocks_ordered] by blast
  then show ?thesis by (auto simp: block_before_def reg_block_def reg_words_def)
qed

lemma registers_nonempty: "r \<in> set ALL_REGISTERS \<Longrightarrow> 0 < rg_count r"
proof -
  have "list_all (\<lambda>p. fst p < snd p) (map reg_block ALL_REGISTERS)"
    unfolding ALL_REGISTERS_blocks by simp
  then show "r \<in> set ALL_REGISTERS \<Longrightarrow> 0 < rg_count r"
    by (auto simp: list_all_iff reg_block_def)
qed

text \<open>Names and addresses look up the register they belong to.\<close>

lemma map_of_rev_distinct:
  "distinct (map f xs) \<Longrightarrow> x \<in> set xs \<Longrightarrow> map_of (rev (map (\<lambda>r. (f r, r)) xs)) (f x) = Some x"
  by (rule map_of_is_SomeI) (auto simp: rev_map [symmetric] o_def)

lemma map_of_rev_SomeD:
  "map_of (rev (map (\<lambda>r. (f r, r)) xs)) k = Some x \<Longrightarrow> x \<in> set xs \<and> f x = k"
  by (auto dest!: map_of_SomeD)

lemma REGISTER_BY_NAME_name [kore_simps]:
  "r \<in> set ALL_REGISTERS \<Longrightarrow> REGISTER_BY_NAME (rg_name r) = Some r"
  unfolding REGISTER_BY_NAME_def by (rule map_of_rev_distinct [OF ALL_REGISTERS_names_distinct])

lemma REGISTER_BY_ADDRESS_address [kore_simps]:
  "r \<in> set ALL_REGISTERS \<Longrightarrow> REGISTER_BY_ADDRESS (rg_address r) = Some r"
  unfolding REGISTER_BY_ADDRESS_def
  by (rule map_of_rev_distinct [OF ALL_REGISTERS_addresses_distinct])

lemma REGISTER_BY_NAME_SomeD:
  "REGISTER_BY_NAME n = Some r \<Longrightarrow> r \<in> set ALL_REGISTERS \<and> rg_name r = n"
  unfolding REGISTER_BY_NAME_def by (rule map_of_rev_SomeD)

lemma REGISTER_BY_ADDRESS_SomeD:
  "REGISTER_BY_ADDRESS a = Some r \<Longrightarrow> r \<in> set ALL_REGISTERS \<and> rg_address r = a"
  unfolding REGISTER_BY_ADDRESS_def by (rule map_of_rev_SomeD)

lemma REGISTER_BY_ADDRESS_iff:
  "REGISTER_BY_ADDRESS a = Some r \<longleftrightarrow> r \<in> set ALL_REGISTERS \<and> rg_address r = a"
  using REGISTER_BY_ADDRESS_SomeD REGISTER_BY_ADDRESS_address by blast

text \<open>The writable battery registers, and the words a write of them touches.\<close>

lemma filter_mask: "filter P xs = map fst (filter snd (zip xs (map P xs)))"
  by (induction xs) simp_all

lemma battery_control_mask: "map (\<lambda>r. rg_access r = RW \<and> rg_group r \<in> {G_BATTERY_MGMT, G_BATTERY_LIMIT_G3}) ALL_REGISTERS =
    [False, False, False, False, False, False, False, False, False, False, False, False,
      False, False, False, False, False, False, False, False, False, False, False, False,
      False, False, False, False, False, False, False, False, False, False, False, False,
      False, False, False, False, False, False, False, False, False, False, False, False,
      False, False, False, False, False, False, False, False, False, False, False, False,
      False, False, False, False, False, False, False, False, False, False, False, False,
      False, False, False, False, False, False, False, False, False, False, False, False,
      False, False, False, False, False, False, False, False, False, False, False, False,
      False, False, False, False, False, False, False, False, False, False, False, False,
      False, False, False, False, False, False, False, False, False, False, False, False,
      False, False, False, False, False, False, True, True, True, True, True, True, True,
      True, True, True, True, True, True, True, True]"
  by (simp add: ALL_REGISTERS_def REG_defs)

lemma BATTERY_CONTROL_REGISTERS_eq: "BATTERY_CONTROL_REGISTERS =
    [REG_BAT_CHARGE_AC_ABS, REG_BAT_CHARGE_DC_REL, REG_BAT_CHARGE_AC_REL,
     REG_BAT_CHARGE_DC_ABS_CURRENT, REG_BAT_CHARGE_DC_ABS_POWER, REG_BAT_CHARGE_DC_REL_POWER,
     REG_BAT_MAX_CHARGE_LIMIT, REG_BAT_MAX_DISCHARGE_LIMIT, REG_BAT_MIN_SOC, REG_BAT_MAX_SOC,
     REG_G3_MAX_CHARGE, REG_G3_MAX_DISCHARGE, REG_G3_MAX_CHARGE_FALLBACK,
     REG_G3_MAX_DISCHARGE_FALLBACK, REG_G3_FALLBACK_TIME]"
  unfolding BATTERY_CONTROL_REGISTERS_def WRITABLE_REGISTERS_def filter_filter
  by (subst filter_mask, subst battery_control_mask, simp add: ALL_REGISTERS_def)

lemma BATTERY_CONTROL_ADDRESSES_eq:
  "BATTERY_CONTROL_ADDRESSES = [1026 ..< 1046] @ [1280 ..< 1290]"
  by (simp add: BATTERY_CONTROL_ADDRESSES_def BATTERY_CONTROL_REGISTERS_eq REG_defs
      upt_rec_numeral)

lemma BATTERY_CONTROL_ADDRESSES_iff:
  "a \<in> set BATTERY_CONTROL_ADDRESSES \<longleftrightarrow> (1026 \<le> a \<and> a < 1046) \<or> (1280 \<le> a \<and> a < 1290)"
  unfolding BATTERY_CONTROL_ADDRESSES_eq set_append set_upt by auto

text \<open>A 32-bit register has two words; every other scalar register that is writable has one.\<close>

definition size_ok :: "modbus_register \<Rightarrow> bool" where
  "size_ok r = (case rg_dtype r of
       FLOAT32 \<Rightarrow> rg_count r = 2 | UINT32 \<Rightarrow> rg_count r = 2 | SINT32 \<Rightarrow> rg_count r = 2
     | STRING \<Rightarrow> 0 < rg_count r
     | UINT16 \<Rightarrow> rg_access r = RW \<longrightarrow> rg_count r = 1
     | _ \<Rightarrow> rg_count r = 1)"

lemma ALL_REGISTERS_size_ok: "list_all size_ok ALL_REGISTERS"
  by (simp add: ALL_REGISTERS_unfold size_ok_def)

end
