(* ===== verification/PyText.thy ===== *)
theory PyText
  imports PyFloat
begin

text \<open>
  Python strings over the Latin-1 code points (one \<open>char\<close> is one code point), the values
  the code passes around, and the conversions \<open>int(x)\<close>, \<open>float(x)\<close>, \<open>str(x)\<close> and
  truth of them. Text from the inverter is decoded as Latin-1, so the range is enough.
\<close>

section \<open>Strings\<close>

definition is_digit :: "char \<Rightarrow> bool" where
  "is_digit c \<longleftrightarrow> 48 \<le> (of_char c :: nat) \<and> (of_char c :: nat) \<le> 57"

definition digit_val :: "char \<Rightarrow> nat" where
  "digit_val c = of_char c - 48"

text \<open>The characters \<open>str.strip()\<close> removes, up to code point 255.\<close>

definition is_space :: "char \<Rightarrow> bool" where
  "is_space c \<longleftrightarrow> (of_char c :: nat) \<in> {9, 10, 11, 12, 13, 28, 29, 30, 31, 32, 133, 160}"

definition rstrip_chars :: "(char \<Rightarrow> bool) \<Rightarrow> string \<Rightarrow> string" where
  "rstrip_chars P s = rev (dropWhile P (rev s))"

definition py_strip :: "string \<Rightarrow> string" where
  "py_strip s = rstrip_chars is_space (dropWhile is_space s)"

definition to_lower :: "char \<Rightarrow> char" where
  "to_lower c = (let n = (of_char c :: nat)
     in if (65 \<le> n \<and> n \<le> 90) \<or> (192 \<le> n \<and> n \<le> 222 \<and> n \<noteq> 215) then char_of (n + 32) else c)"

fun starts_with :: "string \<Rightarrow> string \<Rightarrow> bool" where
  "starts_with [] _ = True"
| "starts_with _ [] = False"
| "starts_with (p # ps) (c # cs) = (p = c \<and> starts_with ps cs)"

definition ends_with :: "string \<Rightarrow> string \<Rightarrow> bool" where
  "ends_with suf s = starts_with (rev suf) (rev s)"

fun contains :: "string \<Rightarrow> string \<Rightarrow> bool" where
  "contains p [] = (p = [])"
| "contains p (c # cs) = (starts_with p (c # cs) \<or> contains p cs)"

fun split_on :: "char \<Rightarrow> string \<Rightarrow> string list" where
  "split_on sep [] = [[]]"
| "split_on sep (c # cs) =
     (if c = sep then [] # split_on sep cs
      else case split_on sep cs of [] \<Rightarrow> [[c]] | w # ws \<Rightarrow> (c # w) # ws)"

lemma starts_with_iff: "starts_with p s \<longleftrightarrow> (\<exists>t. s = p @ t)"
  by (induction p s rule: starts_with.induct) auto

lemma ends_with_iff: "ends_with p s \<longleftrightarrow> (\<exists>t. s = t @ p)"
proof -
  have "(\<exists>t. rev s = rev p @ t) \<longleftrightarrow> (\<exists>t. s = t @ p)"
    by (metis rev_append rev_rev_ident)
  then show ?thesis by (simp add: ends_with_def starts_with_iff)
qed

lemma contains_iff: "contains p s \<longleftrightarrow> (\<exists>a b. s = a @ p @ b)"
proof (induction s)
  case (Cons c s)
  show ?case
  proof
    assume "contains p (c # s)"
    then consider "starts_with p (c # s)" | "contains p s" by auto
    then show "\<exists>a b. c # s = a @ p @ b"
    proof cases
      case 1
      then obtain t where "c # s = [] @ p @ t" by (auto simp: starts_with_iff)
      then show ?thesis by blast
    next
      case 2
      then obtain a b where "s = a @ p @ b" using Cons.IH by blast
      then have "c # s = (c # a) @ p @ b" by simp
      then show ?thesis by blast
    qed
  next
    assume "\<exists>a b. c # s = a @ p @ b"
    then obtain a b where e: "c # s = a @ p @ b" by blast
    then show "contains p (c # s)"
    proof (cases a)
      case Nil
      then have "starts_with p (c # s)" using e unfolding starts_with_iff by auto
      then show ?thesis by simp
    next
      case (Cons x a')
      then show ?thesis using e Cons.IH by auto
    qed
  qed
qed simp

section \<open>Numbers in strings\<close>

text \<open>Decimal digits with single underscores between them, the whole string.\<close>

fun digits_us :: "string \<Rightarrow> nat list option" where
  "digits_us [] = None"
| "digits_us [c] = (if is_digit c then Some [digit_val c] else None)"
| "digits_us (c # d # cs) =
     (if is_digit c
      then map_option ((#) (digit_val c)) (digits_us (if d = CHR ''_'' then cs else d # cs))
      else None)"

definition digits_value :: "nat list \<Rightarrow> int" where
  "digits_value ds = foldl (\<lambda>a d. a * 10 + int d) 0 ds"

text \<open>An optional sign in front of the rest.\<close>

definition split_sign :: "string \<Rightarrow> bool \<times> string" where
  "split_sign s = (case s of
       [] \<Rightarrow> (False, [])
     | c # cs \<Rightarrow> if c = CHR ''-'' then (True, cs) else if c = CHR ''+'' then (False, cs) else (False, s))"

text \<open>\<open>int(s)\<close>: more than 4300 digits are refused, as CPython does by default.\<close>

definition int_of_str :: "string \<Rightarrow> pyexc + int" where
  "int_of_str s = (let (neg, t) = split_sign (py_strip s)
     in case digits_us t of
          None \<Rightarrow> Inl ValueError
        | Some ds \<Rightarrow> if 4300 < length ds then Inl ValueError
                     else Inr (if neg then - digits_value ds else digits_value ds))"

definition span_until :: "(char \<Rightarrow> bool) \<Rightarrow> string \<Rightarrow> string \<times> string option" where
  "span_until P s = (let a = takeWhile (\<lambda>c. \<not> P c) s
     in (a, case dropWhile (\<lambda>c. \<not> P c) s of [] \<Rightarrow> None | _ # r \<Rightarrow> Some r))"

definition opt_digits :: "string \<Rightarrow> nat list option" where
  "opt_digits s = (if s = [] then Some [] else digits_us s)"

definition decimal_of :: "string \<Rightarrow> (nat list \<times> nat list) option" where
  "decimal_of m = (let (a, b) = span_until (\<lambda>c. c = CHR ''.'') m
     in case b of
          None \<Rightarrow> map_option (\<lambda>ds. (ds, [])) (digits_us a)
        | Some f \<Rightarrow> if a = [] \<and> f = [] then None
                    else case opt_digits a of None \<Rightarrow> None
                      | Some ds \<Rightarrow> map_option (\<lambda>fs. (ds, fs)) (opt_digits f))"

definition exponent_of :: "string option \<Rightarrow> int option" where
  "exponent_of x = (case x of None \<Rightarrow> Some 0
     | Some s \<Rightarrow> (let (neg, t) = split_sign s
         in map_option (\<lambda>ds. if neg then - digits_value ds else digits_value ds) (digits_us t)))"

definition pow10 :: "int \<Rightarrow> rat" where
  "pow10 e = (if 0 \<le> e then 10 ^ nat e else 1 / 10 ^ nat (- e))"

text \<open>\<open>float(s)\<close>: the double nearest to the decimal written, an infinity or a NaN.\<close>

definition float_of_str :: "string \<Rightarrow> pyexc + pyfloat" where
  "float_of_str s = (let (neg, t) = split_sign (py_strip s); l = map to_lower t
     in if l = ''inf'' \<or> l = ''infinity'' then Inr (if neg then FNegInf else FPosInf)
        else if l = ''nan'' then Inr FNaN
        else let (m, x) = span_until (\<lambda>c. c = CHR ''e'' \<or> c = CHR ''E'') t
             in case (decimal_of m, exponent_of x) of
                  (Some (ds, fs), Some e) \<Rightarrow>
                    (let r = of_int (digits_value (ds @ fs)) * pow10 (e - int (length fs))
                     in Inr (mk_float neg (if neg then - r else r)))
                | _ \<Rightarrow> Inl ValueError)"

fun nat_dec :: "nat \<Rightarrow> string" where
  "nat_dec n = (if n < 10 then [char_of (n + 48)] else nat_dec (n div 10) @ [char_of (n mod 10 + 48)])"

declare nat_dec.simps [simp del]

definition int_dec :: "int \<Rightarrow> string" where
  "int_dec i = (if i < 0 then CHR ''-'' # nat_dec (nat (- i)) else nat_dec (nat i))"

section \<open>Values\<close>

datatype pyval = VNone | VBool bool | VInt int | VFloat pyfloat | VStr string

fun int_of_val :: "pyval \<Rightarrow> pyexc + int" where
  "int_of_val VNone = Inl TypeError"
| "int_of_val (VBool b) = Inr (if b then 1 else 0)"
| "int_of_val (VInt i) = Inr i"
| "int_of_val (VFloat x) = int_of_float x"
| "int_of_val (VStr s) = int_of_str s"

fun float_of_val :: "pyval \<Rightarrow> pyexc + pyfloat" where
  "float_of_val VNone = Inl TypeError"
| "float_of_val (VBool b) = Inr (FFin (if b then 1 else 0))"
| "float_of_val (VInt i) = float_of_int i"
| "float_of_val (VFloat x) = Inr x"
| "float_of_val (VStr s) = float_of_str s"

fun py_truth :: "pyval \<Rightarrow> bool" where
  "py_truth VNone = False"
| "py_truth (VBool b) = b"
| "py_truth (VInt i) = (i \<noteq> 0)"
| "py_truth (VFloat x) = (\<not> feq x (FFin 0))"
| "py_truth (VStr s) = (s \<noteq> [])"

text \<open>\<open>isinstance(v, (int, float))\<close>; a bool is an int.\<close>

fun is_number :: "pyval \<Rightarrow> bool" where
  "is_number (VBool _) = True"
| "is_number (VInt _) = True"
| "is_number (VFloat _) = True"
| "is_number _ = False"

text \<open>\<open>math.isfinite\<close> of a number; an int too large for a float would raise.\<close>

fun num_is_finite :: "pyval \<Rightarrow> bool" where
  "num_is_finite (VFloat x) = is_finite x"
| "num_is_finite _ = True"

text \<open>\<open>v == 0\<close>.\<close>

fun val_eq_zero :: "pyval \<Rightarrow> bool" where
  "val_eq_zero (VBool b) = (\<not> b)"
| "val_eq_zero (VInt i) = (i = 0)"
| "val_eq_zero (VFloat x) = feq x (FFin 0)"
| "val_eq_zero _ = False"

text \<open>\<open>str(v)\<close>; \<open>frepr\<close> is CPython's shortest representation of a float.\<close>

fun str_of_val :: "(pyfloat \<Rightarrow> string) \<Rightarrow> pyval \<Rightarrow> string" where
  "str_of_val frepr VNone = ''None''"
| "str_of_val frepr (VBool b) = (if b then ''True'' else ''False'')"
| "str_of_val frepr (VInt i) = int_dec i"
| "str_of_val frepr (VFloat x) = frepr x"
| "str_of_val frepr (VStr s) = s"

section \<open>Printing and parsing integers\<close>

lemma digit_char: "d < 10 \<Longrightarrow> is_digit (char_of (d + 48)) \<and> digit_val (char_of (d + 48)) = d"
  by (simp add: is_digit_def digit_val_def)

lemma nat_dec_nonempty: "nat_dec n \<noteq> []"
  by (subst nat_dec.simps) simp

lemma digit_not_underscore: "is_digit c \<Longrightarrow> c \<noteq> CHR ''_''"
  by (auto simp: is_digit_def)

lemma digits_us_digits:
  "s \<noteq> [] \<Longrightarrow> list_all is_digit s \<Longrightarrow> digits_us s = Some (map digit_val s)"
  by (induction s rule: digits_us.induct) (auto dest: digit_not_underscore)

lemma nat_dec_digits: "list_all is_digit (nat_dec n)"
proof (induction n rule: nat_dec.induct)
  case (1 n)
  show ?case
  proof (cases "n < 10")
    case True
    then show ?thesis by (subst nat_dec.simps) (simp add: digit_char)
  next
    case False
    have "is_digit (char_of (n mod 10 + 48))" using digit_char [of "n mod 10"] by simp
    with 1 False show ?thesis by (subst nat_dec.simps) simp
  qed
qed

lemma digits_value_snoc: "digits_value (ds @ [d]) = digits_value ds * 10 + int d"
  by (simp add: digits_value_def)

lemma nat_dec_value: "digits_value (map digit_val (nat_dec n)) = int n"
proof (induction n rule: nat_dec.induct)
  case (1 n)
  show ?case
  proof (cases "n < 10")
    case True
    then show ?thesis
      using digit_char [of n] by (subst nat_dec.simps) (simp add: digits_value_def)
  next
    case False
    have "digit_val (char_of (n mod 10 + 48)) = n mod 10" using digit_char [of "n mod 10"] by simp
    moreover have "int (n div 10) * 10 + int (n mod 10) = int n"
      by (metis div_mult_mod_eq of_nat_add of_nat_mult of_nat_numeral)
    ultimately show ?thesis
      using 1 False by (subst nat_dec.simps) (simp add: digits_value_snoc)
  qed
qed

end
