(* ===== verification/Codec.thy ===== *)
theory Codec
  imports Registers PyText
begin

text \<open>
  The wire format: \<open>struct\<close> packing, decoding and encoding of registers in the client
  (\<^verbatim>\<open>modbus_client.py\<close>, \<open>_decode\<close>, \<open>_encode\<close>) and in the proxy
  (\<^verbatim>\<open>modbus_proxy.py\<close>, \<open>_encode_value\<close>, \<open>_decode_for_write\<close>), with the round trips
  between them.
\<close>

unbundle bit_operations_syntax

type_synonym byte = "8 word"

section \<open>struct\<close>

text \<open>Big-endian bytes of an integer (two's complement) and back.\<close>

fun pack_be :: "nat \<Rightarrow> int \<Rightarrow> byte list" where
  "pack_be 0 v = []"
| "pack_be (Suc n) v = pack_be n (v div 256) @ [word_of_int v]"

definition unpack_be :: "byte list \<Rightarrow> int" where
  "unpack_be bs = foldl (\<lambda>a b. a * 256 + uint b) 0 bs"

definition pack_uint :: "nat \<Rightarrow> int \<Rightarrow> pyexc + byte list" where
  "pack_uint n v = (if 0 \<le> v \<and> v < 256 ^ n then Inr (pack_be n v) else Inl StructError)"

definition pack_sint :: "nat \<Rightarrow> int \<Rightarrow> pyexc + byte list" where
  "pack_sint n v =
     (if - (256 ^ n div 2) \<le> v \<and> v < 256 ^ n div 2 then Inr (pack_be n v) else Inl StructError)"

definition unpack_uint :: "nat \<Rightarrow> byte list \<Rightarrow> pyexc + int" where
  "unpack_uint n bs = (if length bs = n then Inr (unpack_be bs) else Inl StructError)"

definition unpack_sint :: "nat \<Rightarrow> byte list \<Rightarrow> pyexc + int" where
  "unpack_sint n bs = bind_res (unpack_uint n bs)
     (\<lambda>u. Inr (if 256 ^ n div 2 \<le> u then u - 256 ^ n else u))"

definition pack_f32 :: "pyfloat \<Rightarrow> pyexc + byte list" where
  "pack_f32 x = bind_res (bits_of_f32 x) (\<lambda>n. Inr (pack_be 4 n))"

definition unpack_f32 :: "byte list \<Rightarrow> pyexc + pyfloat" where
  "unpack_f32 bs = bind_res (unpack_uint 4 bs) (\<lambda>n. Inr (f32_of_bits n))"

text \<open>\<open>struct.unpack(">HH", b)\<close>.\<close>

definition unpack_HH :: "byte list \<Rightarrow> pyexc + int \<times> int" where
  "unpack_HH bs = (if length bs = 4 then Inr (unpack_be (take 2 bs), unpack_be (drop 2 bs))
                   else Inl StructError)"

definition pack_HH :: "int \<Rightarrow> int \<Rightarrow> pyexc + byte list" where
  "pack_HH a b = bind_res (pack_uint 2 a) (\<lambda>x. bind_res (pack_uint 2 b) (\<lambda>y. Inr (x @ y)))"

lemma length_pack_be [simp]: "length (pack_be n v) = n"
  by (induction n v rule: pack_be.induct) auto

lemma unpack_be_Nil [simp]: "unpack_be [] = 0"
  by (simp add: unpack_be_def)

lemma unpack_be_snoc [simp]: "unpack_be (bs @ [b]) = unpack_be bs * 256 + uint b"
  by (simp add: unpack_be_def)

lemma uint_byte_bounds: "0 \<le> uint (b :: byte)" "uint (b :: byte) < 256"
  using uint_lt2p [of b] by simp_all

lemma uint_byte: "uint (word_of_int v :: byte) = v mod 256"
  by (simp add: uint_word_of_int)

lemma unpack_be_bounds: "0 \<le> unpack_be bs \<and> unpack_be bs < 256 ^ length bs"
proof (induction bs rule: rev_induct)
  case (snoc b bs)
  have "unpack_be bs * 256 + uint b < (unpack_be bs + 1) * 256"
    using uint_byte_bounds(2) [of b] by simp
  also have "\<dots> \<le> 256 ^ length bs * 256" using snoc by (intro mult_right_mono) simp_all
  finally show ?case using snoc uint_byte_bounds(1) [of b] by (simp add: mult.commute)
qed simp

lemma unpack_pack_be [simp]: "unpack_be (pack_be n v) = v mod 256 ^ n"
proof (induction n v rule: pack_be.induct)
  case (2 n v)
  then show ?case by (simp add: uint_byte zmod_zmult2_eq mult.commute)
qed simp

lemma pack_unpack_be [simp]: "pack_be (length bs) (unpack_be bs) = bs"
proof (induction bs rule: rev_induct)
  case (snoc b bs)
  have "(unpack_be bs * 256 + uint b) div 256 = unpack_be bs"
    using uint_byte_bounds [of b] by simp
  moreover have "word_of_int (unpack_be bs * 256 + uint b) = b"
  proof -
    have "(unpack_be bs * 256 + uint b) mod 256 = uint b"
      using uint_byte_bounds [of b] by simp
    then have "uint (word_of_int (unpack_be bs * 256 + uint b) :: byte) = uint b"
      by (simp only: uint_byte)
    then show ?thesis by (simp only: word_uint_eq_iff)
  qed
  ultimately show ?case using snoc by simp
qed simp

lemma pack_be_inj:
  "length bs = n \<Longrightarrow> unpack_be bs = v mod 256 ^ n \<Longrightarrow> pack_be n v = bs"
  by (metis length_pack_be pack_unpack_be unpack_pack_be)

lemma pack_uint_unpack: "length bs = n \<Longrightarrow> pack_uint n (unpack_be bs) = Inr bs"
  using unpack_be_bounds [of bs] by (auto simp: pack_uint_def)

lemma pack_sint_unpack:
  assumes "length bs = n" "0 < n" "unpack_sint n bs = Inr v"
  shows "pack_sint n v = Inr bs"
proof -
  obtain m where n: "n = Suc m" using assms(2) by (cases n) auto
  have u: "0 \<le> unpack_be bs" "unpack_be bs < 256 ^ n"
    using unpack_be_bounds [of bs] assms(1) by auto
  have v: "v = (if 256 ^ n div 2 \<le> unpack_be bs then unpack_be bs - 256 ^ n else unpack_be bs)"
    using assms by (simp add: unpack_sint_def unpack_uint_def)
  have "v mod 256 ^ n = unpack_be bs" using u by (auto simp: v)
  then have "pack_be n v = bs" using assms(1) by (intro pack_be_inj) simp_all
  moreover have "- (256 ^ n div 2) \<le> v" "v < 256 ^ n div 2" using u by (auto simp: v n)
  ultimately show ?thesis by (simp add: pack_sint_def)
qed

lemma pack_f32_unpack:
  assumes "unpack_f32 bs = Inr x" "is_finite x"
  shows "pack_f32 x = Inr bs"
proof -
  have l: "length bs = 4" and x: "x = f32_of_bits (unpack_be bs)"
    using assms(1) by (auto simp: unpack_f32_def unpack_uint_def split: if_splits)
  have "bits_of_f32 x = Inr (unpack_be bs)"
    unfolding x using assms(2) unpack_be_bounds [of bs] l
    by (intro bits_of_f32_of_bits) (auto simp: x)
  then show ?thesis using l pack_unpack_be [of bs] by (simp add: pack_f32_def)
qed

text \<open>Splitting four bytes into two words and putting them back in either order.\<close>

lemma unpack_HH_pack: "unpack_HH bs = Inr (a, b) \<Longrightarrow> pack_HH a b = Inr bs"
  by (auto simp: unpack_HH_def pack_HH_def pack_uint_unpack split: if_splits)

lemma pack_HH_swap:
  assumes "unpack_HH bs = Inr (a, b)" "pack_HH b a = Inr cs"
  shows "unpack_HH cs = Inr (b, a)"
  using assms by (auto simp: unpack_HH_def pack_HH_def pack_uint_unpack split: if_splits)

lemma pack_HH_swapped:
  assumes "length bs = 4" "unpack_HH bs = Inr (hi, lo)"
  shows "pack_HH lo hi = Inr (drop 2 bs @ take 2 bs)"
  using assms by (auto simp: unpack_HH_def pack_HH_def pack_uint_unpack)

lemma unpack_HH_bounds:
  assumes "unpack_HH bs = Inr (a, b)"
  shows "0 \<le> a \<and> a < 65536 \<and> 0 \<le> b \<and> b < 65536"
  using assms unpack_be_bounds [of "take 2 bs"] unpack_be_bounds [of "drop 2 bs"]
  by (auto simp: unpack_HH_def split: if_splits)

text \<open>Shifts and masks of the code as arithmetic.\<close>

lemma shift_or: "0 \<le> (hi::int) \<Longrightarrow> hi < 65536 \<Longrightarrow> push_bit 16 lo OR hi = lo * 65536 + hi"
proof -
  assume "0 \<le> hi" "hi < 65536"
  then have "hi = take_bit 16 hi" by (simp add: take_bit_eq_mod)
  then have b: "bit hi n \<Longrightarrow> n < 16" for n by (metis bit_take_bit_iff)
  have "push_bit 16 lo + hi = push_bit 16 lo OR hi"
    by (intro disjunctive_add) (auto simp: bit_push_bit_iff dest: b)
  then show ?thesis by (simp add: push_bit_eq_mult)
qed

lemma mask16: "(v::int) AND 0xFFFF = v mod 65536"
proof -
  have "(0xFFFF::int) = mask 16" by (simp add: mask_eq_exp_minus_1)
  then show ?thesis by (simp only: take_bit_eq_mask [symmetric]) (simp add: take_bit_eq_mod)
qed

lemma shift16: "drop_bit 16 (v::int) = v div 65536"
  by (simp add: drop_bit_eq_div)

section \<open>The client: errors, decoding, encoding\<close>

text \<open>
  The exception classes of \<^verbatim>\<open>modbus_client.py\<close> as one type. A transient or permanent
  error keeps the Modbus exception code, from which its message is built; \<open>ShutdownAbort\<close>
  is the subclass of the connection error, \<open>SchedTimeout\<close> the timeout of the request
  scheduler and \<open>PyExc\<close> any other Python exception.
\<close>

datatype modbus_error = ClientError | ConnectionError | ShutdownAbort | ReadError | WriteError
  | TransientError nat | PermanentError nat | SchedTimeout | PyExc pyexc

definition VENDOR_REGISTER_BASE :: nat where
  "VENDOR_REGISTER_BASE = 500"

fun lift_py :: "pyexc + 'a \<Rightarrow> modbus_error + 'a" where
  "lift_py (Inl e) = Inl (PyExc e)"
| "lift_py (Inr a) = Inr a"

text \<open>The 32-bit integers: vendor registers are always big-endian.\<close>

definition big_words :: "string \<Rightarrow> modbus_register \<Rightarrow> bool" where
  "big_words endian r \<longleftrightarrow> VENDOR_REGISTER_BASE \<le> rg_address r \<or> endian = ''big''"

text \<open>The word order of a 32-bit unsigned integer and of a 32-bit float, in either direction.\<close>

definition u32_decode :: "string \<Rightarrow> modbus_register \<Rightarrow> byte list \<Rightarrow> pyexc + int" where
  "u32_decode endian r raw =
     (if big_words endian r then unpack_uint 4 raw
      else bind_res (unpack_HH raw) (\<lambda>(hi, lo). Inr (push_bit 16 lo OR hi)))"

definition u32_encode :: "string \<Rightarrow> modbus_register \<Rightarrow> int \<Rightarrow> pyexc + byte list" where
  "u32_encode endian r v =
     (if big_words endian r then pack_uint 4 v
      else pack_HH (v AND 0xFFFF) (drop_bit 16 v AND 0xFFFF))"

definition f32_decode :: "string \<Rightarrow> byte list \<Rightarrow> pyexc + pyfloat" where
  "f32_decode endian raw =
     (if endian = ''big'' then unpack_f32 raw
      else bind_res (unpack_HH raw) (\<lambda>(hi, lo). bind_res (pack_HH lo hi) unpack_f32))"

definition f32_encode :: "string \<Rightarrow> pyfloat \<Rightarrow> pyexc + byte list" where
  "f32_encode endian x =
     (if endian = ''big'' then pack_f32 x
      else bind_res (pack_f32 x) (\<lambda>packed. bind_res (unpack_HH packed)
             (\<lambda>(hi, lo). pack_HH lo hi)))"

definition decode_string :: "byte list \<Rightarrow> string" where
  "decode_string raw =
     py_strip (rstrip_chars (\<lambda>c. c = CHR 0x00) (map (\<lambda>b. char_of (unat b)) raw))"

definition decode_register :: "string \<Rightarrow> byte list \<Rightarrow> modbus_register \<Rightarrow> modbus_error + pyval" where
  "decode_register endian raw r = (case rg_dtype r of
     UINT16 \<Rightarrow> lift_py (bind_res (unpack_uint 2 (take 2 raw)) (\<lambda>v. Inr (VInt v)))
   | SINT16 \<Rightarrow> lift_py (bind_res (unpack_sint 2 (take 2 raw)) (\<lambda>v. Inr (VInt v)))
   | UINT32 \<Rightarrow> lift_py (bind_res (u32_decode endian r (take 4 raw)) (\<lambda>v. Inr (VInt v)))
   | SINT32 \<Rightarrow>
       (if big_words endian r
        then lift_py (bind_res (unpack_sint 4 (take 4 raw)) (\<lambda>v. Inr (VInt v)))
        else lift_py (bind_res (unpack_HH (take 4 raw))
               (\<lambda>(hi, lo). let val = push_bit 16 lo OR hi
                  in Inr (VInt (if 0x80000000 \<le> val then val - 0x100000000 else val)))))
   | FLOAT32 \<Rightarrow> lift_py (bind_res (f32_decode endian (take 4 raw)) (\<lambda>x. Inr (VFloat x)))
   | STRING \<Rightarrow> Inr (VStr (decode_string raw))
   | BOOL \<Rightarrow> lift_py (bind_res (unpack_uint 2 (take 2 raw)) (\<lambda>v. Inr (VBool (v \<noteq> 0))))
   | UINT8 \<Rightarrow> (case raw of [] \<Rightarrow> Inl (PyExc IndexError) | b # _ \<Rightarrow> Inr (VInt (uint b))))"

text \<open>
  \<open>_encode_inner\<close> may raise a Python exception or a write error; \<open>_encode\<close> turns the
  value, overflow and struct errors into write errors and lets a type error through.
\<close>

definition encode_inner :: "string \<Rightarrow> pyval \<Rightarrow> modbus_register \<Rightarrow> modbus_error + byte list" where
  "encode_inner endian value r = (case rg_dtype r of
     UINT16 \<Rightarrow> lift_py (bind_res (int_of_val value) (pack_uint 2))
   | SINT16 \<Rightarrow> lift_py (bind_res (int_of_val value) (pack_sint 2))
   | UINT32 \<Rightarrow> lift_py (bind_res (int_of_val value) (u32_encode endian r))
   | FLOAT32 \<Rightarrow> bind_res (lift_py (float_of_val value)) (\<lambda>fv.
       if is_nan fv \<or> is_inf fv then Inl WriteError else lift_py (f32_encode endian fv))
   | BOOL \<Rightarrow> lift_py (pack_uint 2 (if py_truth value then 1 else 0))
   | _ \<Rightarrow> Inl WriteError)"

definition encode_register :: "string \<Rightarrow> pyval \<Rightarrow> modbus_register \<Rightarrow> modbus_error + byte list" where
  "encode_register endian value r = (case encode_inner endian value r of
     Inl (PyExc e) \<Rightarrow>
       (if e \<in> {ValueError, OverflowError, StructError} then Inl WriteError else Inl (PyExc e))
   | x \<Rightarrow> x)"

section \<open>The proxy: encoding cached values, decoding written values\<close>

definition latin1_bytes :: "string \<Rightarrow> byte list" where
  "latin1_bytes s = map (\<lambda>c. of_nat (of_char c)) s"

definition none_or :: "'a \<Rightarrow> (pyval \<Rightarrow> pyexc + 'a) \<Rightarrow> pyval \<Rightarrow> pyexc + 'a" where
  "none_or d f v = (if v = VNone then Inr d else f v)"

definition encode_value ::
    "(pyfloat \<Rightarrow> string) \<Rightarrow> pyval \<Rightarrow> modbus_register \<Rightarrow> string \<Rightarrow> pyexc + byte list" where
  "encode_value frepr value r endian = (case rg_dtype r of
     UINT16 \<Rightarrow> bind_res (none_or 0 int_of_val value) (pack_uint 2)
   | SINT16 \<Rightarrow> bind_res (none_or 0 int_of_val value) (pack_sint 2)
   | UINT32 \<Rightarrow> bind_res (none_or 0 int_of_val value) (u32_encode endian r)
   | SINT32 \<Rightarrow> bind_res (none_or 0 int_of_val value) (\<lambda>v.
       if big_words endian r then pack_sint 4 v
       else let w = (if v < 0 then v + 0x100000000 else v)
            in pack_HH (w AND 0xFFFF) (drop_bit 16 w AND 0xFFFF))
   | FLOAT32 \<Rightarrow> bind_res (none_or (FFin 0) float_of_val value) (\<lambda>fv.
       if is_nan fv \<or> is_inf fv then Inl ValueError else f32_encode endian fv)
   | STRING \<Rightarrow> (let s = (if value = VNone then [] else str_of_val frepr value);
                    raw = latin1_bytes s; n = rg_count r * 2
                in Inr (take n (raw @ replicate (n - length raw) 0)))
   | BOOL \<Rightarrow> pack_uint 2 (if py_truth value then 1 else 0)
   | UINT8 \<Rightarrow> bind_res (none_or 0 int_of_val value) (pack_uint 2))"

definition decode_for_write :: "string \<Rightarrow> modbus_register \<Rightarrow> byte list \<Rightarrow> pyexc + pyval" where
  "decode_for_write endian r raw = (case rg_dtype r of
     UINT16 \<Rightarrow> bind_res (unpack_uint 2 (take 2 raw)) (\<lambda>v. Inr (VInt v))
   | SINT16 \<Rightarrow> bind_res (unpack_sint 2 (take 2 raw)) (\<lambda>v. Inr (VInt v))
   | FLOAT32 \<Rightarrow> bind_res (f32_decode endian (take 4 raw)) (\<lambda>x. Inr (VFloat x))
   | UINT32 \<Rightarrow> bind_res (u32_decode endian r (take 4 raw)) (\<lambda>v. Inr (VInt v))
   | _ \<Rightarrow> bind_res (unpack_uint 2 (take 2 raw)) (\<lambda>v. Inr (VInt v)))"

section \<open>Round trips\<close>

text \<open>The registers of a fixed-size scalar type whose word count is the size of the type.\<close>

definition scalar_words :: "data_type \<Rightarrow> nat" where
  "scalar_words t = (case t of UINT32 \<Rightarrow> 2 | SINT32 \<Rightarrow> 2 | FLOAT32 \<Rightarrow> 2 | STRING \<Rightarrow> 0 | _ \<Rightarrow> 1)"

definition wire_scalar :: "data_type \<Rightarrow> bool" where
  "wire_scalar t \<longleftrightarrow> t \<in> {UINT16, SINT16, UINT32, SINT32, FLOAT32}"

lemma lift_py_Inr_iff [simp]: "lift_py x = Inr a \<longleftrightarrow> x = Inr a"
  by (cases x) auto

lemma words_split:
  assumes "unpack_HH bs = Inr (hi, lo)"
  defines "v \<equiv> push_bit 16 lo OR hi"
  shows "v = lo * 65536 + hi" "0 \<le> v" "v < 0x100000000"
    "v AND 0xFFFF = hi" "drop_bit 16 v AND 0xFFFF = lo"
    "pack_HH (v AND 0xFFFF) (drop_bit 16 v AND 0xFFFF) = Inr bs"
proof -
  have b: "0 \<le> hi" "hi < 65536" "0 \<le> lo" "lo < 65536"
    using unpack_HH_bounds [OF assms(1)] by auto
  show v: "v = lo * 65536 + hi" using shift_or [OF b(1,2)] by (simp add: v_def)
  show "0 \<le> v" "v < 0x100000000" using b by (simp_all add: v)
  show m: "v AND 0xFFFF = hi" "drop_bit 16 v AND 0xFFFF = lo"
    using b by (simp_all only: mask16 shift16 v) simp_all
  show "pack_HH (v AND 0xFFFF) (drop_bit 16 v AND 0xFFFF) = Inr bs"
    unfolding m by (rule unpack_HH_pack [OF assms(1)])
qed

lemma f32_roundtrip:
  assumes "f32_decode endian bs = Inr x" "is_finite x"
  shows "f32_encode endian x = Inr bs"
proof (cases "endian = ''big''")
  case True
  then show ?thesis using assms by (simp add: f32_decode_def f32_encode_def pack_f32_unpack)
next
  case False
  then obtain hi lo cs where h: "unpack_HH bs = Inr (hi, lo)" "pack_HH lo hi = Inr cs"
    "unpack_f32 cs = Inr x"
    using assms by (auto simp: f32_decode_def bind_res_Inr_iff)
  show ?thesis
    using False pack_f32_unpack [OF h(3) assms(2)] pack_HH_swap [OF h(1,2)]
      unpack_HH_pack [OF h(1)] by (simp add: f32_encode_def)
qed

lemma u32_roundtrip: "u32_decode endian r bs = Inr v \<Longrightarrow> u32_encode endian r v = Inr bs"
  by (auto simp: u32_decode_def u32_encode_def bind_res_Inr_iff unpack_uint_def
      pack_uint_unpack words_split(6) simp del: drop_bit_or split: if_splits)

lemma finite_not_nan_inf [simp]: "is_finite x \<Longrightarrow> \<not> is_nan x" "is_finite x \<Longrightarrow> \<not> is_inf x"
  by (cases x) (auto simp: is_nan_def is_inf_def)

text \<open>What the client decodes, the proxy encodes back to the same bytes.\<close>

lemma encode_value_decode_register:
  assumes "wire_scalar (rg_dtype r)" "length bs = 2 * scalar_words (rg_dtype r)"
    "decode_register endian bs r = Inr v" "num_is_finite v"
  shows "encode_value frepr v r endian = Inr bs"
proof (cases "rg_dtype r")
  case UINT16
  then show ?thesis using assms
    by (auto simp: decode_register_def encode_value_def scalar_words_def bind_res_Inr_iff
        unpack_uint_def none_or_def pack_uint_unpack)
next
  case SINT16
  then show ?thesis using assms
    by (auto simp: decode_register_def encode_value_def scalar_words_def bind_res_Inr_iff
        none_or_def) (rule pack_sint_unpack; simp)
next
  case UINT32
  then show ?thesis using assms
    by (auto simp: decode_register_def encode_value_def scalar_words_def bind_res_Inr_iff
        none_or_def u32_roundtrip)
next
  case SINT32
  show ?thesis
  proof (cases "big_words endian r")
    case True
    then show ?thesis using SINT32 assms
      by (auto simp: decode_register_def encode_value_def scalar_words_def bind_res_Inr_iff
          none_or_def) (rule pack_sint_unpack; simp)
  next
    case False
    then obtain hi lo where HH: "unpack_HH bs = Inr (hi, lo)"
      and v: "v = VInt (let val = push_bit 16 lo OR hi
                in if 0x80000000 \<le> val then val - 0x100000000 else val)"
      using SINT32 assms
      by (auto simp: decode_register_def scalar_words_def bind_res_Inr_iff Let_def)
    have "(if (if 0x80000000 \<le> push_bit 16 lo OR hi then (push_bit 16 lo OR hi) - 0x100000000
               else push_bit 16 lo OR hi) < 0
           then (if 0x80000000 \<le> push_bit 16 lo OR hi then (push_bit 16 lo OR hi) - 0x100000000
               else push_bit 16 lo OR hi) + 0x100000000
           else (if 0x80000000 \<le> push_bit 16 lo OR hi then (push_bit 16 lo OR hi) - 0x100000000
               else push_bit 16 lo OR hi)) = push_bit 16 lo OR hi"
      using words_split(2,3) [OF HH] by auto
    then show ?thesis using SINT32 False words_split(6) [OF HH]
      by (simp add: encode_value_def none_or_def v Let_def)
  qed
next
  case FLOAT32
  then obtain x where x: "f32_decode endian bs = Inr x" "v = VFloat x" "is_finite x"
    using assms by (auto simp: decode_register_def scalar_words_def bind_res_Inr_iff)
  then show ?thesis using FLOAT32 f32_roundtrip [OF x(1,3)]
    by (simp add: encode_value_def none_or_def)
qed (use assms in \<open>auto simp: wire_scalar_def\<close>)

text \<open>What the proxy decodes from a write, the client encodes back to the same bytes.\<close>

lemma encode_register_decode_for_write:
  assumes "rg_dtype r \<in> {UINT16, SINT16, UINT32, FLOAT32}"
    "length bs = 2 * scalar_words (rg_dtype r)"
    "decode_for_write endian r bs = Inr v" "num_is_finite v"
  shows "encode_register endian v r = Inr bs"
proof -
  have "encode_inner endian v r = Inr bs"
  proof (cases "rg_dtype r")
    case UINT16
    then show ?thesis using assms
      by (auto simp: decode_for_write_def encode_inner_def scalar_words_def bind_res_Inr_iff
          unpack_uint_def pack_uint_unpack)
  next
    case SINT16
    then show ?thesis using assms
      by (auto simp: decode_for_write_def encode_inner_def scalar_words_def bind_res_Inr_iff
          intro!: pack_sint_unpack)
  next
    case UINT32
    then show ?thesis using assms
      by (auto simp: decode_for_write_def encode_inner_def scalar_words_def bind_res_Inr_iff
          u32_roundtrip)
  next
    case FLOAT32
    then obtain x where x: "f32_decode endian bs = Inr x" "v = VFloat x" "is_finite x"
      using assms by (auto simp: decode_for_write_def scalar_words_def bind_res_Inr_iff)
    then show ?thesis using FLOAT32 f32_roundtrip [OF x(1,3)]
      by (simp add: encode_inner_def)
  qed (use assms in auto)
  then show ?thesis by (simp add: encode_register_def)
qed

end
