(* ===== verification/PowerLimits.thy ===== *)
theory PowerLimits
  imports PyText
begin

text \<open>
  The inverter-size-aware power limits (\<^verbatim>\<open>power_limits.py\<close>): reading the limit from
  the device metadata, and the clamps every control path applies before it writes a power
  to the inverter. The arithmetic is that of doubles.
\<close>

definition MIN_CONTROL_LIMIT_W :: pyfloat where "MIN_CONTROL_LIMIT_W = FFin 100"
definition DEFAULT_CONTROL_LIMIT_W :: pyfloat where "DEFAULT_CONTROL_LIMIT_W = FFin 5000"
definition HARD_MAX_CONTROL_LIMIT_W :: pyfloat where "HARD_MAX_CONTROL_LIMIT_W = FFin 20000"
definition DEFAULT_FEED_IN_RATIO :: pyfloat where "DEFAULT_FEED_IN_RATIO = mk_float False (60 / 100)"

lemmas limit_consts = MIN_CONTROL_LIMIT_W_def DEFAULT_CONTROL_LIMIT_W_def
  HARD_MAX_CONTROL_LIMIT_W_def

text \<open>Only the value and the type error of \<open>float(value)\<close> are caught.\<close>

definition to_finite_positive :: "pyval \<Rightarrow> pyexc + pyfloat option" where
  "to_finite_positive value = (case float_of_val value of
     Inl e \<Rightarrow> if e \<in> {TypeError, ValueError} then Inr None else Inl e
   | Inr result \<Rightarrow>
       if is_nan result \<or> is_inf result \<or> fle result (FFin 0) then Inr None
       else Inr (Some result))"

definition normalize_power_limit :: "pyfloat \<Rightarrow> pyfloat" where
  "normalize_power_limit limit_w =
     py_max MIN_CONTROL_LIMIT_W (py_min HARD_MAX_CONTROL_LIMIT_W limit_w)"

text \<open>
  The device metadata of a coordinator: \<open>None\<close> where the attribute is missing, \<open>None\<close> or
  not a dictionary.
\<close>

type_synonym device_info = "(string \<times> pyval) list option"

definition raw_power_limit :: "device_info \<Rightarrow> pyval" where
  "raw_power_limit info = (case info of
     None \<Rightarrow> VNone
   | Some d \<Rightarrow> (case map_of d ''inverter_max_power'' of None \<Rightarrow> VNone | Some v \<Rightarrow> v))"

definition get_device_power_limit_w :: "device_info \<Rightarrow> pyfloat \<Rightarrow> pyexc + pyfloat" where
  "get_device_power_limit_w info fallback_w =
     bind_res (to_finite_positive (raw_power_limit info))
       (\<lambda>parsed. case parsed of
          None \<Rightarrow> Inr (normalize_power_limit fallback_w)
        | Some p \<Rightarrow> Inr (normalize_power_limit p))"

definition is_device_power_limit_known :: "device_info \<Rightarrow> pyexc + bool" where
  "is_device_power_limit_known info =
     bind_res (to_finite_positive (raw_power_limit info)) (\<lambda>p. Inr (p \<noteq> None))"

definition clamp_control_power_w :: "pyfloat \<Rightarrow> pyfloat \<Rightarrow> pyfloat" where
  "clamp_control_power_w value_w device_limit_w =
     py_max MIN_CONTROL_LIMIT_W (py_min (normalize_power_limit device_limit_w) value_w)"

definition default_feed_in_limit_w :: "pyfloat \<Rightarrow> pyexc + pyfloat" where
  "default_feed_in_limit_w device_limit_w =
     (let base_limit = fmul (normalize_power_limit device_limit_w) DEFAULT_FEED_IN_RATIO
      in bind_res (fdiv base_limit (FFin 50)) (\<lambda>q.
         bind_res (round_float q) (\<lambda>n.
         bind_res (float_of_int n) (\<lambda>x.
         Inr (py_max MIN_CONTROL_LIMIT_W (fmul x (FFin 50)))))))"

section \<open>Ranges\<close>

lemma limit_consts_ordered:
  "fle MIN_CONTROL_LIMIT_W HARD_MAX_CONTROL_LIMIT_W" "MIN_CONTROL_LIMIT_W \<noteq> FNaN"
  "HARD_MAX_CONTROL_LIMIT_W \<noteq> FNaN"
  by (simp_all add: limit_consts)

text \<open>Clamping to a range: a NaN is replaced by the upper bound, so no argument escapes.\<close>

lemma py_clamp_bounds:
  assumes "fle lo hi"
  shows "fle lo (py_max lo (py_min hi x))" "fle (py_max lo (py_min hi x)) hi"
proof -
  have n: "lo \<noteq> FNaN" "hi \<noteq> FNaN" using assms fle_not_nan by blast+
  show "fle lo (py_max lo (py_min hi x))" by (rule py_max_ge1 [OF n(1)])
  show "fle (py_max lo (py_min hi x)) hi" by (intro py_max_le assms py_min_le1 n(2))
qed

lemma py_clamp_id:
  assumes "fle lo x" "fle x hi"
  shows "feq (py_max lo (py_min hi x)) x"
  using assms fle_not_nan [OF assms(1)] fle_not_nan [OF assms(2)]
  by (auto simp: py_max_def py_min_def fle_def feq_refl)
     (cases x; cases hi; cases lo; auto)+

lemma normalize_range:
  "fle MIN_CONTROL_LIMIT_W (normalize_power_limit x)"
  "fle (normalize_power_limit x) HARD_MAX_CONTROL_LIMIT_W"
  unfolding normalize_power_limit_def
  by (rule py_clamp_bounds [OF limit_consts_ordered(1)])+

text \<open>Between the bounds the limit is a positive number.\<close>

lemma range_FFin:
  assumes "fle (FFin a) x" "fle x (FFin b)" "0 < a"
  obtains r where "x = FFin r" "a \<le> r" "r \<le> b"
  using assms by (cases x) (auto simp: fle_def)

lemma clamp_range_raw:
  "fle MIN_CONTROL_LIMIT_W (clamp_control_power_w v d) \<and>
   fle (clamp_control_power_w v d) (normalize_power_limit d)"
  unfolding clamp_control_power_w_def
  using py_clamp_bounds [OF normalize_range(1) [of d]] by blast

text \<open>The clamps are instances of the prelude's clamp, on the numbers the code computes with.\<close>

lemma clamp_FFin:
  assumes "0 < a"
  shows "py_max (FFin a) (py_min (FFin b) (FFin x)) = FFin (max a (min b x))"
  by (auto simp: py_max_def py_min_def max_def min_def)

interpretation normalize: clamp_op fle MIN_CONTROL_LIMIT_W HARD_MAX_CONTROL_LIMIT_W
    normalize_power_limit "\<lambda>x. x \<noteq> FNegZero"
proof
  fix x :: pyfloat
  assume x: "x \<noteq> FNegZero"
  show "fle MIN_CONTROL_LIMIT_W (normalize_power_limit x)"
    "fle (normalize_power_limit x) HARD_MAX_CONTROL_LIMIT_W"
    by (fact normalize_range)+
  show "normalize_power_limit x \<noteq> FNegZero"
    using x by (auto simp: normalize_power_limit_def py_max_def py_min_def limit_consts)
  assume "fle MIN_CONTROL_LIMIT_W x" "fle x HARD_MAX_CONTROL_LIMIT_W"
  then show "normalize_power_limit x = x"
    by (cases x) (auto simp: normalize_power_limit_def limit_consts py_max_def py_min_def fle_def)
qed

lemma normalize_idem: "x \<noteq> FNegZero \<Longrightarrow> normalize_power_limit (normalize_power_limit x) = normalize_power_limit x"
  by (rule normalize.clamp_idem)

section \<open>The limits the control paths use\<close>

text \<open>A clamped control power is at least 100 W, at most the normalised device limit and so at most
  20 kW, also when the request is an infinity or a NaN; a request inside the range is kept.\<close>

lemma clamp_control_power_range:
  "fle MIN_CONTROL_LIMIT_W (clamp_control_power_w v d)
   \<and> fle (clamp_control_power_w v d) (normalize_power_limit d)
   \<and> fle (normalize_power_limit d) HARD_MAX_CONTROL_LIMIT_W
   \<and> (fle MIN_CONTROL_LIMIT_W v \<and> fle v (normalize_power_limit d)
      \<longrightarrow> feq (clamp_control_power_w v d) v)"
  using clamp_range_raw [of v d] normalize_range(2) [of d]
    py_clamp_id [of MIN_CONTROL_LIMIT_W v "normalize_power_limit d"]
  by (simp add: clamp_control_power_w_def)

lemma clamp_control_power_range_witness:
  "feq (clamp_control_power_w (FFin 3000) (FFin 8300)) (FFin 3000)"
  using clamp_control_power_range [of "FFin 3000" "FFin 8300"]
  by (simp add: normalize_power_limit_def limit_consts py_max_def py_min_def fle_def)

text \<open>Rounding to a double keeps integer bounds.\<close>

lemma mk_float_int_bounds:
  assumes "of_int m \<le> x" "x \<le> of_int n" "0 < m" "n < 2 ^ 53"
  obtains r where "mk_float neg x = FFin r" "of_int m \<le> r" "r \<le> of_int n"
proof -
  let ?r = "round_to 53 (- 1022) x"
  have "(of_int m :: rat) \<le> of_int n" using assms(1,2) by linarith
  then have mn: "m \<le> n" by simp
  have i: "round_to 53 (- 1022) (of_int k) = of_int k" if "0 < k" "k < 2 ^ 53" for k
    by (rule round_to_of_int) (use that in auto)
  have lo: "of_int m \<le> ?r"
    using round_to_mono [OF assms(1), of 53 "- 1022"] i [of m] assms mn by simp
  have hi: "?r \<le> of_int n"
    using round_to_mono [OF assms(2), of 53 "- 1022"] i [of n] assms mn by simp
  have "(of_int n :: rat) < of_int (2 ^ 53)" using assms(4) by (simp only: of_int_less_iff)
  also have "\<dots> = pow2 53" by (simp add: pow2_def)
  also have "\<dots> \<le> pow2 1024" by (rule pow2_mono) simp
  finally have "?r < pow2 1024" using hi by linarith
  moreover have "0 < ?r" using lo assms(3) by (metis of_int_0_less_iff order_less_le_trans)
  moreover have "- pow2 1024 < ?r" using \<open>0 < ?r\<close> pow2_pos [of 1024] by linarith
  ultimately have "mk_float neg x = FFin ?r" by (simp add: mk_float_def)
  with lo hi show ?thesis using that by blast
qed

lemma feed_in_ratio: "DEFAULT_FEED_IN_RATIO = FFin (5404319552844595 / 2 ^ 53)"
proof -
  have "ilog2 (3 / 5) = -1" by (rule ilog2_unique) (simp_all add: pow2_def)
  then have u: "ulp 53 (- 1022) (3 / 5) = 1 / 2 ^ 53" by (simp add: ulp_def expo_def pow2_def)
  have f: "\<lfloor>3 / 5 * 2 ^ 53 :: rat\<rfloor> = 5404319552844595" by (rule floor_unique) simp_all
  have "rhe (3 / 5 * 2 ^ 53) = 5404319552844595" unfolding rhe_def Let_def f by simp
  then have "round_to 53 (- 1022) (3 / 5) = 5404319552844595 / 2 ^ 53"
    unfolding round_to_def u by simp
  then show ?thesis using pow2_pos [of 1024] pow2_mono [of 0 1024]
    by (simp add: DEFAULT_FEED_IN_RATIO_def mk_float_def pow2_def [of 0])
qed

text \<open>The default feed-in limit is computed without an error for every device limit and is a
  multiple of 50 W between 100 W and 12 kW.\<close>

lemma default_feed_in_limit_steps:
  "\<exists>k. default_feed_in_limit_w d = Inr (FFin (of_int (50 * k))) \<and> 2 \<le> k \<and> k \<le> 240"
proof -
  obtain r where r: "normalize_power_limit d = FFin r" "100 \<le> r" "r \<le> 20000"
    using normalize_range [of d] unfolding limit_consts by (elim range_FFin) simp_all
  let ?c = "5404319552844595 / 2 ^ 53 :: rat"
  have p: "of_int 1 \<le> r * ?c" "r * ?c \<le> of_int 12000" using r(2,3) by simp_all
  obtain b where b: "fmul (FFin r) DEFAULT_FEED_IN_RATIO = FFin b" "1 \<le> b" "b \<le> 12000"
    using mk_float_int_bounds [OF p, of False] r(2)
    by (auto simp: fmul_def feed_in_ratio is_nan_def is_inf_def)
  have "\<exists>q. fdiv (FFin b) (FFin 50) = Inr (FFin q) \<and> 0 \<le> q \<and> q \<le> 240"
  proof -
    have "round_to 53 (- 1022) (b / 50) \<le> round_to 53 (- 1022) (of_int 240)"
      by (rule round_to_mono) (use b(3) in simp_all)
    then have hi: "round_to 53 (- 1022) (b / 50) \<le> 240" by (simp add: round_to_of_int del: of_int_numeral)
    have lo: "0 \<le> round_to 53 (- 1022) (b / 50)" by (rule round_to_nonneg) (use b(2) in simp)
    have big: "(240 :: rat) < pow2 1024"
      using pow2_mono [of 8 1024] by (simp add: pow2_def [of 8])
    have "mk_float False (b / 50) = FFin (round_to 53 (- 1022) (b / 50))"
      using lo hi big by (auto simp: mk_float_def Let_def)
    then show ?thesis using lo hi b(2) by (auto simp: fdiv_def is_nan_def is_inf_def)
  qed
  then obtain q where q: "fdiv (FFin b) (FFin 50) = Inr (FFin q)" "0 \<le> q" "q \<le> 240" by blast
  define k where "k = rhe q"
  have k: "0 \<le> k" "k \<le> 240"
    using rhe_nonneg [OF q(2)] rhe_le_of_int [of q 240] q(3) by (simp_all add: k_def)
  have f: "mk_float False (of_int n) = FFin (of_int n)" if "0 \<le> n" "n \<le> 12000" for n
    by (rule mk_float_of_int) (use that in simp)
  have m: "fmul (FFin (of_int k)) (FFin 50) = FFin (of_int (50 * k))"
    using f [of "50 * k"] k by (simp add: fmul_def is_nan_def is_inf_def mult.commute)
  have "default_feed_in_limit_w d = Inr (py_max (FFin 100) (FFin (of_int (50 * k))))"
    using f [of k] k m
    by (simp add: default_feed_in_limit_w_def r(1) b(1) q(1) float_of_int_def is_inf_def
        limit_consts k_def [symmetric])
  moreover have "py_max (FFin 100) (FFin (of_int (50 * k))) = FFin (of_int (50 * max 2 k))"
    by (auto simp: py_max_def max_def)
  ultimately show ?thesis using k by (intro exI [of _ "max 2 k"]) auto
qed

end
