(* ===== verification/Owner1038.thy ===== *)
theory Owner1038
  imports Prelude
begin

text \<open>
  Mutual exclusion for register 1038, the battery charge limit
  (\<^verbatim>\<open>battery_reg_1038_owner.py\<close>). The state is the owner manager of one config entry:
  \<open>None\<close> until the first use creates it, then \<open>Some owner\<close> with the feature that holds the
  register, or \<open>Some None\<close> when nobody does.
\<close>

definition OWNER_GRID_FEEDIN :: string where "OWNER_GRID_FEEDIN = ''grid_feedin_optimizer''"
definition OWNER_SOC_CONTROLLER :: string where "OWNER_SOC_CONTROLLER = ''soc_controller''"
definition OWNER_CHARGE_BLOCK :: string where "OWNER_CHARGE_BLOCK = ''charge_block''"
definition OWNER_BATTERY_TEST :: string where "OWNER_BATTERY_TEST = ''battery_test''"

lemmas owner_names = OWNER_GRID_FEEDIN_def OWNER_SOC_CONTROLLER_def OWNER_CHARGE_BLOCK_def
  OWNER_BATTERY_TEST_def

definition OWNER_LABELS :: "(string \<times> string) list" where
  "OWNER_LABELS =
     [(OWNER_GRID_FEEDIN, ''Grid Feed-In Optimizer''),
      (OWNER_SOC_CONTROLLER, ''SoC Controller''),
      (OWNER_CHARGE_BLOCK, ''Block Battery Charging''),
      (OWNER_BATTERY_TEST, ''Battery Charge/Discharge Test'')]"

type_synonym owner_mgr = "string option"

definition owner_label :: "string option \<Rightarrow> string" where
  "owner_label owner = (case owner of
     None \<Rightarrow> ''none''
   | Some o' \<Rightarrow> (case map_of OWNER_LABELS o' of None \<Rightarrow> o' | Some l \<Rightarrow> l))"

definition try_acquire :: "string \<Rightarrow> owner_mgr \<Rightarrow> bool \<times> owner_mgr" where
  "try_acquire owner m =
     (if m = None \<or> m = Some owner then (True, Some owner) else (False, m))"

definition release_owner :: "string \<Rightarrow> owner_mgr \<Rightarrow> owner_mgr" where
  "release_owner owner m = (if m = Some owner then None else m)"

datatype owner_error = RuntimeErr | HomeAssistantErr string

definition require_owner :: "string \<Rightarrow> owner_mgr \<Rightarrow> owner_error + unit" where
  "require_owner owner m = (if m \<noteq> Some owner then Inl RuntimeErr else Inr ())"

section \<open>The manager in the entry's store\<close>

type_synonym owner_slot = "owner_mgr option"

definition get_owner_manager :: "owner_slot \<Rightarrow> owner_mgr" where
  "get_owner_manager slot = (case slot of None \<Rightarrow> None | Some m \<Rightarrow> m)"

definition acquire_or_raise :: "string \<Rightarrow> owner_slot \<Rightarrow> (owner_error + unit) \<times> owner_slot" where
  "acquire_or_raise owner slot =
     (let mgr = get_owner_manager slot; (ok, mgr') = try_acquire owner mgr
      in if ok then (Inr (), Some mgr')
         else (Inl (HomeAssistantErr
                ((''Battery charge limit register (1038) is already controlled by '')
                 @ owner_label mgr' @ ''. Turn that feature off before enabling ''
                 @ owner_label (Some owner) @ ''.'')), Some mgr'))"

definition release_reg_1038 :: "string \<Rightarrow> owner_slot \<Rightarrow> owner_slot" where
  "release_reg_1038 owner slot = map_option (release_owner owner) slot"

definition owner_for_entry :: "owner_slot \<Rightarrow> string option" where
  "owner_for_entry slot = (case slot of
     None \<Rightarrow> None
   | Some m \<Rightarrow> (case m of None \<Rightarrow> None | Some o' \<Rightarrow> if o' = [] then None else Some (owner_label m)))"

lemma acquire_ok_iff:
  "fst (acquire_or_raise owner slot) = Inr () \<longleftrightarrow> get_owner_manager slot \<in> {None, Some owner}"
  by (auto simp: acquire_or_raise_def try_acquire_def Let_def)

lemma acquire_owner:
  "get_owner_manager (snd (acquire_or_raise owner slot)) =
     (if get_owner_manager slot \<in> {None, Some owner} then Some owner else get_owner_manager slot)"
  by (auto simp: acquire_or_raise_def try_acquire_def get_owner_manager_def Let_def
      split: option.splits)

lemma release_owner_slot:
  "get_owner_manager (release_reg_1038 owner slot) =
     (if get_owner_manager slot = Some owner then None else get_owner_manager slot)"
  by (auto simp: release_reg_1038_def release_owner_def get_owner_manager_def split: option.splits)

section \<open>Features that acquire and release\<close>

text \<open>
  A run of acquires and releases by any features. \<open>holders\<close> is what the features believe:
  those whose last acquire returned and that have not released since.
\<close>

datatype owner_op = Acquire string | Release string

record owner_run =
  or_slot :: owner_slot
  or_holders :: "string set"

definition owner_init :: owner_run where
  "owner_init = \<lparr>or_slot = None, or_holders = {}\<rparr>"

fun owner_step :: "owner_run \<Rightarrow> owner_op \<Rightarrow> owner_run" where
  "owner_step s (Acquire f) = (let (r, slot) = acquire_or_raise f (or_slot s)
     in \<lparr>or_slot = slot, or_holders = (if is_ok r then insert f (or_holders s) else or_holders s)\<rparr>)"
| "owner_step s (Release f) =
     \<lparr>or_slot = release_reg_1038 f (or_slot s), or_holders = or_holders s - {f}\<rparr>"

definition owner_inv :: "owner_run \<Rightarrow> bool" where
  "owner_inv s \<longleftrightarrow> or_holders s = set_option (get_owner_manager (or_slot s))"

lemma owner_step_inv: "owner_inv s \<Longrightarrow> owner_inv (owner_step s e)"
proof (cases e)
  case (Acquire f)
  assume i: "owner_inv s"
  obtain r slot where a: "acquire_or_raise f (or_slot s) = (r, slot)" by fastforce
  have r: "is_ok r \<longleftrightarrow> get_owner_manager (or_slot s) \<in> {None, Some f}"
    using acquire_ok_iff [of f "or_slot s"] a by (cases r) auto
  have "get_owner_manager slot = (if get_owner_manager (or_slot s) \<in> {None, Some f} then Some f
      else get_owner_manager (or_slot s))"
    using acquire_owner [of f "or_slot s"] a by simp
  then show ?thesis using i r by (auto simp: Acquire a owner_inv_def)
next
  case (Release f)
  assume "owner_inv s"
  then show ?thesis by (auto simp: Release owner_inv_def release_owner_slot)
qed

interpretation owner: invariant_machine owner_step owner_inv
  by unfold_locales (rule owner_step_inv)

lemma owner_run_inv: "owner_inv (foldl owner_step owner_init ops)"
  by (rule owner.run_inv) (simp add: owner_inv_def owner_init_def get_owner_manager_def)

text \<open>C12: After any sequence of acquires and releases, from any number of features and in any order,
  at most one feature believes that it controls register 1038, and it is the feature the
  manager records: no release by another feature takes the register away, and a refused
  acquire changes nothing.\<close>

theorem reg_1038_exclusive:
  "card (or_holders (foldl owner_step owner_init ops)) \<le> 1
   \<and> or_holders (foldl owner_step owner_init ops)
       = set_option (get_owner_manager (or_slot (foldl owner_step owner_init ops)))"
  using owner_run_inv [of ops]
  by (cases "get_owner_manager (or_slot (foldl owner_step owner_init ops))")
     (auto simp: owner_inv_def)

lemma owner_labels_distinct: "distinct (map snd OWNER_LABELS)"
  by (simp add: OWNER_LABELS_def)

end
