(* ===== verification/WriteAudit.thy ===== *)
theory WriteAudit
  imports PyText
begin

text \<open>
  The write audit (\<^verbatim>\<open>write_audit.py\<close>): a bounded buffer of write and rejection events
  and the counters the observability sensors read from it.
\<close>

record write_event =
  we_ts :: rat
  we_source :: string
  we_key :: string
  we_value :: pyval
  we_result :: string
  we_detail :: string

definition ERROR_RESULTS :: "string list" where
  "ERROR_RESULTS = [''error'', ''rejected_rate'', ''rejected_soc_active'',
     ''rejected_installer'', ''rejected_validation'']"

record write_audit =
  wa_maxlen :: nat
  wa_buf :: "write_event list"

definition audit_new :: "nat \<Rightarrow> write_audit" where
  "audit_new maxlen = \<lparr>wa_maxlen = maxlen, wa_buf = []\<rparr>"

definition audit_log :: "write_event \<Rightarrow> write_audit \<Rightarrow> write_audit" where
  "audit_log e a = a\<lparr>wa_buf := take_last (wa_maxlen a) (wa_buf a @ [e])\<rparr>"

definition audit_total_count :: "write_audit \<Rightarrow> nat" where
  "audit_total_count a = length (wa_buf a)"

definition writes_in_last_n_seconds :: "rat \<Rightarrow> rat \<Rightarrow> write_audit \<Rightarrow> nat" where
  "writes_in_last_n_seconds now seconds a =
     (let cutoff = now - seconds in length (filter (\<lambda>e. cutoff \<le> we_ts e) (wa_buf a)))"

definition write_rate_per_min :: "rat \<Rightarrow> write_audit \<Rightarrow> nat" where
  "write_rate_per_min now a = writes_in_last_n_seconds now 60 a"

definition error_count_5min :: "rat \<Rightarrow> write_audit \<Rightarrow> nat" where
  "error_count_5min now a =
     (let cutoff = now - 300
      in length (filter (\<lambda>e. cutoff \<le> we_ts e \<and> we_result e \<in> set ERROR_RESULTS) (wa_buf a)))"

lemma audit_log_maxlen [simp]: "wa_maxlen (audit_log e a) = wa_maxlen a"
  by (simp add: audit_log_def)

text \<open>With the default capacity the log is a bounded buffer.\<close>

definition audit_push :: "write_event \<Rightarrow> write_event list \<Rightarrow> write_event list" where
  "audit_push e b = wa_buf (audit_log e \<lparr>wa_maxlen = 200, wa_buf = b\<rparr>)"

interpretation audit: bounded_buffer 200 "\<lambda>b. b" audit_push
  by unfold_locales (simp add: audit_push_def audit_log_def)

lemma fold_audit_log:
  "wa_maxlen a = 200 \<Longrightarrow> wa_buf (fold audit_log es a) = fold audit_push es (wa_buf a)"
  by (induction es arbitrary: a) (simp_all add: audit_push_def audit_log_def)

text \<open>After any sequence of logged events the audit holds the newest 200 of them, in order, so a
  rejection can only leave it when 200 newer events were logged.\<close>

lemma audit_keeps_newest:
  "wa_buf (fold audit_log es (audit_new 200)) = take_last 200 es"
  using audit.items_fold_push [of "[]" es]
  by (simp add: fold_audit_log audit_new_def)

text \<open>The error counter of a window never exceeds the events of that window, and a rejection because
  another feature owns register 1038 is not counted as one: its result string is not among
  the error results.\<close>

lemma error_count_misses_owner_rejections:
  "error_count_5min now a \<le> writes_in_last_n_seconds now 300 a
   \<and> error_count_5min now (audit_new 200) = 0
   \<and> error_count_5min now (audit_log \<lparr>we_ts = now, we_source = src, we_key = key, we_value = v,
        we_result = ''rejected_reg_1038_owner'', we_detail = d\<rparr> (audit_new 200)) = 0
   \<and> error_count_5min now (audit_log \<lparr>we_ts = now, we_source = src, we_key = key, we_value = v,
        we_result = ''rejected_soc_active'', we_detail = d\<rparr> (audit_new 200)) = 1"
proof -
  have "length (filter (\<lambda>e. P e \<and> Q e) xs) \<le> length (filter P xs)" for P Q and xs :: "'x list"
    by (induction xs) auto
  then show ?thesis
    by (simp add: error_count_5min_def writes_in_last_n_seconds_def Let_def audit_log_def
        audit_new_def ERROR_RESULTS_def take_last_def)
qed

end
