(* ===== verification/Scheduler.thy ===== *)
theory Scheduler
  imports Prelude
begin

text \<open>
  The request scheduler (\<^verbatim>\<open>request_scheduler.py\<close>): one FIFO lock around every request to
  the inverter, a minimum pause between two requests, and its counters. The code between
  two awaits is one definition; the tasks interleave at the awaits, which the step relation
  \<open>sched_reach\<close> lets happen in any order, with a clock that never runs backwards. Clock
  readings are exact rationals.
\<close>

definition MIN_REQUEST_PAUSE :: rat where "MIN_REQUEST_PAUSE = 2 / 100"
definition REQUEST_TIMEOUT :: rat where "REQUEST_TIMEOUT = 120"

text \<open>Where the task that holds the lock stands: asleep until a time, or in the request's body.\<close>

datatype 't sched_phase = Free | Pausing 't rat | Body 't

record 't sched =
  sc_locked :: bool
  sc_waiters :: "('t \<times> rat) list"
  sc_phase :: "'t sched_phase"
  sc_last_request_time :: rat
  sc_request_count :: nat
  sc_wait_count :: nat
  sc_timeout_count :: nat

definition sched_init :: "'t sched" where
  "sched_init = \<lparr>sc_locked = False, sc_waiters = [], sc_phase = Free, sc_last_request_time = 0,
     sc_request_count = 0, sc_wait_count = 0, sc_timeout_count = 0\<rparr>"

text \<open>The request's body begins.\<close>

definition sched_body :: "'t \<Rightarrow> 't sched \<Rightarrow> 't sched" where
  "sched_body t s = s\<lparr>sc_request_count := sc_request_count s + 1, sc_phase := Body t\<rparr>"

text \<open>From the acquired lock to the pause or to the body; \<open>t0\<close> is when the task asked.\<close>

definition sched_acquired :: "'t \<Rightarrow> rat \<Rightarrow> rat \<Rightarrow> 't sched \<Rightarrow> 't sched" where
  "sched_acquired t t0 now s =
     (let s1 = (if 1 / 100 < now - t0 then s\<lparr>sc_wait_count := sc_wait_count s + 1\<rparr> else s);
          elapsed = now - sc_last_request_time s1
      in if elapsed < MIN_REQUEST_PAUSE
         then s1\<lparr>sc_phase := Pausing t (now + (MIN_REQUEST_PAUSE - elapsed))\<rparr>
         else sched_body t s1)"

text \<open>The lock is taken at once when it is free and nobody waits; else the task queues.\<close>

definition sched_enter :: "'t \<Rightarrow> rat \<Rightarrow> 't sched \<Rightarrow> 't sched" where
  "sched_enter t now s =
     (if \<not> sc_locked s \<and> sc_waiters s = [] then sched_acquired t now now (s\<lparr>sc_locked := True\<rparr>)
      else s\<lparr>sc_waiters := sc_waiters s @ [(t, now)]\<rparr>)"

text \<open>The first waiter is served when the lock is free.\<close>

definition sched_grant :: "rat \<Rightarrow> 't sched \<Rightarrow> 't sched option" where
  "sched_grant now s = (case sc_waiters s of
     [] \<Rightarrow> None
   | (t, t0) # ws \<Rightarrow>
       if sc_locked s then None
       else Some (sched_acquired t t0 now (s\<lparr>sc_locked := True, sc_waiters := ws\<rparr>)))"

definition sched_timeout :: "('t \<times> rat) \<Rightarrow> 't sched \<Rightarrow> 't sched" where
  "sched_timeout w s = s\<lparr>sc_waiters := remove1 w (sc_waiters s),
     sc_timeout_count := sc_timeout_count s + 1\<rparr>"

text \<open>A task that is cancelled while it waits leaves the queue and is not counted.\<close>

definition sched_abandon :: "('t \<times> rat) \<Rightarrow> 't sched \<Rightarrow> 't sched" where
  "sched_abandon w s = s\<lparr>sc_waiters := remove1 w (sc_waiters s)\<rparr>"

text \<open>The \<open>finally\<close> clause, after the body or when the pause is cancelled.\<close>

definition sched_exit :: "rat \<Rightarrow> 't sched \<Rightarrow> 't sched" where
  "sched_exit now s = s\<lparr>sc_last_request_time := now, sc_locked := False, sc_phase := Free\<rparr>"

text \<open>\<open>get_stats\<close>.\<close>

definition sched_stats :: "'t sched \<Rightarrow> nat \<times> nat \<times> nat \<times> bool" where
  "sched_stats s = (sc_request_count s, sc_wait_count s, sc_timeout_count s, sc_locked s)"

section \<open>Runs\<close>

datatype 't mark = Started 't rat | Ended 't rat

definition started_marks :: "'t sched \<Rightarrow> rat \<Rightarrow> 't mark list" where
  "started_marks s now = (case sc_phase s of Body t \<Rightarrow> [Started t now] | _ \<Rightarrow> [])"

text \<open>The reachable states, with the clock and the requests so far, the newest first.\<close>

inductive sched_reach :: "'t sched \<Rightarrow> rat \<Rightarrow> 't mark list \<Rightarrow> bool" where
  start: "0 \<le> c \<Longrightarrow> sched_reach sched_init c []"
| tick: "sched_reach s c tr \<Longrightarrow> c \<le> c' \<Longrightarrow> sched_reach s c' tr"
| enter: "sched_reach s c tr \<Longrightarrow> \<not> sc_locked s \<and> sc_waiters s = [] \<Longrightarrow>
    sched_reach (sched_enter t c s) c (started_marks (sched_enter t c s) c @ tr)"
| queue: "sched_reach s c tr \<Longrightarrow> sc_locked s \<or> sc_waiters s \<noteq> [] \<Longrightarrow>
    sched_reach (sched_enter t c s) c tr"
| grant: "sched_reach s c tr \<Longrightarrow> sched_grant c s = Some s' \<Longrightarrow>
    sched_reach s' c (started_marks s' c @ tr)"
| timeout: "sched_reach s c tr \<Longrightarrow> (t, t0) \<in> set (sc_waiters s) \<Longrightarrow> REQUEST_TIMEOUT \<le> c - t0 \<Longrightarrow>
    sched_reach (sched_timeout (t, t0) s) c tr"
| abandon: "sched_reach s c tr \<Longrightarrow> w \<in> set (sc_waiters s) \<Longrightarrow> sched_reach (sched_abandon w s) c tr"
| wake: "sched_reach s c tr \<Longrightarrow> sc_phase s = Pausing t d \<Longrightarrow> d \<le> c \<Longrightarrow>
    sched_reach (sched_body t s) c (Started t c # tr)"
| leave: "sched_reach s c tr \<Longrightarrow> sc_phase s = Body t \<Longrightarrow>
    sched_reach (sched_exit c s) c (Ended t c # tr)"
| cancel: "sched_reach s c tr \<Longrightarrow> sc_phase s = Pausing t d \<Longrightarrow> sched_reach (sched_exit c s) c tr"

text \<open>
  Requests one after the other: each ends before the next starts, and the next starts at
  least \<open>gap\<close> later.
\<close>

fun serial :: "rat \<Rightarrow> 't mark list \<Rightarrow> bool" where
  "serial gap [] = True"
| "serial gap [Started t a] = True"
| "serial gap (Started t a # Ended u e # tr) = (e + gap \<le> a \<and> serial gap (Ended u e # tr))"
| "serial gap (Ended t e # Started u a # tr) = (t = u \<and> a \<le> e \<and> serial gap (Started u a # tr))"
| "serial gap _ = False"

fun is_started :: "'t mark \<Rightarrow> bool" where
  "is_started (Started _ _) = True"
| "is_started (Ended _ _) = False"

text \<open>The newest mark fits the phase and lies before the last request time or the clock.\<close>

definition head_ok :: "'t sched \<Rightarrow> rat \<Rightarrow> 't mark list \<Rightarrow> bool" where
  "head_ok s c tr = (case tr of
     [] \<Rightarrow> \<not> (\<exists>t. sc_phase s = Body t)
   | Started t a # _ \<Rightarrow> sc_phase s = Body t \<and> a \<le> c
   | Ended t e # _ \<Rightarrow> \<not> (\<exists>t. sc_phase s = Body t) \<and> e \<le> sc_last_request_time s)"

definition sched_inv :: "'t sched \<Rightarrow> rat \<Rightarrow> 't mark list \<Rightarrow> bool" where
  "sched_inv s c tr \<longleftrightarrow>
     serial MIN_REQUEST_PAUSE tr \<and> head_ok s c tr
     \<and> sc_request_count s = length (filter is_started tr)
     \<and> sc_locked s = (sc_phase s \<noteq> Free)
     \<and> sc_last_request_time s \<le> c
     \<and> (\<forall>t d. sc_phase s = Pausing t d \<longrightarrow> sc_last_request_time s + MIN_REQUEST_PAUSE \<le> d)"

lemma started_inv:
  assumes i: "sched_inv s c tr" and n: "\<not> (\<exists>t. sc_phase s = Body t)"
    and g: "sc_last_request_time s + MIN_REQUEST_PAUSE \<le> c \<or> tr = []"
    and s': "sc_phase s' = Body t" "sc_request_count s' = sc_request_count s + 1"
      "sc_locked s'" "sc_last_request_time s' = sc_last_request_time s"
  shows "sched_inv s' c (Started t c # tr)"
proof (cases tr)
  case Nil
  then show ?thesis using assms by (auto simp: sched_inv_def head_ok_def)
next
  case (Cons m ms)
  show ?thesis
  proof (cases m)
    case (Started u a)
    then show ?thesis using i n Cons by (auto simp: sched_inv_def head_ok_def)
  next
    case (Ended u e)
    then have "e \<le> sc_last_request_time s" using i Cons by (auto simp: sched_inv_def head_ok_def)
    then show ?thesis using assms Cons Ended by (auto simp: sched_inv_def head_ok_def)
  qed
qed

lemma head_ok_phase:
  "head_ok s c tr \<Longrightarrow> sc_last_request_time s' = sc_last_request_time s \<Longrightarrow>
   \<not> (\<exists>t. sc_phase s = Body t) \<Longrightarrow> \<not> (\<exists>t. sc_phase s' = Body t) \<Longrightarrow> head_ok s' c tr"
  by (auto simp: head_ok_def split: list.splits mark.splits)

lemma acquired_inv:
  assumes i: "sched_inv s c tr" and f: "sc_phase s = Free"
    and s': "s' = sched_acquired t t0 c (s\<lparr>sc_locked := True, sc_waiters := ws\<rparr>)"
  shows "sched_inv s' c (started_marks s' c @ tr)"
proof (cases "c - sc_last_request_time s < MIN_REQUEST_PAUSE")
  case True
  then have p: "sc_phase s' = Pausing t (c + (MIN_REQUEST_PAUSE - (c - sc_last_request_time s)))"
    by (simp add: s' sched_acquired_def Let_def)
  have q: "sc_last_request_time s' = sc_last_request_time s" "sc_locked s'"
    "sc_request_count s' = sc_request_count s"
    using True by (simp_all add: s' sched_acquired_def Let_def)
  have "head_ok s' c tr" 
    by (rule head_ok_phase [of s]) (use i in \<open>simp add: sched_inv_def\<close>, simp_all add: f p q(1))
  then show ?thesis using i by (simp add: sched_inv_def started_marks_def p q)
next
  case False
  then have p: "sc_phase s' = Body t" "sc_request_count s' = sc_request_count s + 1" "sc_locked s'"
    "sc_last_request_time s' = sc_last_request_time s"
    by (simp_all add: s' sched_acquired_def Let_def sched_body_def)
  have "sched_inv s' c (Started t c # tr)"
    by (rule started_inv [OF i _ _ p]) (use False f in \<open>simp_all\<close>)
  then show ?thesis by (simp add: started_marks_def p)
qed

lemma sched_reach_inv: "sched_reach s c tr \<Longrightarrow> sched_inv s c tr"
proof (induction rule: sched_reach.induct)
  case (start c)
  then show ?case by (simp add: sched_inv_def sched_init_def head_ok_def)
next
  case (tick s c tr c')
  then show ?case by (auto simp: sched_inv_def head_ok_def split: list.splits mark.splits)
next
  case (enter s c tr t)
  have "s\<lparr>sc_locked := True\<rparr> = s\<lparr>sc_locked := True, sc_waiters := sc_waiters s\<rparr>" by simp
  then have e: "sched_enter t c s =
      sched_acquired t c c (s\<lparr>sc_locked := True, sc_waiters := sc_waiters s\<rparr>)"
    using enter unfolding sched_enter_def by metis
  have f: "sc_phase s = Free" using enter by (simp add: sched_inv_def)
  show ?case by (rule acquired_inv [OF enter.IH f e])
next
  case (queue s c tr t)
  then have "sched_enter t c s = s\<lparr>sc_waiters := sc_waiters s @ [(t, c)]\<rparr>"
    by (auto simp: sched_enter_def)
  then show ?case using queue.IH
    by (auto simp: sched_inv_def head_ok_def split: list.splits mark.splits)
next
  case (grant s c tr s')
  then obtain t t0 ws where e: "s' = sched_acquired t t0 c (s\<lparr>sc_locked := True, sc_waiters := ws\<rparr>)"
    and l: "\<not> sc_locked s"
    by (auto simp: sched_grant_def split: list.splits if_splits)
  have f: "sc_phase s = Free" using grant l by (simp add: sched_inv_def)
  show ?case by (rule acquired_inv [OF grant.IH f e])
next
  case (timeout s c tr t t0)
  then show ?case
    by (auto simp: sched_inv_def head_ok_def sched_timeout_def split: list.splits mark.splits)
next
  case (abandon s c tr w)
  then show ?case
    by (auto simp: sched_inv_def head_ok_def sched_abandon_def split: list.splits mark.splits)
next
  case (wake s c tr t d)
  have "sc_last_request_time s + MIN_REQUEST_PAUSE \<le> d" using wake by (auto simp: sched_inv_def)
  then have g: "sc_last_request_time s + MIN_REQUEST_PAUSE \<le> c" using wake by linarith
  show ?case
    by (rule started_inv [OF wake.IH]) (use wake g in \<open>auto simp: sched_body_def sched_inv_def\<close>)
next
  case (leave s c tr t)
  then obtain a ms where "tr = Started t a # ms" "a \<le> c"
    by (auto simp: sched_inv_def head_ok_def split: list.splits mark.splits)
  then show ?case using leave by (auto simp: sched_inv_def head_ok_def sched_exit_def)
next
  case (cancel s c tr t d)
  then show ?case
    by (auto simp: sched_inv_def head_ok_def sched_exit_def split: list.splits mark.splits)
qed

text \<open>C36: However the tasks interleave, time out or are cancelled, requests to the inverter never overlap, each starts at least
  20 ms after the previous one ended, the lock is held exactly while a task pauses or runs its
  request, and the request counter is the number of requests started.\<close>

theorem scheduler_serialises:
  "sched_reach s c tr \<Longrightarrow>
     serial MIN_REQUEST_PAUSE tr \<and> sc_locked s = (sc_phase s \<noteq> Free)
     \<and> sc_request_count s = length (filter is_started tr)"
  using sched_reach_inv [of s c tr] by (simp add: sched_inv_def)

lemma sched_example:
  "\<exists>s. sched_reach s (201 / 100) [Started (2::nat) (201 / 100), Ended 3 (199 / 100), Started 3 1]"
proof -
  define s1 :: "nat sched" where "s1 = \<lparr>sc_locked = True, sc_waiters = [], sc_phase = Body 3,
    sc_last_request_time = 0, sc_request_count = 1, sc_wait_count = 0, sc_timeout_count = 0\<rparr>"
  have e1: "sched_enter 3 1 sched_init = s1"
    by (simp add: s1_def sched_enter_def sched_acquired_def sched_init_def sched_body_def
        MIN_REQUEST_PAUSE_def)
  have "sched_reach s1 1 (started_marks s1 1 @ [])"
    unfolding e1 [symmetric]
    by (rule sched_reach.enter [OF sched_reach.start]) (simp_all add: sched_init_def)
  then have "sched_reach s1 1 [Started 3 1]" by (simp add: started_marks_def s1_def)
  then have r1: "sched_reach s1 (199 / 100) [Started 3 1]" by (rule sched_reach.tick) simp
  define s2 where "s2 = s1\<lparr>sc_waiters := [(2, 199 / 100)]\<rparr>"
  have e2: "sched_enter 2 (199 / 100) s1 = s2" by (simp add: s2_def s1_def sched_enter_def)
  have r2: "sched_reach s2 (199 / 100) [Started 3 1]"
    using sched_reach.queue [OF r1, of 2] by (simp add: e2) (simp add: s1_def)
  define s3 where "s3 = sched_exit (199 / 100) s2"
  have r3: "sched_reach s3 (199 / 100) [Ended 3 (199 / 100), Started 3 1]"
    unfolding s3_def by (rule sched_reach.leave [OF r2]) (simp add: s2_def s1_def)
  obtain s4 where g: "sched_grant (199 / 100) s3 = Some s4"
    and p: "sc_phase s4 = Pausing 2 (201 / 100)"
    by (simp add: sched_grant_def s3_def s2_def s1_def sched_exit_def sched_acquired_def
        MIN_REQUEST_PAUSE_def)
  have "sched_reach s4 (199 / 100) [Ended 3 (199 / 100), Started 3 1]"
    using sched_reach.grant [OF r3 g] by (simp add: started_marks_def p)
  then have "sched_reach s4 (201 / 100) [Ended 3 (199 / 100), Started 3 1]"
    by (rule sched_reach.tick) simp
  then have "sched_reach (sched_body 2 s4) (201 / 100)
      [Started 2 (201 / 100), Ended 3 (199 / 100), Started 3 1]"
    by (rule sched_reach.wake [OF _ p]) simp
  then show ?thesis by blast
qed

theorem scheduler_serialises_witness:
  "\<exists>s. sched_reach s (201 / 100) [Started (2::nat) (201 / 100), Ended 3 (199 / 100), Started 3 1]
     \<and> serial MIN_REQUEST_PAUSE [Started (2::nat) (201 / 100), Ended 3 (199 / 100), Started 3 1]
     \<and> sc_request_count s = 2 \<and> sc_phase s = Body 2 \<and> sc_locked s"
proof -
  obtain s where r: "sched_reach s (201 / 100) [Started (2::nat) (201 / 100), Ended 3 (199 / 100), Started 3 1]"
    using sched_example by blast
  have p: "sc_phase s = Body 2"
    using sched_reach_inv [OF r] by (simp add: sched_inv_def head_ok_def)
  have "serial MIN_REQUEST_PAUSE [Started (2::nat) (201 / 100), Ended 3 (199 / 100), Started 3 1]"
    "sc_locked s" "sc_request_count s = 2"
    using scheduler_serialises [OF r] p by simp_all
  then show ?thesis using r p by blast
qed

inductive_cases sched_reach_emptyE: "sched_reach s c []"

end
