(* ===== verification/Communication.thy ===== *)
theory Communication
  imports PyText "HOL-Library.List_Lexorder" "HOL-Library.Char_ord"
begin

text \<open>
  The communication incident history (\<^verbatim>\<open>communication.py\<close>): counters, the current
  faults and a bounded list of announced changes, with the saved form it is restored from.
  \<open>datetime\<close> is a record of its fields; \<open>datetime.fromisoformat\<close> accepts many formats and
  is the argument \<open>fromiso\<close> of the constructor.
\<close>

section \<open>Dates and JSON\<close>

record py_datetime =
  dt_year :: nat
  dt_month :: nat
  dt_day :: nat
  dt_hour :: nat
  dt_minute :: nat
  dt_second :: nat
  dt_us :: nat
  dt_offset :: "int option"

text \<open>Decimal digits padded with zeros to a width.\<close>

definition pad_dec :: "nat \<Rightarrow> nat \<Rightarrow> string" where
  "pad_dec w n = (let s = nat_dec n in replicate (w - length s) CHR ''0'' @ s)"

definition date_iso :: "py_datetime \<Rightarrow> string" where
  "date_iso d = pad_dec 4 (dt_year d) @ ''-'' @ pad_dec 2 (dt_month d) @ ''-'' @ pad_dec 2 (dt_day d)"

definition offset_iso :: "int option \<Rightarrow> string" where
  "offset_iso off = (case off of None \<Rightarrow> []
     | Some s \<Rightarrow> (let a = nat \<bar>s\<bar>
         in (if s < 0 then ''-'' else ''+'') @ pad_dec 2 (a div 3600) @ '':''
            @ pad_dec 2 (a div 60 mod 60)
            @ (if a mod 60 = 0 then [] else '':'' @ pad_dec 2 (a mod 60))))"

definition datetime_iso :: "py_datetime \<Rightarrow> string" where
  "datetime_iso d = date_iso d @ ''T'' @ pad_dec 2 (dt_hour d) @ '':'' @ pad_dec 2 (dt_minute d)
     @ '':'' @ pad_dec 2 (dt_second d)
     @ (if dt_us d = 0 then [] else ''.'' @ pad_dec 6 (dt_us d)) @ offset_iso (dt_offset d)"

datatype json = JNull | JBool bool | JInt int | JFloat pyfloat | JStr string
  | JList "json list" | JObj "(string \<times> json) list"

fun json_get :: "string \<Rightarrow> json \<Rightarrow> json" where
  "json_get k (JObj d) = (case map_of d k of None \<Rightarrow> JNull | Some v \<Rightarrow> v)"
| "json_get k _ = JNull"

section \<open>State\<close>

definition FAULT_CODES :: "string list" where
  "FAULT_CODES = [''battery_soc'', ''min_soc'', ''grid_switch'', ''charge_limit'', ''grid_meter'',
     ''island_contact'', ''modbus'', ''modbus_partial'', ''rest'', ''proxy'',
     ''write_unconfirmed'', ''discharge_switch'']"

definition HISTORY_LIMIT :: nat where "HISTORY_LIMIT = 32"

record comm_item =
  ci_time :: string
  ci_faults :: "string list"
  ci_stop :: "bool option"

record comm_state =
  cm_incidents :: int
  cm_failed_samples :: int
  cm_faults :: "string list"
  cm_stop_confirmed :: "bool option"
  cm_last_success_at :: "string option"
  cm_history :: "comm_item list"
  cm_announced :: bool
  cm_notice_date :: "string option"

definition comm_new :: comm_state where
  "comm_new = \<lparr>cm_incidents = 0, cm_failed_samples = 0, cm_faults = [], cm_stop_confirmed = None,
     cm_last_success_at = None, cm_history = [], cm_announced = False, cm_notice_date = None\<rparr>"

text \<open>\<open>sorted(set(faults))\<close>.\<close>

definition sorted_set :: "string list \<Rightarrow> string list" where
  "sorted_set xs = sort (remdups xs)"

text \<open>One entry of a saved history, \<open>None\<close> where the constructor skips it.\<close>

definition restore_item :: "(string \<Rightarrow> py_datetime option) \<Rightarrow> json \<Rightarrow> comm_item option" where
  "restore_item fromiso item = (case item of
     JObj d \<Rightarrow> (case (json_get ''time'' item, json_get ''faults'' item) of
       (JStr stamp, JList fs) \<Rightarrow>
         if list_all (\<lambda>f. case f of JStr s \<Rightarrow> s \<in> set FAULT_CODES | _ \<Rightarrow> False) fs
            \<and> fromiso stamp \<noteq> None
         then Some \<lparr>ci_time = stamp,
                ci_faults = sorted_set (map (\<lambda>f. case f of JStr s \<Rightarrow> s | _ \<Rightarrow> []) fs),
                ci_stop = (case json_get ''stop_confirmed'' item of JBool b \<Rightarrow> Some b | _ \<Rightarrow> None)\<rparr>
         else None
     | _ \<Rightarrow> None)
   | _ \<Rightarrow> None)"

definition restore_count :: "json \<Rightarrow> int" where
  "restore_count v = (case v of JInt n \<Rightarrow> if 0 \<le> n then n else 0 | _ \<Rightarrow> 0)"

definition comm_restore :: "(string \<Rightarrow> py_datetime option) \<Rightarrow> json \<Rightarrow> comm_state" where
  "comm_restore fromiso saved = (case saved of
     JObj d \<Rightarrow>
       (let hist = (case json_get ''history'' saved of
              JList items \<Rightarrow> List.map_filter (restore_item fromiso) (take_last HISTORY_LIMIT items)
            | _ \<Rightarrow> []);
            stamp = (case json_get ''last_success_at'' saved of
              JStr s \<Rightarrow> (case fromiso s of
                  Some p \<Rightarrow> if dt_offset p \<noteq> None then Some (datetime_iso p) else None
                | None \<Rightarrow> None)
            | _ \<Rightarrow> None);
            s = comm_new\<lparr>cm_incidents := restore_count (json_get ''incidents'' saved),
                  cm_failed_samples := restore_count (json_get ''failed_samples'' saved),
                  cm_last_success_at := stamp, cm_history := hist\<rparr>
        in if hist = [] then s
           else s\<lparr>cm_faults := ci_faults (last hist), cm_stop_confirmed := ci_stop (last hist)\<rparr>)
   | _ \<Rightarrow> comm_new)"

section \<open>Operations\<close>

definition comm_observe ::
    "string list \<Rightarrow> py_datetime \<Rightarrow> bool option \<Rightarrow> comm_state \<Rightarrow> pyexc + (bool \<times> comm_state)" where
  "comm_observe faults now stop_confirmed s =
     (if \<not> list_all (\<lambda>f. f \<in> set FAULT_CODES) faults then Inl ValueError
      else
       let current = sorted_set faults;
           changed = (current \<noteq> cm_faults s \<or> (current \<noteq> [] \<and> stop_confirmed \<noteq> cm_stop_confirmed s));
           s1 = (if current \<noteq> [] \<and> cm_faults s = []
                 then s\<lparr>cm_incidents := cm_incidents s + 1\<rparr> else s);
           s2 = (if current \<noteq> [] then s1\<lparr>cm_failed_samples := cm_failed_samples s1 + 1\<rparr>
                 else s1\<lparr>cm_last_success_at := Some (datetime_iso now)\<rparr>);
           day = date_iso now;
           announce = (changed \<or>
             (current \<noteq> [] \<and> (\<not> cm_announced s2 \<or> Some day \<noteq> cm_notice_date s2)));
           s3 = s2\<lparr>cm_faults := current, cm_stop_confirmed := stop_confirmed\<rparr>
       in Inr (announce,
            if announce
            then s3\<lparr>cm_announced := True, cm_notice_date := Some day,
                   cm_history := take_last HISTORY_LIMIT
                     (cm_history s3 @ [\<lparr>ci_time = datetime_iso now, ci_faults = current,
                                        ci_stop = stop_confirmed\<rparr>])\<rparr>
            else s3))"

definition stop_json :: "bool option \<Rightarrow> json" where
  "stop_json b = (case b of None \<Rightarrow> JNull | Some x \<Rightarrow> JBool x)"

definition item_json :: "comm_item \<Rightarrow> json" where
  "item_json i = JObj [(''time'', JStr (ci_time i)), (''faults'', JList (map JStr (ci_faults i))),
     (''stop_confirmed'', stop_json (ci_stop i))]"

definition comm_snapshot :: "comm_state \<Rightarrow> json" where
  "comm_snapshot s = JObj
     [(''state'', JStr (if cm_faults s \<noteq> [] then ''interrupted'' else ''healthy'')),
      (''faults'', JList (map JStr (cm_faults s))),
      (''incidents'', JInt (cm_incidents s)),
      (''failed_samples'', JInt (cm_failed_samples s)),
      (''stop_confirmed'', stop_json (cm_stop_confirmed s)),
      (''last_success_at'', case cm_last_success_at s of None \<Rightarrow> JNull | Some t \<Rightarrow> JStr t),
      (''history'', JList (map item_json (cm_history s)))]"

definition join_comma :: "string list \<Rightarrow> string" where
  "join_comma xs = (case xs of [] \<Rightarrow> [] | y # ys \<Rightarrow> foldl (\<lambda>a b. a @ '', '' @ b) y ys)"

text \<open>The notification's first part: the message names the stop only when it was confirmed.\<close>

definition comm_feedback :: "comm_state \<Rightarrow> string" where
  "comm_feedback s =
     (if cm_stop_confirmed s = Some True then ''Home Assistant meldet Netzladen aus.''
      else ''Ein Ger'' @ [CHR 0xE4] @ ''te-Stopp ist nicht best'' @ [CHR 0xE4]
           @ ''tigt; die letzten Ger'' @ [CHR 0xE4] @ ''tesollwerte k'' @ [CHR 0xF6]
           @ ''nnen weiterwirken.'')"

definition comm_message :: "comm_state \<Rightarrow> string" where
  "comm_message s =
     (if cm_faults s = []
      then ''Kommunikation wiederhergestellt. Bisher '' @ int_dec (cm_incidents s)
           @ '' Unterbrechung(en). Die Historie bleibt in den Integrationsdiagnosen erhalten.''
      else ''Kommunikation gest'' @ [CHR 0xF6] @ ''rt: '' @ join_comma (cm_faults s) @ ''. ''
           @ comm_feedback s @ [CHR 0x0A, CHR 0x0A] @ ''Bisher '' @ int_dec (cm_incidents s)
           @ '' Unterbrechung(en). Lokale Verbindung, Ger'' @ [CHR 0xE4]
           @ ''teverf'' @ [CHR 0xFC] @ ''gbarkeit und Integrationsdiagnosen pr'' @ [CHR 0xFC]
           @ ''fen. Erst mit aktuellen Daten wird neu geregelt.'')"

section \<open>Runs of observations\<close>

text \<open>One observation; a refused one (an unknown fault code) leaves the state.\<close>

record comm_obs =
  ob_faults :: "string list"
  ob_now :: py_datetime
  ob_stop :: "bool option"

definition comm_step :: "comm_state \<Rightarrow> comm_obs \<Rightarrow> comm_state" where
  "comm_step s o' = (case comm_observe (ob_faults o') (ob_now o') (ob_stop o') s of
     Inl _ \<Rightarrow> s | Inr (_, s') \<Rightarrow> s')"

definition valid_faults :: "string list \<Rightarrow> bool" where
  "valid_faults fs \<longleftrightarrow> sorted_set fs = fs \<and> set fs \<subseteq> set FAULT_CODES"

definition comm_inv :: "comm_state \<Rightarrow> bool" where
  "comm_inv s \<longleftrightarrow> 0 \<le> cm_incidents s \<and> cm_incidents s \<le> cm_failed_samples s
     \<and> length (cm_history s) \<le> HISTORY_LIMIT \<and> valid_faults (cm_faults s)
     \<and> list_all (\<lambda>i. valid_faults (ci_faults i)) (cm_history s)
     \<and> (if cm_history s = [] then cm_faults s = [] else ci_faults (last (cm_history s)) = cm_faults s)
     \<and> (cm_faults s \<noteq> [] \<longrightarrow> ci_stop (last (cm_history s)) = cm_stop_confirmed s \<and> cm_announced s)"

lemma sorted_set_idem [simp]: "sorted_set (sorted_set xs) = sorted_set xs"
  by (simp add: sorted_set_def distinct_remdups_id sorted_sort_id)

lemma set_sorted_set [simp]: "set (sorted_set xs) = set xs"
  by (simp add: sorted_set_def)

lemma sorted_set_Nil_iff [simp]: "sorted_set xs = [] \<longleftrightarrow> xs = []"
  by (metis set_empty set_sorted_set)

lemma sorted_set_Nil [simp]: "sorted_set [] = []"
  by (simp add: sorted_set_def)

lemma valid_sorted_set:
  "list_all (\<lambda>f. f \<in> set FAULT_CODES) fs \<Longrightarrow> valid_faults (sorted_set fs)"
  by (auto simp: valid_faults_def list_all_iff)

lemma take_last_snoc_last: "0 < n \<Longrightarrow> last (take_last n (xs @ [x])) = x"
  by (simp add: last_take_last)

lemma take_last_snoc_ne: "0 < n \<Longrightarrow> take_last n (xs @ [x]) \<noteq> []"
  by (simp add: take_last_def)

lemma list_all_take_last: "list_all P xs \<Longrightarrow> list_all P (take_last n xs)"
  using set_take_last [of n xs] by (auto simp: list_all_iff)

lemma comm_step_inv: "comm_inv s \<Longrightarrow> comm_inv (comm_step s e)"
proof (cases "list_all (\<lambda>f. f \<in> set FAULT_CODES) (ob_faults e)")
  case False
  assume "comm_inv s"
  then show ?thesis using False by (simp add: comm_step_def comm_observe_def)
next
  case True
  assume i: "comm_inv s"
  have H: "0 < HISTORY_LIMIT" by (simp add: HISTORY_LIMIT_def)
  note v = valid_sorted_set [OF True]
  show ?thesis
  proof (cases "sorted_set (ob_faults e) = cm_faults s \<and>
      (sorted_set (ob_faults e) = [] \<or> ob_stop e = cm_stop_confirmed s)")
    case t: True
    show ?thesis using i v True t
      by (auto simp: comm_step_def comm_observe_def Let_def comm_inv_def take_last_snoc_last [OF H]
          take_last_snoc_ne [OF H] list_all_take_last)
  next
    case f: False
    show ?thesis using i v True f
      by (auto simp: comm_step_def comm_observe_def Let_def comm_inv_def take_last_snoc_last [OF H]
          take_last_snoc_ne [OF H] list_all_take_last)
  qed
qed

interpretation comm: invariant_machine comm_step comm_inv
  by unfold_locales (rule comm_step_inv)

lemma comm_new_inv: "comm_inv comm_new"
  by (simp add: comm_inv_def comm_new_def valid_faults_def sorted_set_def)

section \<open>Incidents\<close>

text \<open>The observations the code accepts, and the number of changes from healthy to interrupted.\<close>

definition comm_accepted :: "comm_obs list \<Rightarrow> comm_obs list" where
  "comm_accepted os = filter (\<lambda>e. list_all (\<lambda>f. f \<in> set FAULT_CODES) (ob_faults e)) os"

fun rising :: "bool \<Rightarrow> bool list \<Rightarrow> nat" where
  "rising prev [] = 0"
| "rising prev (b # bs) = (if b \<and> \<not> prev then 1 else 0) + rising b bs"

lemma comm_step_fields:
  "cm_faults (comm_step s e) =
     (if list_all (\<lambda>f. f \<in> set FAULT_CODES) (ob_faults e) then sorted_set (ob_faults e) else cm_faults s)"
  "cm_incidents (comm_step s e) = cm_incidents s +
     (if list_all (\<lambda>f. f \<in> set FAULT_CODES) (ob_faults e) \<and> ob_faults e \<noteq> [] \<and> cm_faults s = []
      then 1 else 0)"
  "cm_failed_samples (comm_step s e) = cm_failed_samples s +
     (if list_all (\<lambda>f. f \<in> set FAULT_CODES) (ob_faults e) \<and> ob_faults e \<noteq> [] then 1 else 0)"
  by (auto simp: comm_step_def comm_observe_def Let_def)

lemma comm_run_counts:
  fixes os defines "acc \<equiv> map (\<lambda>e. ob_faults e \<noteq> []) (comm_accepted os)"
  shows "cm_incidents (foldl comm_step s os) = cm_incidents s + int (rising (cm_faults s \<noteq> []) acc)
   \<and> cm_failed_samples (foldl comm_step s os)
       = cm_failed_samples s + int (length (filter (\<lambda>b. b) acc))"
  unfolding acc_def
proof (induction os arbitrary: s)
  case (Cons e os)
  show ?case
    using Cons [of "comm_step s e"]
    by (auto simp: comm_accepted_def comm_step_fields)
qed (simp add: comm_accepted_def)

text \<open>After any run of observations the incident counter is the number of changes from healthy to
  interrupted and not the number of polls, the sample counter is the number of interrupted
  polls, the current faults are those of the last announced history entry, and the history
  holds at most 32 entries. Refused observations count for nothing.\<close>

lemma communication_counts_incidents:
  "cm_incidents (foldl comm_step comm_new os)
     = int (rising False (map (\<lambda>e. ob_faults e \<noteq> []) (comm_accepted os)))
   \<and> cm_failed_samples (foldl comm_step comm_new os)
     = int (length (filter (\<lambda>e. ob_faults e \<noteq> []) (comm_accepted os)))
   \<and> length (cm_history (foldl comm_step comm_new os)) \<le> 32
   \<and> cm_faults (foldl comm_step comm_new os)
     = (if cm_history (foldl comm_step comm_new os) = [] then []
        else ci_faults (last (cm_history (foldl comm_step comm_new os))))"
  using comm_run_counts [of comm_new os] comm.run_inv [OF comm_new_inv, of os]
  by (simp add: comm_new_def comm_inv_def HISTORY_LIMIT_def filter_map o_def)

section \<open>Saving and restoring\<close>

text \<open>The time stamps of a state come from time-zone aware readings that parse back.\<close>

definition stamp_ok :: "(string \<Rightarrow> py_datetime option) \<Rightarrow> string \<Rightarrow> bool" where
  "stamp_ok fromiso t \<longleftrightarrow>
     (\<exists>d. t = datetime_iso d \<and> dt_offset d \<noteq> None \<and> fromiso t = Some d)"

definition stamps_ok :: "(string \<Rightarrow> py_datetime option) \<Rightarrow> comm_state \<Rightarrow> bool" where
  "stamps_ok fromiso s \<longleftrightarrow> list_all (\<lambda>i. stamp_ok fromiso (ci_time i)) (cm_history s)
     \<and> (\<forall>t. cm_last_success_at s = Some t \<longrightarrow> stamp_ok fromiso t)"

lemma stamps_ok_step:
  assumes "stamps_ok fromiso s" "stamp_ok fromiso (datetime_iso (ob_now e))"
  shows "stamps_ok fromiso (comm_step s e)"
  using assms
  by (auto simp: stamps_ok_def comm_step_def comm_observe_def Let_def list_all_take_last)

lemma stamps_ok_run:
  "stamps_ok fromiso s \<Longrightarrow> \<forall>e\<in>set os. stamp_ok fromiso (datetime_iso (ob_now e)) \<Longrightarrow>
   stamps_ok fromiso (foldl comm_step s os)"
  by (induction os arbitrary: s) (auto intro: stamps_ok_step)

lemma restore_item_json:
  assumes "valid_faults (ci_faults i)" "stamp_ok fromiso (ci_time i)"
  shows "restore_item fromiso (item_json i) = Some i"
proof -
  have "list_all (\<lambda>f. case f of JStr s \<Rightarrow> s \<in> set FAULT_CODES | _ \<Rightarrow> False) (map JStr (ci_faults i))"
    using assms(1) by (auto simp: valid_faults_def list_all_iff)
  moreover have "map ((\<lambda>f. case f of JStr s \<Rightarrow> s | _ \<Rightarrow> []) \<circ> JStr) (ci_faults i) = ci_faults i"
    by (induction "ci_faults i") (auto simp: o_def)
  ultimately show ?thesis
    using assms by (cases "ci_stop i")
      (auto simp: restore_item_def item_json_def valid_faults_def stamp_ok_def stop_json_def)
qed

lemma restore_items:
  assumes "list_all (\<lambda>i. valid_faults (ci_faults i)) h"
    "list_all (\<lambda>i. stamp_ok fromiso (ci_time i)) h"
  shows "List.map_filter (restore_item fromiso) (map item_json h) = h"
  using assms by (induction h) (auto simp: List.map_filter_simps restore_item_json)

text \<open>A state reached by observations, saved by \<open>snapshot\<close> and given to the constructor, comes back
  with its counters, its current faults, its last success and its whole history; only the
  announcement of the day is forgotten, so a fault that persists is announced again. The
  hypothesis is that \<open>fromisoformat\<close> inverts \<open>isoformat\<close> on the time-zone aware readings
  that were observed.\<close>

lemma communication_restores:
  "\<forall>e\<in>set os. stamp_ok fromiso (datetime_iso (ob_now e)) \<Longrightarrow>
   comm_restore fromiso (comm_snapshot (foldl comm_step comm_new os)) =
     (foldl comm_step comm_new os)\<lparr>cm_announced := False, cm_notice_date := None,
        cm_stop_confirmed := (if cm_history (foldl comm_step comm_new os) = [] then None
           else ci_stop (last (cm_history (foldl comm_step comm_new os))))\<rparr>"
proof -
  assume h: "\<forall>e\<in>set os. stamp_ok fromiso (datetime_iso (ob_now e))"
  define s where "s = foldl comm_step comm_new os"
  have i: "comm_inv s" unfolding s_def by (rule comm.run_inv [OF comm_new_inv])
  have t: "stamps_ok fromiso s"
    unfolding s_def by (rule stamps_ok_run [OF _ h]) (simp add: stamps_ok_def comm_new_def)
  have r: "List.map_filter (restore_item fromiso) (map item_json (cm_history s)) = cm_history s"
    using i t restore_items [of "cm_history s" fromiso] by (simp add: comm_inv_def stamps_ok_def)
  have c: "restore_count (JInt (cm_incidents s)) = cm_incidents s"
    "restore_count (JInt (cm_failed_samples s)) = cm_failed_samples s"
    using i by (auto simp: restore_count_def comm_inv_def)
  have l: "(case (case cm_last_success_at s of None \<Rightarrow> JNull | Some t \<Rightarrow> JStr t) of
      JStr x \<Rightarrow> (case fromiso x of
          Some p \<Rightarrow> if dt_offset p \<noteq> None then Some (datetime_iso p) else None | None \<Rightarrow> None)
    | _ \<Rightarrow> None) = cm_last_success_at s"
    using t by (auto simp: stamps_ok_def stamp_ok_def split: option.splits)
  show ?thesis
    unfolding s_def [symmetric] comm_restore_def comm_snapshot_def
    using i by (cases "cm_history s = []")
      (simp_all add: r c l Let_def comm_inv_def comm_new_def)
qed

definition comm_day :: py_datetime where
  "comm_day = \<lparr>dt_year = 2025, dt_month = 1, dt_day = 2, dt_hour = 3, dt_minute = 4, dt_second = 5,
     dt_us = 0, dt_offset = Some 3600\<rparr>"

lemma communication_restores_witness:
  "cm_incidents (comm_restore (\<lambda>t. if t = datetime_iso comm_day then Some comm_day else None)
     (comm_snapshot (foldl comm_step comm_new
        [\<lparr>ob_faults = [''rest'', ''modbus''], ob_now = comm_day, ob_stop = None\<rparr>]))) = 1"
proof -
  have o: "dt_offset comm_day \<noteq> None" by (simp add: comm_day_def)
  show ?thesis
    by (subst communication_restores)
       (use o in \<open>auto simp: stamp_ok_def comm_step_fields FAULT_CODES_def comm_new_def\<close>)
qed

end
