(* ===== verification/ModbusClient.thy ===== *)
theory ModbusClient
  imports Codec
begin

text \<open>
  The Modbus TCP client (\<^verbatim>\<open>modbus_client.py\<close>): connection, suppression of unavailable
  registers, quality filter, reads and writes with retries, batch reads.

  What is outside the repository is the record \<open>env\<close>, an argument of every operation: the
  pymodbus connection (connect, read, write, its connected flag), \<open>asyncio.sleep\<close>, the
  monotonic clock, the acquisition of the request scheduler's lock, and whether another task
  has shut the client down meanwhile. They act on a world of any type, kept in the state, so
  an answer may depend on everything that happened before. One operation runs at a time (the
  client's own lock); other tasks act through the world. \<open>cl_trace\<close> is a ghost field that
  records the requests sent, the newest first.
\<close>

unbundle bit_operations_syntax

section \<open>Constants\<close>

definition RETRY_DELAY_BUSY :: rat where "RETRY_DELAY_BUSY = 2"
definition RETRY_DELAY_FAILURE :: rat where "RETRY_DELAY_FAILURE = 1"
definition MAX_RETRIES :: nat where "MAX_RETRIES = 2"
definition UNAVAILABLE_STRIKES_THRESHOLD :: int where "UNAVAILABLE_STRIKES_THRESHOLD = 3"
definition UNAVAILABLE_RESET_INTERVAL :: int where "UNAVAILABLE_RESET_INTERVAL = 120"
definition OUTLIER_ABS_LIMIT_DEFAULT :: pyfloat where "OUTLIER_ABS_LIMIT_DEFAULT = FFin 10000000"
definition OUTLIER_ENERGY_WH_LIMIT :: pyfloat where "OUTLIER_ENERGY_WH_LIMIT = FFin 100000000000"

definition OUTLIER_EXEMPT_ADDRESSES :: "nat list" where
  "OUTLIER_EXEMPT_ADDRESSES = [54, 515, 525, 527, 529, 586]"

definition OUTLIER_ABS_LIMIT_OVERRIDES :: "(nat \<times> pyfloat) list" where
  "OUTLIER_ABS_LIMIT_OVERRIDES =
     [(120, FFin 500000000), (104, FFin 100000000), (144, FFin 10000000000)]"

definition TRANSIENT_CODES :: "nat list" where "TRANSIENT_CODES = [4, 6, 5]"
definition PERMANENT_CODES :: "nat list" where "PERMANENT_CODES = [1, 2, 3]"

definition classify_exception_response :: "nat option \<Rightarrow> modbus_error" where
  "classify_exception_response exc_code = (case exc_code of
     None \<Rightarrow> ClientError
   | Some c \<Rightarrow> if c \<in> set TRANSIENT_CODES then TransientError c
               else if c \<in> set PERMANENT_CODES then PermanentError c else ClientError)"

text \<open>Only the message of code 6, server device busy, contains the word the code looks for.\<close>

definition retry_delay :: "nat \<Rightarrow> rat" where
  "retry_delay code = (if code = 6 then RETRY_DELAY_BUSY else RETRY_DELAY_FAILURE)"

section \<open>Environment and state\<close>

datatype conn_result = ConnOk | ConnRefused | ConnFailed
datatype read_result = RResp "16 word list" | RExc "nat option" | RTimeout | RConnLost | RModbusExc
datatype write_result = WOk | WExc "nat option" | WTimeout | WConnLost | WModbusExc

record 'w env =
  ev_connect :: "'w \<Rightarrow> conn_result \<times> 'w"
  ev_connected :: "'w \<Rightarrow> bool"
  ev_read :: "nat \<Rightarrow> nat \<Rightarrow> 'w \<Rightarrow> read_result \<times> 'w"
  ev_write :: "bool \<Rightarrow> nat \<Rightarrow> 16 word list \<Rightarrow> 'w \<Rightarrow> write_result \<times> 'w"
  ev_sleep :: "rat \<Rightarrow> 'w \<Rightarrow> 'w"
  ev_now :: "'w \<Rightarrow> rat"
  ev_closing :: "'w \<Rightarrow> bool"
  ev_sched :: "'w \<Rightarrow> bool \<times> 'w"

datatype io = IORead nat nat read_result | IOWrite nat "16 word list" write_result
  | IOConnect conn_result | IOSleep rat

record 'w client =
  cl_endianness :: string
  cl_endianness_confirmed :: bool
  cl_has_client :: bool
  cl_strikes :: "(int \<times> int) list"
  cl_suppressed :: "(int \<times> rat) list"
  cl_last_exc_code :: "nat option"
  cl_device_failure_count :: nat
  cl_last_good :: "nat \<Rightarrow> pyval option"
  cl_obs_gen :: "nat \<Rightarrow> nat option"
  cl_outlier_policy :: string
  cl_retained :: "nat set"
  cl_closing :: bool
  cl_generation :: nat
  cl_world :: 'w
  cl_trace :: "io list"

definition client_new :: "string \<Rightarrow> string \<Rightarrow> 'w \<Rightarrow> 'w client" where
  "client_new endianness policy w =
     \<lparr>cl_endianness = endianness, cl_endianness_confirmed = False, cl_has_client = False,
      cl_strikes = [], cl_suppressed = [], cl_last_exc_code = None, cl_device_failure_count = 0,
      cl_last_good = (\<lambda>_. None), cl_obs_gen = (\<lambda>_. None), cl_outlier_policy = policy,
      cl_retained = {}, cl_closing = False, cl_generation = 0, cl_world = w, cl_trace = []\<rparr>"

definition client_closing :: "'w env \<Rightarrow> 'w client \<Rightarrow> bool" where
  "client_closing env s \<longleftrightarrow> cl_closing s \<or> ev_closing env (cl_world s)"

definition client_connected :: "'w env \<Rightarrow> 'w client \<Rightarrow> bool" where
  "client_connected env s \<longleftrightarrow> cl_has_client s \<and> ev_connected env (cl_world s)"

definition log_io :: "io \<Rightarrow> 'w \<Rightarrow> 'w client \<Rightarrow> 'w client" where
  "log_io e w s = s\<lparr>cl_world := w, cl_trace := e # cl_trace s\<rparr>"

definition client_sleep :: "'w env \<Rightarrow> rat \<Rightarrow> 'w client \<Rightarrow> 'w client" where
  "client_sleep env t s = log_io (IOSleep t) (ev_sleep env t (cl_world s)) s"

section \<open>Suppression of unavailable registers\<close>

definition unavailable_registers :: "'w client \<Rightarrow> int set" where
  "unavailable_registers s = fst ` set (cl_suppressed s)"

definition reset_unavailable :: "'w client \<Rightarrow> 'w client" where
  "reset_unavailable s = s\<lparr>cl_strikes := [], cl_suppressed := []\<rparr>"

definition export_unavailable_state :: "'w client \<Rightarrow> (string \<times> int) list" where
  "export_unavailable_state s = map (\<lambda>(a, v). (int_dec a, v)) (cl_strikes s)"

definition import_strikes :: "(string \<times> pyval) list \<Rightarrow> pyexc + (int \<times> int) list" where
  "import_strikes xs = foldl (\<lambda>acc (k, v). bind_res acc (\<lambda>d.
     bind_res (int_of_str k) (\<lambda>a. bind_res (int_of_val v) (\<lambda>n. Inr (dict_set a n d)))))
     (Inr []) xs"

definition import_unavailable_state ::
    "(string \<times> pyval) list \<Rightarrow> 'w client \<Rightarrow> (modbus_error + unit) \<times> 'w client" where
  "import_unavailable_state strikes s = (case import_strikes strikes of
     Inl e \<Rightarrow> (Inl (PyExc e), s)
   | Inr d \<Rightarrow> (Inr (), s\<lparr>cl_strikes := d, cl_suppressed := []\<rparr>))"

definition strikes_of :: "'w client \<Rightarrow> nat \<Rightarrow> int \<Rightarrow> int" where
  "strikes_of s a d = (case map_of (cl_strikes s) (int a) of None \<Rightarrow> d | Some n \<Rightarrow> n)"

definition is_suppressed :: "'w env \<Rightarrow> nat \<Rightarrow> 'w client \<Rightarrow> bool \<times> 'w client" where
  "is_suppressed env a s = (case map_of (cl_suppressed s) (int a) of
     None \<Rightarrow> (False, s)
   | Some t0 \<Rightarrow>
       if of_int (UNAVAILABLE_RESET_INTERVAL * strikes_of s a 1) < ev_now env (cl_world s) - t0
       then (False, s\<lparr>cl_suppressed := dict_pop (int a) (cl_suppressed s)\<rparr>)
       else (True, s))"

definition record_unavailable_strike :: "'w env \<Rightarrow> nat \<Rightarrow> 'w client \<Rightarrow> 'w client" where
  "record_unavailable_strike env a s =
     (let strikes = strikes_of s a 0 + 1;
          s1 = s\<lparr>cl_strikes := dict_set (int a) strikes (cl_strikes s)\<rparr>
      in if UNAVAILABLE_STRIKES_THRESHOLD \<le> strikes
         then s1\<lparr>cl_suppressed := dict_set (int a) (ev_now env (cl_world s)) (cl_suppressed s1)\<rparr>
         else s1)"

definition pop_strikes :: "nat \<Rightarrow> 'w client \<Rightarrow> 'w client" where
  "pop_strikes a s = s\<lparr>cl_strikes := dict_pop (int a) (cl_strikes s)\<rparr>"

section \<open>Connection\<close>

text \<open>
  A refused connection raises inside the \<open>try\<close>, where it is not caught: the client object
  stays, unconnected. Any other failure drops it.
\<close>

definition client_connect :: "'w env \<Rightarrow> 'w client \<Rightarrow> (modbus_error + bool) \<times> 'w client" where
  "client_connect env s =
     (if client_closing env s then (Inl ConnectionError, s)
      else if client_connected env s then (Inr True, s)
      else let (r, w) = ev_connect env (cl_world s); s1 = log_io (IOConnect r) w s
        in case r of
             ConnOk \<Rightarrow> (Inr True, s1\<lparr>cl_has_client := True, cl_generation := cl_generation s1 + 1\<rparr>)
           | ConnRefused \<Rightarrow> (Inl ConnectionError, s1\<lparr>cl_has_client := True\<rparr>)
           | ConnFailed \<Rightarrow> (Inl ConnectionError, s1\<lparr>cl_has_client := False\<rparr>))"

definition client_disconnect :: "'w client \<Rightarrow> 'w client" where
  "client_disconnect s = s\<lparr>cl_has_client := False\<rparr>"

definition client_shutdown :: "'w client \<Rightarrow> 'w client" where
  "client_shutdown s = s\<lparr>cl_closing := True, cl_has_client := False\<rparr>"

definition client_reconnect :: "'w env \<Rightarrow> 'w client \<Rightarrow> (modbus_error + bool) \<times> 'w client" where
  "client_reconnect env s =
     (if client_closing env s then (Inl ConnectionError, s)
      else client_connect env (client_disconnect s))"

section \<open>Raw reads and writes\<close>

definition words_bytes :: "16 word list \<Rightarrow> byte list" where
  "words_bytes ws = concat (map (\<lambda>w. pack_be 2 (uint w)) ws)"

fun bytes_words :: "byte list \<Rightarrow> pyexc + 16 word list" where
  "bytes_words [] = Inr []"
| "bytes_words [b] = Inl StructError"
| "bytes_words (a # b # bs) =
     bind_res (bytes_words bs) (\<lambda>ws. Inr (word_of_int (unpack_be [a, b]) # ws))"

definition raw_read_inner ::
    "'w env \<Rightarrow> nat \<Rightarrow> nat \<Rightarrow> 'w client \<Rightarrow> (modbus_error + byte list) \<times> 'w client" where
  "raw_read_inner env address n s =
     (if client_closing env s then (Inl ShutdownAbort, s)
      else if \<not> client_connected env s then (Inl ConnectionError, s)
      else let (r, w) = ev_read env address n (cl_world s); s1 = log_io (IORead address n r) w s
        in case r of
             RResp ws \<Rightarrow>
               (if length ws \<noteq> n then (Inl ReadError, s1) else (Inr (words_bytes ws), s1))
           | RExc c \<Rightarrow>
               (Inl (classify_exception_response c),
                s1\<lparr>cl_last_exc_code := c,
                   cl_device_failure_count := cl_device_failure_count s1 + (if c = Some 4 then 1 else 0)\<rparr>)
           | RTimeout \<Rightarrow> (Inl ConnectionError, s1\<lparr>cl_has_client := False\<rparr>)
           | RConnLost \<Rightarrow> (Inl ConnectionError, s1\<lparr>cl_has_client := False\<rparr>)
           | RModbusExc \<Rightarrow> (Inl ReadError, s1))"

text \<open>The scheduler's lock is taken first; waiting too long for it raises its timeout.\<close>

definition with_scheduler ::
    "'w env \<Rightarrow> ('w client \<Rightarrow> (modbus_error + 'a) \<times> 'w client)
     \<Rightarrow> 'w client \<Rightarrow> (modbus_error + 'a) \<times> 'w client" where
  "with_scheduler env m s = (let (ok, w) = ev_sched env (cl_world s); s1 = s\<lparr>cl_world := w\<rparr>
     in if ok then m s1 else (Inl SchedTimeout, s1))"

definition raw_read ::
    "'w env \<Rightarrow> nat \<Rightarrow> nat \<Rightarrow> 'w client \<Rightarrow> (modbus_error + byte list) \<times> 'w client" where
  "raw_read env address n = with_scheduler env (raw_read_inner env address n)"

definition raw_write_inner ::
    "'w env \<Rightarrow> nat \<Rightarrow> byte list \<Rightarrow> nat \<Rightarrow> 'w client \<Rightarrow> (modbus_error + unit) \<times> 'w client" where
  "raw_write_inner env address data n s =
     (if client_closing env s then (Inl ShutdownAbort, s)
      else if \<not> client_connected env s then (Inl ConnectionError, s)
      else case bytes_words data of
        Inl e \<Rightarrow> (Inl (PyExc e), s)
      | Inr registers \<Rightarrow>
          if n = 1 \<and> registers = [] then (Inl (PyExc IndexError), s)
          else let ws = (if n = 1 then [hd registers] else registers);
                   (r, w) = ev_write env (n = 1) address ws (cl_world s);
                   s1 = log_io (IOWrite address ws r) w s
            in case r of
                 WOk \<Rightarrow> (Inr (), s1)
               | WExc c \<Rightarrow> (Inl (classify_exception_response c), s1)
               | WTimeout \<Rightarrow> (Inl ConnectionError, s1\<lparr>cl_has_client := False\<rparr>)
               | WConnLost \<Rightarrow> (Inl ConnectionError, s1\<lparr>cl_has_client := False\<rparr>)
               | WModbusExc \<Rightarrow> (Inl WriteError, s1))"

definition raw_write ::
    "'w env \<Rightarrow> nat \<Rightarrow> byte list \<Rightarrow> nat \<Rightarrow> 'w client \<Rightarrow> (modbus_error + unit) \<times> 'w client" where
  "raw_write env address data n = with_scheduler env (raw_write_inner env address data n)"

definition detect_endianness :: "'w env \<Rightarrow> 'w client \<Rightarrow> (modbus_error + string) \<times> 'w client" where
  "detect_endianness env s =
     sbind (raw_read env (rg_address REG_BYTE_ORDER) 1) (\<lambda>raw s1.
       case unpack_uint 2 raw of
         Inl e \<Rightarrow> (Inl (PyExc e), s1)
       | Inr v \<Rightarrow> (let detected = (if v = 1 then ''big'' else ''little'')
           in (Inr detected, s1\<lparr>cl_endianness := detected, cl_endianness_confirmed := True\<rparr>))) s"

section \<open>The quality filter\<close>

definition retained_add :: "nat \<Rightarrow> 'w client \<Rightarrow> 'w client" where
  "retained_add a s = s\<lparr>cl_retained := insert a (cl_retained s)\<rparr>"

text \<open>Keep the last good value where the policy says so and there is one, else refuse.\<close>

definition keep_or_refuse :: "nat \<Rightarrow> 'w client \<Rightarrow> (modbus_error + pyval) \<times> 'w client" where
  "keep_or_refuse a s = (case cl_last_good s a of
     Some previous \<Rightarrow>
       if previous \<noteq> VNone \<and> cl_outlier_policy s = ''keep_last''
       then (Inr previous, retained_add a s) else (Inl ReadError, s)
   | None \<Rightarrow> (Inl ReadError, s))"

definition energy_counter :: "modbus_register \<Rightarrow> bool" where
  "energy_counter r \<longleftrightarrow> rg_group r = G_ENERGY \<and> rg_unit r = Some ''Wh''"

definition abs_limit :: "modbus_register \<Rightarrow> pyfloat" where
  "abs_limit r = (case map_of OUTLIER_ABS_LIMIT_OVERRIDES (rg_address r) of
     Some l \<Rightarrow> l
   | None \<Rightarrow> if energy_counter r then OUTLIER_ENERGY_WH_LIMIT else OUTLIER_ABS_LIMIT_DEFAULT)"

text \<open>The generic guard for numbers, after the register's own sentinel check.\<close>

definition outlier_guard ::
    "modbus_register \<Rightarrow> pyval \<Rightarrow> 'w client \<Rightarrow> (modbus_error + pyval) \<times> 'w client" where
  "outlier_guard r value s =
     (if is_number value then
        case float_of_val value of
          Inl e \<Rightarrow> (Inl (PyExc e), s)
        | Inr x \<Rightarrow>
            if is_nan x \<or> is_inf x then keep_or_refuse (rg_address r) s
            else if rg_address r \<notin> set OUTLIER_EXEMPT_ADDRESSES then
              (let negative_energy = (energy_counter r \<and> flt x (FFin 0))
               in if negative_energy \<or> flt (abs_limit r) (fabs x)
                  then keep_or_refuse (rg_address r) s else (Inr value, s))
            else (Inr value, s)
      else (Inr value, s))"

definition apply_quality_filter ::
    "modbus_register \<Rightarrow> pyval \<Rightarrow> 'w client \<Rightarrow> (modbus_error + pyval) \<times> 'w client" where
  "apply_quality_filter r value s =
     (let s1 = s\<lparr>cl_retained := cl_retained s - {rg_address r}\<rparr>
      in if rg_address r = 575 then
           case int_of_val value of
             Inr n \<Rightarrow> if 32767 \<le> n then keep_or_refuse (rg_address r) s1
                       else outlier_guard r value s1
           | Inl e \<Rightarrow> if e \<in> {TypeError, ValueError} then outlier_guard r value s1
                       else (Inl (PyExc e), s1)
         else outlier_guard r value s1)"

section \<open>Reading one register\<close>

text \<open>What follows a successful raw read: decode, filter, remember.\<close>

definition store_filtered :: "modbus_register \<Rightarrow> nat \<Rightarrow> pyval \<Rightarrow> 'w client \<Rightarrow> 'w client" where
  "store_filtered r generation v s =
     (let s1 = (if rg_address r \<in> cl_retained s then s
                else s\<lparr>cl_obs_gen := (cl_obs_gen s)(rg_address r \<mapsto> generation)\<rparr>)
      in s1\<lparr>cl_last_good := (cl_last_good s1)(rg_address r \<mapsto> v)\<rparr>)"

definition accept_bytes ::
    "modbus_register \<Rightarrow> byte list \<Rightarrow> 'w client \<Rightarrow> (modbus_error + pyval) \<times> 'w client" where
  "accept_bytes r raw s = (case decode_register (cl_endianness s) raw r of
     Inl e \<Rightarrow> (Inl e, s)
   | Inr decoded \<Rightarrow> (case apply_quality_filter r decoded s of
       (Inl e, s1) \<Rightarrow> (Inl e, s1)
     | (Inr filtered, s1) \<Rightarrow> (Inr filtered, store_filtered r (cl_generation s) filtered s1)))"

definition read_once :: "'w env \<Rightarrow> modbus_register \<Rightarrow> 'w client \<Rightarrow> (modbus_error + pyval) \<times> 'w client" where
  "read_once env r = sbind (raw_read env (rg_address r) (rg_count r))
     (\<lambda>raw s1. accept_bytes r raw (pop_strikes (rg_address r) s1))"

text \<open>Reconnect, then detect the word order unless it is already known.\<close>

definition read_recover :: "'w env \<Rightarrow> 'w client \<Rightarrow> (modbus_error + unit) \<times> 'w client" where
  "read_recover env = sbind (client_reconnect env) (\<lambda>_ s1.
     if cl_endianness_confirmed s1 then (Inr (), s1)
     else sbind (detect_endianness env) (\<lambda>_ s2. (Inr (), s2)) s1)"

definition is_conn_error :: "modbus_error \<Rightarrow> bool" where
  "is_conn_error e \<longleftrightarrow> e = ConnectionError \<or> e = ShutdownAbort"

text \<open>
  The retry loop; the first argument counts the retries that are left. Recovery that fails
  with a connection error goes on with the next attempt, any other failure of it is raised.
\<close>

fun read_loop ::
    "nat \<Rightarrow> 'w env \<Rightarrow> modbus_register \<Rightarrow> 'w client \<Rightarrow> (modbus_error + pyval) \<times> 'w client" where
  "read_loop left env r s = (case read_once env r s of
     (Inr v, s1) \<Rightarrow> (Inr v, s1)
   | (Inl e, s1) \<Rightarrow> (case e of
       PermanentError c \<Rightarrow>
         (Inl e, if cl_last_exc_code s1 = Some 2
                 then record_unavailable_strike env (rg_address r) s1 else s1)
     | TransientError c \<Rightarrow> (case left of
         Suc k \<Rightarrow> read_loop k env r (client_sleep env (retry_delay c) s1)
       | 0 \<Rightarrow> (Inl ReadError, s1))
     | _ \<Rightarrow>
         if is_conn_error e then
           (if client_closing env s1 then (Inl ShutdownAbort, s1)
            else case left of
              Suc k \<Rightarrow> (case read_recover env s1 of
                (Inr _, s2) \<Rightarrow> read_loop k env r s2
              | (Inl e2, s2) \<Rightarrow> if is_conn_error e2 then read_loop k env r s2 else (Inl e2, s2))
            | 0 \<Rightarrow> (Inl e, s1))
         else (Inl e, s1)))"

declare read_loop.simps [simp del]

lemmas read_loop_0 = read_loop.simps [of 0, simplified]
lemmas read_loop_Suc = read_loop.simps [of "Suc k" for k, simplified]

definition read_register ::
    "'w env \<Rightarrow> modbus_register \<Rightarrow> 'w client \<Rightarrow> (modbus_error + pyval) \<times> 'w client" where
  "read_register env r s =
     (let (sup, s1) = is_suppressed env (rg_address r) (s\<lparr>cl_last_exc_code := None\<rparr>)
      in if sup then (Inl (PermanentError 0), s1) else read_loop MAX_RETRIES env r s1)"

section \<open>Writing one register\<close>

definition write_recover :: "'w env \<Rightarrow> 'w client \<Rightarrow> (modbus_error + unit) \<times> 'w client" where
  "write_recover env = sbind (client_reconnect env) (\<lambda>_.
     sbind (detect_endianness env) (\<lambda>_ s2. (Inr (), s2)))"

text \<open>The precondition is checked before every attempt but the first.\<close>

definition retry_allowed :: "nat \<Rightarrow> ('w client \<Rightarrow> bool) option \<Rightarrow> 'w client \<Rightarrow> bool" where
  "retry_allowed left precondition s \<longleftrightarrow>
     left = MAX_RETRIES \<or> (case precondition of None \<Rightarrow> True | Some p \<Rightarrow> p s)"

fun write_loop ::
    "nat \<Rightarrow> 'w env \<Rightarrow> modbus_register \<Rightarrow> byte list \<Rightarrow> ('w client \<Rightarrow> bool) option
     \<Rightarrow> 'w client \<Rightarrow> (modbus_error + unit) \<times> 'w client" where
  "write_loop left env r encoded precondition s =
     (if \<not> retry_allowed left precondition s then (Inl WriteError, s)
      else case raw_write env (rg_address r) encoded (rg_count r) s of
        (Inr _, s1) \<Rightarrow> (Inr (), s1)
      | (Inl e, s1) \<Rightarrow> (case e of
          TransientError c \<Rightarrow> (case left of
            Suc k \<Rightarrow> write_loop k env r encoded precondition (client_sleep env (retry_delay c) s1)
          | 0 \<Rightarrow> (Inl WriteError, s1))
        | _ \<Rightarrow>
            if is_conn_error e then
              (case left of
                 Suc k \<Rightarrow> (case write_recover env s1 of
                   (Inr _, s2) \<Rightarrow> write_loop k env r encoded precondition s2
                 | (Inl e2, s2) \<Rightarrow>
                     if is_conn_error e2 then write_loop k env r encoded precondition s2
                     else (Inl e2, s2))
               | 0 \<Rightarrow> (Inl e, s1))
            else (Inl e, s1)))"

declare write_loop.simps [simp del]

lemmas write_loop_0 = write_loop.simps [of 0, simplified]
lemmas write_loop_Suc = write_loop.simps [of "Suc k" for k, simplified]

definition write_register ::
    "'w env \<Rightarrow> modbus_register \<Rightarrow> pyval \<Rightarrow> ('w client \<Rightarrow> bool) option
     \<Rightarrow> 'w client \<Rightarrow> (modbus_error + unit) \<times> 'w client" where
  "write_register env r value precondition s =
     (if rg_access r \<noteq> RW then (Inl WriteError, s)
      else case encode_register (cl_endianness s) value r of
        Inl e \<Rightarrow> (Inl e, s)
      | Inr encoded \<Rightarrow> write_loop MAX_RETRIES env r encoded precondition s)"

section \<open>By name and address\<close>

definition read_by_name :: "'w env \<Rightarrow> string \<Rightarrow> 'w client \<Rightarrow> (modbus_error + pyval) \<times> 'w client" where
  "read_by_name env name s = (case REGISTER_BY_NAME name of
     None \<Rightarrow> (Inl ReadError, s) | Some r \<Rightarrow> read_register env r s)"

definition write_by_name ::
    "'w env \<Rightarrow> string \<Rightarrow> pyval \<Rightarrow> 'w client \<Rightarrow> (modbus_error + unit) \<times> 'w client" where
  "write_by_name env name value s = (case REGISTER_BY_NAME name of
     None \<Rightarrow> (Inl WriteError, s) | Some r \<Rightarrow> write_register env r value None s)"

definition read_by_address :: "'w env \<Rightarrow> nat \<Rightarrow> 'w client \<Rightarrow> (modbus_error + pyval) \<times> 'w client" where
  "read_by_address env address s = (case REGISTER_BY_ADDRESS address of
     None \<Rightarrow> (Inl ReadError, s) | Some r \<Rightarrow> read_register env r s)"

definition write_by_address ::
    "'w env \<Rightarrow> nat \<Rightarrow> pyval \<Rightarrow> 'w client \<Rightarrow> (modbus_error + unit) \<times> 'w client" where
  "write_by_address env address value s = (case REGISTER_BY_ADDRESS address of
     None \<Rightarrow> (Inl WriteError, s) | Some r \<Rightarrow> write_register env r value None s)"

text \<open>Read errors and permanent errors of one register are skipped, any other error is raised.\<close>

definition is_skipped :: "modbus_error \<Rightarrow> bool" where
  "is_skipped e = (case e of ReadError \<Rightarrow> True | PermanentError _ \<Rightarrow> True | _ \<Rightarrow> False)"

fun read_each ::
    "'w env \<Rightarrow> modbus_register list \<Rightarrow> (string \<times> pyval) list \<Rightarrow> 'w client
     \<Rightarrow> (modbus_error + (string \<times> pyval) list) \<times> 'w client" where
  "read_each env [] acc s = (Inr acc, s)"
| "read_each env (r # rs) acc s = (case read_register env r s of
     (Inr v, s1) \<Rightarrow> read_each env rs (dict_set (rg_name r) v acc) s1
   | (Inl e, s1) \<Rightarrow> if is_skipped e then read_each env rs acc s1 else (Inl e, s1))"

definition read_monitoring ::
    "'w env \<Rightarrow> 'w client \<Rightarrow> (modbus_error + (string \<times> pyval) list) \<times> 'w client" where
  "read_monitoring env = read_each env MONITORING_REGISTERS []"

section \<open>Batch reads\<close>

text \<open>The grouping loop: finished groups, the current group, and the registers still to come.\<close>

fun group_loop ::
    "'w env \<Rightarrow> modbus_register list \<Rightarrow> modbus_register list list \<Rightarrow> modbus_register list
     \<Rightarrow> 'w client \<Rightarrow> modbus_register list list \<times> 'w client" where
  "group_loop env [] groups cur s = (if cur = [] then groups else groups @ [cur], s)"
| "group_loop env (r # rs) groups cur s =
     (let (sup, s1) = is_suppressed env (rg_address r) s
      in if sup then group_loop env rs groups cur s1
         else if cur = [] then group_loop env rs groups [r] s1
         else if rg_address r = rg_address (last cur) + rg_count (last cur)
           then group_loop env rs groups (cur @ [r]) s1
         else group_loop env rs (groups @ [cur]) [r] s1)"

definition accept_batch ::
    "modbus_register \<Rightarrow> nat \<Rightarrow> byte list \<Rightarrow> 'w client \<Rightarrow> (modbus_error + pyval) \<times> 'w client" where
  "accept_batch r generation raw s = (case decode_register (cl_endianness s) raw r of
     Inl e \<Rightarrow> (Inl e, s)
   | Inr decoded \<Rightarrow> (case apply_quality_filter r decoded s of
       (Inl e, s1) \<Rightarrow> (Inl e, s1)
     | (Inr filtered, s1) \<Rightarrow>
         (Inr filtered, pop_strikes (rg_address r) (store_filtered r generation filtered s1))))"

fun decode_group ::
    "nat \<Rightarrow> byte list \<Rightarrow> nat \<Rightarrow> modbus_register list \<Rightarrow> (string \<times> pyval) list \<Rightarrow> 'w client
     \<Rightarrow> (modbus_error + (string \<times> pyval) list) \<times> 'w client" where
  "decode_group generation raw_all offset [] acc s = (Inr acc, s)"
| "decode_group generation raw_all offset (r # rs) acc s =
     (let reg_bytes = take (rg_count r * 2) (drop (offset * 2) raw_all)
      in case accept_batch r generation reg_bytes s of
           (Inr v, s1) \<Rightarrow>
             decode_group generation raw_all (offset + rg_count r) rs (dict_set (rg_name r) v acc) s1
         | (Inl e, s1) \<Rightarrow>
             if is_skipped e then decode_group generation raw_all (offset + rg_count r) rs acc s1
             else (Inl e, s1))"

text \<open>A subclass of the client's error class; the scheduler's timeout and other exceptions are not.\<close>

definition is_client_error :: "modbus_error \<Rightarrow> bool" where
  "is_client_error e = (case e of SchedTimeout \<Rightarrow> False | PyExc _ \<Rightarrow> False | _ \<Rightarrow> True)"

definition total_words :: "modbus_register list \<Rightarrow> nat" where
  "total_words grp = sum_list (map rg_count grp)"

definition read_group ::
    "'w env \<Rightarrow> modbus_register list \<Rightarrow> (string \<times> pyval) list \<Rightarrow> 'w client
     \<Rightarrow> (modbus_error + (string \<times> pyval) list) \<times> 'w client" where
  "read_group env grp acc s = (case raw_read env (rg_address (hd grp)) (total_words grp) s of
     (Inl e, s1) \<Rightarrow> if is_client_error e then read_each env grp acc s1 else (Inl e, s1)
   | (Inr raw_all, s1) \<Rightarrow> decode_group (cl_generation s1) raw_all 0 grp acc s1)"

fun read_groups ::
    "'w env \<Rightarrow> modbus_register list list \<Rightarrow> (string \<times> pyval) list \<Rightarrow> 'w client
     \<Rightarrow> (modbus_error + (string \<times> pyval) list) \<times> 'w client" where
  "read_groups env [] acc s = (Inr acc, s)"
| "read_groups env (g # gs) acc s =
     (if client_closing env s then (Inl ShutdownAbort, s)
      else case (if length g = 1 then read_each env g acc s else read_group env g acc s) of
        (Inr acc1, s1) \<Rightarrow> read_groups env gs acc1 s1
      | (Inl e, s1) \<Rightarrow> (Inl e, s1))"

definition read_registers_batch ::
    "'w env \<Rightarrow> modbus_register list \<Rightarrow> 'w client
     \<Rightarrow> (modbus_error + (string \<times> pyval) list) \<times> 'w client" where
  "read_registers_batch env registers s =
     (if registers = [] then (Inr [], s)
      else let (groups, s1) = group_loop env (sort_key rg_address registers) [] [] s
        in read_groups env groups [] s1)"

section \<open>Values that reads return\<close>

definition quality_ok :: "modbus_register \<Rightarrow> pyval \<Rightarrow> bool" where
  "quality_ok r v \<longleftrightarrow>
     (rg_address r = 575 \<longrightarrow> (case int_of_val v of Inr n \<Rightarrow> n < 32767 | Inl _ \<Rightarrow> True))
     \<and> (is_number v \<longrightarrow> (case float_of_val v of Inl _ \<Rightarrow> False | Inr x \<Rightarrow>
          is_finite x \<and> (rg_address r \<in> set OUTLIER_EXEMPT_ADDRESSES
            \<or> \<not> flt (abs_limit r) (fabs x) \<and> \<not> (energy_counter r \<and> flt x (FFin 0)))))"

text \<open>Every remembered value passed the filter of the register at its address.\<close>

definition good_inv :: "'w client \<Rightarrow> bool" where
  "good_inv s \<longleftrightarrow> (\<forall>a v. cl_last_good s a = Some v \<longrightarrow>
     (\<forall>r\<in>set ALL_REGISTERS. rg_address r = a \<longrightarrow> quality_ok r v))"

lemma good_inv_cong: "cl_last_good s' = cl_last_good s \<Longrightarrow> good_inv s \<Longrightarrow> good_inv s'"
  by (simp add: good_inv_def)

lemma finite_iff: "is_finite x \<longleftrightarrow> \<not> is_nan x \<and> \<not> is_inf x"
  by (cases x) (auto simp: is_nan_def is_inf_def)

lemma keep_or_refuse_good:
  assumes "keep_or_refuse (rg_address r) s = (Inr v, s1)" "good_inv s" "r \<in> set ALL_REGISTERS"
  shows "quality_ok r v"
  using assms by (auto simp: keep_or_refuse_def good_inv_def split: option.splits if_splits)

lemma keep_or_refuse_last_good [simp]:
  "cl_last_good (snd (keep_or_refuse a s)) = cl_last_good s"
  by (auto simp: keep_or_refuse_def retained_add_def split: option.splits)

lemma outlier_guard_last_good [simp]:
  "cl_last_good (snd (outlier_guard r v s)) = cl_last_good s"
  by (auto simp: outlier_guard_def Let_def split: sum.splits)

lemma quality_filter_last_good [simp]:
  "cl_last_good (snd (apply_quality_filter r v s)) = cl_last_good s"
  by (auto simp: apply_quality_filter_def Let_def split: sum.splits)

lemma outlier_guard_good:
  assumes "outlier_guard r v s = (Inr v', s1)" "good_inv s" "r \<in> set ALL_REGISTERS"
    "rg_address r = 575 \<longrightarrow> (case int_of_val v of Inr n \<Rightarrow> n < 32767 | Inl _ \<Rightarrow> True)"
  shows "quality_ok r v'"
proof (cases "outlier_guard r v s = keep_or_refuse (rg_address r) s")
  case True
  then show ?thesis using assms keep_or_refuse_good by metis
next
  case False
  then have "v' = v \<and> (is_number v \<longrightarrow> (case float_of_val v of Inl _ \<Rightarrow> False | Inr x \<Rightarrow>
      is_finite x \<and> (rg_address r \<in> set OUTLIER_EXEMPT_ADDRESSES
        \<or> \<not> flt (abs_limit r) (fabs x) \<and> \<not> (energy_counter r \<and> flt x (FFin 0)))))"
    using assms(1) unfolding outlier_guard_def Let_def finite_iff
    by (cases "is_number v"; cases "float_of_val v") (simp_all split: if_split_asm)
  then show ?thesis using assms(4) by (simp add: quality_ok_def)
qed

lemma quality_filter_good:
  assumes "apply_quality_filter r v s = (Inr v', s1)" "good_inv s" "r \<in> set ALL_REGISTERS"
  shows "quality_ok r v'"
proof -
  let ?s = "s\<lparr>cl_retained := cl_retained s - {rg_address r}\<rparr>"
  have i: "good_inv ?s" using assms(2) by (simp add: good_inv_def)
  consider "apply_quality_filter r v s = keep_or_refuse (rg_address r) ?s"
    | "apply_quality_filter r v s = outlier_guard r v ?s"
      "rg_address r = 575 \<longrightarrow> (case int_of_val v of Inr n \<Rightarrow> n < 32767 | Inl _ \<Rightarrow> True)"
    using assms(1)
    by (cases "rg_address r = 575"; cases "int_of_val v")
       (auto simp: apply_quality_filter_def Let_def not_le split: if_splits)
  then show ?thesis
  proof cases
    case 1
    then show ?thesis using assms i keep_or_refuse_good by metis
  next
    case 2
    then show ?thesis using assms i outlier_guard_good by metis
  qed
qed

text \<open>What leaves the remembered values alone.\<close>

lemma frame_last_good [simp]:
  "cl_last_good (log_io e w s) = cl_last_good s"
  "cl_last_good (client_sleep env t s) = cl_last_good s"
  "cl_last_good (snd (is_suppressed env a s)) = cl_last_good s"
  "cl_last_good (record_unavailable_strike env a s) = cl_last_good s"
  "cl_last_good (pop_strikes a s) = cl_last_good s"
  by (auto simp: log_io_def client_sleep_def is_suppressed_def record_unavailable_strike_def
      pop_strikes_def Let_def split: option.splits)

lemma connect_last_good [simp]: "cl_last_good (snd (client_connect env s)) = cl_last_good s"
  by (auto simp: client_connect_def Let_def split: prod.splits conn_result.splits)

lemma reconnect_last_good [simp]: "cl_last_good (snd (client_reconnect env s)) = cl_last_good s"
  by (auto simp: client_reconnect_def client_disconnect_def)

lemma raw_read_inner_last_good [simp]:
  "cl_last_good (snd (raw_read_inner env a n s)) = cl_last_good s"
  by (auto simp: raw_read_inner_def Let_def split: prod.splits read_result.splits)

lemma raw_read_last_good [simp]: "cl_last_good (snd (raw_read env a n s)) = cl_last_good s"
  by (auto simp: raw_read_def with_scheduler_def Let_def split: prod.splits)

lemma sbind_last_good:
  assumes "cl_last_good (snd (m s)) = cl_last_good s"
    "\<And>a s'. cl_last_good (snd (k a s')) = cl_last_good s'"
  shows "cl_last_good (snd (sbind m k s)) = cl_last_good s"
  using assms by (cases "m s"; cases "fst (m s)") (auto simp: sbind_def)

lemma detect_last_good [simp]: "cl_last_good (snd (detect_endianness env s)) = cl_last_good s"
  unfolding detect_endianness_def
  by (rule sbind_last_good) (auto simp: Let_def split: sum.splits)

lemma read_recover_last_good [simp]: "cl_last_good (snd (read_recover env s)) = cl_last_good s"
  unfolding read_recover_def
  by (rule sbind_last_good) (auto intro!: sbind_last_good)

text \<open>A step keeps the invariant and only returns values that passed the filter.\<close>

definition keeps_good :: "modbus_register \<Rightarrow> (modbus_error + pyval) \<times> 'w client \<Rightarrow> bool" where
  "keeps_good r p \<longleftrightarrow> good_inv (snd p) \<and> (case fst p of Inr v \<Rightarrow> quality_ok r v | Inl _ \<Rightarrow> True)"

lemma store_filtered_good:
  assumes "good_inv s" "quality_ok r v" "r \<in> set ALL_REGISTERS"
  shows "good_inv (store_filtered r g v s)"
proof -
  have "q = r" if "q \<in> set ALL_REGISTERS" "rg_address q = rg_address r" for q
    using that assms(3) REGISTER_BY_ADDRESS_address by (metis option.inject)
  then show ?thesis using assms by (auto simp: good_inv_def store_filtered_def Let_def)
qed

lemma accept_bytes_good:
  assumes "good_inv s" "r \<in> set ALL_REGISTERS"
  shows "keeps_good r (accept_bytes r raw s)"
proof (cases "decode_register (cl_endianness s) raw r")
  case (Inl e)
  then show ?thesis using assms by (simp add: accept_bytes_def keeps_good_def)
next
  case (Inr d)
  obtain x s1 where f: "apply_quality_filter r d s = (x, s1)" by fastforce
  then have i: "good_inv s1"
    using quality_filter_last_good [of r d s] by (intro good_inv_cong [OF _ assms(1)]) simp
  show ?thesis
  proof (cases x)
    case (Inl e)
    then show ?thesis using Inr f i by (simp add: accept_bytes_def keeps_good_def)
  next
    case (Inr v)
    then have q: "quality_ok r v" using f assms quality_filter_good by blast
    then show ?thesis using \<open>decode_register _ _ _ = Inr d\<close> f i Inr assms
      by (simp add: accept_bytes_def keeps_good_def store_filtered_good)
  qed
qed

lemma accept_batch_good:
  assumes "good_inv s" "r \<in> set ALL_REGISTERS"
  shows "keeps_good r (accept_batch r g raw s)"
proof (cases "decode_register (cl_endianness s) raw r")
  case (Inl e)
  then show ?thesis using assms by (simp add: accept_batch_def keeps_good_def)
next
  case (Inr d)
  obtain x s1 where f: "apply_quality_filter r d s = (x, s1)" by fastforce
  then have i: "good_inv s1"
    using quality_filter_last_good [of r d s] by (intro good_inv_cong [OF _ assms(1)]) simp
  show ?thesis
  proof (cases x)
    case (Inl e)
    then show ?thesis using Inr f i by (simp add: accept_batch_def keeps_good_def)
  next
    case (Inr v)
    then have q: "quality_ok r v" using f assms quality_filter_good by blast
    have "good_inv (pop_strikes (rg_address r) (store_filtered r g v s1))"
      by (rule good_inv_cong [OF frame_last_good(5)]) (simp add: store_filtered_good i q assms)
    then show ?thesis using \<open>decode_register _ _ _ = Inr d\<close> f Inr q
      by (simp add: accept_batch_def keeps_good_def)
  qed
qed

lemma read_once_good:
  assumes "good_inv s" "r \<in> set ALL_REGISTERS"
  shows "keeps_good r (read_once env r s)"
proof -
  obtain x s1 where f: "raw_read env (rg_address r) (rg_count r) s = (x, s1)" by fastforce
  then have i: "good_inv s1"
    using raw_read_last_good [of env "rg_address r" "rg_count r" s]
    by (intro good_inv_cong [OF _ assms(1)]) simp
  have "good_inv (pop_strikes (rg_address r) s1)" by (rule good_inv_cong [OF _ i]) simp
  then show ?thesis using f i accept_bytes_good [OF \<open>good_inv (pop_strikes _ s1)\<close> assms(2)]
    by (cases x) (simp_all add: read_once_def sbind_def keeps_good_def)
qed

lemma read_loop_good:
  assumes "good_inv s" "r \<in> set ALL_REGISTERS"
  shows "keeps_good r (read_loop left env r s)"
  using assms(1)
proof (induction left arbitrary: s)
  case (0 s)
  have k: "keeps_good r (read_once env r s)" by (rule read_once_good [OF 0 assms(2)])
  obtain x s1 where f: "read_once env r s = (x, s1)" by fastforce
  have i: "good_inv s1" using k f by (simp add: keeps_good_def)
  have "good_inv (record_unavailable_strike env (rg_address r) s1)"
    by (rule good_inv_cong [OF _ i]) simp
  then show ?case using k f i
    by (cases x; cases "projl x") (simp_all add: read_loop_0 keeps_good_def)
next
  case (Suc left s)
  have k: "keeps_good r (read_once env r s)" by (rule read_once_good [OF Suc.prems assms(2)])
  obtain x s1 where f: "read_once env r s = (x, s1)" by fastforce
  have i: "good_inv s1" using k f by (simp add: keeps_good_def)
  have j: "good_inv (record_unavailable_strike env (rg_address r) s1)"
    by (rule good_inv_cong [OF _ i]) simp
  have sl: "keeps_good r (read_loop left env r (client_sleep env t s1))" for t
    by (rule Suc.IH, rule good_inv_cong [OF _ i]) simp
  obtain y s2 where g: "read_recover env s1 = (y, s2)" by fastforce
  have i2: "good_inv s2"
    using read_recover_last_good [of env s1] g by (intro good_inv_cong [OF _ i]) simp
  have rc: "keeps_good r (read_loop left env r s2)" by (rule Suc.IH [OF i2])
  have rec: "keeps_good r (case read_recover env s1 of
      (Inr _, s2) \<Rightarrow> read_loop left env r s2
    | (Inl e2, s2) \<Rightarrow> if is_conn_error e2 then read_loop left env r s2 else (Inl e2, s2))"
    using g i2 rc by (cases y) (simp_all add: keeps_good_def)
  show ?case
  proof (cases x)
    case (Inr v)
    then show ?thesis using k f by (simp add: read_loop_Suc keeps_good_def)
  next
    case (Inl e)
    show ?thesis using f i j sl rec Inl
      by (cases e) (simp_all add: read_loop_Suc keeps_good_def is_conn_error_def)
  qed
qed

lemma read_register_good:
  assumes "good_inv s" "r \<in> set ALL_REGISTERS"
  shows "keeps_good r (read_register env r s)"
proof -
  obtain b s1 where f: "is_suppressed env (rg_address r) (s\<lparr>cl_last_exc_code := None\<rparr>) = (b, s1)"
    by fastforce
  then have "cl_last_good s1 = cl_last_good s"
    using frame_last_good(3) [of env "rg_address r" "s\<lparr>cl_last_exc_code := None\<rparr>"] by simp
  then have i: "good_inv s1" by (rule good_inv_cong [OF _ assms(1)])
  then show ?thesis using f read_loop_good [OF i assms(2)]
    by (simp add: read_register_def keeps_good_def)
qed

text \<open>The same for the dictionaries that the batch reads return.\<close>

definition good_dict :: "modbus_register list \<Rightarrow> (string \<times> pyval) list \<Rightarrow> bool" where
  "good_dict regs d \<longleftrightarrow> (\<forall>(n, v)\<in>set d. \<exists>r\<in>set regs. rg_name r = n \<and> quality_ok r v)"

definition keeps_good_dict ::
    "modbus_register list \<Rightarrow> (modbus_error + (string \<times> pyval) list) \<times> 'w client \<Rightarrow> bool" where
  "keeps_good_dict regs p \<longleftrightarrow>
     good_inv (snd p) \<and> (case fst p of Inr d \<Rightarrow> good_dict regs d | Inl _ \<Rightarrow> True)"

lemma set_dict_set: "set (dict_set k v d) \<subseteq> insert (k, v) (set d)"
  by (induction k v d rule: dict_set.induct) auto

lemma good_dict_set:
  "good_dict regs d \<Longrightarrow> r \<in> set regs \<Longrightarrow> quality_ok r v \<Longrightarrow> good_dict regs (dict_set (rg_name r) v d)"
  using set_dict_set [of "rg_name r" v d] unfolding good_dict_def by fastforce

lemma read_each_good:
  assumes "good_inv s" "set rs \<subseteq> set regs" "set rs \<subseteq> set ALL_REGISTERS" "good_dict regs acc"
  shows "keeps_good_dict regs (read_each env rs acc s)"
  using assms
proof (induction env rs acc s rule: read_each.induct)
  case (1 env acc s)
  then show ?case by (simp add: keeps_good_dict_def)
next
  case (2 env r rs acc s)
  obtain x s1 where f: "read_register env r s = (x, s1)" by fastforce
  have k: "keeps_good r (x, s1)"
    using read_register_good [of s r env] 2 f by simp
  show ?case
  proof (cases x)
    case (Inl e)
    then show ?thesis using 2 f k by (simp add: keeps_good_def keeps_good_dict_def)
  next
    case (Inr v)
    then show ?thesis using 2 f k good_dict_set [of regs acc r v] by (simp add: keeps_good_def)
  qed
qed

lemma decode_group_good:
  assumes "good_inv s" "set rs \<subseteq> set regs" "set rs \<subseteq> set ALL_REGISTERS" "good_dict regs acc"
  shows "keeps_good_dict regs (decode_group g raw off rs acc s)"
  using assms
proof (induction g raw off rs acc s rule: decode_group.induct)
  case (1 g raw off acc s)
  then show ?case by (simp add: keeps_good_dict_def)
next
  case (2 g raw off r rs acc s)
  let ?b = "take (rg_count r * 2) (drop (off * 2) raw)"
  obtain x s1 where f: "accept_batch r g ?b s = (x, s1)" by fastforce
  have k: "keeps_good r (x, s1)"
    using accept_batch_good [of s r g ?b] 2 f by simp
  show ?case
  proof (cases x)
    case (Inl e)
    then show ?thesis using 2 f k by (simp add: keeps_good_def keeps_good_dict_def Let_def)
  next
    case (Inr v)
    then show ?thesis using 2 f k good_dict_set [of regs acc r v]
      by (simp add: keeps_good_def Let_def)
  qed
qed

lemma read_group_good:
  assumes "good_inv s" "set rs \<subseteq> set regs" "set rs \<subseteq> set ALL_REGISTERS" "good_dict regs acc"
  shows "keeps_good_dict regs (read_group env rs acc s)"
proof -
  obtain x s1 where f: "raw_read env (rg_address (hd rs)) (total_words rs) s = (x, s1)" by fastforce
  have i: "good_inv s1"
    using raw_read_last_good [of env "rg_address (hd rs)" "total_words rs" s] f
    by (intro good_inv_cong [OF _ assms(1)]) simp
  show ?thesis
    using f i read_each_good [OF i assms(2-4)] decode_group_good [OF i assms(2-4)]
    by (cases x) (simp_all add: read_group_def keeps_good_dict_def)
qed

lemma read_groups_good:
  assumes "good_inv s" "\<forall>g\<in>set gs. set g \<subseteq> set regs \<and> set g \<subseteq> set ALL_REGISTERS" "good_dict regs acc"
  shows "keeps_good_dict regs (read_groups env gs acc s)"
  using assms
proof (induction gs arbitrary: acc s)
  case Nil
  then show ?case by (simp add: keeps_good_dict_def)
next
  case (Cons g gs)
  define p where "p = (if length g = 1 then read_each env g acc s else read_group env g acc s)"
  have k: "keeps_good_dict regs p"
    unfolding p_def using Cons.prems by (simp add: read_each_good read_group_good)
  obtain x s1 where f: "p = (x, s1)" by fastforce
  show ?case
  proof (cases "client_closing env s")
    case True
    then show ?thesis using Cons.prems by (simp add: keeps_good_dict_def)
  next
    case False
    then have "read_groups env (g # gs) acc s = (case p of (Inr acc1, s1) \<Rightarrow> read_groups env gs acc1 s1
      | (Inl e, s1) \<Rightarrow> (Inl e, s1))"
      by (simp add: p_def)
    moreover have "keeps_good_dict regs (read_groups env gs acc1 s1)" if "x = Inr acc1" for acc1
      using Cons k f that by (simp add: keeps_good_dict_def)
    ultimately show ?thesis using k f by (cases x) (simp_all add: keeps_good_dict_def)
  qed
qed

lemma group_loop_subset:
  "\<Union> (set ` set (fst (group_loop env rs groups cur s))) \<subseteq> set rs \<union> set cur \<union> \<Union> (set ` set groups)"
proof (induction rs arbitrary: groups cur s)
  case (Cons r rs)
  obtain b s1 where f: "is_suppressed env (rg_address r) s = (b, s1)" by fastforce
  show ?case
    unfolding group_loop.simps f Let_def prod.case
    by (cases b; cases "cur = []"; cases "rg_address r = rg_address (last cur) + rg_count (last cur)";
        simp only: if_True if_False refl simp_thms)
       (rule order_trans [OF Cons.IH]; force)+
qed simp

lemma group_loop_last_good [simp]:
  "cl_last_good (snd (group_loop env rs groups cur s)) = cl_last_good s"
proof (induction rs arbitrary: groups cur s)
  case (Cons r rs)
  obtain b s1 where f: "is_suppressed env (rg_address r) s = (b, s1)" by fastforce
  then have "cl_last_good s1 = cl_last_good s"
    using frame_last_good(3) [of env "rg_address r" s] by simp
  then show ?case using Cons f by simp
qed simp

lemma batch_good:
  assumes "good_inv s" "set regs \<subseteq> set ALL_REGISTERS"
  shows "keeps_good_dict regs (read_registers_batch env regs s)"
proof (cases "regs = []")
  case True
  then show ?thesis using assms by (simp add: read_registers_batch_def keeps_good_dict_def good_dict_def)
next
  case False
  obtain gs s1 where f: "group_loop env (sort_key rg_address regs) [] [] s = (gs, s1)" by fastforce
  have i: "good_inv s1"
    using group_loop_last_good [of env "sort_key rg_address regs" "[]" "[]" s] f
    by (intro good_inv_cong [OF _ assms(1)]) simp
  have "\<forall>g\<in>set gs. set g \<subseteq> set regs \<and> set g \<subseteq> set ALL_REGISTERS"
    using group_loop_subset [of env "sort_key rg_address regs" "[]" "[]" s] f assms(2) by auto
  then show ?thesis
    using False f read_groups_good [OF i, of gs regs "[]" env]
    by (simp add: read_registers_batch_def good_dict_def)
qed

text \<open>
  Every read operation of the client, as one datatype, and a run of them.
\<close>

datatype read_op = ReadOne modbus_register | ReadBatch "modbus_register list"

fun do_read :: "'w env \<Rightarrow> read_op \<Rightarrow> 'w client \<Rightarrow> (modbus_error + (string \<times> pyval) list) \<times> 'w client" where
  "do_read env (ReadOne r) s = (case read_register env r s of
     (Inr v, s1) \<Rightarrow> (Inr [(rg_name r, v)], s1) | (Inl e, s1) \<Rightarrow> (Inl e, s1))"
| "do_read env (ReadBatch rs) s = read_registers_batch env rs s"

fun op_registers :: "read_op \<Rightarrow> modbus_register list" where
  "op_registers (ReadOne r) = [r]"
| "op_registers (ReadBatch rs) = rs"

lemma do_read_good:
  assumes "good_inv s" "set (op_registers op) \<subseteq> set ALL_REGISTERS"
  shows "keeps_good_dict (op_registers op) (do_read env op s)"
proof (cases op)
  case (ReadOne r)
  obtain x s1 where f: "read_register env r s = (x, s1)" by fastforce
  then show ?thesis using assms ReadOne read_register_good [of s r env]
    by (cases x) (simp_all add: keeps_good_def keeps_good_dict_def good_dict_def)
next
  case (ReadBatch rs)
  then show ?thesis using assms batch_good [of s rs env] by simp
qed

definition read_run :: "'w env \<Rightarrow> read_op list \<Rightarrow> 'w client \<Rightarrow> 'w client" where
  "read_run env ops s = foldl (\<lambda>s op. snd (do_read env op s)) s ops"

lemma read_run_good:
  assumes "good_inv s" "\<forall>op\<in>set ops. set (op_registers op) \<subseteq> set ALL_REGISTERS"
  shows "good_inv (read_run env ops s)"
  using assms
proof (induction ops arbitrary: s)
  case (Cons op ops)
  have "good_inv (snd (do_read env op s))"
    using do_read_good [of s op env] Cons.prems by (simp add: keeps_good_dict_def)
  then show ?case using Cons by (simp add: read_run_def)
qed (simp add: read_run_def)

lemma client_new_good [simp]: "good_inv (client_new e p w)"
  by (simp add: good_inv_def client_new_def)

text \<open>C14: Whatever reads ran before, whatever the device, the connection and the scheduler did, every
  value that a read or a batch read returns has passed its register's quality filter: it is
  finite, within the register's outlier limit, not negative for a Wh counter and not the
  sentinel of register 575. Values kept from earlier reads are no exception.\<close>

theorem read_values_in_range:
  "\<forall>op\<in>set ops. set (op_registers op) \<subseteq> set ALL_REGISTERS \<Longrightarrow>
   set (op_registers op) \<subseteq> set ALL_REGISTERS \<Longrightarrow>
   fst (do_read env op (read_run env ops (client_new endianness policy w))) = Inr d \<Longrightarrow>
   (n, v) \<in> set d \<Longrightarrow> \<exists>r\<in>set (op_registers op). rg_name r = n \<and> quality_ok r v"
  using do_read_good [OF read_run_good [OF client_new_good [of endianness policy w], of ops env],
      of op env]
  by (auto simp: keeps_good_dict_def good_dict_def)

text \<open>A device that is a memory: always connected, every request answered.\<close>

definition mem_env :: "(nat \<Rightarrow> 16 word) env" where
  "mem_env = \<lparr>ev_connect = (\<lambda>w. (ConnOk, w)), ev_connected = (\<lambda>w. True),
     ev_read = (\<lambda>a n w. (RResp (map w [a ..< a + n]), w)),
     ev_write = (\<lambda>single a ws w. (WOk, \<lambda>i. if a \<le> i \<and> i < a + length ws then ws ! (i - a) else w i)),
     ev_sleep = (\<lambda>t w. w), ev_now = (\<lambda>w. 0), ev_closing = (\<lambda>w. False), ev_sched = (\<lambda>w. (True, w))\<rparr>"

lemma mem_env_sel [simp]:
  "ev_connect mem_env w = (ConnOk, w)" "ev_connected mem_env w" "ev_sleep mem_env t w = w"
  "ev_read mem_env a n w = (RResp (map w [a ..< a + n]), w)" "ev_now mem_env w = 0"
  "\<not> ev_closing mem_env w" "ev_sched mem_env w = (True, w)"
  by (simp_all add: mem_env_def)

lemma mem_raw_read:
  assumes "\<not> cl_closing s" "cl_has_client s"
  shows "raw_read mem_env a n s = (Inr (words_bytes (map (cl_world s) [a ..< a + n])),
    log_io (IORead a n (RResp (map (cl_world s) [a ..< a + n]))) (cl_world s) s)"
  using assms
  by (simp add: raw_read_def with_scheduler_def raw_read_inner_def client_closing_def
      client_connected_def)

lemma read_byte_order_example:
  "fst (do_read mem_env (ReadOne REG_BYTE_ORDER) (client_new ''little'' ''keep_last'' (\<lambda>a. if a = 5 then 1 else 0)))
     = Inr [(''byte_order'', VInt 1)]"
proof -
  define s :: "(nat \<Rightarrow> 16 word) client"
    where "s = client_new ''little'' ''keep_last'' (\<lambda>a. if a = 5 then 1 else 0)"
  have r0: "raw_read mem_env 5 1 s = (Inl ConnectionError, s)"
    by (simp add: raw_read_def with_scheduler_def raw_read_inner_def client_closing_def
        client_connected_def s_def client_new_def)
  have u: "unpack_uint 2 (words_bytes [1]) = Inr 1"
    by (simp add: words_bytes_def unpack_uint_def)
  define t where "t = log_io (IORead 5 1 (RResp [1])) (cl_world s)
    (log_io (IOConnect ConnOk) (cl_world s) s\<lparr>cl_has_client := True, cl_generation := 1\<rparr>)
      \<lparr>cl_endianness := ''big'', cl_endianness_confirmed := True\<rparr>"
  have rec: "read_recover mem_env s = (Inr (), t)"
    by (simp add: read_recover_def sbind_def client_reconnect_def client_connect_def
        client_disconnect_def client_closing_def client_connected_def detect_endianness_def
        REG_BYTE_ORDER_def mem_raw_read log_io_def s_def client_new_def t_def u Let_def)
  have ok: "fst (read_once mem_env REG_BYTE_ORDER t) = Inr (VInt 1)"
    by (simp add: read_once_def sbind_def mem_raw_read float_of_int_def
        REG_BYTE_ORDER_def t_def s_def client_new_def log_io_def accept_bytes_def pop_strikes_def
        decode_register_def u words_bytes_def unpack_uint_def apply_quality_filter_def
        outlier_guard_def is_nan_def is_inf_def Let_def
        mk_float_of_int [of 1, simplified] abs_limit_def OUTLIER_ABS_LIMIT_OVERRIDES_def
        OUTLIER_ABS_LIMIT_DEFAULT_def energy_counter_def store_filtered_def)
  then have l1: "fst (read_loop (Suc 0) mem_env REG_BYTE_ORDER t) = Inr (VInt 1)"
    by (cases "read_once mem_env REG_BYTE_ORDER t") (simp add: read_loop_Suc)
  have s0: "s\<lparr>cl_last_exc_code := None\<rparr> = s" "\<not> client_closing mem_env s"
    "is_suppressed mem_env 5 s = (False, s)"
    by (simp_all add: s_def client_new_def client_closing_def is_suppressed_def)
  have "read_once mem_env REG_BYTE_ORDER s = (Inl ConnectionError, s)"
    using r0 by (simp add: read_once_def sbind_def REG_BYTE_ORDER_def)
  then have "fst (read_loop (Suc (Suc 0)) mem_env REG_BYTE_ORDER s) = Inr (VInt 1)"
    using l1 rec s0 by (subst read_loop_Suc) (simp add: is_conn_error_def)
  then have "fst (read_register mem_env REG_BYTE_ORDER s) = Inr (VInt 1)"
    using s0 by (simp add: read_register_def MAX_RETRIES_def numeral_2_eq_2 REG_BYTE_ORDER_def)
  then show ?thesis
    unfolding s_def [symmetric]
    by (cases "read_register mem_env REG_BYTE_ORDER s") (simp add: REG_BYTE_ORDER_def)
qed

theorem read_values_in_range_witness:
  "\<exists>r. rg_name r = ''byte_order'' \<and> quality_ok r (VInt 1)"
proof -
  have m: "REG_BYTE_ORDER \<in> set ALL_REGISTERS" by (simp add: ALL_REGISTERS_def)
  show ?thesis
    using read_values_in_range [of "[]" "ReadOne REG_BYTE_ORDER" mem_env "''little''" "''keep_last''"
      "\<lambda>a. if a = 5 then 1 else 0" "[(''byte_order'', VInt 1)]" "''byte_order''" "VInt 1"]
      read_byte_order_example m
    by (auto simp: read_run_def simp del: do_read.simps)
qed

end
