(* ===== verification/ClientWrites.thy ===== *)
theory ClientWrites
  imports ModbusClient
begin

text \<open>
  What \<open>write_register\<close> sends: the write requests in the client's trace, for every
  behaviour of the connection, and a run in which a retry sends bytes in a word order that
  the client itself has just found to be wrong.
\<close>

section \<open>The writes of a trace\<close>

fun io_writes :: "io list \<Rightarrow> (nat \<times> 16 word list \<times> write_result) list" where
  "io_writes [] = []"
| "io_writes (IOWrite a ws r # t) = (a, ws, r) # io_writes t"
| "io_writes (_ # t) = io_writes t"

definition writes :: "'w client \<Rightarrow> (nat \<times> 16 word list \<times> write_result) list" where
  "writes s = io_writes (cl_trace s)"

lemma writes_update [simp]:
  "writes (s\<lparr>cl_has_client := a\<rparr>) = writes s" "writes (s\<lparr>cl_generation := b\<rparr>) = writes s"
  "writes (s\<lparr>cl_endianness := c\<rparr>) = writes s" "writes (s\<lparr>cl_endianness_confirmed := d\<rparr>) = writes s"
  "writes (s\<lparr>cl_last_exc_code := e\<rparr>) = writes s" "writes (s\<lparr>cl_device_failure_count := f\<rparr>) = writes s"
  "writes (s\<lparr>cl_world := w\<rparr>) = writes s"
  by (simp_all add: writes_def)

lemma writes_log [simp]:
  "writes (log_io (IORead a n r) w s) = writes s" "writes (log_io (IOConnect c) w s) = writes s"
  "writes (log_io (IOSleep t) w s) = writes s"
  "writes (log_io (IOWrite a ws x) w s) = (a, ws, x) # writes s"
  by (simp_all add: writes_def log_io_def)

lemma writes_sleep [simp]: "writes (client_sleep env t s) = writes s"
  by (simp add: client_sleep_def)

lemma writes_connect [simp]: "writes (snd (client_connect env s)) = writes s"
  by (simp add: client_connect_def Let_def split: prod.splits conn_result.splits)

lemma writes_reconnect [simp]: "writes (snd (client_reconnect env s)) = writes s"
  by (simp add: client_reconnect_def client_disconnect_def)

lemma writes_raw_read [simp]: "writes (snd (raw_read env a n s)) = writes s"
  by (simp add: raw_read_def with_scheduler_def raw_read_inner_def Let_def
      split: prod.splits read_result.splits)

lemma writes_sbind:
  assumes "writes (snd (m s)) = writes s" "\<And>a s'. writes (snd (k a s')) = writes s'"
  shows "writes (snd (sbind m k s)) = writes s"
  using assms by (cases "m s"; cases "fst (m s)") (auto simp: sbind_def)

lemma writes_detect [simp]: "writes (snd (detect_endianness env s)) = writes s"
  unfolding detect_endianness_def by (rule writes_sbind) (auto simp: Let_def split: sum.splits)

lemma writes_recover [simp]: "writes (snd (write_recover env s)) = writes s"
  unfolding write_recover_def by (rule writes_sbind) (auto intro!: writes_sbind)

section \<open>One raw write\<close>

text \<open>Two bytes per word, as many words as the register has.\<close>

lemma bytes_words_words_bytes: "bytes_words bs = Inr ws \<Longrightarrow> words_bytes ws = bs"
proof (induction bs arbitrary: ws rule: bytes_words.induct)
  case (3 a b bs)
  then obtain vs where v: "bytes_words bs = Inr vs" "ws = word_of_int (unpack_be [a, b]) # vs"
    by (auto simp: bind_res_Inr_iff)
  have u: "0 \<le> unpack_be [a, b]" "unpack_be [a, b] < 65536"
    using unpack_be_bounds [of "[a, b]"] by simp_all
  then have "pack_be 2 (uint (word_of_int (unpack_be [a, b]) :: 16 word)) = pack_be 2 (unpack_be [a, b])"
    by (simp add: uint_word_of_int)
  also have "\<dots> = [a, b]" using pack_unpack_be [of "[a, b]"] by (simp add: numeral_2_eq_2)
  finally show ?case using 3 v by (simp add: words_bytes_def)
qed (simp_all add: words_bytes_def)

lemma length_bytes_words: "bytes_words bs = Inr ws \<Longrightarrow> length bs = 2 * length ws"
  by (induction bs arbitrary: ws rule: bytes_words.induct) (auto simp: bind_res_Inr_iff)

text \<open>
  After a raw write of \<open>encoded\<close> at \<open>a\<close>, the trace has at most one more write; it carries the
  bytes, and the result is a success exactly when it was acknowledged.
\<close>

definition wrote :: "nat \<Rightarrow> nat \<Rightarrow> byte list \<Rightarrow> 'w client \<Rightarrow> (modbus_error + unit) \<times> 'w client \<Rightarrow> bool" where
  "wrote n a encoded s p \<longleftrightarrow> (\<exists>ws. writes (snd p) = ws @ writes s \<and> length ws \<le> n
     \<and> (\<forall>x\<in>set ws. fst x = a \<and> words_bytes (fst (snd x)) = encoded)
     \<and> length (filter (\<lambda>x. snd (snd x) = WOk) ws) = (if is_ok (fst p) then 1 else 0))"

lemma raw_write_wrote:
  assumes "length encoded = 2 * n"
  shows "wrote 1 a encoded s (raw_write env a encoded n s)"
proof -
  obtain ok w where sch: "ev_sched env (cl_world s) = (ok, w)" by fastforce
  let ?s = "s\<lparr>cl_world := w\<rparr>"
  have "wrote 1 a encoded ?s (raw_write_inner env a encoded n ?s)"
  proof (cases "client_closing env ?s \<or> \<not> client_connected env ?s")
    case True
    then show ?thesis by (auto simp: raw_write_inner_def wrote_def)
  next
    case False
    show ?thesis
    proof (cases "bytes_words encoded")
      case (Inl e)
      then show ?thesis using False by (simp add: raw_write_inner_def wrote_def)
    next
      case (Inr ws)
      have l: "length ws = n" using length_bytes_words [OF Inr] assms by simp
      then have h: "(if n = 1 then [hd ws] else ws) = ws" "\<not> (n = 1 \<and> ws = [])"
        by (cases ws; auto)+
      obtain r w' where e: "ev_write env (n = 1) a ws w = (r, w')" by fastforce
      then show ?thesis using False Inr h bytes_words_words_bytes [OF Inr]
        by (cases r) (simp_all add: raw_write_inner_def wrote_def Let_def)
    qed
  qed
  then show ?thesis
    by (cases ok) (simp_all add: raw_write_def with_scheduler_def sch Let_def wrote_def)
qed

lemma wrote_0: "writes (snd p) = writes s \<Longrightarrow> \<not> is_ok (fst p) \<Longrightarrow> wrote n a b s p"
  by (simp add: wrote_def)

lemma wrote_chain:
  assumes "wrote m a b s p" "\<not> is_ok (fst p)" "writes s2 = writes (snd p)" "wrote n a b s2 q"
  shows "wrote (m + n) a b s q"
proof -
  obtain ws where w: "writes (snd p) = ws @ writes s" "length ws \<le> m"
    "\<forall>x\<in>set ws. fst x = a \<and> words_bytes (fst (snd x)) = b"
    "length (filter (\<lambda>x. snd (snd x) = WOk) ws) = 0"
    using assms(1,2) by (auto simp: wrote_def)
  obtain vs where v: "writes (snd q) = vs @ writes s2" "length vs \<le> n"
    "\<forall>x\<in>set vs. fst x = a \<and> words_bytes (fst (snd x)) = b"
    "length (filter (\<lambda>x. snd (snd x) = WOk) vs) = (if is_ok (fst q) then 1 else 0)"
    using assms(4) by (auto simp: wrote_def)
  show ?thesis
    unfolding wrote_def by (rule exI [of _ "vs @ ws"]) (use w v assms(3) in auto)
qed

lemma wrote_mono: "wrote m a b s p \<Longrightarrow> m \<le> n \<Longrightarrow> wrote n a b s p"
  unfolding wrote_def by (meson le_trans)

section \<open>The retry loop\<close>

lemma write_loop_wrote:
  assumes "length encoded = 2 * rg_count r"
  shows "wrote (if retry_allowed left pre s then Suc left else 0) (rg_address r) encoded s
           (write_loop left env r encoded pre s)"
proof (induction left arbitrary: s)
  case 0
  obtain x s1 where f: "raw_write env (rg_address r) encoded (rg_count r) s = (x, s1)" by fastforce
  have w: "wrote 1 (rg_address r) encoded s (x, s1)"
    using raw_write_wrote [OF assms, of "rg_address r" s env] f by simp
  have w': "wrote 1 (rg_address r) encoded s (Inl e', s1)" if "x = Inl e" for e e'
    using w that by (simp add: wrote_def)
  show ?case
  proof (cases "retry_allowed 0 pre s")
    case False
    then show ?thesis by (simp add: write_loop_0 wrote_0)
  next
    case True
    show ?thesis
    proof (cases x)
      case (Inr u)
      then show ?thesis using True f w by (simp add: write_loop_0)
    next
      case (Inl e)
      then show ?thesis using True f w'
        by (cases e) (simp_all add: write_loop_0)
    qed
  qed
next
  case (Suc left s)
  obtain x s1 where f: "raw_write env (rg_address r) encoded (rg_count r) s = (x, s1)" by fastforce
  have w: "wrote 1 (rg_address r) encoded s (x, s1)"
    using raw_write_wrote [OF assms, of "rg_address r" s env] f by simp
  have ih: "wrote (Suc left) (rg_address r) encoded t (write_loop left env r encoded pre t)" for t
    using Suc.IH [of t] by (rule wrote_mono) simp
  show ?case
  proof (cases "retry_allowed (Suc left) pre s")
    case False
    then show ?thesis by (simp add: write_loop_Suc wrote_0)
  next
    case True
    show ?thesis
    proof (cases x)
      case (Inr u)
      then show ?thesis using True f wrote_mono [OF w, of "Suc (Suc left)"] by (simp add: write_loop_Suc)
    next
      case (Inl e)
      have stop: "wrote (Suc (Suc left)) (rg_address r) encoded s (Inl e', s1)" for e'
        using wrote_mono [OF w, of "Suc (Suc left)"] Inl by (simp add: wrote_def)
      have go: "wrote (Suc (Suc left)) (rg_address r) encoded s (write_loop left env r encoded pre t)"
        if "writes t = writes s1" for t
        using wrote_chain [OF w, of t "Suc left"] ih that Inl by simp
      obtain y s2 where g: "write_recover env s1 = (y, s2)" by fastforce
      then have s2: "writes s2 = writes s1" using writes_recover [of env s1] by simp
      have fail: "wrote (Suc (Suc left)) (rg_address r) encoded s (Inl e', s2)" for e'
        using stop [of e'] s2 by (simp add: wrote_def)
      show ?thesis using True f Inl stop go g go [OF s2] fail
        by (cases e; cases y) (simp_all add: write_loop_Suc is_conn_error_def)
    qed
  qed
qed

text \<open>The bytes of an encoded value fill the register.\<close>

lemma length_pack_HH: "pack_HH a b = Inr bs \<Longrightarrow> length bs = 4"
  by (auto simp: pack_HH_def pack_uint_def bind_res_Inr_iff split: if_splits)

lemma length_u32_encode: "u32_encode e r v = Inr bs \<Longrightarrow> length bs = 4"
  by (auto simp: u32_encode_def pack_uint_def length_pack_HH split: if_splits)

lemma length_f32_encode: "f32_encode e x = Inr bs \<Longrightarrow> length bs = 4"
  by (auto simp: f32_encode_def pack_f32_def bind_res_Inr_iff length_pack_HH split: if_splits)

lemma encode_register_inner: "encode_register e v r = Inr bs \<longleftrightarrow> encode_inner e v r = Inr bs"
  by (auto simp: encode_register_def split: sum.splits modbus_error.splits)

lemma length_encode_register:
  assumes "encode_register e v r = Inr bs"
  shows "length bs = 2 * scalar_words (rg_dtype r)"
proof -
  have i: "encode_inner e v r = Inr bs" using assms by (simp add: encode_register_inner)
  show ?thesis
  proof (cases "rg_dtype r")
    case FLOAT32
    then obtain x where "f32_encode e x = Inr bs"
      using i by (cases "float_of_val v") (auto simp: encode_inner_def split: if_splits)
    then show ?thesis using FLOAT32 by (simp add: scalar_words_def length_f32_encode)
  qed (use i in \<open>auto simp: encode_inner_def scalar_words_def bind_res_Inr_iff pack_uint_def
      pack_sint_def length_u32_encode split: if_splits\<close>)
qed

lemma encode_register_count:
  assumes "encode_register e v r = Inr bs" "r \<in> set ALL_REGISTERS" "rg_access r = RW"
  shows "length bs = 2 * rg_count r"
proof -
  have "size_ok r" using ALL_REGISTERS_size_ok assms(2) by (simp add: list_all_iff)
  moreover have "rg_dtype r \<noteq> STRING" "rg_dtype r \<noteq> SINT32"
    using assms(1) by (auto simp: encode_register_inner encode_inner_def)
  ultimately show ?thesis
    using length_encode_register [OF assms(1)] assms(3)
    by (cases "rg_dtype r") (simp_all add: size_ok_def scalar_words_def)
qed

lemma write_register_wrote:
  assumes "r \<in> set ALL_REGISTERS" "rg_access r = RW" "encode_register (cl_endianness s) v r = Inr bs"
  shows "wrote 3 (rg_address r) bs s (write_register env r v pre s)"
  using write_loop_wrote [OF encode_register_count [OF assms(3,1,2)], of MAX_RETRIES pre s env] assms
  by (simp add: write_register_def retry_allowed_def MAX_RETRIES_def eval_nat_numeral)

text \<open>C4: A write of a register of the map, whatever the connection and the device do: it sends at most
  three requests; every request goes to the register's own address and carries exactly the
  encoded value; it returns normally if and only if one of them was acknowledged, and after an
  acknowledged request it sends nothing more. A read-only register and a value that cannot be
  encoded send nothing and raise.\<close>

theorem write_register_requests:
  "r \<in> set ALL_REGISTERS \<Longrightarrow>
   \<exists>ws. writes (snd (write_register env r v pre s)) = ws @ writes s \<and> length ws \<le> 3
     \<and> (\<forall>(a, w, x)\<in>set ws. a = rg_address r \<and> rg_access r = RW
          \<and> encode_register (cl_endianness s) v r = Inr (words_bytes w))
     \<and> (is_ok (fst (write_register env r v pre s)) \<longleftrightarrow> (\<exists>a w. (a, w, WOk) \<in> set ws))
     \<and> length (filter (\<lambda>x. snd (snd x) = WOk) ws) \<le> 1"
proof -
  assume r: "r \<in> set ALL_REGISTERS"
  show ?thesis
  proof (cases "rg_access r = RW \<and> is_ok (encode_register (cl_endianness s) v r)")
    case False
    then show ?thesis
      by (intro exI [of _ "[]"]) (auto simp: write_register_def split: sum.splits)
  next
    case True
    then obtain bs where b: "encode_register (cl_endianness s) v r = Inr bs"
      by (cases "encode_register (cl_endianness s) v r") auto
    obtain ws where ws: "writes (snd (write_register env r v pre s)) = ws @ writes s" "length ws \<le> 3"
      "\<forall>x\<in>set ws. fst x = rg_address r \<and> words_bytes (fst (snd x)) = bs"
      "length (filter (\<lambda>x. snd (snd x) = WOk) ws) =
         (if is_ok (fst (write_register env r v pre s)) then 1 else 0)"
      using write_register_wrote [OF r _ b, of env pre] True unfolding wrote_def by blast
    have "is_ok (fst (write_register env r v pre s)) \<longleftrightarrow> filter (\<lambda>x. snd (snd x) = WOk) ws \<noteq> []"
      using ws(4) by (cases "is_ok (fst (write_register env r v pre s))") auto
    also have "\<dots> \<longleftrightarrow> (\<exists>a w. (a, w, WOk) \<in> set ws)"
      by (fastforce simp: filter_empty_conv)
    finally have "is_ok (fst (write_register env r v pre s)) \<longleftrightarrow> (\<exists>a w. (a, w, WOk) \<in> set ws)" .
    then show ?thesis using ws True b by (intro exI [of _ ws]) auto
  qed
qed

lemma G3_max_charge_rw: "REG_G3_MAX_CHARGE \<in> set ALL_REGISTERS" "rg_access REG_G3_MAX_CHARGE = RW"
  by (simp_all add: ALL_REGISTERS_def REG_G3_MAX_CHARGE_def)

theorem write_register_requests_witness:
  "\<exists>ws. writes (snd (write_register mem_env REG_G3_MAX_CHARGE (VInt 0) None
      (client_new ''little'' ''keep_last'' (\<lambda>_. 0)))) = ws \<and> length ws \<le> 3"
  using write_register_requests [OF G3_max_charge_rw(1), of mem_env "VInt 0" None
      "client_new ''little'' ''keep_last'' (\<lambda>_. 0)"]
  by (auto simp: writes_def client_new_def)

text \<open>The states a client passes through from a write on: requests, pauses and recoveries.\<close>

inductive client_later :: "'w env \<Rightarrow> 'w client \<Rightarrow> 'w client \<Rightarrow> bool" for env s where
  now: "client_later env s s"
| attempt: "client_later env s t \<Longrightarrow> client_later env s (snd (raw_write env a bs n t))"
| pause: "client_later env s t \<Longrightarrow> client_later env s (client_sleep env d t)"
| recover: "client_later env s t \<Longrightarrow> client_later env s (snd (write_recover env t))"

definition requests :: "'w client \<Rightarrow> nat" where
  "requests s = length (writes s)"

lemma requests_simps [simp]:
  "requests (client_sleep env d s) = requests s" "requests (snd (write_recover env s)) = requests s"
  by (simp_all add: requests_def)

lemma raw_write_requests:
  assumes "length bs = 2 * n"
  shows "requests (snd (raw_write env a bs n s)) \<le> Suc (requests s)"
  using raw_write_wrote [OF assms, of a s env] by (auto simp: wrote_def requests_def)

lemma write_loop_requests:
  assumes "length bs = 2 * rg_count r"
    "\<And>t. client_later env s t \<Longrightarrow> k \<le> requests t \<Longrightarrow> \<not> p t"
  shows "client_later env s t \<Longrightarrow> requests t \<le> k \<Longrightarrow> left \<le> MAX_RETRIES \<Longrightarrow> (left = MAX_RETRIES \<Longrightarrow> requests t < k) \<Longrightarrow>
    requests (snd (write_loop left env r bs (Some p) t)) \<le> k"
proof (induction left arbitrary: t)
  case (0 t)
  obtain x s1 where f: "raw_write env (rg_address r) bs (rg_count r) t = (x, s1)" by fastforce
  show ?case
  proof (cases "retry_allowed 0 (Some p) t")
    case True
    then have "requests t < k" using assms(2) [OF 0(1)] by (auto simp: retry_allowed_def MAX_RETRIES_def simp flip: not_le)
    then have "requests s1 \<le> k" using raw_write_requests [OF assms(1), of env "rg_address r" t] f by simp
    then show ?thesis using True f by (simp add: write_loop_0 split: sum.split modbus_error.split)
  qed (use 0 in \<open>simp add: write_loop_0\<close>)
next
  case (Suc left t)
  obtain x s1 where f: "raw_write env (rg_address r) bs (rg_count r) t = (x, s1)" by fastforce
  obtain y s2 where g: "write_recover env s1 = (y, s2)" by fastforce
  show ?case
  proof (cases "retry_allowed (Suc left) (Some p) t")
    case True
    then have "requests t < k" using assms(2) [OF Suc.prems(1)] Suc.prems(4)
      by (auto simp: retry_allowed_def simp flip: not_le)
    then have q: "requests s1 \<le> k" using raw_write_requests [OF assms(1), of env "rg_address r" t] f by simp
    have l: "client_later env s s1" using client_later.attempt [OF Suc.prems(1), of "rg_address r" bs "rg_count r"] f by simp
    have ih: "requests (snd (write_loop left env r bs (Some p) u)) \<le> k" if "client_later env s u" "requests u \<le> k" for u
      using Suc.IH [OF that] Suc.prems(3) by simp
    have 1: "requests (snd (write_loop left env r bs (Some p) (client_sleep env d s1))) \<le> k" for d
      by (rule ih [OF client_later.pause [OF l]]) (simp add: q)
    have "requests s2 = requests s1" using requests_simps(2) [of env s1] g by simp
    then have 2: "requests (snd (write_loop left env r bs (Some p) s2)) \<le> k" "requests s2 \<le> k"
      using ih [of s2] client_later.recover [OF l] g q by simp_all
    show ?thesis using True f g q 1 2
      by (cases x; cases "projl x"; cases y) (simp_all add: write_loop_Suc is_conn_error_def)
  qed (use Suc.prems in \<open>simp add: write_loop_Suc\<close>)
qed

lemma write_register_stops:
  assumes r: "r \<in> set ALL_REGISTERS" and n: "1 \<le> n"
    and p: "\<And>t. client_later env s t \<Longrightarrow> requests s + n \<le> requests t \<Longrightarrow> \<not> p t"
  shows "requests (snd (write_register env r v (Some p) s)) \<le> requests s + n"
proof (cases "rg_access r = RW \<and> is_ok (encode_register (cl_endianness s) v r)")
  case False
  then show ?thesis by (auto simp: write_register_def split: sum.splits)
next
  case True
  then obtain bs where b: "encode_register (cl_endianness s) v r = Inr bs"
    by (cases "encode_register (cl_endianness s) v r") auto
  have "requests (snd (write_loop MAX_RETRIES env r bs (Some p) s)) \<le> requests s + n"
    by (rule write_loop_requests [OF encode_register_count [OF b r] p]) (use True n in \<open>auto intro: client_later.now\<close>)
  then show ?thesis using True b by (simp add: write_register_def)
qed

text \<open>C37: A caller's precondition stops the retries of a write at every one of them, not only at the
  first: if, in every state the client can be in from the start of the write on, the
  precondition does not hold once \<open>n\<close> requests of the write were sent, no further one is sent.\<close>

theorem write_precondition_stops_retry:
  "r \<in> set ALL_REGISTERS \<Longrightarrow> 1 \<le> n \<Longrightarrow>
   \<forall>t. client_later env s t \<longrightarrow> requests s + n \<le> requests t \<longrightarrow> \<not> p t \<Longrightarrow>
   requests (snd (write_register env r v (Some p) s)) \<le> requests s + n"
  by (rule write_register_stops) auto

text \<open>A busy device. The world counts the requests, and after two the register is taken over.\<close>

definition busy_env :: "nat env" where
  "busy_env = \<lparr>ev_connect = (\<lambda>w. (ConnOk, w)), ev_connected = (\<lambda>w. True), ev_read = (\<lambda>a n w. (RResp (replicate n 0), w)),
     ev_write = (\<lambda>single a ws w. (WExc (Some 6), Suc w)), ev_sleep = (\<lambda>t w. w), ev_now = (\<lambda>w. 0),
     ev_closing = (\<lambda>w. False), ev_sched = (\<lambda>w. (True, w))\<rparr>"

definition busy_client :: "nat client" where
  "busy_client = (client_new ''little'' ''keep_last'' 0)\<lparr>cl_has_client := True\<rparr>"

lemma busy_env_fields:
  "ev_sched busy_env w = (True, w)" "ev_write busy_env one a ws w = (WExc (Some 6), Suc w)"
  "ev_read busy_env a n w = (RResp (replicate n 0), w)" "ev_connect busy_env w = (ConnOk, w)" "ev_sleep busy_env d w = w"
  by (simp_all add: busy_env_def)

lemma log_world: "cl_world (log_io e w s) = w"
  by (simp add: log_io_def)

lemma busy_world: "client_later busy_env busy_client t \<Longrightarrow> cl_world t = requests t"
proof (induction rule: client_later.induct)
  case now
  show ?case by (simp add: busy_client_def client_new_def requests_def writes_def)
next
  case (attempt t a bs n)
  then show ?case
    by (simp add: raw_write_def with_scheduler_def raw_write_inner_def busy_env_fields log_world
        requests_def Let_def split: sum.split)
next
  case (pause t d)
  then show ?case by (simp add: client_sleep_def busy_env_fields log_world requests_def)
next
  case (recover t)
  have r: "cl_world (snd (client_reconnect busy_env u)) = cl_world u" for u
    by (simp add: client_reconnect_def client_connect_def client_disconnect_def busy_env_fields log_world Let_def)
  have d: "cl_world (snd (detect_endianness busy_env u)) = cl_world u" for u
    by (simp add: detect_endianness_def sbind_def raw_read_def with_scheduler_def raw_read_inner_def busy_env_fields log_world
        Let_def split: sum.split prod.split)
  have "cl_world (snd (write_recover busy_env t)) = cl_world t"
    using r [of t] d by (auto simp: write_recover_def sbind_def split: prod.splits sum.splits) (metis snd_conv)+
  then show ?case using recover by simp
qed

theorem write_precondition_stops_retry_witness:
  "requests (snd (write_register busy_env REG_G3_MAX_CHARGE (VInt 0) (Some (\<lambda>t. cl_world t < 2)) busy_client)) = 2"
proof (rule order_antisym)
  have "requests busy_client = 0" by (simp add: requests_def busy_client_def client_new_def writes_def)
  then show "requests (snd (write_register busy_env REG_G3_MAX_CHARGE (VInt 0) (Some (\<lambda>t. cl_world t < 2)) busy_client)) \<le> 2"
    using write_precondition_stops_retry [OF G3_max_charge_rw(1), of 2 busy_env busy_client "\<lambda>t. cl_world t < 2" "VInt 0"]
    by (simp add: busy_world)
  show "2 \<le> requests (snd (write_register busy_env REG_G3_MAX_CHARGE (VInt 0) (Some (\<lambda>t. cl_world t < 2)) busy_client))"
    by code_simp
qed

section \<open>A retry in the old word order\<close>

text \<open>
  A device whose first write request loses the connection, and that reports the big-endian
  word order when it is asked again after the reconnect. The world counts the writes.
\<close>

definition flip_env :: "nat env" where
  "flip_env = \<lparr>ev_connect = (\<lambda>w. (ConnOk, w)), ev_connected = (\<lambda>w. True),
     ev_read = (\<lambda>a n w. (RResp (replicate n 1), w)),
     ev_write = (\<lambda>single a ws w. (if w = 0 then WConnLost else WOk, Suc w)),
     ev_sleep = (\<lambda>t w. w), ev_now = (\<lambda>w. 0), ev_closing = (\<lambda>w. False), ev_sched = (\<lambda>w. (True, w))\<rparr>"

definition flip_client :: "nat client" where
  "flip_client = (client_new ''little'' ''keep_last'' 0)\<lparr>cl_has_client := True\<rparr>"

lemma f32_one: "bits_of_f32 (FFin 1) = Inr 0x3F800000"
proof -
  have i: "ilog2 1 = 0" by (rule ilog2_unique) (simp_all add: pow2_def)
  have "round_to 24 (- 126) 1 = 1" using round_to_of_int [of 1 24 "- 126"] by simp
  then show ?thesis using pow2_strict_mono [of 0 128] pow2_strict_mono [of "- 126" 0]
    by (simp add: f32_mag_bits_def i pow2_def [of 0] Let_def) (simp add: pow2_def)
qed

lemma pack_be_numeral: "pack_be (numeral k) v = pack_be (pred_numeral k) (v div 256) @ [word_of_int v]"
  by (simp add: numeral_eq_Suc)

lemma pack_f32_one: "pack_f32 (FFin 1) = Inr [0x3F, 0x80, 0, 0]"
proof -
  have "pack_be 4 0x3F800000 = [0x3F, 0x80, 0, 0]" by (simp add: pack_be_numeral)
  then show ?thesis by (simp only: pack_f32_def f32_one bind_res.simps)
qed

lemma flip_encodings:
  "encode_register ''little'' (VFloat (FFin 1)) REG_G3_MAX_CHARGE = Inr [0, 0, 0x3F, 0x80]"
  "encode_register ''big'' (VFloat (FFin 1)) REG_G3_MAX_CHARGE = Inr [0x3F, 0x80, 0, 0]"
proof -
  have p: "pack_be 2 0x3F80 = [0x3F, 0x80]" "pack_be 2 0 = [0, 0]" by (simp_all add: pack_be_numeral)
  have u: "unpack_HH [0x3F, 0x80, 0, 0] = Inr (0x3F80, 0)"
    by (simp add: unpack_HH_def unpack_be_def)
  have e: "f32_encode ''little'' (FFin 1) = Inr [0, 0, 0x3F, 0x80]"
    by (simp add: f32_encode_def pack_f32_one u pack_HH_def pack_uint_def p)
  have b: "f32_encode ''big'' (FFin 1) = Inr [0x3F, 0x80, 0, 0]"
    by (simp add: f32_encode_def pack_f32_one)
  show "encode_register ''little'' (VFloat (FFin 1)) REG_G3_MAX_CHARGE = Inr [0, 0, 0x3F, 0x80]"
    "encode_register ''big'' (VFloat (FFin 1)) REG_G3_MAX_CHARGE = Inr [0x3F, 0x80, 0, 0]"
    by (simp_all add: encode_register_inner encode_inner_def REG_G3_MAX_CHARGE_def is_nan_def
        is_inf_def e b)
qed

text \<open>A retry after a reconnect sends the bytes encoded before it: on a device that loses the first
  request and then reports the big-endian word order, the write returns normally, the client
  has recorded the big-endian order, and the acknowledged request carries 1.0 with its two
  words in the little-endian order, which is not the encoding of 1.0 under the order recorded.\<close>

lemma write_retry_keeps_stale_word_order:
  "is_ok (fst (write_register flip_env REG_G3_MAX_CHARGE (VFloat (FFin 1)) None flip_client))
   \<and> cl_endianness (snd (write_register flip_env REG_G3_MAX_CHARGE (VFloat (FFin 1)) None flip_client))
       = ''big''
   \<and> (\<exists>w ws. writes (snd (write_register flip_env REG_G3_MAX_CHARGE (VFloat (FFin 1)) None flip_client))
       = (rg_address REG_G3_MAX_CHARGE, w, WOk) # ws
       \<and> words_bytes w = [0, 0, 0x3F, 0x80]
       \<and> encode_register ''big'' (VFloat (FFin 1)) REG_G3_MAX_CHARGE = Inr [0x3F, 0x80, 0, 0])"
proof -
  let ?bs = "[0, 0, 0x3F, 0x80] :: byte list"
  let ?r = "REG_G3_MAX_CHARGE"
  let ?c = flip_client
  have r: "rg_access ?r = RW" "rg_count ?r = 2" by (simp_all add: REG_G3_MAX_CHARGE_def)
  have flip_client_little: "cl_endianness ?c = ''little''"
    by (simp add: flip_client_def client_new_def)
  define ws :: "16 word list" where "ws = [0, 0x3F80]"
  have bw: "bytes_words ?bs = Inr ws" by (simp add: ws_def unpack_be_def)
  define c1 where "c1 = log_io (IOWrite (rg_address ?r) ws WConnLost) 1 ?c\<lparr>cl_has_client := False\<rparr>"
  define c2 where "c2 = log_io (IORead 5 1 (RResp [1])) 1
    (log_io (IOConnect ConnOk) 1 c1\<lparr>cl_has_client := True, cl_generation := 1\<rparr>)
      \<lparr>cl_endianness := ''big'', cl_endianness_confirmed := True\<rparr>"
  define c3 where "c3 = log_io (IOWrite (rg_address ?r) ws WOk) 2 c2"
  have w1: "raw_write flip_env (rg_address ?r) ?bs 2 ?c = (Inl ConnectionError, c1)"
    by (simp add: raw_write_def with_scheduler_def raw_write_inner_def bw flip_env_def flip_client_def
        client_new_def client_closing_def client_connected_def c1_def log_io_def
        del: bytes_words.simps)
  have u: "unpack_uint 2 (words_bytes [1]) = Inr 1"
    by (simp add: words_bytes_def unpack_uint_def)
  have rec: "write_recover flip_env c1 = (Inr (), c2)"
    by (simp add: write_recover_def sbind_def client_reconnect_def client_connect_def
        client_disconnect_def client_closing_def client_connected_def detect_endianness_def
        REG_BYTE_ORDER_def raw_read_def raw_read_inner_def with_scheduler_def log_io_def flip_env_def
        flip_client_def client_new_def c1_def c2_def u Let_def)
  have w2: "raw_write flip_env (rg_address ?r) ?bs 2 c2 = (Inr (), c3)"
    by (simp add: raw_write_def with_scheduler_def raw_write_inner_def bw flip_env_def flip_client_def
        client_new_def client_closing_def client_connected_def c1_def c2_def c3_def log_io_def
        del: bytes_words.simps)
  have "write_register flip_env ?r (VFloat (FFin 1)) None ?c = (Inr (), c3)"
    by (simp add: write_register_def r flip_encodings(1) MAX_RETRIES_def numeral_2_eq_2 write_loop_Suc
        retry_allowed_def w1 [unfolded numeral_2_eq_2] w2 [unfolded numeral_2_eq_2] rec is_conn_error_def
        flip_client_little)
  moreover have "writes c3 = (rg_address ?r, ws, WOk) # writes c2" "cl_endianness c3 = ''big''"
    by (simp_all add: c3_def c2_def log_io_def writes_def)
  moreover have "words_bytes ws = ?bs" using bytes_words_words_bytes [OF bw] .
  ultimately show ?thesis using flip_encodings(2) by auto
qed

end
