(* ===== verification/ClientBatch.thy ===== *)
theory ClientBatch
  imports ModbusClient
begin

text \<open>
  Suppression of unavailable registers, and batch reads: the groups that are read together,
  and the equivalence of a batch read with reading the registers one by one.
\<close>

section \<open>Suppression\<close>

abbreviation suppressed :: "'w env \<Rightarrow> 'w client \<Rightarrow> nat \<Rightarrow> bool" where
  "suppressed env s a \<equiv> fst (is_suppressed env a s)"

lemma suppressed_iff:
  "suppressed env s a \<longleftrightarrow> (\<exists>t0. map_of (cl_suppressed s) (int a) = Some t0
     \<and> ev_now env (cl_world s) - t0 \<le> of_int (UNAVAILABLE_RESET_INTERVAL * strikes_of s a 1))"
  by (auto simp: is_suppressed_def not_less split: option.splits)

text \<open>Checking one register changes the answer for none.\<close>

lemma suppressed_stable: "suppressed env (snd (is_suppressed env a s)) b = suppressed env s b"
proof -
  have "int a = int b \<longleftrightarrow> a = b" by simp
  then show ?thesis
    by (cases "a = b") (auto simp: is_suppressed_def strikes_of_def split: option.splits)
qed

text \<open>A read that the inverter answers with an illegal data address adds one strike; from the third
  strike on the register is suppressed. While it is suppressed, for 120 seconds per strike, a
  read of it raises at once and touches neither the device nor the connection; afterwards it
  is read again.\<close>

lemma unavailable_registers_suppressed:
  "(\<forall>s s1. \<not> suppressed env (s\<lparr>cl_last_exc_code := None\<rparr>) (rg_address r)
      \<and> raw_read env (rg_address r) (rg_count r)
          (snd (is_suppressed env (rg_address r) (s\<lparr>cl_last_exc_code := None\<rparr>)))
        = (Inl (PermanentError 2), s1) \<and> cl_last_exc_code s1 = Some 2
      \<longrightarrow> (let s' = snd (read_register env r s); n = strikes_of s1 (rg_address r) 0 + 1
           in fst (read_register env r s) = Inl (PermanentError 2)
              \<and> strikes_of s' (rg_address r) 0 = n
              \<and> (3 \<le> n \<longrightarrow> map_of (cl_suppressed s') (int (rg_address r))
                   = Some (ev_now env (cl_world s')))))
   \<and> (\<forall>s t0. map_of (cl_suppressed s) (int (rg_address r)) = Some t0 \<longrightarrow>
      (ev_now env (cl_world s) - t0 \<le> 120 * of_int (strikes_of s (rg_address r) 1) \<longrightarrow>
         read_register env r s = (Inl (PermanentError 0), s\<lparr>cl_last_exc_code := None\<rparr>))
      \<and> (120 * of_int (strikes_of s (rg_address r) 1) < ev_now env (cl_world s) - t0 \<longrightarrow>
         read_register env r s = read_loop 2 env r (s\<lparr>cl_last_exc_code := None,
           cl_suppressed := dict_pop (int (rg_address r)) (cl_suppressed s)\<rparr>)))"
proof (intro conjI allI impI)
  fix s s1
  assume h: "\<not> suppressed env (s\<lparr>cl_last_exc_code := None\<rparr>) (rg_address r)
      \<and> raw_read env (rg_address r) (rg_count r)
          (snd (is_suppressed env (rg_address r) (s\<lparr>cl_last_exc_code := None\<rparr>)))
        = (Inl (PermanentError 2), s1) \<and> cl_last_exc_code s1 = Some 2"
  obtain b s0 where f: "is_suppressed env (rg_address r) (s\<lparr>cl_last_exc_code := None\<rparr>) = (b, s0)"
    by fastforce
  have "read_once env r s0 = (Inl (PermanentError 2), s1)"
    using h f by (simp add: read_once_def sbind_def)
  then have e: "read_register env r s =
      (Inl (PermanentError 2), record_unavailable_strike env (rg_address r) s1)"
    using h f by (simp add: read_register_def MAX_RETRIES_def numeral_2_eq_2 read_loop_Suc)
  show "let s' = snd (read_register env r s); n = strikes_of s1 (rg_address r) 0 + 1
     in fst (read_register env r s) = Inl (PermanentError 2)
        \<and> strikes_of s' (rg_address r) 0 = n
        \<and> (3 \<le> n \<longrightarrow> map_of (cl_suppressed s') (int (rg_address r)) = Some (ev_now env (cl_world s')))"
    by (auto simp: e record_unavailable_strike_def strikes_of_def UNAVAILABLE_STRIKES_THRESHOLD_def
        Let_def split: option.splits)
next
  fix s t0
  assume "map_of (cl_suppressed s) (int (rg_address r)) = Some t0"
    and "ev_now env (cl_world s) - t0 \<le> 120 * of_int (strikes_of s (rg_address r) 1)"
  then show "read_register env r s = (Inl (PermanentError 0), s\<lparr>cl_last_exc_code := None\<rparr>)"
    by (auto simp: read_register_def is_suppressed_def UNAVAILABLE_RESET_INTERVAL_def strikes_of_def)
next
  fix s t0
  assume "map_of (cl_suppressed s) (int (rg_address r)) = Some t0"
    and "120 * of_int (strikes_of s (rg_address r) 1) < ev_now env (cl_world s) - t0"
  then show "read_register env r s = read_loop 2 env r (s\<lparr>cl_last_exc_code := None,
      cl_suppressed := dict_pop (int (rg_address r)) (cl_suppressed s)\<rparr>)"
    by (auto simp: read_register_def is_suppressed_def UNAVAILABLE_RESET_INTERVAL_def strikes_of_def
        MAX_RETRIES_def)
qed

text \<open>The registers read back, the suppressed ones left out: the witness reads a suppressed one.\<close>

lemma unavailable_registers_suppressed_witness:
  "read_register mem_env REG_BYTE_ORDER
     ((client_new ''little'' ''keep_last'' (\<lambda>_. 0))\<lparr>cl_suppressed := [(5, 0)], cl_strikes := [(5, 3)]\<rparr>)
   = (Inl (PermanentError 0),
      (client_new ''little'' ''keep_last'' (\<lambda>_. 0))\<lparr>cl_suppressed := [(5, 0)], cl_strikes := [(5, 3)]\<rparr>)"
proof -
  let ?s = "(client_new ''little'' ''keep_last'' (\<lambda>_. 0) :: (nat \<Rightarrow> 16 word) client)
    \<lparr>cl_suppressed := [(5, 0)], cl_strikes := [(5, 3)]\<rparr>"
  have a: "rg_address REG_BYTE_ORDER = 5" by (simp add: REG_BYTE_ORDER_def)
  have "map_of (cl_suppressed ?s) (int (rg_address REG_BYTE_ORDER)) = Some 0"
    "ev_now mem_env (cl_world ?s) - 0 \<le> 120 * of_int (strikes_of ?s (rg_address REG_BYTE_ORDER) 1)"
    by (simp_all add: a strikes_of_def)
  then have "read_register mem_env REG_BYTE_ORDER ?s =
      (Inl (PermanentError 0), ?s\<lparr>cl_last_exc_code := None\<rparr>)"
    using unavailable_registers_suppressed [of mem_env REG_BYTE_ORDER] by blast
  then show ?thesis by (simp add: client_new_def)
qed

section \<open>Groups\<close>

definition adjacent :: "modbus_register \<Rightarrow> modbus_register \<Rightarrow> bool" where
  "adjacent p q \<longleftrightarrow> rg_address q = rg_address p + rg_count p"

text \<open>The grouping of the registers that are not suppressed, without the state.\<close>

fun contiguous_groups :: "modbus_register list \<Rightarrow> modbus_register list \<Rightarrow> modbus_register list list" where
  "contiguous_groups cur [] = (if cur = [] then [] else [cur])"
| "contiguous_groups cur (r # rs) =
     (if cur = [] then contiguous_groups [r] rs
      else if adjacent (last cur) r then contiguous_groups (cur @ [r]) rs
      else cur # contiguous_groups [r] rs)"

lemma group_loop_contiguous:
  "fst (group_loop env rs groups cur s) =
     groups @ contiguous_groups cur (filter (\<lambda>r. \<not> suppressed env s (rg_address r)) rs)"
proof (induction rs arbitrary: groups cur s)
  case (Cons r rs)
  obtain b s1 where f: "is_suppressed env (rg_address r) s = (b, s1)" by fastforce
  have st: "suppressed env s1 a = suppressed env s a" for a
    using suppressed_stable [of env a "rg_address r" s] f by simp
  have b: "b = suppressed env s (rg_address r)" using f by simp
  show ?case using Cons [of _ _ s1] f by (simp add: st b [symmetric] adjacent_def)
qed simp

lemma concat_contiguous_groups: "concat (contiguous_groups cur rs) = cur @ rs"
  by (induction cur rs rule: contiguous_groups.induct) auto

lemma contiguous_groups_adjacent:
  "successively adjacent cur \<Longrightarrow> g \<in> set (contiguous_groups cur rs) \<Longrightarrow>
     g \<noteq> [] \<and> successively adjacent g"
proof (induction cur rs rule: contiguous_groups.induct)
  case (1 cur)
  then show ?case by (simp split: if_splits)
next
  case (2 cur r rs)
  have "successively adjacent (cur @ [r])" if "adjacent (last cur) r"
    using 2(4) that by (simp add: successively_append_iff)
  then show ?case using 2 by (auto split: if_splits)
qed

lemma hd_contiguous_groups:
  "cur \<noteq> [] \<Longrightarrow> \<exists>g gs. contiguous_groups cur rs = g # gs \<and> g \<noteq> [] \<and> hd g = hd cur"
proof (induction cur rs rule: contiguous_groups.induct)
  case (2 cur r rs)
  then show ?case by (cases "adjacent (last cur) r") auto
qed auto

lemma contiguous_groups_maximal:
  "successively (\<lambda>g h. \<not> adjacent (last g) (hd h)) (contiguous_groups cur rs)"
proof (induction cur rs rule: contiguous_groups.induct)
  case (2 cur r rs)
  obtain g gs where "contiguous_groups [r] rs = g # gs" "hd g = r"
    using hd_contiguous_groups [of "[r]" rs] by auto
  then show ?case using 2 by auto
qed auto

text \<open>A batch read forms its requests from the registers in address order: together they cover
  exactly the registers that are not suppressed, each once; each request covers registers
  whose words follow one another without a gap, so it reads no word that was not asked for;
  and no two neighbouring requests could have been one.\<close>

lemma batch_groups_cover:
  "concat (fst (group_loop env (sort_key rg_address regs) [] [] s))
     = filter (\<lambda>r. \<not> suppressed env s (rg_address r)) (sort_key rg_address regs)
   \<and> (\<forall>g\<in>set (fst (group_loop env (sort_key rg_address regs) [] [] s)).
        g \<noteq> [] \<and> successively adjacent g)
   \<and> successively (\<lambda>g h. \<not> adjacent (last g) (hd h))
       (fst (group_loop env (sort_key rg_address regs) [] [] s))"
  using contiguous_groups_adjacent [of "[]"]
  by (simp add: group_loop_contiguous concat_contiguous_groups contiguous_groups_maximal)

lemma batch_groups_cover_witness:
  "concat (fst (group_loop mem_env (sort_key rg_address [REG_BAT_MAX_SOC, REG_BAT_MIN_SOC]) [] []
     (client_new ''little'' ''keep_last'' (\<lambda>_. 0)))) = [REG_BAT_MIN_SOC, REG_BAT_MAX_SOC]"
  using batch_groups_cover [of mem_env _ "client_new ''little'' ''keep_last'' (\<lambda>_. 0)"]
  by (simp add: REG_BAT_MAX_SOC_def REG_BAT_MIN_SOC_def is_suppressed_def client_new_def)

section \<open>A batch read is the reads one by one\<close>

text \<open>What decides the values: the state without the bookkeeping of requests and strikes.\<close>

definition core :: "'w client \<Rightarrow> 'w client" where
  "core s = s\<lparr>cl_trace := [], cl_strikes := [], cl_suppressed := [], cl_last_exc_code := None\<rparr>"

lemma core_idem [simp]: "core (core s) = core s"
  by (simp add: core_def)

lemma core_update [simp]:
  "core (pop_strikes a s) = core s" "core (s\<lparr>cl_suppressed := d\<rparr>) = core s"
  "core (s\<lparr>cl_last_exc_code := c\<rparr>) = core s" "core (log_io e (cl_world s) s) = core s"
  "core (snd (is_suppressed env a s)) = core s"
  by (simp_all add: core_def pop_strikes_def log_io_def is_suppressed_def split: option.splits)

lemma core_sel [simp]:
  "cl_endianness (core s) = cl_endianness s" "cl_generation (core s) = cl_generation s"
  "cl_world (core s) = cl_world s" "cl_closing (core s) = cl_closing s"
  "cl_has_client (core s) = cl_has_client s" "cl_last_good (core s) = cl_last_good s"
  "cl_retained (core s) = cl_retained s" "cl_outlier_policy (core s) = cl_outlier_policy s"
  by (simp_all add: core_def)

definition core_res :: "'a \<times> 'w client \<Rightarrow> 'a \<times> 'w client" where
  "core_res p = (fst p, core (snd p))"

lemma core_res_pair [simp]: "core_res (x, s) = (x, core s)"
  by (simp add: core_res_def)

lemma core_keep_or_refuse: "keep_or_refuse a (core s) = core_res (keep_or_refuse a s)"
  by (auto simp: keep_or_refuse_def retained_add_def split: option.splits) (simp_all add: core_def)

lemma core_outlier_guard: "outlier_guard r v (core s) = core_res (outlier_guard r v s)"
  by (simp add: outlier_guard_def Let_def core_keep_or_refuse split: sum.splits)

lemma core_quality_filter: "apply_quality_filter r v (core s) = core_res (apply_quality_filter r v s)"
proof -
  have e: "core s\<lparr>cl_retained := X\<rparr> = core (s\<lparr>cl_retained := X\<rparr>)" for X
    by (simp add: core_def)
  show ?thesis
    by (simp add: apply_quality_filter_def e core_keep_or_refuse core_outlier_guard Let_def
        split: sum.splits)
qed

lemma core_store: "store_filtered r g v (core s) = core (store_filtered r g v s)"
  by (simp add: store_filtered_def core_def)

lemma core_accept: "accept_bytes r raw (core s) = core_res (accept_bytes r raw s)"
proof (cases "decode_register (cl_endianness s) raw r")
  case (Inl e)
  then show ?thesis by (simp add: accept_bytes_def)
next
  case (Inr d)
  obtain x s1 where "apply_quality_filter r d s = (x, s1)" by fastforce
  then show ?thesis using Inr
    by (cases x) (simp_all add: accept_bytes_def core_quality_filter core_store)
qed

lemma core_accept_eq: "core s = core t \<Longrightarrow> core_res (accept_bytes r raw s) = core_res (accept_bytes r raw t)"
  by (metis core_accept)

lemma core_accept_batch: "core_res (accept_batch r (cl_generation s) raw s) = core_res (accept_bytes r raw s)"
proof (cases "decode_register (cl_endianness s) raw r")
  case (Inl e)
  then show ?thesis by (simp add: accept_batch_def accept_bytes_def)
next
  case (Inr d)
  obtain x s1 where "apply_quality_filter r d s = (x, s1)" by fastforce
  then show ?thesis using Inr
    by (cases x) (simp_all add: accept_batch_def accept_bytes_def)
qed

text \<open>What the filter and the bookkeeping of a value leave alone.\<close>

definition same_link :: "'w client \<Rightarrow> 'w client \<Rightarrow> bool" where
  "same_link s t \<longleftrightarrow> cl_generation s = cl_generation t \<and> cl_world s = cl_world t
     \<and> cl_closing s = cl_closing t \<and> cl_has_client s = cl_has_client t
     \<and> cl_suppressed s = cl_suppressed t"

lemma same_link_refl [simp]: "same_link s s"
  by (simp add: same_link_def)

lemma same_link_trans: "same_link s t \<Longrightarrow> same_link t u \<Longrightarrow> same_link s u"
  by (simp add: same_link_def)

lemma same_link_update [simp]:
  "same_link (s\<lparr>cl_retained := x\<rparr>) t = same_link s t"
  "same_link (pop_strikes a s) t = same_link s t"
  "same_link (store_filtered r g v s) t = same_link s t"
  by (simp_all add: same_link_def pop_strikes_def store_filtered_def Let_def)

lemma same_link_keep [simp]: "same_link (snd (keep_or_refuse a s)) t = same_link s t"
  by (simp add: keep_or_refuse_def retained_add_def split: option.splits)

lemma same_link_guard [simp]: "same_link (snd (outlier_guard r v s)) t = same_link s t"
  by (simp add: outlier_guard_def Let_def split: sum.splits)

lemma same_link_filter [simp]: "same_link (snd (apply_quality_filter r v s)) t = same_link s t"
  by (simp add: apply_quality_filter_def Let_def split: sum.splits)

lemma same_link_accept: "same_link (snd (accept_bytes r raw s)) s"
proof (cases "decode_register (cl_endianness s) raw r")
  case (Inr d)
  obtain x s1 where f: "apply_quality_filter r d s = (x, s1)" by fastforce
  then have "same_link s1 s" using same_link_filter [of r d s s] by simp
  then show ?thesis using Inr f by (cases x) (simp_all add: accept_bytes_def)
qed (simp add: accept_bytes_def)

lemma same_link_batch: "same_link (snd (accept_batch r g raw s)) s"
proof (cases "decode_register (cl_endianness s) raw r")
  case (Inr d)
  obtain x s1 where f: "apply_quality_filter r d s = (x, s1)" by fastforce
  then have "same_link s1 s" using same_link_filter [of r d s s] by simp
  then show ?thesis using Inr f by (cases x) (simp_all add: accept_batch_def)
qed (simp add: accept_batch_def)

lemma accept_bytes_errors: "accept_bytes r raw s = (Inl e, s1) \<Longrightarrow> e = ReadError \<or> (\<exists>p. e = PyExc p)"
proof -
  have k: "keep_or_refuse a s2 = (Inl e, s3) \<Longrightarrow> e = ReadError" for a s2 s3
    by (auto simp: keep_or_refuse_def split: option.splits if_splits)
  have o: "outlier_guard r v s2 = (Inl e, s3) \<Longrightarrow> e = ReadError \<or> (\<exists>p. e = PyExc p)" for v s2 s3
    by (auto simp: outlier_guard_def Let_def dest: k split: sum.splits if_splits)
  have f: "apply_quality_filter r v s2 = (Inl e, s3) \<Longrightarrow> e = ReadError \<or> (\<exists>p. e = PyExc p)" for v s2 s3
    by (auto simp: apply_quality_filter_def Let_def dest: k o split: sum.splits if_splits)
  have l: "lift_py x = Inl e \<Longrightarrow> \<exists>p. e = PyExc p" for x :: "pyexc + pyval"
    by (cases x) auto
  have d: "decode_register en raw r = Inl e \<Longrightarrow> \<exists>p. e = PyExc p" for en
    by (auto simp: decode_register_def dest!: l split: data_type.splits list.splits if_splits)
  show "accept_bytes r raw s = (Inl e, s1) \<Longrightarrow> ?thesis"
    by (auto simp: accept_bytes_def dest: d f split: sum.splits prod.splits)
qed

text \<open>The device's bytes of a register, and reading registers straight from them.\<close>

definition bytes_at :: "(nat \<Rightarrow> 16 word) client \<Rightarrow> modbus_register \<Rightarrow> byte list" where
  "bytes_at s r = words_bytes (map (cl_world s) [rg_address r ..< rg_address r + rg_count r])"

fun accept_each ::
    "modbus_register list \<Rightarrow> (string \<times> pyval) list \<Rightarrow> (nat \<Rightarrow> 16 word) client
     \<Rightarrow> (modbus_error + (string \<times> pyval) list) \<times> (nat \<Rightarrow> 16 word) client" where
  "accept_each [] acc s = (Inr acc, s)"
| "accept_each (r # rs) acc s = (case accept_bytes r (bytes_at s r) s of
     (Inr v, s1) \<Rightarrow> accept_each rs (dict_set (rg_name r) v acc) s1
   | (Inl e, s1) \<Rightarrow> if is_skipped e then accept_each rs acc s1 else (Inl e, s1))"

lemma accept_each_core:
  "core s = core t \<Longrightarrow> core_res (accept_each rs acc s) = core_res (accept_each rs acc t)"
proof (induction rs arbitrary: acc s t)
  case Nil
  then show ?case by simp
next
  case (Cons r rs)
  have "bytes_at s r = bytes_at t r" using Cons.prems core_sel(3) unfolding bytes_at_def by metis
  moreover obtain x s1 where "accept_bytes r (bytes_at s r) s = (x, s1)" by fastforce
  moreover obtain y t1 where "accept_bytes r (bytes_at s r) t = (y, t1)" by fastforce
  ultimately show ?case
    using core_accept_eq [OF Cons.prems, of r "bytes_at s r"] Cons.IH [of s1 t1]
    by (cases x) (auto simp: core_res_def)
qed

lemma accept_each_append:
  "accept_each (rs @ qs) acc s = (case accept_each rs acc s of
     (Inr acc1, s1) \<Rightarrow> accept_each qs acc1 s1 | (Inl e, s1) \<Rightarrow> (Inl e, s1))"
  by (induction rs arbitrary: acc s) (auto split: sum.splits prod.splits)

text \<open>A connected client of the memory device; no register in the set is suppressed.\<close>

definition ready :: "modbus_register set \<Rightarrow> (nat \<Rightarrow> 16 word) client \<Rightarrow> bool" where
  "ready R s \<longleftrightarrow> \<not> cl_closing s \<and> cl_has_client s
     \<and> (\<forall>r\<in>R. map_of (cl_suppressed s) (int (rg_address r)) = None)"

lemma read_register_ready:
  assumes "ready R s" "r \<in> R"
  shows "core_res (read_register mem_env r s) = core_res (accept_bytes r (bytes_at s r) s)
    \<and> ready R (snd (read_register mem_env r s))"
proof -
  let ?s = "s\<lparr>cl_last_exc_code := None\<rparr>"
  let ?ws = "map (cl_world s) [rg_address r ..< rg_address r + rg_count r]"
  have sup: "is_suppressed mem_env (rg_address r) ?s = (False, ?s)"
    using assms by (simp add: ready_def is_suppressed_def)
  define t where "t = pop_strikes (rg_address r)
    (log_io (IORead (rg_address r) (rg_count r) (RResp ?ws)) (cl_world ?s) ?s)"
  have once: "read_once mem_env r ?s = accept_bytes r (bytes_at s r) t"
    using assms by (simp add: read_once_def sbind_def mem_raw_read ready_def t_def bytes_at_def)
  obtain x u where a: "accept_bytes r (bytes_at s r) t = (x, u)" by fastforce
  have "read_loop 2 mem_env r ?s = (x, u)"
  proof (cases x)
    case (Inr v)
    then show ?thesis using once a by (simp add: numeral_2_eq_2 read_loop_Suc)
  next
    case (Inl e)
    then have "e = ReadError \<or> (\<exists>p. e = PyExc p)" using accept_bytes_errors a by blast
    then show ?thesis using once a Inl by (auto simp: numeral_2_eq_2 read_loop_Suc is_conn_error_def)
  qed
  then have e: "read_register mem_env r s = (x, u)"
    by (simp add: read_register_def sup MAX_RETRIES_def)
  have "core t = core s" by (simp add: t_def core_def log_io_def pop_strikes_def)
  then have "core_res (accept_bytes r (bytes_at s r) t) = core_res (accept_bytes r (bytes_at s r) s)"
    by (rule core_accept_eq)
  moreover have "ready R u"
    using same_link_accept [of r "bytes_at s r" t] a assms(1)
    by (simp add: same_link_def ready_def t_def pop_strikes_def log_io_def)
  ultimately show ?thesis by (simp add: e a)
qed

lemma read_each_ready:
  assumes "ready R s" "set rs \<subseteq> R"
  shows "core_res (read_each mem_env rs acc s) = core_res (accept_each rs acc s)
    \<and> ready R (snd (read_each mem_env rs acc s))"
  using assms
proof (induction rs arbitrary: acc s)
  case Nil
  then show ?case by simp
next
  case (Cons r rs)
  obtain x s1 where f: "read_register mem_env r s = (x, s1)" by fastforce
  obtain y t1 where g: "accept_bytes r (bytes_at s r) s = (y, t1)" by fastforce
  have k: "x = y" "core s1 = core t1" "ready R s1"
    using read_register_ready [OF Cons.prems(1), of r] Cons.prems(2) f g by (auto simp: core_res_def)
  show ?case
    using Cons.IH [OF k(3)] Cons.prems(2) f g k accept_each_core [OF k(2)]
    by (cases y) auto
qed

text \<open>The slice of a register in the words of its group.\<close>

lemma words_bytes_Cons: "words_bytes (w # ws) = pack_be 2 (uint w) @ words_bytes ws"
  by (simp add: words_bytes_def)

lemma take_words_bytes: "take (2 * n) (words_bytes ws) = words_bytes (take n ws)"
proof (induction ws arbitrary: n)
  case (Cons w ws)
  then show ?case by (cases n) (simp_all add: words_bytes_Cons words_bytes_def)
qed (simp add: words_bytes_def)

lemma drop_words_bytes: "drop (2 * n) (words_bytes ws) = words_bytes (drop n ws)"
proof (induction ws arbitrary: n)
  case (Cons w ws)
  then show ?case by (cases n) (simp_all add: words_bytes_Cons words_bytes_def)
qed (simp add: words_bytes_def)

lemma slice_of_group:
  assumes "off + n \<le> tot"
  shows "take (n * 2) (drop (off * 2) (words_bytes (map w [a ..< a + tot])))
    = words_bytes (map w [a + off ..< a + off + n])"
proof -
  have "take n (drop off [a ..< a + tot]) = [a + off ..< a + off + n]"
    using assms by (simp add: take_upt drop_upt add.assoc)
  then show ?thesis
    by (simp add: mult.commute [of _ 2] drop_words_bytes take_words_bytes drop_map take_map)
qed

lemma decode_group_ready:
  assumes "ready R s" "g = cl_generation s" "successively adjacent rs"
    "rs \<noteq> [] \<Longrightarrow> rg_address (hd rs) = start + off" "off + total_words rs \<le> tot"
  shows "core_res (decode_group g (words_bytes (map (cl_world s) [start ..< start + tot])) off rs acc s)
       = core_res (accept_each rs acc s)
    \<and> ready R (snd (decode_group g (words_bytes (map (cl_world s) [start ..< start + tot])) off rs acc s))"
  using assms
proof (induction rs arbitrary: off acc s)
  case Nil
  then show ?case by simp
next
  case (Cons r rs)
  let ?all = "words_bytes (map (cl_world s) [start ..< start + tot])"
  have b: "take (rg_count r * 2) (drop (off * 2) ?all) = bytes_at s r"
    using Cons.prems(4,5) slice_of_group [of off "rg_count r" tot "cl_world s" start]
    by (simp add: bytes_at_def total_words_def)
  obtain x s1 where f: "accept_batch r g (bytes_at s r) s = (x, s1)" by fastforce
  obtain y t1 where h: "accept_bytes r (bytes_at s r) s = (y, t1)" by fastforce
  have k: "x = y" "core s1 = core t1"
    using core_accept_batch [of r s "bytes_at s r"] f h Cons.prems(2) by (simp_all add: core_res_def)
  have s1: "ready R s1" "g = cl_generation s1" "cl_world s1 = cl_world s"
    using same_link_batch [of r g "bytes_at s r" s] f Cons.prems(1,2)
    by (simp_all add: same_link_def ready_def)
  have n: "rs \<noteq> [] \<Longrightarrow> rg_address (hd rs) = start + (off + rg_count r)"
    using Cons.prems(3,4) by (cases rs) (simp_all add: adjacent_def)
  have suc: "successively adjacent rs" using Cons.prems(3) by (cases rs) simp_all
  have le: "off + rg_count r + total_words rs \<le> tot"
    using Cons.prems(5) by (simp add: total_words_def)
  note ih = Cons.IH [OF s1(1,2) suc n le, unfolded s1(3)]
  show ?case
    using ih f h k accept_each_core [OF k(2)] s1(1)
    by (cases y) (auto simp: b Let_def)
qed

lemma read_groups_ready:
  assumes "ready R s" "\<forall>g\<in>set gs. g \<noteq> [] \<and> successively adjacent g \<and> set g \<subseteq> R"
  shows "core_res (read_groups mem_env gs acc s) = core_res (accept_each (concat gs) acc s)"
  using assms
proof (induction gs arbitrary: acc s)
  case Nil
  then show ?case by simp
next
  case (Cons g gs)
  define p where "p = (if length g = 1 then read_each mem_env g acc s else read_group mem_env g acc s)"
  have g: "g \<noteq> []" "successively adjacent g" "set g \<subseteq> R" using Cons.prems by auto
  have p: "core_res p = core_res (accept_each g acc s) \<and> ready R (snd p)"
  proof (cases "length g = 1")
    case True
    then show ?thesis using read_each_ready [OF Cons.prems(1) g(3)] by (simp add: p_def)
  next
    case False
    let ?ws = "map (cl_world s) [rg_address (hd g) ..< rg_address (hd g) + total_words g]"
    define t where "t = log_io (IORead (rg_address (hd g)) (total_words g) (RResp ?ws)) (cl_world s) s"
    have t: "ready R t" "cl_world t = cl_world s" "core t = core s"
      using Cons.prems(1) by (simp_all add: t_def ready_def log_io_def core_def)
    have "p = decode_group (cl_generation t) (words_bytes ?ws) 0 g acc t"
      using Cons.prems(1) False
      by (simp add: p_def read_group_def mem_raw_read ready_def t_def)
    then show ?thesis
      using decode_group_ready [OF t(1) refl g(2), of "rg_address (hd g)" 0 "total_words g" acc]
        accept_each_core [OF t(3)] t(2) by simp
  qed
  obtain x s1 where f: "p = (x, s1)" by fastforce
  obtain y t1 where h: "accept_each g acc s = (y, t1)" by fastforce
  have k: "x = y" "core s1 = core t1" "ready R s1" using p f h by (simp_all add: core_res_def)
  have c: "\<not> client_closing mem_env s" using Cons.prems(1) by (simp add: client_closing_def ready_def)
  have e: "read_groups mem_env (g # gs) acc s = (case p of (Inr acc1, s1) \<Rightarrow> read_groups mem_env gs acc1 s1
      | (Inl e, s1) \<Rightarrow> (Inl e, s1))"
    using c by (simp add: p_def)
  show ?case
    unfolding e f
    using Cons.IH [OF k(3)] Cons.prems(2) k h accept_each_core [OF k(2)]
    by (cases y) (simp_all add: accept_each_append)
qed

lemma group_loop_core [simp]: "core (snd (group_loop env rs groups cur s)) = core s"
proof (induction rs arbitrary: groups cur s)
  case (Cons r rs)
  obtain b s1 where f: "is_suppressed env (rg_address r) s = (b, s1)" by fastforce
  then have "core s1 = core s" using core_update(5) [of env "rg_address r" s] by simp
  then show ?case using Cons f by simp
qed simp

lemma is_suppressed_None:
  "map_of (cl_suppressed s) a = None \<Longrightarrow> map_of (cl_suppressed (snd (is_suppressed env b s))) a = None"
  by (auto simp: is_suppressed_def split: option.splits)

lemma group_loop_None:
  "map_of (cl_suppressed s) a = None \<Longrightarrow>
   map_of (cl_suppressed (snd (group_loop env rs groups cur s))) a = None"
proof (induction rs arbitrary: groups cur s)
  case (Cons r rs)
  obtain b s1 where f: "is_suppressed env (rg_address r) s = (b, s1)" by fastforce
  have "map_of (cl_suppressed s1) a = None"
    using is_suppressed_None [OF Cons.prems, of env "rg_address r"] f by simp
  then show ?case using Cons.IH f by simp
qed simp

text \<open>A register that is not suppressed has no entry any more after the grouping.\<close>

lemma group_loop_unsuppressed:
  "r \<in> set rs \<Longrightarrow> \<not> suppressed env s (rg_address r) \<Longrightarrow>
   map_of (cl_suppressed (snd (group_loop env rs groups cur s))) (int (rg_address r)) = None"
proof (induction rs arbitrary: groups cur s)
  case (Cons q rs)
  obtain b s1 where f: "is_suppressed env (rg_address q) s = (b, s1)" by fastforce
  have st: "suppressed env s1 a = suppressed env s a" for a
    using suppressed_stable [of env a "rg_address q" s] f by simp
  show ?case
  proof (cases "r = q")
    case True
    have "map_of (cl_suppressed s1) (int (rg_address r)) = None"
      using Cons.prems(2) f True by (auto simp: is_suppressed_def split: option.splits if_splits)
    then show ?thesis using f by (simp add: group_loop_None)
  next
    case False
    then show ?thesis using Cons.IH [of s1] Cons.prems f st by simp
  qed
qed simp

lemma batch_accept_each:
  assumes "\<not> cl_closing s" "cl_has_client s"
  shows "core_res (read_registers_batch mem_env regs s) = core_res
    (accept_each (filter (\<lambda>r. \<not> suppressed mem_env s (rg_address r)) (sort_key rg_address regs)) [] s)"
proof (cases "regs = []")
  case True
  then show ?thesis by (simp add: read_registers_batch_def)
next
  case False
  let ?rs = "sort_key rg_address regs"
  let ?f = "filter (\<lambda>r. \<not> suppressed mem_env s (rg_address r)) ?rs"
  obtain gs s1 where f: "group_loop mem_env ?rs [] [] s = (gs, s1)" by fastforce
  have c: "core s1 = core s" using group_loop_core [of mem_env ?rs "[]" "[]" s] f by simp
  have "cl_closing s1 = cl_closing s" "cl_has_client s1 = cl_has_client s"
    using core_sel(4) [of s1] core_sel(4) [of s] core_sel(5) [of s1] core_sel(5) [of s] c by simp_all
  then have r: "ready (set ?f) s1"
    using assms group_loop_unsuppressed [of _ ?rs mem_env s "[]" "[]"] f by (auto simp: ready_def)
  have cc: "concat gs = ?f"
    using group_loop_contiguous [of mem_env ?rs "[]" "[]" s] f
    by (simp add: concat_contiguous_groups)
  have "\<forall>g\<in>set gs. g \<noteq> [] \<and> successively adjacent g"
    using group_loop_contiguous [of mem_env ?rs "[]" "[]" s] contiguous_groups_adjacent [of "[]"] f
    by simp
  then have g: "\<forall>g\<in>set gs. g \<noteq> [] \<and> successively adjacent g \<and> set g \<subseteq> set ?f"
    using cc by (metis UN_upper set_concat)
  show ?thesis
    using read_groups_ready [OF r g, of "[]"] accept_each_core [OF c] False f cc
    by (simp add: read_registers_batch_def)
qed

text \<open>C5: On a device that answers every read from its memory, a batch read returns the values that
  decoding and filtering the words of each register by itself gives, for the registers that
  are not suppressed, in address order; when none is suppressed that is the result of reading
  the registers one by one. Grouping and slicing change no value and no error.\<close>

theorem batch_read_refines_single_reads:
  "\<not> cl_closing s \<Longrightarrow> cl_has_client s \<Longrightarrow>
     fst (read_registers_batch mem_env regs s)
       = fst (accept_each
           (filter (\<lambda>r. \<not> suppressed mem_env s (rg_address r)) (sort_key rg_address regs)) [] s)
   \<and> (cl_suppressed s = [] \<longrightarrow>
       fst (read_registers_batch mem_env regs s) = fst (read_each mem_env (sort_key rg_address regs) [] s))"
proof -
  assume h: "\<not> cl_closing s" "cl_has_client s"
  have b: "fst (read_registers_batch mem_env regs s) = fst (accept_each
      (filter (\<lambda>r. \<not> suppressed mem_env s (rg_address r)) (sort_key rg_address regs)) [] s)"
    using batch_accept_each [OF h, of regs] by (simp add: core_res_def)
  have "fst (read_registers_batch mem_env regs s) = fst (read_each mem_env (sort_key rg_address regs) [] s)"
    if n: "cl_suppressed s = []"
  proof -
    have "filter (\<lambda>r. \<not> suppressed mem_env s (rg_address r)) (sort_key rg_address regs)
        = sort_key rg_address regs"
      by (simp add: is_suppressed_def n)
    moreover have "ready (set (sort_key rg_address regs)) s" using h n by (simp add: ready_def)
    ultimately show ?thesis
      using b read_each_ready [of "set (sort_key rg_address regs)" s "sort_key rg_address regs" "[]"]
      by (simp add: core_res_def)
  qed
  then show ?thesis using b by blast
qed

theorem batch_read_refines_single_reads_witness:
  "fst (read_registers_batch mem_env [REG_BAT_MAX_SOC, REG_BAT_MIN_SOC]
     ((client_new ''little'' ''keep_last'' (\<lambda>_. 0))\<lparr>cl_has_client := True\<rparr>))
   = fst (read_each mem_env [REG_BAT_MIN_SOC, REG_BAT_MAX_SOC] []
     ((client_new ''little'' ''keep_last'' (\<lambda>_. 0))\<lparr>cl_has_client := True\<rparr>))"
proof -
  let ?s = "(client_new ''little'' ''keep_last'' (\<lambda>_. 0) :: (nat \<Rightarrow> 16 word) client)\<lparr>cl_has_client := True\<rparr>"
  have "sort_key rg_address [REG_BAT_MAX_SOC, REG_BAT_MIN_SOC] = [REG_BAT_MIN_SOC, REG_BAT_MAX_SOC]"
    by (simp add: REG_BAT_MAX_SOC_def REG_BAT_MIN_SOC_def)
  moreover have "\<not> cl_closing ?s" "cl_has_client ?s" "cl_suppressed ?s = []"
    by (simp_all add: client_new_def)
  ultimately show ?thesis
    using batch_read_refines_single_reads [of ?s "[REG_BAT_MAX_SOC, REG_BAT_MIN_SOC]"] by metis
qed

end
