(* ===== verification/ClientFrames.thy ===== *)
theory ClientFrames
  imports ClientBatch
begin

text \<open>
  Relations between the client's state before and after an operation. Every operation is built
  from a few updates of the state; a reflexive and transitive relation that holds for these
  updates holds for every operation. The interpretation shows that the connection generation
  never decreases and that no observation is tagged with a later generation than the current.
\<close>

locale client_reads =
  fixes env :: "'w env"
    and R :: "'w client \<Rightarrow> 'w client \<Rightarrow> bool"
  assumes rel_refl: "R s s"
    and rel_trans: "R s t \<Longrightarrow> R t u \<Longrightarrow> R s u"
    and rel_io_connect: "ev_connect env (cl_world s) = (x, w) \<Longrightarrow> R s (log_io (IOConnect x) w s)"
    and rel_io_read: "ev_read env a n (cl_world s) = (y, w) \<Longrightarrow> R s (log_io (IORead a n y) w s)"
    and rel_io_sleep: "R s (log_io (IOSleep p) (ev_sleep env p (cl_world s)) s)"
    and rel_sched: "ev_sched env (cl_world s) = (ok, w) \<Longrightarrow> R s (s\<lparr>cl_world := w\<rparr>)"
    and rel_link: "R s (s\<lparr>cl_has_client := b\<rparr>)"
    and rel_conn: "R s (s\<lparr>cl_has_client := True, cl_generation := cl_generation s + 1\<rparr>)"
    and rel_exc: "R s (s\<lparr>cl_last_exc_code := c\<rparr>)"
    and rel_failures: "R s (s\<lparr>cl_last_exc_code := c, cl_device_failure_count := k\<rparr>)"
    and rel_order: "R s (s\<lparr>cl_endianness := z, cl_endianness_confirmed := True\<rparr>)"
    and rel_strikes: "R s (s\<lparr>cl_strikes := d\<rparr>)"
    and rel_supp: "R s (s\<lparr>cl_suppressed := f\<rparr>)"
    and rel_retained: "R s (s\<lparr>cl_retained := q\<rparr>)"
    and rel_store: "g \<le> cl_generation s \<Longrightarrow> R s (store_filtered r g v s)"
begin

lemma rel_step: "R s t \<Longrightarrow> R t (u t) \<Longrightarrow> R s (u t)"
  by (rule rel_trans)

lemma rel_connect: "R s (snd (client_connect env s))"
proof -
  obtain r w where e: "ev_connect env (cl_world s) = (r, w)" by fastforce
  have l: "R s (log_io (IOConnect r) w s)" by (rule rel_io_connect [OF e])
  show ?thesis
    using rel_refl rel_trans [OF l rel_link] rel_trans [OF l rel_conn]
    by (cases r) (simp_all add: client_connect_def e Let_def)
qed

lemma rel_reconnect: "R s (snd (client_reconnect env s))"
  using rel_trans [OF rel_link rel_connect] rel_refl
  by (simp add: client_reconnect_def client_disconnect_def)

lemma rel_sleep: "R s (client_sleep env t s)"
  by (simp add: client_sleep_def rel_io_sleep)

lemma rel_raw_read: "R s (snd (raw_read env a n s))"
proof -
  obtain ok w where e: "ev_sched env (cl_world s) = (ok, w)" by fastforce
  let ?s = "s\<lparr>cl_world := w\<rparr>"
  obtain r v where f: "ev_read env a n w = (r, v)" by fastforce
  have l: "R ?s (log_io (IORead a n r) v ?s)" by (rule rel_io_read) (simp add: f)
  have "R ?s (snd (raw_read_inner env a n ?s))"
    using rel_refl l rel_trans [OF l rel_link] rel_trans [OF l rel_failures]
    by (cases r) (simp_all add: raw_read_inner_def f Let_def)
  then show ?thesis
    using rel_trans [OF rel_sched [OF e]] rel_sched [OF e] by (simp add: raw_read_def with_scheduler_def e Let_def)
qed

lemma rel_sbind:
  assumes "R s (snd (m s))" "\<And>a t. R t (snd (k a t))"
  shows "R s (snd (sbind m k s))"
  using assms rel_trans [OF assms(1)] by (cases "m s"; cases "fst (m s)") (auto simp: sbind_def)

lemma rel_detect: "R s (snd (detect_endianness env s))"
  unfolding detect_endianness_def
  by (rule rel_sbind) (auto simp: rel_raw_read rel_refl rel_order Let_def split: sum.splits)

lemma rel_read_recover: "R s (snd (read_recover env s))"
  unfolding read_recover_def
  by (rule rel_sbind) (auto simp: rel_reconnect rel_refl rel_detect intro!: rel_sbind)

lemma rel_write_recover: "R s (snd (write_recover env s))"
  unfolding write_recover_def
  by (rule rel_sbind) (auto simp: rel_reconnect rel_refl rel_detect intro!: rel_sbind)

lemma rel_keep: "R s (snd (keep_or_refuse a s))"
  by (auto simp: keep_or_refuse_def retained_add_def rel_refl rel_retained split: option.splits)

lemma rel_guard: "R s (snd (outlier_guard r v s))"
  by (auto simp: outlier_guard_def Let_def rel_refl rel_keep split: sum.splits)

lemma rel_filter: "R s (snd (apply_quality_filter r v s))"
  using rel_trans [OF rel_retained rel_guard] rel_trans [OF rel_retained rel_keep] rel_retained
  by (simp add: apply_quality_filter_def Let_def split: sum.splits)

lemma rel_pop: "R s (pop_strikes a s)"
  by (simp add: pop_strikes_def rel_strikes)

lemma rel_accept: "R s (snd (accept_bytes r raw s))"
proof (cases "decode_register (cl_endianness s) raw r")
  case (Inl e)
  then show ?thesis by (simp add: accept_bytes_def rel_refl)
next
  case (Inr d)
  obtain x s1 where f: "apply_quality_filter r d s = (x, s1)" by fastforce
  then have "R s s1" "cl_generation s1 = cl_generation s"
    using rel_filter [of s r d] same_link_filter [of r d s s] by (simp_all add: same_link_def)
  then show ?thesis
    using Inr f rel_trans [OF _ rel_store] by (cases x) (simp_all add: accept_bytes_def)
qed

lemma rel_accept_batch:
  assumes "g \<le> cl_generation s" shows "R s (snd (accept_batch r g raw s))"
proof (cases "decode_register (cl_endianness s) raw r")
  case (Inl e)
  then show ?thesis by (simp add: accept_batch_def rel_refl)
next
  case (Inr d)
  obtain x s1 where f: "apply_quality_filter r d s = (x, s1)" by fastforce
  then have "R s s1" "cl_generation s1 = cl_generation s"
    using rel_filter [of s r d] same_link_filter [of r d s s] by (simp_all add: same_link_def)
  then show ?thesis
    using Inr f rel_trans [OF rel_trans [OF _ rel_store] rel_pop] assms
    by (cases x) (simp_all add: accept_batch_def)
qed

lemma rel_read_once: "R s (snd (read_once env r s))"
  unfolding read_once_def
  by (rule rel_sbind) (auto simp: rel_raw_read intro: rel_trans [OF rel_pop rel_accept])

lemma rel_strike: "R s (record_unavailable_strike env a s)"
  using rel_trans [OF rel_strikes rel_supp] rel_strikes
  by (simp add: record_unavailable_strike_def Let_def)

lemma rel_read_loop: "R s (snd (read_loop left env r s))"
proof (induction left arbitrary: s)
  case (0 s)
  obtain x s1 where f: "read_once env r s = (x, s1)" by fastforce
  have o: "R s s1" using rel_read_once [of s r] f by simp
  then show ?case using f rel_trans [OF o rel_strike]
    by (cases x; cases "projl x") (simp_all add: read_loop_0)
next
  case (Suc left s)
  obtain x s1 where f: "read_once env r s = (x, s1)" by fastforce
  have o: "R s s1" using rel_read_once [of s r] f by simp
  obtain y s2 where g: "read_recover env s1 = (y, s2)" by fastforce
  have o2: "R s s2" using rel_trans [OF o rel_read_recover [of s1]] g by simp
  note sl = rel_trans [OF rel_trans [OF o rel_sleep] Suc.IH]
  note rc = rel_trans [OF o2 Suc.IH]
  show ?case
  proof (cases x)
    case (Inr v)
    then show ?thesis using f o by (simp add: read_loop_Suc)
  next
    case (Inl e)
    show ?thesis using f o o2 g sl rc rel_trans [OF o rel_strike] Inl
      by (cases e; cases y) (simp_all add: read_loop_Suc is_conn_error_def)
  qed
qed

lemma rel_is_suppressed: "R s (snd (is_suppressed env a s))"
  by (auto simp: is_suppressed_def rel_refl rel_supp split: option.splits)

lemma rel_read_register: "R s (snd (read_register env r s))"
proof -
  let ?s = "s\<lparr>cl_last_exc_code := None\<rparr>"
  obtain b s1 where f: "is_suppressed env (rg_address r) ?s = (b, s1)" by fastforce
  have "R s s1" using rel_trans [OF rel_exc rel_is_suppressed [of ?s "rg_address r"]] f by simp
  then show ?thesis using f rel_trans [OF _ rel_read_loop] by (simp add: read_register_def)
qed

lemma rel_read_each: "R s (snd (read_each env rs acc s))"
proof (induction rs arbitrary: acc s)
  case (Cons r rs)
  obtain x s1 where f: "read_register env r s = (x, s1)" by fastforce
  have o: "R s s1" using rel_read_register [of s r] f by simp
  then show ?case using f rel_trans [OF o Cons] by (cases x) simp_all
qed (simp add: rel_refl)

lemma rel_decode_group:
  "g \<le> cl_generation s \<Longrightarrow> R s (snd (decode_group g raw off rs acc s))"
proof (induction rs arbitrary: off acc s)
  case (Cons r rs)
  let ?b = "take (rg_count r * 2) (drop (off * 2) raw)"
  obtain x s1 where f: "accept_batch r g ?b s = (x, s1)" by fastforce
  have o: "R s s1" using rel_accept_batch [OF Cons.prems, of r ?b] f by simp
  have "g \<le> cl_generation s1"
    using same_link_batch [of r g ?b s] f Cons.prems by (simp add: same_link_def)
  then show ?case using f o rel_trans [OF o Cons.IH] by (cases x) (simp_all add: Let_def)
qed (simp add: rel_refl)

lemma rel_read_group: "R s (snd (read_group env g acc s))"
proof -
  obtain x s1 where f: "raw_read env (rg_address (hd g)) (total_words g) s = (x, s1)" by fastforce
  have o: "R s s1" using rel_raw_read [of s "rg_address (hd g)" "total_words g"] f by simp
  then show ?thesis
    using f rel_trans [OF o rel_read_each] rel_trans [OF o rel_decode_group]
    by (cases x) (simp_all add: read_group_def)
qed

lemma rel_read_groups: "R s (snd (read_groups env gs acc s))"
proof (induction gs arbitrary: acc s)
  case (Cons g gs)
  define p where "p = (if length g = 1 then read_each env g acc s else read_group env g acc s)"
  obtain x s1 where f: "p = (x, s1)" by fastforce
  have o: "R s s1" using rel_read_each [of s g acc] rel_read_group [of s g acc] f
    by (simp add: p_def split: if_splits)
  have "read_groups env (g # gs) acc s = (if client_closing env s then (Inl ShutdownAbort, s)
      else case p of (Inr acc1, s1) \<Rightarrow> read_groups env gs acc1 s1 | (Inl e, s1) \<Rightarrow> (Inl e, s1))"
    by (simp add: p_def)
  then show ?case using f o rel_trans [OF o Cons] rel_refl by (cases x) simp_all
qed (simp add: rel_refl)

lemma rel_group_loop: "R s (snd (group_loop env rs groups cur s))"
proof (induction rs arbitrary: groups cur s)
  case (Cons r rs)
  obtain b s1 where f: "is_suppressed env (rg_address r) s = (b, s1)" by fastforce
  then have o: "R s s1" using rel_is_suppressed [of s "rg_address r"] by simp
  then show ?case using f rel_trans [OF o Cons] by simp
qed (simp add: rel_refl)

lemma rel_batch: "R s (snd (read_registers_batch env regs s))"
proof -
  obtain gs s1 where f: "group_loop env (sort_key rg_address regs) [] [] s = (gs, s1)" by fastforce
  then have o: "R s s1"
    using rel_group_loop [of s "sort_key rg_address regs" "[]" "[]"] by simp
  show ?thesis using f rel_refl rel_trans [OF o rel_read_groups]
    by (simp add: read_registers_batch_def)
qed

end

text \<open>With the writes.\<close>

locale client_rel = client_reads +
  assumes rel_io_write: "ev_write env single a ws (cl_world s) = (x, w) \<Longrightarrow> R s (log_io (IOWrite a ws x) w s)"
begin

lemma rel_raw_write: "R s (snd (raw_write env a data n s))"
proof -
  obtain ok w where e: "ev_sched env (cl_world s) = (ok, w)" by fastforce
  let ?s = "s\<lparr>cl_world := w\<rparr>"
  have "R ?s (snd (raw_write_inner env a data n ?s))"
  proof (cases "bytes_words data")
    case (Inl x)
    then show ?thesis by (simp add: raw_write_inner_def rel_refl)
  next
    case (Inr regs)
    define ws where "ws = (if n = 1 then [hd regs] else regs)"
    obtain r v where f: "ev_write env (n = 1) a ws w = (r, v)" by fastforce
    have l: "R ?s (log_io (IOWrite a ws r) v ?s)" by (rule rel_io_write [of "n = 1"]) (use f in simp)
    show ?thesis
      using rel_refl f Inr l rel_trans [OF l rel_link]
      by (cases "n = 1"; cases r) (simp_all add: raw_write_inner_def ws_def Let_def)
  qed
  then show ?thesis
    using rel_trans [OF rel_sched [OF e]] rel_sched [OF e] by (simp add: raw_write_def with_scheduler_def e Let_def)
qed

lemma rel_write_loop: "R s (snd (write_loop left env r encoded pre s))"
proof (induction left arbitrary: s)
  case (0 s)
  obtain x s1 where f: "raw_write env (rg_address r) encoded (rg_count r) s = (x, s1)" by fastforce
  have o: "R s s1" using rel_raw_write [of s "rg_address r" encoded "rg_count r"] f by simp
  then show ?case using f rel_refl
    by (cases x; cases "projl x") (simp_all add: write_loop_0)
next
  case (Suc left s)
  obtain x s1 where f: "raw_write env (rg_address r) encoded (rg_count r) s = (x, s1)" by fastforce
  have o: "R s s1" using rel_raw_write [of s "rg_address r" encoded "rg_count r"] f by simp
  obtain y s2 where g: "write_recover env s1 = (y, s2)" by fastforce
  have o2: "R s s2" using rel_trans [OF o rel_write_recover [of s1]] g by simp
  note sl = rel_trans [OF rel_trans [OF o rel_sleep] Suc.IH]
  note rc = rel_trans [OF o2 Suc.IH]
  show ?case
  proof (cases x)
    case (Inr v)
    then show ?thesis using f o rel_refl by (simp add: write_loop_Suc)
  next
    case (Inl e)
    show ?thesis using f o o2 g sl rc rel_refl Inl
      by (cases e; cases y) (simp_all add: write_loop_Suc is_conn_error_def)
  qed
qed

lemma rel_write_register: "R s (snd (write_register env r v pre s))"
  by (simp add: write_register_def rel_refl rel_write_loop split: sum.splits)


end

section \<open>Generations\<close>

text \<open>No observation carries a generation the connection has not reached.\<close>

definition gen_inv :: "'w client \<Rightarrow> bool" where
  "gen_inv s \<longleftrightarrow> (\<forall>a g. cl_obs_gen s a = Some g \<longrightarrow> g \<le> cl_generation s)"

definition advances :: "'w client \<Rightarrow> 'w client \<Rightarrow> bool" where
  "advances s t \<longleftrightarrow> cl_generation s \<le> cl_generation t \<and> (gen_inv s \<longrightarrow> gen_inv t)"

lemma advances_world: "advances s (s\<lparr>cl_world := w\<rparr>)"
  by (simp add: advances_def gen_inv_def)

interpretation gen: client_rel env advances for env
proof
  fix s :: "'w client" and c n
  show "advances s (s\<lparr>cl_last_exc_code := c, cl_device_failure_count := n\<rparr>)"
    by (simp add: advances_def gen_inv_def)
qed (auto simp: advances_def gen_inv_def log_io_def store_filtered_def Let_def intro: le_SucI)

end
