(* ===== verification/ModbusCoordinator.thy ===== *)
theory ModbusCoordinator
  imports ModbusClient WriteAudit Communication
begin

text \<open>
  The polling coordinator (\<^verbatim>\<open>modbus_coordinator.py\<close>): the poll with its fast and slow
  batches, the cache of observations for the proxy, the zero filter, the writes with their
  audit, and the record of the last commanded values.

  \<open>co_data\<close>, \<open>co_last_update_success\<close> and \<open>co_update_interval\<close> belong to Home Assistant's
  update coordinator and are only read here. The record \<open>ha_env\<close> holds the rest of what
  is outside: the wall clock, the store of the capability state, the text of an exception
  and the shortest text of a float. Notifications and the isolation store are not modelled.
\<close>

section \<open>Constants\<close>

definition FAST_POLL_INTERVAL :: rat where "FAST_POLL_INTERVAL = 5"

definition FAST_GROUPS :: "register_group list" where
  "FAST_GROUPS = [G_POWER, G_PHASE, G_BATTERY, G_POWERMETER]"

definition SLOW_GROUPS :: "register_group list" where
  "SLOW_GROUPS = [G_ENERGY, G_CONTROL, G_BATTERY_MGMT, G_BATTERY_LIMIT_G3, G_IO_BOARD]"

definition IMPLAUSIBLE_ZERO :: "string list" where
  "IMPLAUSIBLE_ZERO = [''grid_frequency'', ''phase1_voltage'', ''phase2_voltage'',
     ''phase3_voltage'', ''battery_soc'']"

definition MAX_CONSECUTIVE_ZERO_DROPS :: nat where "MAX_CONSECUTIVE_ZERO_DROPS = 2"

definition INTEGER_WRITE_DATA_TYPES :: "data_type list" where
  "INTEGER_WRITE_DATA_TYPES = [UINT16, SINT16, UINT32, SINT32, UINT8]"

definition fast_regs :: "modbus_register list" where
  "fast_regs = filter (\<lambda>r. rg_group r \<in> set FAST_GROUPS) MONITORING_REGISTERS"

definition slow_regs :: "modbus_register list" where
  "slow_regs = filter (\<lambda>r. rg_group r \<in> set SLOW_GROUPS) MONITORING_REGISTERS"

section \<open>State\<close>

type_synonym readings = "(string \<times> pyval) list"

record 'w ha_env =
  ha_wall :: "'w \<Rightarrow> py_datetime"
  ha_save_caps :: "'w \<Rightarrow> bool \<times> 'w"
  ha_msg :: "modbus_error \<Rightarrow> string"
  ha_frepr :: "pyfloat \<Rightarrow> string"

record 'w coord =
  co_client :: "'w client"
  co_identity :: string
  co_slow_tick :: nat
  co_info_tick :: nat
  co_device_info :: readings
  co_last_slow :: readings
  co_slow_stale :: bool
  co_update_count :: nat
  co_fast_errors :: nat
  co_last_slow_ts :: rat
  co_audit :: "write_audit option"
  co_saved_caps :: "(string \<times> json) list option"
  co_shutting_down :: bool
  co_commanded :: "string \<Rightarrow> (pyfloat \<times> nat) option"
  co_revision :: "string \<Rightarrow> nat"
  co_obs :: "(string \<times> pyval \<times> rat \<times> nat) list"
  co_zero_streak :: "string \<Rightarrow> nat option"
  co_comm :: comm_state
  co_data :: "readings option"
  co_last_update_success :: bool
  co_update_interval :: "rat option"

definition coord_new :: "'w client \<Rightarrow> string \<Rightarrow> 'w coord" where
  "coord_new cl identity = \<lparr>co_client = cl, co_identity = identity, co_slow_tick = 5, co_info_tick = 0,
     co_device_info = [], co_last_slow = [], co_slow_stale = False, co_update_count = 0,
     co_fast_errors = 0, co_last_slow_ts = 0, co_audit = None, co_saved_caps = None,
     co_shutting_down = False, co_commanded = (\<lambda>_. None), co_revision = (\<lambda>_. 0), co_obs = [],
     co_zero_streak = (\<lambda>_. None), co_comm = comm_new, co_data = None,
     co_last_update_success = True, co_update_interval = Some FAST_POLL_INTERVAL\<rparr>"

text \<open>Run a client operation on the coordinator's client.\<close>

definition on_client ::
    "('w client \<Rightarrow> (modbus_error + 'a) \<times> 'w client) \<Rightarrow> 'w coord \<Rightarrow> (modbus_error + 'a) \<times> 'w coord" where
  "on_client f c = (let (x, cl) = f (co_client c) in (x, c\<lparr>co_client := cl\<rparr>))"

definition co_now :: "'w env \<Rightarrow> 'w coord \<Rightarrow> rat" where
  "co_now env c = ev_now env (cl_world (co_client c))"

definition co_generation :: "'w coord \<Rightarrow> nat" where
  "co_generation c = cl_generation (co_client c)"

section \<open>Observations for the proxy\<close>

definition observation_ttl :: "'w coord \<Rightarrow> modbus_register \<Rightarrow> rat" where
  "observation_ttl c r = max 15 ((case co_update_interval c of None \<Rightarrow> FAST_POLL_INTERVAL | Some i \<Rightarrow> i) * 3)
     * (if rg_group r \<in> set SLOW_GROUPS then 6 else 1)"

definition fresh_observation :: "'w env \<Rightarrow> 'w coord \<Rightarrow> string \<times> pyval \<times> rat \<times> nat \<Rightarrow> bool" where
  "fresh_observation env c = (\<lambda>(name, value, observed, generation).
     case REGISTER_BY_NAME name of
       None \<Rightarrow> False
     | Some r \<Rightarrow> generation = co_generation c \<and> 0 \<le> co_now env c - observed
         \<and> co_now env c - observed \<le> observation_ttl c r)"

definition proxy_cache_data :: "'w env \<Rightarrow> 'w coord \<Rightarrow> readings" where
  "proxy_cache_data env c =
     (if co_shutting_down c \<or> \<not> client_connected env (co_client c) \<or> \<not> co_last_update_success c then []
      else map (\<lambda>(name, value, observed, generation). (name, value))
             (filter (fresh_observation env c) (co_obs c)))"

definition observe_one :: "'w env \<Rightarrow> readings \<Rightarrow> modbus_register \<Rightarrow> 'w coord \<Rightarrow> 'w coord" where
  "observe_one env vals r c =
     (let c1 = c\<lparr>co_obs := dict_pop (rg_name r) (co_obs c)\<rparr>
      in case map_of vals (rg_name r) of
           None \<Rightarrow> c1
         | Some v \<Rightarrow>
             if rg_address r \<notin> cl_retained (co_client c) \<and> is_number v \<and> num_is_finite v
             then c1\<lparr>co_obs := dict_set (rg_name r) (v, co_now env c,
                      (case cl_obs_gen (co_client c) (rg_address r) of
                         None \<Rightarrow> co_generation c | Some g \<Rightarrow> g)) (co_obs c1)\<rparr>
             else c1)"

definition observe_for_proxy :: "'w env \<Rightarrow> modbus_register list \<Rightarrow> readings \<Rightarrow> 'w coord \<Rightarrow> 'w coord" where
  "observe_for_proxy env regs vals c = fold (observe_one env vals) regs c"

definition invalidate_proxy_cache :: "nat \<Rightarrow> nat \<Rightarrow> 'w coord \<Rightarrow> 'w coord" where
  "invalidate_proxy_cache address quantity c = c\<lparr>co_obs := filter (\<lambda>(name, _).
     case REGISTER_BY_NAME name of
       None \<Rightarrow> True
     | Some r \<Rightarrow> \<not> (rg_address r < address + quantity \<and> address < rg_address r + rg_count r))
     (co_obs c)\<rparr>"

type_synonym staged = "(modbus_register list \<times> readings) list"

definition is_suspect :: "readings \<Rightarrow> modbus_register \<Rightarrow> bool" where
  "is_suspect vals r \<longleftrightarrow> rg_name r \<in> set IMPLAUSIBLE_ZERO
     \<and> (case map_of vals (rg_name r) of None \<Rightarrow> False | Some v \<Rightarrow> val_eq_zero v)"

definition observe_or_stage ::
    "'w env \<Rightarrow> modbus_register list \<Rightarrow> readings \<Rightarrow> staged \<Rightarrow> 'w coord \<Rightarrow> staged \<times> 'w coord" where
  "observe_or_stage env regs vals staged c =
     (let suspect = filter (is_suspect vals) regs;
          c1 = observe_for_proxy env (filter (\<lambda>r. r \<notin> set suspect) regs) vals c
      in (if suspect \<noteq> []
          then staged @ [(suspect, map (\<lambda>r. (rg_name r, the (map_of vals (rg_name r)))) suspect)]
          else staged, c1))"

definition publish_observations :: "'w env \<Rightarrow> staged \<Rightarrow> string list \<Rightarrow> 'w coord \<Rightarrow> 'w coord" where
  "publish_observations env staged dropped c =
     fold (\<lambda>(regs, vals). observe_for_proxy env regs (filter (\<lambda>(n, v). n \<notin> set dropped) vals)) staged c"

section \<open>The zero filter\<close>

definition drop_zero :: "bool \<Rightarrow> string \<Rightarrow> string list \<times> readings \<times> 'w coord \<Rightarrow> string list \<times> readings \<times> 'w coord" where
  "drop_zero device_failure name = (\<lambda>(dropped, data, c).
     case map_of data name of
       None \<Rightarrow> (dropped, data, c)
     | Some v \<Rightarrow>
         if \<not> device_failure \<or> \<not> val_eq_zero v
         then (dropped, data, c\<lparr>co_zero_streak := (co_zero_streak c)(name := None)\<rparr>)
         else let streak = (case co_zero_streak c name of None \<Rightarrow> 0 | Some n \<Rightarrow> n) + 1;
                  c1 = c\<lparr>co_zero_streak := (co_zero_streak c)(name \<mapsto> streak)\<rparr>
           in if streak \<le> MAX_CONSECUTIVE_ZERO_DROPS
              then (dropped @ [name], dict_pop name data, c1) else (dropped, data, c1))"

definition drop_implausible_zeros ::
    "readings \<Rightarrow> bool \<Rightarrow> 'w coord \<Rightarrow> string list \<times> readings \<times> 'w coord" where
  "drop_implausible_zeros data device_failure c =
     fold (drop_zero device_failure) IMPLAUSIBLE_ZERO ([], data, c)"

section \<open>Commanded values\<close>

definition last_commanded :: "'w coord \<Rightarrow> string \<Rightarrow> pyfloat option" where
  "last_commanded c name = (case co_commanded c name of
     None \<Rightarrow> None
   | Some (v, gen) \<Rightarrow> if gen \<noteq> co_generation c then None else Some v)"

definition command_revision :: "'w coord \<Rightarrow> string \<Rightarrow> nat" where
  "command_revision c name = co_revision c name"

text \<open>The value the register encodes: an integer register receives \<open>int(float(value))\<close>.\<close>

definition commanded_value :: "string \<Rightarrow> pyfloat \<Rightarrow> pyexc + pyfloat" where
  "commanded_value name fval = (case REGISTER_BY_NAME name of
     Some r \<Rightarrow> if rg_dtype r \<in> set INTEGER_WRITE_DATA_TYPES
                then bind_res (int_of_float fval) float_of_int else Inr fval
   | None \<Rightarrow> Inr fval)"

definition record_commanded :: "string \<Rightarrow> pyval \<Rightarrow> 'w coord \<Rightarrow> (modbus_error + unit) \<times> 'w coord" where
  "record_commanded name value c =
     (let c1 = c\<lparr>co_revision := (co_revision c)(name := co_revision c name + 1)\<rparr>
      in case float_of_val value of
           Inl e \<Rightarrow>
             if e \<in> {TypeError, ValueError}
             then (Inr (), c1\<lparr>co_commanded := (co_commanded c1)(name := None)\<rparr>)
             else (Inl (PyExc e), c1)
         | Inr fval \<Rightarrow> (case commanded_value name fval of
             Inl e \<Rightarrow> (Inl (PyExc e), c1)
           | Inr v \<Rightarrow> (Inr (), c1\<lparr>co_commanded := (co_commanded c1)(name \<mapsto> (v, co_generation c1))\<rparr>)))"

section \<open>The poll\<close>

datatype poll_error = UpdateFailed | PollRaised modbus_error

definition poll_error_of :: "modbus_error \<Rightarrow> poll_error" where
  "poll_error_of e = (if is_conn_error e then UpdateFailed else PollRaised e)"

definition cached_poll_data :: "'w coord \<Rightarrow> readings" where
  "cached_poll_data c =
     dict_update (dict_update [] (case co_data c of None \<Rightarrow> [] | Some d \<Rightarrow> d)) (co_last_slow c)"

definition co_stopping :: "'w env \<Rightarrow> 'w coord \<Rightarrow> bool" where
  "co_stopping env c \<longleftrightarrow> co_shutting_down c \<or> client_closing env (co_client c)"

text \<open>Reconnect when the link is down: nothing known before is kept.\<close>

definition poll_connect :: "'w env \<Rightarrow> 'w coord \<Rightarrow> (poll_error + unit) \<times> 'w coord" where
  "poll_connect env c =
     (if client_connected env (co_client c) then (Inr (), c)
      else case on_client (client_connect env) c of
        (Inl e, c1) \<Rightarrow> (Inl (poll_error_of e), c1)
      | (Inr _, c1) \<Rightarrow> (case on_client (detect_endianness env) c1 of
          (Inl e, c2) \<Rightarrow> (Inl (poll_error_of e), c2)
        | (Inr _, c2) \<Rightarrow> (Inr (), c2\<lparr>co_slow_tick := 5, co_last_slow := [], co_obs := []\<rparr>)))"

text \<open>Values the quality filter retained from an earlier read are not this poll's readings.\<close>

definition drop_rejected :: "modbus_register list \<Rightarrow> 'w coord \<Rightarrow> readings \<Rightarrow> readings" where
  "drop_rejected regs c result = filter (\<lambda>(n, v). n \<notin> set (map rg_name
     (filter (\<lambda>r. rg_address r \<in> cl_retained (co_client c)) regs))) result"

definition co_unavailable :: "'w coord \<Rightarrow> modbus_register \<Rightarrow> bool" where
  "co_unavailable c r \<longleftrightarrow> int (rg_address r) \<in> unavailable_registers (co_client c)"

definition is_missing :: "readings \<Rightarrow> modbus_register \<Rightarrow> bool" where
  "is_missing result r \<longleftrightarrow> map_of result (rg_name r) = None"

datatype fast_result = FastCached | FastFailed poll_error | FastOk readings staged nat nat

definition poll_fast :: "'w env \<Rightarrow> nat \<Rightarrow> 'w coord \<Rightarrow> fast_result \<times> 'w coord" where
  "poll_fast env generation_before c = (case on_client (read_registers_batch env fast_regs) c of
     (Inl e, c1) \<Rightarrow>
       if e = ShutdownAbort then (FastCached, c1)
       else if e = ConnectionError \<and> co_stopping env c1 then (FastCached, c1)
       else (FastFailed (poll_error_of e), c1)
   | (Inr result0, c1) \<Rightarrow>
       (let c2 = (if co_generation c1 \<noteq> generation_before
                  then c1\<lparr>co_last_slow := [], co_slow_tick := 5, co_obs := []\<rparr> else c1);
            result = drop_rejected fast_regs c2 result0;
            (staged, c3) = observe_or_stage env fast_regs result [] c2;
            errors = length (filter (\<lambda>r. is_missing result r \<and> \<not> co_unavailable c3 r) fast_regs);
            skipped = length (filter (co_unavailable c3) fast_regs)
        in (FastOk (dict_update [] result) staged errors skipped, c3)))"

definition poll_slow ::
    "'w env \<Rightarrow> nat \<Rightarrow> readings \<Rightarrow> staged \<Rightarrow> 'w coord \<Rightarrow> (modbus_error + readings \<times> staged) \<times> 'w coord" where
  "poll_slow env generation_before data staged c =
     (case on_client (read_registers_batch env slow_regs) c of
        (Inl e, c1) \<Rightarrow>
          if is_client_error e
          then (Inr (data, staged), observe_for_proxy env slow_regs [] (c1\<lparr>co_slow_stale := True\<rparr>))
          else (Inl e, c1)
      | (Inr result0, c1) \<Rightarrow>
          (let reset = (co_generation c1 \<noteq> generation_before);
               data1 = (if reset then fold (\<lambda>r. dict_pop (rg_name r)) slow_regs data else data);
               staged1 = (if reset then [] else staged);
               c2 = (if reset then c1\<lparr>co_obs := []\<rparr> else c1);
               result = drop_rejected slow_regs c2 result0;
               (staged2, c3) = observe_or_stage env slow_regs result staged1 c2;
               c4 = c3\<lparr>co_last_slow := result, co_last_slow_ts := co_now env c3,
                  co_slow_stale := list_ex (\<lambda>r. is_missing result r \<and> \<not> co_unavailable c3 r) slow_regs\<rparr>
           in (Inr (dict_update data1 result, staged2), c4)))"

definition info_regs :: "modbus_register list" where
  "info_regs = [REG_SERIAL_NUMBER, REG_PRODUCT_NAME, REG_SW_VERSION, REG_NUM_PV_STRINGS,
     REG_NUM_BIDIRECTIONAL, REG_INVERTER_STATE, REG_BATTERY_TYPE, REG_INVERTER_MAX_POWER,
     REG_BATTERY_MGMT_MODE]"

fun read_info_loop :: "'w env \<Rightarrow> modbus_register list \<Rightarrow> 'w coord \<Rightarrow> (modbus_error + unit) \<times> 'w coord" where
  "read_info_loop env [] c = (Inr (), c)"
| "read_info_loop env (r # rs) c = (case on_client (read_register env r) c of
     (Inr v, c1) \<Rightarrow>
       read_info_loop env rs (c1\<lparr>co_device_info := dict_set (rg_name r) v (co_device_info c1)\<rparr>)
   | (Inl e, c1) \<Rightarrow> if is_client_error e then read_info_loop env rs c1 else (Inl e, c1))"

definition read_device_info :: "'w env \<Rightarrow> 'w coord \<Rightarrow> (modbus_error + unit) \<times> 'w coord" where
  "read_device_info env = read_info_loop env info_regs"

text \<open>
  The capability state is saved when its sorted JSON changed. Two levels are sorted; an export has
  no deeper ones, so what lies deeper in a stored state cannot make it equal to an export.
\<close>

definition sorted_state :: "(string \<times> json) list \<Rightarrow> (string \<times> json) list" where
  "sorted_state d = sort_key fst (map (\<lambda>(k, v). (k, case v of JObj e \<Rightarrow> JObj (sort_key fst e) | _ \<Rightarrow> v)) d)"

definition capability_state :: "'w client \<Rightarrow> (string \<times> json) list" where
  "capability_state s = [(''strikes'', JObj (map (\<lambda>(a, v). (a, JInt v)) (export_unavailable_state s)))]"

definition save_capabilities :: "'w ha_env \<Rightarrow> 'w coord \<Rightarrow> 'w coord" where
  "save_capabilities ha c =
     (let encoded = sorted_state (capability_state (co_client c))
      in if co_saved_caps c = Some encoded then c
         else let (ok, w) = ha_save_caps ha (cl_world (co_client c));
                  c1 = c\<lparr>co_client := (co_client c)\<lparr>cl_world := w\<rparr>\<rparr>
           in if ok then c1\<lparr>co_saved_caps := Some encoded\<rparr> else c1)"

text \<open>The end of a poll: the zero filter, the staged observations, the capability state.\<close>

definition poll_finish ::
    "'w env \<Rightarrow> 'w ha_env \<Rightarrow> nat \<Rightarrow> readings \<Rightarrow> staged \<Rightarrow> 'w coord \<Rightarrow> (poll_error + readings) \<times> 'w coord" where
  "poll_finish env ha failures_before data staged c =
     (let (dropped, data1, c1) = drop_implausible_zeros data
            (failures_before < cl_device_failure_count (co_client c)) c
      in (Inr data1, save_capabilities ha (publish_observations env staged dropped c1)))"

definition poll_info ::
    "'w env \<Rightarrow> 'w ha_env \<Rightarrow> nat \<Rightarrow> readings \<Rightarrow> staged \<Rightarrow> 'w coord \<Rightarrow> (poll_error + readings) \<times> 'w coord" where
  "poll_info env ha failures_before data staged c =
     (let c1 = c\<lparr>co_info_tick := co_info_tick c + 1\<rparr>
      in if 60 \<le> co_info_tick c1
         then (case read_device_info env (c1\<lparr>co_info_tick := 0\<rparr>) of
             (Inl e, c2) \<Rightarrow> (Inl (PollRaised e), c2)
           | (Inr _, c2) \<Rightarrow> poll_finish env ha failures_before data staged c2)
         else poll_finish env ha failures_before data staged c1)"

definition poll_rest ::
    "'w env \<Rightarrow> 'w ha_env \<Rightarrow> nat \<Rightarrow> nat \<Rightarrow> readings \<Rightarrow> staged \<Rightarrow> 'w coord
     \<Rightarrow> (poll_error + readings) \<times> 'w coord" where
  "poll_rest env ha failures_before generation_before data0 staged c =
     (let data = dict_update data0 (co_last_slow c);
          c1 = c\<lparr>co_slow_tick := co_slow_tick c + 1\<rparr>
      in if 6 \<le> co_slow_tick c1
         then (case poll_slow env generation_before data staged (c1\<lparr>co_slow_tick := 0\<rparr>) of
             (Inl e, c2) \<Rightarrow> (Inl (PollRaised e), c2)
           | (Inr (data1, staged1), c2) \<Rightarrow> poll_info env ha failures_before data1 staged1 c2)
         else poll_info env ha failures_before data staged c1)"

definition async_poll_data :: "'w env \<Rightarrow> 'w ha_env \<Rightarrow> 'w coord \<Rightarrow> (poll_error + readings) \<times> 'w coord" where
  "async_poll_data env ha c =
     (if co_stopping env c then (Inr (cached_poll_data c), c)
      else case poll_connect env c of
        (Inl e, c1) \<Rightarrow> (Inl e, c1)
      | (Inr _, c1) \<Rightarrow>
          (let c2 = c1\<lparr>co_update_count := co_update_count c1 + 1\<rparr>;
               failures_before = cl_device_failure_count (co_client c2);
               generation_before = co_generation c2
           in case poll_fast env generation_before c2 of
                (FastCached, c3) \<Rightarrow> (Inr (cached_poll_data c3), c3)
              | (FastFailed e, c3) \<Rightarrow> (Inl e, c3)
              | (FastOk data staged errors skipped, c3) \<Rightarrow>
                  (let c4 = (if 0 < errors then c3\<lparr>co_fast_errors := co_fast_errors c3 + errors\<rparr> else c3)
                   in if fast_regs \<noteq> [] \<and> length fast_regs \<le> errors
                      then (Inl UpdateFailed, publish_observations env staged [] c4)
                      else poll_rest env ha failures_before generation_before data staged c4)))"

text \<open>The notification and its store are input and output; the state they report is kept.\<close>

definition report_communication :: "'w ha_env \<Rightarrow> string list \<Rightarrow> 'w coord \<Rightarrow> 'w coord" where
  "report_communication ha faults c =
     (case comm_observe faults (ha_wall ha (cl_world (co_client c))) None (co_comm c) of
        Inl _ \<Rightarrow> c | Inr (_, s) \<Rightarrow> c\<lparr>co_comm := s\<rparr>)"

definition async_update_data :: "'w env \<Rightarrow> 'w ha_env \<Rightarrow> 'w coord \<Rightarrow> (poll_error + readings) \<times> 'w coord" where
  "async_update_data env ha c = (case async_poll_data env ha c of
     (Inl UpdateFailed, c1) \<Rightarrow> (Inl UpdateFailed, report_communication ha [''modbus''] c1)
   | (Inl e, c1) \<Rightarrow> (Inl e, c1)
   | (Inr data, c1) \<Rightarrow>
       if co_stopping env c1 then (Inr data, c1)
       else (Inr data, report_communication ha
          (if co_fast_errors c < co_fast_errors c1 \<or> co_slow_stale c1 then [''modbus_partial''] else []) c1))"

section \<open>Set-up, capabilities, shutdown\<close>

definition capability_signature :: "'w ha_env \<Rightarrow> 'w coord \<Rightarrow> string" where
  "capability_signature ha c = co_identity c @ '':'' @ str_of_val (ha_frepr ha)
     (case map_of (co_device_info c) ''sw_version'' of None \<Rightarrow> VStr ''unknown'' | Some v \<Rightarrow> v)"

fun json_val :: "json \<Rightarrow> pyval" where
  "json_val (JBool b) = VBool b"
| "json_val (JInt i) = VInt i"
| "json_val (JFloat x) = VFloat x"
| "json_val (JStr s) = VStr s"
| "json_val _ = VNone"

text \<open>
  The stored payload, or \<open>None\<close> when loading failed or nothing was stored. A state that
  cannot be imported is ignored.
\<close>

definition load_capabilities :: "'w ha_env \<Rightarrow> json option \<Rightarrow> 'w coord \<Rightarrow> 'w coord" where
  "load_capabilities ha stored c = (case stored of
     None \<Rightarrow> c
   | Some js \<Rightarrow>
       if json_get ''signature'' js \<noteq> JStr (capability_signature ha c) then c
       else (case json_get ''state'' js of
         JObj d \<Rightarrow> (case (case map_of d ''strikes'' of None \<Rightarrow> JObj [] | Some x \<Rightarrow> x) of
             JObj strikes \<Rightarrow>
               (case import_unavailable_state (map (\<lambda>(k, v). (k, json_val v)) strikes) (co_client c) of
                  (Inl _, _) \<Rightarrow> c
                | (Inr _, cl) \<Rightarrow> c\<lparr>co_client := cl,
                    co_saved_caps := Some (sorted_state d)\<rparr>)
           | _ \<Rightarrow> c)
       | _ \<Rightarrow> c))"

definition async_setup ::
    "'w env \<Rightarrow> 'w ha_env \<Rightarrow> (string \<Rightarrow> py_datetime option) \<Rightarrow> json option \<Rightarrow> json option \<Rightarrow> 'w coord
     \<Rightarrow> (modbus_error + unit) \<times> 'w coord" where
  "async_setup env ha fromiso stored_comm stored_caps c =
     (let c0 = (case stored_comm of None \<Rightarrow> c | Some js \<Rightarrow> c\<lparr>co_comm := comm_restore fromiso js\<rparr>)
      in sbind (on_client (client_connect env)) (\<lambda>_.
         sbind (on_client (detect_endianness env)) (\<lambda>_.
         sbind (read_device_info env) (\<lambda>_ c1. (Inr (), load_capabilities ha stored_caps c1)))) c0)"

definition coord_shutdown :: "'w coord \<Rightarrow> 'w coord" where
  "coord_shutdown c = c\<lparr>co_shutting_down := True, co_client := client_shutdown (co_client c)\<rparr>"

section \<open>Writes\<close>

definition audit_event ::
    "'w env \<Rightarrow> string \<Rightarrow> string \<Rightarrow> pyval \<Rightarrow> string \<Rightarrow> string \<Rightarrow> 'w coord \<Rightarrow> 'w coord" where
  "audit_event env source key value result detail c = (case co_audit c of
     None \<Rightarrow> c
   | Some a \<Rightarrow> c\<lparr>co_audit := Some (audit_log \<lparr>we_ts = co_now env c, we_source = source, we_key = key,
       we_value = value, we_result = result, we_detail = detail\<rparr> a)\<rparr>)"

definition pop_observation :: "string \<Rightarrow> 'w coord \<Rightarrow> 'w coord" where
  "pop_observation name c = c\<lparr>co_obs := dict_pop name (co_obs c)\<rparr>"

definition not_finite_float :: "pyval \<Rightarrow> bool" where
  "not_finite_float v = (case v of VFloat x \<Rightarrow> is_nan x \<or> is_inf x | _ \<Rightarrow> False)"

definition async_write_register ::
    "'w env \<Rightarrow> 'w ha_env \<Rightarrow> modbus_register \<Rightarrow> pyval \<Rightarrow> string \<Rightarrow> ('w client \<Rightarrow> bool) option \<Rightarrow> bool
     \<Rightarrow> 'w coord \<Rightarrow> (modbus_error + unit) \<times> 'w coord" where
  "async_write_register env ha r value source precondition record_command c =
     (if rg_access r \<noteq> RW then (Inl (PyExc ValueError), c)
      else if not_finite_float value then (Inl (PyExc ValueError), c)
      else
        let write = (\<lambda>c0. sbind (on_client (write_register env r value precondition)) (\<lambda>_ c1.
              let c2 = (if r \<in> set CONTROL_READBACK_REGISTERS then c1\<lparr>co_slow_tick := 5\<rparr> else c1)
              in if record_command then record_commanded (rg_name r) value c2 else (Inr (), c2)) c0)
        in case write (pop_observation (rg_name r) c) of
             (Inr _, c1) \<Rightarrow> (Inr (), audit_event env source (rg_name r) value ''ok'' [] c1)
           | (Inl e, c1) \<Rightarrow> (Inl e, audit_event env source (rg_name r) value ''error'' (ha_msg ha e) c1))"

definition async_write_by_name ::
    "'w env \<Rightarrow> string \<Rightarrow> pyval \<Rightarrow> 'w coord \<Rightarrow> (modbus_error + unit) \<times> 'w coord" where
  "async_write_by_name env name value c =
     sbind (on_client (write_by_name env name value)) (\<lambda>_. record_commanded name value)
       (pop_observation name c)"

definition async_write_by_address ::
    "'w env \<Rightarrow> 'w ha_env \<Rightarrow> nat \<Rightarrow> pyval \<Rightarrow> string \<Rightarrow> 'w coord \<Rightarrow> (modbus_error + unit) \<times> 'w coord" where
  "async_write_by_address env ha address value source c =
     (let key = ''addr:'' @ nat_dec address;
          c0 = (case REGISTER_BY_ADDRESS address of None \<Rightarrow> c | Some r \<Rightarrow> pop_observation (rg_name r) c)
      in case sbind (on_client (write_by_address env address value)) (\<lambda>_ c1.
             case REGISTER_BY_ADDRESS address of
               None \<Rightarrow> (Inr (), c1) | Some r \<Rightarrow> record_commanded (rg_name r) value c1) c0 of
           (Inr _, c1) \<Rightarrow> (Inr (), audit_event env source key value ''ok'' [] c1)
         | (Inl e, c1) \<Rightarrow> (Inl e, audit_event env source key value ''error'' (ha_msg ha e) c1))"

end
