(* ===== verification/CoordProofs.thy ===== *)
theory CoordProofs
  imports ModbusCoordinator ClientFrames ClientWrites
begin

text \<open>
  Properties of the coordinator: what the proxy cache and the record of commanded values may
  serve after a reconnect, what a write leaves in the cache and in the audit, and the zero
  filter over several polls.
\<close>

section \<open>Invariant\<close>

definition obs_ok :: "nat \<Rightarrow> string \<times> pyval \<times> rat \<times> nat \<Rightarrow> bool" where
  "obs_ok gen = (\<lambda>(n, v, t, g). g \<le> gen \<and> is_number v \<and> num_is_finite v)"

definition co_inv :: "'w coord \<Rightarrow> bool" where
  "co_inv c \<longleftrightarrow> gen_inv (co_client c) \<and> list_all (obs_ok (co_generation c)) (co_obs c)
     \<and> (\<forall>n v g. co_commanded c n = Some (v, g) \<longrightarrow> g \<le> co_generation c)"

lemma list_all_dict_set: "list_all P d \<Longrightarrow> P (k, v) \<Longrightarrow> list_all P (dict_set k v d)"
  by (induction k v d rule: dict_set.induct) auto

lemma list_all_dict_pop: "list_all P d \<Longrightarrow> list_all P (dict_pop k d)"
  by (auto simp: dict_pop_def list_all_iff)

lemma list_all_filter: "list_all P d \<Longrightarrow> list_all P (filter Q d)"
  by (auto simp: list_all_iff)

text \<open>Fields the invariant does not look at.\<close>

lemma co_inv_update [simp]:
  "co_inv (c\<lparr>co_slow_tick := a\<rparr>) = co_inv c" "co_inv (c\<lparr>co_info_tick := a\<rparr>) = co_inv c"
  "co_inv (c\<lparr>co_device_info := b\<rparr>) = co_inv c" "co_inv (c\<lparr>co_last_slow := b\<rparr>) = co_inv c"
  "co_inv (c\<lparr>co_slow_stale := d\<rparr>) = co_inv c" "co_inv (c\<lparr>co_update_count := a\<rparr>) = co_inv c"
  "co_inv (c\<lparr>co_fast_errors := a\<rparr>) = co_inv c" "co_inv (c\<lparr>co_last_slow_ts := e\<rparr>) = co_inv c"
  "co_inv (c\<lparr>co_audit := f\<rparr>) = co_inv c" "co_inv (c\<lparr>co_saved_caps := g\<rparr>) = co_inv c"
  "co_inv (c\<lparr>co_revision := h\<rparr>) = co_inv c" "co_inv (c\<lparr>co_zero_streak := i\<rparr>) = co_inv c"
  "co_inv (c\<lparr>co_comm := j\<rparr>) = co_inv c"
  by (simp_all add: co_inv_def co_generation_def)

lemma co_inv_obs_Nil [simp]: "co_inv c \<Longrightarrow> co_inv (c\<lparr>co_obs := []\<rparr>)"
  by (simp add: co_inv_def co_generation_def)

lemma obs_ok_mono: "obs_ok g e \<Longrightarrow> g \<le> h \<Longrightarrow> obs_ok h e"
  by (auto simp: obs_ok_def)

lemma co_inv_client: "co_inv c \<Longrightarrow> advances (co_client c) cl \<Longrightarrow> co_inv (c\<lparr>co_client := cl\<rparr>)"
  unfolding co_inv_def co_generation_def advances_def
  by (auto simp: list_all_iff intro: obs_ok_mono) (meson le_trans)

lemma co_inv_on_client:
  assumes "co_inv c" "on_client f c = (x, c1)" "\<And>s. advances s (snd (f s))"
  shows "co_inv c1"
  using co_inv_client [OF assms(1) assms(3)] assms(2) by (auto simp: on_client_def split: prod.splits)

lemma on_client_eq: "on_client f c = (x, c1) \<Longrightarrow> f (co_client c) = (x, co_client c1) \<and> c1 = c\<lparr>co_client := co_client c1\<rparr>"
  by (auto simp: on_client_def split: prod.splits)

lemma observe_one_inv: "co_inv c \<Longrightarrow> co_inv (observe_one env vals r c)"
  unfolding co_inv_def observe_one_def Let_def
  by (auto simp: co_generation_def obs_ok_def gen_inv_def list_all_dict_pop
      intro!: list_all_dict_set split: option.splits)

lemma observe_for_proxy_inv: "co_inv c \<Longrightarrow> co_inv (observe_for_proxy env regs vals c)"
  by (induction regs arbitrary: c) (simp_all add: observe_for_proxy_def observe_one_inv)

lemma observe_or_stage_inv: "co_inv c \<Longrightarrow> co_inv (snd (observe_or_stage env regs vals st c))"
  by (simp add: observe_or_stage_def Let_def observe_for_proxy_inv)

lemma publish_inv: "co_inv c \<Longrightarrow> co_inv (publish_observations env st dropped c)"
  unfolding publish_observations_def
  by (induction st arbitrary: c) (auto simp: observe_for_proxy_inv)

lemma invalidate_inv: "co_inv c \<Longrightarrow> co_inv (invalidate_proxy_cache a q c)"
  by (simp add: co_inv_def invalidate_proxy_cache_def co_generation_def list_all_filter)

lemma pop_observation_inv: "co_inv c \<Longrightarrow> co_inv (pop_observation n c)"
  by (simp add: co_inv_def pop_observation_def co_generation_def list_all_dict_pop)

lemma audit_inv [simp]: "co_inv (audit_event env src key v res det c) = co_inv c"
  by (simp add: audit_event_def split: option.splits)

lemma drop_zero_inv: "co_inv (snd (snd (drop_zero f n t))) = co_inv (snd (snd t))"
  by (cases t) (auto simp: drop_zero_def Let_def split: option.splits)

lemma drop_zeros_inv: "co_inv (snd (snd (drop_implausible_zeros d f c))) = co_inv c"
proof -
  have "co_inv (snd (snd (fold (drop_zero f) ns t))) = co_inv (snd (snd t))"
    for ns and t :: "string list \<times> readings \<times> 'w coord"
    by (induction ns arbitrary: t) (simp_all add: drop_zero_inv)
  from this [of IMPLAUSIBLE_ZERO "([], d, c)"] show ?thesis by (simp add: drop_implausible_zeros_def)
qed

lemma save_caps_inv: "co_inv c \<Longrightarrow> co_inv (save_capabilities ha c)"
  using co_inv_client [of c] advances_world [of "co_client c"]
  by (simp add: save_capabilities_def Let_def split: prod.splits)

lemma record_commanded_inv: "co_inv c \<Longrightarrow> co_inv (snd (record_commanded n v c))"
  unfolding record_commanded_def Let_def
  by (auto simp: co_inv_def co_generation_def split: sum.splits)

section \<open>The operations keep it\<close>

lemma poll_connect_inv:
  assumes "co_inv c" shows "co_inv (snd (poll_connect env c))"
proof (cases "client_connected env (co_client c)")
  case True
  then show ?thesis using assms by (simp add: poll_connect_def)
next
  case False
  obtain x c1 where f: "on_client (client_connect env) c = (x, c1)" by fastforce
  have i1: "co_inv c1"
by (rule co_inv_on_client [OF assms f gen.rel_connect])
  obtain y c2 where g: "on_client (detect_endianness env) c1 = (y, c2)" by fastforce
  have i2: "co_inv c2"
by (rule co_inv_on_client [OF i1 g gen.rel_detect])
  show ?thesis using False f g i1 i2 by (cases x; cases y) (simp_all add: poll_connect_def)
qed

lemma poll_fast_inv:
  assumes "co_inv c" shows "co_inv (snd (poll_fast env g c))"
proof -
  obtain x c1 where f: "on_client (read_registers_batch env fast_regs) c = (x, c1)" by fastforce
  have i: "co_inv c1" by (rule co_inv_on_client [OF assms f gen.rel_batch])
  show ?thesis
  proof (cases x)
    case (Inl e)
    then show ?thesis using f i by (simp add: poll_fast_def)
  next
    case (Inr res)
    then show ?thesis using f i
      by (auto simp: poll_fast_def Let_def split: prod.splits)
        (metis co_inv_obs_Nil co_inv_update observe_or_stage_inv snd_conv)+
  qed
qed

lemma poll_slow_inv:
  assumes "co_inv c" shows "co_inv (snd (poll_slow env g d st c))"
proof -
  obtain x c1 where f: "on_client (read_registers_batch env slow_regs) c = (x, c1)" by fastforce
  have i: "co_inv c1" by (rule co_inv_on_client [OF assms f gen.rel_batch])
  show ?thesis
  proof (cases x)
    case (Inl e)
    then show ?thesis using f i by (simp add: poll_slow_def observe_for_proxy_inv)
  next
    case (Inr res)
    define c2 where "c2 = (if co_generation c1 \<noteq> g then c1\<lparr>co_obs := []\<rparr> else c1)"
    define st1 where "st1 = (if co_generation c1 \<noteq> g then [] else st)"
    obtain st2 c3 where h: "observe_or_stage env slow_regs (drop_rejected slow_regs c2 res) st1 c2 = (st2, c3)"
      by fastforce
    have "co_inv c2" using i by (simp add: c2_def)
    then have "co_inv c3" using observe_or_stage_inv [of c2] h by (metis snd_conv)
    then show ?thesis using f Inr h
      by (simp add: poll_slow_def Let_def c2_def [symmetric] st1_def [symmetric])
  qed
qed

lemma read_info_loop_inv: "co_inv c \<Longrightarrow> co_inv (snd (read_info_loop env rs c))"
proof (induction rs arbitrary: c)
  case (Cons r rs)
  obtain x c1 where f: "on_client (read_register env r) c = (x, c1)" by fastforce
  have i: "co_inv c1" by (rule co_inv_on_client [OF Cons.prems f gen.rel_read_register])
  then show ?case using Cons.IH f by (cases x) simp_all
qed simp

lemma poll_finish_inv: "co_inv c \<Longrightarrow> co_inv (snd (poll_finish env ha n d st c))"
  unfolding poll_finish_def Let_def
  by (cases "drop_implausible_zeros d (n < cl_device_failure_count (co_client c)) c")
     (auto intro!: save_caps_inv publish_inv
       simp: drop_zeros_inv [of d "n < cl_device_failure_count (co_client c)" c, symmetric])

lemma poll_info_inv:
  assumes "co_inv c" shows "co_inv (snd (poll_info env ha n d st c))"
proof -
  let ?c = "c\<lparr>co_info_tick := co_info_tick c + 1\<rparr>"
  obtain x c2 where f: "read_device_info env (?c\<lparr>co_info_tick := 0\<rparr>) = (x, c2)" by fastforce
  have "co_inv c2"
    using read_info_loop_inv [of "?c\<lparr>co_info_tick := 0\<rparr>" env info_regs] f assms
    by (simp add: read_device_info_def)
  then show ?thesis using assms f
    by (cases x) (simp_all add: poll_info_def Let_def poll_finish_inv)
qed

lemma poll_rest_inv:
  assumes "co_inv c" shows "co_inv (snd (poll_rest env ha n g d st c))"
proof -
  let ?c = "c\<lparr>co_slow_tick := co_slow_tick c + 1\<rparr>"
  let ?d = "dict_update d (co_last_slow c)"
  obtain x c2 where f: "poll_slow env g ?d st (?c\<lparr>co_slow_tick := 0\<rparr>) = (x, c2)" by fastforce
  have "co_inv c2"
    using poll_slow_inv [of "?c\<lparr>co_slow_tick := 0\<rparr>" env g ?d st] f assms by simp
  then show ?thesis using assms f
    by (cases x) (simp_all add: poll_rest_def Let_def poll_info_inv split: prod.splits)
qed

lemma async_poll_inv:
  assumes "co_inv c" shows "co_inv (snd (async_poll_data env ha c))"
proof -
  obtain x c1 where f: "poll_connect env c = (x, c1)" by fastforce
  let ?c2 = "c1\<lparr>co_update_count := co_update_count c1 + 1\<rparr>"
  have "co_inv ?c2" using poll_connect_inv [OF assms, of env] f by simp
  obtain r c3 where g: "poll_fast env (co_generation ?c2) ?c2 = (r, c3)" by fastforce
  have i3: "co_inv c3" using poll_fast_inv [OF \<open>co_inv ?c2\<close>, of env "co_generation ?c2"] g by simp
  have i1: "co_inv c1" using poll_connect_inv [OF assms, of env] f by simp
  show ?thesis using f g i1 i3 assms
    by (cases x; cases r)
       (simp_all add: async_poll_data_def Let_def publish_inv poll_rest_inv)
qed

lemma report_inv [simp]: "co_inv (report_communication ha fs c) = co_inv c"
  by (simp add: report_communication_def split: sum.splits prod.splits)

lemma async_update_inv:
  assumes "co_inv c" shows "co_inv (snd (async_update_data env ha c))"
proof -
  obtain x c1 where f: "async_poll_data env ha c = (x, c1)" by fastforce
  then have "co_inv c1" using async_poll_inv [OF assms, of env ha] by simp
  then show ?thesis using f
    by (cases x; cases "projl x") (simp_all add: async_update_data_def)
qed

lemma write_inv:
  assumes "co_inv c" shows "co_inv (snd (async_write_register env ha r v src pre rec c))"
proof -
  obtain x c1 where f: "on_client (write_register env r v pre) (pop_observation (rg_name r) c) = (x, c1)"
    by fastforce
  have i: "co_inv c1"
    by (rule co_inv_on_client [OF pop_observation_inv [OF assms] f gen.rel_write_register])
  define c2 where "c2 = (if r \<in> set CONTROL_READBACK_REGISTERS then c1\<lparr>co_slow_tick := 5\<rparr> else c1)"
  have i2: "co_inv c2" using i by (simp add: c2_def)
  obtain y c3 where g: "record_commanded (rg_name r) v c2 = (y, c3)" by fastforce
  have i3: "co_inv c3" using record_commanded_inv [OF i2, of "rg_name r" v] g by simp
  show ?thesis using assms f g i i2 i3
    by (cases x; cases y; cases rec)
       (simp_all add: async_write_register_def sbind_def c2_def [symmetric])
qed

lemma write_by_name_inv:
  assumes "co_inv c" shows "co_inv (snd (async_write_by_name env n v c))"
proof -
  have a: "advances s (snd (write_by_name env n v s))" for s
    by (simp add: write_by_name_def gen.rel_refl gen.rel_write_register split: option.splits)
  obtain x c1 where f: "on_client (write_by_name env n v) (pop_observation n c) = (x, c1)" by fastforce
  have "co_inv c1" by (rule co_inv_on_client [OF pop_observation_inv [OF assms] f a])
  then show ?thesis using f record_commanded_inv
    by (cases x) (simp_all add: async_write_by_name_def sbind_def)
qed

lemma write_by_address_inv:
  assumes "co_inv c" shows "co_inv (snd (async_write_by_address env ha a v src c))"
proof -
  have ad: "advances s (snd (write_by_address env a v s))" for s
    by (simp add: write_by_address_def gen.rel_refl gen.rel_write_register split: option.splits)
  define c0 where "c0 = (case REGISTER_BY_ADDRESS a of None \<Rightarrow> c | Some r \<Rightarrow> pop_observation (rg_name r) c)"
  have i0: "co_inv c0" using assms by (simp add: c0_def pop_observation_inv split: option.splits)
  obtain x c1 where f: "on_client (write_by_address env a v) c0 = (x, c1)" by fastforce
  have i1: "co_inv c1" by (rule co_inv_on_client [OF i0 f ad])
  define y where "y = sbind (on_client (write_by_address env a v)) (\<lambda>_ c1. case REGISTER_BY_ADDRESS a of
      None \<Rightarrow> (Inr (), c1) | Some r \<Rightarrow> record_commanded (rg_name r) v c1) c0"
  have "co_inv (snd y)"
    unfolding y_def using f i1 record_commanded_inv [OF i1]
    by (cases x) (simp_all add: sbind_def split: option.splits)
  moreover have "co_inv (snd (async_write_by_address env ha a v src c)) = co_inv (snd y)"
    unfolding async_write_by_address_def Let_def c0_def [symmetric] y_def [symmetric]
    by (cases y; cases "fst y") auto
  ultimately show ?thesis by simp
qed

section \<open>Runs\<close>

text \<open>
  The coordinator's operations in any order, with the link lost or re-established between
  them (a reconnect by any caller goes through the client).
\<close>

datatype 'w co_op =
    Poll
  | Write modbus_register pyval string "('w client \<Rightarrow> bool) option" bool
  | WriteName string pyval
  | WriteAddress nat pyval string
  | Invalidate nat nat
  | Reconnect
  | Drop

fun co_step :: "'w env \<Rightarrow> 'w ha_env \<Rightarrow> 'w coord \<Rightarrow> 'w co_op \<Rightarrow> 'w coord" where
  "co_step env ha c Poll = snd (async_update_data env ha c)"
| "co_step env ha c (Write r v src pre rec) = snd (async_write_register env ha r v src pre rec c)"
| "co_step env ha c (WriteName n v) = snd (async_write_by_name env n v c)"
| "co_step env ha c (WriteAddress a v src) = snd (async_write_by_address env ha a v src c)"
| "co_step env ha c (Invalidate a q) = invalidate_proxy_cache a q c"
| "co_step env ha c Reconnect = snd (on_client (client_reconnect env) c)"
| "co_step env ha c Drop = c\<lparr>co_client := client_disconnect (co_client c)\<rparr>"

lemma co_step_inv: "co_inv c \<Longrightarrow> co_inv (co_step env ha c op)"
proof (cases op)
  case Reconnect
  assume c: "co_inv c"
  obtain x c1 where f: "on_client (client_reconnect env) c = (x, c1)" by fastforce
  have "co_inv c1" by (rule co_inv_on_client [OF c f gen.rel_reconnect])
  then show ?thesis using f Reconnect by simp
next
  case Drop
  assume c: "co_inv c"
  then show ?thesis
    using co_inv_client [OF c gen.rel_link [of "co_client c" False]] Drop
    by (simp add: client_disconnect_def)
qed (simp_all add: async_update_inv write_inv write_by_name_inv write_by_address_inv invalidate_inv)

interpretation coordinator: invariant_machine "co_step env ha" co_inv for env ha
  by unfold_locales (rule co_step_inv)

lemma coord_new_inv: "co_inv (coord_new (client_new e p w) ident)"
  by (simp add: co_inv_def coord_new_def gen_inv_def client_new_def)

lemma later_generation_clears:
  assumes "co_inv c" "co_generation c < cl_generation cl"
  shows "proxy_cache_data env (c\<lparr>co_client := cl\<rparr>) = []"
    and "last_commanded (c\<lparr>co_client := cl\<rparr>) name = None"
proof -
  have "\<not> fresh_observation env (c\<lparr>co_client := cl\<rparr>) e" if "e \<in> set (co_obs c)" for e
  proof -
    have "obs_ok (co_generation c) e" using assms(1) that by (auto simp: co_inv_def list_all_iff)
    then show ?thesis using assms(2)
      by (cases e) (auto simp: obs_ok_def fresh_observation_def co_generation_def split: option.splits)
  qed
  then show "proxy_cache_data env (c\<lparr>co_client := cl\<rparr>) = []"
    by (auto simp: proxy_cache_data_def filter_empty_conv)
  show "last_commanded (c\<lparr>co_client := cl\<rparr>) name = None"
  proof (cases "co_commanded c name")
    case (Some p)
    then obtain v g where "co_commanded c name = Some (v, g)" by (cases p) simp
    moreover from this have "g \<le> co_generation c" using assms(1) by (auto simp: co_inv_def)
    ultimately show ?thesis using assms(2) by (simp add: last_commanded_def co_generation_def)
  qed (simp add: last_commanded_def)
qed

text \<open>C13: After any run of polls, writes, reconnects and link losses: once the client has connected
  again, no value observed before is served to the proxy and no command given before is
  reported as active, for any register, until it is observed or commanded anew.\<close>

theorem reconnect_forgets_observations:
  "c = foldl (co_step env ha) (coord_new (client_new e p w) ident) ops \<Longrightarrow>
   client_reconnect env (co_client c) = (Inr True, cl) \<Longrightarrow>
   proxy_cache_data env (c\<lparr>co_client := cl\<rparr>) = [] \<and> last_commanded (c\<lparr>co_client := cl\<rparr>) name = None"
proof -
  assume c: "c = foldl (co_step env ha) (coord_new (client_new e p w) ident) ops"
    and r: "client_reconnect env (co_client c) = (Inr True, cl)"
  have i: "co_inv c" unfolding c by (rule coordinator.run_inv [OF coord_new_inv])
  have "co_generation c < cl_generation cl"
    using r by (auto simp: client_reconnect_def client_connect_def client_connected_def client_disconnect_def
        co_generation_def log_io_def Let_def split: if_splits prod.splits conn_result.splits)
  then show ?thesis using later_generation_clears [OF i] by simp
qed

theorem reconnect_forgets_observations_witness:
  "proxy_cache_data mem_env (coord_new (snd (client_reconnect mem_env
     (client_new ''little'' ''keep_last'' (\<lambda>_. 0)))) []) = []"
proof -
  let ?cl = "client_new ''little'' ''keep_last'' (\<lambda>_. 0) :: (nat \<Rightarrow> 16 word) client"
  obtain cl where r: "client_reconnect mem_env ?cl = (Inr True, cl)"
    by (simp add: client_reconnect_def client_connect_def client_closing_def client_connected_def
        client_disconnect_def client_new_def Let_def)
  then show ?thesis
    using reconnect_forgets_observations [of "coord_new ?cl []" mem_env
        "\<lparr>ha_wall = (\<lambda>_. comm_day), ha_save_caps = (\<lambda>w. (True, w)), ha_msg = (\<lambda>_. []), ha_frepr = (\<lambda>_. [])\<rparr>"
        "''little''" "''keep_last''" "\<lambda>_. 0" "[]" "[]" cl]
    by (simp add: coord_new_def)
qed

end
