(* ===== verification/CoordWrites.thy ===== *)
theory CoordWrites
  imports CoordProofs
begin

text \<open>
  What a write through the coordinator leaves behind, the zero filter over several polls, and
  an interleaving of a poll with a write after which the proxy cache holds the old value.
\<close>

unbundle bit_operations_syntax

section \<open>Audit and cache\<close>

lemma on_client_fields:
  "on_client f c = (x, c1) \<Longrightarrow> co_obs c1 = co_obs c \<and> co_audit c1 = co_audit c
     \<and> co_revision c1 = co_revision c \<and> co_zero_streak c1 = co_zero_streak c"
  by (auto simp: on_client_def split: prod.splits)

lemma record_commanded_fields:
  "co_obs (snd (record_commanded n v c)) = co_obs c"
  "co_audit (snd (record_commanded n v c)) = co_audit c"
  "co_client (snd (record_commanded n v c)) = co_client c"
  by (auto simp: record_commanded_def Let_def split: sum.splits)

definition write_event_of ::
    "'w env \<Rightarrow> 'w ha_env \<Rightarrow> modbus_register \<Rightarrow> pyval \<Rightarrow> string \<Rightarrow> modbus_error + unit \<Rightarrow> 'w coord \<Rightarrow> write_event"
where
  "write_event_of env ha r v src res c = \<lparr>we_ts = co_now env c, we_source = src, we_key = rg_name r,
     we_value = v, we_result = (if is_ok res then ''ok'' else ''error''),
     we_detail = (case res of Inl e \<Rightarrow> ha_msg ha e | Inr _ \<Rightarrow> [])\<rparr>"

lemma audit_event_client [simp]: "co_client (audit_event env src k v r d c) = co_client c"
  by (simp add: audit_event_def split: option.split)

lemma coordinator_write_event:
  "async_write_register env ha r v src pre rec c = (res, c') \<Longrightarrow>
   (if rg_access r = RW \<and> \<not> not_finite_float v
    then co_audit c' = map_option (audit_log (write_event_of env ha r v src res c')) (co_audit c)
      \<and> map_of (co_obs c') (rg_name r) = None
      \<and> (\<forall>n. n \<noteq> rg_name r \<longrightarrow> map_of (co_obs c') n = map_of (co_obs c) n)
    else res = Inl (PyExc ValueError) \<and> c' = c)"
proof -
  assume w: "async_write_register env ha r v src pre rec c = (res, c')"
  show ?thesis
  proof (cases "rg_access r = RW \<and> \<not> not_finite_float v")
    case False
    then show ?thesis using w
      by (cases "rg_access r = RW") (simp_all add: async_write_register_def)
  next
    case True
    let ?c0 = "pop_observation (rg_name r) c"
    obtain x c1 where f: "on_client (write_register env r v pre) ?c0 = (x, c1)" by fastforce
    define c2 where "c2 = (if r \<in> set CONTROL_READBACK_REGISTERS then c1\<lparr>co_slow_tick := 5\<rparr> else c1)"
    obtain y c3 where g: "record_commanded (rg_name r) v c2 = (y, c3)" by fastforce
    define d where "d = (case x of Inl e \<Rightarrow> c1 | Inr _ \<Rightarrow> if rec then c3 else c2)"
    have c1: "co_obs c1 = dict_pop (rg_name r) (co_obs c)" "co_audit c1 = co_audit c"
      using on_client_fields [OF f] by (simp_all add: pop_observation_def)
    have d: "co_obs d = dict_pop (rg_name r) (co_obs c)" "co_audit d = co_audit c"
      using record_commanded_fields(1,2) [of "rg_name r" v c2] g c1
      by (auto simp: d_def c2_def split: sum.splits)
    have "c' = audit_event env src (rg_name r) v (if is_ok res then ''ok'' else ''error'')
        (case res of Inl e \<Rightarrow> ha_msg ha e | Inr _ \<Rightarrow> []) d"
      using w True f g
      by (cases x; cases y; cases rec)
         (auto simp: async_write_register_def sbind_def c2_def [symmetric] d_def)
    then show ?thesis using True d
      by (cases "co_audit c") (auto simp: audit_event_def write_event_of_def co_now_def)
  qed
qed

text \<open>C32: A write by \<^verbatim>\<open>async_write_register\<close> of a writable register and a finite value logs exactly one audit event, with the
  result ``ok'' if and only if the write returned normally, and leaves no observation of the
  register for the proxy, whether it succeeded or failed. A read-only register and a value that
  is not finite change nothing and log nothing. (\<^verbatim>\<open>async_write_by_name\<close>, which nothing
  calls, writes without an event.)\<close>

theorem coordinator_write_audited:
  "async_write_register env ha r v src pre rec c = (res, c') \<Longrightarrow>
   (if rg_access r = RW \<and> \<not> not_finite_float v
    then co_audit c' = map_option (audit_log (write_event_of env ha r v src res c')) (co_audit c)
      \<and> map_of (co_obs c') (rg_name r) = None
      \<and> (\<forall>n. n \<noteq> rg_name r \<longrightarrow> map_of (co_obs c') n = map_of (co_obs c) n)
    else res = Inl (PyExc ValueError) \<and> c' = c)"
  by (rule coordinator_write_event)

section \<open>What a write sends\<close>

text \<open>Reads send no write request; a relation that every read operation keeps.\<close>

definition no_writes :: "'w client \<Rightarrow> 'w client \<Rightarrow> bool" where
  "no_writes s t \<longleftrightarrow> writes t = writes s"

interpretation quiet: client_reads env no_writes for env
  by unfold_locales (auto simp: no_writes_def writes_def log_io_def store_filtered_def Let_def)

text \<open>Everything a write through the coordinator sends to the device.\<close>

definition sends :: "modbus_register \<Rightarrow> pyval \<Rightarrow> string \<Rightarrow> 'w client \<Rightarrow> 'w client \<Rightarrow> bool" where
  "sends r v e cl cl' \<longleftrightarrow> (\<exists>ws. writes cl' = ws @ writes cl \<and> length ws \<le> 3
     \<and> (\<forall>(a, w, x)\<in>set ws. a = rg_address r \<and> encode_register e v r = Inr (words_bytes w)))"

lemma sends_refl: "writes cl' = writes cl \<Longrightarrow> sends r v e cl cl'"
  by (auto simp: sends_def)

lemma write_register_sends:
  assumes "r \<in> set ALL_REGISTERS" "rg_access r = RW"
  shows "sends r v (cl_endianness s) s (snd (write_register env r v pre s))"
proof (cases "encode_register (cl_endianness s) v r")
  case (Inl e)
  then show ?thesis using assms(2) by (simp add: write_register_def sends_refl)
next
  case (Inr bs)
  then show ?thesis using write_register_wrote [OF assms Inr, of env pre]
    by (auto simp: wrote_def sends_def split_beta)
qed

lemma coordinator_client:
  assumes "rg_access r = RW" "\<not> not_finite_float v"
  shows "co_client (snd (async_write_register env ha r v src pre rec c)) = snd (write_register env r v pre (co_client c))"
proof -
  let ?c0 = "pop_observation (rg_name r) c"
  obtain x c1 where f: "on_client (write_register env r v pre) ?c0 = (x, c1)" by fastforce
  define c2 where "c2 = (if r \<in> set CONTROL_READBACK_REGISTERS then c1\<lparr>co_slow_tick := 5\<rparr> else c1)"
  obtain y c3 where g: "record_commanded (rg_name r) v c2 = (y, c3)" by fastforce
  have 3: "co_client c3 = co_client c1"
    using record_commanded_fields(3) [of "rg_name r" v c2] g by (simp add: c2_def)
  have w: "write_register env r v pre (co_client c) = (x, co_client c1)"
    using f by (auto simp: on_client_def pop_observation_def split: prod.splits)
  have "co_client (snd (async_write_register env ha r v src pre rec c)) = co_client c1"
    using assms f g 3
    by (cases x; cases y; cases rec) (simp_all add: async_write_register_def sbind_def c2_def [symmetric],
        simp_all add: c2_def)
  then show ?thesis using w by simp
qed

lemma coordinator_sends:
  assumes "r \<in> set ALL_REGISTERS"
  shows "sends r v (cl_endianness (co_client c)) (co_client c)
    (co_client (snd (async_write_register env ha r v src pre rec c)))"
proof (cases "rg_access r = RW \<and> \<not> not_finite_float v")
  case False
  then show ?thesis by (cases "rg_access r = RW") (simp_all add: async_write_register_def sends_refl)
next
  case True
  then show ?thesis
    using write_register_sends [OF assms conjunct1 [OF True], of v "co_client c" env pre] by (simp add: coordinator_client)
qed

section \<open>The commanded value is the device's value\<close>

lemma float_of_int_small: "\<bar>n\<bar> < 2 ^ 53 \<Longrightarrow> float_of_int n = Inr (FFin (of_int n))"
  using mk_float_of_int [of n] by (simp add: float_of_int_def is_inf_def)

lemma pack_uint_bounds: "pack_uint n v = Inr bs \<Longrightarrow> 0 \<le> v \<and> v < 256 ^ n \<and> bs = pack_be n v"
  by (simp add: pack_uint_def split: if_splits)

lemma unpack_pack_uint: "pack_uint n v = Inr bs \<Longrightarrow> unpack_uint n bs = Inr v"
  using pack_uint_bounds [of n v bs] by (simp add: unpack_uint_def)

lemma unpack_pack_sint2: "pack_sint 2 v = Inr bs \<Longrightarrow> unpack_sint 2 bs = Inr v \<and> \<bar>v\<bar> \<le> 32768"
proof -
  assume "pack_sint 2 v = Inr bs"
  then have v: "- 32768 \<le> v" "v < 32768" "bs = pack_be 2 v"
    by (auto simp: pack_sint_def split: if_splits)
  have "v mod 65536 = (if v < 0 then v + 65536 else v)"
  proof (cases "v < 0")
    case True
    then have "(v + 65536) mod 65536 = v + 65536" using v by (intro mod_pos_pos_trivial) simp_all
    then show ?thesis using True by simp
  qed (use v in simp)
  then show ?thesis using v by (simp add: unpack_sint_def unpack_uint_def)
qed

text \<open>A number written to an integer register: what is sent, decoded, is what is recorded.\<close>

lemma encoded_integer:
  assumes "rg_dtype r \<in> {UINT16, SINT16, UINT32}" "encode_register e v r = Inr bs"
    "rg_dtype r = UINT32 \<Longrightarrow> big_words e r"
  shows "\<exists>n. int_of_val v = Inr n \<and> decode_register e bs r = Inr (VInt n) \<and> \<bar>n\<bar> < 2 ^ 53"
proof -
  have i: "encode_inner e v r = Inr bs" using assms(2) by (simp add: encode_register_inner)
  obtain n where n: "int_of_val v = Inr n"
    using i assms(1) by (cases "int_of_val v") (auto simp: encode_inner_def)
  have "decode_register e bs r = Inr (VInt n) \<and> \<bar>n\<bar> < 2 ^ 53"
  proof (cases "rg_dtype r")
    case UINT16
    then have p: "pack_uint 2 n = Inr bs" using i n by (simp add: encode_inner_def)
    then show ?thesis using UINT16 unpack_pack_uint [OF p] pack_uint_bounds [OF p]
      by (simp add: decode_register_def)
  next
    case SINT16
    then have p: "pack_sint 2 n = Inr bs" using i n by (simp add: encode_inner_def)
    then have "length bs = 2" by (auto simp: pack_sint_def split: if_splits)
    then show ?thesis using SINT16 unpack_pack_sint2 [OF p] by (simp add: decode_register_def)
  next
    case UINT32
    then have p: "u32_encode e r n = Inr bs" using i n by (simp add: encode_inner_def)
    then have l: "length bs = 4" by (rule length_u32_encode)
    have q: "pack_uint 4 n = Inr bs" using p assms(3) [OF UINT32] by (simp add: u32_encode_def)
    then show ?thesis using UINT32 assms(3) l unpack_pack_uint [OF q] pack_uint_bounds [OF q]
      by (simp add: decode_register_def u32_decode_def)
  qed (use assms in auto)
  then show ?thesis using n by blast
qed

text \<open>
  The writable 32-bit integer registers are vendor registers, so they are always big-endian;
  the little-endian branch of the encoder, which does not check the range, is never used.
\<close>

lemma writable_u32_vendor:
  "r \<in> set ALL_REGISTERS \<Longrightarrow> rg_access r = RW \<Longrightarrow> rg_dtype r = UINT32 \<Longrightarrow> big_words e r"
proof -
  have "list_all (\<lambda>r. rg_access r = RW \<longrightarrow> rg_dtype r = UINT32 \<longrightarrow> 500 \<le> rg_address r) ALL_REGISTERS"
    by (simp add: ALL_REGISTERS_unfold)
  then show "r \<in> set ALL_REGISTERS \<Longrightarrow> rg_access r = RW \<Longrightarrow> rg_dtype r = UINT32 \<Longrightarrow> ?thesis"
    by (auto simp: list_all_iff big_words_def VENDOR_REGISTER_BASE_def)
qed

lemma trunc_rat_of_int [simp]: "trunc_rat (of_int n) = n"
  by (simp add: trunc_rat_def)

text \<open>A number and its conversion to a float truncate to the same integer below \<open>2 ^ 53\<close>.\<close>

lemma int_of_number:
  assumes "is_number v" "int_of_val v = Inr n" "\<bar>n\<bar> < 2 ^ 53"
  shows "\<exists>x. float_of_val v = Inr x \<and> int_of_float x = Inr n"
  using assms float_of_int_small [of n] trunc_rat_of_int [of 1] trunc_rat_of_int [of 0]
  by (cases v) (auto split: if_splits)

text \<open>C15: After a write of a number to an integer register returned normally and was recorded, the
  commanded value is the number the device received: it equals the integer that the bytes sent
  decode to, also where the command had a fraction or was a boolean, and the register's
  command revision grew by one.\<close>

theorem commanded_value_is_sent_value:
  "r \<in> set ALL_REGISTERS \<Longrightarrow> rg_dtype r \<in> {UINT16, SINT16, UINT32} \<Longrightarrow> is_number v \<Longrightarrow>
   async_write_register env ha r v src pre True c = (Inr (), c') \<Longrightarrow>
   \<exists>bs n. encode_register (cl_endianness (co_client c)) v r = Inr bs
     \<and> decode_register (cl_endianness (co_client c)) bs r = Inr (VInt n)
     \<and> last_commanded c' (rg_name r) = Some (FFin (of_int n))
     \<and> command_revision c' (rg_name r) = command_revision c (rg_name r) + 1"
proof -
  assume r: "r \<in> set ALL_REGISTERS" and t: "rg_dtype r \<in> {UINT16, SINT16, UINT32}"
    and v: "is_number v" and w: "async_write_register env ha r v src pre True c = (Inr (), c')"
  let ?c0 = "pop_observation (rg_name r) c"
  let ?e = "cl_endianness (co_client c)"
  obtain x c1 where f: "on_client (write_register env r v pre) ?c0 = (x, c1)" by fastforce
  define c2 where "c2 = (if r \<in> set CONTROL_READBACK_REGISTERS then c1\<lparr>co_slow_tick := 5\<rparr> else c1)"
  obtain y c3 where g: "record_commanded (rg_name r) v c2 = (y, c3)" by fastforce
  have acc: "rg_access r = RW" "\<not> not_finite_float v"
    using w by (auto simp: async_write_register_def split: if_splits)
  have xy: "x = Inr ()" "y = Inr ()"
    and c': "c' = audit_event env src (rg_name r) v ''ok'' [] c3"
    using w acc f g
    by (cases x; cases y; auto simp: async_write_register_def sbind_def c2_def [symmetric])+
  have wr: "fst (write_register env r v pre (co_client c)) = Inr ()"
    using f xy(1) by (auto simp: on_client_def pop_observation_def split: prod.splits)
  then obtain bs where b: "encode_register ?e v r = Inr bs"
    using acc by (cases "encode_register ?e v r") (auto simp: write_register_def)
  obtain n where n: "int_of_val v = Inr n" "decode_register ?e bs r = Inr (VInt n)" "\<bar>n\<bar> < 2 ^ 53"
    using encoded_integer [OF t b writable_u32_vendor [OF r acc(1)]] by blast
  obtain z where z: "float_of_val v = Inr z" "int_of_float z = Inr n"
    using int_of_number [OF v n(1,3)] by blast
  have "rg_dtype r \<in> set INTEGER_WRITE_DATA_TYPES" using t by (auto simp: INTEGER_WRITE_DATA_TYPES_def)
  then have cv: "commanded_value (rg_name r) z = Inr (FFin (of_int n))"
    using REGISTER_BY_NAME_name [OF r] z(2) float_of_int_small [OF n(3)] by (simp add: commanded_value_def)
  have c2: "co_revision c2 = co_revision c"
    using on_client_fields [OF f] by (simp add: c2_def pop_observation_def)
  have "c3 = c2\<lparr>co_revision := (co_revision c2)(rg_name r := co_revision c2 (rg_name r) + 1),
      co_commanded := (co_commanded c2)(rg_name r \<mapsto> (FFin (of_int n), co_generation c2))\<rparr>"
    using g z cv by (simp add: record_commanded_def Let_def co_generation_def)
  then have "last_commanded c' (rg_name r) = Some (FFin (of_int n))"
    "command_revision c' (rg_name r) = command_revision c (rg_name r) + 1"
    by (simp_all add: c' audit_event_def last_commanded_def co_generation_def command_revision_def c2
        split: option.splits)
  then show ?thesis using b n by blast
qed

text \<open>On the memory device a write of a connected client succeeds and changes the memory.\<close>

lemma bytes_words_total: "length bs = 2 * n \<Longrightarrow> \<exists>ws. bytes_words bs = Inr ws \<and> length ws = n"
proof (induction bs arbitrary: n rule: bytes_words.induct)
  case (3 a b bs)
  then obtain m where "n = Suc m" by (cases n) auto
  then obtain ws where "bytes_words bs = Inr ws" "length ws = m" using 3 by auto
  then show ?case using \<open>n = Suc m\<close> by simp
qed auto

lemma mem_write:
  assumes "r \<in> set ALL_REGISTERS" "rg_access r = RW" "encode_register (cl_endianness s) v r = Inr bs"
    "\<not> cl_closing s" "cl_has_client s" "bytes_words bs = Inr ws"
  shows "write_register mem_env r v pre s = (Inr (), log_io (IOWrite (rg_address r) ws WOk)
    (\<lambda>i. if rg_address r \<le> i \<and> i < rg_address r + length ws then ws ! (i - rg_address r)
         else cl_world s i) s)"
proof -
  have "length ws = rg_count r"
    using length_bytes_words [OF assms(6)] encode_register_count [OF assms(3,1,2)] by simp
  then have w: "(if rg_count r = 1 then [hd ws] else ws) = ws" "\<not> (rg_count r = 1 \<and> ws = [])"
    by (cases ws; auto)+
  have "raw_write mem_env (rg_address r) bs (rg_count r) s = (Inr (), log_io (IOWrite (rg_address r) ws WOk)
    (\<lambda>i. if rg_address r \<le> i \<and> i < rg_address r + length ws then ws ! (i - rg_address r)
         else cl_world s i) s)"
    using w assms(4-6)
    by (simp add: raw_write_def with_scheduler_def raw_write_inner_def client_closing_def
        client_connected_def Let_def mem_env_def)
  then show ?thesis
    using assms(2,3) by (simp add: write_register_def MAX_RETRIES_def numeral_2_eq_2 write_loop_Suc
        retry_allowed_def)
qed

abbreviation test_ha :: "'w ha_env" where
  "test_ha \<equiv> \<lparr>ha_wall = (\<lambda>_. comm_day), ha_save_caps = (\<lambda>w. (True, w)), ha_msg = (\<lambda>_. []),
    ha_frepr = (\<lambda>_. [])\<rparr>"

definition test_coord :: "(nat \<Rightarrow> 16 word) \<Rightarrow> (nat \<Rightarrow> 16 word) coord" where
  "test_coord mem = coord_new ((client_new ''big'' ''keep_last'' mem)\<lparr>cl_has_client := True\<rparr>) []"

lemma setpoint_rw: "REG_ACTIVE_POWER_SETPOINT \<in> set ALL_REGISTERS"
  "rg_access REG_ACTIVE_POWER_SETPOINT = RW" "rg_dtype REG_ACTIVE_POWER_SETPOINT = UINT16"
  by (simp_all add: ALL_REGISTERS_def REG_ACTIVE_POWER_SETPOINT_def)

theorem commanded_value_is_sent_value_witness:
  "last_commanded (snd (async_write_register mem_env test_ha REG_ACTIVE_POWER_SETPOINT (VFloat (FFin (161 / 2)))
     ''mqtt'' None True (test_coord (\<lambda>_. 0)))) (rg_name REG_ACTIVE_POWER_SETPOINT) = Some (FFin 80)"
proof -
  let ?r = REG_ACTIVE_POWER_SETPOINT
  let ?v = "VFloat (FFin (161 / 2))"
  let ?c = "test_coord (\<lambda>_. 0)"
  have h: "\<lfloor>161 / 2 :: rat\<rfloor> = 80" by (rule floor_unique) simp_all
  then have t: "int_of_val ?v = Inr 80" by (simp add: trunc_rat_def)
  have b: "encode_register (cl_endianness (co_client ?c)) ?v ?r = Inr [0, 80]"
    using t by (simp add: encode_register_inner encode_inner_def setpoint_rw pack_uint_def
        pack_be_numeral del: int_of_val.simps)
  have w: "bytes_words [0, 80] = Inr [80]" by (simp add: unpack_be_def)
  have "fst (async_write_register mem_env test_ha ?r ?v ''mqtt'' None True ?c) = Inr ()"
  proof -
    let ?s = "co_client ?c"
    have "\<not> cl_closing ?s" "cl_has_client ?s" by (simp_all add: test_coord_def coord_new_def client_new_def)
    note m = mem_write [OF setpoint_rw(1,2) b this w, of None]
    have cv: "commanded_value (rg_name ?r) (FFin (161 / 2)) = Inr (FFin 80)"
      using REGISTER_BY_NAME_name [OF setpoint_rw(1)] float_of_int_small [of 80]
      by (simp add: commanded_value_def setpoint_rw INTEGER_WRITE_DATA_TYPES_def trunc_rat_def h)
    show ?thesis
      using m cv by (simp add: async_write_register_def setpoint_rw not_finite_float_def is_nan_def is_inf_def
          sbind_def on_client_def pop_observation_def record_commanded_def Let_def)
  qed
  then obtain c' where e: "async_write_register mem_env test_ha ?r ?v ''mqtt'' None True ?c = (Inr (), c')"
    by (cases "async_write_register mem_env test_ha ?r ?v ''mqtt'' None True ?c") auto
  obtain bs n where n: "encode_register (cl_endianness (co_client ?c)) ?v ?r = Inr bs"
    "decode_register (cl_endianness (co_client ?c)) bs ?r = Inr (VInt n)"
    "last_commanded c' (rg_name ?r) = Some (FFin (of_int n))"
    using commanded_value_is_sent_value [OF setpoint_rw(1) _ _ e] by (auto simp: setpoint_rw)
  have "bs = [0, 80]" using n(1) b by simp
  then have "n = 80" using n(2)
    by (simp add: decode_register_def setpoint_rw unpack_uint_def unpack_be_def)
  then show ?thesis using n(3) e by simp
qed

section \<open>Zeros over several polls\<close>

text \<open>
  How often in a row a register read 0 in a poll that saw a device failure; polls that did not
  read it neither count nor end the row.
\<close>

definition zero_row :: "string \<Rightarrow> nat \<Rightarrow> readings \<times> bool \<Rightarrow> nat" where
  "zero_row name n = (\<lambda>(data, failure). case map_of data name of
     None \<Rightarrow> n | Some v \<Rightarrow> if failure \<and> val_eq_zero v then n + 1 else 0)"

definition streak_of :: "'w coord \<Rightarrow> string \<Rightarrow> nat" where
  "streak_of c name = (case co_zero_streak c name of None \<Rightarrow> 0 | Some n \<Rightarrow> n)"

definition is_dropped :: "string \<Rightarrow> nat \<Rightarrow> readings \<times> bool \<Rightarrow> bool" where
  "is_dropped name n = (\<lambda>(data, failure). case map_of data name of
     None \<Rightarrow> False | Some v \<Rightarrow> failure \<and> val_eq_zero v \<and> n < MAX_CONSECUTIVE_ZERO_DROPS)"

lemma drop_zero_fields:
  fixes t :: "string list \<times> readings \<times> 'w coord"
  assumes "drop_zero f n (dr, d, c) = (dr', d', c')"
  shows "set dr' = set dr \<union> (if is_dropped n (streak_of c n) (d, f) then {n} else {})"
    and "map_of d' m = (if m = n \<and> is_dropped n (streak_of c n) (d, f) then None else map_of d m)"
    and "streak_of c' m = (if m = n then zero_row n (streak_of c n) (d, f) else streak_of c m)"
  using assms
  by (auto simp: drop_zero_def is_dropped_def zero_row_def streak_of_def Let_def
      MAX_CONSECUTIVE_ZERO_DROPS_def split: option.splits if_splits)

lemma drop_zeros_fold:
  assumes "distinct ns" "fold (drop_zero f) ns (dr, d, c) = (dr', d', c')"
  shows "set dr' = set dr \<union> {n \<in> set ns. is_dropped n (streak_of c n) (d, f)}
    \<and> map_of d' m = (if m \<in> set ns \<and> is_dropped m (streak_of c m) (d, f) then None else map_of d m)
    \<and> streak_of c' m = (if m \<in> set ns then zero_row m (streak_of c m) (d, f) else streak_of c m)"
  using assms
proof (induction ns arbitrary: dr d c)
  case Nil
  then show ?case by simp
next
  case (Cons n ns)
  obtain dr1 d1 c1 where s: "drop_zero f n (dr, d, c) = (dr1, d1, c1)"
    by (cases "drop_zero f n (dr, d, c)") auto
  note st = drop_zero_fields [OF s]
  have other: "is_dropped k (streak_of c1 k) (d1, f) = is_dropped k (streak_of c k) (d, f)"
    "zero_row k (streak_of c1 k) (d1, f) = zero_row k (streak_of c k) (d, f)" if "k \<noteq> n" for k
    using that st(2,3) [of k] by (simp_all add: is_dropped_def zero_row_def)
  have fo: "fold (drop_zero f) ns (dr1, d1, c1) = (dr', d', c')" using Cons.prems(2) by (simp add: s)
  have nn: "n \<notin> set ns" "distinct ns" using Cons.prems(1) by simp_all
  note ih = Cons.IH [OF nn(2) fo]
  have "{k \<in> set ns. is_dropped k (streak_of c1 k) (d1, f)}
      = {k \<in> set ns. is_dropped k (streak_of c k) (d, f)}"
    by (rule Collect_cong) (metis nn(1) other(1))
  then have "set dr' = set dr \<union> {k \<in> set (n # ns). is_dropped k (streak_of c k) (d, f)}"
    using ih st(1) by auto
  moreover have "map_of d' m = (if m \<in> set (n # ns) \<and> is_dropped m (streak_of c m) (d, f)
      then None else map_of d m)"
    using ih st(2) [of m] other(1) [of m] nn(1) by (cases "m = n") auto
  moreover have "streak_of c' m = (if m \<in> set (n # ns) then zero_row m (streak_of c m) (d, f)
      else streak_of c m)"
    using ih st(3) [of m] other(2) [of m] nn(1) by (cases "m = n") auto
  ultimately show ?case by blast
qed

definition zero_polls :: "(readings \<times> bool) list \<Rightarrow> 'w coord \<Rightarrow> 'w coord" where
  "zero_polls ps c = foldl (\<lambda>c (d, f). snd (snd (drop_implausible_zeros d f c))) c ps"

lemma IMPLAUSIBLE_ZERO_distinct: "distinct IMPLAUSIBLE_ZERO"
  by (simp add: IMPLAUSIBLE_ZERO_def)

lemma streak_zero_polls:
  "name \<in> set IMPLAUSIBLE_ZERO \<Longrightarrow>
   streak_of (zero_polls ps c) name = foldl (zero_row name) (streak_of c name) ps"
proof (induction ps arbitrary: c)
  case (Cons p ps)
  obtain d f where p: "p = (d, f)" by fastforce
  obtain dr d' c' where e: "drop_implausible_zeros d f c = (dr, d', c')"
    by (cases "drop_implausible_zeros d f c") auto
  have "streak_of c' name = zero_row name (streak_of c name) p"
    using drop_zeros_fold [OF IMPLAUSIBLE_ZERO_distinct, of f "[]" d c dr d' c' name] e Cons.prems p
    by (simp add: drop_implausible_zeros_def)
  then show ?case using Cons p e by (simp add: zero_polls_def)
qed (simp add: zero_polls_def)

text \<open>A reading of 0 of the grid frequency, a phase voltage or the battery charge is withheld from a
  poll exactly when the poll saw a device failure and at most one such poll directly before it
  read 0 there too: never more than two polls in a row, and any other reading starts anew.
  Every other reading is passed on unchanged.\<close>

lemma zero_dropped_at_most_twice:
  fixes c :: "'w coord"
  shows "co_zero_streak c = (\<lambda>_. None) \<Longrightarrow>
   drop_implausible_zeros d f (zero_polls ps c) = (dropped, d', c') \<Longrightarrow>
   (name \<in> set dropped \<longleftrightarrow> name \<in> set IMPLAUSIBLE_ZERO
      \<and> is_dropped name (foldl (zero_row name) 0 ps) (d, f))
   \<and> map_of d' name = (if name \<in> set dropped then None else map_of d name)"
proof -
  assume c: "co_zero_streak c = (\<lambda>_. None)"
    and e: "drop_implausible_zeros d f (zero_polls ps c) = (dropped, d', c')"
  have z: "streak_of c name = 0" by (simp add: streak_of_def c)
  note fo = drop_zeros_fold [OF IMPLAUSIBLE_ZERO_distinct e [unfolded drop_implausible_zeros_def]]
  show ?thesis
    using fo [of name] streak_zero_polls [of name ps c] z
    by (cases "name \<in> set IMPLAUSIBLE_ZERO") simp_all
qed

lemma zero_dropped_at_most_twice_witness:
  "let zero = ([(''battery_soc'', VInt 0)], True)
   in fst (drop_implausible_zeros (fst zero) True (zero_polls [zero] (test_coord (\<lambda>_. 0)))) = [''battery_soc'']
    \<and> ''battery_soc'' \<notin> set (fst (drop_implausible_zeros (fst zero) True
         (zero_polls [zero, zero] (test_coord (\<lambda>_. 0)))))"
proof -
  let ?z = "([(''battery_soc'', VInt 0)], True)"
  let ?c = "test_coord (\<lambda>_. 0)"
  have n: "co_zero_streak ?c = (\<lambda>_. None)" by (simp add: test_coord_def coord_new_def)
  obtain dr d' c' where e: "drop_implausible_zeros (fst ?z) True (zero_polls [?z, ?z] ?c) = (dr, d', c')"
    by (cases "drop_implausible_zeros (fst ?z) True (zero_polls [?z, ?z] ?c)") auto
  have "''battery_soc'' \<notin> set (fst (drop_implausible_zeros (fst ?z) True (zero_polls [?z, ?z] ?c)))"
    using zero_dropped_at_most_twice [OF n e, of "''battery_soc''"]
    unfolding e by (simp add: is_dropped_def zero_row_def MAX_CONSECUTIVE_ZERO_DROPS_def)
  moreover have "fst (drop_implausible_zeros (fst ?z) True (zero_polls [?z] ?c)) = [''battery_soc'']"
    by (simp add: drop_implausible_zeros_def zero_polls_def IMPLAUSIBLE_ZERO_def drop_zero_def
        MAX_CONSECUTIVE_ZERO_DROPS_def test_coord_def coord_new_def)
  ultimately show ?thesis by (simp add: Let_def)
qed

section \<open>A write and its event\<close>

text \<open>A memory device that holds a fallback time of 300 seconds.\<close>

definition fallback_mem :: "nat \<Rightarrow> 16 word" where
  "fallback_mem a = (if a = 1289 then 300 else 0)"

lemma fallback_time_facts:
  "REG_G3_FALLBACK_TIME \<in> set ALL_REGISTERS" "rg_access REG_G3_FALLBACK_TIME = RW"
  "rg_dtype REG_G3_FALLBACK_TIME = UINT32" "rg_address REG_G3_FALLBACK_TIME = 1288"
  "rg_count REG_G3_FALLBACK_TIME = 2" "rg_name REG_G3_FALLBACK_TIME = ''g3_fallback_time''"
  "rg_group REG_G3_FALLBACK_TIME = G_BATTERY_LIMIT_G3"
  by (simp_all add: ALL_REGISTERS_def REG_G3_FALLBACK_TIME_def)

lemma fallback_time_decode:
  "decode_register ''big'' (words_bytes (map fallback_mem [1288 ..< 1290])) REG_G3_FALLBACK_TIME = Inr (VInt 300)"
proof -
  have "[1288 ..< 1290] = [1288, 1289 :: nat]" by (simp add: upt_rec_numeral)
  then have "words_bytes (map fallback_mem [1288 ..< 1290]) = [0, 0, 1, 44]"
    by (simp add: words_bytes_def fallback_mem_def pack_be_numeral)
  then show ?thesis
    by (simp add: decode_register_def fallback_time_facts u32_decode_def big_words_def unpack_uint_def
        unpack_be_def)
qed

text \<open>An accepted write of 60 seconds, with an audit attached and an observation to forget.\<close>

definition audited_coord :: "(nat \<Rightarrow> 16 word) coord" where
  "audited_coord = (test_coord fallback_mem)
     \<lparr>co_audit := Some (audit_new 200), co_obs := [(''g3_fallback_time'', VInt 300, 0, 0)]\<rparr>"

lemma fallback_time_write:
  "\<exists>c. async_write_register mem_env test_ha REG_G3_FALLBACK_TIME (VInt 60) ''mqtt'' None True audited_coord
     = (Inr (), c) \<and> co_now mem_env c = 0"
proof -
  let ?r = REG_G3_FALLBACK_TIME
  have cl: "cl_has_client (co_client audited_coord)" "\<not> cl_closing (co_client audited_coord)"
    by (simp_all add: audited_coord_def test_coord_def coord_new_def client_new_def)
  have e: "encode_register (cl_endianness (co_client audited_coord)) (VInt 60) ?r = Inr [0, 0, 0, 60]"
    by (simp add: audited_coord_def test_coord_def coord_new_def client_new_def encode_register_inner
        encode_inner_def fallback_time_facts u32_encode_def big_words_def pack_uint_def pack_be_numeral)
  have w: "bytes_words [0, 0, 0, 60] = Inr [0, 60]" by (simp add: unpack_be_def)
  note m = mem_write [OF fallback_time_facts(1,2) e cl(2,1) w, of None]
  have cv: "commanded_value ''g3_fallback_time'' (FFin 60) = Inr (FFin 60)"
    using REGISTER_BY_NAME_name [OF fallback_time_facts(1)] float_of_int_small [of 60]
      trunc_rat_of_int [of 60]
    by (simp add: commanded_value_def fallback_time_facts INTEGER_WRITE_DATA_TYPES_def)
  show ?thesis using m cv float_of_int_small [of 60]
    by (simp add: async_write_register_def fallback_time_facts not_finite_float_def sbind_def on_client_def
        pop_observation_def record_commanded_def Let_def audit_event_def co_now_def split: option.split)
qed

theorem coordinator_write_audited_witness:
  "\<exists>c. async_write_register mem_env test_ha REG_G3_FALLBACK_TIME (VInt 60) ''mqtt'' None True audited_coord
         = (Inr (), c)
     \<and> co_audit c = Some (audit_log \<lparr>we_ts = 0, we_source = ''mqtt'', we_key = ''g3_fallback_time'',
          we_value = VInt 60, we_result = ''ok'', we_detail = []\<rparr> (audit_new 200))
     \<and> map_of (co_obs audited_coord) ''g3_fallback_time'' \<noteq> None
     \<and> map_of (co_obs c) ''g3_fallback_time'' = None"
proof -
  obtain c where c: "async_write_register mem_env test_ha REG_G3_FALLBACK_TIME (VInt 60) ''mqtt'' None True audited_coord
      = (Inr (), c)" "co_now mem_env c = 0" using fallback_time_write by blast
  show ?thesis
    using coordinator_write_audited [OF c(1)] c
    by (simp add: fallback_time_facts not_finite_float_def write_event_of_def audited_coord_def)
qed

end
