(* ===== verification/ModbusProxy.thy ===== *)
theory ModbusProxy
  imports ModbusCoordinator Owner1038
begin

text \<open>
  The Modbus TCP proxy (\<^verbatim>\<open>modbus_proxy.py\<close>): the register image built from the cache, the
  read and write handlers with their arbitration, the tracking of unconfirmed requests, and
  the framing of a client's byte stream. What other tasks decide while a request runs, the
  SoC controller's activity and the owner of register 1038, is a function of the world.
  Sockets, the server's life cycle and notifications are not modelled.
\<close>

unbundle bit_operations_syntax

section \<open>Bytes\<close>

definition u16_at :: "byte list \<Rightarrow> nat \<Rightarrow> nat" where
  "u16_at bs i = nat (unpack_be (take 2 (drop i bs)))"

definition be16 :: "nat \<Rightarrow> byte list" where
  "be16 n = pack_be 2 (int n)"

definition FC_READ_HOLDING :: byte where "FC_READ_HOLDING = 0x03"
definition FC_READ_INPUT :: byte where "FC_READ_INPUT = 0x04"
definition FC_WRITE_SINGLE :: byte where "FC_WRITE_SINGLE = 0x06"
definition FC_WRITE_MULTIPLE :: byte where "FC_WRITE_MULTIPLE = 0x10"

lemmas FC_defs = FC_READ_HOLDING_def FC_READ_INPUT_def FC_WRITE_SINGLE_def FC_WRITE_MULTIPLE_def

definition error_response :: "byte \<Rightarrow> byte \<Rightarrow> byte list" where
  "error_response fc code = [fc OR 0x80, code]"

definition is_error :: "byte list \<Rightarrow> bool" where
  "is_error resp = (case resp of [] \<Rightarrow> False | b # _ \<Rightarrow> b AND 0x80 \<noteq> 0)"

definition error_code :: "byte list \<Rightarrow> byte" where
  "error_code resp = (case resp of _ # c # _ \<Rightarrow> c | _ \<Rightarrow> 0)"

section \<open>The register image\<close>

definition SORTED_REGISTERS :: "modbus_register list" where
  "SORTED_REGISTERS = sort_key rg_address ALL_REGISTERS"

text \<open>One word of a register, put in its place when it lies in the requested range.\<close>

definition place_word ::
    "nat \<Rightarrow> nat \<Rightarrow> nat \<Rightarrow> byte list \<Rightarrow> nat \<Rightarrow> byte list \<times> bool list \<Rightarrow> byte list \<times> bool list" where
  "place_word start quantity base raw i = (\<lambda>(img, covered).
     if start \<le> base + i \<and> base + i < start + quantity \<and> i * 2 + 2 \<le> length raw
     then let idx = base + i - start
          in (img[idx * 2 := raw ! (i * 2), idx * 2 + 1 := raw ! (i * 2 + 1)], covered[idx := True])
     else (img, covered))"

definition place_register ::
    "(pyfloat \<Rightarrow> string) \<Rightarrow> nat \<Rightarrow> nat \<Rightarrow> readings \<Rightarrow> string \<Rightarrow> modbus_register
     \<Rightarrow> byte list \<times> bool list \<Rightarrow> byte list \<times> bool list" where
  "place_register frepr start quantity data endian r st =
     (if rg_address r + rg_count r \<le> start then st
      else case map_of data (rg_name r) of
        None \<Rightarrow> st
      | Some val \<Rightarrow>
          if val = VNone then st
          else (case encode_value frepr val r endian of
            Inl e \<Rightarrow> st
          | Inr raw \<Rightarrow> fold (place_word start quantity (rg_address r) raw) [0 ..< rg_count r] st))"

text \<open>The loop over the sorted registers stops at the first one behind the range.\<close>

fun image_loop ::
    "(pyfloat \<Rightarrow> string) \<Rightarrow> nat \<Rightarrow> nat \<Rightarrow> readings \<Rightarrow> string \<Rightarrow> modbus_register list
     \<Rightarrow> byte list \<times> bool list \<Rightarrow> byte list \<times> bool list" where
  "image_loop frepr start quantity data endian [] st = st"
| "image_loop frepr start quantity data endian (r # rs) st =
     (if start + quantity \<le> rg_address r then st
      else image_loop frepr start quantity data endian rs
             (place_register frepr start quantity data endian r st))"

definition build_register_image ::
    "(pyfloat \<Rightarrow> string) \<Rightarrow> nat \<Rightarrow> nat \<Rightarrow> readings \<Rightarrow> string \<Rightarrow> byte list option" where
  "build_register_image frepr start quantity data endian =
     (let (img, covered) = image_loop frepr start quantity data endian SORTED_REGISTERS
            (replicate (quantity * 2) 0, replicate quantity False)
      in if \<not> list_ex (\<lambda>b. b) covered then None
         else if \<not> list_all (\<lambda>b. b) covered then None
         else Some img)"

section \<open>State\<close>

record 'w proxy =
  px_coord :: "'w coord"
  px_unit_id :: byte
  px_endianness :: string
  px_installer :: bool
  px_last_ext :: "nat \<Rightarrow> rat option"
  px_fc06_count :: nat
  px_fc16_count :: nat
  px_read_count :: nat
  px_cache_hits :: nat
  px_forwarded :: nat
  px_failed :: nat
  px_timeouts :: nat
  px_uncertain :: nat
  px_last_success :: "rat option"
  px_client_timeout :: rat
  px_last_request :: rat
  px_upstream_failed :: bool
  px_read_failures :: "(nat \<times> nat) set"
  px_write_failures :: "nat set"
  px_comm :: comm_state

text \<open>
  What is outside one request: the environments of the client and of the coordinator, the SoC
  controller's activity, the owner of register 1038, and the requests that the time limit of
  ten seconds cuts off, with the state they leave behind.
\<close>

record 'w px_env =
  pe_env :: "'w env"
  pe_ha :: "'w ha_env"
  pe_soc_active :: "'w \<Rightarrow> bool"
  pe_locked :: "'w \<Rightarrow> bool"
  pe_cut :: "byte list \<Rightarrow> 'w proxy \<Rightarrow> 'w proxy option"

definition REG_1038_ADDRESSES :: "nat list" where
  "REG_1038_ADDRESSES = [rg_address REG_BAT_MAX_CHARGE_LIMIT
     ..< rg_address REG_BAT_MAX_CHARGE_LIMIT + rg_count REG_BAT_MAX_CHARGE_LIMIT]"

definition px_client :: "'w proxy \<Rightarrow> 'w client" where
  "px_client p = co_client (px_coord p)"

definition px_world :: "'w proxy \<Rightarrow> 'w" where
  "px_world p = cl_world (px_client p)"

definition px_connected :: "'w px_env \<Rightarrow> 'w proxy \<Rightarrow> bool" where
  "px_connected pe p \<longleftrightarrow> client_connected (pe_env pe) (px_client p)"

definition px_now :: "'w px_env \<Rightarrow> 'w proxy \<Rightarrow> rat" where
  "px_now pe p = ev_now (pe_env pe) (px_world p)"

text \<open>Run an action of the client or of the coordinator on the proxy's state.\<close>

definition px_on_client ::
    "('w client \<Rightarrow> (modbus_error + 'a) \<times> 'w client) \<Rightarrow> 'w proxy \<Rightarrow> (modbus_error + 'a) \<times> 'w proxy" where
  "px_on_client f p = (let (x, c) = on_client f (px_coord p) in (x, p\<lparr>px_coord := c\<rparr>))"

definition px_on_coord ::
    "('w coord \<Rightarrow> (modbus_error + 'a) \<times> 'w coord) \<Rightarrow> 'w proxy \<Rightarrow> (modbus_error + 'a) \<times> 'w proxy" where
  "px_on_coord f p = (let (x, c) = f (px_coord p) in (x, p\<lparr>px_coord := c\<rparr>))"

definition proxy_audit ::
    "'w px_env \<Rightarrow> string \<Rightarrow> pyval \<Rightarrow> string \<Rightarrow> string \<Rightarrow> 'w proxy \<Rightarrow> 'w proxy" where
  "proxy_audit pe key value result detail p = p\<lparr>px_coord := audit_event (pe_env pe)
     (if contains ''FC06'' detail then ''proxy_fc06''
      else if contains ''FC16'' detail then ''proxy_fc16'' else ''proxy_fwd'')
     key value result detail (px_coord p)\<rparr>"

section \<open>Reads\<close>

text \<open>A forwarded read that holds a FLOAT32 which is not finite is refused as a whole.\<close>

definition float_in_range :: "nat \<Rightarrow> nat \<Rightarrow> modbus_register \<Rightarrow> bool" where
  "float_in_range start quantity r \<longleftrightarrow> rg_dtype r = FLOAT32 \<and> start \<le> rg_address r
     \<and> rg_address r + rg_count r \<le> start + quantity"

definition float_ok :: "string \<Rightarrow> nat \<Rightarrow> byte list \<Rightarrow> modbus_register \<Rightarrow> bool" where
  "float_ok endian start raw r =
     (case decode_for_write endian r (take 4 (drop ((rg_address r - start) * 2) raw)) of
        Inr v \<Rightarrow> num_is_finite v | Inl _ \<Rightarrow> False)"

definition forward_read :: "'w px_env \<Rightarrow> nat \<Rightarrow> nat \<Rightarrow> 'w proxy \<Rightarrow> byte list option \<times> 'w proxy" where
  "forward_read pe start quantity p =
     (if \<not> px_connected pe p then (None, p)
      else case px_on_client (raw_read (pe_env pe) start quantity) p of
        (Inl e, p1) \<Rightarrow> (None, p1)
      | (Inr raw, p1) \<Rightarrow>
          if length raw \<noteq> quantity * 2 then (None, p1)
          else if \<not> list_all (\<lambda>r. float_in_range start quantity r \<longrightarrow> float_ok (px_endianness p) start raw r)
                    ALL_REGISTERS
          then (None, p1)
          else (Some raw, p1\<lparr>px_forwarded := px_forwarded p1 + 1, px_read_failures := {}\<rparr>))"

definition handle_read :: "'w px_env \<Rightarrow> byte list \<Rightarrow> 'w proxy \<Rightarrow> byte list \<times> 'w proxy" where
  "handle_read pe pdu p =
     (if length pdu < 5 then (error_response (if pdu = [] then 0x01 else hd pdu) 0x03, p)
      else let fc = hd pdu; start = u16_at pdu 1; quantity = u16_at pdu 3
        in if quantity < 1 \<or> 125 < quantity then (error_response fc 0x03, p)
           else let p1 = p\<lparr>px_read_count := px_read_count p + 1\<rparr>
             in case build_register_image (ha_frepr (pe_ha pe)) start quantity
                       (proxy_cache_data (pe_env pe) (px_coord p)) (px_endianness p) of
                  Some img \<Rightarrow> ([fc, of_nat (quantity * 2)] @ img, p1\<lparr>px_cache_hits := px_cache_hits p1 + 1\<rparr>)
                | None \<Rightarrow> (case forward_read pe start quantity p1 of
                    (Some raw, p2) \<Rightarrow> ([fc, of_nat (length raw)] @ raw, p2)
                  | (None, p2) \<Rightarrow> (error_response fc 0x04, p2)))"

section \<open>Writes\<close>

definition addr_key :: "nat \<Rightarrow> string" where
  "addr_key a = ''addr:'' @ nat_dec a"

definition px_invalidate :: "nat \<Rightarrow> nat \<Rightarrow> 'w proxy \<Rightarrow> 'w proxy" where
  "px_invalidate a q p = p\<lparr>px_coord := invalidate_proxy_cache a q (px_coord p)\<rparr>"

definition count_uncertain :: "'w proxy \<Rightarrow> 'w proxy" where
  "count_uncertain p = p\<lparr>px_uncertain := px_uncertain p + 1\<rparr>"

definition forward_write_multiple ::
    "'w px_env \<Rightarrow> nat \<Rightarrow> nat \<Rightarrow> byte list \<Rightarrow> 'w proxy \<Rightarrow> bool \<times> 'w proxy" where
  "forward_write_multiple pe start quantity data p =
     (if \<not> px_connected pe p then (False, p)
      else case px_on_client (raw_write (pe_env pe) start data quantity) (px_invalidate start quantity p) of
        (Inr _, p1) \<Rightarrow> (True, p1)
      | (Inl e, p1) \<Rightarrow> (False, count_uncertain p1))"

definition forward_write_single :: "'w px_env \<Rightarrow> nat \<Rightarrow> nat \<Rightarrow> 'w proxy \<Rightarrow> bool \<times> 'w proxy" where
  "forward_write_single pe address value p =
     (if \<not> px_connected pe p then (False, p)
      else case px_on_client (raw_write (pe_env pe) address (be16 value) 1) (px_invalidate address 1 p) of
        (Inr _, p1) \<Rightarrow> (True, p1)
      | (Inl e, p1) \<Rightarrow> (False, count_uncertain p1))"

text \<open>
  The checks in front of every write, over the words it touches: the installer gate, the SoC
  controller, the owner of register 1038. The result is the refusal, if any.
\<close>

definition write_refused ::
    "'w px_env \<Rightarrow> byte \<Rightarrow> string \<Rightarrow> nat \<Rightarrow> nat \<Rightarrow> pyval \<Rightarrow> 'w proxy \<Rightarrow> (byte list \<times> 'w proxy) option" where
  "write_refused pe fc detail start quantity value p =
     (let battery = list_ex (\<lambda>a. a \<in> set BATTERY_CONTROL_ADDRESSES) [start ..< start + quantity]
      in if battery \<and> \<not> px_installer p
         then Some (error_response fc 0x03, proxy_audit pe (addr_key start) value ''rejected_installer'' detail p)
         else if battery \<and> pe_soc_active pe (px_world p)
         then Some (error_response fc 0x06, proxy_audit pe (addr_key start) value ''rejected_soc_active'' detail p)
         else if list_ex (\<lambda>a. a \<in> set REG_1038_ADDRESSES) [start ..< start + quantity]
                 \<and> pe_locked pe (px_world p)
         then Some (error_response fc 0x06, proxy_audit pe (addr_key start) value ''rejected_reg_1038_owner'' detail p)
         else None)"

definition note_ext_write :: "'w px_env \<Rightarrow> nat \<Rightarrow> 'w proxy \<Rightarrow> 'w proxy" where
  "note_ext_write pe a p = p\<lparr>px_last_ext := (px_last_ext p)(a \<mapsto> px_now pe p)\<rparr>"

definition handle_write_single :: "'w px_env \<Rightarrow> byte list \<Rightarrow> 'w proxy \<Rightarrow> byte list \<times> 'w proxy" where
  "handle_write_single pe pdu p =
     (if length pdu < 5 then (error_response FC_WRITE_SINGLE 0x03, p)
      else let address = u16_at pdu 1; value = u16_at pdu 3
        in case write_refused pe FC_WRITE_SINGLE ''FC06'' address 1 (VInt (int value)) p of
             Some r \<Rightarrow> r
           | None \<Rightarrow>
               (let p1 = (note_ext_write pe address p)\<lparr>px_fc06_count := px_fc06_count p + 1\<rparr>;
                    forward = (\<lambda>_. if \<not> px_connected pe p1 then (error_response FC_WRITE_SINGLE 0x0B, p1)
                      else case forward_write_single pe address value p1 of
                        (True, p2) \<Rightarrow> (take 5 pdu, proxy_audit pe (addr_key address) (VInt (int value))
                                         ''forwarded_direct'' ''FC06'' p2)
                      | (False, p2) \<Rightarrow> (error_response FC_WRITE_SINGLE 0x04, p2))
                in case REGISTER_BY_ADDRESS address of
                     None \<Rightarrow> forward ()
                   | Some r \<Rightarrow>
                       if rg_access r \<noteq> RW then forward ()
                       else if 1 < rg_count r
                       then (error_response FC_WRITE_SINGLE 0x03, proxy_audit pe (rg_name r) (VInt (int value))
                               ''rejected_validation'' ''FC06 multi-reg'' p1)
                       else let v = (if rg_dtype r = SINT16 \<and> 32768 \<le> value then int value - 65536 else int value)
                         in if \<not> px_connected pe p1 then (error_response FC_WRITE_SINGLE 0x0B, p1)
                            else case px_on_coord (async_write_by_address (pe_env pe) (pe_ha pe) address (VInt v)
                                        ''proxy_fc06'') p1 of
                                (Inr _, p2) \<Rightarrow> (take 5 pdu, p2)
                              | (Inl e, p2) \<Rightarrow> (error_response FC_WRITE_SINGLE 0x04, count_uncertain p2)))"

definition write_multiple_response :: "nat \<Rightarrow> nat \<Rightarrow> byte list" where
  "write_multiple_response start quantity = FC_WRITE_MULTIPLE # be16 start @ be16 quantity"

text \<open>A write of exactly one writable register goes through the coordinator.\<close>

definition write_known_register ::
    "'w px_env \<Rightarrow> modbus_register \<Rightarrow> nat \<Rightarrow> nat \<Rightarrow> byte list \<Rightarrow> 'w proxy \<Rightarrow> byte list \<times> 'w proxy" where
  "write_known_register pe r start quantity reg_values p =
     (case decode_for_write (px_endianness p) r reg_values of
        Inl e \<Rightarrow> (error_response FC_WRITE_MULTIPLE 0x03,
                   proxy_audit pe (rg_name r) VNone ''error''
                     (''FC16 decode: '' @ ha_msg (pe_ha pe) (PyExc e)) p)
      | Inr decoded \<Rightarrow>
          if is_number decoded \<and> \<not> num_is_finite decoded then (error_response FC_WRITE_MULTIPLE 0x03, p)
          else if \<not> px_connected pe p then (error_response FC_WRITE_MULTIPLE 0x0B, p)
          else let pre = (if rg_address r \<in> set REG_1038_ADDRESSES
                          then Some (\<lambda>cl. \<not> pe_locked pe (cl_world cl)) else None)
            in case px_on_coord (async_write_register (pe_env pe) (pe_ha pe) r decoded ''proxy_fc16'' pre True) p of
                 (Inr _, p1) \<Rightarrow> (write_multiple_response start quantity, p1)
               | (Inl e, p1) \<Rightarrow> (error_response FC_WRITE_MULTIPLE 0x04, count_uncertain p1))"

definition write_raw_range ::
    "'w px_env \<Rightarrow> nat \<Rightarrow> nat \<Rightarrow> byte list \<Rightarrow> 'w proxy \<Rightarrow> byte list \<times> 'w proxy" where
  "write_raw_range pe start quantity reg_values p =
     (if \<not> px_connected pe p then (error_response FC_WRITE_MULTIPLE 0x0B, p)
      else case forward_write_multiple pe start quantity reg_values p of
        (True, p1) \<Rightarrow> (write_multiple_response start quantity,
                       proxy_audit pe (addr_key start) VNone ''forwarded_direct'' ''FC16'' p1)
      | (False, p1) \<Rightarrow> (error_response FC_WRITE_MULTIPLE 0x04, p1))"

definition handle_write_multiple :: "'w px_env \<Rightarrow> byte list \<Rightarrow> 'w proxy \<Rightarrow> byte list \<times> 'w proxy" where
  "handle_write_multiple pe pdu p =
     (if length pdu < 6 then (error_response FC_WRITE_MULTIPLE 0x03, p)
      else let start = u16_at pdu 1; quantity = u16_at pdu 3; byte_count = unat (pdu ! 5)
        in if quantity < 1 \<or> 123 < quantity \<or> 65536 < start + quantity \<or> byte_count \<noteq> quantity * 2
           then (error_response FC_WRITE_MULTIPLE 0x03, p)
           else if length pdu < 6 + byte_count then (error_response FC_WRITE_MULTIPLE 0x03, p)
           else case write_refused pe FC_WRITE_MULTIPLE ''FC16'' start quantity VNone p of
             Some r \<Rightarrow> r
           | None \<Rightarrow>
               (let p1 = (note_ext_write pe start p)\<lparr>px_fc16_count := px_fc16_count p + 1\<rparr>;
                    reg_values = take byte_count (drop 6 pdu)
                in case REGISTER_BY_ADDRESS start of
                     Some r \<Rightarrow>
                       if rg_access r = RW \<and> quantity = rg_count r
                       then write_known_register pe r start quantity reg_values p1
                       else write_raw_range pe start quantity reg_values p1
                   | None \<Rightarrow> write_raw_range pe start quantity reg_values p1))"

section \<open>One request\<close>

definition dispatch_pdu :: "'w px_env \<Rightarrow> byte list \<Rightarrow> byte \<Rightarrow> 'w proxy \<Rightarrow> byte list \<times> 'w proxy" where
  "dispatch_pdu pe pdu unit p =
     (if pdu = [] then (error_response 0 0x01, p)
      else if unit \<noteq> px_unit_id p then (error_response (hd pdu) 0x0B, p)
      else if hd pdu \<in> {FC_READ_HOLDING, FC_READ_INPUT} then handle_read pe pdu p
      else if hd pdu = FC_WRITE_SINGLE then handle_write_single pe pdu p
      else if hd pdu = FC_WRITE_MULTIPLE then handle_write_multiple pe pdu p
      else (error_response (hd pdu) 0x01, p))"

definition check_client_watchdog :: "'w px_env \<Rightarrow> 'w proxy \<Rightarrow> 'w proxy" where
  "check_client_watchdog pe p =
     (let missing = 0 < px_client_timeout p \<and> px_client_timeout p < px_now pe p - px_last_request p;
          faults = (if missing \<or> px_upstream_failed p then [''proxy''] else [])
            @ (if px_write_failures p \<noteq> {} then [''write_unconfirmed''] else [])
      in case comm_observe faults (ha_wall (pe_ha pe) (px_world p)) None (px_comm p) of
           Inl _ \<Rightarrow> p | Inr (_, s) \<Rightarrow> p\<lparr>px_comm := s\<rparr>)"

definition is_read_fc :: "byte \<Rightarrow> bool" where
  "is_read_fc fc \<longleftrightarrow> fc \<in> {FC_READ_HOLDING, FC_READ_INPUT}"

definition is_write_fc :: "byte \<Rightarrow> bool" where
  "is_write_fc fc \<longleftrightarrow> fc \<in> {FC_WRITE_SINGLE, FC_WRITE_MULTIPLE}"

text \<open>At most 64 failed reads are remembered; an error other than 0x04 forgets its read.\<close>

definition track_read :: "byte list \<Rightarrow> byte list \<Rightarrow> (nat \<times> nat) set \<Rightarrow> (nat \<times> nat) set" where
  "track_read pdu resp failures =
     (if is_read_fc (hd pdu) \<and> length pdu = 5
      then (let key = (u16_at pdu 1, u16_at pdu 3)
            in if is_error resp \<and> error_code resp = 0x04
               then (if card failures < 64 then insert key failures else failures)
               else if is_error resp then failures - {key} else failures)
      else failures)"

text \<open>The words a write request addresses, where its range is one that Modbus allows.\<close>

definition write_range :: "byte list \<Rightarrow> nat set" where
  "write_range pdu =
     (if pdu \<noteq> [] \<and> is_write_fc (hd pdu) \<and> 5 \<le> length pdu
      then (let address = u16_at pdu 1; quantity = (if hd pdu = FC_WRITE_SINGLE then 1 else u16_at pdu 3)
            in if 1 \<le> quantity \<and> quantity \<le> 123 \<and> address + quantity \<le> 65536
               then {address ..< address + quantity} else {})
      else {})"

definition track_write :: "byte list \<Rightarrow> byte list \<Rightarrow> nat set \<Rightarrow> nat set" where
  "track_write pdu resp failures =
     (if is_error resp \<and> error_code resp = 0x04 then failures \<union> write_range pdu
      else if \<not> is_error resp then failures - write_range pdu else failures)"

text \<open>What follows the answer \<open>resp\<close>, or its absence when the request was cut off.\<close>

definition finish_pdu ::
    "'w px_env \<Rightarrow> byte list \<Rightarrow> byte \<Rightarrow> byte list option \<Rightarrow> 'w proxy \<Rightarrow> byte list \<times> 'w proxy" where
  "finish_pdu pe pdu unit resp0 p =
     (let fc = (if pdu = [] then 0 else hd pdu);
          p1 = (if resp0 = None
                then p\<lparr>px_timeouts := px_timeouts p + 1,
                       px_uncertain := px_uncertain p + (if is_write_fc fc then 1 else 0)\<rparr> else p);
          resp = (case resp0 of None \<Rightarrow> error_response fc 0x04 | Some r \<Rightarrow> r);
          p2 = (if is_error resp then p1\<lparr>px_failed := px_failed p1 + 1\<rparr>
                else p1\<lparr>px_last_success := Some (px_now pe p1)\<rparr>)
      in (resp,
          if unit = px_unit_id p2 \<and> (is_read_fc fc \<or> is_write_fc fc)
          then let failures = track_read pdu resp (px_read_failures p2)
               in check_client_watchdog pe (p2\<lparr>px_last_request := px_now pe p2,
                    px_read_failures := failures,
                    px_write_failures := track_write pdu resp (px_write_failures p2),
                    px_upstream_failed := failures \<noteq> {}\<rparr>)
          else p2))"

definition process_pdu :: "'w px_env \<Rightarrow> byte list \<Rightarrow> byte \<Rightarrow> 'w proxy \<Rightarrow> byte list \<times> 'w proxy" where
  "process_pdu pe pdu unit p = (case pe_cut pe pdu p of
     Some p1 \<Rightarrow> finish_pdu pe pdu unit None p1
   | None \<Rightarrow> (let (resp, p1) = dispatch_pdu pe pdu unit p in finish_pdu pe pdu unit (Some resp) p1))"

section \<open>A client's byte stream\<close>

text \<open>
  One turn of the loop over the stream: the end (too few bytes, or a negative read size), a
  frame that is skipped, or a request with its transaction and unit.
\<close>

datatype frame = FrameEnd | FrameSkip "byte list" | FrameRequest nat byte "byte list" "byte list"

definition read_exactly :: "nat \<Rightarrow> byte list \<Rightarrow> (byte list \<times> byte list) option" where
  "read_exactly n bs = (if length bs < n then None else Some (take n bs, drop n bs))"

definition skip_exactly :: "nat \<Rightarrow> byte list \<Rightarrow> frame" where
  "skip_exactly n bs = (case read_exactly n bs of None \<Rightarrow> FrameEnd | Some (_, rest) \<Rightarrow> FrameSkip rest)"

definition MBAP_HEADER_SIZE :: nat where "MBAP_HEADER_SIZE = 7"

definition next_frame :: "byte list \<Rightarrow> frame" where
  "next_frame bs = (case read_exactly MBAP_HEADER_SIZE bs of
     None \<Rightarrow> FrameEnd
   | Some (header, rest) \<Rightarrow>
       (let txn = u16_at header 0; proto = u16_at header 2; len = u16_at header 4; unit = header ! 6
        in if proto \<noteq> 0 then (if len = 0 then FrameEnd else skip_exactly (len - 1) rest)
           else if len < 2 \<or> 260 < len
           then (if 1 < len then skip_exactly (min (len - 1) 260) rest else FrameSkip rest)
           else (case read_exactly (len - 1) rest of
             None \<Rightarrow> FrameEnd
           | Some (pdu, rest1) \<Rightarrow> FrameRequest txn unit pdu rest1)))"

definition mbap_response :: "nat \<Rightarrow> byte \<Rightarrow> byte list \<Rightarrow> byte list" where
  "mbap_response txn unit resp = be16 txn @ be16 0 @ be16 (length resp + 1) @ [unit] @ resp"

text \<open>Every turn takes at least the seven bytes of a header.\<close>

lemma read_exactly_length:
  "read_exactly n bs = Some (a, rest) \<Longrightarrow> length bs = n + length rest"
  by (auto simp: read_exactly_def split: if_splits)

lemma skip_exactly_length: "skip_exactly n bs = FrameSkip rest \<Longrightarrow> length rest \<le> length bs"
  by (auto simp: skip_exactly_def dest: read_exactly_length split: option.splits)

lemma skip_exactly_no_request [simp]: "skip_exactly n bs \<noteq> FrameRequest txn unit pdu rest"
  by (simp add: skip_exactly_def split: option.splits prod.splits)

lemma next_frame_shorter:
  "next_frame bs = FrameSkip rest \<Longrightarrow> length rest < length bs"
  "next_frame bs = FrameRequest txn unit pdu rest1 \<Longrightarrow> length rest1 < length bs"
  by (auto simp: next_frame_def Let_def MBAP_HEADER_SIZE_def
      dest!: read_exactly_length skip_exactly_length split: option.splits if_splits)

function serve_stream :: "'w px_env \<Rightarrow> byte list \<Rightarrow> 'w proxy \<Rightarrow> byte list \<times> 'w proxy" where
  "serve_stream pe bs p = (case next_frame bs of
     FrameEnd \<Rightarrow> ([], p)
   | FrameSkip rest \<Rightarrow> serve_stream pe rest p
   | FrameRequest txn unit pdu rest \<Rightarrow>
       (let (resp, p1) = process_pdu pe pdu unit p;
            (out, p2) = serve_stream pe rest p1
        in (mbap_response txn unit resp @ out, p2)))"
  by pat_completeness auto

termination serve_stream
  by (relation "measure (\<lambda>(pe, bs, p). length bs)") (auto dest: next_frame_shorter)

declare serve_stream.simps [simp del]

end
