(* ===== verification/ProxyImage.thy ===== *)
theory ProxyImage
  imports ModbusProxy CoordWrites
begin

text \<open>
  The register image: it is served exactly when every requested word comes from a cached
  register, it then holds those registers' bytes, and when the cached values are what the
  device's words decode to, it is the device's memory.
\<close>

unbundle bit_operations_syntax

section \<open>The word of a register at an address\<close>

definition register_word ::
    "(pyfloat \<Rightarrow> string) \<Rightarrow> readings \<Rightarrow> string \<Rightarrow> nat \<Rightarrow> modbus_register \<Rightarrow> (byte \<times> byte) option" where
  "register_word frepr data endian a r =
     (case map_of data (rg_name r) of
        None \<Rightarrow> None
      | Some v \<Rightarrow>
          if v = VNone then None
          else (case encode_value frepr v r endian of
            Inl e \<Rightarrow> None
          | Inr raw \<Rightarrow>
              if rg_address r \<le> a \<and> a < rg_address r + rg_count r
                \<and> (a - rg_address r) * 2 + 2 \<le> length raw
              then Some (raw ! ((a - rg_address r) * 2), raw ! ((a - rg_address r) * 2 + 1)) else None))"

text \<open>
  The state of the loop after the registers \<open>R\<close>: a word is marked exactly when one of them
  covers it, and then it holds the word of one of them.
\<close>

definition image_inv ::
    "(nat \<Rightarrow> modbus_register \<Rightarrow> (byte \<times> byte) option) \<Rightarrow> nat \<Rightarrow> nat \<Rightarrow> modbus_register set
     \<Rightarrow> byte list \<times> bool list \<Rightarrow> bool" where
  "image_inv W start quantity R st \<longleftrightarrow>
     length (fst st) = quantity * 2 \<and> length (snd st) = quantity
     \<and> (\<forall>i<quantity. (snd st ! i \<longleftrightarrow> (\<exists>r\<in>R. W (start + i) r \<noteq> None))
          \<and> (snd st ! i \<longrightarrow> (\<exists>r\<in>R. W (start + i) r = Some (fst st ! (i * 2), fst st ! (i * 2 + 1)))))"

text \<open>Writing the words of one register: the words in range among the given ones change.\<close>

definition in_image :: "nat \<Rightarrow> nat \<Rightarrow> nat \<Rightarrow> byte list \<Rightarrow> nat \<Rightarrow> nat \<Rightarrow> bool" where
  "in_image start quantity base raw j i \<longleftrightarrow> base + j = start + i \<and> j * 2 + 2 \<le> length raw"

lemma place_word_nth:
  assumes "length img = quantity * 2" "length covered = quantity" "i < quantity"
    "place_word start quantity base raw j (img, covered) = (img', covered')"
  shows "length img' = quantity * 2 \<and> length covered' = quantity
    \<and> covered' ! i = (in_image start quantity base raw j i \<or> covered ! i)
    \<and> (img' ! (i * 2), img' ! (i * 2 + 1)) =
        (if in_image start quantity base raw j i then (raw ! (j * 2), raw ! (j * 2 + 1))
         else (img ! (i * 2), img ! (i * 2 + 1)))"
proof (cases "start \<le> base + j \<and> base + j < start + quantity \<and> j * 2 + 2 \<le> length raw")
  case False
  then show ?thesis using assms by (auto simp: place_word_def in_image_def)
next
  case True
  define idx where "idx = base + j - start"
  have idx: "idx < quantity" "in_image start quantity base raw j i \<longleftrightarrow> i = idx"
    using True by (auto simp: idx_def in_image_def)
  have e: "img' = img[idx * 2 := raw ! (j * 2), idx * 2 + 1 := raw ! (j * 2 + 1)]"
    "covered' = covered[idx := True]"
    using assms(4) True by (simp_all add: place_word_def Let_def flip: idx_def)
  have "i * 2 \<noteq> idx * 2 + 1" "i * 2 + 1 \<noteq> idx * 2" by presburger+
  then show ?thesis using assms idx e by (simp add: nth_list_update)
qed

lemma place_words_nth:
  assumes "length img = quantity * 2" "length covered = quantity" "i < quantity"
    "fold (place_word start quantity base raw) js (img, covered) = (img', covered')"
  shows "length img' = quantity * 2 \<and> length covered' = quantity
    \<and> covered' ! i = ((\<exists>j\<in>set js. in_image start quantity base raw j i) \<or> covered ! i)
    \<and> (img' ! (i * 2), img' ! (i * 2 + 1)) =
        (if \<exists>j\<in>set js. in_image start quantity base raw j i
         then (raw ! ((start + i - base) * 2), raw ! ((start + i - base) * 2 + 1))
         else (img ! (i * 2), img ! (i * 2 + 1)))"
  using assms
proof (induction js arbitrary: img covered)
  case (Cons j js)
  obtain img1 covered1 where p: "place_word start quantity base raw j (img, covered) = (img1, covered1)"
    by (cases "place_word start quantity base raw j (img, covered)")
  note 1 = place_word_nth [OF Cons.prems(1-3) p]
  have "fold (place_word start quantity base raw) js (img1, covered1) = (img', covered')"
    using Cons.prems(4) p by simp
  note IH = Cons.IH [OF _ _ Cons.prems(3) this]
  show ?case
  proof (cases "in_image start quantity base raw j i")
    case True
    then have "start + i - base = j" unfolding in_image_def by arith
    then show ?thesis using IH 1 True by auto
  next
    case False
    then show ?thesis using IH 1 by simp
  qed
qed simp

text \<open>One register: the words of the range it covers.\<close>

lemma place_register_nth:
  assumes "length img = quantity * 2" "length covered = quantity" "i < quantity"
    "place_register frepr start quantity data endian r (img, covered) = (img', covered')"
  defines "w \<equiv> register_word frepr data endian (start + i) r"
  shows "length img' = quantity * 2 \<and> length covered' = quantity
    \<and> covered' ! i = (w \<noteq> None \<or> covered ! i)
    \<and> (img' ! (i * 2), img' ! (i * 2 + 1)) = (case w of Some b \<Rightarrow> b | None \<Rightarrow> (img ! (i * 2), img ! (i * 2 + 1)))"
proof (cases "\<exists>v raw. start < rg_address r + rg_count r \<and> map_of data (rg_name r) = Some v
    \<and> v \<noteq> VNone \<and> encode_value frepr v r endian = Inr raw")
  case False
  then have "w = None"
    by (auto simp: w_def register_word_def split: option.splits sum.splits)
  moreover have "img' = img" "covered' = covered"
    using False assms(4) by (auto simp: place_register_def split: option.splits sum.splits if_splits)
  ultimately show ?thesis using assms by simp
next
  case True
  then obtain v raw where v: "start < rg_address r + rg_count r" "map_of data (rg_name r) = Some v"
    "v \<noteq> VNone" "encode_value frepr v r endian = Inr raw" by blast
  have f: "fold (place_word start quantity (rg_address r) raw) [0 ..< rg_count r] (img, covered) = (img', covered')"
    using assms(4) v by (simp add: place_register_def not_le)
  have j: "(\<exists>j\<in>set [0 ..< rg_count r]. in_image start quantity (rg_address r) raw j i)
    \<longleftrightarrow> rg_address r \<le> start + i \<and> start + i < rg_address r + rg_count r
      \<and> (start + i - rg_address r) * 2 + 2 \<le> length raw"
    by (auto simp: in_image_def intro!: bexI [of _ "start + i - rg_address r"])
  show ?thesis using place_words_nth [OF assms(1-3) f, unfolded j] v(2-4)
    by (auto simp: w_def register_word_def)
qed

lemma place_register_inv:
  assumes "image_inv (register_word frepr data endian) start quantity R st"
  shows "image_inv (register_word frepr data endian) start quantity (insert r R)
    (place_register frepr start quantity data endian r st)"
proof -
  let ?W = "register_word frepr data endian"
  obtain img covered where st: "st = (img, covered)" by (cases st)
  obtain img' covered' where p: "place_register frepr start quantity data endian r (img, covered) = (img', covered')"
    by (cases "place_register frepr start quantity data endian r (img, covered)")
  have l: "length img = quantity * 2" "length covered = quantity"
    using assms by (simp_all add: image_inv_def st)
  have l': "length img' = quantity * 2 \<and> length covered' = quantity"
  proof (cases quantity)
    case 0
    have "place_word start 0 b raw j s = s" for b raw j s
      by (cases s) (auto simp: place_word_def)
    then have "fold (place_word start 0 b raw) js s = s" for b raw js s
      by (induction js) auto
    then show ?thesis using p l 0
      by (auto simp: place_register_def split: option.splits sum.splits if_splits)
  next
    case (Suc k)
    then show ?thesis using place_register_nth [OF l _ p, of 0] by simp
  qed
  have "(covered' ! i \<longleftrightarrow> (\<exists>x\<in>insert r R. ?W (start + i) x \<noteq> None))
      \<and> (covered' ! i \<longrightarrow> (\<exists>x\<in>insert r R. ?W (start + i) x = Some (img' ! (i * 2), img' ! (i * 2 + 1))))"
    if "i < quantity" for i
  proof -
    have o: "(covered ! i \<longleftrightarrow> (\<exists>x\<in>R. ?W (start + i) x \<noteq> None))
      \<and> (covered ! i \<longrightarrow> (\<exists>x\<in>R. ?W (start + i) x = Some (img ! (i * 2), img ! (i * 2 + 1))))"
      using assms that by (simp add: image_inv_def st)
    show ?thesis
      by (cases "?W (start + i) r") (use place_register_nth [OF l that p] o in auto)
  qed
  then show ?thesis using l' by (simp add: image_inv_def st p)
qed

text \<open>Registers behind the range cover none of its words.\<close>

lemma register_word_behind:
  "start + quantity \<le> rg_address r \<Longrightarrow> i < quantity \<Longrightarrow> register_word frepr data endian (start + i) r = None"
  by (simp add: register_word_def split: option.split sum.split)

lemma image_inv_more:
  assumes "image_inv W start quantity R st" "\<And>i r. i < quantity \<Longrightarrow> r \<in> S \<Longrightarrow> W (start + i) r = None"
  shows "image_inv W start quantity (R \<union> S) st"
  using assms by (auto simp: image_inv_def)

lemma image_loop_inv:
  assumes "sorted (map rg_address rs)"
    "image_inv (register_word frepr data endian) start quantity R st"
  shows "image_inv (register_word frepr data endian) start quantity (R \<union> set rs)
    (image_loop frepr start quantity data endian rs st)"
  using assms
proof (induction rs arbitrary: R st)
  case (Cons r rs)
  show ?case
  proof (cases "start + quantity \<le> rg_address r")
    case True
    have "register_word frepr data endian (start + i) x = None" if "i < quantity" "x \<in> set (r # rs)" for i x
      using Cons.prems(1) True that by (intro register_word_behind [of start quantity]) auto
    then show ?thesis using True image_inv_more [OF Cons.prems(2), of "set (r # rs)"] by simp
  next
    case False
    have "sorted (map rg_address rs)" using Cons.prems(1) by simp
    from Cons.IH [OF this place_register_inv [OF Cons.prems(2), of r]] show ?thesis
      using False by simp
  qed
qed simp

lemma sorted_registers: "set SORTED_REGISTERS = set ALL_REGISTERS" "sorted (map rg_address SORTED_REGISTERS)"
  by (simp_all add: SORTED_REGISTERS_def)

lemma image_spec:
  "case build_register_image frepr start quantity data endian of
     None \<Rightarrow> quantity = 0 \<or>
       (\<exists>i<quantity. \<forall>r\<in>set ALL_REGISTERS. register_word frepr data endian (start + i) r = None)
   | Some img \<Rightarrow> 0 < quantity \<and> length img = quantity * 2 \<and>
       (\<forall>i<quantity. \<exists>r\<in>set ALL_REGISTERS.
          register_word frepr data endian (start + i) r = Some (img ! (i * 2), img ! (i * 2 + 1)))"
proof -
  let ?st = "image_loop frepr start quantity data endian SORTED_REGISTERS
    (replicate (quantity * 2) 0, replicate quantity False)"
  have "image_inv (register_word frepr data endian) start quantity {}
      (replicate (quantity * 2) 0, replicate quantity False)"
    by (simp add: image_inv_def)
  from image_loop_inv [OF sorted_registers(2) this]
  have i: "image_inv (register_word frepr data endian) start quantity (set ALL_REGISTERS) ?st"
    by (simp add: sorted_registers(1))
  obtain img covered where e: "?st = (img, covered)" by (cases ?st)
  have l: "length covered = quantity" using i by (simp add: image_inv_def e)
  show ?thesis
  proof (cases "list_ex (\<lambda>b. b) covered \<and> list_all (\<lambda>b. b) covered")
    case True
    then have "build_register_image frepr start quantity data endian = Some img" "0 < quantity"
      using l by (auto simp: build_register_image_def e list_ex_iff in_set_conv_nth)
    then show ?thesis using i True l by (simp add: image_inv_def e list_all_length)
  next
    case False
    then have "build_register_image frepr start quantity data endian = None"
      by (auto simp: build_register_image_def e)
    moreover have "quantity = 0 \<or> (\<exists>i<quantity. \<not> covered ! i)"
      using False l by (auto simp: list_all_length list_ex_length)
    ultimately show ?thesis using i by (auto simp: image_inv_def e)
  qed
qed

text \<open>C27: The register image is all or nothing. It is refused exactly when the request is empty or
  one of its words lies in no register with a cached value that can be encoded; when it is
  served it has two bytes per word, and every word is the encoding of a cached register that
  covers it: no word is made up.\<close>

theorem register_image_all_or_nothing:
  "case build_register_image frepr start quantity data endian of
     None \<Rightarrow> quantity = 0 \<or>
       (\<exists>i<quantity. \<forall>r\<in>set ALL_REGISTERS. register_word frepr data endian (start + i) r = None)
   | Some img \<Rightarrow> 0 < quantity \<and> length img = quantity * 2 \<and>
       (\<forall>i<quantity. \<exists>r\<in>set ALL_REGISTERS.
          register_word frepr data endian (start + i) r = Some (img ! (i * 2), img ! (i * 2 + 1)))"
  by (rule image_spec)

section \<open>The image of a device\<close>

lemma length_words_bytes [simp]: "length (words_bytes ws) = length ws * 2"
  by (induction ws) (simp_all add: words_bytes_def)

lemma words_bytes_nth:
  "i < length ws \<Longrightarrow> words_bytes ws ! (i * 2) = pack_be 2 (uint (ws ! i)) ! 0
     \<and> words_bytes ws ! (i * 2 + 1) = pack_be 2 (uint (ws ! i)) ! 1"
proof (induction ws arbitrary: i)
  case (Cons w ws)
  then show ?case by (cases i) (simp_all add: words_bytes_Cons nth_append)
qed simp

lemma words_bytes_pairs:
  assumes "length img = length ws * 2"
    "\<And>i. i < length ws \<Longrightarrow> (img ! (i * 2), img ! (i * 2 + 1))
       = (pack_be 2 (uint (ws ! i)) ! 0, pack_be 2 (uint (ws ! i)) ! 1)"
  shows "img = words_bytes ws"
proof (rule nth_equalityI)
  fix k assume "k < length img"
  then have i: "k div 2 < length ws" using assms(1) by linarith
  have "k = k div 2 * 2 \<or> k = k div 2 * 2 + 1" by presburger
  then show "img ! k = words_bytes ws ! k"
    using assms(2) [OF i] words_bytes_nth [OF i] by (elim disjE) (metis fst_conv snd_conv)+
qed (simp add: assms(1))

text \<open>
  The cached values are finite numbers, as the coordinator only observes such values, and they are
  what the words \<open>mem\<close> of the device decode to.
\<close>

definition reflects :: "(nat \<Rightarrow> 16 word) \<Rightarrow> string \<Rightarrow> readings \<Rightarrow> bool" where
  "reflects mem endian data \<longleftrightarrow>
     (\<forall>r\<in>set ALL_REGISTERS. case map_of data (rg_name r) of None \<Rightarrow> True | Some v \<Rightarrow>
        is_number v \<and> num_is_finite v
        \<and> decode_register endian
             (words_bytes (map mem [rg_address r ..< rg_address r + rg_count r])) r = Inr v)"

text \<open>
  The word the image has for a word of the device: a one-byte register is decoded from the high
  byte and encoded into the low one, a boolean keeps only whether it is zero, all others stay.
\<close>

definition served_word :: "(nat \<Rightarrow> 16 word) \<Rightarrow> nat \<Rightarrow> 16 word" where
  "served_word mem a = (case REGISTER_BY_ADDRESS a of
     None \<Rightarrow> mem a
   | Some r \<Rightarrow> (case rg_dtype r of
       UINT8 \<Rightarrow> drop_bit 8 (mem a) | BOOL \<Rightarrow> (if mem a = 0 then 0 else 1) | _ \<Rightarrow> mem a))"

lemma register_at_word:
  assumes "r \<in> set ALL_REGISTERS" "a \<in> reg_words r" "REGISTER_BY_ADDRESS a = Some s"
  shows "s = r"
proof (rule ccontr)
  assume "s \<noteq> r"
  have s: "s \<in> set ALL_REGISTERS" "rg_address s = a" using REGISTER_BY_ADDRESS_SomeD [OF assms(3)] by simp_all
  then have "a \<in> reg_words s" using registers_nonempty by (simp add: reg_words_def)
  then show False using registers_disjoint [OF s(1) assms(1) \<open>s \<noteq> r\<close>] assms(2) by blast
qed

lemma served_scalar:
  assumes "r \<in> set ALL_REGISTERS" "a \<in> reg_words r" "wire_scalar (rg_dtype r)"
  shows "served_word mem a = mem a"
proof (cases "REGISTER_BY_ADDRESS a")
  case (Some s)
  then have "s = r" by (rule register_at_word [OF assms(1,2)])
  then show ?thesis using Some assms(3) by (auto simp: served_word_def wire_scalar_def)
qed (simp add: served_word_def)

lemma size_of_register:
  assumes "r \<in> set ALL_REGISTERS"
  shows "scalar_words (rg_dtype r) \<le> rg_count r" "rg_dtype r \<in> {UINT8, BOOL} \<Longrightarrow> rg_count r = 1"
  using ALL_REGISTERS_size_ok registers_nonempty [OF assms] assms
  by (auto simp: list_all_iff size_ok_def scalar_words_def Suc_le_eq split: data_type.splits dest!: bspec)

lemma decode_takes_scalar:
  "wire_scalar (rg_dtype r) \<Longrightarrow> decode_register e (take (2 * scalar_words (rg_dtype r)) bs) r = decode_register e bs r"
  by (auto simp: wire_scalar_def decode_register_def scalar_words_def)

lemma one_word_bytes: "words_bytes [w] = [word_of_int (uint w div 256), word_of_int (uint w)]"
  by (simp add: words_bytes_def pack_be_numeral)

lemma encode_served:
  assumes r: "r \<in> set ALL_REGISTERS" and v: "is_number v" "num_is_finite v"
    "decode_register endian (words_bytes (map mem [rg_address r ..< rg_address r + rg_count r])) r = Inr v"
  shows "encode_value frepr v r endian
    = Inr (words_bytes (map (served_word mem) [rg_address r ..< rg_address r + scalar_words (rg_dtype r)]))"
proof (cases "wire_scalar (rg_dtype r)")
  case True
  let ?n = "scalar_words (rg_dtype r)"
  let ?bs = "words_bytes (map mem [rg_address r ..< rg_address r + ?n])"
  have n: "?n \<le> rg_count r" by (rule size_of_register [OF r])
  have "take (2 * ?n) (words_bytes (map mem [rg_address r ..< rg_address r + rg_count r])) = ?bs"
    using n by (simp add: take_words_bytes take_map min_def)
  then have "decode_register endian ?bs r = Inr v" using decode_takes_scalar [OF True] v(3) by metis
  then have "encode_value frepr v r endian = Inr ?bs"
    by (intro encode_value_decode_register [OF True _ _ v(2)]) simp_all
  moreover have "map (served_word mem) [rg_address r ..< rg_address r + ?n] = map mem [rg_address r ..< rg_address r + ?n]"
    by (rule map_cong [OF refl]) (use n in \<open>auto simp: reg_words_def intro!: served_scalar [OF r _ True]\<close>)
  ultimately show ?thesis by (simp only:)
next
  case False
  let ?w = "mem (rg_address r)"
  have t: "rg_dtype r = UINT8 \<or> rg_dtype r = BOOL"
  proof (cases "rg_dtype r")
    case STRING
    then have "\<exists>s. v = VStr s" using v(3) by (auto simp: decode_register_def)
    then show ?thesis using v(1) by auto
  qed (use False in \<open>simp_all add: wire_scalar_def\<close>)
  have c: "rg_count r = 1" using size_of_register(2) [OF r] t by auto
  have w: "[rg_address r ..< rg_address r + 1] = [rg_address r]" by simp
  have n: "scalar_words (rg_dtype r) = 1" using t by (auto simp: scalar_words_def)
  have s: "REGISTER_BY_ADDRESS (rg_address r) = Some r" by (rule REGISTER_BY_ADDRESS_address [OF r])
  have d: "decode_register endian (words_bytes [?w]) r = Inr v" using v(3) c by simp
  have b: "0 \<le> uint ?w" "uint ?w < 65536" using uint_lt2p [of ?w] by simp_all
  have q: "0 \<le> uint ?w div 256" "uint ?w div 256 < 256" using b by (intro div_int_pos_iff [THEN iffD2], simp, simp)
  from t show ?thesis
  proof
    assume 8: "rg_dtype r = UINT8"
    then have "v = VInt (uint (word_of_int (uint ?w div 256) :: byte))"
      using d by (simp add: decode_register_def one_word_bytes)
    also have "uint (word_of_int (uint ?w div 256) :: byte) = uint ?w div 256"
      using q by (simp add: uint_word_of_int)
    finally have e: "v = VInt (uint ?w div 256)" .
    have u: "uint (drop_bit 8 ?w) = uint ?w div 256"
      by (simp only: drop_bit_eq_div) (simp add: uint_div)
    show ?thesis using q
      by (simp add: encode_value_def 8 e none_or_def pack_uint_def scalar_words_def served_word_def s words_bytes_def u)
  next
    assume 1: "rg_dtype r = BOOL"
    have "unpack_uint 2 (words_bytes [?w]) = Inr (uint ?w)"
      using unpack_pack_be [of 2 "uint ?w"] b by (simp add: words_bytes_def unpack_uint_def)
    then have e: "v = VBool (?w \<noteq> 0)" using d by (simp add: decode_register_def 1 uint_0_iff)
    show ?thesis
      by (simp add: encode_value_def 1 e pack_uint_def scalar_words_def served_word_def s words_bytes_def)
  qed
qed

lemma register_word_reflects:
  assumes "reflects mem endian data" "r \<in> set ALL_REGISTERS"
    "register_word frepr data endian a r = Some b"
  shows "b = (pack_be 2 (uint (served_word mem a)) ! 0, pack_be 2 (uint (served_word mem a)) ! 1)"
proof -
  let ?ws = "map (served_word mem) [rg_address r ..< rg_address r + scalar_words (rg_dtype r)]"
  obtain v raw where v: "map_of data (rg_name r) = Some v" "encode_value frepr v r endian = Inr raw"
    and a: "rg_address r \<le> a" "(a - rg_address r) * 2 + 2 \<le> length raw"
    and b: "b = (raw ! ((a - rg_address r) * 2), raw ! ((a - rg_address r) * 2 + 1))"
    using assms(3) by (auto simp: register_word_def split: option.splits sum.splits if_splits)
  from assms(1,2) v(1) have "encode_value frepr v r endian = Inr (words_bytes ?ws)"
    by (intro encode_served) (auto simp: reflects_def dest!: bspec)
  then have "raw = words_bytes ?ws" using v(2) by simp
  moreover from this have "a - rg_address r < length ?ws" "?ws ! (a - rg_address r) = served_word mem a"
    using a by auto
  ultimately show ?thesis using words_bytes_nth [of "a - rg_address r" ?ws] b by simp
qed

lemma image_of_device:
  assumes "reflects mem endian data" "build_register_image frepr start quantity data endian = Some img"
  shows "img = words_bytes (map (served_word mem) [start ..< start + quantity])"
proof (rule words_bytes_pairs)
  have i: "length img = quantity * 2" "\<And>i. i < quantity \<Longrightarrow> \<exists>r\<in>set ALL_REGISTERS.
      register_word frepr data endian (start + i) r = Some (img ! (i * 2), img ! (i * 2 + 1))"
    using image_spec [where frepr = frepr and start = start and quantity = quantity and data = data and endian = endian] assms(2) by auto
  show "length img = length (map (served_word mem) [start ..< start + quantity]) * 2" using i(1) by simp
  fix i assume "i < length (map (served_word mem) [start ..< start + quantity])"
  then have q: "i < quantity" by simp
  from i(2) [OF q] register_word_reflects [OF assms(1)]
  show "(img ! (i * 2), img ! (i * 2 + 1)) =
      (pack_be 2 (uint (map (served_word mem) [start ..< start + quantity] ! i)) ! 0,
       pack_be 2 (uint (map (served_word mem) [start ..< start + quantity] ! i)) ! 1)"
    using q by fastforce
qed

section \<open>Answers to reads\<close>

lemma raw_read_trace:
  assumes "raw_read env a n s = (x, s')"
  shows "writes s' = writes s \<and> (\<forall>bs. x = Inr bs \<longrightarrow>
    (\<exists>ws. cl_trace s' = IORead a n (RResp ws) # cl_trace s \<and> length ws = n \<and> bs = words_bytes ws))"
proof -
  have "writes s' = writes s" using writes_raw_read [of env a n s] assms by simp
  then show ?thesis using assms
    by (auto simp: raw_read_def with_scheduler_def raw_read_inner_def Let_def log_io_def
        split: prod.splits if_splits read_result.splits)
qed

lemma forward_read_trace:
  assumes "forward_read pe start quantity p = (x, p')"
  shows "writes (px_client p') = writes (px_client p) \<and> px_cache_hits p' = px_cache_hits p
    \<and> (\<forall>bs. x = Some bs \<longrightarrow> (\<exists>ws. length ws = quantity \<and> bs = words_bytes ws
          \<and> cl_trace (px_client p') = IORead start quantity (RResp ws) # cl_trace (px_client p)))"
proof (cases "px_connected pe p")
  case False
  then show ?thesis using assms by (auto simp: forward_read_def)
next
  case True
  obtain y s' where r: "raw_read (pe_env pe) start quantity (px_client p) = (y, s')"
    by (cases "raw_read (pe_env pe) start quantity (px_client p)")
  have "px_on_client (raw_read (pe_env pe) start quantity) p
      = (y, p\<lparr>px_coord := (px_coord p)\<lparr>co_client := s'\<rparr>\<rparr>)"
    using r by (simp add: px_on_client_def on_client_def px_client_def)
  then have "px_client p' = s' \<and> px_cache_hits p' = px_cache_hits p \<and> (x = None \<or> map_option Inr x = Some y)"
    using assms True
    by (auto simp: forward_read_def px_client_def split: sum.splits if_splits)
  then show ?thesis using raw_read_trace [OF r] by (cases x) auto
qed

definition proxy_image :: "'w px_env \<Rightarrow> byte list \<Rightarrow> 'w proxy \<Rightarrow> byte list option" where
  "proxy_image pe pdu p = build_register_image (ha_frepr (pe_ha pe)) (u16_at pdu 1) (u16_at pdu 3)
     (proxy_cache_data (pe_env pe) (px_coord p)) (px_endianness p)"

lemma proxy_image_length:
  "proxy_image pe pdu p = Some img \<Longrightarrow> length img = u16_at pdu 3 * 2"
  using image_spec [where frepr = "ha_frepr (pe_ha pe)" and start = "u16_at pdu 1" and quantity = "u16_at pdu 3"
      and data = "proxy_cache_data (pe_env pe) (px_coord p)" and endian = "px_endianness p"]
  by (simp add: proxy_image_def)

text \<open>C28: A read request is answered in one of four ways. A short request or a quantity outside 1..125
  is refused with code 0x03 and changes nothing. Otherwise the cached image is served without
  any request to the device; or, without an image, the words of exactly one read of that range
  are passed on unchanged; or the answer is the error 0x04. A read never writes.\<close>

theorem proxy_read_answers:
  "case handle_read pe pdu p of (resp, p') \<Rightarrow>
     if length pdu < 5 then resp = error_response (case pdu of [] \<Rightarrow> 0x01 | b # _ \<Rightarrow> b) 0x03 \<and> p' = p
     else if u16_at pdu 3 < 1 \<or> 125 < u16_at pdu 3 then resp = error_response (hd pdu) 0x03 \<and> p' = p
     else writes (px_client p') = writes (px_client p)
       \<and> (case proxy_image pe pdu p of
            Some img \<Rightarrow> px_client p' = px_client p \<and> px_cache_hits p' = px_cache_hits p + 1
              \<and> resp = [hd pdu, of_nat (u16_at pdu 3 * 2)] @ img
          | None \<Rightarrow> px_cache_hits p' = px_cache_hits p
              \<and> (resp = error_response (hd pdu) 0x04
                 \<or> (\<exists>ws. length ws = u16_at pdu 3
                     \<and> cl_trace (px_client p') = IORead (u16_at pdu 1) (u16_at pdu 3) (RResp ws) # cl_trace (px_client p)
                     \<and> resp = [hd pdu, of_nat (u16_at pdu 3 * 2)] @ words_bytes ws)))"
proof (cases "length pdu < 5 \<or> u16_at pdu 3 < 1 \<or> 125 < u16_at pdu 3")
  case True
  then show ?thesis by (auto simp: handle_read_def Let_def split: list.split)
next
  case False
  let ?p1 = "p\<lparr>px_read_count := px_read_count p + 1\<rparr>"
  have c: "px_client ?p1 = px_client p" by (simp add: px_client_def)
  show ?thesis
  proof (cases "proxy_image pe pdu p")
    case (Some img)
    then show ?thesis using False by (simp add: handle_read_def proxy_image_def Let_def px_client_def)
  next
    case None
    obtain x p2 where f: "forward_read pe (u16_at pdu 1) (u16_at pdu 3) ?p1 = (x, p2)"
      by (cases "forward_read pe (u16_at pdu 1) (u16_at pdu 3) ?p1")
    have "handle_read pe pdu p = ((case x of Some raw \<Rightarrow> [hd pdu, of_nat (length raw)] @ raw
        | None \<Rightarrow> error_response (hd pdu) 0x04), p2)"
      using False None f by (simp add: handle_read_def proxy_image_def Let_def split: option.split)
    then show ?thesis using False None forward_read_trace [OF f, unfolded c] by (cases x) auto
  qed
qed

lemma proxy_read_quantity:
  assumes "px_cache_hits (snd (handle_read pe pdu p)) \<noteq> px_cache_hits p"
  shows "\<not> (length pdu < 5 \<or> u16_at pdu 3 < 1 \<or> 125 < u16_at pdu 3)"
proof
  assume "length pdu < 5 \<or> u16_at pdu 3 < 1 \<or> 125 < u16_at pdu 3"
  then have "snd (handle_read pe pdu p) = p"
    unfolding handle_read_def Let_def by (auto simp del: One_nat_def)
  then show False using assms by simp
qed


section \<open>A proxy in front of a memory\<close>

definition test_proxy :: "'w coord \<Rightarrow> 'w proxy" where
  "test_proxy c = \<lparr>px_coord = c, px_unit_id = 71, px_endianness = ''big'', px_installer = True,
     px_last_ext = (\<lambda>_. None), px_fc06_count = 0, px_fc16_count = 0, px_read_count = 0,
     px_cache_hits = 0, px_forwarded = 0, px_failed = 0, px_timeouts = 0, px_uncertain = 0,
     px_last_success = None, px_client_timeout = 0, px_last_request = 0, px_upstream_failed = False,
     px_read_failures = {}, px_write_failures = {}, px_comm = comm_new\<rparr>"

definition test_px :: "(nat \<Rightarrow> 16 word) px_env" where
  "test_px = \<lparr>pe_env = mem_env, pe_ha = test_ha, pe_soc_active = (\<lambda>_. False), pe_locked = (\<lambda>_. False),
     pe_cut = (\<lambda>_ _. None)\<rparr>"

definition cached_coord :: "(nat \<Rightarrow> 16 word) coord" where
  "cached_coord = (test_coord fallback_mem)\<lparr>co_obs := [(''g3_fallback_time'', VInt 300, 0, 0)]\<rparr>"

lemma cached_coord_data: "proxy_cache_data mem_env cached_coord = [(''g3_fallback_time'', VInt 300)]"
proof -
  have "REGISTER_BY_NAME ''g3_fallback_time'' = Some REG_G3_FALLBACK_TIME"
    using REGISTER_BY_NAME_name [OF fallback_time_facts(1)] by (simp add: fallback_time_facts)
  then show ?thesis
    by (simp add: proxy_cache_data_def cached_coord_def test_coord_def coord_new_def client_new_def
        client_connected_def fresh_observation_def co_generation_def co_now_def observation_ttl_def
        fallback_time_facts)
qed

lemma fallback_time_only:
  "r \<in> set ALL_REGISTERS \<Longrightarrow> rg_name r = ''g3_fallback_time'' \<Longrightarrow> r = REG_G3_FALLBACK_TIME"
  using REGISTER_BY_NAME_name [of r] REGISTER_BY_NAME_name [OF fallback_time_facts(1)]
  by (simp add: fallback_time_facts)

lemma fallback_time_word:
  assumes "i < 2"
  shows "register_word frepr [(''g3_fallback_time'', VInt 300)] ''big'' (1288 + i) REG_G3_FALLBACK_TIME \<noteq> None"
proof -
  have "encode_value frepr (VInt 300) REG_G3_FALLBACK_TIME ''big'' = Inr [0, 0, 1, 44]"
    by (simp add: encode_value_def fallback_time_facts none_or_def u32_encode_def big_words_def
        pack_uint_def pack_be_numeral)
  then show ?thesis using assms by (simp add: register_word_def fallback_time_facts)
qed

theorem register_image_all_or_nothing_witness:
  "\<exists>img. build_register_image (\<lambda>_. []) 1288 2 [(''g3_fallback_time'', VInt 300)] ''big'' = Some img
     \<and> length img = 4"
proof -
  note i = register_image_all_or_nothing [where frepr = "\<lambda>_. []" and start = 1288 and quantity = 2
      and data = "[(''g3_fallback_time'', VInt 300)]" and endian = "''big''"]
  show ?thesis
  proof (cases "build_register_image (\<lambda>_. []) 1288 2 [(''g3_fallback_time'', VInt 300)] ''big''")
    case None
    then obtain j where "j < (2::nat)" "\<forall>r\<in>set ALL_REGISTERS.
        register_word (\<lambda>_. []) [(''g3_fallback_time'', VInt 300)] ''big'' (1288 + j) r = None"
      using i by auto
    then show ?thesis using fallback_time_word [of j] fallback_time_facts(1) by blast
  next
    case (Some img)
    then show ?thesis using i by simp
  qed
qed


end
