(* ===== verification/ProxyWrites.thy ===== *)
theory ProxyWrites
  imports ProxyImage
begin

text \<open>
  The proxy's writes: a request that touches words another party controls reaches no device;
  every other multiple-register request delivers the client's own bytes; and the words whose
  write was not confirmed are tracked over any sequence of requests.
\<close>

unbundle bit_operations_syntax

section \<open>Arbitration\<close>

lemma error_response_is_error [simp]:
  "is_error (error_response fc code)" "error_code (error_response fc code) = code"
proof -
  have "bit ((fc OR 0x80) AND 0x80) 7" by (simp add: bit_simps)
  then have "(fc OR 0x80) AND 0x80 \<noteq> 0" by (metis bit_0_eq bot_apply bot_bool_def)
  then show "is_error (error_response fc code)" by (simp add: is_error_def error_response_def)
qed (simp add: error_code_def error_response_def)

text \<open>The words a write request names, before any check of its range.\<close>

definition request_words :: "byte list \<Rightarrow> nat set" where
  "request_words pdu = (if hd pdu = FC_WRITE_SINGLE then {u16_at pdu 1}
     else {u16_at pdu 1 ..< u16_at pdu 1 + u16_at pdu 3})"

definition blocked :: "'w px_env \<Rightarrow> 'w proxy \<Rightarrow> nat set \<Rightarrow> bool" where
  "blocked pe p ws \<longleftrightarrow>
     (ws \<inter> set BATTERY_CONTROL_ADDRESSES \<noteq> {} \<and> (\<not> px_installer p \<or> pe_soc_active pe (px_world p)))
     \<or> (ws \<inter> set REG_1038_ADDRESSES \<noteq> {} \<and> pe_locked pe (px_world p))"

lemma px_client_audit [simp]: "px_client (proxy_audit pe k v r d p) = px_client p"
  by (simp add: proxy_audit_def px_client_def audit_event_def split: option.split)

lemma write_refused_blocked:
  "write_refused pe fc d start quantity v p = None \<longleftrightarrow> \<not> blocked pe p {start ..< start + quantity}"
  by (auto simp: write_refused_def blocked_def Let_def list_ex_iff)

lemma write_refused_refuses:
  assumes "write_refused pe fc d start quantity v p = Some (resp, p')"
  shows "is_error resp \<and> error_code resp \<in> {0x03, 0x06} \<and> px_client p' = px_client p"
  using assms by (auto simp: write_refused_def Let_def split: if_splits)

text \<open>C1: Arbitration. A write request that touches a battery-control word without installer access or
  while the SoC controller is active, or a word of register 1038 while a feature of the
  integration owns it, is answered with an error and reaches no device: the client is not used
  at all, whatever the rest of the request looks like.\<close>

theorem proxy_write_arbitration:
  "pdu \<noteq> [] \<Longrightarrow> is_write_fc (hd pdu) \<Longrightarrow> blocked pe p (request_words pdu) \<Longrightarrow>
   is_error (fst (dispatch_pdu pe pdu unit p)) \<and> px_client (snd (dispatch_pdu pe pdu unit p)) = px_client p"
proof -
  assume n: "pdu \<noteq> []" and w: "is_write_fc (hd pdu)" and b: "blocked pe p (request_words pdu)"
  consider "unit \<noteq> px_unit_id p" | "unit = px_unit_id p" "hd pdu = FC_WRITE_SINGLE"
    | "unit = px_unit_id p" "hd pdu = FC_WRITE_MULTIPLE"
    using w by (auto simp: is_write_fc_def)
  then show ?thesis
  proof cases
    case 1
    then show ?thesis using n by (simp add: dispatch_pdu_def)
  next
    case 2
    then have d: "dispatch_pdu pe pdu unit p = handle_write_single pe pdu p"
      using n by (simp add: dispatch_pdu_def FC_defs)
    have "request_words pdu = {u16_at pdu 1 ..< u16_at pdu 1 + 1}" using 2 by (auto simp: request_words_def)
    then obtain resp p' where r: "write_refused pe FC_WRITE_SINGLE ''FC06'' (u16_at pdu 1) 1
        (VInt (int (u16_at pdu 3))) p = Some (resp, p')"
      using b by (cases "write_refused pe FC_WRITE_SINGLE ''FC06'' (u16_at pdu 1) 1 (VInt (int (u16_at pdu 3))) p")
        (auto simp: write_refused_blocked)
    show ?thesis
    proof (cases "length pdu < 5")
      case False
      then have "handle_write_single pe pdu p = (resp, p')"
        unfolding handle_write_single_def Let_def r by simp
      then show ?thesis using d write_refused_refuses [OF r] by simp
    qed (simp add: d handle_write_single_def)
  next
    case 3
    then have d: "dispatch_pdu pe pdu unit p = handle_write_multiple pe pdu p"
      using n by (simp add: dispatch_pdu_def FC_defs)
    have "request_words pdu = {u16_at pdu 1 ..< u16_at pdu 1 + u16_at pdu 3}"
      using 3 by (auto simp: request_words_def FC_defs)
    then obtain resp p' where r: "write_refused pe FC_WRITE_MULTIPLE ''FC16'' (u16_at pdu 1) (u16_at pdu 3) VNone p
        = Some (resp, p')"
      using b by (cases "write_refused pe FC_WRITE_MULTIPLE ''FC16'' (u16_at pdu 1) (u16_at pdu 3) VNone p")
        (auto simp: write_refused_blocked)
    have "handle_write_multiple pe pdu p = (resp, p') \<or> handle_write_multiple pe pdu p = (error_response FC_WRITE_MULTIPLE 0x03, p)"
      unfolding handle_write_multiple_def Let_def r by simp
    then show ?thesis using d write_refused_refuses [OF r] by auto
  qed
qed

lemma reg_1038_word: "1039 \<in> set REG_1038_ADDRESSES"
  by (simp add: REG_1038_ADDRESSES_def REG_BAT_MAX_CHARGE_LIMIT_def)

theorem proxy_write_arbitration_witness:
  "is_error (fst (dispatch_pdu (test_px\<lparr>pe_locked := (\<lambda>_. True)\<rparr>) [0x10, 4, 15, 0, 1, 2, 0, 7] 71 (test_proxy cached_coord)))"
proof -
  let ?pdu = "[0x10, 4, 15, 0, 1, 2, 0, 7] :: byte list"
  have u: "u16_at ?pdu 1 = 1039" "u16_at ?pdu 3 = 1" by (simp_all add: u16_at_def unpack_be_def)
  have "1039 \<in> request_words ?pdu" unfolding request_words_def u by (simp add: FC_defs)
  then have "blocked (test_px\<lparr>pe_locked := (\<lambda>_. True)\<rparr>) (test_proxy cached_coord) (request_words ?pdu)"
    using reg_1038_word by (auto simp: blocked_def)
  from proxy_write_arbitration [OF _ _ this, of 71] show ?thesis
    by (simp add: is_write_fc_def FC_defs)
qed

section \<open>Delivery of multiple-register writes\<close>

definition fc16_ok :: "byte list \<Rightarrow> bool" where
  "fc16_ok pdu \<longleftrightarrow> 6 \<le> length pdu \<and> 1 \<le> u16_at pdu 3 \<and> u16_at pdu 3 \<le> 123
     \<and> u16_at pdu 1 + u16_at pdu 3 \<le> 65536 \<and> unat (pdu ! 5) = u16_at pdu 3 * 2
     \<and> 6 + u16_at pdu 3 * 2 \<le> length pdu"

definition fc16_payload :: "byte list \<Rightarrow> byte list" where
  "fc16_payload pdu = take (u16_at pdu 3 * 2) (drop 6 pdu)"

lemma length_fc16_payload: "fc16_ok pdu \<Longrightarrow> length (fc16_payload pdu) = 2 * u16_at pdu 3"
  by (auto simp: fc16_ok_def fc16_payload_def)

lemma writable_types:
  "r \<in> set ALL_REGISTERS \<Longrightarrow> rg_access r = RW \<Longrightarrow> rg_dtype r \<noteq> BOOL \<Longrightarrow>
   rg_dtype r \<in> {UINT16, SINT16, UINT32, FLOAT32} \<and> rg_count r = scalar_words (rg_dtype r)"
proof -
  have "list_all (\<lambda>r. rg_access r = RW \<longrightarrow> rg_dtype r \<noteq> BOOL \<longrightarrow>
      rg_dtype r \<in> {UINT16, SINT16, UINT32, FLOAT32} \<and> rg_count r = scalar_words (rg_dtype r)) ALL_REGISTERS"
    by (simp add: ALL_REGISTERS_unfold scalar_words_def)
  then show "r \<in> set ALL_REGISTERS \<Longrightarrow> rg_access r = RW \<Longrightarrow> rg_dtype r \<noteq> BOOL \<Longrightarrow> ?thesis"
    by (auto simp: list_all_iff)
qed

lemma decoded_number:
  assumes "rg_dtype r \<in> {UINT16, SINT16, UINT32, FLOAT32}" "decode_for_write e r bs = Inr v"
  shows "is_number v \<and> (num_is_finite v \<longrightarrow> \<not> not_finite_float v)"
  using assms by (auto simp: decode_for_write_def bind_res_Inr_iff not_finite_float_def)

text \<open>Recording the decoded value as the command cannot fail.\<close>

lemma record_decoded:
  assumes "r \<in> set ALL_REGISTERS" "rg_access r = RW" "rg_dtype r \<in> {UINT16, SINT16, UINT32, FLOAT32}"
    "encode_register e v r = Inr bs" "is_number v" "num_is_finite v"
    "rg_dtype r = FLOAT32 \<Longrightarrow> \<exists>x. v = VFloat x"
  shows "fst (record_commanded (rg_name r) v c) = Inr ()"
proof -
  have n: "REGISTER_BY_NAME (rg_name r) = Some r" using REGISTER_BY_NAME_name [OF assms(1)] .
  have "\<exists>x y. float_of_val v = Inr x \<and> commanded_value (rg_name r) x = Inr y"
  proof (cases "rg_dtype r = FLOAT32")
    case True
    then obtain x where "v = VFloat x" using assms(7) by blast
    then show ?thesis using n True by (simp add: commanded_value_def INTEGER_WRITE_DATA_TYPES_def)
  next
    case False
    then have t: "rg_dtype r \<in> {UINT16, SINT16, UINT32}" using assms(3) by auto
    obtain i where i: "int_of_val v = Inr i" "\<bar>i\<bar> < 2 ^ 53"
      using encoded_integer [OF t assms(4) writable_u32_vendor [OF assms(1,2)]] by blast
    obtain x where x: "float_of_val v = Inr x" "int_of_float x = Inr i"
      using int_of_number [OF assms(5) i] by blast
    then show ?thesis using n t float_of_int_small [OF i(2)]
      by (auto simp: commanded_value_def INTEGER_WRITE_DATA_TYPES_def)
  qed
  then show ?thesis by (auto simp: record_commanded_def Let_def)
qed

lemma on_client_client: "on_client f c = (x, c1) \<Longrightarrow> f (co_client c) = (x, co_client c1)"
  by (auto simp: on_client_def split: prod.splits)

lemma coord_write_wrote:
  fixes c :: "'w coord"
  assumes "r \<in> set ALL_REGISTERS" "rg_access r = RW" "\<not> not_finite_float v"
    "encode_register (cl_endianness (co_client c)) v r = Inr bs"
    "\<And>d :: 'w coord. fst (record_commanded (rg_name r) v d) = Inr ()"
    "async_write_register env ha r v src pre rec c = (x, c')"
  shows "wrote 3 (rg_address r) bs (co_client c) (x, co_client c')"
proof -
  let ?c0 = "pop_observation (rg_name r) c"
  obtain y c1 where f: "on_client (write_register env r v pre) ?c0 = (y, c1)" by fastforce
  have w: "wrote 3 (rg_address r) bs (co_client c) (y, co_client c1)"
    using write_register_wrote [OF assms(1,2,4), of env pre] on_client_client [OF f]
    by (simp add: pop_observation_def)
  define c2 where "c2 = (if r \<in> set CONTROL_READBACK_REGISTERS then c1\<lparr>co_slow_tick := 5\<rparr> else c1)"
  obtain z c3 where g: "record_commanded (rg_name r) v c2 = (z, c3)" by fastforce
  have z: "z = Inr ()" "co_client c3 = co_client c1"
    using assms(5) [of c2] record_commanded_fields(3) [of "rg_name r" v c2] g by (auto simp: c2_def)
  have "async_write_register env ha r v src pre rec c =
      (y, audit_event env src (rg_name r) v (if is_ok y then ''ok'' else ''error'')
        (case y of Inl e \<Rightarrow> ha_msg ha e | Inr _ \<Rightarrow> [])
        (case y of Inl e \<Rightarrow> c1 | Inr _ \<Rightarrow> if rec then c3 else c2))"
    using assms(2,3) f g z(1)
    by (cases y; cases rec) (simp_all add: async_write_register_def sbind_def c2_def [symmetric])
  then have "x = y \<and> co_client c' = co_client c1"
    using assms(6) z(2) by (auto simp: c2_def split: sum.splits)
  then show ?thesis using w by simp
qed

text \<open>The answer to a request and what it did on the wire.\<close>

definition delivered ::
    "nat \<Rightarrow> byte list \<Rightarrow> byte list \<Rightarrow> 'w client \<Rightarrow> byte list \<times> 'w proxy \<Rightarrow> bool" where
  "delivered start payload success s res \<longleftrightarrow>
     (\<exists>ws. writes (px_client (snd res)) = ws @ writes s \<and> length ws \<le> 3
       \<and> (\<forall>(a, w, x)\<in>set ws. a = start \<and> words_bytes w = payload)
       \<and> (if \<exists>a w. (a, w, WOk) \<in> set ws then fst res = success else is_error (fst res)))"

lemma delivered_wrote:
  assumes "wrote n start payload s (x, px_client p')" "n \<le> 3"
    "is_ok x \<Longrightarrow> resp = success" "\<not> is_ok x \<Longrightarrow> is_error resp"
  shows "delivered start payload success s (resp, p')"
proof -
  obtain ws where w: "writes (px_client p') = ws @ writes s" "length ws \<le> n"
    "\<forall>x\<in>set ws. fst x = start \<and> words_bytes (fst (snd x)) = payload"
    "length (filter (\<lambda>x. snd (snd x) = WOk) ws) = (if is_ok x then 1 else 0)"
    using assms(1) by (auto simp: wrote_def)
  have "(\<exists>a w. (a, w, WOk) \<in> set ws) \<longleftrightarrow> filter (\<lambda>x. snd (snd x) = WOk) ws \<noteq> []"
    by (simp add: filter_empty_conv) (metis prod.collapse snd_conv)
  then have "(\<exists>a w. (a, w, WOk) \<in> set ws) \<longleftrightarrow> is_ok x" using w(4) by (auto split: if_splits)
  then show ?thesis unfolding delivered_def
    using w assms(2-4) by (intro exI [of _ ws]) (auto simp: split_beta)
qed

lemma delivered_nothing: "px_client p' = s \<Longrightarrow> is_error resp \<Longrightarrow> delivered a b c s (resp, p')"
  unfolding delivered_def by (rule exI [of _ "[]"]) simp

text \<open>A decoded value that encodes to \<open>bs\<close>.\<close>

lemma write_known_sends:
  fixes p :: "'w proxy"
  assumes "r \<in> set ALL_REGISTERS" "rg_access r = RW"
    "decode_for_write (px_endianness p) r payload = Inr v" "is_number v" "num_is_finite v \<longrightarrow> \<not> not_finite_float v"
    "num_is_finite v \<Longrightarrow> encode_register (cl_endianness (px_client p)) v r = Inr bs"
    "\<And>d :: 'w coord. num_is_finite v \<Longrightarrow> fst (record_commanded (rg_name r) v d) = Inr ()"
  shows "delivered (rg_address r) bs (write_multiple_response start quantity) (px_client p)
    (write_known_register pe r start quantity payload p)"
proof (cases "num_is_finite v \<and> px_connected pe p")
  case False
  then show ?thesis using assms(3,4)
    by (cases "num_is_finite v") (simp_all add: write_known_register_def delivered_nothing)
next
  case True
  define pre :: "('w client \<Rightarrow> bool) option" where "pre = (if rg_address r \<in> set REG_1038_ADDRESSES
    then Some (\<lambda>cl. \<not> pe_locked pe (cl_world cl)) else None)"
  obtain x c' where a: "async_write_register (pe_env pe) (pe_ha pe) r v ''proxy_fc16'' pre True (px_coord p) = (x, c')"
    by fastforce
  have "wrote 3 (rg_address r) bs (co_client (px_coord p)) (x, co_client c')"
    by (rule coord_write_wrote [OF assms(1,2) _ _ _ a]) (use True assms in \<open>simp_all add: px_client_def\<close>)
  then have w: "wrote 3 (rg_address r) bs (px_client p) (x, px_client (p\<lparr>px_coord := c'\<rparr>))"
    by (simp add: px_client_def)
  let ?q = "if is_ok x then p\<lparr>px_coord := c'\<rparr> else count_uncertain (p\<lparr>px_coord := c'\<rparr>)"
  have "write_known_register pe r start quantity payload p =
      (if is_ok x then write_multiple_response start quantity else error_response FC_WRITE_MULTIPLE 0x04, ?q)"
    using True assms(3,4) a pre_def
    by (cases x) (simp_all add: write_known_register_def px_on_coord_def Let_def)
  moreover have q: "px_client ?q = px_client (p\<lparr>px_coord := c'\<rparr>)"
    by (simp add: count_uncertain_def px_client_def)
  ultimately show ?thesis using delivered_wrote [OF w [folded q]] by simp
qed

lemma write_known_delivered:
  fixes p :: "'w proxy"
  assumes "r \<in> set ALL_REGISTERS" "rg_access r = RW" "rg_dtype r \<noteq> BOOL" "quantity = rg_count r"
    "length payload = 2 * quantity" "px_endianness p = cl_endianness (px_client p)"
  shows "delivered (rg_address r) payload (write_multiple_response start quantity) (px_client p)
    (write_known_register pe r start quantity payload p)"
proof (cases "decode_for_write (px_endianness p) r payload")
  case (Inl e)
  then show ?thesis by (simp add: write_known_register_def delivered_nothing)
next
  case (Inr v)
  note t = writable_types [OF assms(1-3)]
  note n = decoded_number [OF conjunct1 [OF t] Inr]
  have e: "encode_register (cl_endianness (px_client p)) v r = Inr payload" if "num_is_finite v"
    using encode_register_decode_for_write [of r payload "px_endianness p" v] t Inr that assms(4-6) by simp
  have f: "rg_dtype r = FLOAT32 \<Longrightarrow> \<exists>x. v = VFloat x"
    using Inr by (auto simp: decode_for_write_def bind_res_Inr_iff)
  show ?thesis
    by (rule write_known_sends [OF assms(1,2) Inr _ _ e])
      (use n record_decoded [OF assms(1,2) conjunct1 [OF t] e] f in auto)
qed

text \<open>A boolean is decoded as an integer and sent as 0 or 1.\<close>

lemma write_bool_delivered:
  fixes p :: "'w proxy"
  assumes "r \<in> set ALL_REGISTERS" "rg_access r = RW" "rg_dtype r = BOOL" "quantity = rg_count r"
    "length payload = 2 * quantity"
  shows "delivered (rg_address r) (if payload = [0, 0] then [0, 0] else [0, 1]) (write_multiple_response start quantity)
    (px_client p) (write_known_register pe r start quantity payload p)"
proof -
  have "rg_count r = 1" using size_of_register(2) [OF assms(1)] assms(3) by simp
  then have l: "length payload = 2" using assms(4,5) by simp
  let ?n = "unpack_be payload"
  have n: "0 \<le> ?n" "?n < 2 ^ 16" using unpack_be_bounds [of payload] l by simp_all
  have z: "?n = 0 \<longleftrightarrow> payload = [0, 0]"
  proof
    assume "?n = 0"
    then show "payload = [0, 0]" using pack_unpack_be [of payload] l by (simp add: pack_be_numeral)
  qed (simp add: unpack_be_def)
  have d: "decode_for_write (px_endianness p) r payload = Inr (VInt ?n)"
    using l by (simp add: decode_for_write_def assms(3) unpack_uint_def)
  have "encode_register e (VInt ?n) r = Inr (if payload = [0, 0] then [0, 0] else [0, 1])" for e
    using z by (simp add: encode_register_inner encode_inner_def assms(3) pack_uint_def pack_be_numeral)
  moreover have "fst (record_commanded (rg_name r) (VInt ?n) c) = Inr ()" for c :: "'w coord"
    using n REGISTER_BY_NAME_name [OF assms(1)] float_of_int_small [of ?n]
    by (simp add: record_commanded_def commanded_value_def assms(3) INTEGER_WRITE_DATA_TYPES_def Let_def)
  ultimately show ?thesis by (intro write_known_sends [OF assms(1,2) d]) (simp_all add: not_finite_float_def)
qed

lemma write_raw_delivered:
  assumes "length payload = 2 * quantity"
  shows "delivered start payload (write_multiple_response start quantity) (px_client p)
    (write_raw_range pe start quantity payload p)"
proof (cases "px_connected pe p")
  case False
  then show ?thesis by (simp add: write_raw_range_def delivered_nothing)
next
  case True
  let ?p = "px_invalidate start quantity p"
  have c: "px_client ?p = px_client p"
    by (simp add: px_invalidate_def px_client_def invalidate_proxy_cache_def)
  obtain x cl where r: "raw_write (pe_env pe) start payload quantity (px_client p) = (x, cl)" by fastforce
  define p1 where "p1 = ?p\<lparr>px_coord := (px_coord ?p)\<lparr>co_client := cl\<rparr>\<rparr>"
  have "px_on_client (raw_write (pe_env pe) start payload quantity) ?p = (x, p1)"
    using r c by (simp add: px_on_client_def on_client_def px_client_def p1_def)
  then have f: "write_raw_range pe start quantity payload p =
      (if is_ok x then write_multiple_response start quantity else error_response FC_WRITE_MULTIPLE 0x04,
       if is_ok x then proxy_audit pe (addr_key start) VNone ''forwarded_direct'' ''FC16'' p1 else count_uncertain p1)"
    using True by (cases x) (simp_all add: write_raw_range_def forward_write_multiple_def)
  have p1: "px_client p1 = cl" "px_client (count_uncertain p1) = cl"
    by (simp_all add: p1_def px_client_def count_uncertain_def)
  have "wrote 1 start payload (px_client p) (x, cl)"
    using raw_write_wrote [OF assms, of start "px_client p" "pe_env pe"] r by simp
  then show ?thesis unfolding f
    by (cases "is_ok x") (auto intro!: delivered_wrote simp: p1)
qed

text \<open>The bytes a request sends: the client's own; a boolean register only keeps whether they are zero.\<close>

definition sent_payload :: "nat \<Rightarrow> nat \<Rightarrow> byte list \<Rightarrow> byte list" where
  "sent_payload start quantity payload = (case REGISTER_BY_ADDRESS start of
     None \<Rightarrow> payload
   | Some r \<Rightarrow> if rg_dtype r = BOOL \<and> rg_access r = RW \<and> quantity = rg_count r
       then (if payload = [0, 0] then [0, 0] else [0, 1]) else payload)"

text \<open>C2: A well-formed multiple-register write that arbitration does not block delivers the client's own
  bytes. Whether it is decoded, converted and encoded again through the coordinator or passed
  on raw, and whatever the connection does: at most three requests are sent, every one of them
  to the requested address with exactly the requested bytes (for the boolean register 2 with 0
  or 1), and the client is told of success exactly when one of them was acknowledged, and of an
  error otherwise. Proxy and client are to use the same word order, which the set-up passes on.\<close>

theorem proxy_fc16_delivers:
  "fc16_ok pdu \<Longrightarrow> \<not> blocked pe p {u16_at pdu 1 ..< u16_at pdu 1 + u16_at pdu 3} \<Longrightarrow>
   px_endianness p = cl_endianness (px_client p) \<Longrightarrow>
   delivered (u16_at pdu 1) (sent_payload (u16_at pdu 1) (u16_at pdu 3) (fc16_payload pdu))
     (write_multiple_response (u16_at pdu 1) (u16_at pdu 3)) (px_client p) (handle_write_multiple pe pdu p)"
proof -
  assume ok: "fc16_ok pdu" and b: "\<not> blocked pe p {u16_at pdu 1 ..< u16_at pdu 1 + u16_at pdu 3}"
    and e: "px_endianness p = cl_endianness (px_client p)"
  define start where "start = u16_at pdu 1"
  define quantity where "quantity = u16_at pdu 3"
  define p1 where "p1 = (note_ext_write pe start p)\<lparr>px_fc16_count := px_fc16_count p + 1\<rparr>"
  have c: "px_client p1 = px_client p" "px_endianness p1 = px_endianness p"
    by (simp_all add: p1_def note_ext_write_def px_client_def)
  have l: "length (fc16_payload pdu) = 2 * quantity"
    using length_fc16_payload [OF ok] by (simp add: quantity_def)
  have "write_refused pe FC_WRITE_MULTIPLE ''FC16'' start quantity VNone p = None"
    using b by (simp add: write_refused_blocked start_def quantity_def)
  then have h: "handle_write_multiple pe pdu p = (case REGISTER_BY_ADDRESS start of
      Some r \<Rightarrow> if rg_access r = RW \<and> quantity = rg_count r
        then write_known_register pe r start quantity (fc16_payload pdu) p1
        else write_raw_range pe start quantity (fc16_payload pdu) p1
    | None \<Rightarrow> write_raw_range pe start quantity (fc16_payload pdu) p1)"
    using ok unfolding handle_write_multiple_def fc16_ok_def fc16_payload_def Let_def
      start_def quantity_def p1_def
    by (simp del: One_nat_def split: option.split)
  have raw: "delivered start (fc16_payload pdu) (write_multiple_response start quantity) (px_client p)
      (write_raw_range pe start quantity (fc16_payload pdu) p1)"
    using write_raw_delivered [OF l, of start p1 pe] by (simp add: c)
  have "delivered start (sent_payload start quantity (fc16_payload pdu)) (write_multiple_response start quantity)
      (px_client p) (handle_write_multiple pe pdu p)"
  proof (cases "REGISTER_BY_ADDRESS start")
    case None
    then show ?thesis using raw h by (simp add: sent_payload_def)
  next
    case (Some r)
    then have r: "r \<in> set ALL_REGISTERS" "rg_address r = start"
      using REGISTER_BY_ADDRESS_SomeD [OF Some] by simp_all
    have e1: "px_endianness p1 = cl_endianness (px_client p1)" using e c by simp
    show ?thesis
      using Some raw h r(2) write_known_delivered [OF r(1) _ _ _ l e1, of start pe]
        write_bool_delivered [OF r(1) _ _ _ l, of start p1 pe]
      by (cases "rg_dtype r = BOOL") (simp_all add: sent_payload_def c)
  qed
  then show ?thesis by (simp only: start_def quantity_def)
qed

text \<open>Any other value than zero is sent as 1 to the boolean register.\<close>

lemma proxy_write_of_boolean: "sent_payload 2 1 [0, 5] = [0, 1]"
proof -
  have "REG_MODBUS_ENABLE \<in> set ALL_REGISTERS" by (simp add: ALL_REGISTERS_def)
  then have "REGISTER_BY_ADDRESS 2 = Some REG_MODBUS_ENABLE"
    using REGISTER_BY_ADDRESS_address [of REG_MODBUS_ENABLE] by (simp add: REG_MODBUS_ENABLE_def)
  then show ?thesis by (simp add: sent_payload_def REG_MODBUS_ENABLE_def)
qed

theorem proxy_fc16_delivers_witness:
  "delivered 1288 [0, 0, 0, 60] [0x10, 5, 8, 0, 2] (px_client (test_proxy cached_coord))
     (handle_write_multiple test_px [0x10, 5, 8, 0, 2, 4, 0, 0, 0, 60] (test_proxy cached_coord))"
proof -
  let ?pdu = "[0x10, 5, 8, 0, 2, 4, 0, 0, 0, 60] :: byte list"
  have u: "u16_at ?pdu 1 = 1288" "u16_at ?pdu 3 = 2" by (simp_all add: u16_at_def unpack_be_def)
  have 1: "fc16_ok ?pdu" unfolding fc16_ok_def u by simp
  have "1038 \<notin> {1288 ..< 1288 + 2 :: nat}" "1039 \<notin> {1288 ..< 1288 + 2 :: nat}" by simp_all
  then have 2: "\<not> blocked test_px (test_proxy cached_coord) {1288 ..< 1288 + 2}"
    by (simp add: blocked_def test_px_def test_proxy_def)
  have 3: "px_endianness (test_proxy cached_coord) = cl_endianness (px_client (test_proxy cached_coord))"
    by (simp add: test_proxy_def px_client_def cached_coord_def test_coord_def coord_new_def client_new_def)
  have 4: "sent_payload 1288 2 bs = bs" for bs
    using REGISTER_BY_ADDRESS_address [OF fallback_time_facts(1)] by (simp add: sent_payload_def fallback_time_facts)
  have "be16 1288 = [5, 8]" "be16 2 = [0, 2]" by (simp_all add: be16_def pack_be_numeral)
  then show ?thesis
    using proxy_fc16_delivers [of ?pdu test_px "test_proxy cached_coord", unfolded u, OF 1 2 3]
    by (simp add: 4 fc16_payload_def u [simplified] write_multiple_response_def FC_defs)
qed

end
