(* ===== verification/ProxyStream.thy ===== *)
theory ProxyStream
  imports ProxyWrites
begin

text \<open>
  The proxy over sequences of requests: the words whose last write is unconfirmed, the frames
  of a byte stream and their answers, and three places where the code treats equal cases
  differently.
\<close>

unbundle bit_operations_syntax

section \<open>What a request leaves alone\<close>

text \<open>The handlers change neither the tracked failures of writes nor the unit.\<close>

definition px_keeps :: "'w proxy \<Rightarrow> 'w proxy \<Rightarrow> bool" where
  "px_keeps p p' \<longleftrightarrow> px_write_failures p' = px_write_failures p \<and> px_unit_id p' = px_unit_id p"

lemma px_keeps_refl [simp, intro]: "px_keeps p p"
  by (simp add: px_keeps_def)

lemma px_keeps_trans: "px_keeps p q \<Longrightarrow> px_keeps q r \<Longrightarrow> px_keeps p r"
  by (simp add: px_keeps_def)

lemma px_keeps_updates [simp]:
  "px_keeps p (q\<lparr>px_coord := c\<rparr>) = px_keeps p q" "px_keeps p (q\<lparr>px_read_count := n\<rparr>) = px_keeps p q"
  "px_keeps p (q\<lparr>px_cache_hits := n\<rparr>) = px_keeps p q" "px_keeps p (q\<lparr>px_forwarded := n\<rparr>) = px_keeps p q"
  "px_keeps p (q\<lparr>px_read_failures := f\<rparr>) = px_keeps p q" "px_keeps p (q\<lparr>px_uncertain := n\<rparr>) = px_keeps p q"
  "px_keeps p (q\<lparr>px_last_ext := l\<rparr>) = px_keeps p q" "px_keeps p (q\<lparr>px_fc06_count := n\<rparr>) = px_keeps p q"
  "px_keeps p (q\<lparr>px_fc16_count := n\<rparr>) = px_keeps p q" "px_keeps p (q\<lparr>px_comm := m\<rparr>) = px_keeps p q"
  by (simp_all add: px_keeps_def)

lemma px_keeps_helpers [simp]:
  "px_keeps p (proxy_audit pe k v r d q) = px_keeps p q" "px_keeps p (count_uncertain q) = px_keeps p q"
  "px_keeps p (px_invalidate a n q) = px_keeps p q" "px_keeps p (note_ext_write pe a q) = px_keeps p q"
  by (simp_all add: proxy_audit_def count_uncertain_def px_invalidate_def note_ext_write_def)

lemma px_keeps_on:
  "px_on_client f q = (x, p') \<Longrightarrow> px_keeps p p' = px_keeps p q"
  "px_on_coord g q = (y, p') \<Longrightarrow> px_keeps p p' = px_keeps p q"
  by (auto simp: px_on_client_def px_on_coord_def split: prod.splits)

lemma forward_keeps:
  "px_keeps q (snd (forward_read pe a n q))"
  "px_keeps q (snd (forward_write_single pe a v q))"
  "px_keeps q (snd (forward_write_multiple pe a n bs q))"
  by (auto simp: forward_read_def forward_write_single_def forward_write_multiple_def px_keeps_on
      split: prod.splits sum.splits)

lemma write_refused_keeps: "write_refused pe fc d a n v p = Some (resp, p') \<Longrightarrow> px_keeps p p'"
  by (auto simp: write_refused_def Let_def split: if_splits)

lemma handle_read_keeps: "px_keeps p (snd (handle_read pe pdu p))"
proof -
  let ?p1 = "p\<lparr>px_read_count := px_read_count p + 1\<rparr>"
  have "px_keeps ?p1 (snd (forward_read pe (u16_at pdu 1) (u16_at pdu 3) ?p1))" by (rule forward_keeps)
  then have "px_keeps p (snd (forward_read pe (u16_at pdu 1) (u16_at pdu 3) ?p1))"
    by (simp add: px_keeps_def)
  then show ?thesis
    by (auto simp: handle_read_def Let_def split: option.splits prod.splits)
qed

lemma forward_keeps_case:
  assumes "forward_write_single pe a v q = (ok, p')" shows "px_keeps p p' = px_keeps p q"
  using forward_keeps(2) [of q pe a v] assms by (simp add: px_keeps_def)

lemma forward_multiple_keeps_case:
  assumes "forward_write_multiple pe a n bs q = (ok, p')" shows "px_keeps p p' = px_keeps p q"
  using forward_keeps(3) [of q pe a n bs] assms by (simp add: px_keeps_def)

lemma handle_write_single_keeps: "px_keeps p (snd (handle_write_single pe pdu p))"
proof (cases "length pdu < 5")
  case True
  then show ?thesis by (simp add: handle_write_single_def)
next
  case False
  show ?thesis
  proof (cases "write_refused pe FC_WRITE_SINGLE ''FC06'' (u16_at pdu 1) 1 (VInt (int (u16_at pdu 3))) p")
    case (Some r)
    then show ?thesis using False write_refused_keeps [of pe FC_WRITE_SINGLE _ _ _ _ p]
      unfolding handle_write_single_def Let_def by (cases r) simp
  next
    case None
    show ?thesis using False
      unfolding handle_write_single_def Let_def None
      by (auto simp: px_keeps_on forward_keeps_case split: option.split prod.split sum.split bool.split)
  qed
qed

lemma write_known_keeps: "px_keeps p (snd (write_known_register pe r start quantity bs p))"
  by (auto simp: write_known_register_def Let_def px_keeps_on split: sum.split prod.split)

lemma write_raw_keeps: "px_keeps p (snd (write_raw_range pe start quantity bs p))"
  by (auto simp: write_raw_range_def forward_multiple_keeps_case split: prod.split bool.split)

lemma handle_write_multiple_keeps: "px_keeps p (snd (handle_write_multiple pe pdu p))"
proof -
  define p1 where "p1 = (note_ext_write pe (u16_at pdu 1) p)\<lparr>px_fc16_count := px_fc16_count p + 1\<rparr>"
  have p1: "px_keeps p p1" by (simp add: p1_def)
  note k = px_keeps_trans [OF p1 write_known_keeps] px_keeps_trans [OF p1 write_raw_keeps]
  show ?thesis
  proof (cases "write_refused pe FC_WRITE_MULTIPLE ''FC16'' (u16_at pdu 1) (u16_at pdu 3) VNone p")
    case (Some r)
    then show ?thesis using write_refused_keeps [of pe FC_WRITE_MULTIPLE _ _ _ _ p]
      unfolding handle_write_multiple_def Let_def by (cases r) simp
  next
    case None
    show ?thesis
      unfolding handle_write_multiple_def Let_def None p1_def [symmetric]
      by (simp add: k split: option.split)
  qed
qed

lemma dispatch_keeps: "px_keeps p (snd (dispatch_pdu pe pdu unit p))"
  by (simp add: dispatch_pdu_def handle_read_keeps handle_write_single_keeps handle_write_multiple_keeps)

section \<open>Unconfirmed writes\<close>

lemma watchdog_keeps: "px_keeps p (check_client_watchdog pe q) = px_keeps p q"
  by (auto simp: check_client_watchdog_def Let_def split: sum.split prod.split)

lemma write_range_fc: "\<not> is_write_fc (hd pdu) \<Longrightarrow> write_range pdu = {}"
  by (simp add: write_range_def)

lemma finish_write_failures:
  assumes "finish_pdu pe pdu unit resp0 p = (resp, p')"
  shows "px_unit_id p' = px_unit_id p \<and> px_write_failures p' =
    (if unit = px_unit_id p then track_write pdu resp (px_write_failures p) else px_write_failures p)"
proof -
  have w: "px_write_failures (check_client_watchdog pe q) = px_write_failures q"
    "px_unit_id (check_client_watchdog pe q) = px_unit_id q" for q
    using watchdog_keeps [of q pe q] by (simp_all add: px_keeps_def)
  have "write_range pdu = {}" if "\<not> is_write_fc (if pdu = [] then 0 else hd pdu)"
    using that by (auto simp: write_range_def split: if_splits)
  then have n: "track_write pdu r f = f" if "\<not> is_write_fc (if pdu = [] then 0 else hd pdu)" for r f
    using that by (simp add: track_write_def)
  define fc where "fc = (if pdu = [] then 0 else hd pdu)"
  define p1 where "p1 = (if resp0 = None then p\<lparr>px_timeouts := px_timeouts p + 1,
    px_uncertain := px_uncertain p + (if is_write_fc fc then 1 else 0)\<rparr> else p)"
  define p2 where "p2 = (if is_error resp then p1\<lparr>px_failed := px_failed p1 + 1\<rparr>
    else p1\<lparr>px_last_success := Some (px_now pe p1)\<rparr>)"
  have r: "resp = (case resp0 of None \<Rightarrow> error_response fc 0x04 | Some r \<Rightarrow> r)"
    using assms unfolding finish_pdu_def Let_def fc_def by (cases resp0) simp_all
  have p': "p' = (if unit = px_unit_id p2 \<and> (is_read_fc fc \<or> is_write_fc fc)
      then check_client_watchdog pe (p2\<lparr>px_last_request := px_now pe p2,
        px_read_failures := track_read pdu resp (px_read_failures p2),
        px_write_failures := track_write pdu resp (px_write_failures p2),
        px_upstream_failed := track_read pdu resp (px_read_failures p2) \<noteq> {}\<rparr>) else p2)"
    using assms unfolding finish_pdu_def Let_def p2_def p1_def r fc_def by simp
  have k: "px_unit_id p2 = px_unit_id p" "px_write_failures p2 = px_write_failures p"
    by (simp_all add: p2_def p1_def)
  show ?thesis
    using n [of resp "px_write_failures p"] unfolding p' fc_def [symmetric]
    by (cases "is_write_fc fc") (simp_all add: w k)
qed

text \<open>The requests of all clients in the order they are answered, each with its answer.\<close>

fun answered ::
    "'w px_env \<Rightarrow> (byte list \<times> byte) list \<Rightarrow> 'w proxy \<Rightarrow> (byte list \<times> byte \<times> byte list) list \<times> 'w proxy" where
  "answered pe [] p = ([], p)"
| "answered pe ((pdu, unit) # rs) p =
     (let (resp, p1) = process_pdu pe pdu unit p; (log, p2) = answered pe rs p1
      in ((pdu, unit, resp) # log, p2))"

definition fails_word :: "byte \<Rightarrow> nat \<Rightarrow> byte list \<times> byte \<times> byte list \<Rightarrow> bool" where
  "fails_word u a = (\<lambda>(pdu, unit, resp).
     unit = u \<and> a \<in> write_range pdu \<and> is_error resp \<and> error_code resp = 0x04)"

definition confirms_word :: "byte \<Rightarrow> nat \<Rightarrow> byte list \<times> byte \<times> byte list \<Rightarrow> bool" where
  "confirms_word u a = (\<lambda>(pdu, unit, resp). unit = u \<and> a \<in> write_range pdu \<and> \<not> is_error resp)"

text \<open>Some request failed on the word and no later one confirmed it.\<close>

fun unconfirmed :: "byte \<Rightarrow> nat \<Rightarrow> (byte list \<times> byte \<times> byte list) list \<Rightarrow> bool" where
  "unconfirmed u a [] = False"
| "unconfirmed u a (e # es) =
     (unconfirmed u a es \<or> (fails_word u a e \<and> \<not> list_ex (confirms_word u a) es))"

lemma track_write_word:
  "a \<in> (if unit = u then track_write pdu resp f else f) \<longleftrightarrow>
     fails_word u a (pdu, unit, resp) \<or> (a \<in> f \<and> \<not> confirms_word u a (pdu, unit, resp))"
  by (auto simp: track_write_def fails_word_def confirms_word_def)

definition cut_keeps :: "'w px_env \<Rightarrow> bool" where
  "cut_keeps pe \<longleftrightarrow> (\<forall>pdu p p1. pe_cut pe pdu p = Some p1 \<longrightarrow> px_keeps p p1)"

lemma process_failures:
  assumes "cut_keeps pe" "process_pdu pe pdu unit p = (resp, p')"
  shows "px_unit_id p' = px_unit_id p \<and> px_write_failures p' =
    (if unit = px_unit_id p then track_write pdu resp (px_write_failures p) else px_write_failures p)"
proof -
  obtain q resp0 where q: "px_keeps p q" "finish_pdu pe pdu unit resp0 q = (resp, p')"
  proof (cases "pe_cut pe pdu p")
    case None
    obtain r q where d: "dispatch_pdu pe pdu unit p = (r, q)" by fastforce
    show ?thesis
      by (rule that [of q "Some r"]) (use dispatch_keeps [of p pe pdu unit] d None assms(2) in
        \<open>auto simp: process_pdu_def\<close>)
  next
    case (Some q)
    show ?thesis
      by (rule that [of q None]) (use Some assms in \<open>auto simp: process_pdu_def cut_keeps_def\<close>)
  qed
  show ?thesis using finish_write_failures [OF q(2)] q(1) by (simp add: px_keeps_def)
qed

text \<open>C29: Over any sequence of requests of all clients, with or without time-outs, a word counts as
  unconfirmed exactly when some request that addressed it was answered with error 0x04 and no
  later request that covers it was answered with success. (A request that is cut off by its time
  limit leaves this bookkeeping to its end.)\<close>

theorem unconfirmed_words_tracked:
  "cut_keeps pe \<Longrightarrow> px_write_failures p = {} \<Longrightarrow>
   a \<in> px_write_failures (snd (answered pe reqs p))
     \<longleftrightarrow> unconfirmed (px_unit_id p) a (fst (answered pe reqs p))"
proof -
  assume c: "cut_keeps pe" and e: "px_write_failures p = {}"
  have "a \<in> px_write_failures (snd (answered pe reqs p)) \<longleftrightarrow>
      unconfirmed (px_unit_id p) a (fst (answered pe reqs p))
      \<or> (a \<in> px_write_failures p \<and> \<not> list_ex (confirms_word (px_unit_id p) a) (fst (answered pe reqs p)))"
  proof (induction reqs arbitrary: p)
    case (Cons r rs)
    obtain pdu unit where r: "r = (pdu, unit)" by fastforce
    obtain resp p1 where p1: "process_pdu pe pdu unit p = (resp, p1)" by fastforce
    note f = process_failures [OF c p1]
    show ?case
      using Cons.IH [of p1] f track_write_word [of a unit "px_unit_id p" pdu resp "px_write_failures p"]
      by (auto simp: r p1 split_beta)
  qed simp
  then show ?thesis using e by simp
qed

theorem unconfirmed_words_tracked_witness:
  "1289 \<in> px_write_failures (snd (answered (test_px\<lparr>pe_cut := (\<lambda>_ p. Some p)\<rparr>)
     [([0x10, 5, 8, 0, 2, 4, 0, 0, 0, 60], 71)] (test_proxy cached_coord)))"
proof -
  let ?pe = "test_px\<lparr>pe_cut := (\<lambda>_ p. Some p)\<rparr>" and ?p = "test_proxy cached_coord"
  let ?pdu = "[0x10, 5, 8, 0, 2, 4, 0, 0, 0, 60] :: byte list"
  have u: "u16_at ?pdu 1 = 1288" "u16_at ?pdu 3 = 2" by (simp_all add: u16_at_def unpack_be_def)
  have r: "write_range ?pdu = {1288 ..< 1290}"
    unfolding write_range_def u Let_def by (simp add: is_write_fc_def FC_defs)
  obtain p1 where "process_pdu ?pe ?pdu 71 ?p = (error_response 0x10 0x04, p1)"
    by (simp add: process_pdu_def finish_pdu_def Let_def)
  then have "unconfirmed (px_unit_id ?p) 1289 (fst (answered ?pe [(?pdu, 71)] ?p))"
    using r by (simp add: fails_word_def test_proxy_def)
  moreover have "cut_keeps ?pe" by (simp add: cut_keeps_def)
  moreover have "px_write_failures ?p = {}" by (simp add: test_proxy_def)
  ultimately show ?thesis using unconfirmed_words_tracked by blast
qed

section \<open>Frames\<close>

definition request_frame :: "nat \<Rightarrow> byte \<Rightarrow> byte list \<Rightarrow> byte list" where
  "request_frame txn unit pdu = be16 txn @ be16 0 @ be16 (length pdu + 1) @ [unit] @ pdu"

lemma length_be16 [simp]: "length (be16 n) = 2"
  by (simp add: be16_def)

lemma unpack_be16: "n < 65536 \<Longrightarrow> nat (unpack_be (be16 n)) = n"
  by (simp add: be16_def)

text \<open>A header takes the seven bytes in front of the data.\<close>

lemma header_parts:
  assumes "header = be16 a @ be16 b @ be16 c @ [unit]" "a < 65536" "b < 65536" "c < 65536"
  shows "length header = 7" "u16_at header 0 = a" "u16_at header 2 = b" "u16_at header 4 = c" "header ! 6 = unit"
  using assms by (simp_all add: u16_at_def unpack_be16 nth_append)

lemma next_frame_header:
  assumes "length header = 7" "u16_at header 2 = 0"
  shows "next_frame (header @ rest) =
    (if u16_at header 4 < 2 then FrameSkip rest
     else if 260 < u16_at header 4 then skip_exactly 260 rest
     else (case read_exactly (u16_at header 4 - 1) rest of None \<Rightarrow> FrameEnd
       | Some (pdu, rest1) \<Rightarrow> FrameRequest (u16_at header 0) (header ! 6) pdu rest1))"
proof -
  have "read_exactly MBAP_HEADER_SIZE (header @ rest) = Some (header, rest)"
    using assms by (simp add: read_exactly_def MBAP_HEADER_SIZE_def)
  moreover have "skip_exactly 0 rest = FrameSkip rest" by (simp add: skip_exactly_def read_exactly_def)
  moreover have "min (u16_at header 4 - 1) 260 = 260" if "260 < u16_at header 4"
    using that by simp
  ultimately show ?thesis using assms(2)
    by (auto simp: next_frame_def Let_def)
qed

lemma next_frame_request:
  assumes "txn < 65536" "1 \<le> length pdu" "length pdu \<le> 259"
  shows "next_frame (request_frame txn unit pdu @ rest) = FrameRequest txn unit pdu rest"
proof -
  define header where "header = be16 txn @ be16 0 @ be16 (length pdu + 1) @ [unit]"
  note h = header_parts [OF header_def, of]
  have "request_frame txn unit pdu @ rest = header @ pdu @ rest"
    by (simp add: request_frame_def header_def)
  then show ?thesis
    using next_frame_header [of header "pdu @ rest"] h assms by (cases pdu) (simp_all add: read_exactly_def)
qed

text \<open>The requests of a stream answered one after the other.\<close>

fun serve_requests ::
    "'w px_env \<Rightarrow> (nat \<times> byte \<times> byte list) list \<Rightarrow> 'w proxy \<Rightarrow> byte list \<times> 'w proxy" where
  "serve_requests pe [] p = ([], p)"
| "serve_requests pe ((txn, unit, pdu) # rs) p =
     (let (resp, p1) = process_pdu pe pdu unit p; (out, p2) = serve_requests pe rs p1
      in (mbap_response txn unit resp @ out, p2))"

definition frame_ok :: "nat \<times> byte \<times> byte list \<Rightarrow> bool" where
  "frame_ok = (\<lambda>(txn, unit, pdu). txn < 65536 \<and> 1 \<le> length pdu \<and> length pdu \<le> 259)"

text \<open>C24: The byte stream of a client is served request by request: for well-formed frames sent back to
  back, in any number, the proxy answers each one, in order, under its own transaction and unit
  identifier, and runs them one after the other on its state.\<close>

theorem stream_serves_each_request:
  "list_all frame_ok reqs \<Longrightarrow>
   serve_stream pe (concat (map (\<lambda>(txn, unit, pdu). request_frame txn unit pdu) reqs)) p
     = serve_requests pe reqs p"
proof (induction reqs arbitrary: p)
  case Nil
  have "next_frame [] = FrameEnd" by (simp add: next_frame_def read_exactly_def MBAP_HEADER_SIZE_def)
  then show ?case by (simp add: serve_stream.simps)
next
  case (Cons r rs)
  obtain txn unit pdu where r: "r = (txn, unit, pdu)" by (cases r)
  let ?rest = "concat (map (\<lambda>(txn, unit, pdu). request_frame txn unit pdu) rs)"
  have n: "next_frame (request_frame txn unit pdu @ ?rest) = FrameRequest txn unit pdu ?rest"
    using Cons.prems by (intro next_frame_request) (auto simp: r frame_ok_def)
  obtain resp p1 where p1: "process_pdu pe pdu unit p = (resp, p1)" by fastforce
  have "serve_stream pe ?rest p1 = serve_requests pe rs p1" using Cons by simp
  then show ?case using n p1
    by (subst serve_stream.simps) (simp add: r)
qed

theorem stream_serves_each_request_witness:
  "take 8 (fst (serve_stream test_px (request_frame 9 71 [0x2B] @ request_frame 10 71 [0x2B]) (test_proxy cached_coord)))
     = [0, 9, 0, 0, 0, 3, 71, 0xAB]"
proof -
  let ?p = "test_proxy cached_coord"
  have "process_pdu test_px [0x2B] 71 ?p = (error_response 0x2B 0x01, ?p\<lparr>px_failed := 1\<rparr>)"
    by (simp add: process_pdu_def test_px_def test_proxy_def dispatch_pdu_def finish_pdu_def FC_defs
        is_read_fc_def is_write_fc_def)
  moreover have "list_all frame_ok [(9, 71, [0x2B]), (10, 71, [0x2B])]" by (simp add: frame_ok_def)
  ultimately show ?thesis
    using stream_serves_each_request [of "[(9, 71, [0x2B]), (10, 71, [0x2B])]" test_px ?p]
    by (simp add: mbap_response_def error_response_def be16_def pack_be_numeral split_beta)
qed

section \<open>Where equal cases are treated differently\<close>

text \<open>A frame whose length field exceeds 261 is skipped only in part: exactly 260 bytes after the header
  are dropped, and the rest of its own body is read as the next header. The stream is out of
  step from then on, and the tail of the body can be a request of its own.\<close>

lemma oversized_frame_desynchronises:
  "261 < len \<Longrightarrow> len < 65536 \<Longrightarrow> length body = len - 1 \<Longrightarrow> txn < 65536 \<Longrightarrow>
   next_frame (be16 txn @ be16 0 @ be16 len @ [unit] @ body @ rest) = FrameSkip (drop 260 body @ rest)
   \<and> drop 260 body \<noteq> []"
proof -
  assume l: "261 < len" "len < 65536" "length body = len - 1" and t: "txn < 65536"
  define header where "header = be16 txn @ be16 0 @ be16 len @ [unit]"
  note h = header_parts [OF header_def t _ l(2)]
  have "next_frame (header @ body @ rest) = skip_exactly 260 (body @ rest)"
    using next_frame_header [of header "body @ rest"] h l by simp
  moreover have g: "260 < length body" using l by simp
  then have "skip_exactly 260 (body @ rest) = FrameSkip (drop 260 body @ rest)"
    by (simp add: skip_exactly_def read_exactly_def)
  ultimately show ?thesis using g by (simp add: header_def)
qed

lemma oversized_frame_desynchronises_witness:
  "next_frame (be16 1 @ be16 0 @ be16 300 @ [71] @ replicate 260 0 @ replicate 39 7 @ [])
     = FrameSkip (replicate 39 7)"
  using oversized_frame_desynchronises [of 300 "replicate 260 0 @ replicate 39 7" 1 71 "[]"] by simp

text \<open>The single-register write to the first and to the second word of a two-word register.\<close>

lemma bat_max_charge_facts:
  "REG_BAT_MAX_CHARGE_LIMIT \<in> set ALL_REGISTERS" "rg_address REG_BAT_MAX_CHARGE_LIMIT = 1038"
  "rg_count REG_BAT_MAX_CHARGE_LIMIT = 2" "rg_access REG_BAT_MAX_CHARGE_LIMIT = RW"
  by (simp_all add: ALL_REGISTERS_def REG_BAT_MAX_CHARGE_LIMIT_def)

lemma no_register_at_1039: "REGISTER_BY_ADDRESS 1039 = None"
proof (rule ccontr)
  assume "REGISTER_BY_ADDRESS 1039 \<noteq> None"
  then obtain r where "r \<in> set ALL_REGISTERS" "rg_address r = 1039"
    using REGISTER_BY_ADDRESS_SomeD by blast
  moreover have "list_all (\<lambda>r. rg_address r \<noteq> 1039) ALL_REGISTERS" by (simp add: ALL_REGISTERS_unfold)
  ultimately show False by (auto simp: list_all_iff)
qed

text \<open>A single-register write to a register of two words is refused at its first word but passed on at
  its second: with installer access and nothing else in charge, the low half of the float in
  register 1038 is overwritten alone, and the client is told of success.\<close>

lemma fc06_second_word_is_written:
  "let p = test_proxy (test_coord mem)
   in fst (handle_write_single test_px [6, 4, 14, 0, 7] p) = [0x86, 0x03]
    \<and> fst (handle_write_single test_px [6, 4, 15, 0, 7] p) = [6, 4, 15, 0, 7]
    \<and> px_world (snd (handle_write_single test_px [6, 4, 15, 0, 7] p)) = mem(1039 := 7)"
proof -
  let ?p = "test_proxy (test_coord mem)"
  have u: "u16_at [6, 4, 14, 0, 7] 1 = 1038" "u16_at [6, 4, 14, 0, 7] 3 = 7"
    "u16_at [6, 4, 15, 0, 7] 1 = 1039" "u16_at [6, 4, 15, 0, 7] 3 = 7"
    by (simp_all add: u16_at_def unpack_be_def)
  have free: "write_refused test_px fc d a n v ?p = None" for fc d a n v
    by (simp add: write_refused_blocked blocked_def test_px_def test_proxy_def)
  have 1: "fst (handle_write_single test_px [6, 4, 14, 0, 7] ?p) = [0x86, 0x03]"
    unfolding handle_write_single_def u Let_def free
    using REGISTER_BY_ADDRESS_address [OF bat_max_charge_facts(1)]
    by (simp add: bat_max_charge_facts error_response_def FC_defs)
  define p1 where "p1 = (note_ext_write test_px 1039 ?p)\<lparr>px_fc06_count := px_fc06_count ?p + 1\<rparr>"
  define s where "s = px_client p1"
  have s: "cl_world s = mem" "cl_has_client s" "\<not> cl_closing s"
    by (simp_all add: s_def p1_def px_client_def note_ext_write_def test_proxy_def test_coord_def coord_new_def
        client_new_def)
  have b: "bytes_words (be16 7) = Inr [7]" by (simp add: be16_def pack_be_numeral unpack_be_def)
  have m: "(\<lambda>i. if 1039 \<le> i \<and> i < Suc 1039 then [7] ! (i - 1039) else mem i) = mem(1039 := 7)"
    by (auto simp: fun_eq_iff)
  have w: "fst (raw_write mem_env 1039 (be16 7) 1 s) = Inr ()"
    "cl_world (snd (raw_write mem_env 1039 (be16 7) 1 s)) = mem(1039 := 7)"
    using s b m
    by (simp_all add: raw_write_def with_scheduler_def raw_write_inner_def client_closing_def
        client_connected_def Let_def mem_env_def log_io_def)
  have c: "px_connected test_px p1"
    using s by (simp add: px_connected_def client_connected_def test_px_def flip: s_def)
  define p2 where "p2 = px_invalidate 1039 1 p1"
  have s2: "co_client (px_coord p2) = s"
    by (simp add: p2_def s_def px_client_def px_invalidate_def invalidate_proxy_cache_def)
  define p3 where "p3 = p2\<lparr>px_coord := (px_coord p2)\<lparr>co_client := snd (raw_write mem_env 1039 (be16 7) 1 s)\<rparr>\<rparr>"
  have "px_on_client (raw_write mem_env 1039 (be16 7) 1) p2 = (Inr (), p3)"
    using w(1) by (cases "raw_write mem_env 1039 (be16 7) 1 s")
      (simp add: px_on_client_def on_client_def s2 p3_def)
  then have f: "forward_write_single test_px 1039 7 p1 = (True, p3)"
    using c unfolding forward_write_single_def p2_def [symmetric] by (simp add: test_px_def del: One_nat_def)
  have 2: "handle_write_single test_px [6, 4, 15, 0, 7] ?p
      = ([6, 4, 15, 0, 7], proxy_audit test_px (addr_key 1039) (VInt 7) ''forwarded_direct'' ''FC06'' p3)"
    unfolding handle_write_single_def u Let_def free
    using f c by (simp add: no_register_at_1039 p1_def [symmetric] del: One_nat_def)
  have "px_world p3 = mem(1039 := 7)"
    using w(2) by (simp add: p3_def px_world_def px_client_def)
  then show ?thesis using 1 2 by (simp add: Let_def px_world_def)
qed

end
