(* ===== verification/Helpers.thy ===== *)
theory Helpers
  imports PyText
begin

text \<open>
  The helpers every platform uses (\<^verbatim>\<open>helper.py\<close>): the parsing of firmware versions, numbers
  and isolation readings, the power balance of the house, the formatters of the REST values,
  and the gates a write to the inverter's REST settings has to pass.

  The text of a float (\<open>repr\<close>) is a parameter where the code prints one.
\<close>

section \<open>Firmware versions\<close>

text \<open>A part of a version is ASCII digits only; \<open>int\<close> refuses more than 4300 of them.\<close>

definition parse_firmware_version :: "string option \<Rightarrow> pyexc + (int \<times> int \<times> int) option" where
  "parse_firmware_version raw = (case raw of
     None \<Rightarrow> Inr None
   | Some s \<Rightarrow>
       if s = [] then Inr None
       else case split_on CHR ''.'' (py_strip s) of
         a # b # c # _ \<Rightarrow>
           if list_all (\<lambda>p. p \<noteq> [] \<and> list_all is_digit p) [a, b, c]
           then bind_res (int_of_str a) (\<lambda>x. bind_res (int_of_str b) (\<lambda>y.
                  bind_res (int_of_str c) (\<lambda>z. Inr (Some (x, y, z)))))
           else Inr None
       | _ \<Rightarrow> Inr None)"

definition firmware_at_least :: "(int \<times> int \<times> int) option \<Rightarrow> int \<Rightarrow> int \<Rightarrow> int \<Rightarrow> bool" where
  "firmware_at_least version major minor patch = (case version of
     None \<Rightarrow> False
   | Some (a, b, c) \<Rightarrow> major < a \<or> major = a \<and> (minor < b \<or> minor = b \<and> patch \<le> c))"

section \<open>Numbers\<close>

definition caught_conv :: "pyexc \<Rightarrow> bool" where
  "caught_conv e \<longleftrightarrow> e = TypeError \<or> e = ValueError"

text \<open>\<open>float(v)\<close> with the type and value errors caught; NaN and infinities are refused.\<close>

definition optional_float :: "pyval \<Rightarrow> pyexc + pyfloat option" where
  "optional_float v = (if v = VNone then Inr None
     else case float_of_val v of
       Inl e \<Rightarrow> if caught_conv e then Inr None else Inl e
     | Inr f \<Rightarrow> Inr (if is_nan f \<or> is_inf f then None else Some f))"

text \<open>\<open>round(x, n)\<close> of a float: the decimal nearest to its exact value, ties to even.\<close>

definition round_nd :: "nat \<Rightarrow> pyfloat \<Rightarrow> pyfloat" where
  "round_nd n x = (if is_nan x \<or> is_inf x then x
     else mk_float (fsign x) (of_int (rhe (frat x * 10 ^ n)) / 10 ^ n))"

section \<open>The power balance of the house\<close>

definition HOME_POWER_NOISE_BAND_W :: pyfloat where "HOME_POWER_NOISE_BAND_W = FFin 50"
definition NEGATIVE_HOME_POWER_WARN_INTERVAL_S :: rat where "NEGATIVE_HOME_POWER_WARN_INTERVAL_S = 600"
definition INVERTER_DC_TO_AC_EFFICIENCY :: pyfloat where "INVERTER_DC_TO_AC_EFFICIENCY = mk_float False (96 / 100)"

definition safe_home_power_w :: "pyfloat option \<Rightarrow> pyfloat" where
  "safe_home_power_w v = (case v of
     None \<Rightarrow> FFin 0 | Some x \<Rightarrow> if flt x (FFin 0) then FFin 0 else x)"

text \<open>The time of the last warning of each register, a module-wide dictionary.\<close>

definition home_power_warning ::
    "rat \<Rightarrow> string \<Rightarrow> pyfloat option \<Rightarrow> (string \<Rightarrow> rat option) \<Rightarrow> (string \<Rightarrow> rat option)" where
  "home_power_warning now register v warned = (case v of
     None \<Rightarrow> warned
   | Some x \<Rightarrow>
       if flt x (FFin 0) \<and> \<not> fle (fneg HOME_POWER_NOISE_BAND_W) x
          \<and> (case warned register of None \<Rightarrow> True | Some t \<Rightarrow> NEGATIVE_HOME_POWER_WARN_INTERVAL_S \<le> now - t)
       then warned(register \<mapsto> now) else warned)"

definition sum_home_consumption_power_w ::
    "pyfloat option \<Rightarrow> pyfloat option \<Rightarrow> pyfloat option \<Rightarrow> pyfloat option" where
  "sum_home_consumption_power_w pv bat grid =
     (if pv = None \<or> bat = None \<or> grid = None then None
      else Some (fadd (fadd (safe_home_power_w pv) (safe_home_power_w bat)) (safe_home_power_w grid)))"

definition dc_pv_power_to_ac_estimate_w :: "pyfloat \<Rightarrow> pyfloat" where
  "dc_pv_power_to_ac_estimate_w dc = py_max (FFin 0) (fmul dc INVERTER_DC_TO_AC_EFFICIENCY)"

definition battery_efficiency_measurement_quality :: "pyfloat \<Rightarrow> pyfloat \<Rightarrow> pyexc + string" where
  "battery_efficiency_measurement_quality charge_pv charge_grid =
     (let tot = fadd charge_pv charge_grid
      in if fle tot (FFin 0) then Inr ''no_charge''
         else if fle charge_grid (FFin 0) then Inr ''pure_dc''
         else if fle charge_pv (FFin 0) then Inr ''pure_ac''
         else bind_res (fdiv charge_grid tot) (\<lambda>share.
           Inr (if flt share (mk_float False (5 / 100)) then ''mostly_dc''
                else if flt (mk_float False (95 / 100)) share then ''mostly_ac'' else ''mixed'')))"

section \<open>Isolation resistance\<close>

definition ISOLATION_KOHM_HEURISTIC_MAX :: pyfloat where "ISOLATION_KOHM_HEURISTIC_MAX = FFin 1000"
definition ISOLATION_SENTINEL_OHM :: pyfloat where "ISOLATION_SENTINEL_OHM = FFin 65535000"

text \<open>Off, init, standby and shutdown.\<close>

definition idle_state :: "int option \<Rightarrow> bool" where
  "idle_state state \<longleftrightarrow> state \<in> Some ` {0, 1, 10, 15}"

lemma idle_state_code [simp]:
  "idle_state None = False" "idle_state (Some n) = (n = 0 \<or> n = 1 \<or> n = 10 \<or> n = 15)"
  by (auto simp: idle_state_def)

definition normalize_isolation_resistance_ohm ::
    "pyval \<Rightarrow> bool \<Rightarrow> int option \<Rightarrow> pyexc + pyfloat option" where
  "normalize_isolation_resistance_ohm v pv_active inverter_state = (case float_of_val v of
     Inl e \<Rightarrow> if caught_conv e then Inr None else Inl e
   | Inr x \<Rightarrow> Inr (
       if is_nan x \<or> is_inf x then None
       else if \<not> pv_active then Some x
       else if idle_state inverter_state then Some x
       else if flt (FFin 0) (fabs x) \<and> fle (fabs x) ISOLATION_KOHM_HEURISTIC_MAX
            then Some (fmul x (FFin 1000))
            else Some x))"

definition INVERTER_STATE_ISOMEAS :: int where "INVERTER_STATE_ISOMEAS = 2"

definition is_isolation_sentinel_ohm :: "pyfloat \<Rightarrow> bool" where
  "is_isolation_sentinel_ohm x = feq x ISOLATION_SENTINEL_OHM"

definition isolation_measurement_expected :: "bool \<Rightarrow> int option \<Rightarrow> bool" where
  "isolation_measurement_expected pv_active inverter_state \<longleftrightarrow>
     pv_active \<or> inverter_state = Some INVERTER_STATE_ISOMEAS"

definition isolation_sentinel_as_off_scale_high :: "bool \<Rightarrow> int option \<Rightarrow> bool" where
  "isolation_sentinel_as_off_scale_high = isolation_measurement_expected"

definition isolation_kostal_display_mohm :: "pyfloat option \<Rightarrow> pyexc + pyfloat option" where
  "isolation_kostal_display_mohm ohm = (case ohm of
     None \<Rightarrow> Inr None
   | Some x \<Rightarrow> bind_res (fdiv x (FFin 1000000)) (\<lambda>q. Inr (Some (round_nd 1 q))))"

section \<open>Formatters\<close>

text \<open>\<open>int(s)\<close>, else \<open>int(float(s))\<close>, else the text itself.\<close>

definition safe_int_conversion :: "string \<Rightarrow> pyexc + pyval" where
  "safe_int_conversion s = (case int_of_str s of
     Inr n \<Rightarrow> Inr (VInt n)
   | Inl e \<Rightarrow> if \<not> caught_conv e then Inl e
       else case bind_res (float_of_str s) int_of_float of
         Inr n \<Rightarrow> Inr (VInt n)
       | Inl e2 \<Rightarrow> if caught_conv e2 then Inr (VStr s) else Inl e2)"

definition safe_float_conversion :: "string \<Rightarrow> pyexc + pyval" where
  "safe_float_conversion s = (case float_of_str s of
     Inr x \<Rightarrow> Inr (VFloat x) | Inl e \<Rightarrow> if caught_conv e then Inr (VStr s) else Inl e)"

definition format_round :: "pyval \<Rightarrow> pyexc + int option" where
  "format_round state =
     (case bind_res (float_of_val state) (\<lambda>x.
        if is_nan x \<or> is_inf x then Inr None else map_sum id Some (round_float x)) of
        Inr r \<Rightarrow> Inr r
      | Inl e \<Rightarrow> if caught_conv e \<or> e = OverflowError then Inr None else Inl e)"

text \<open>\<open>fval == int(fval)\<close> compares a float with an exact int.\<close>

definition format_round_back :: "(pyfloat \<Rightarrow> string) \<Rightarrow> pyval \<Rightarrow> pyexc + string" where
  "format_round_back frepr v =
     (case bind_res (float_of_val v) (\<lambda>x.
        if is_nan x \<or> is_inf x then Inr []
        else bind_res (int_of_float x) (\<lambda>n.
          Inr (if frat x = of_int n then int_dec n else frepr (round_nd 3 x)))) of
        Inr r \<Rightarrow> Inr r
      | Inl e \<Rightarrow> if caught_conv e \<or> e = OverflowError then Inr [] else Inl e)"

definition format_float :: "pyval \<Rightarrow> pyexc + pyfloat option" where
  "format_float state =
     (case float_of_val state of
        Inr x \<Rightarrow> (let y = round_nd 3 x in Inr (if is_nan y \<or> is_inf y then None else Some y))
      | Inl e \<Rightarrow> if caught_conv e then Inr None else Inl e)"

definition format_float_back :: "(pyfloat \<Rightarrow> string) \<Rightarrow> pyval \<Rightarrow> pyexc + string" where
  "format_float_back frepr v =
     (case float_of_val v of
        Inr x \<Rightarrow> Inr (frepr (round_nd 3 x))
      | Inl e \<Rightarrow> if caught_conv e then Inr (str_of_val frepr v) else Inl e)"

definition format_energy :: "pyval \<Rightarrow> pyexc + pyfloat option" where
  "format_energy state =
     (case bind_res (float_of_val state) (\<lambda>x. bind_res (fdiv x (FFin 1000)) (\<lambda>q. Inr (round_nd 1 q))) of
        Inr y \<Rightarrow> Inr (if is_nan y \<or> is_inf y \<or> flt y (FFin 0) then None else Some y)
      | Inl e \<Rightarrow> if caught_conv e then Inr None else Inl e)"

definition FORMAT_INVERTER_STATES :: "(int \<times> string) list" where
  "FORMAT_INVERTER_STATES =
     [(0, ''Off''), (1, ''Init''), (2, ''IsoMEas''), (3, ''GridCheck''), (4, ''StartUp''), (6, ''FeedIn''),
      (7, ''Throttled''), (8, ''ExtSwitchOff''), (9, ''Update''), (10, ''Standby''), (11, ''GridSync''),
      (12, ''GridPreCheck''), (13, ''GridSwitchOff''), (14, ''Overheating''), (15, ''Shutdown''),
      (16, ''ImproperDcVoltage''), (17, ''ESB''), (18, ''BatteryCharging''), (19, ''BatteryDischarging''),
      (20, ''Maintenance'')]"

definition EM_STATES :: "(int \<times> string) list" where
  "EM_STATES =
     [(0, ''Idle''), (1, ''n/a''), (2, ''Emergency Battery Charge''), (4, ''n/a''), (8, ''Winter Mode Step 1''),
      (16, ''Winter Mode Step 2''), (32, ''Winter Mode Step 3''), (64, ''Self Consumption''),
      (128, ''Peak Shaving''), (256, ''Export Limit''), (512, ''Battery Management'')]"

definition format_state :: "(int \<times> string) list \<Rightarrow> string \<Rightarrow> string \<Rightarrow> pyexc + string" where
  "format_state names unknown s = bind_res (safe_int_conversion s) (\<lambda>v. Inr (case v of
     VInt n \<Rightarrow> (case map_of names n of Some t \<Rightarrow> t | None \<Rightarrow> unknown @ int_dec n)
   | VStr t \<Rightarrow> t | _ \<Rightarrow> []))"

definition format_inverter_state :: "string \<Rightarrow> pyexc + string" where
  "format_inverter_state = format_state FORMAT_INVERTER_STATES ''Unknown State ''"

definition format_em_manager_state :: "string \<Rightarrow> pyexc + string" where
  "format_em_manager_state = format_state EM_STATES ''Unknown EM State ''"

text \<open>The enumerations read with \<open>int(s)\<close> alone; what is no integer is shown as it is.\<close>

definition format_enum :: "(int \<times> string) list \<Rightarrow> string \<Rightarrow> string \<Rightarrow> pyexc + string" where
  "format_enum names unknown s = (case int_of_str s of
     Inr n \<Rightarrow> Inr (case map_of names n of Some t \<Rightarrow> t | None \<Rightarrow> unknown @ s)
   | Inl e \<Rightarrow> if caught_conv e then Inr s else Inl e)"

definition format_battery_management_mode :: "string \<Rightarrow> pyexc + string" where
  "format_battery_management_mode = format_enum
     [(0, ''No external battery management''), (1, ''External management via digital I/O''),
      (2, ''External management via MODBUS'')] ''Unknown mode: ''"

definition format_sensor_type :: "string \<Rightarrow> pyexc + string" where
  "format_sensor_type = format_enum
     [(0, ''SDM 630 (B+G E-Tech)''), (1, ''B-Control EM-300 LR''), (2, ''Reserved''),
      (3, ''KOSTAL Smart Energy Meter''), (255, ''No sensor'')] ''Unknown sensor: ''"

definition format_battery_type :: "string \<Rightarrow> pyexc + string" where
  "format_battery_type = format_enum
     [(0, ''No battery (PV-Functionality)''), (2, ''PIKO Battery Li''), (4, ''BYD''), (8, ''BMZ''),
      (16, ''AXIstorage Li SH''), (64, ''LG''), (512, ''Pyontech Force H''), (1024, ''AXIstorage Li SV''),
      (4096, ''Dyness Tower / TowerPro''), (8192, ''VARTA.wall''), (16384, ''ZYC'')] ''Unknown battery type: ''"

definition format_pssb_fuse_state :: "string \<Rightarrow> pyexc + string" where
  "format_pssb_fuse_state = format_enum
     [(0, ''Fuse fail''), (1, ''Fuse ok''), (255, ''Unchecked'')] ''Unknown fuse state: ''"

section \<open>Errors of the REST interface\<close>

datatype rest_modbus_error = IllegalFunction | IllegalDataAddress | IllegalDataValue
  | ServerDeviceFailure | ServerDeviceBusy | MemoryParity | OtherModbus

definition rest_error_code :: "rest_modbus_error \<Rightarrow> nat option" where
  "rest_error_code e = (case e of IllegalFunction \<Rightarrow> Some 1 | IllegalDataAddress \<Rightarrow> Some 2
     | IllegalDataValue \<Rightarrow> Some 3 | ServerDeviceFailure \<Rightarrow> Some 4 | ServerDeviceBusy \<Rightarrow> Some 6
     | MemoryParity \<Rightarrow> Some 8 | OtherModbus \<Rightarrow> None)"

definition parse_modbus_exception :: "string \<Rightarrow> rest_modbus_error" where
  "parse_modbus_exception message = (let m = map to_lower message
     in if contains ''illegal function'' m then IllegalFunction
        else if contains ''illegal data address'' m then IllegalDataAddress
        else if contains ''illegal data value'' m then IllegalDataValue
        else if contains ''server device failure'' m then ServerDeviceFailure
        else if contains ''server device busy'' m then ServerDeviceBusy
        else if contains ''memory parity'' m then MemoryParity
        else OtherModbus)"

section \<open>The gates of a write\<close>

definition requires_installer_service_code :: "string \<Rightarrow> bool" where
  "requires_installer_service_code data_id = list_ex (\<lambda>c. contains c data_id)
     [''ChargePower'', ''ChargeCurrent'', ''MaxChargePower'', ''MaxDischargePower'', ''TimeUntilFallback'',
      ''DigitalOutputs:Customer:'', ''Battery:BackupMode:Enable'']"

definition is_battery_control :: "string \<Rightarrow> bool" where
  "is_battery_control data_id = starts_with ''Battery:'' data_id"

definition ALLOWED_WRITE_PREFIXES :: "string list" where
  "ALLOWED_WRITE_PREFIXES = [''Battery:'', ''EnergyMgmt:'', ''EnergyManagement:'', ''ActivePower:'',
     ''ReactivePower:'', ''DigitalOut'', ''DigitalOutputs:Customer:'', ''Generator:'', ''Inverter:'',
     ''POfF:'', ''POfU:'', ''LvrtHvrt:'', ''Pave:'']"

definition ALLOWED_WRITE_IDS :: "string list" where
  "ALLOWED_WRITE_IDS = [''Generator:ShadowMgmt:Enable'', ''Battery:MinSoc'', ''Battery:MinSocRel'',
     ''Battery:MinHomeConsumption'', ''Battery:MinHomeComsumption'', ''Battery:BackupMode:Enable'',
     ''Battery:SmartBatteryControl:Enable'', ''Battery:Strategy'']"

definition ARM_REQUIRED_PREFIXES :: "string list" where
  "ARM_REQUIRED_PREFIXES = [''DigitalOutputs:Customer:'']"

definition ARM_REQUIRED_IDS :: "string list" where
  "ARM_REQUIRED_IDS = [''Battery:BackupMode:Enable'', ''Battery:ExternControl:AcPowerAbs'',
     ''Battery:ChargePowerAcAbsolute'', ''Battery:ChargePowerDcAbs'', ''Battery:ChargePower'',
     ''Battery:ChargeCurrent'', ''Battery:MaxChargePowerG3'', ''Battery:MaxDischargePowerG3'',
     ''Battery:Limit:Charge_P'', ''Battery:Limit:Discharge_P'', ''Battery:Limit:FallbackCharge_P'',
     ''Battery:Limit:FallbackDischarge_P'', ''Battery:Limit:FallbackTime'']"

definition ARM_REQUIRED_FRAGMENTS :: "string list" where
  "ARM_REQUIRED_FRAGMENTS = [''Battery:ChargePower'', ''Battery:ChargeCurrent'', ''Battery:ExternControl'']"

definition REST_MODBUS_ONLY_IDS :: "string list" where
  "REST_MODBUS_ONLY_IDS = [''Battery:ExternControl:AcPowerAbs'', ''Battery:ChargePowerAcAbsolute'',
     ''Battery:ChargeCurrentDcRel'', ''Battery:ChargePowerAcRel'', ''Battery:ChargeCurrentDcAbs'',
     ''Battery:ChargePowerDcAbs'', ''Battery:ChargePowerDcRel'']"

definition is_rest_write_supported_target :: "string \<Rightarrow> bool" where
  "is_rest_write_supported_target data_id = (data_id \<notin> set REST_MODBUS_ONLY_IDS)"

definition is_allowed_write_target :: "string \<Rightarrow> string \<Rightarrow> bool" where
  "is_allowed_write_target module_id data_id =
     (if module_id \<noteq> ''devices:local'' then False
      else if \<not> is_rest_write_supported_target data_id then False
      else if data_id \<in> set ALLOWED_WRITE_IDS then True
      else list_ex (\<lambda>p. starts_with p data_id) ALLOWED_WRITE_PREFIXES)"

definition requires_advanced_write_arm :: "string \<Rightarrow> bool" where
  "requires_advanced_write_arm data_id =
     (if data_id \<in> set ARM_REQUIRED_IDS then True
      else if list_ex (\<lambda>f. contains f data_id) ARM_REQUIRED_FRAGMENTS then True
      else list_ex (\<lambda>p. starts_with p data_id) ARM_REQUIRED_PREFIXES)"

text \<open>\<open>s.replace(old, new)\<close> for a text \<open>old\<close> that is not empty.\<close>

fun py_replace :: "string \<Rightarrow> string \<Rightarrow> string \<Rightarrow> string" where
  "py_replace old new [] = []"
| "py_replace old new (c # cs) =
     (if old \<noteq> [] \<and> starts_with old (c # cs) then new @ py_replace old new (drop (length old - 1) cs)
      else c # py_replace old new cs)"

text \<open>
  The two thresholds of a switched output. \<open>None\<close> accepts the write; values that are no
  floats are left to the inverter's own validation.
\<close>

definition cross_message :: "(pyfloat \<Rightarrow> string) \<Rightarrow> string \<Rightarrow> string \<Rightarrow> string \<Rightarrow> string \<Rightarrow> pyfloat \<Rightarrow> string \<Rightarrow> pyfloat \<Rightarrow> string" where
  "cross_message frepr data_id rel other a x b y =
     data_id @ '' must be '' @ rel @ '' than '' @ other @ '' (got '' @ a @ frepr x @ '', '' @ b @ frepr y @ '')''"

definition validate_cross_field_write_rules ::
    "(pyfloat \<Rightarrow> string) \<Rightarrow> string \<Rightarrow> string \<Rightarrow> (string \<times> string) list option \<Rightarrow> pyexc + string option" where
  "validate_cross_field_write_rules frepr data_id new_value current =
     (let vals = (case current of None \<Rightarrow> [] | Some d \<Rightarrow> d);
          res = (if ends_with ''OnPowerThreshold'' data_id then
             (let off_key = py_replace ''OnPowerThreshold'' ''OffPowerThreshold'' data_id
              in case map_of vals off_key of
                   None \<Rightarrow> Inr None
                 | Some t \<Rightarrow> bind_res (float_of_str t) (\<lambda>off_value. bind_res (float_of_str new_value) (\<lambda>on_value.
                     Inr (if fle on_value off_value
                          then Some (cross_message frepr data_id ''greater'' off_key ''on='' on_value ''off='' off_value)
                          else None))))
           else if ends_with ''OffPowerThreshold'' data_id then
             (let on_key = py_replace ''OffPowerThreshold'' ''OnPowerThreshold'' data_id
              in case map_of vals on_key of
                   None \<Rightarrow> Inr None
                 | Some t \<Rightarrow> bind_res (float_of_str t) (\<lambda>on_value. bind_res (float_of_str new_value) (\<lambda>off_value.
                     Inr (if fle on_value off_value
                          then Some (cross_message frepr data_id ''lower'' on_key ''off='' off_value ''on='' on_value)
                          else None))))
           else Inr None)
      in case res of Inl e \<Rightarrow> if caught_conv e then Inr None else Inl e | Inr r \<Rightarrow> Inr r)"

text \<open>Who may call: nobody's call passes, a user's call needs an administrator.\<close>

datatype auth_error = UnknownUser | Unauthorized

definition async_require_admin :: "(string \<Rightarrow> bool option) \<Rightarrow> string option \<Rightarrow> auth_error + unit" where
  "async_require_admin get_user user_id = (case user_id of
     None \<Rightarrow> Inr ()
   | Some u \<Rightarrow> if u = [] then Inr ()
       else case get_user u of None \<Rightarrow> Inl UnknownUser
         | Some admin \<Rightarrow> if admin then Inr () else Inl Unauthorized)"

datatype issue_action = CreateIssue | ClearIssue | NoIssue

definition ensure_installer_access :: "(string \<times> pyval) list \<Rightarrow> bool \<Rightarrow> bool \<Rightarrow> bool \<times> issue_action" where
  "ensure_installer_access entry_data requires_installer has_hass =
     (if \<not> requires_installer then (True, NoIssue)
      else if \<not> (case map_of entry_data ''installer_access'' of None \<Rightarrow> False | Some v \<Rightarrow> py_truth v)
      then (False, if has_hass then CreateIssue else NoIssue)
      else (True, if has_hass then ClearIssue else NoIssue))"

section \<open>The hostname setting\<close>

datatype hostname_error = SettingsFailed | NoNetworkSettings | HostnameNotFound

definition get_hostname_id :: "(string \<times> string list) list option \<Rightarrow> hostname_error + string" where
  "get_hostname_id settings = (case settings of
     None \<Rightarrow> Inl SettingsFailed
   | Some all \<Rightarrow> (case map_of all ''scb:network'' of
       None \<Rightarrow> Inl NoNetworkSettings
     | Some ids \<Rightarrow> if ids = [] then Inl NoNetworkSettings
         else case find (\<lambda>i. i \<in> set [''Network:Hostname'', ''Hostname'']) ids of
           Some i \<Rightarrow> Inr i | None \<Rightarrow> Inl HostnameNotFound))"

end
