(* ===== verification/HelperProofs.thy ===== *)
theory HelperProofs
  imports Helpers
begin

text \<open>
  What the helpers promise: a firmware string is read as its numbers, a whole number survives
  the text it is sent as, and the threshold rules keep a switched output's thresholds ordered.
\<close>

section \<open>Stripping and splitting\<close>

lemma rstrip_append:
  "xs \<noteq> [] \<Longrightarrow> \<not> P (last xs) \<Longrightarrow> rstrip_chars P (xs @ ys) = xs @ rstrip_chars P ys"
proof -
  assume a: "xs \<noteq> []" "\<not> P (last xs)"
  have "dropWhile P (rev xs) = rev xs"
    using a by (cases xs rule: rev_cases) auto
  then show ?thesis by (simp add: rstrip_chars_def dropWhile_append)
qed

lemma digit_no_space: "is_digit c \<Longrightarrow> \<not> is_space c"
  by (auto simp: is_digit_def is_space_def)

lemma strip_digits: "xs \<noteq> [] \<Longrightarrow> list_all is_digit xs \<Longrightarrow> py_strip xs = xs"
proof -
  assume a: "xs \<noteq> []" "list_all is_digit xs"
  then have "\<not> is_space (hd xs)" "\<not> is_space (last xs)"
    by (auto simp: list_all_iff intro!: digit_no_space)
  then show ?thesis using a rstrip_append [of xs is_space "[]"]
    by (cases xs) (auto simp: py_strip_def rstrip_chars_def)
qed

lemma split_on_field:
  "c \<notin> set a \<Longrightarrow> split_on c (a @ c # b) = a # split_on c b"
  by (induction a) auto

lemma split_on_last: "c \<notin> set a \<Longrightarrow> split_on c a = [a]"
  by (induction a) auto

lemma dot_no_digit: "list_all is_digit p \<Longrightarrow> CHR ''.'' \<notin> set p"
  by (auto simp: list_all_iff is_digit_def)

section \<open>Firmware versions\<close>

definition version_part :: "string \<Rightarrow> bool" where
  "version_part p \<longleftrightarrow> p \<noteq> [] \<and> list_all is_digit p \<and> length p \<le> 4300"

lemma version_part_int: "version_part p \<Longrightarrow> int_of_str p = Inr (digits_value (map digit_val p))"
proof -
  assume v: "version_part p"
  then obtain c cs where p: "p = c # cs" "is_digit c" by (cases p) (auto simp: version_part_def)
  have "c \<noteq> CHR ''-''" "c \<noteq> CHR ''+''" using p(2) by (auto simp: is_digit_def)
  then have "split_sign p = (False, p)" using p(1) by (simp add: split_sign_def)
  then show ?thesis
    using v strip_digits [of p] digits_us_digits [of p] by (simp add: version_part_def int_of_str_def)
qed

text \<open>A firmware string is read as the three numbers it starts with, leading zeros and all,
  whatever further parts follow.\<close>

lemma firmware_version_roundtrip:
  "version_part p \<Longrightarrow> version_part q \<Longrightarrow> version_part r \<Longrightarrow> rest = [] \<or> hd rest = CHR ''.'' \<Longrightarrow>
   parse_firmware_version (Some (p @ ''.'' @ q @ ''.'' @ r @ rest)) =
     Inr (Some (digits_value (map digit_val p), digits_value (map digit_val q), digits_value (map digit_val r)))"
proof -
  assume v: "version_part p" "version_part q" "version_part r" and rest: "rest = [] \<or> hd rest = CHR ''.''"
  let ?h = "p @ ''.'' @ q @ ''.'' @ r"
  define t where "t = rstrip_chars is_space rest"
  have ne: "p \<noteq> []" "r \<noteq> []" "\<not> is_space (hd p)" "\<not> is_space (last r)"
    using v by (auto simp: version_part_def list_all_iff intro!: digit_no_space)
  have "\<not> is_space (hd (?h @ rest))" "\<not> is_space (last ?h)" using ne by (cases p; simp)+
  then have s: "py_strip (?h @ rest) = ?h @ t"
    using rstrip_append [of ?h is_space rest] ne by (cases p) (simp_all add: py_strip_def t_def)
  have t: "t = [] \<or> (\<exists>u. t = CHR ''.'' # u)"
  proof (cases rest)
    case (Cons c cs)
    then show ?thesis using rest rstrip_append [of "[CHR ''.'']" is_space cs]
      by (simp add: t_def is_space_def)
  qed (simp add: t_def rstrip_chars_def)
  have d: "CHR ''.'' \<notin> set p" "CHR ''.'' \<notin> set q" "CHR ''.'' \<notin> set r"
    using v by (auto simp: version_part_def dest: dot_no_digit)
  have "\<exists>u. split_on CHR ''.'' (?h @ t) = p # q # r # u"
    using t d by (auto simp: split_on_field split_on_last)
  then show ?thesis
    using s v version_part_int by (auto simp: parse_firmware_version_def version_part_def)
qed

lemma firmware_version_roundtrip_witness:
  "parse_firmware_version (Some ''03.05.00.20534'') = Inr (Some (3, 5, 0))"
  using firmware_version_roundtrip [of "''03''" "''05''" "''00''" "''.20534''"]
  by (simp add: version_part_def is_digit_def digits_value_def digit_val_def)

section \<open>Whole numbers as text\<close>

lemma int_dec_float:
  "\<exists>z. float_of_str (int_dec n) = Inr (mk_float z (of_int n))"
proof -
  let ?m = "nat \<bar>n\<bar>"
  have p: "nat_dec ?m \<noteq> []" "list_all is_digit (nat_dec ?m)" by (simp_all add: nat_dec_nonempty nat_dec_digits)
  obtain c cs where c: "nat_dec ?m = c # cs" "is_digit c" using p by (cases "nat_dec ?m") auto
  have dig: "d \<in> set (nat_dec ?m) \<Longrightarrow> is_digit d" for d using p(2) by (auto simp: list_all_iff)
  have no: "CHR ''e'' \<notin> set (nat_dec ?m)" "CHR ''E'' \<notin> set (nat_dec ?m)" "CHR ''.'' \<notin> set (nat_dec ?m)"
    using dig [of "CHR ''e''"] dig [of "CHR ''E''"] dig [of "CHR ''.''"] by (auto simp: is_digit_def)
  have nx: "takeWhile (\<lambda>c. c \<noteq> CHR ''e'' \<and> c \<noteq> CHR ''E'') (nat_dec ?m) = nat_dec ?m"
    "dropWhile (\<lambda>c. c \<noteq> CHR ''e'' \<and> c \<noteq> CHR ''E'') (nat_dec ?m) = []"
    "takeWhile (\<lambda>c. c \<noteq> CHR ''.'') (nat_dec ?m) = nat_dec ?m"
    "dropWhile (\<lambda>c. c \<noteq> CHR ''.'') (nat_dec ?m) = []"
    using no by (auto simp: takeWhile_eq_all_conv dropWhile_eq_Nil_conv)
  have low: "map to_lower (nat_dec ?m) \<notin> {''inf'', ''infinity'', ''nan''}"
    using c by (auto simp: to_lower_def is_digit_def)
  have strip: "py_strip (int_dec n) = int_dec n"
  proof (cases "n < 0")
    case True
    have l: "\<not> is_space (last (nat_dec ?m))" using dig p(1) by (auto intro!: digit_no_space)
    have "rstrip_chars is_space ((CHR ''-'' # nat_dec ?m) @ []) = CHR ''-'' # nat_dec ?m"
      using l p(1) by (subst rstrip_append) (auto simp: rstrip_chars_def)
    then show ?thesis using True by (simp add: int_dec_def py_strip_def is_space_def)
  next
    case False
    then show ?thesis using strip_digits [OF p] by (simp add: int_dec_def)
  qed
  have sign: "split_sign (int_dec n) = (n < 0, nat_dec ?m)"
    using c by (auto simp: int_dec_def split_sign_def is_digit_def)
  have val: "digits_value (map digit_val (nat_dec ?m)) = \<bar>n\<bar>" by (simp add: nat_dec_value)
  have "decimal_of (nat_dec ?m) = Some (map digit_val (nat_dec ?m), [])"
    by (simp add: decimal_of_def span_until_def nx digits_us_digits [OF p] Let_def)
  then have "float_of_str (int_dec n) = Inr (mk_float (n < 0) (of_int n))"
    using low val
    by (simp add: float_of_str_def strip sign span_until_def nx exponent_of_def pow10_def Let_def)
  then show ?thesis by blast
qed

text \<open>A whole float sent to the inverter as text is read back as the same number.\<close>

lemma whole_number_text_roundtrip:
  "wf_float x \<Longrightarrow> is_finite x \<Longrightarrow> frat x = of_int n \<Longrightarrow>
   format_round_back frepr (VFloat x) = Inr (int_dec n) \<and>
   (\<exists>y. float_of_str (int_dec n) = Inr y \<and> feq y x)"
proof -
  assume x: "wf_float x" "is_finite x" "frat x = of_int n"
  have t: "trunc_rat (of_int n) = n" by (simp add: trunc_rat_def)
  have "int_of_float x = Inr n" using x t by (cases x) auto
  then have 1: "format_round_back frepr (VFloat x) = Inr (int_dec n)"
    using x by (cases x) (auto simp: format_round_back_def is_nan_def is_inf_def)
  obtain z where z: "float_of_str (int_dec n) = Inr (mk_float z (of_int n))" using int_dec_float by blast
  have "feq (mk_float z (of_int n)) x"
    using x by (cases x) (auto simp: mk_float_def Let_def is_double_def abs_less_iff)
  then show ?thesis using 1 z by blast
qed

lemma whole_number_text_roundtrip_witness:
  "format_round_back (\<lambda>_. []) (VFloat (FFin 5000)) = Inr ''5000''"
proof -
  have "round_to 53 (-1022) (of_int 5000 * pow2 0) = of_int 5000 * pow2 0" by (rule round_to_exact [OF refl]) auto
  then have "wf_float (FFin 5000)" using pow2_nat [of 0] pow2_mono [of 53 1024] pow2_nat [of 53] by (simp add: is_double_def)
  moreover have "int_dec 5000 = ''5000''" by (simp add: int_dec_def nat_dec.simps char_of_def bit_numeral_rec bit_0)
  ultimately show ?thesis using whole_number_text_roundtrip [of "FFin 5000" 5000 "\<lambda>_. []"] by simp
qed

section \<open>The thresholds of a switched output\<close>

text \<open>A write through the rules: a refused value is not written.\<close>

definition write_setting ::
    "(pyfloat \<Rightarrow> string) \<Rightarrow> (string \<times> string) list \<Rightarrow> string \<times> string \<Rightarrow> (string \<times> string) list" where
  "write_setting frepr d kv =
     (if validate_cross_field_write_rules frepr (fst kv) (snd kv) (Some d) = Inr None
      then dict_set (fst kv) (snd kv) d else d)"

definition output_prefix :: "string \<Rightarrow> bool" where
  "output_prefix pre \<longleftrightarrow> pre = ''DigitalOut1:PowerCtl:'' \<or> pre = ''DigitalOutputs:Customer:PowerMode:''"

definition ordered_thresholds :: "string \<Rightarrow> (string \<times> string) list \<Rightarrow> bool" where
  "ordered_thresholds pre d \<longleftrightarrow> (\<exists>a b x y. map_of d (pre @ ''OnPowerThreshold'') = Some a
     \<and> map_of d (pre @ ''OffPowerThreshold'') = Some b
     \<and> float_of_str a = Inr x \<and> float_of_str b = Inr y \<and> flt y x)"

text \<open>A text that is a number and not a NaN.\<close>

definition real_number :: "string \<Rightarrow> bool" where
  "real_number t \<longleftrightarrow> (\<exists>x. float_of_str t = Inr x \<and> x \<noteq> FNaN)"

lemma output_keys:
  assumes "output_prefix pre"
  shows "ends_with ''OnPowerThreshold'' (pre @ ''OnPowerThreshold'')"
    "\<not> ends_with ''OnPowerThreshold'' (pre @ ''OffPowerThreshold'')"
    "ends_with ''OffPowerThreshold'' (pre @ ''OffPowerThreshold'')"
    "py_replace ''OnPowerThreshold'' ''OffPowerThreshold'' (pre @ ''OnPowerThreshold'') = pre @ ''OffPowerThreshold''"
    "py_replace ''OffPowerThreshold'' ''OnPowerThreshold'' (pre @ ''OffPowerThreshold'') = pre @ ''OnPowerThreshold''"
  using assms by (auto simp: output_prefix_def ends_with_def)

lemma flt_asym_total: "x \<noteq> FNaN \<Longrightarrow> y \<noteq> FNaN \<Longrightarrow> \<not> fle x y \<Longrightarrow> flt y x"
  by (cases x; cases y) (auto simp: fle_def)

lemma write_setting_ordered:
  assumes "output_prefix pre" "ordered_thresholds pre d" "real_number (snd kv)"
  shows "ordered_thresholds pre (write_setting frepr d kv)"
proof -
  obtain k v where kv: "kv = (k, v)" by fastforce
  obtain a b x y where o: "map_of d (pre @ ''OnPowerThreshold'') = Some a"
      "map_of d (pre @ ''OffPowerThreshold'') = Some b" "float_of_str a = Inr x" "float_of_str b = Inr y" "flt y x"
    using assms(2) unfolding ordered_thresholds_def by blast
  obtain z where z: "float_of_str v = Inr z" "z \<noteq> FNaN" using assms(3) by (auto simp: real_number_def kv)
  have n: "x \<noteq> FNaN" "y \<noteq> FNaN" using o(5) flt_not_nan by blast+
  note keys = output_keys [OF assms(1)]
  consider "k = pre @ ''OnPowerThreshold''" | "k = pre @ ''OffPowerThreshold''"
    | "k \<noteq> pre @ ''OnPowerThreshold''" "k \<noteq> pre @ ''OffPowerThreshold''" by blast
  then show ?thesis
  proof cases
    case 1
    have "validate_cross_field_write_rules frepr k v (Some d) = Inr None \<Longrightarrow> flt y z"
      using keys(1,4) o z n flt_asym_total [of z y]
      unfolding validate_cross_field_write_rules_def Let_def 1 by (auto split: if_splits)
    then show ?thesis using o z unfolding kv write_setting_def ordered_thresholds_def 1 by auto
  next
    case 2
    have "validate_cross_field_write_rules frepr k v (Some d) = Inr None \<Longrightarrow> flt z x"
      using keys(2,3,5) o z n flt_asym_total [of x z]
      unfolding validate_cross_field_write_rules_def Let_def 2 by (auto split: if_splits)
    then show ?thesis using o z unfolding kv write_setting_def ordered_thresholds_def 2 by auto
  next
    case 3
    then show ?thesis using o unfolding kv write_setting_def ordered_thresholds_def by auto
  qed
qed

text \<open>Over any sequence of writes that pass the cross-field rules, the switch-on threshold of an output
  stays above its switch-off threshold, if every value written is a number and not a NaN.\<close>

lemma thresholds_stay_ordered:
  "output_prefix pre \<Longrightarrow> ordered_thresholds pre d \<Longrightarrow> \<forall>kv \<in> set kvs. real_number (snd kv) \<Longrightarrow>
   ordered_thresholds pre (foldl (write_setting frepr) d kvs)"
  by (induction kvs arbitrary: d) (simp_all add: write_setting_ordered)

lemma thresholds_stay_ordered_witness:
  "ordered_thresholds ''DigitalOut1:PowerCtl:'' (foldl (write_setting (\<lambda>_. []))
     [(''DigitalOut1:PowerCtl:OnPowerThreshold'', ''inf''), (''DigitalOut1:PowerCtl:OffPowerThreshold'', ''-inf'')]
     [(''DigitalOut1:PowerCtl:OffPowerThreshold'', ''7'')])"
proof -
  have f: "float_of_str ''inf'' = Inr FPosInf" "float_of_str ''-inf'' = Inr FNegInf"
    by (simp_all add: float_of_str_def split_sign_def py_strip_def rstrip_chars_def is_space_def to_lower_def)
  have "float_of_str ''7'' = Inr (mk_float False 7)"
    by (simp add: float_of_str_def split_sign_def py_strip_def rstrip_chars_def is_space_def to_lower_def
        span_until_def decimal_of_def exponent_of_def is_digit_def digit_val_def digits_value_def pow10_def)
  moreover have "mk_float False 7 \<noteq> FNaN" by (simp add: mk_float_def Let_def)
  ultimately have "real_number ''7''" by (auto simp: real_number_def)
  then show ?thesis
    by (intro thresholds_stay_ordered) (simp_all add: output_prefix_def ordered_thresholds_def f)
qed

text \<open>A NaN passes the rules: every comparison with it is false.\<close>

lemma nan_threshold_accepted:
  "output_prefix pre \<Longrightarrow> ordered_thresholds pre d \<Longrightarrow>
   validate_cross_field_write_rules frepr (pre @ ''OnPowerThreshold'') ''nan'' (Some d) = Inr None
   \<and> \<not> ordered_thresholds pre (write_setting frepr d (pre @ ''OnPowerThreshold'', ''nan''))"
proof -
  assume a: "output_prefix pre" "ordered_thresholds pre d"
  obtain b y where o: "map_of d (pre @ ''OffPowerThreshold'') = Some b" "float_of_str b = Inr y"
    using a(2) unfolding ordered_thresholds_def by blast
  have n: "float_of_str ''nan'' = Inr FNaN"
    by (simp add: float_of_str_def split_sign_def py_strip_def rstrip_chars_def is_space_def to_lower_def)
  have "\<not> fle FNaN y" by (simp add: fle_def)
  then have 1: "validate_cross_field_write_rules frepr (pre @ ''OnPowerThreshold'') ''nan'' (Some d) = Inr None"
    using output_keys(1,4) [OF a(1)] o n unfolding validate_cross_field_write_rules_def Let_def by simp
  have "\<not> flt z FNaN" for z by (cases z) simp_all
  then show ?thesis using 1 n unfolding write_setting_def ordered_thresholds_def by auto
qed

end
