(* ===== verification/SocController.thy ===== *)
theory SocController
  imports CoordWrites Owner1038 PowerLimits Helpers
begin

text \<open>
  The battery SoC controller (\<^verbatim>\<open>battery_soc_controller.py\<close>): the target, the control loop that
  charges or discharges towards it, the limits it restores, and the ownership of register 1038.

  One turn of the loop, up to its sleep, is one step; a call of the user runs between two
  turns. The end of the loop is two steps, because the code waits for its writes between
  clearing the task and releasing register 1038. \<open>soc_set_target\<close> is one step: the code awaits a
  notification between acquiring register 1038 and creating the task, and no other call of the
  user is interleaved there. The texts of the status are constructors.
  Notifications are not modelled. The controller has a Home Assistant and an entry.
\<close>

section \<open>Constants\<close>

definition KEEPALIVE_INTERVAL :: rat where "KEEPALIVE_INTERVAL = 15"
definition POLL_INTERVAL :: rat where "POLL_INTERVAL = 10"
definition DEFAULT_MAX_CHARGE_W :: pyfloat where "DEFAULT_MAX_CHARGE_W = FFin 5000"
definition DEFAULT_MAX_DISCHARGE_W :: pyfloat where "DEFAULT_MAX_DISCHARGE_W = FFin 5000"
definition SAFE_MIN_SOC :: pyfloat where "SAFE_MIN_SOC = FFin 10"
definition SAFE_MAX_SOC :: pyfloat where "SAFE_MAX_SOC = FFin 95"
definition MAX_BATTERY_TEMP_C :: pyfloat where "MAX_BATTERY_TEMP_C = FFin 48"
definition MAX_CONSECUTIVE_FAILURES :: nat where "MAX_CONSECUTIVE_FAILURES = 5"
definition DIVERGENCE_DEADBAND_W :: pyfloat where "DIVERGENCE_DEADBAND_W = FFin 200"
definition DIVERGENCE_CYCLES :: nat where "DIVERGENCE_CYCLES = 4"

lemmas soc_consts = KEEPALIVE_INTERVAL_def POLL_INTERVAL_def SAFE_MIN_SOC_def SAFE_MAX_SOC_def
  MAX_BATTERY_TEMP_C_def MAX_CONSECUTIVE_FAILURES_def DIVERGENCE_DEADBAND_W_def DIVERGENCE_CYCLES_def

section \<open>State\<close>

datatype soc_status = StIdle | StReadError nat | StTargetReached pyfloat | StPausedTemp pyfloat
  | StPausedState int | StCharging pyfloat pyfloat | StDischarging pyfloat pyfloat

record soc_loop =
  lp_started :: bool
  lp_was_charging :: "bool option"
  lp_read_fails :: nat
  lp_write_fails :: nat

text \<open>No task, a running loop, or a task that died before its loop began.\<close>

datatype soc_task = TaskNone | TaskRunning soc_loop | TaskDead

record 'w soc =
  sc_coord :: "'w coord"
  sc_slot :: owner_slot
  sc_limit :: pyfloat
  sc_target :: "pyfloat option"
  sc_max_charge :: pyfloat
  sc_max_discharge :: pyfloat
  sc_task :: soc_task
  sc_ending :: nat
  sc_status :: soc_status
  sc_last_write :: rat
  sc_orig_charge :: "pyfloat option"
  sc_orig_discharge :: "pyfloat option"
  sc_div_count :: nat
  sc_div_warned :: bool
  sc_div_clear :: nat

definition soc_new :: "'w coord \<Rightarrow> owner_slot \<Rightarrow> pyexc + 'w soc" where
  "soc_new c slot = bind_res (get_device_power_limit_w (Some (co_device_info c)) DEFAULT_CONTROL_LIMIT_W)
     (\<lambda>limit. Inr \<lparr>sc_coord = c, sc_slot = slot, sc_limit = limit, sc_target = None,
        sc_max_charge = clamp_control_power_w DEFAULT_MAX_CHARGE_W limit,
        sc_max_discharge = clamp_control_power_w DEFAULT_MAX_DISCHARGE_W limit,
        sc_task = TaskNone, sc_ending = 0, sc_status = StIdle, sc_last_write = 0,
        sc_orig_charge = None, sc_orig_discharge = None,
        sc_div_count = 0, sc_div_warned = False, sc_div_clear = 0\<rparr>)"

definition soc_active :: "'w soc \<Rightarrow> bool" where
  "soc_active s \<longleftrightarrow> sc_target s \<noteq> None \<and> sc_task s \<noteq> TaskNone"

definition soc_set_max_charge :: "pyfloat \<Rightarrow> 'w soc \<Rightarrow> 'w soc" where
  "soc_set_max_charge watts s = s\<lparr>sc_max_charge := clamp_control_power_w watts (sc_limit s)\<rparr>"

definition soc_set_max_discharge :: "pyfloat \<Rightarrow> 'w soc \<Rightarrow> 'w soc" where
  "soc_set_max_discharge watts s = s\<lparr>sc_max_discharge := clamp_control_power_w watts (sc_limit s)\<rparr>"

section \<open>Register input and output\<close>

definition soc_write ::
    "'w env \<Rightarrow> 'w ha_env \<Rightarrow> modbus_register \<Rightarrow> pyfloat \<Rightarrow> 'w soc \<Rightarrow> (modbus_error + unit) \<times> 'w soc" where
  "soc_write env ha r x s = (let (res, c) = async_write_register env ha r (VFloat x) ''modbus_coord'' None True
       (sc_coord s) in (res, s\<lparr>sc_coord := c\<rparr>))"

definition soc_read ::
    "'w env \<Rightarrow> modbus_register \<Rightarrow> 'w soc \<Rightarrow> (modbus_error + pyval) \<times> 'w soc" where
  "soc_read env r s = (let (res, c) = on_client (read_register env r) (sc_coord s) in (res, s\<lparr>sc_coord := c\<rparr>))"

definition soc_now :: "'w env \<Rightarrow> 'w soc \<Rightarrow> rat" where
  "soc_now env s = co_now env (sc_coord s)"

text \<open>Reads where every exception means no value.\<close>

definition read_float :: "'w env \<Rightarrow> modbus_register \<Rightarrow> 'w soc \<Rightarrow> pyfloat option \<times> 'w soc" where
  "read_float env r s = (case soc_read env r s of
     (Inl e, s1) \<Rightarrow> (None, s1)
   | (Inr v, s1) \<Rightarrow> (case float_of_val v of Inl e \<Rightarrow> None | Inr x \<Rightarrow> Some x, s1))"

definition read_soc :: "'w env \<Rightarrow> 'w soc \<Rightarrow> pyfloat option \<times> 'w soc" where
  "read_soc env = read_float env REG_BATTERY_SOC"

definition read_temp :: "'w env \<Rightarrow> 'w soc \<Rightarrow> pyfloat option \<times> 'w soc" where
  "read_temp env = read_float env REG_BATTERY_TEMPERATURE"

definition read_inv_state :: "'w env \<Rightarrow> 'w soc \<Rightarrow> int option \<times> 'w soc" where
  "read_inv_state env s = (case soc_read env REG_INVERTER_STATE s of
     (Inl e, s1) \<Rightarrow> (None, s1)
   | (Inr v, s1) \<Rightarrow> (case int_of_val v of Inl e \<Rightarrow> None | Inr n \<Rightarrow> Some n, s1))"

definition write_charge :: "'w env \<Rightarrow> 'w ha_env \<Rightarrow> pyfloat \<Rightarrow> 'w soc \<Rightarrow> bool \<times> 'w soc" where
  "write_charge env ha watts s =
     (case soc_write env ha REG_BAT_CHARGE_DC_ABS_POWER (fneg (fabs watts)) s of
        (Inr _, s1) \<Rightarrow> (True, s1\<lparr>sc_last_write := soc_now env s1\<rparr>)
      | (Inl e, s1) \<Rightarrow> (False, s1))"

definition write_discharge :: "'w env \<Rightarrow> 'w ha_env \<Rightarrow> pyfloat \<Rightarrow> 'w soc \<Rightarrow> bool \<times> 'w soc" where
  "write_discharge env ha watts s =
     (case soc_write env ha REG_BAT_CHARGE_DC_ABS_POWER (fabs watts) s of
        (Inr _, s1) \<Rightarrow> (True, snd (soc_write env ha REG_BAT_MAX_CHARGE_LIMIT (FFin 0)
                               (s1\<lparr>sc_last_write := soc_now env s1\<rparr>)))
      | (Inl e, s1) \<Rightarrow> (False, s1))"

text \<open>Back to automatic: the original limits where they were read, else the device's limit.\<close>

definition write_normal :: "'w env \<Rightarrow> 'w ha_env \<Rightarrow> 'w soc \<Rightarrow> 'w soc" where
  "write_normal env ha s =
     (let cl = co_client (sc_coord s)
      in if client_closing env cl \<or> \<not> client_connected env cl then s
         else let charge = (case sc_orig_charge s of Some x \<Rightarrow> x | None \<Rightarrow> sc_limit s);
                  discharge = (case sc_orig_discharge s of Some x \<Rightarrow> x | None \<Rightarrow> sc_limit s);
                  s1 = snd (soc_write env ha REG_BAT_CHARGE_DC_ABS_POWER (FFin 0) s);
                  s2 = snd (soc_write env ha REG_BAT_MAX_CHARGE_LIMIT charge s1);
                  s3 = snd (soc_write env ha REG_BAT_MAX_DISCHARGE_LIMIT discharge s2)
           in s3\<lparr>sc_orig_charge := None, sc_orig_discharge := None\<rparr>)"

text \<open>
  The limits before control. The client's errors, time-outs, type and value errors are caught;
  any other exception ends the task before its loop.
\<close>

definition snapshot_caught :: "modbus_error \<Rightarrow> bool" where
  "snapshot_caught e = (case e of PyExc x \<Rightarrow> x \<in> {TypeError, ValueError} | _ \<Rightarrow> True)"

definition snapshot_one ::
    "'w env \<Rightarrow> modbus_register \<Rightarrow> (pyfloat \<Rightarrow> 'w soc \<Rightarrow> 'w soc) \<Rightarrow> 'w soc \<Rightarrow> bool \<times> 'w soc" where
  "snapshot_one env r keep s = (case soc_read env r s of
     (Inl e, s1) \<Rightarrow> (snapshot_caught e, s1)
   | (Inr v, s1) \<Rightarrow> (case float_of_val v of
       Inl e \<Rightarrow> (snapshot_caught (PyExc e), s1)
     | Inr x \<Rightarrow> (True, if is_nan x \<or> is_inf x then s1 else keep x s1)))"

definition snapshot_limits :: "'w env \<Rightarrow> 'w soc \<Rightarrow> bool \<times> 'w soc" where
  "snapshot_limits env s =
     (case snapshot_one env REG_BAT_MAX_CHARGE_LIMIT (\<lambda>x s. s\<lparr>sc_orig_charge := Some x\<rparr>) s of
        (False, s1) \<Rightarrow> (False, s1)
      | (True, s1) \<Rightarrow>
          snapshot_one env REG_BAT_MAX_DISCHARGE_LIMIT (\<lambda>x s. s\<lparr>sc_orig_discharge := Some x\<rparr>) s1)"

section \<open>Divergence\<close>

definition read_battery_power :: "'w soc \<Rightarrow> pyexc + pyfloat option" where
  "read_battery_power s =
     (if \<not> co_last_update_success (sc_coord s) then Inr None
      else case co_data (sc_coord s) of
        None \<Rightarrow> Inr None
      | Some data \<Rightarrow> optional_float (case map_of data ''battery_cd_power'' of None \<Rightarrow> VNone | Some v \<Rightarrow> v))"

text \<open>An exception of the diagnostic leaves the counters as they are.\<close>

definition check_divergence :: "bool \<Rightarrow> bool \<Rightarrow> 'w soc \<Rightarrow> 'w soc" where
  "check_divergence need_charge need_discharge s = (case read_battery_power s of
     Inl e \<Rightarrow> s
   | Inr None \<Rightarrow> s\<lparr>sc_div_count := 0, sc_div_clear := 0\<rparr>
   | Inr (Some watts) \<Rightarrow>
       if \<not> (need_charge \<and> flt DIVERGENCE_DEADBAND_W watts
             \<or> need_discharge \<and> flt watts (fneg DIVERGENCE_DEADBAND_W))
       then (if sc_div_warned s
             then if DIVERGENCE_CYCLES \<le> sc_div_clear s + 1
                  then s\<lparr>sc_div_count := 0, sc_div_warned := False, sc_div_clear := 0\<rparr>
                  else s\<lparr>sc_div_count := 0, sc_div_clear := sc_div_clear s + 1\<rparr>
             else s\<lparr>sc_div_count := 0\<rparr>)
       else s\<lparr>sc_div_clear := 0, sc_div_count := sc_div_count s + 1,
              sc_div_warned := (sc_div_warned s \<or> DIVERGENCE_CYCLES \<le> sc_div_count s + 1)\<rparr>)"

section \<open>The control loop\<close>

datatype cycle_result = CycleSleep rat soc_loop | CycleEnd

text \<open>The seconds to the next turn after a control action.\<close>

definition cycle_pause :: "'w env \<Rightarrow> 'w soc \<Rightarrow> rat" where
  "cycle_pause env s = max 1
     (if 0 < sc_last_write s
      then min POLL_INTERVAL (KEEPALIVE_INTERVAL - (soc_now env s - sc_last_write s) - 1) else 2)"

definition target_reached :: "pyfloat \<Rightarrow> pyfloat \<Rightarrow> bool option \<Rightarrow> bool" where
  "target_reached soc target was_charging =
     (if \<not> flt soc target \<and> \<not> flt target soc then True
      else if was_charging = Some True \<and> fle target soc then True
      else was_charging = Some False \<and> fle soc target)"

text \<open>The control part of a turn, after the safety checks.\<close>

definition cycle_control ::
    "'w env \<Rightarrow> 'w ha_env \<Rightarrow> pyfloat \<Rightarrow> pyfloat \<Rightarrow> soc_loop \<Rightarrow> 'w soc \<Rightarrow> cycle_result \<times> 'w soc" where
  "cycle_control env ha soc target lp s =
     (let need_charge = flt soc target;
          need_discharge = flt target soc;
          lp1 = (if need_charge then lp\<lparr>lp_was_charging := Some True\<rparr>
                 else if need_discharge then lp\<lparr>lp_was_charging := Some False\<rparr> else lp);
          (ok, s1) = (if need_charge
             then write_charge env ha (sc_max_charge s) (s\<lparr>sc_status := StCharging soc target\<rparr>)
             else if need_discharge
             then write_discharge env ha (sc_max_discharge s) (s\<lparr>sc_status := StDischarging soc target\<rparr>)
             else (False, s));
          lp2 = lp1\<lparr>lp_write_fails := (if ok then 0 else lp_write_fails lp1 + 1)\<rparr>
      in if \<not> ok \<and> MAX_CONSECUTIVE_FAILURES \<le> lp_write_fails lp2 then (CycleEnd, s1)
         else let s2 = (if ok then check_divergence need_charge need_discharge s1
                        else s1\<lparr>sc_div_count := 0, sc_div_clear := 0\<rparr>)
              in (CycleSleep (cycle_pause env s2) lp2, s2))"

definition cycle_checked ::
    "'w env \<Rightarrow> 'w ha_env \<Rightarrow> pyfloat \<Rightarrow> pyfloat \<Rightarrow> soc_loop \<Rightarrow> 'w soc \<Rightarrow> cycle_result \<times> 'w soc" where
  "cycle_checked env ha soc target lp s =
     (let (temp, s1) = read_temp env s
      in case (case temp of Some t \<Rightarrow> if flt MAX_BATTERY_TEMP_C t then Some t else None | None \<Rightarrow> None) of
           Some t \<Rightarrow> (CycleSleep 30 lp, write_normal env ha (s1\<lparr>sc_status := StPausedTemp t\<rparr>))
         | None \<Rightarrow>
             (let (state, s2) = read_inv_state env s1
              in case state of
                   Some n \<Rightarrow> if n \<in> {0, 1, 10, 15}
                      then (CycleSleep POLL_INTERVAL lp, s2\<lparr>sc_status := StPausedState n\<rparr>)
                      else cycle_control env ha soc target lp s2
                 | None \<Rightarrow> cycle_control env ha soc target lp s2))"

definition soc_cycle ::
    "'w env \<Rightarrow> 'w ha_env \<Rightarrow> soc_loop \<Rightarrow> 'w soc \<Rightarrow> cycle_result \<times> 'w soc" where
  "soc_cycle env ha lp s = (case sc_target s of
     None \<Rightarrow> (CycleEnd, s)
   | Some _ \<Rightarrow>
       (let (soc0, s1) = read_soc env s
        in case (case soc0 of Some x \<Rightarrow> if is_nan x \<or> is_inf x then None else Some x | None \<Rightarrow> None) of
             None \<Rightarrow>
               (let n = lp_read_fails lp + 1; s2 = s1\<lparr>sc_status := StReadError n\<rparr>
                in if MAX_CONSECUTIVE_FAILURES \<le> n then (CycleEnd, s2)
                   else (CycleSleep POLL_INTERVAL (lp\<lparr>lp_read_fails := n\<rparr>), s2))
           | Some soc \<Rightarrow>
               (let lp1 = lp\<lparr>lp_read_fails := 0\<rparr>; target = the (sc_target s1)
                in if target_reached soc target (lp_was_charging lp1)
                   then (CycleEnd, s1\<lparr>sc_status := StTargetReached soc\<rparr>)
                   else cycle_checked env ha soc target lp1 s1)))"

section \<open>The task\<close>

definition is_error_status :: "soc_status \<Rightarrow> bool" where
  "is_error_status st = (case st of StReadError _ \<Rightarrow> True | _ \<Rightarrow> False)"

text \<open>The first half of the end of the loop, before it waits for its writes.\<close>

definition loop_exit :: "'w soc \<Rightarrow> 'w soc" where
  "loop_exit s = s\<lparr>sc_target := None, sc_task := TaskNone,
     sc_status := (if is_error_status (sc_status s) then sc_status s else StIdle),
     sc_div_count := 0, sc_div_clear := 0, sc_div_warned := False, sc_ending := sc_ending s + 1\<rparr>"

text \<open>The second half: the writes and the release of register 1038.\<close>

definition loop_release :: "'w env \<Rightarrow> 'w ha_env \<Rightarrow> 'w soc \<Rightarrow> 'w soc" where
  "loop_release env ha s =
     (let s1 = write_normal env ha s
      in s1\<lparr>sc_slot := release_reg_1038 OWNER_SOC_CONTROLLER (sc_slot s1), sc_ending := sc_ending s1 - 1\<rparr>)"

text \<open>One turn of the running task; a new task reads the limits first.\<close>

definition soc_tick :: "'w env \<Rightarrow> 'w ha_env \<Rightarrow> 'w soc \<Rightarrow> 'w soc" where
  "soc_tick env ha s = (case sc_task s of
     TaskRunning lp \<Rightarrow>
       (let (ok, s1) = (if lp_started lp then (True, s) else snapshot_limits env s)
        in if \<not> ok then s1\<lparr>sc_task := TaskDead\<rparr>
           else (case soc_cycle env ha (lp\<lparr>lp_started := True\<rparr>) s1 of
             (CycleSleep t lp1, s2) \<Rightarrow> s2\<lparr>sc_task := TaskRunning lp1\<rparr>
           | (CycleEnd, s2) \<Rightarrow> loop_exit s2))
   | _ \<Rightarrow> s)"

text \<open>
  Stop: a running loop that has begun is cancelled at its sleep and runs to its end; then the
  registers are reset again and register 1038 is released.
\<close>

definition soc_stop :: "'w env \<Rightarrow> 'w ha_env \<Rightarrow> 'w soc \<Rightarrow> 'w soc" where
  "soc_stop env ha s =
     (let s1 = (case sc_task s of
          TaskRunning lp \<Rightarrow> if lp_started lp then loop_release env ha (loop_exit s) else s
        | _ \<Rightarrow> s);
          s2 = write_normal env ha (s1\<lparr>sc_task := TaskNone, sc_target := None, sc_status := StIdle\<rparr>)
      in s2\<lparr>sc_slot := release_reg_1038 OWNER_SOC_CONTROLLER (sc_slot s2)\<rparr>)"

definition new_loop :: soc_loop where
  "new_loop = \<lparr>lp_started = False, lp_was_charging = None, lp_read_fails = 0, lp_write_fails = 0\<rparr>"

definition soc_set_target ::
    "'w env \<Rightarrow> 'w ha_env \<Rightarrow> bool \<Rightarrow> pyfloat option \<Rightarrow> 'w soc \<Rightarrow> (owner_error + unit) \<times> 'w soc" where
  "soc_set_target env ha test_running soc0 s =
     (if soc0 \<noteq> None \<and> test_running then (Inr (), s)
      else
        let soc1 = (case soc0 of Some x \<Rightarrow> if flt x SAFE_MIN_SOC then None else Some x | None \<Rightarrow> None);
            soc = map_option (\<lambda>x. py_max SAFE_MIN_SOC (py_min SAFE_MAX_SOC x)) soc1;
            s1 = s\<lparr>sc_target := soc\<rparr>
        in case soc of
             None \<Rightarrow> (Inr (), soc_stop env ha s1)
           | Some _ \<Rightarrow> (case acquire_or_raise OWNER_SOC_CONTROLLER (sc_slot s1) of
               (Inl e, slot) \<Rightarrow> (Inl e, s1\<lparr>sc_slot := slot\<rparr>)
             | (Inr _, slot) \<Rightarrow>
                 (let s2 = s1\<lparr>sc_slot := slot\<rparr>
                  in (Inr (), case sc_task s2 of
                        TaskRunning _ \<Rightarrow> s2 | _ \<Rightarrow> s2\<lparr>sc_task := TaskRunning new_loop\<rparr>))))"

end
