(* ===== verification/SocProofs.thy ===== *)
theory SocProofs
  imports SocController
begin

text \<open>
  The SoC controller over sequences of events: when it owns register 1038, what it commands,
  when it gives up, and what it leaves in the registers.
\<close>

section \<open>The parts of the state an operation keeps\<close>

text \<open>Reads and writes change nothing but the coordinator.\<close>

lemma soc_write_state: "soc_write env ha r x s = (res, s') \<Longrightarrow> s' = s\<lparr>sc_coord := sc_coord s'\<rparr>"
  by (auto simp: soc_write_def split: prod.splits)

lemma soc_read_state: "soc_read env r s = (res, s') \<Longrightarrow> s' = s\<lparr>sc_coord := sc_coord s'\<rparr>"
  by (auto simp: soc_read_def split: prod.splits)

definition soc_keeps :: "'w soc \<Rightarrow> 'w soc \<Rightarrow> bool" where
  "soc_keeps s s' \<longleftrightarrow> sc_slot s' = sc_slot s \<and> sc_task s' = sc_task s \<and> sc_ending s' = sc_ending s
     \<and> sc_target s' = sc_target s \<and> sc_limit s' = sc_limit s
     \<and> sc_max_charge s' = sc_max_charge s \<and> sc_max_discharge s' = sc_max_discharge s"

lemma soc_keeps_refl [simp, intro]: "soc_keeps s s"
  by (simp add: soc_keeps_def)

lemma soc_keeps_trans: "soc_keeps s t \<Longrightarrow> soc_keeps t u \<Longrightarrow> soc_keeps s u"
  by (simp add: soc_keeps_def)

lemma soc_keeps_update [simp]:
  "soc_keeps s (t\<lparr>sc_coord := c\<rparr>) = soc_keeps s t" "soc_keeps s (t\<lparr>sc_status := st\<rparr>) = soc_keeps s t"
  "soc_keeps s (t\<lparr>sc_last_write := x\<rparr>) = soc_keeps s t" "soc_keeps s (t\<lparr>sc_orig_charge := y\<rparr>) = soc_keeps s t"
  "soc_keeps s (t\<lparr>sc_orig_discharge := y\<rparr>) = soc_keeps s t" "soc_keeps s (t\<lparr>sc_div_count := n\<rparr>) = soc_keeps s t"
  "soc_keeps s (t\<lparr>sc_div_warned := b\<rparr>) = soc_keeps s t" "soc_keeps s (t\<lparr>sc_div_clear := n\<rparr>) = soc_keeps s t"
  by (simp_all add: soc_keeps_def)

lemma soc_io_keeps [simp]:
  "soc_keeps t (snd (soc_write env ha r x s)) = soc_keeps t s"
  "soc_keeps t (snd (soc_read env r s)) = soc_keeps t s"
  by (simp_all add: soc_write_def soc_read_def split_beta)

lemma read_keeps [simp]:
  "soc_keeps t (snd (read_float env r s)) = soc_keeps t s"
  "soc_keeps t (snd (read_inv_state env s)) = soc_keeps t s"
  by (simp_all add: read_float_def read_inv_state_def split_beta split: sum.split)

lemma write_normal_keeps [simp]: "soc_keeps t (write_normal env ha s) = soc_keeps t s"
  by (simp add: write_normal_def Let_def)

lemma write_command_keeps [simp]:
  "soc_keeps t (snd (write_charge env ha w s)) = soc_keeps t s"
  "soc_keeps t (snd (write_discharge env ha w s)) = soc_keeps t s"
  by (simp_all add: write_charge_def write_discharge_def split_beta split: sum.split)

lemma snapshot_one_keeps:
  assumes "\<And>x u. soc_keeps t (keep x u) = soc_keeps t u"
  shows "soc_keeps t (snd (snapshot_one env r keep s)) = soc_keeps t s"
  by (simp add: snapshot_one_def assms split_beta split: sum.split)

lemma snapshot_keeps [simp]: "soc_keeps t (snd (snapshot_limits env s)) = soc_keeps t s"
  by (simp add: snapshot_limits_def snapshot_one_keeps split_beta split: bool.split)

lemma divergence_keeps [simp]: "soc_keeps t (check_divergence a b s) = soc_keeps t s"
  by (simp add: check_divergence_def split: option.split sum.split)

lemma control_keeps [simp]: "soc_keeps t (snd (cycle_control env ha soc target lp s)) = soc_keeps t s"
  by (simp add: cycle_control_def Let_def split_beta)

lemma checked_keeps [simp]: "soc_keeps t (snd (cycle_checked env ha soc target lp s)) = soc_keeps t s"
  by (simp add: cycle_checked_def Let_def read_temp_def split_beta split: option.split)

lemma cycle_keeps [simp]: "soc_keeps t (snd (soc_cycle env ha lp s)) = soc_keeps t s"
  by (simp add: soc_cycle_def Let_def read_soc_def split_beta split: option.split)

section \<open>Ownership of register 1038\<close>

text \<open>
  The events: the user's calls, the turns of the task and the second half of its end, other
  features acquiring and releasing, and any change of the coordinator by other tasks.
\<close>

datatype 'w soc_event = SetTarget bool "pyfloat option" | StopSoc | Tick | LoopRelease
  | SetCharge pyfloat | SetDischarge pyfloat | OtherAcquire string | OtherRelease string
  | CoordChange "'w coord \<Rightarrow> 'w coord"

fun soc_step :: "'w env \<Rightarrow> 'w ha_env \<Rightarrow> 'w soc \<Rightarrow> 'w soc_event \<Rightarrow> 'w soc" where
  "soc_step env ha s (SetTarget t x) = snd (soc_set_target env ha t x s)"
| "soc_step env ha s StopSoc = soc_stop env ha s"
| "soc_step env ha s Tick = soc_tick env ha s"
| "soc_step env ha s LoopRelease = (if 0 < sc_ending s then loop_release env ha s else s)"
| "soc_step env ha s (SetCharge w) = soc_set_max_charge w s"
| "soc_step env ha s (SetDischarge w) = soc_set_max_discharge w s"
| "soc_step env ha s (OtherAcquire f) =
     (if f = OWNER_SOC_CONTROLLER then s else s\<lparr>sc_slot := snd (acquire_or_raise f (sc_slot s))\<rparr>)"
| "soc_step env ha s (OtherRelease f) =
     (if f = OWNER_SOC_CONTROLLER then s else s\<lparr>sc_slot := release_reg_1038 f (sc_slot s)\<rparr>)"
| "soc_step env ha s (CoordChange f) = s\<lparr>sc_coord := f (sc_coord s)\<rparr>"

definition owns_1038 :: "'w soc \<Rightarrow> bool" where
  "owns_1038 s \<longleftrightarrow> get_owner_manager (sc_slot s) = Some OWNER_SOC_CONTROLLER"

definition soc_running :: "'w soc \<Rightarrow> bool" where
  "soc_running s \<longleftrightarrow> (\<exists>lp. sc_task s = TaskRunning lp)"

definition soc_inv :: "'w soc \<Rightarrow> bool" where
  "soc_inv s \<longleftrightarrow> (soc_running s \<longrightarrow> owns_1038 s \<and> sc_ending s = 0)"

lemma write_normal_fields [simp]:
  "sc_slot (write_normal env ha s) = sc_slot s" "sc_task (write_normal env ha s) = sc_task s"
  "sc_ending (write_normal env ha s) = sc_ending s" "sc_target (write_normal env ha s) = sc_target s"
  "sc_limit (write_normal env ha s) = sc_limit s" "sc_max_charge (write_normal env ha s) = sc_max_charge s"
  "sc_max_discharge (write_normal env ha s) = sc_max_discharge s"
  using write_normal_keeps [of s env ha s] by (simp_all add: soc_keeps_def)

lemma tick_cases:
  obtains (idle) "\<not> soc_running s" "soc_tick env ha s = s"
  | (dead) s1 where "soc_running s" "soc_keeps s s1" "soc_tick env ha s = s1\<lparr>sc_task := TaskDead\<rparr>"
  | (again) s1 lp where "soc_running s" "soc_keeps s s1" "soc_tick env ha s = s1\<lparr>sc_task := TaskRunning lp\<rparr>"
  | (exit) s1 where "soc_running s" "soc_keeps s s1" "soc_tick env ha s = loop_exit s1"
proof (cases "sc_task s")
  case (TaskRunning lp)
  obtain ok s1 where k: "(if lp_started lp then (True, s) else snapshot_limits env s) = (ok, s1)" by fastforce
  have s1: "soc_keeps s s1"
    using k by (cases "lp_started lp") (simp, metis snapshot_keeps soc_keeps_refl snd_conv)
  obtain r s2 where c: "soc_cycle env ha (lp\<lparr>lp_started := True\<rparr>) s1 = (r, s2)" by fastforce
  have s2: "soc_keeps s s2"
    using s1 cycle_keeps [of s env ha "lp\<lparr>lp_started := True\<rparr>" s1] c by simp
  have run: "soc_running s" using TaskRunning by (simp add: soc_running_def)
  show ?thesis
  proof (cases ok)
    case False
    then show ?thesis using dead [OF run s1] TaskRunning k by (simp add: soc_tick_def)
  next
    case True
    then show ?thesis using again [OF run s2] exit [OF run s2] TaskRunning k c
      by (cases r) (simp_all add: soc_tick_def)
  qed
qed (auto intro!: idle simp: soc_running_def soc_tick_def)

lemma loop_release_slot:
  "get_owner_manager (sc_slot (loop_release env ha s)) =
     (if owns_1038 s then None else get_owner_manager (sc_slot s))"
  by (simp add: loop_release_def Let_def release_owner_slot owns_1038_def)

lemma stop_not_running: "\<not> soc_running (soc_stop env ha s)"
  by (simp add: soc_stop_def Let_def soc_running_def)

lemma set_target_inv:
  assumes "soc_inv s" "x \<noteq> None \<longrightarrow> sc_ending s = 0"
  shows "soc_inv (snd (soc_set_target env ha t x s))"
proof -
  define y where "y = map_option (\<lambda>x. py_max SAFE_MIN_SOC (py_min SAFE_MAX_SOC x))
    (case x of Some x \<Rightarrow> if flt x SAFE_MIN_SOC then None else Some x | None \<Rightarrow> None)"
  obtain e slot where a: "acquire_or_raise OWNER_SOC_CONTROLLER (sc_slot s) = (e, slot)" by fastforce
  have own: "get_owner_manager slot = (if get_owner_manager (sc_slot s) \<in> {None, Some OWNER_SOC_CONTROLLER}
      then Some OWNER_SOC_CONTROLLER else get_owner_manager (sc_slot s))"
    and e: "e = Inr () \<longleftrightarrow> get_owner_manager (sc_slot s) \<in> {None, Some OWNER_SOC_CONTROLLER}"
    using acquire_owner [of OWNER_SOC_CONTROLLER "sc_slot s"] acquire_ok_iff [of OWNER_SOC_CONTROLLER "sc_slot s"] a
    by simp_all
  consider "x \<noteq> None \<and> t" | "\<not> (x \<noteq> None \<and> t)" "y = None" | z where "\<not> (x \<noteq> None \<and> t)" "y = Some z"
    by (cases y) blast+
  then show ?thesis
  proof cases
    case 1
    then show ?thesis using assms(1) by (simp add: soc_set_target_def)
  next
    case 2
    then have "snd (soc_set_target env ha t x s) = soc_stop env ha (s\<lparr>sc_target := None\<rparr>)"
      unfolding soc_set_target_def Let_def y_def [symmetric] by auto
    then show ?thesis using stop_not_running by (auto simp: soc_inv_def)
  next
    case 3
    then have "x \<noteq> None" by (cases x) (auto simp: y_def)
    then have z: "sc_ending s = 0" using assms(2) by simp
    have r: "snd (soc_set_target env ha t x s) = (case e of
        Inl _ \<Rightarrow> s\<lparr>sc_target := y, sc_slot := slot\<rparr>
      | Inr _ \<Rightarrow> (case sc_task s of TaskRunning _ \<Rightarrow> s\<lparr>sc_target := y, sc_slot := slot\<rparr>
          | _ \<Rightarrow> s\<lparr>sc_target := y, sc_slot := slot, sc_task := TaskRunning new_loop\<rparr>))"
      using 3 a unfolding soc_set_target_def Let_def y_def [symmetric]
      by (auto split: sum.split soc_task.split)
    show ?thesis
      unfolding r using assms(1) z own e
      by (cases e) (auto simp: soc_inv_def soc_running_def owns_1038_def split: soc_task.split if_splits)
  qed
qed

lemma other_owner:
  assumes "f \<noteq> OWNER_SOC_CONTROLLER"
  shows "owns_1038 (s\<lparr>sc_slot := snd (acquire_or_raise f (sc_slot s))\<rparr>) = owns_1038 s"
    "owns_1038 (s\<lparr>sc_slot := release_reg_1038 f (sc_slot s)\<rparr>) = owns_1038 s"
  using assms acquire_owner [of f "sc_slot s"] release_owner_slot [of f "sc_slot s"]
  by (auto simp: owns_1038_def)

definition calm :: "'w soc \<Rightarrow> 'w soc_event \<Rightarrow> bool" where
  "calm s ev = (case ev of SetTarget _ (Some _) \<Rightarrow> sc_ending s = 0 | _ \<Rightarrow> True)"

lemma soc_step_inv:
  assumes "soc_inv s" "calm s ev"
  shows "soc_inv (soc_step env ha s ev)"
proof (cases ev)
  case (SetTarget t x)
  then show ?thesis using set_target_inv [OF assms(1)] assms(2)
    by (cases x) (auto simp: calm_def)
next
  case StopSoc
  then show ?thesis using stop_not_running by (auto simp: soc_inv_def)
next
  case Tick
  show ?thesis
    using assms(1)
    by (cases rule: tick_cases [of s env ha])
       (auto simp: Tick soc_inv_def soc_running_def owns_1038_def soc_keeps_def loop_exit_def)
next
  case LoopRelease
  then show ?thesis using assms(1)
    by (auto simp: soc_inv_def soc_running_def loop_release_def Let_def)
next
  case (OtherAcquire f)
  then show ?thesis using assms(1) other_owner(1) [of f s]
    by (auto simp: soc_inv_def soc_running_def)
next
  case (OtherRelease f)
  then show ?thesis using assms(1) other_owner(2) [of f s]
    by (auto simp: soc_inv_def soc_running_def)
qed (use assms(1) in \<open>auto simp: soc_inv_def soc_running_def owns_1038_def soc_set_max_charge_def
    soc_set_max_discharge_def\<close>)

text \<open>A run of events in which no new target is set while an old loop still waits for its last writes.\<close>

fun calm_run :: "'w env \<Rightarrow> 'w ha_env \<Rightarrow> 'w soc \<Rightarrow> 'w soc_event list \<Rightarrow> bool" where
  "calm_run env ha s [] = True"
| "calm_run env ha s (e # es) = (calm s e \<and> calm_run env ha (soc_step env ha s e) es)"

lemma calm_run_inv: "soc_inv s \<Longrightarrow> calm_run env ha s es \<Longrightarrow> soc_inv (foldl (soc_step env ha) s es)"
  by (induction es arbitrary: s) (auto intro: soc_step_inv)

lemma soc_new_inv: "soc_new c slot = Inr s \<Longrightarrow> soc_inv s"
  by (auto simp: soc_new_def bind_res_Inr_iff soc_inv_def soc_running_def)

text \<open>C33: The control loop only runs while the controller owns register 1038: over any sequence of targets,
  stops, turns of the loop, power settings, polls and acquires and releases by other features,
  in any order, provided that no new target is set while a loop that has just ended still
  waits for its last writes.\<close>

theorem soc_loop_owns_register:
  "soc_new c slot = Inr s \<Longrightarrow> calm_run env ha s es \<Longrightarrow>
   soc_running (foldl (soc_step env ha) s es) \<Longrightarrow> owns_1038 (foldl (soc_step env ha) s es)"
  by (drule (1) calm_run_inv [OF soc_new_inv]) (simp add: soc_inv_def)

lemma test_soc_new: "\<exists>s. soc_new (test_coord (\<lambda>_. 0)) None = Inr s"
  by (simp add: soc_new_def get_device_power_limit_w_def test_coord_def coord_new_def raw_power_limit_def
      to_finite_positive_def)

theorem soc_loop_owns_register_witness:
  "\<exists>s. soc_new (test_coord (\<lambda>_. 0)) None = Inr s
     \<and> owns_1038 (foldl (soc_step mem_env test_ha) s [SetTarget False (Some (FFin 50)), OtherRelease OWNER_CHARGE_BLOCK])"
proof -
  obtain s where s: "soc_new (test_coord (\<lambda>_. 0)) None = Inr s" using test_soc_new by blast
  then have f: "sc_slot s = None" "sc_task s = TaskNone" "sc_ending s = 0"
    by (auto simp: soc_new_def bind_res_Inr_iff)
  let ?es = "[SetTarget False (Some (FFin 50)), OtherRelease OWNER_CHARGE_BLOCK] :: (nat \<Rightarrow> 16 word) soc_event list"
  have "calm_run mem_env test_ha s ?es" using f(3) by (simp add: calm_def)
  moreover have "soc_running (foldl (soc_step mem_env test_ha) s ?es)"
    by (simp add: soc_set_target_def f acquire_or_raise_def try_acquire_def get_owner_manager_def soc_running_def
        soc_consts OWNER_CHARGE_BLOCK_def OWNER_SOC_CONTROLLER_def)
  ultimately show ?thesis using soc_loop_owns_register [OF s] s by blast
qed

text \<open>Without that proviso the ownership is lost. The end of a loop clears the task, then waits for its
  writes, then releases register 1038. A new target set during the wait starts a new loop, and
  the release of the old one takes the register away from it: the new loop controls the battery
  while nobody owns the register.\<close>

lemma retarget_during_exit_loses_ownership:
  "owns_1038 s \<Longrightarrow> fle SAFE_MIN_SOC x \<Longrightarrow> sc_ending s = 0 \<Longrightarrow>
   let s' = foldl (soc_step env ha) (loop_exit s) [SetTarget False (Some x), LoopRelease]
   in soc_running s' \<and> get_owner_manager (sc_slot s') = None"
proof -
  assume o: "owns_1038 s" and x: "fle SAFE_MIN_SOC x" and e: "sc_ending s = 0"
  have "\<not> flt x SAFE_MIN_SOC" using x flt_fle_contra by blast
  then obtain y where y: "snd (soc_set_target env ha False (Some x) (loop_exit s)) = (loop_exit s)
      \<lparr>sc_target := Some y, sc_slot := snd (acquire_or_raise OWNER_SOC_CONTROLLER (sc_slot s)),
       sc_task := TaskRunning new_loop\<rparr>"
    using o acquire_ok_iff [of OWNER_SOC_CONTROLLER "sc_slot s"]
    by (cases "acquire_or_raise OWNER_SOC_CONTROLLER (sc_slot s)")
       (auto simp: soc_set_target_def loop_exit_def owns_1038_def Let_def)
  have a: "get_owner_manager (snd (acquire_or_raise OWNER_SOC_CONTROLLER (sc_slot s))) = Some OWNER_SOC_CONTROLLER"
    using o acquire_owner [of OWNER_SOC_CONTROLLER "sc_slot s"] by (simp add: owns_1038_def)
  show ?thesis
    using y a by (simp add: Let_def loop_exit_def soc_running_def loop_release_def release_owner_slot)
qed

lemma retarget_during_exit_loses_ownership_witness:
  "\<exists>s. soc_running (foldl (soc_step mem_env test_ha) (loop_exit s) [SetTarget False (Some (FFin 50)), LoopRelease])
     \<and> \<not> owns_1038 (foldl (soc_step mem_env test_ha) (loop_exit s) [SetTarget False (Some (FFin 50)), LoopRelease])"
proof -
  obtain s0 where s0: "soc_new (test_coord (\<lambda>_. 0)) None = Inr s0" using test_soc_new by blast
  define s where "s = s0\<lparr>sc_slot := Some (Some OWNER_SOC_CONTROLLER)\<rparr>"
  have 1: "owns_1038 s" by (simp add: s_def owns_1038_def get_owner_manager_def)
  have 2: "fle SAFE_MIN_SOC (FFin 50)" by (simp add: SAFE_MIN_SOC_def fle_def)
  have 3: "sc_ending s = 0" using s0 by (auto simp: s_def soc_new_def bind_res_Inr_iff)
  show ?thesis
    using retarget_during_exit_loses_ownership [OF 1 2 3, of mem_env test_ha]
    by (auto simp: Let_def owns_1038_def intro!: exI [of _ s])
qed

end
