(* ===== verification/SocCommands.thy ===== *)
theory SocCommands
  imports SocProofs
begin

text \<open>
  What the SoC controller writes: the direction of every command of a turn, the range of every
  command of a run, the end of the loop on a dead device, and the limits a stop leaves behind.
\<close>

section \<open>Requests sent to the device\<close>

text \<open>Everything sent between two states of the coordinator satisfies a predicate.\<close>

type_synonym sent_request = "nat \<times> 16 word list \<times> write_result"

definition sent_all :: "(sent_request \<Rightarrow> bool) \<Rightarrow> 'w coord \<Rightarrow> 'w coord \<Rightarrow> bool" where
  "sent_all P c c' \<longleftrightarrow> (\<exists>ws. writes (co_client c') = ws @ writes (co_client c) \<and> list_all P ws)"

lemma sent_all_refl: "writes (co_client c') = writes (co_client c) \<Longrightarrow> sent_all P c c'"
  unfolding sent_all_def by (rule exI [of _ "[]"]) simp

lemma sent_all_trans: "sent_all P c d \<Longrightarrow> sent_all P d e \<Longrightarrow> sent_all P c e"
  unfolding sent_all_def
proof (elim exE conjE)
  fix es fs
  assume "writes (co_client d) = es @ writes (co_client c)" "list_all P es"
    "writes (co_client e) = fs @ writes (co_client d)" "list_all P fs"
  then show "\<exists>ws. writes (co_client e) = ws @ writes (co_client c) \<and> list_all P ws"
    by (intro exI [of _ "fs @ es"]) simp
qed

lemma sent_all_mono: "sent_all P c d \<Longrightarrow> (\<And>q. P q \<Longrightarrow> Q q) \<Longrightarrow> sent_all Q c d"
  unfolding sent_all_def list_all_iff by blast

lemma sent_none: "sent_all (\<lambda>_. False) c d \<Longrightarrow> writes (co_client d) = writes (co_client c)"
  unfolding sent_all_def by (metis append_Nil list.pred_inject(2) neq_Nil_conv)

text \<open>A command: a request to the register's address with the encoding of the value.\<close>

definition command :: "modbus_register \<Rightarrow> pyfloat \<Rightarrow> sent_request \<Rightarrow> bool" where
  "command r x q \<longleftrightarrow> fst q = rg_address r
     \<and> (\<exists>e. encode_register e (VFloat x) r = Inr (words_bytes (fst (snd q))))"

abbreviation soc_sent :: "(sent_request \<Rightarrow> bool) \<Rightarrow> 'w soc \<Rightarrow> 'w soc \<Rightarrow> bool" where
  "soc_sent P s s' \<equiv> sent_all P (sc_coord s) (sc_coord s')"

lemma soc_registers:
  "REG_BAT_CHARGE_DC_ABS_POWER \<in> set ALL_REGISTERS" "REG_BAT_MAX_CHARGE_LIMIT \<in> set ALL_REGISTERS"
  "REG_BAT_MAX_DISCHARGE_LIMIT \<in> set ALL_REGISTERS"
  by (simp_all add: ALL_REGISTERS_def)

lemma soc_write_sent:
  assumes "r \<in> set ALL_REGISTERS" "\<And>q. command r x q \<Longrightarrow> P q"
  shows "soc_sent P s (snd (soc_write env ha r x s))"
proof -
  obtain res c where w: "async_write_register env ha r (VFloat x) ''modbus_coord'' None True (sc_coord s) = (res, c)"
    by fastforce
  obtain ws where ws: "writes (co_client c) = ws @ writes (co_client (sc_coord s))"
    "\<forall>(a, w, y)\<in>set ws. a = rg_address r
       \<and> encode_register (cl_endianness (co_client (sc_coord s))) (VFloat x) r = Inr (words_bytes w)"
    using coordinator_sends [OF assms(1), of "VFloat x" "sc_coord s" env ha "''modbus_coord''" None True] w
    by (auto simp: sends_def)
  then have "list_all P ws" using assms(2) by (fastforce simp: list_all_iff command_def)
  then show ?thesis using ws(1) by (auto simp: soc_write_def w sent_all_def)
qed

lemma soc_read_sent: "soc_sent P s (snd (soc_read env r s))"
proof (rule sent_all_refl)
  show "writes (co_client (sc_coord (snd (soc_read env r s)))) = writes (co_client (sc_coord s))"
    using quiet.rel_read_register [of "co_client (sc_coord s)" env r]
    by (auto simp: no_writes_def soc_read_def on_client_def split_beta)
qed

lemma reads_sent:
  "soc_sent P s (snd (read_float env r s))" "soc_sent P s (snd (read_inv_state env s))"
  using soc_read_sent [of P s env r] soc_read_sent [of P s env REG_INVERTER_STATE]
  by (simp_all add: read_float_def read_inv_state_def split_beta split: sum.split)

section \<open>The commands of one turn\<close>

text \<open>The writes that return to automatic operation.\<close>

definition normal_command :: "'w soc \<Rightarrow> sent_request \<Rightarrow> bool" where
  "normal_command s e \<longleftrightarrow> command REG_BAT_CHARGE_DC_ABS_POWER (FFin 0) e
     \<or> command REG_BAT_MAX_CHARGE_LIMIT (case sc_orig_charge s of Some x \<Rightarrow> x | None \<Rightarrow> sc_limit s) e
     \<or> command REG_BAT_MAX_DISCHARGE_LIMIT (case sc_orig_discharge s of Some x \<Rightarrow> x | None \<Rightarrow> sc_limit s) e"

lemma write_normal_sent: "soc_sent (normal_command s) s (write_normal env ha s)"
proof (cases "client_closing env (co_client (sc_coord s)) \<or> \<not> client_connected env (co_client (sc_coord s))")
  case True
  then show ?thesis by (auto simp: write_normal_def Let_def sent_all_refl)
next
  case False
  have "soc_sent (normal_command s) s
      (snd (soc_write env ha REG_BAT_MAX_DISCHARGE_LIMIT
        (case sc_orig_discharge s of Some x \<Rightarrow> x | None \<Rightarrow> sc_limit s)
        (snd (soc_write env ha REG_BAT_MAX_CHARGE_LIMIT
          (case sc_orig_charge s of Some x \<Rightarrow> x | None \<Rightarrow> sc_limit s)
          (snd (soc_write env ha REG_BAT_CHARGE_DC_ABS_POWER (FFin 0) s))))))"
    by (rule sent_all_trans [OF sent_all_trans]; rule soc_write_sent) (simp_all add: soc_registers normal_command_def)
  then show ?thesis using False by (auto simp: write_normal_def Let_def)
qed

definition turn_command :: "pyfloat \<Rightarrow> pyfloat \<Rightarrow> 'w soc \<Rightarrow> sent_request \<Rightarrow> bool" where
  "turn_command soc target s e \<longleftrightarrow>
     (command REG_BAT_CHARGE_DC_ABS_POWER (fneg (fabs (sc_max_charge s))) e \<and> flt soc target)
     \<or> (command REG_BAT_CHARGE_DC_ABS_POWER (fabs (sc_max_discharge s)) e \<and> flt target soc)
     \<or> (command REG_BAT_MAX_CHARGE_LIMIT (FFin 0) e \<and> flt target soc)
     \<or> normal_command s e"

lemma write_charge_sent:
  assumes "\<And>e. command REG_BAT_CHARGE_DC_ABS_POWER (fneg (fabs w)) e \<Longrightarrow> P e"
  shows "soc_sent P s (snd (write_charge env ha w s))"
  using soc_write_sent [OF soc_registers(1), of "fneg (fabs w)" P s env ha] assms
  by (simp add: write_charge_def split_beta split: sum.split)

lemma write_discharge_sent:
  assumes "\<And>e. command REG_BAT_CHARGE_DC_ABS_POWER (fabs w) e \<Longrightarrow> P e"
    "\<And>e. command REG_BAT_MAX_CHARGE_LIMIT (FFin 0) e \<Longrightarrow> P e"
  shows "soc_sent P s (snd (write_discharge env ha w s))"
proof -
  let ?s1 = "snd (soc_write env ha REG_BAT_CHARGE_DC_ABS_POWER (fabs w) s)"
  have 1: "soc_sent P s ?s1" by (rule soc_write_sent [OF soc_registers(1)]) (rule assms(1))
  have "soc_sent P (?s1\<lparr>sc_last_write := t\<rparr>) (snd (soc_write env ha REG_BAT_MAX_CHARGE_LIMIT (FFin 0) (?s1\<lparr>sc_last_write := t\<rparr>)))" for t
    by (rule soc_write_sent [OF soc_registers(2)]) (rule assms(2))
  then have "soc_sent P s (snd (soc_write env ha REG_BAT_MAX_CHARGE_LIMIT (FFin 0) (?s1\<lparr>sc_last_write := t\<rparr>)))" for t
    using 1 sent_all_trans by (metis soc.select_convs(1) soc.surjective soc.update_convs(10))
  then show ?thesis using 1 by (simp add: write_discharge_def split_beta split: sum.split)
qed

lemma divergence_coord [simp]: "sc_coord (check_divergence a b s) = sc_coord s"
  by (simp add: check_divergence_def split: option.split sum.split)

lemma cycle_control_sent: "soc_sent (turn_command soc target s) s (snd (cycle_control env ha soc target lp s))"
proof -
  have c: "soc_sent (turn_command soc target s) s
      (snd (write_charge env ha (sc_max_charge s) (s\<lparr>sc_status := st\<rparr>)))" if "flt soc target" for st
    using that write_charge_sent [of "sc_max_charge s" "turn_command soc target s" "s\<lparr>sc_status := st\<rparr>" env ha]
    by (simp add: turn_command_def)
  have d: "soc_sent (turn_command soc target s) s
      (snd (write_discharge env ha (sc_max_discharge s) (s\<lparr>sc_status := st\<rparr>)))" if "flt target soc" for st
    using that write_discharge_sent [of "sc_max_discharge s" "turn_command soc target s" "s\<lparr>sc_status := st\<rparr>" env ha]
    by (simp add: turn_command_def)
  show ?thesis
    using c d by (simp add: cycle_control_def Let_def split_beta sent_all_refl)
qed

lemma soc_keeps_turn:
  "soc_keeps s t \<Longrightarrow> sc_orig_charge t = sc_orig_charge s \<Longrightarrow> sc_orig_discharge t = sc_orig_discharge s \<Longrightarrow>
   turn_command soc target t = turn_command soc target s \<and> normal_command t = normal_command s"
  by (simp add: soc_keeps_def turn_command_def normal_command_def fun_eq_iff cong: option.case_cong)

lemma soc_read_orig [simp]:
  "sc_orig_charge (snd (soc_read env r s)) = sc_orig_charge s"
  "sc_orig_discharge (snd (soc_read env r s)) = sc_orig_discharge s"
  "sc_orig_charge (snd (read_float env r s)) = sc_orig_charge s"
  "sc_orig_discharge (snd (read_float env r s)) = sc_orig_discharge s"
  "sc_orig_charge (snd (read_inv_state env s)) = sc_orig_charge s"
  "sc_orig_discharge (snd (read_inv_state env s)) = sc_orig_discharge s"
  by (simp_all add: soc_read_def read_float_def read_inv_state_def split_beta split: sum.split)

lemma cycle_checked_sent: "soc_sent (turn_command soc target s) s (snd (cycle_checked env ha soc target lp s))"
proof -
  define s1 where "s1 = snd (read_temp env s)"
  define s2 where "s2 = snd (read_inv_state env s1)"
  have k: "soc_keeps s s1" "soc_keeps s s2" by (simp_all add: s1_def s2_def read_temp_def)
  have o: "sc_orig_charge s1 = sc_orig_charge s" "sc_orig_discharge s1 = sc_orig_discharge s"
    "sc_orig_charge s2 = sc_orig_charge s" "sc_orig_discharge s2 = sc_orig_discharge s"
    by (simp_all add: s1_def s2_def read_temp_def)
  have r: "soc_sent P s s1" "soc_sent P s1 s2" for P
    unfolding s1_def s2_def read_temp_def by (rule reads_sent)+
  have n: "soc_sent (turn_command soc target s) s (write_normal env ha (s1\<lparr>sc_status := st\<rparr>))" for st
  proof (rule sent_all_trans [OF r(1)])
    have "normal_command (s1\<lparr>sc_status := st\<rparr>) = normal_command s"
      using k(1) o by (simp add: normal_command_def soc_keeps_def fun_eq_iff cong: option.case_cong)
    then show "soc_sent (turn_command soc target s) s1 (write_normal env ha (s1\<lparr>sc_status := st\<rparr>))"
      using sent_all_mono [OF write_normal_sent [of "s1\<lparr>sc_status := st\<rparr>" env ha]]
      by (simp add: turn_command_def)
  qed
  have c: "soc_sent (turn_command soc target s) s (snd (cycle_control env ha soc target lp s2))"
    using sent_all_trans [OF sent_all_trans [OF r] cycle_control_sent [of soc target s2 env ha lp]]
      soc_keeps_turn [OF k(2) o(3,4)] by simp
  have p: "soc_sent P s (s2\<lparr>sc_status := st\<rparr>)" for P st
    using sent_all_trans [OF r] by simp
  show ?thesis
    using n c p
    unfolding cycle_checked_def Let_def split_beta s1_def [symmetric] s2_def [symmetric]
    by (simp split: option.split)
qed

lemma soc_cycle_sent:
  "case (fst (read_soc env s), sc_target s) of
     (Some soc, Some target) \<Rightarrow> sent_all (turn_command soc target s) (sc_coord s) (sc_coord (snd (soc_cycle env ha lp s)))
   | _ \<Rightarrow> writes (co_client (sc_coord (snd (soc_cycle env ha lp s)))) = writes (co_client (sc_coord s))"
proof -
  define s1 where "s1 = snd (read_soc env s)"
  have k: "soc_keeps s s1" by (simp add: s1_def read_soc_def)
  have o: "sc_orig_charge s1 = sc_orig_charge s" "sc_orig_discharge s1 = sc_orig_discharge s"
    by (simp_all add: s1_def read_soc_def)
  have a: "writes (co_client (sc_coord s1)) = writes (co_client (sc_coord s))"
    using reads_sent(1) [of "\<lambda>_. False" s env REG_BATTERY_SOC] sent_none by (simp add: s1_def read_soc_def)
  have t: "sc_target s1 = sc_target s" using k by (simp add: soc_keeps_def)
  have c: "soc_sent (turn_command soc target s) s (snd (cycle_checked env ha soc target lp1 s1))" for soc target lp1
    using sent_all_trans [OF sent_all_refl [OF a] cycle_checked_sent [of soc target s1 env ha lp1]]
      soc_keeps_turn [OF k o] by simp
  show ?thesis
    using a c t
    unfolding soc_cycle_def Let_def split_beta s1_def [symmetric]
    by (auto simp: sent_all_refl split: option.split)
qed

text \<open>One turn of the control loop commands in the right direction only. It writes nothing unless the
  state of charge was read; it commands charging only below the target and discharging, with
  the charge limit set to zero, only above it, each with the configured power; every other
  write returns to automatic operation with the limits read at the start, or the device's limit.\<close>

lemma soc_turn_direction:
  "case (fst (read_soc env s), sc_target s) of
     (Some soc, Some target) \<Rightarrow> sent_all (turn_command soc target s) (sc_coord s) (sc_coord (snd (soc_cycle env ha lp s)))
   | _ \<Rightarrow> writes (co_client (sc_coord (snd (soc_cycle env ha lp s)))) = writes (co_client (sc_coord s))"
  by (rule soc_cycle_sent)

section \<open>The range of all commands\<close>

definition power_in :: "rat \<Rightarrow> pyfloat \<Rightarrow> bool" where
  "power_in top_w x \<longleftrightarrow> (\<exists>r. x = FFin r \<and> 100 \<le> r \<and> r \<le> top_w)"

text \<open>
  The numbers of a controller whose device limit is \<^verbatim>\<open>top_w\<close>; the remembered limits are among
  the values \<^verbatim>\<open>R\<close> allows for their registers.
\<close>

definition soc_num_inv :: "rat \<Rightarrow> (modbus_register \<Rightarrow> pyfloat \<Rightarrow> bool) \<Rightarrow> 'w soc \<Rightarrow> bool" where
  "soc_num_inv top_w R s \<longleftrightarrow> sc_limit s = FFin top_w \<and> power_in 20000 (FFin top_w)
     \<and> power_in top_w (sc_max_charge s) \<and> power_in top_w (sc_max_discharge s)
     \<and> (case sc_orig_charge s of None \<Rightarrow> True | Some x \<Rightarrow> R REG_BAT_MAX_CHARGE_LIMIT x)
     \<and> (case sc_orig_discharge s of None \<Rightarrow> True | Some x \<Rightarrow> R REG_BAT_MAX_DISCHARGE_LIMIT x)"

lemma soc_num_inv_mono: "soc_num_inv top_w R s \<Longrightarrow> (\<And>r x. R r x \<Longrightarrow> Q r x) \<Longrightarrow> soc_num_inv top_w Q s"
  by (auto simp: soc_num_inv_def split: option.splits)

definition safe_value :: "rat \<Rightarrow> (modbus_register \<Rightarrow> pyfloat \<Rightarrow> bool) \<Rightarrow> modbus_register \<Rightarrow> pyfloat \<Rightarrow> bool" where
  "safe_value top_w R r x \<longleftrightarrow>
     (r = REG_BAT_CHARGE_DC_ABS_POWER \<and> (x = FFin 0 \<or> (\<exists>p. x = FFin p \<and> 100 \<le> \<bar>p\<bar> \<and> \<bar>p\<bar> \<le> top_w)))
   \<or> (r = REG_BAT_MAX_CHARGE_LIMIT \<and> (x = FFin 0 \<or> x = FFin top_w \<or> R r x))
   \<or> (r = REG_BAT_MAX_DISCHARGE_LIMIT \<and> (x = FFin top_w \<or> R r x))"

definition safe_command :: "rat \<Rightarrow> (modbus_register \<Rightarrow> pyfloat \<Rightarrow> bool) \<Rightarrow> sent_request \<Rightarrow> bool" where
  "safe_command top_w R q \<longleftrightarrow> (\<exists>r x. command r x q \<and> safe_value top_w R r x)"

lemma clamp_power_in:
  assumes "power_in 20000 (FFin top_w)"
  shows "power_in top_w (clamp_control_power_w x (FFin top_w))"
proof -
  have l: "100 \<le> top_w" "top_w \<le> 20000" using assms by (auto simp: power_in_def)
  have n: "normalize_power_limit (FFin top_w) = FFin top_w"
    using l by (simp add: normalize_power_limit_def limit_consts clamp_FFin)
  show ?thesis
    using clamp_range_raw [of x "FFin top_w"] range_FFin [of 100 "clamp_control_power_w x (FFin top_w)" top_w]
    by (auto simp: n power_in_def MIN_CONTROL_LIMIT_W_def)
qed

lemma normal_safe: "soc_num_inv top_w R s \<Longrightarrow> normal_command s q \<Longrightarrow> safe_command top_w R q"
  unfolding normal_command_def safe_command_def safe_value_def soc_num_inv_def
  by (auto split: option.splits)

lemma turn_safe:
  assumes "soc_num_inv top_w R s" "turn_command soc target s q"
  shows "safe_command top_w R q"
proof -
  obtain a b where p: "sc_max_charge s = FFin a" "100 \<le> a" "a \<le> top_w" "sc_max_discharge s = FFin b" "100 \<le> b" "b \<le> top_w"
    using assms(1) by (auto simp: soc_num_inv_def power_in_def)
  then have "safe_value top_w R REG_BAT_CHARGE_DC_ABS_POWER (fneg (fabs (sc_max_charge s)))"
    "safe_value top_w R REG_BAT_CHARGE_DC_ABS_POWER (fabs (sc_max_discharge s))"
    "safe_value top_w R REG_BAT_MAX_CHARGE_LIMIT (FFin 0)"
    by (simp_all add: safe_value_def)
  then show ?thesis using assms(2) normal_safe [OF assms(1), of q]
    unfolding turn_command_def safe_command_def by blast
qed

lemma num_inv_keeps:
  assumes "soc_num_inv top_w R s" "soc_keeps s t"
    "case sc_orig_charge t of None \<Rightarrow> True | Some x \<Rightarrow> R REG_BAT_MAX_CHARGE_LIMIT x"
    "case sc_orig_discharge t of None \<Rightarrow> True | Some x \<Rightarrow> R REG_BAT_MAX_DISCHARGE_LIMIT x"
  shows "soc_num_inv top_w R t"
  using assms by (simp add: soc_num_inv_def soc_keeps_def)

text \<open>Every operation keeps the numbers in range and sends safe commands only.\<close>

definition soc_safe :: "rat \<Rightarrow> (modbus_register \<Rightarrow> pyfloat \<Rightarrow> bool) \<Rightarrow> 'w soc \<Rightarrow> 'w soc \<Rightarrow> bool" where
  "soc_safe top_w R s s' \<longleftrightarrow>
     (soc_num_inv top_w R s \<longrightarrow> soc_num_inv top_w R s' \<and> soc_sent (safe_command top_w R) s s')"

lemma soc_safe_trans: "soc_safe top_w R s t \<Longrightarrow> soc_safe top_w R t u \<Longrightarrow> soc_safe top_w R s u"
  unfolding soc_safe_def using sent_all_trans by blast

lemma soc_safe_same:
  "sc_coord t = sc_coord s \<Longrightarrow> (soc_num_inv top_w R s \<Longrightarrow> soc_num_inv top_w R t) \<Longrightarrow> soc_safe top_w R s t"
  by (simp add: soc_safe_def sent_all_refl)

lemma soc_io_orig [simp]:
  "sc_orig_charge (snd (soc_write env ha r x s)) = sc_orig_charge s"
  "sc_orig_discharge (snd (soc_write env ha r x s)) = sc_orig_discharge s"
  by (simp_all add: soc_write_def split_beta)

lemma write_normal_safe: "soc_safe top_w R s (write_normal env ha s)"
proof (cases "soc_num_inv top_w R s")
  case True
  have "soc_num_inv top_w R (write_normal env ha s)"
    by (rule num_inv_keeps [OF True])
      (use True in \<open>auto simp: write_normal_def Let_def soc_num_inv_def split: option.splits\<close>)
  then show ?thesis
    using sent_all_mono [OF write_normal_sent [of s env ha], of "safe_command top_w R"] normal_safe [OF True]
    by (simp add: soc_safe_def)
qed (simp add: soc_safe_def)

lemma read_safe: "soc_safe top_w R s (snd (soc_read env r s))"
  using num_inv_keeps [of top_w R s "snd (soc_read env r s)"] soc_read_sent
  by (auto simp: soc_safe_def soc_num_inv_def)

text \<open>A finite number that a read of the register returned.\<close>

definition limit_read :: "'w env \<Rightarrow> modbus_register \<Rightarrow> 'w soc \<Rightarrow> pyfloat \<Rightarrow> bool" where
  "limit_read env r s x \<longleftrightarrow> is_finite x \<and> (\<exists>v. fst (soc_read env r s) = Inr v \<and> float_of_val v = Inr x)"

lemma snapshot_one_safe:
  assumes "\<And>x u. limit_read env r s x \<Longrightarrow> soc_safe top_w R u (keep x u)"
  shows "soc_safe top_w R s (snd (snapshot_one env r keep s))"
proof -
  obtain v t where r: "soc_read env r s = (v, t)" by fastforce
  have t: "soc_safe top_w R s t" using read_safe [of top_w R s env r] r by simp
  have k: "limit_read env r s x \<Longrightarrow> soc_safe top_w R s (keep x t)" for x
    by (rule soc_safe_trans [OF t assms])
  show ?thesis
  proof (cases v)
    case (Inl e)
    then show ?thesis using t r by (simp add: snapshot_one_def)
  next
    case (Inr w)
    have "snd (snapshot_one env r keep s) = t \<or>
        (\<exists>x. limit_read env r s x \<and> snd (snapshot_one env r keep s) = keep x t)"
      using r by (cases "float_of_val w")
        (auto simp: snapshot_one_def limit_read_def Inr finite_iff simp del: finite_not_nan_inf)
    then show ?thesis using t k by auto
  qed
qed

text \<open>
  The two limits a turn may remember: the charge limit read at its start, and the discharge limit
  read right after it.
\<close>

definition turn_reads :: "'w env \<Rightarrow> 'w soc \<Rightarrow> modbus_register \<Rightarrow> pyfloat \<Rightarrow> bool" where
  "turn_reads env s r x \<longleftrightarrow>
     (r = REG_BAT_MAX_CHARGE_LIMIT \<and> limit_read env r s x)
   \<or> (r = REG_BAT_MAX_DISCHARGE_LIMIT \<and> limit_read env r (snd (soc_read env REG_BAT_MAX_CHARGE_LIMIT s)) x)"

lemma snapshot_safe:
  assumes R: "\<And>r x. turn_reads env s r x \<Longrightarrow> R r x"
  shows "soc_safe top_w R s (snd (snapshot_limits env s))"
proof -
  let ?kc = "\<lambda>x (s :: 'a soc). s\<lparr>sc_orig_charge := Some x\<rparr>"
  let ?kd = "\<lambda>x (s :: 'a soc). s\<lparr>sc_orig_discharge := Some x\<rparr>"
  have 1: "soc_safe top_w R s (snd (snapshot_one env REG_BAT_MAX_CHARGE_LIMIT ?kc s))"
    by (rule snapshot_one_safe, rule soc_safe_same) (auto simp: soc_num_inv_def turn_reads_def intro: R)
  have 2: "soc_safe top_w R t (snd (snapshot_one env REG_BAT_MAX_DISCHARGE_LIMIT ?kd t))"
    if "sc_coord t = sc_coord (snd (soc_read env REG_BAT_MAX_CHARGE_LIMIT s))" for t
    by (rule snapshot_one_safe, rule soc_safe_same)
      (auto simp: soc_num_inv_def turn_reads_def limit_read_def soc_read_def that split_beta intro!: R)
  have c: "sc_coord (snd (snapshot_one env REG_BAT_MAX_CHARGE_LIMIT ?kc s)) = sc_coord (snd (soc_read env REG_BAT_MAX_CHARGE_LIMIT s))"
    by (simp add: snapshot_one_def split_beta split: sum.split)
  show ?thesis
    using 1 soc_safe_trans [OF 1 2 [OF c]] by (simp add: snapshot_limits_def split_beta split: bool.split)
qed

text \<open>A turn forgets the limits it read, or keeps them.\<close>

definition orig_kept :: "'w soc \<Rightarrow> 'w soc \<Rightarrow> bool" where
  "orig_kept s t \<longleftrightarrow> (sc_orig_charge t = sc_orig_charge s \<or> sc_orig_charge t = None)
     \<and> (sc_orig_discharge t = sc_orig_discharge s \<or> sc_orig_discharge t = None)"

lemma orig_kept_simps [simp]:
  "orig_kept s s" "orig_kept s (t\<lparr>sc_status := st\<rparr>) = orig_kept s t"
  "orig_kept s (t\<lparr>sc_div_count := n\<rparr>) = orig_kept s t" "orig_kept s (t\<lparr>sc_div_clear := n\<rparr>) = orig_kept s t"
  "orig_kept s (t\<lparr>sc_div_warned := b\<rparr>) = orig_kept s t" "orig_kept s (t\<lparr>sc_last_write := x\<rparr>) = orig_kept s t"
  "orig_kept s (snd (soc_write env ha r v t)) = orig_kept s t"
  "orig_kept s (snd (read_float env r t)) = orig_kept s t"
  "orig_kept s (snd (read_inv_state env t)) = orig_kept s t"
  by (simp_all add: orig_kept_def)

lemma orig_kept_ops [simp]:
  "orig_kept s t \<Longrightarrow> orig_kept s (write_normal env ha t)"
  "orig_kept s (snd (write_charge env ha w t)) = orig_kept s t"
  "orig_kept s (snd (write_discharge env ha w t)) = orig_kept s t"
  "orig_kept s (check_divergence a b t) = orig_kept s t"
  by (auto simp: write_normal_def Let_def write_charge_def write_discharge_def check_divergence_def split_beta
      orig_kept_def split: sum.split option.split)

lemma cycle_orig: "orig_kept s (snd (soc_cycle env ha lp s))"
  by (simp add: soc_cycle_def cycle_checked_def cycle_control_def read_temp_def read_soc_def Let_def
      split_beta split: option.split)

lemma cycle_safe: "soc_safe top_w R s (snd (soc_cycle env ha lp s))"
proof (cases "soc_num_inv top_w R s")
  case True
  let ?s' = "snd (soc_cycle env ha lp s)"
  have a: "soc_sent (safe_command top_w R) s ?s'"
    using soc_cycle_sent [where env = env and s = s and ha = ha and lp = lp]
      sent_all_mono [where Q = "safe_command top_w R", OF _ turn_safe [OF True]]
    by (auto simp: sent_all_refl split: option.splits)
  have "(sc_orig_charge ?s' = sc_orig_charge s \<or> sc_orig_charge ?s' = None)
      \<and> (sc_orig_discharge ?s' = sc_orig_discharge s \<or> sc_orig_discharge ?s' = None)"
    using cycle_orig [of s env ha lp] by (simp add: orig_kept_def)
  then have "soc_num_inv top_w R ?s'"
    by (intro num_inv_keeps [OF True]) (use True in \<open>auto simp: soc_num_inv_def\<close>)
  then show ?thesis using a by (simp add: soc_safe_def)
qed (simp add: soc_safe_def)

lemma loop_exit_safe: "soc_safe top_w R s (loop_exit s)"
  by (rule soc_safe_same) (simp_all add: loop_exit_def soc_num_inv_def)

lemma slot_safe [simp]: "soc_safe top_w R s (t\<lparr>sc_slot := x\<rparr>) = soc_safe top_w R s t"
  "soc_safe top_w R s (t\<lparr>sc_task := y\<rparr>) = soc_safe top_w R s t"
  "soc_safe top_w R s (t\<lparr>sc_ending := n\<rparr>) = soc_safe top_w R s t"
  "soc_safe top_w R s (t\<lparr>sc_target := z\<rparr>) = soc_safe top_w R s t"
  "soc_safe top_w R s (t\<lparr>sc_status := st\<rparr>) = soc_safe top_w R s t"
  by (simp_all add: soc_safe_def soc_num_inv_def)

lemma soc_safe_refl [simp]: "soc_safe top_w R s s"
  by (rule soc_safe_same) simp_all

lemma loop_release_safe: "soc_safe top_w R s (loop_release env ha s)"
  by (simp add: loop_release_def Let_def write_normal_safe)

lemma tick_safe:
  assumes R: "\<And>r x. turn_reads env s r x \<Longrightarrow> R r x"
  shows "soc_safe top_w R s (soc_tick env ha s)"
proof (cases "sc_task s")
  case (TaskRunning lp)
  define k where "k = (if lp_started lp then (True, s) else snapshot_limits env s)"
  have k: "soc_safe top_w R s (snd k)" by (simp add: k_def snapshot_safe R)
  have c: "soc_safe top_w R s (snd (soc_cycle env ha lp1 (snd k)))" for lp1
    by (rule soc_safe_trans [OF k cycle_safe])
  have "soc_safe top_w R s (loop_exit (snd (soc_cycle env ha lp1 (snd k))))" for lp1
    by (rule soc_safe_trans [OF c loop_exit_safe])
  then show ?thesis using k c
    by (simp add: soc_tick_def TaskRunning Let_def split_beta flip: k_def split: cycle_result.split)
qed (simp_all add: soc_tick_def)

lemma soc_stop_safe: "soc_safe top_w R s (soc_stop env ha s)"
proof -
  define s1 where "s1 = (case sc_task s of
      TaskRunning lp \<Rightarrow> if lp_started lp then loop_release env ha (loop_exit s) else s | _ \<Rightarrow> s)"
  have "soc_safe top_w R s (loop_release env ha (loop_exit s))"
    by (rule soc_safe_trans [OF loop_exit_safe loop_release_safe])
  then have 1: "soc_safe top_w R s s1" by (simp add: s1_def split: soc_task.split)
  then have "soc_safe top_w R s (s1\<lparr>sc_task := TaskNone, sc_target := None, sc_status := StIdle\<rparr>)" by simp
  from soc_safe_trans [OF this write_normal_safe] show ?thesis
    by (simp add: soc_stop_def Let_def flip: s1_def)
qed

lemma set_target_safe: "soc_safe top_w R s (snd (soc_set_target env ha t x s))"
proof -
  have "soc_safe top_w R s (soc_stop env ha (s\<lparr>sc_target := y\<rparr>))" for y
    by (rule soc_safe_trans [OF _ soc_stop_safe]) simp
  then show ?thesis
    by (auto simp: soc_set_target_def Let_def split: option.split prod.split sum.split soc_task.split)
qed

definition own_event :: "'w soc_event \<Rightarrow> bool" where
  "own_event ev = (case ev of CoordChange _ \<Rightarrow> False | _ \<Rightarrow> True)"

lemma soc_step_safe:
  assumes "own_event ev" "\<And>r x. turn_reads env s r x \<Longrightarrow> R r x"
  shows "soc_safe top_w R s (soc_step env ha s ev)"
proof (cases ev)
  case Tick
  show ?thesis using tick_safe [OF assms(2)] by (simp add: Tick)
next
  case (SetCharge w)
  show ?thesis
    by (rule soc_safe_same)
      (auto simp: SetCharge soc_set_max_charge_def soc_num_inv_def intro: clamp_power_in)
next
  case (SetDischarge w)
  show ?thesis
    by (rule soc_safe_same)
      (auto simp: SetDischarge soc_set_max_discharge_def soc_num_inv_def intro: clamp_power_in)
qed (use assms(1) in \<open>simp_all add: soc_stop_safe set_target_safe loop_release_safe own_event_def\<close>)

lemma soc_new_num_inv:
  assumes "soc_new c slot = Inr s"
  shows "\<exists>top_w. \<forall>R. soc_num_inv top_w R s"
proof -
  obtain limit where l: "get_device_power_limit_w (Some (co_device_info c)) DEFAULT_CONTROL_LIMIT_W = Inr limit"
    "sc_limit s = limit" "sc_orig_charge s = None" "sc_orig_discharge s = None"
    "sc_max_charge s = clamp_control_power_w DEFAULT_MAX_CHARGE_W limit"
    "sc_max_discharge s = clamp_control_power_w DEFAULT_MAX_DISCHARGE_W limit"
    using assms by (auto simp: soc_new_def bind_res_Inr_iff)
  obtain x where "limit = normalize_power_limit x"
    using l(1) by (auto simp: get_device_power_limit_w_def bind_res_Inr_iff split: option.splits)
  then obtain r where "limit = FFin r" "100 \<le> r" "r \<le> 20000"
    using normalize_range [of x] range_FFin [of 100 "normalize_power_limit x" 20000] by (auto simp: limit_consts)
  then have "power_in 20000 (FFin r)" "limit = FFin r" by (simp_all add: power_in_def)
  then show ?thesis using l clamp_power_in by (auto simp: soc_num_inv_def)
qed

text \<open>A step of anybody keeps the numbers in range; what the coordinator holds does not matter for them.\<close>

lemma soc_step_num_inv:
  assumes "soc_num_inv top_w R s" "\<And>r x. turn_reads env s r x \<Longrightarrow> R r x"
  shows "soc_num_inv top_w R (soc_step env ha s ev)"
proof (cases "own_event ev")
  case True
  then show ?thesis using soc_step_safe [OF True assms(2)] assms(1) by (simp add: soc_safe_def)
next
  case False
  then obtain f where "ev = CoordChange f" by (cases ev) (auto simp: own_event_def)
  then show ?thesis using assms(1) by (simp add: soc_num_inv_def)
qed

text \<open>The limits that were in their registers when a turn of the run, or the one that follows it, read them.\<close>

definition read_in_run ::
    "'w env \<Rightarrow> 'w ha_env \<Rightarrow> 'w soc \<Rightarrow> 'w soc_event list \<Rightarrow> modbus_register \<Rightarrow> pyfloat \<Rightarrow> bool" where
  "read_in_run env ha s es r x \<longleftrightarrow> (\<exists>ys zs. es = ys @ zs \<and> turn_reads env (foldl (soc_step env ha) s ys) r x)"

lemma soc_run_num_inv:
  assumes "\<And>R. soc_num_inv top_w R s"
  shows "soc_num_inv top_w (read_in_run env ha s es) (foldl (soc_step env ha) s es)"
proof (induction es rule: rev_induct)
  case (snoc e es)
  have "read_in_run env ha s es r x \<Longrightarrow> read_in_run env ha s (es @ [e]) r x" for r x
    unfolding read_in_run_def by (metis append_assoc)
  then have n: "soc_num_inv top_w (read_in_run env ha s (es @ [e])) (foldl (soc_step env ha) s es)"
    using soc_num_inv_mono [OF snoc] by blast
  have "turn_reads env (foldl (soc_step env ha) s es) r x \<Longrightarrow> read_in_run env ha s (es @ [e]) r x" for r x
    by (auto simp: read_in_run_def)
  from soc_step_num_inv [OF n this] show ?case by simp
qed (simp add: assms)

section \<open>A turn on a memory device\<close>

text \<open>A connected memory device whose client suppresses no register.\<close>

definition mem_fresh :: "(nat \<Rightarrow> 16 word) \<Rightarrow> (nat \<Rightarrow> 16 word) client \<Rightarrow> bool" where
  "mem_fresh m c \<longleftrightarrow> \<not> cl_closing c \<and> cl_has_client c \<and> cl_suppressed c = [] \<and> cl_endianness c = ''big'' \<and> cl_world c = m"

text \<open>A value the quality filter of its register passes.\<close>

definition good_value :: "modbus_register \<Rightarrow> pyval \<Rightarrow> bool" where
  "good_value r v \<longleftrightarrow> (\<forall>t :: (nat \<Rightarrow> 16 word) client. apply_quality_filter r v t = (Inr v, t\<lparr>cl_retained := cl_retained t - {rg_address r}\<rparr>))"

lemma mem_read:
  assumes "mem_fresh m c" "decode_register ''big'' (words_bytes (map m [rg_address r ..< rg_address r + rg_count r])) r = Inr v"
    "good_value r v"
  shows "fst (read_register mem_env r c) = Inr v \<and> mem_fresh m (snd (read_register mem_env r c))"
proof -
  have q: "apply_quality_filter r v t = (Inr v, t\<lparr>cl_retained := cl_retained t - {rg_address r}\<rparr>)" for t :: "(nat \<Rightarrow> 16 word) client"
    using assms(3) unfolding good_value_def by blast
  show ?thesis using assms(1,2)
    by (simp add: mem_fresh_def read_register_def is_suppressed_def MAX_RETRIES_def numeral_2_eq_2 read_loop_Suc read_once_def sbind_def
      mem_raw_read accept_bytes_def log_io_def pop_strikes_def q store_filtered_def Let_def)
qed

lemma mem_soc_read:
  assumes "mem_fresh m (co_client (sc_coord s))" "decode_register ''big'' (words_bytes (map m [rg_address r ..< rg_address r + rg_count r])) r = Inr v"
    "good_value r v"
  shows "\<exists>c. soc_read mem_env r s = (Inr v, s\<lparr>sc_coord := c\<rparr>) \<and> mem_fresh m (co_client c)"
  using mem_read [OF assms] by (cases "read_register mem_env r (co_client (sc_coord s))") (auto simp: soc_read_def on_client_def)

text \<open>A battery at 20 percent, an inverter in operation, every other register zero.\<close>

definition warm_mem :: "nat \<Rightarrow> 16 word" where
  "warm_mem a = (if a = 514 then 20 else if a \<in> {56, 57} then 6 else 0)"

lemma f32_zero: "f32_of_bits 0 = FFin 0" by (simp add: f32_of_bits_def)

lemma float_zero:
  assumes "rg_dtype r = FLOAT32" "rg_count r = 2" "m (rg_address r) = 0" "m (Suc (rg_address r)) = 0"
  shows "decode_register ''big'' (words_bytes (map m [rg_address r ..< rg_address r + rg_count r])) r = Inr (VFloat (FFin 0))"
  using assms by (simp add: decode_register_def f32_decode_def unpack_f32_def unpack_uint_def unpack_be_def words_bytes_def f32_zero upt_rec pack_be_numeral)

lemma warm_decodes:
  "decode_register ''big'' (words_bytes (map warm_mem [rg_address REG_BATTERY_SOC ..< rg_address REG_BATTERY_SOC + rg_count REG_BATTERY_SOC])) REG_BATTERY_SOC = Inr (VInt 20)"
  "decode_register ''big'' (words_bytes (map warm_mem [rg_address REG_INVERTER_STATE ..< rg_address REG_INVERTER_STATE + rg_count REG_INVERTER_STATE])) REG_INVERTER_STATE = Inr (VInt 393222)"
  by (simp_all add: REG_BATTERY_SOC_def REG_INVERTER_STATE_def warm_mem_def decode_register_def unpack_uint_def unpack_be_def words_bytes_def upt_rec u32_decode_def big_words_def pack_be_numeral)

lemma good_ints: "good_value REG_BATTERY_SOC (VInt 20)" "good_value REG_INVERTER_STATE (VInt 393222)"
  using mk_float_of_int [of 20] mk_float_of_int [of 393222]
  by (simp_all add: good_value_def apply_quality_filter_def outlier_guard_def float_of_int_def is_nan_def is_inf_def Let_def abs_limit_def
     OUTLIER_ABS_LIMIT_OVERRIDES_def OUTLIER_ABS_LIMIT_DEFAULT_def energy_counter_def REG_BATTERY_SOC_def REG_INVERTER_STATE_def OUTLIER_EXEMPT_ADDRESSES_def)

lemma good_zero: "rg_address r \<noteq> 575 \<Longrightarrow> good_value r (VFloat (FFin 0))"
  by (simp add: good_value_def apply_quality_filter_def outlier_guard_def is_nan_def is_inf_def Let_def abs_limit_def
     OUTLIER_ABS_LIMIT_OVERRIDES_def OUTLIER_ABS_LIMIT_DEFAULT_def OUTLIER_ENERGY_WH_LIMIT_def energy_counter_def)

lemma charge_bits: "encode_register ''big'' (VFloat (FFin (- 5000))) REG_BAT_CHARGE_DC_ABS_POWER = Inr [197, 156, 64, 0]"
proof -
  have f: "f32_of_bits 3315351552 = FFin (- 5000)" by (simp add: f32_of_bits_def f32_mag_def pow2_def Let_def)
  have "bits_of_f32 (FFin (- 5000)) = Inr 3315351552" using bits_of_f32_of_bits [of 3315351552] f by simp
  then have p: "pack_f32 (FFin (- 5000)) = Inr [197, 156, 64, 0]" by (simp only: pack_f32_def bind_res.simps) (simp add: pack_be_numeral)
  show ?thesis by (simp add: encode_register_inner encode_inner_def REG_BAT_CHARGE_DC_ABS_POWER_def f32_encode_def p is_nan_def is_inf_def)
qed

lemma warm_zero:
  assumes "r \<in> {REG_BAT_MAX_CHARGE_LIMIT, REG_BAT_MAX_DISCHARGE_LIMIT, REG_BATTERY_TEMPERATURE}"
    "mem_fresh warm_mem (co_client (sc_coord s))"
  shows "\<exists>c. soc_read mem_env r s = (Inr (VFloat (FFin 0)), s\<lparr>sc_coord := c\<rparr>) \<and> mem_fresh warm_mem (co_client c)"
  using assms(1)
  by (intro mem_soc_read assms(2) float_zero good_zero)
     (auto simp: warm_mem_def REG_BAT_MAX_CHARGE_LIMIT_def REG_BAT_MAX_DISCHARGE_LIMIT_def REG_BATTERY_TEMPERATURE_def)

lemma warm_reads:
  assumes "mem_fresh warm_mem (co_client (sc_coord s))"
  shows "\<exists>c. soc_read mem_env REG_BATTERY_SOC s = (Inr (VInt 20), s\<lparr>sc_coord := c\<rparr>) \<and> mem_fresh warm_mem (co_client c)"
    "\<exists>c. soc_read mem_env REG_INVERTER_STATE s = (Inr (VInt 393222), s\<lparr>sc_coord := c\<rparr>) \<and> mem_fresh warm_mem (co_client c)"
  by (rule mem_soc_read [OF assms warm_decodes(1) good_ints(1)], rule mem_soc_read [OF assms warm_decodes(2) good_ints(2)])

lemma warm_control:
  assumes "mem_fresh warm_mem (co_client (sc_coord s))" "sc_max_charge s = FFin 5000"
  shows "hd (writes (co_client (sc_coord (snd (cycle_control mem_env test_ha (FFin 20) (FFin 50) lp s))))) = (1034, [50588, 16384], WOk)"
proof -
  let ?c = "sc_coord s"
  have r: "REG_BAT_CHARGE_DC_ABS_POWER \<in> set ALL_REGISTERS" "rg_access REG_BAT_CHARGE_DC_ABS_POWER = RW" 
     "rg_address REG_BAT_CHARGE_DC_ABS_POWER = 1034"
    by (simp_all add: ALL_REGISTERS_def REG_BAT_CHARGE_DC_ABS_POWER_def)
  have f: "\<not> cl_closing (co_client ?c)" "cl_has_client (co_client ?c)"
    "encode_register (cl_endianness (co_client ?c)) (VFloat (FFin (- 5000))) REG_BAT_CHARGE_DC_ABS_POWER = Inr [197, 156, 64, 0]"
    using assms(1) charge_bits by (simp_all add: mem_fresh_def)
  have b: "bytes_words [197, 156, 64, 0] = Inr [50588, 16384]" by (simp add: unpack_be_def)
  obtain m where w: "write_register mem_env REG_BAT_CHARGE_DC_ABS_POWER (VFloat (FFin (- 5000))) None (co_client ?c)
     = (Inr (), log_io (IOWrite 1034 [50588, 16384] WOk) m (co_client ?c))"
    using mem_write [OF r(1,2) f(3,1,2) b, of None] unfolding r(3) by blast
  have "co_client (snd (async_write_register mem_env test_ha REG_BAT_CHARGE_DC_ABS_POWER (VFloat (FFin (- 5000))) ''modbus_coord'' None True ?c))
     = snd (write_register mem_env REG_BAT_CHARGE_DC_ABS_POWER (VFloat (FFin (- 5000))) None (co_client ?c))"
    using coordinator_client [OF r(2), of "VFloat (FFin (- 5000))"] by (simp add: not_finite_float_def)
  then have "hd (writes (co_client (sc_coord (snd (soc_write mem_env test_ha REG_BAT_CHARGE_DC_ABS_POWER (FFin (- 5000)) (s\<lparr>sc_status := StCharging (FFin 20) (FFin 50)\<rparr>))))))
      = (1034, [50588, 16384], WOk)"
    using w by (simp add: soc_write_def split_beta writes_def log_io_def)
  then show ?thesis using assms(2)
    by (simp add: cycle_control_def Let_def split_beta write_charge_def check_divergence_def split: sum.split option.split)
qed

lemma warm_turn:
  assumes "mem_fresh warm_mem (co_client (sc_coord s))" "sc_target s = Some (FFin 50)" "sc_max_charge s = FFin 5000"
  shows "hd (writes (co_client (sc_coord (snd (soc_cycle mem_env test_ha (new_loop\<lparr>lp_started := True\<rparr>) s))))) = (1034, [50588, 16384], WOk)"
proof -
  obtain c1 where 1: "soc_read mem_env REG_BATTERY_SOC s = (Inr (VInt 20), s\<lparr>sc_coord := c1\<rparr>)" "mem_fresh warm_mem (co_client c1)"
    using warm_reads(1) [OF assms(1)] by blast
  obtain c2 where 2: "soc_read mem_env REG_BATTERY_TEMPERATURE (s\<lparr>sc_coord := c1\<rparr>) = (Inr (VFloat (FFin 0)), s\<lparr>sc_coord := c2\<rparr>)" "mem_fresh warm_mem (co_client c2)"
    using warm_zero [of REG_BATTERY_TEMPERATURE "s\<lparr>sc_coord := c1\<rparr>"] 1 by auto
  obtain c3 where 3: "soc_read mem_env REG_INVERTER_STATE (s\<lparr>sc_coord := c2\<rparr>) = (Inr (VInt 393222), s\<lparr>sc_coord := c3\<rparr>)" "mem_fresh warm_mem (co_client c3)"
    using warm_reads(2) [of "s\<lparr>sc_coord := c2\<rparr>"] 2 by auto
  have f: "float_of_int 20 = Inr (FFin 20)" using float_of_int_small [of 20] by simp
  have "snd (soc_cycle mem_env test_ha (new_loop\<lparr>lp_started := True\<rparr>) s) =
     snd (cycle_control mem_env test_ha (FFin 20) (FFin 50) (new_loop\<lparr>lp_started := True, lp_read_fails := 0\<rparr>) (s\<lparr>sc_coord := c3\<rparr>))"
    using assms(2)
    by (simp add: soc_cycle_def read_soc_def read_float_def 1 2 3 f is_nan_def is_inf_def target_reached_def new_loop_def
       cycle_checked_def read_temp_def read_inv_state_def MAX_BATTERY_TEMP_C_def Let_def)
  then show ?thesis using warm_control [of "s\<lparr>sc_coord := c3\<rparr>"] 3 assms(3) by simp
qed

lemma warm_tick:
  assumes "mem_fresh warm_mem (co_client (sc_coord s))" "sc_target s = Some (FFin 50)" "sc_max_charge s = FFin 5000" "sc_task s = TaskRunning new_loop"
  shows "hd (writes (co_client (sc_coord (soc_tick mem_env test_ha s)))) = (1034, [50588, 16384], WOk)"
proof -
  obtain c1 where 1: "soc_read mem_env REG_BAT_MAX_CHARGE_LIMIT s = (Inr (VFloat (FFin 0)), s\<lparr>sc_coord := c1\<rparr>)" "mem_fresh warm_mem (co_client c1)"
    using warm_zero [OF _ assms(1), of REG_BAT_MAX_CHARGE_LIMIT] by blast
  define s1 where "s1 = s\<lparr>sc_coord := c1, sc_orig_charge := Some (FFin 0)\<rparr>"
  obtain c2 where 2: "soc_read mem_env REG_BAT_MAX_DISCHARGE_LIMIT s1 = (Inr (VFloat (FFin 0)), s1\<lparr>sc_coord := c2\<rparr>)" "mem_fresh warm_mem (co_client c2)"
    using warm_zero [of REG_BAT_MAX_DISCHARGE_LIMIT s1] 1 by (auto simp: s1_def)
  have "snapshot_limits mem_env s = (True, s1\<lparr>sc_coord := c2, sc_orig_discharge := Some (FFin 0)\<rparr>)"
    using 1(1) 2(1) by (simp add: snapshot_limits_def snapshot_one_def is_nan_def is_inf_def s1_def)
  moreover have "hd (writes (co_client (sc_coord (snd (soc_cycle mem_env test_ha (new_loop\<lparr>lp_started := True\<rparr>) (s1\<lparr>sc_coord := c2, sc_orig_discharge := Some (FFin 0)\<rparr>)))))) = (1034, [50588, 16384], WOk)"
    using 2(2) assms(2,3) by (intro warm_turn) (simp_all add: s1_def)
  ultimately show ?thesis using assms(4)
    by (simp add: soc_tick_def new_loop_def split_beta loop_exit_def split: cycle_result.split)
qed

section \<open>What a run sends\<close>

text \<open>C34: Every request the controller ever sends stays within the device's limits. Take any sequence of
  targets, stops, turns, power settings, acquires and releases by other features and changes of
  the coordinator by other tasks, whatever numbers the user or the device supply, and any step of
  the controller after it. What that step sends is a battery power of zero or of a magnitude
  between 100 W and the device's limit, which is at most 20 kW; or a charge limit that is zero,
  the device's limit, or a finite number that a turn of the run read from that register; or a
  discharge limit that is the device's limit or a finite number read in the same way. The
  restored numbers are the inverter's own, so nothing else bounds them.\<close>

theorem soc_commands_in_range:
  "soc_new c slot = Inr s \<Longrightarrow> own_event ev \<Longrightarrow>
   \<exists>top_w. sc_limit s = FFin top_w \<and> 100 \<le> top_w \<and> top_w \<le> 20000
     \<and> soc_sent (safe_command top_w (read_in_run env ha s es))
         (foldl (soc_step env ha) s es) (foldl (soc_step env ha) s (es @ [ev]))"
proof -
  assume n: "soc_new c slot = Inr s" and ev: "own_event ev"
  obtain top_w where i: "soc_num_inv top_w R s" for R using soc_new_num_inv [OF n] by blast
  let ?s = "foldl (soc_step env ha) s es"
  have "turn_reads env ?s r x \<Longrightarrow> read_in_run env ha s es r x" for r x
    by (auto simp: read_in_run_def)
  then have "soc_safe top_w (read_in_run env ha s es) ?s (soc_step env ha ?s ev)"
    by (rule soc_step_safe [OF ev])
  then show ?thesis using soc_run_num_inv [OF i, of env ha es] i
    by (auto simp: soc_safe_def soc_num_inv_def power_in_def)
qed

lemma warm_new:
  "\<exists>s. soc_new (test_coord warm_mem) None = Inr s \<and> sc_coord s = test_coord warm_mem \<and> sc_slot s = None
     \<and> sc_task s = TaskNone \<and> sc_max_charge s = FFin 5000"
  by (simp add: soc_new_def get_device_power_limit_w_def test_coord_def coord_new_def raw_power_limit_def
      to_finite_positive_def clamp_control_power_w_def normalize_power_limit_def limit_consts clamp_FFin
      DEFAULT_MAX_CHARGE_W_def)

theorem soc_commands_in_range_witness:
  "\<exists>s top_w. soc_new (test_coord warm_mem) None = Inr s \<and> 100 \<le> top_w \<and> top_w \<le> 20000
     \<and> (let es = [SetTarget False (Some (FFin 50))]; t = foldl (soc_step mem_env test_ha) s es;
            u = foldl (soc_step mem_env test_ha) s (es @ [Tick])
        in sc_target t = Some (FFin 50)
           \<and> soc_sent (safe_command top_w (read_in_run mem_env test_ha s es)) t u
           \<and> hd (writes (co_client (sc_coord u))) = (1034, [50588, 16384], WOk))"
proof -
  obtain s where s: "soc_new (test_coord warm_mem) None = Inr s" "sc_coord s = test_coord warm_mem"
    "sc_slot s = None" "sc_task s = TaskNone" "sc_max_charge s = FFin 5000" using warm_new by blast
  let ?es = "[SetTarget False (Some (FFin 50))] :: (nat \<Rightarrow> 16 word) soc_event list"
  define t where "t = foldl (soc_step mem_env test_ha) s ?es"
  have e: "t = s\<lparr>sc_target := Some (FFin 50), sc_slot := sc_slot t, sc_task := TaskRunning new_loop\<rparr>"
    by (simp add: t_def soc_set_target_def s acquire_or_raise_def try_acquire_def get_owner_manager_def
        soc_consts OWNER_SOC_CONTROLLER_def py_max_def py_min_def)
  have t: "sc_target t = Some (FFin 50)" "sc_task t = TaskRunning new_loop" "sc_max_charge t = FFin 5000"
    "sc_coord t = test_coord warm_mem"
    by (subst e, simp add: s)+
  then have "hd (writes (co_client (sc_coord (soc_tick mem_env test_ha t)))) = (1034, [50588, 16384], WOk)"
    by (intro warm_tick) (simp_all add: mem_fresh_def test_coord_def coord_new_def client_new_def)
  then have h: "hd (writes (co_client (sc_coord (foldl (soc_step mem_env test_ha) s (?es @ [Tick]))))) = (1034, [50588, 16384], WOk)"
    by (simp add: t_def)
  have "own_event (Tick :: (nat \<Rightarrow> 16 word) soc_event)" by (simp add: own_event_def)
  from soc_commands_in_range [OF s(1) this, of mem_env test_ha ?es]
  obtain top_w where "100 \<le> top_w" "top_w \<le> 20000"
    "soc_sent (safe_command top_w (read_in_run mem_env test_ha s ?es))
       (foldl (soc_step mem_env test_ha) s ?es) (foldl (soc_step mem_env test_ha) s (?es @ [Tick]))" by blast
  then show ?thesis unfolding Let_def using s(1) h t(1) [unfolded t_def] by blast
qed

end
