(* ===== verification/SocEnds.thy ===== *)
theory SocEnds
  imports SocCommands
begin

text \<open>
  How control ends: a device that cannot be read stops the loop, the pause between two turns
  keeps the inverter's watchdog fed, and a stop writes the registers twice.
\<close>

section \<open>A device that cannot be read\<close>

definition soc_blind :: "'w env \<Rightarrow> bool" where
  "soc_blind env \<longleftrightarrow> (\<forall>s. case fst (read_soc env s) of None \<Rightarrow> True | Some x \<Rightarrow> is_nan x \<or> is_inf x)"

lemma blind_cycle:
  assumes "soc_blind env"
  shows "\<exists>s'. soc_cycle env ha lp s =
    (if sc_target s = None \<or> MAX_CONSECUTIVE_FAILURES \<le> lp_read_fails lp + 1 then (CycleEnd, s')
     else (CycleSleep POLL_INTERVAL (lp\<lparr>lp_read_fails := lp_read_fails lp + 1\<rparr>), s'))"
proof -
  obtain x s1 where r: "read_soc env s = (x, s1)" by fastforce
  have "(case x of Some x \<Rightarrow> if is_nan x \<or> is_inf x then None else Some x | None \<Rightarrow> None) = None"
    using assms r unfolding soc_blind_def by (cases x) (auto dest!: spec [of _ s])
  then show ?thesis using r
    by (cases "sc_target s") (auto simp: soc_cycle_def Let_def)
qed

lemma blind_tick:
  assumes "soc_blind env" "sc_task s = TaskRunning lp"
  shows "\<not> soc_running (soc_tick env ha s) \<or> (lp_read_fails lp + 1 < 5
     \<and> (\<exists>lp'. sc_task (soc_tick env ha s) = TaskRunning lp' \<and> lp_read_fails lp' = lp_read_fails lp + 1))"
proof -
  define k where "k = (if lp_started lp then (True, s) else snapshot_limits env s)"
  define lp1 where "lp1 = lp\<lparr>lp_started := True\<rparr>"
  have f: "lp_read_fails lp1 = lp_read_fails lp" by (simp add: lp1_def)
  have t: "soc_tick env ha s = (if \<not> fst k then (snd k)\<lparr>sc_task := TaskDead\<rparr>
      else case soc_cycle env ha lp1 (snd k) of
        (CycleSleep w lp2, s2) \<Rightarrow> s2\<lparr>sc_task := TaskRunning lp2\<rparr> | (CycleEnd, s2) \<Rightarrow> loop_exit s2)"
    using assms(2) by (simp add: soc_tick_def Let_def split_beta flip: k_def lp1_def split: cycle_result.split)
  obtain s' where c: "soc_cycle env ha lp1 (snd k) =
      (if sc_target (snd k) = None \<or> MAX_CONSECUTIVE_FAILURES \<le> lp_read_fails lp1 + 1 then (CycleEnd, s')
       else (CycleSleep POLL_INTERVAL (lp1\<lparr>lp_read_fails := lp_read_fails lp1 + 1\<rparr>), s'))"
    using blind_cycle [OF assms(1)] by blast
  show ?thesis
    unfolding t c f
    by (simp add: soc_running_def loop_exit_def MAX_CONSECUTIVE_FAILURES_def)
qed

lemma not_running_tick: "\<not> soc_running s \<Longrightarrow> soc_tick env ha s = s"
  by (cases "sc_task s") (simp_all add: soc_running_def soc_tick_def)

text \<open>C35: A controller that cannot read the state of charge gives up: whatever else happens on the link,
  within five turns of the loop it has ended, instead of charging or discharging on.\<close>

theorem blind_controller_stops:
  "soc_blind env \<Longrightarrow> \<not> soc_running ((soc_tick env ha ^^ 5) s)"
proof -
  assume b: "soc_blind env"
  have "\<not> soc_running ((soc_tick env ha ^^ n) s) \<or> (\<exists>lp. sc_task ((soc_tick env ha ^^ n) s) = TaskRunning lp
      \<and> n \<le> lp_read_fails lp \<and> (0 < n \<longrightarrow> lp_read_fails lp < 5))" for n
  proof (induction n)
    case 0
    then show ?case by (auto simp: soc_running_def)
  next
    case (Suc n)
    show ?case
    proof (cases "soc_running ((soc_tick env ha ^^ n) s)")
      case False
      then show ?thesis by (simp add: not_running_tick)
    next
      case True
      then obtain lp where lp: "sc_task ((soc_tick env ha ^^ n) s) = TaskRunning lp" "n \<le> lp_read_fails lp"
        using Suc by blast
      show ?thesis using blind_tick [OF b lp(1), of ha] lp(2) by auto
    qed
  qed
  from this [of 5] show ?thesis by auto
qed

definition busy_env :: "(nat \<Rightarrow> 16 word) env" where
  "busy_env = mem_env\<lparr>ev_sched := \<lambda>w. (False, w)\<rparr>"

lemma busy_raw_read: "raw_read busy_env a n s = (Inl SchedTimeout, s)"
  by (simp add: raw_read_def with_scheduler_def busy_env_def)

lemma busy_read: "fst (read_register busy_env r s) \<in> range Inl"
proof -
  have o: "read_once busy_env r s1 = (Inl SchedTimeout, s1)" for s1
    by (simp add: read_once_def sbind_def busy_raw_read)
  have "fst (read_loop k busy_env r s1) \<in> range Inl" for k s1
  proof (induction k arbitrary: s1)
    case 0
    then show ?case by (simp add: read_loop_0 o)
  next
    case (Suc k)
    then show ?case by (simp add: read_loop_Suc o is_conn_error_def)
  qed
  then show ?thesis by (simp add: read_register_def split_beta)
qed

lemma busy_blind: "soc_blind busy_env"
  unfolding soc_blind_def
proof
  fix s :: "(nat \<Rightarrow> 16 word) soc"
  obtain e c where "read_register busy_env REG_BATTERY_SOC (co_client (sc_coord s)) = (Inl e, c)"
    using busy_read [of REG_BATTERY_SOC "co_client (sc_coord s)"] by (metis imageE prod.collapse)
  then have "fst (read_soc busy_env s) = None"
    by (simp add: read_soc_def read_float_def soc_read_def on_client_def)
  then show "case fst (read_soc busy_env s) of None \<Rightarrow> True | Some x \<Rightarrow> is_nan x \<or> is_inf x" by simp
qed

theorem blind_controller_stops_witness:
  "\<exists>s. soc_running s \<and> \<not> soc_running ((soc_tick busy_env test_ha ^^ 5) (s :: (nat \<Rightarrow> 16 word) soc))"
proof -
  obtain s0 :: "(nat \<Rightarrow> 16 word) soc" where "soc_new (test_coord (\<lambda>_. 0)) None = Inr s0"
    using test_soc_new by blast
  have "soc_running (s0\<lparr>sc_task := TaskRunning new_loop\<rparr>)" by (simp add: soc_running_def)
  then show ?thesis using blind_controller_stops [OF busy_blind] by blast
qed

section \<open>What a stop leaves in the registers\<close>

definition soc_linked :: "'w env \<Rightarrow> 'w soc \<Rightarrow> bool" where
  "soc_linked env s \<longleftrightarrow> \<not> client_closing env (co_client (sc_coord s)) \<and> client_connected env (co_client (sc_coord s))"

text \<open>The registers and values of audit events.\<close>

definition commands_of :: "write_event list \<Rightarrow> (string \<times> pyval) list" where
  "commands_of es = map (\<lambda>e. (we_key e, we_value e)) es"

lemma soc_write_event:
  assumes "rg_access r = RW" "\<not> not_finite_float (VFloat x)"
  shows "\<exists>e. co_audit (sc_coord (snd (soc_write env ha r x s))) = map_option (audit_log e) (co_audit (sc_coord s))
    \<and> (we_key e, we_value e) = (rg_name r, VFloat x)"
proof -
  obtain res c where w: "async_write_register env ha r (VFloat x) ''modbus_coord'' None True (sc_coord s) = (res, c)"
    by fastforce
  show ?thesis
    using coordinator_write_event [OF w] assms
    by (intro exI [of _ "write_event_of env ha r (VFloat x) ''modbus_coord'' res c"])
       (simp add: soc_write_def w write_event_of_def)
qed

lemma limit_registers_rw:
  "rg_access REG_BAT_CHARGE_DC_ABS_POWER = RW" "rg_access REG_BAT_MAX_CHARGE_LIMIT = RW"
  "rg_access REG_BAT_MAX_DISCHARGE_LIMIT = RW"
  by (simp_all add: REG_BAT_CHARGE_DC_ABS_POWER_def REG_BAT_MAX_CHARGE_LIMIT_def REG_BAT_MAX_DISCHARGE_LIMIT_def)

definition or_limit :: "'w soc \<Rightarrow> pyfloat option \<Rightarrow> pyfloat" where
  "or_limit s x = (case x of Some y \<Rightarrow> y | None \<Rightarrow> sc_limit s)"

definition finite_limits :: "'w soc \<Rightarrow> bool" where
  "finite_limits s \<longleftrightarrow> (\<forall>x \<in> set_option (sc_orig_charge s) \<union> set_option (sc_orig_discharge s) \<union> {sc_limit s}.
     \<not> not_finite_float (VFloat x))"

lemma write_normal_events:
  assumes "soc_linked env s" "finite_limits s"
  shows "\<exists>es. co_audit (sc_coord (write_normal env ha s)) = map_option (fold audit_log es) (co_audit (sc_coord s))
    \<and> commands_of es = [(rg_name REG_BAT_CHARGE_DC_ABS_POWER, VFloat (FFin 0)),
        (rg_name REG_BAT_MAX_CHARGE_LIMIT, VFloat (or_limit s (sc_orig_charge s))),
        (rg_name REG_BAT_MAX_DISCHARGE_LIMIT, VFloat (or_limit s (sc_orig_discharge s)))]"
    "sc_orig_charge (write_normal env ha s) = None" "sc_orig_discharge (write_normal env ha s) = None"
proof -
  let ?c = "or_limit s (sc_orig_charge s)" and ?d = "or_limit s (sc_orig_discharge s)"
  have f: "\<not> not_finite_float (VFloat ?c)" "\<not> not_finite_float (VFloat ?d)" "\<not> not_finite_float (VFloat (FFin 0))"
    using assms(2) by (auto simp: finite_limits_def or_limit_def not_finite_float_def split: option.split)
  define s1 where "s1 = snd (soc_write env ha REG_BAT_CHARGE_DC_ABS_POWER (FFin 0) s)"
  define s2 where "s2 = snd (soc_write env ha REG_BAT_MAX_CHARGE_LIMIT ?c s1)"
  define s3 where "s3 = snd (soc_write env ha REG_BAT_MAX_DISCHARGE_LIMIT ?d s2)"
  have w: "write_normal env ha s = s3\<lparr>sc_orig_charge := None, sc_orig_discharge := None\<rparr>"
    using assms(1) by (auto simp: write_normal_def soc_linked_def Let_def s1_def s2_def s3_def or_limit_def)
  obtain e1 e2 e3 where e: "co_audit (sc_coord s1) = map_option (audit_log e1) (co_audit (sc_coord s))"
      "(we_key e1, we_value e1) = (rg_name REG_BAT_CHARGE_DC_ABS_POWER, VFloat (FFin 0))"
      "co_audit (sc_coord s2) = map_option (audit_log e2) (co_audit (sc_coord s1))"
      "(we_key e2, we_value e2) = (rg_name REG_BAT_MAX_CHARGE_LIMIT, VFloat ?c)"
      "co_audit (sc_coord s3) = map_option (audit_log e3) (co_audit (sc_coord s2))"
      "(we_key e3, we_value e3) = (rg_name REG_BAT_MAX_DISCHARGE_LIMIT, VFloat ?d)"
    using soc_write_event [OF limit_registers_rw(1) f(3), of env ha s]
      soc_write_event [OF limit_registers_rw(2) f(1), of env ha s1]
      soc_write_event [OF limit_registers_rw(3) f(2), of env ha s2]
    unfolding s1_def [symmetric] s2_def [symmetric] s3_def [symmetric] by blast
  have "co_audit (sc_coord s3) = map_option (fold audit_log [e1, e2, e3]) (co_audit (sc_coord s))"
    using e(1,3,5) by (cases "co_audit (sc_coord s)") simp_all
  then show "\<exists>es. co_audit (sc_coord (write_normal env ha s)) = map_option (fold audit_log es) (co_audit (sc_coord s))
    \<and> commands_of es = [(rg_name REG_BAT_CHARGE_DC_ABS_POWER, VFloat (FFin 0)),
        (rg_name REG_BAT_MAX_CHARGE_LIMIT, VFloat ?c), (rg_name REG_BAT_MAX_DISCHARGE_LIMIT, VFloat ?d)]"
    using e(2,4,6) unfolding w commands_of_def by (intro exI [of _ "[e1, e2, e3]"]) simp
  show "sc_orig_charge (write_normal env ha s) = None" "sc_orig_discharge (write_normal env ha s) = None"
    unfolding w by simp_all
qed

text \<open>A stop of a loop that has begun, while the link stays up, writes the registers twice: the end of
  the loop restores the limits that were read before control, and forgets them; the stop then
  writes again and, with nothing remembered, sets both limits to the device's maximum. The
  user's own limits are lost.\<close>

lemma stop_overwrites_restored_limits:
  "sc_task s = TaskRunning lp \<Longrightarrow> lp_started lp \<Longrightarrow> finite_limits s \<Longrightarrow>
   soc_linked env s \<Longrightarrow> soc_linked env (loop_release env ha (loop_exit s)) \<Longrightarrow>
   \<exists>es. co_audit (sc_coord (soc_stop env ha s)) = map_option (fold audit_log es) (co_audit (sc_coord s))
     \<and> commands_of es = [
        (''bat_charge_dc_abs_power'', VFloat (FFin 0)),
        (''bat_max_charge_limit'', VFloat (or_limit s (sc_orig_charge s))),
        (''bat_max_discharge_limit'', VFloat (or_limit s (sc_orig_discharge s))),
        (''bat_charge_dc_abs_power'', VFloat (FFin 0)),
        (''bat_max_charge_limit'', VFloat (sc_limit s)),
        (''bat_max_discharge_limit'', VFloat (sc_limit s))]"
proof -
  assume t: "sc_task s = TaskRunning lp" "lp_started lp" and f: "finite_limits s"
    and l: "soc_linked env s" "soc_linked env (loop_release env ha (loop_exit s))"
  let ?x = "loop_exit s" and ?r = "loop_release env ha (loop_exit s)"
  let ?y = "?r\<lparr>sc_task := TaskNone, sc_target := None, sc_status := StIdle\<rparr>"
  have x: "soc_linked env ?x" "finite_limits ?x" "sc_coord ?x = sc_coord s" "or_limit ?x = or_limit s"
    "sc_orig_charge ?x = sc_orig_charge s" "sc_orig_discharge ?x = sc_orig_discharge s" "sc_limit ?x = sc_limit s"
    using l(1) f by (simp_all add: soc_linked_def finite_limits_def loop_exit_def or_limit_def fun_eq_iff split: option.split)
  have r: "sc_coord ?r = sc_coord (write_normal env ha ?x)" "sc_orig_charge ?r = None" "sc_orig_discharge ?r = None"
    "sc_limit ?r = sc_limit s"
    using write_normal_events(2,3) [OF x(1,2), of ha] x(7) by (simp_all add: loop_release_def Let_def)
  have y: "soc_linked env ?y" "finite_limits ?y" "or_limit ?y None = sc_limit s"
    using l(2) f r by (simp_all add: soc_linked_def finite_limits_def or_limit_def)
  have s: "sc_coord (soc_stop env ha s) = sc_coord (write_normal env ha ?y)"
    using t by (simp add: soc_stop_def Let_def)
  obtain es where es: "co_audit (sc_coord ?r) = map_option (fold audit_log es) (co_audit (sc_coord s))"
    "commands_of es = [(rg_name REG_BAT_CHARGE_DC_ABS_POWER, VFloat (FFin 0)),
        (rg_name REG_BAT_MAX_CHARGE_LIMIT, VFloat (or_limit s (sc_orig_charge s))),
        (rg_name REG_BAT_MAX_DISCHARGE_LIMIT, VFloat (or_limit s (sc_orig_discharge s)))]"
    using write_normal_events(1) [OF x(1,2), of ha] unfolding r(1) x(3-6) by blast
  obtain fs where fs: "co_audit (sc_coord (soc_stop env ha s)) = map_option (fold audit_log fs) (co_audit (sc_coord ?r))"
    "commands_of fs = [(rg_name REG_BAT_CHARGE_DC_ABS_POWER, VFloat (FFin 0)),
        (rg_name REG_BAT_MAX_CHARGE_LIMIT, VFloat (sc_limit s)), (rg_name REG_BAT_MAX_DISCHARGE_LIMIT, VFloat (sc_limit s))]"
    using write_normal_events(1) [OF y(1,2), of ha] r(2,3) y(3) unfolding s by auto
  have "co_audit (sc_coord (soc_stop env ha s)) = map_option (fold audit_log (es @ fs)) (co_audit (sc_coord s))"
    using es(1) fs(1) by (cases "co_audit (sc_coord s)") simp_all
  then show ?thesis
    using es(2) fs(2) by (intro exI [of _ "es @ fs"])
      (simp add: commands_of_def REG_BAT_CHARGE_DC_ABS_POWER_def REG_BAT_MAX_CHARGE_LIMIT_def
        REG_BAT_MAX_DISCHARGE_LIMIT_def)
qed

text \<open>In the memory device writes never drop the connection.\<close>

definition mem_up :: "(nat \<Rightarrow> 16 word) client \<Rightarrow> bool" where
  "mem_up c \<longleftrightarrow> \<not> cl_closing c \<and> cl_has_client c"

lemma mem_raw_write_up: "mem_up c \<Longrightarrow> raw_write mem_env a bs n c = (x, d) \<Longrightarrow> mem_up d \<and> (x = Inr () \<or> x \<in> range (Inl \<circ> PyExc))"
  by (auto simp: mem_up_def raw_write_def with_scheduler_def raw_write_inner_def client_closing_def
      client_connected_def log_io_def Let_def mem_env_def split: sum.splits if_splits)

lemma mem_write_up:
  assumes "mem_up c"
  shows "mem_up (snd (write_register mem_env r v None c))"
proof -
  have "mem_up (snd (write_loop k mem_env r bs None c))" for k bs
  proof -
    obtain x d where w: "raw_write mem_env (rg_address r) bs (rg_count r) c = (x, d)" by fastforce
    show ?thesis using mem_raw_write_up [OF assms w] w
      by (cases k) (auto simp: write_loop_0 write_loop_Suc retry_allowed_def is_conn_error_def)
  qed
  then show ?thesis using assms by (simp add: write_register_def split: sum.split)
qed

lemma record_commanded_client [simp]: "co_client (snd (record_commanded n v c)) = co_client c"
  by (simp add: record_commanded_def Let_def split: sum.split)

lemma mem_soc_write_up:
  assumes "mem_up (co_client (sc_coord s))"
  shows "mem_up (co_client (sc_coord (snd (soc_write mem_env ha r x s))))"
proof -
  let ?c = "pop_observation (rg_name r) (sc_coord s)"
  have "mem_up (snd (write_register mem_env r (VFloat x) None (co_client ?c)))"
    using assms mem_write_up by (simp add: pop_observation_def)
  then show ?thesis using assms
    by (auto simp: soc_write_def async_write_register_def sbind_def on_client_def split_beta Let_def
        split: sum.split)
qed

lemma mem_write_normal_up:
  assumes "mem_up (co_client (sc_coord s))"
  shows "mem_up (co_client (sc_coord (write_normal mem_env ha s)))"
  using assms by (simp add: write_normal_def Let_def mem_soc_write_up)

lemma up_linked: "mem_up (co_client (sc_coord s)) \<Longrightarrow> soc_linked mem_env s"
  by (simp add: mem_up_def soc_linked_def client_closing_def client_connected_def)

lemma stop_overwrites_restored_limits_witness:
  "\<exists>s :: (nat \<Rightarrow> 16 word) soc. sc_orig_charge s = Some (FFin 2000) \<and> sc_limit s = FFin 10000 \<and>
   (\<exists>es. co_audit (sc_coord (soc_stop mem_env test_ha s)) = Some (fold audit_log es (audit_new 200))
     \<and> (''bat_max_charge_limit'', VFloat (FFin 2000)) = commands_of es ! 1
     \<and> (''bat_max_charge_limit'', VFloat (FFin 10000)) = commands_of es ! 4)"
proof -
  obtain s0 :: "(nat \<Rightarrow> 16 word) soc" where s0: "soc_new (test_coord (\<lambda>_. 0)) None = Inr s0"
    using test_soc_new by blast
  let ?lp = "new_loop\<lparr>lp_started := True\<rparr>"
  define s where "s = s0\<lparr>sc_coord := (test_coord (\<lambda>_. 0))\<lparr>co_audit := Some (audit_new 200)\<rparr>,
    sc_limit := FFin 10000, sc_orig_charge := Some (FFin 2000), sc_orig_discharge := Some (FFin 3000),
    sc_task := TaskRunning ?lp\<rparr>"
  have u: "mem_up (co_client (sc_coord s))"
    by (simp add: s_def mem_up_def test_coord_def coord_new_def client_new_def)
  then have "mem_up (co_client (sc_coord (loop_exit s)))" by (simp add: loop_exit_def)
  then have "mem_up (co_client (sc_coord (loop_release mem_env test_ha (loop_exit s))))"
    using mem_write_normal_up by (simp add: loop_release_def Let_def)
  then have l: "soc_linked mem_env s" "soc_linked mem_env (loop_release mem_env test_ha (loop_exit s))"
    using u up_linked by blast+
  have f: "finite_limits s" by (simp add: finite_limits_def s_def not_finite_float_def)
  have t: "sc_task s = TaskRunning ?lp" "lp_started ?lp" by (simp_all add: s_def)
  obtain es where "co_audit (sc_coord (soc_stop mem_env test_ha s)) = map_option (fold audit_log es) (co_audit (sc_coord s))"
    "commands_of es = [
        (''bat_charge_dc_abs_power'', VFloat (FFin 0)),
        (''bat_max_charge_limit'', VFloat (or_limit s (sc_orig_charge s))),
        (''bat_max_discharge_limit'', VFloat (or_limit s (sc_orig_discharge s))),
        (''bat_charge_dc_abs_power'', VFloat (FFin 0)),
        (''bat_max_charge_limit'', VFloat (sc_limit s)),
        (''bat_max_discharge_limit'', VFloat (sc_limit s))]"
    using stop_overwrites_restored_limits [OF t f l] by blast
  then show ?thesis
    by (intro exI [of _ s]) (auto simp: s_def or_limit_def)
qed

section \<open>The watchdog\<close>

text \<open>The pause after a control turn lets the controller write again before the inverter's watchdog:
  it is between one and ten seconds, and after it at most fourteen seconds have passed since the
  last successful write, unless they had passed already (then it is one second).\<close>

lemma pause_feeds_watchdog:
  "1 \<le> cycle_pause env s \<and> cycle_pause env s \<le> POLL_INTERVAL
     \<and> (sc_last_write s \<le> 0 \<or> soc_now env s < sc_last_write s
        \<or> soc_now env s + cycle_pause env s < sc_last_write s + KEEPALIVE_INTERVAL
        \<or> cycle_pause env s = 1)"
  by (auto simp: cycle_pause_def soc_consts max_def min_def)

end
