(* ===== verification/ChargeBlock.thy ===== *)
theory ChargeBlock
  imports SocEnds
begin

text \<open>
  The charge limit register as the two switches use it, and the switch that blocks charging
  (\<^verbatim>\<open>charge_block_switch.py\<close>). A call of the user and one write of the keep-alive task
  are one step each; the task sleeps between its writes. Notifications and the state shown to
  Home Assistant are not modelled.
\<close>

section \<open>The charge limit register\<close>

definition limit_write ::
    "'w env \<Rightarrow> 'w ha_env \<Rightarrow> pyfloat \<Rightarrow> 'w coord \<Rightarrow> (modbus_error + unit) \<times> 'w coord" where
  "limit_write env ha x = async_write_register env ha REG_BAT_MAX_CHARGE_LIMIT (VFloat x) ''modbus_coord'' None True"

text \<open>
  The limit before a feature takes over, read unless one is remembered already. The exceptions
  the code does not catch are the left side.
\<close>

definition snapshot_charge_limit ::
    "'w env \<Rightarrow> pyfloat option \<Rightarrow> 'w coord \<Rightarrow> (modbus_error + unit) \<times> pyfloat option \<times> 'w coord" where
  "snapshot_charge_limit env orig c = (case orig of
     Some _ \<Rightarrow> (Inr (), orig, c)
   | None \<Rightarrow> (case on_client (read_register env REG_BAT_MAX_CHARGE_LIMIT) c of
       (Inl e, c1) \<Rightarrow> (if snapshot_caught e then Inr () else Inl e, None, c1)
     | (Inr v, c1) \<Rightarrow> (case float_of_val v of
         Inl e \<Rightarrow> (if snapshot_caught (PyExc e) then Inr () else Inl (PyExc e), None, c1)
       | Inr x \<Rightarrow> (Inr (), if \<not> is_nan x \<and> \<not> is_inf x \<and> fle (FFin 0) x then Some x else None, c1))))"

section \<open>State\<close>

record 'w block =
  cb_coord :: "'w coord"
  cb_slot :: owner_slot
  cb_normal :: pyfloat
  cb_on :: bool
  cb_keep :: bool
  cb_orig :: "pyfloat option"

datatype switch_error = SnapshotRaised modbus_error | OwnerRefused owner_error | BlockFailed

definition block_new :: "'w coord \<Rightarrow> owner_slot \<Rightarrow> pyexc + 'w block" where
  "block_new c slot = bind_res (get_device_power_limit_w (Some (co_device_info c)) DEFAULT_CONTROL_LIMIT_W)
     (\<lambda>limit. Inr \<lparr>cb_coord = c, cb_slot = slot, cb_normal = limit, cb_on = False, cb_keep = False,
        cb_orig = None\<rparr>)"

definition block_write :: "'w env \<Rightarrow> 'w ha_env \<Rightarrow> pyfloat \<Rightarrow> 'w block \<Rightarrow> (modbus_error + unit) \<times> 'w block" where
  "block_write env ha x s = (let (r, c) = limit_write env ha x (cb_coord s) in (r, s\<lparr>cb_coord := c\<rparr>))"

section \<open>Operations\<close>

definition block_restore_limit :: "'w block \<Rightarrow> pyfloat \<times> 'w block" where
  "block_restore_limit s =
     ((case cb_orig s of Some x \<Rightarrow> x | None \<Rightarrow> cb_normal s), s\<lparr>cb_orig := None\<rparr>)"

definition block_turn_on :: "'w env \<Rightarrow> 'w ha_env \<Rightarrow> 'w block \<Rightarrow> (switch_error + unit) \<times> 'w block" where
  "block_turn_on env ha s =
     (let (r, orig, c) = snapshot_charge_limit env (cb_orig s) (cb_coord s);
          s1 = s\<lparr>cb_coord := c, cb_orig := orig\<rparr>
      in case r of
           Inl e \<Rightarrow> (Inl (SnapshotRaised e), s1)
         | Inr _ \<Rightarrow> (case acquire_or_raise OWNER_CHARGE_BLOCK (cb_slot s1) of
             (Inl e, slot) \<Rightarrow> (Inl (OwnerRefused e), s1\<lparr>cb_slot := slot\<rparr>)
           | (Inr _, slot) \<Rightarrow> (case block_write env ha (FFin 0) (s1\<lparr>cb_slot := slot\<rparr>) of
               (Inl e, s2) \<Rightarrow> (Inl BlockFailed,
                  s2\<lparr>cb_orig := None, cb_slot := release_reg_1038 OWNER_CHARGE_BLOCK (cb_slot s2)\<rparr>)
             | (Inr _, s2) \<Rightarrow> (Inr (), s2\<lparr>cb_on := True, cb_keep := True\<rparr>))))"

definition block_turn_off :: "'w env \<Rightarrow> 'w ha_env \<Rightarrow> 'w block \<Rightarrow> 'w block" where
  "block_turn_off env ha s =
     (let (x, s1) = block_restore_limit (s\<lparr>cb_keep := False\<rparr>);
          s2 = snd (block_write env ha x s1)
      in s2\<lparr>cb_on := False, cb_slot := release_reg_1038 OWNER_CHARGE_BLOCK (cb_slot s2)\<rparr>)"

text \<open>What the keep-alive task does after its sleep: it ends when the switch is off or a write fails.\<close>

definition block_keepalive :: "'w env \<Rightarrow> 'w ha_env \<Rightarrow> 'w block \<Rightarrow> 'w block" where
  "block_keepalive env ha s =
     (if \<not> cb_keep s then s
      else if \<not> cb_on s then s\<lparr>cb_keep := False\<rparr>
      else case block_write env ha (FFin 0) s of
        (Inr _, s1) \<Rightarrow> s1 | (Inl e, s1) \<Rightarrow> s1\<lparr>cb_keep := False\<rparr>)"

definition block_remove :: "'w env \<Rightarrow> 'w ha_env \<Rightarrow> 'w block \<Rightarrow> 'w block" where
  "block_remove env ha s =
     (let s0 = s\<lparr>cb_keep := False\<rparr>
      in if cb_on s0
         then let (x, s1) = block_restore_limit (s0\<lparr>cb_on := False\<rparr>);
                  s2 = snd (block_write env ha x s1)
              in s2\<lparr>cb_slot := release_reg_1038 OWNER_CHARGE_BLOCK (cb_slot s2)\<rparr>
         else s0)"

datatype block_event = BlockOn | BlockOff | BlockKeepalive | BlockRemove

fun block_step :: "'w env \<Rightarrow> 'w ha_env \<Rightarrow> 'w block \<Rightarrow> block_event \<Rightarrow> 'w block" where
  "block_step env ha s BlockOn = snd (block_turn_on env ha s)"
| "block_step env ha s BlockOff = block_turn_off env ha s"
| "block_step env ha s BlockKeepalive = block_keepalive env ha s"
| "block_step env ha s BlockRemove = block_remove env ha s"

section \<open>Ownership\<close>

definition block_inv :: "'w block \<Rightarrow> bool" where
  "block_inv s \<longleftrightarrow> (cb_on s \<longrightarrow> get_owner_manager (cb_slot s) = Some OWNER_CHARGE_BLOCK)
     \<and> (cb_keep s \<longrightarrow> cb_on s)"

lemma block_write_fields [simp]:
  "cb_slot (snd (block_write env ha x s)) = cb_slot s" "cb_on (snd (block_write env ha x s)) = cb_on s"
  "cb_keep (snd (block_write env ha x s)) = cb_keep s" "cb_orig (snd (block_write env ha x s)) = cb_orig s"
  "cb_normal (snd (block_write env ha x s)) = cb_normal s"
  by (simp_all add: block_write_def split_beta)

lemma block_new_inv: "block_new c slot = Inr s \<Longrightarrow> block_inv s \<and> cb_slot s = slot"
  by (auto simp: block_new_def bind_res_Inr_iff block_inv_def)

text \<open>A call that turns on a switch that is on already is left out here; see below.\<close>

definition block_calm :: "'w block \<Rightarrow> block_event \<Rightarrow> bool" where
  "block_calm s e \<longleftrightarrow> e = BlockOn \<longrightarrow> \<not> cb_on s"

lemma turn_on_cases:
  obtains (failed) x c where "snd (block_turn_on env ha s) = s\<lparr>cb_coord := c, cb_orig := x\<rparr>"
      "\<exists>e. fst (block_turn_on env ha s) = Inl (SnapshotRaised e)"
  | (refused) x c where "snd (block_turn_on env ha s) =
        s\<lparr>cb_coord := c, cb_orig := x, cb_slot := snd (acquire_or_raise OWNER_CHARGE_BLOCK (cb_slot s))\<rparr>"
      "fst (acquire_or_raise OWNER_CHARGE_BLOCK (cb_slot s)) \<noteq> Inr ()" "\<exists>e. fst (block_turn_on env ha s) = Inl (OwnerRefused e)"
  | (unwritten) c where "snd (block_turn_on env ha s) = s\<lparr>cb_coord := c, cb_orig := None,
        cb_slot := release_reg_1038 OWNER_CHARGE_BLOCK (snd (acquire_or_raise OWNER_CHARGE_BLOCK (cb_slot s)))\<rparr>"
      "fst (acquire_or_raise OWNER_CHARGE_BLOCK (cb_slot s)) = Inr ()" "fst (block_turn_on env ha s) = Inl BlockFailed"
  | (on) x c where "snd (block_turn_on env ha s) = s\<lparr>cb_coord := c, cb_orig := x, cb_on := True, cb_keep := True,
        cb_slot := snd (acquire_or_raise OWNER_CHARGE_BLOCK (cb_slot s))\<rparr>"
      "fst (acquire_or_raise OWNER_CHARGE_BLOCK (cb_slot s)) = Inr ()" "fst (block_turn_on env ha s) = Inr ()"
proof -
  obtain r orig c where sn: "snapshot_charge_limit env (cb_orig s) (cb_coord s) = (r, orig, c)" by (metis prod_cases3)
  obtain a slot where a: "acquire_or_raise OWNER_CHARGE_BLOCK (cb_slot s) = (a, slot)" by fastforce
  obtain b c2 where b: "limit_write env ha (FFin 0) c = (b, c2)" by fastforce
  note d = block_turn_on_def block_write_def Let_def
  show ?thesis
  proof (cases r)
    case (Inl e)
    then show ?thesis using failed [of orig c] sn by (simp add: d)
  next
    case r: (Inr u)
    show ?thesis
    proof (cases a)
      case (Inl e)
      then show ?thesis using refused [of orig c] sn r a by (simp add: d)
    next
      case a': (Inr u)
      show ?thesis
      proof (cases b)
        case (Inl e)
        then show ?thesis using unwritten [of c2] sn r a a' b by (simp add: d)
      next
        case (Inr u)
        then show ?thesis using on [of orig c2] sn r a a' b by (simp add: d)
      qed
    qed
  qed
qed

lemma block_step_inv: "block_inv s \<Longrightarrow> block_calm s e \<Longrightarrow> block_inv (block_step env ha s e)"
proof (cases e)
  case BlockOn
  assume i: "block_inv s" "block_calm s e"
  show ?thesis
    using i acquire_owner [of OWNER_CHARGE_BLOCK "cb_slot s"] acquire_ok_iff [of OWNER_CHARGE_BLOCK "cb_slot s"]
    unfolding BlockOn block_calm_def
    by (cases rule: turn_on_cases [of env ha s]) (auto simp: block_inv_def)
qed (auto simp: block_inv_def block_turn_off_def block_keepalive_def block_remove_def block_restore_limit_def
    Let_def split_beta split: sum.split)

end
