(* ===== verification/GridLimiter.thy ===== *)
theory GridLimiter
  imports ChargeBlock
begin

text \<open>
  The grid feed-in optimizer (\<^verbatim>\<open>grid_charge_limiter.py\<close>): a switch whose control loop
  limits the battery's charging to the surplus above the feed-in limit.

  One turn of the loop, up to its sleep, is a step. A cancelled task runs its end when the event
  loop gets to it, so the cancelled tasks that have begun are counted and their end is a step of
  its own. The end of a task is one step. In the code it awaits the write that restores the limit
  before it releases register 1038; a turn-on during that await, which would take the register
  again and then lose it to the release of the old task, is not among the steps.
\<close>

section \<open>State\<close>

definition CONTROL_INTERVAL :: rat where "CONTROL_INTERVAL = 10"
definition MIN_CHARGE_POWER_W :: pyfloat where "MIN_CHARGE_POWER_W = FFin 100"

text \<open>The task: none that is alive, or one that has or has not begun.\<close>

record 'w limiter =
  gl_coord :: "'w coord"
  gl_slot :: owner_slot
  gl_limit :: pyfloat
  gl_failed :: nat
  gl_on :: bool
  gl_task :: "bool option"
  gl_dying :: nat
  gl_feed_in :: pyfloat
  gl_current :: pyfloat
  gl_orig :: "pyfloat option"
  gl_handled :: bool

definition limiter_new :: "'w coord \<Rightarrow> owner_slot \<Rightarrow> pyexc + 'w limiter" where
  "limiter_new c slot = bind_res (get_device_power_limit_w (Some (co_device_info c)) DEFAULT_CONTROL_LIMIT_W)
     (\<lambda>limit. bind_res (default_feed_in_limit_w limit) (\<lambda>feed_in.
       Inr \<lparr>gl_coord = c, gl_slot = slot, gl_limit = limit, gl_failed = 0, gl_on = False, gl_task = None,
         gl_dying = 0, gl_feed_in = feed_in, gl_current = FFin 0, gl_orig = None, gl_handled = False\<rparr>))"

definition set_feed_in_limit :: "pyfloat \<Rightarrow> 'w limiter \<Rightarrow> 'w limiter" where
  "set_feed_in_limit watts s = s\<lparr>gl_feed_in := py_max (FFin 0) (py_min (gl_limit s) watts)\<rparr>"

section \<open>Registers\<close>

definition limiter_write :: "'w env \<Rightarrow> 'w ha_env \<Rightarrow> pyfloat \<Rightarrow> 'w limiter \<Rightarrow> 'w limiter" where
  "limiter_write env ha x s = s\<lparr>gl_coord := snd (limit_write env ha x (gl_coord s))\<rparr>"

definition limiter_read :: "'w env \<Rightarrow> modbus_register \<Rightarrow> 'w limiter \<Rightarrow> pyfloat option \<times> 'w limiter" where
  "limiter_read env r s = (let (res, c) = on_client (read_register env r) (gl_coord s); s1 = s\<lparr>gl_coord := c\<rparr>
     in case res of
          Inl e \<Rightarrow> (None, s1)
        | Inr v \<Rightarrow> (case float_of_val v of
            Inl e \<Rightarrow> (None, s1)
          | Inr x \<Rightarrow> (if is_nan x \<or> is_inf x then None else Some x, s1)))"

definition limiter_restore_limit :: "'w limiter \<Rightarrow> pyfloat \<times> 'w limiter" where
  "limiter_restore_limit s =
     ((case gl_orig s of Some x \<Rightarrow> x | None \<Rightarrow> gl_limit s), s\<lparr>gl_orig := None\<rparr>)"

section \<open>The control loop\<close>

definition charge_limit_for :: "pyfloat \<Rightarrow> pyfloat \<Rightarrow> pyfloat \<Rightarrow> pyfloat \<Rightarrow> pyfloat" where
  "charge_limit_for device_limit feed_in pv home =
     (let surplus = fsub (fsub (dc_pv_power_to_ac_estimate_w pv) home) feed_in;
          new_limit = (if flt MIN_CHARGE_POWER_W surplus then surplus else FFin 0)
      in py_max (FFin 0) (py_min device_limit new_limit))"

definition limiter_turn :: "'w env \<Rightarrow> 'w ha_env \<Rightarrow> 'w limiter \<Rightarrow> 'w limiter" where
  "limiter_turn env ha s =
     (let (pv, s1) = limiter_read env REG_TOTAL_DC_POWER s;
          (home_pv, s2) = limiter_read env REG_HOME_FROM_PV s1;
          (home_bat, s3) = limiter_read env REG_HOME_FROM_BATTERY s2;
          (home_grid, s4) = limiter_read env REG_HOME_FROM_GRID s3
      in case pv of
           None \<Rightarrow> s4\<lparr>gl_failed := gl_failed s4 + 1\<rparr>
         | Some p \<Rightarrow>
             (let s5 = s4\<lparr>gl_failed := 0\<rparr>
              in case sum_home_consumption_power_w home_pv home_bat home_grid of
                   None \<Rightarrow> s5
                 | Some home \<Rightarrow>
                     (let x = charge_limit_for (gl_limit s5) (gl_feed_in s5) p home
                      in limiter_write env ha x (s5\<lparr>gl_current := x\<rparr>))))"

text \<open>The end of a task: restore and release, unless a turn-off does both.\<close>

definition limiter_end :: "'w env \<Rightarrow> 'w ha_env \<Rightarrow> 'w limiter \<Rightarrow> 'w limiter" where
  "limiter_end env ha s =
     (let s0 = s\<lparr>gl_on := False\<rparr>;
          s1 = (if gl_handled s0 then s0
                else let (x, s') = limiter_restore_limit s0 in limiter_write env ha x s');
          handled = gl_handled s1;
          s2 = s1\<lparr>gl_handled := False\<rparr>
      in if handled then s2 else s2\<lparr>gl_slot := release_reg_1038 OWNER_GRID_FEEDIN (gl_slot s2)\<rparr>)"

definition limiter_tick :: "'w env \<Rightarrow> 'w ha_env \<Rightarrow> 'w limiter \<Rightarrow> 'w limiter" where
  "limiter_tick env ha s = (case gl_task s of
     None \<Rightarrow> s
   | Some _ \<Rightarrow> if gl_on s then limiter_turn env ha (s\<lparr>gl_task := Some True\<rparr>)
               else limiter_end env ha (s\<lparr>gl_task := None\<rparr>))"

text \<open>A cancelled task that has not begun never runs.\<close>

definition cancel_control :: "'w limiter \<Rightarrow> 'w limiter" where
  "cancel_control s = s\<lparr>gl_task := None,
     gl_dying := gl_dying s + (if gl_task s = Some True then 1 else 0)\<rparr>"

definition limiter_cancelled :: "'w env \<Rightarrow> 'w ha_env \<Rightarrow> 'w limiter \<Rightarrow> 'w limiter" where
  "limiter_cancelled env ha s =
     (if gl_dying s = 0 then s else limiter_end env ha (s\<lparr>gl_dying := gl_dying s - 1\<rparr>))"

section \<open>The switch\<close>

definition limiter_turn_on :: "'w env \<Rightarrow> 'w limiter \<Rightarrow> (switch_error + unit) \<times> 'w limiter" where
  "limiter_turn_on env s =
     (let s0 = s\<lparr>gl_handled := False\<rparr>;
          (r, orig, c) = snapshot_charge_limit env (gl_orig s0) (gl_coord s0);
          s1 = s0\<lparr>gl_coord := c, gl_orig := orig\<rparr>
      in case r of
           Inl e \<Rightarrow> (Inl (SnapshotRaised e), s1)
         | Inr _ \<Rightarrow> (case acquire_or_raise OWNER_GRID_FEEDIN (gl_slot s1) of
             (Inl e, slot) \<Rightarrow> (Inl (OwnerRefused e), s1\<lparr>gl_slot := slot\<rparr>)
           | (Inr _, slot) \<Rightarrow>
               (Inr (), (cancel_control (s1\<lparr>gl_slot := slot, gl_on := True\<rparr>))\<lparr>gl_task := Some False\<rparr>)))"

text \<open>Turning off waits for the end of the task it cancels, then restores and releases itself.\<close>

definition limiter_turn_off :: "'w env \<Rightarrow> 'w ha_env \<Rightarrow> 'w limiter \<Rightarrow> 'w limiter" where
  "limiter_turn_off env ha s =
     (let s0 = s\<lparr>gl_on := False, gl_handled := True\<rparr>;
          s1 = (if gl_task s0 = Some True then limiter_end env ha (s0\<lparr>gl_task := None\<rparr>) else s0\<lparr>gl_task := None\<rparr>);
          (x, s2) = limiter_restore_limit s1;
          s3 = limiter_write env ha x s2
      in s3\<lparr>gl_slot := release_reg_1038 OWNER_GRID_FEEDIN (gl_slot s3), gl_current := FFin 0, gl_failed := 0\<rparr>)"

definition limiter_remove :: "'w env \<Rightarrow> 'w ha_env \<Rightarrow> 'w limiter \<Rightarrow> 'w limiter" where
  "limiter_remove env ha s =
     (let s1 = cancel_control s
      in if gl_on s1
         then let (x, s2) = limiter_restore_limit (s1\<lparr>gl_on := False\<rparr>); s3 = limiter_write env ha x s2
              in s3\<lparr>gl_slot := release_reg_1038 OWNER_GRID_FEEDIN (gl_slot s3)\<rparr>
         else s1)"

datatype limiter_event = LimiterOn | LimiterOff | LimiterTick | LimiterCancelled | LimiterRemove
  | LimiterFeedIn pyfloat

fun limiter_step :: "'w env \<Rightarrow> 'w ha_env \<Rightarrow> 'w limiter \<Rightarrow> limiter_event \<Rightarrow> 'w limiter" where
  "limiter_step env ha s LimiterOn = snd (limiter_turn_on env s)"
| "limiter_step env ha s LimiterOff = limiter_turn_off env ha s"
| "limiter_step env ha s LimiterTick = limiter_tick env ha s"
| "limiter_step env ha s LimiterCancelled = limiter_cancelled env ha s"
| "limiter_step env ha s LimiterRemove = limiter_remove env ha s"
| "limiter_step env ha s (LimiterFeedIn w) = set_feed_in_limit w s"

section \<open>Ownership\<close>

definition limiter_inv :: "'w limiter \<Rightarrow> bool" where
  "limiter_inv s \<longleftrightarrow> (gl_on s \<longrightarrow> get_owner_manager (gl_slot s) = Some OWNER_GRID_FEEDIN)"

text \<open>Reads and writes change the coordinator, a turn also the measured values.\<close>

definition same_control :: "'w limiter \<Rightarrow> 'w limiter \<Rightarrow> bool" where
  "same_control s t \<longleftrightarrow> gl_slot t = gl_slot s \<and> gl_on t = gl_on s \<and> gl_task t = gl_task s
     \<and> gl_dying t = gl_dying s \<and> gl_handled t = gl_handled s \<and> gl_orig t = gl_orig s
     \<and> gl_limit t = gl_limit s \<and> gl_feed_in t = gl_feed_in s"

lemma same_control_update [simp]:
  "same_control s (t\<lparr>gl_coord := c\<rparr>) = same_control s t" "same_control s (t\<lparr>gl_failed := n\<rparr>) = same_control s t"
  "same_control s (t\<lparr>gl_current := x\<rparr>) = same_control s t" "same_control s s"
  by (simp_all add: same_control_def)

lemma limiter_io_control [simp]:
  "same_control s (limiter_write env ha x t) = same_control s t"
  "same_control s (snd (limiter_read env r t)) = same_control s t"
  by (simp_all add: limiter_write_def limiter_read_def split_beta Let_def split: sum.split)

lemma limiter_turn_control [simp]: "same_control s (limiter_turn env ha t) = same_control s t"
  by (simp add: limiter_turn_def Let_def split_beta split: option.split)

lemmas same_controlD = same_control_def [THEN iffD1]

lemma limiter_write_fields [simp]:
  "gl_slot (limiter_write env ha x t) = gl_slot t" "gl_on (limiter_write env ha x t) = gl_on t"
  "gl_task (limiter_write env ha x t) = gl_task t" "gl_dying (limiter_write env ha x t) = gl_dying t"
  "gl_handled (limiter_write env ha x t) = gl_handled t" "gl_orig (limiter_write env ha x t) = gl_orig t"
  "gl_limit (limiter_write env ha x t) = gl_limit t"
  by (simp_all add: limiter_write_def)

lemma limiter_end_fields:
  "\<not> gl_on (limiter_end env ha s)" "\<not> gl_handled (limiter_end env ha s)"
  "gl_slot (limiter_end env ha s) = (if gl_handled s then gl_slot s else release_reg_1038 OWNER_GRID_FEEDIN (gl_slot s))"
  by (simp_all add: limiter_end_def limiter_restore_limit_def Let_def)

lemma limiter_new_inv: "limiter_new c slot = Inr s \<Longrightarrow> limiter_inv s \<and> gl_slot s = slot"
  by (auto simp: limiter_new_def bind_res_Inr_iff limiter_inv_def)

lemma limiter_on_cases:
  obtains (failed) x c where "snd (limiter_turn_on env s) = s\<lparr>gl_handled := False, gl_coord := c, gl_orig := x\<rparr>"
      "\<exists>e. fst (limiter_turn_on env s) = Inl (SnapshotRaised e)"
  | (refused) x c where "snd (limiter_turn_on env s) = s\<lparr>gl_handled := False, gl_coord := c, gl_orig := x,
        gl_slot := snd (acquire_or_raise OWNER_GRID_FEEDIN (gl_slot s))\<rparr>"
      "fst (acquire_or_raise OWNER_GRID_FEEDIN (gl_slot s)) \<noteq> Inr ()"
      "\<exists>e. fst (limiter_turn_on env s) = Inl (OwnerRefused e)"
  | (on) x c where "snd (limiter_turn_on env s) = (cancel_control (s\<lparr>gl_handled := False, gl_coord := c, gl_orig := x,
        gl_slot := snd (acquire_or_raise OWNER_GRID_FEEDIN (gl_slot s)), gl_on := True\<rparr>))\<lparr>gl_task := Some False\<rparr>"
      "fst (acquire_or_raise OWNER_GRID_FEEDIN (gl_slot s)) = Inr ()" "fst (limiter_turn_on env s) = Inr ()"
proof -
  obtain r orig c where sn: "snapshot_charge_limit env (gl_orig s) (gl_coord s) = (r, orig, c)" by (metis prod_cases3)
  obtain a slot where a: "acquire_or_raise OWNER_GRID_FEEDIN (gl_slot s) = (a, slot)" by fastforce
  note d = limiter_turn_on_def Let_def
  show ?thesis
  proof (cases r)
    case (Inl e)
    then show ?thesis using failed [of orig c] sn by (simp add: d)
  next
    case r: (Inr u)
    show ?thesis
    proof (cases a)
      case (Inl e)
      then show ?thesis using refused [of orig c] sn r a by (simp add: d)
    next
      case (Inr u)
      then show ?thesis using on [of orig c] sn r a by (simp add: d)
    qed
  qed
qed

lemma limiter_step_inv: "limiter_inv s \<Longrightarrow> limiter_inv (limiter_step env ha s e)"
proof (cases e)
  case LimiterOn
  assume i: "limiter_inv s"
  show ?thesis
    using i acquire_owner [of OWNER_GRID_FEEDIN "gl_slot s"] acquire_ok_iff [of OWNER_GRID_FEEDIN "gl_slot s"]
    unfolding LimiterOn
    by (cases rule: limiter_on_cases [of env s]) (auto simp: limiter_inv_def cancel_control_def)
next
  case LimiterTick
  assume i: "limiter_inv s"
  have "same_control (s\<lparr>gl_task := Some True\<rparr>) (limiter_turn env ha (s\<lparr>gl_task := Some True\<rparr>))" by simp
  then show ?thesis using i
    by (auto simp: LimiterTick limiter_tick_def limiter_inv_def limiter_end_fields same_control_def split: option.split)
qed (auto simp: limiter_inv_def limiter_turn_off_def limiter_cancelled_def limiter_remove_def set_feed_in_limit_def
    limiter_restore_limit_def cancel_control_def limiter_end_fields Let_def)

end
