(* ===== verification/Features1038.thy ===== *)
theory Features1038
  imports GridLimiter
begin

text \<open>
  The three features that use register 1038 together: the SoC controller, the charge block and
  the feed-in optimizer share one coordinator and one owner slot. The interface
  \<open>reg_feature\<close> states what a feature promises about the slot; each feature
  implements it, and the composition shows that no two features control the battery at once.
\<close>

section \<open>The interface\<close>

locale reg_feature =
  fixes name :: string
    and share :: "'s \<Rightarrow> 'c \<times> owner_slot"
    and put :: "'c \<times> owner_slot \<Rightarrow> 's \<Rightarrow> 's"
    and holds :: "'s \<Rightarrow> bool"
    and inv :: "'s \<Rightarrow> bool"
    and calm :: "'s \<Rightarrow> 'e \<Rightarrow> bool"
    and step :: "'s \<Rightarrow> 'e \<Rightarrow> 's"
  assumes share_put: "share (put v s) = v"
    and holds_put: "holds (put v s) = holds s"
    and inv_owner: "inv s \<Longrightarrow> holds s \<Longrightarrow> get_owner_manager (snd (share s)) = Some name"
    and inv_step: "inv s \<Longrightarrow> calm s e \<Longrightarrow> inv (step s e)"
    and inv_put: "inv s \<Longrightarrow> (holds s \<Longrightarrow> get_owner_manager (snd v) = Some name) \<Longrightarrow> inv (put v s)"
    and step_foreign: "calm s e \<Longrightarrow> get_owner_manager (snd (share s)) = Some other \<Longrightarrow> other \<noteq> name \<Longrightarrow>
      get_owner_manager (snd (share (step s e))) = Some other"
begin

text \<open>A feature that holds nothing keeps its invariant whatever the others do.\<close>

lemma inv_put_idle: "inv s \<Longrightarrow> \<not> holds s \<Longrightarrow> inv (put v s)"
  using inv_put by blast

text \<open>A feature that holds the register keeps its invariant through the step of another feature.\<close>

lemma inv_put_after:
  assumes "inv s" "holds s \<Longrightarrow> get_owner_manager (snd v) = get_owner_manager (snd (share s))"
  shows "inv (put v s)"
  using assms inv_owner by (intro inv_put) auto

end

section \<open>The implementations\<close>

definition soc_share :: "'w soc \<Rightarrow> 'w coord \<times> owner_slot" where
  "soc_share s = (sc_coord s, sc_slot s)"

definition soc_put :: "'w coord \<times> owner_slot \<Rightarrow> 'w soc \<Rightarrow> 'w soc" where
  "soc_put v s = s\<lparr>sc_coord := fst v, sc_slot := snd v\<rparr>"

text \<open>The controller's own events, and a target only while no old loop waits for its writes.\<close>

definition soc_calm :: "'w soc \<Rightarrow> 'w soc_event \<Rightarrow> bool" where
  "soc_calm s e \<longleftrightarrow> calm s e \<and>
     (case e of OtherAcquire _ \<Rightarrow> False | OtherRelease _ \<Rightarrow> False | CoordChange _ \<Rightarrow> False | _ \<Rightarrow> True)"

definition block_share :: "'w block \<Rightarrow> 'w coord \<times> owner_slot" where
  "block_share s = (cb_coord s, cb_slot s)"

definition block_put :: "'w coord \<times> owner_slot \<Rightarrow> 'w block \<Rightarrow> 'w block" where
  "block_put v s = s\<lparr>cb_coord := fst v, cb_slot := snd v\<rparr>"

definition limiter_share :: "'w limiter \<Rightarrow> 'w coord \<times> owner_slot" where
  "limiter_share s = (gl_coord s, gl_slot s)"

definition limiter_put :: "'w coord \<times> owner_slot \<Rightarrow> 'w limiter \<Rightarrow> 'w limiter" where
  "limiter_put v s = s\<lparr>gl_coord := fst v, gl_slot := snd v\<rparr>"

lemma acquire_foreign:
  "get_owner_manager slot = Some other \<Longrightarrow> other \<noteq> f \<Longrightarrow>
   get_owner_manager (snd (acquire_or_raise f slot)) = Some other
   \<and> fst (acquire_or_raise f slot) \<noteq> Inr () \<and> get_owner_manager (release_reg_1038 f slot) = Some other"
  using acquire_owner [of f slot] acquire_ok_iff [of f slot] by (simp add: release_owner_slot)

lemma soc_stop_slot: "get_owner_manager (sc_slot s) = Some other \<Longrightarrow> other \<noteq> OWNER_SOC_CONTROLLER \<Longrightarrow>
   get_owner_manager (sc_slot (soc_stop env ha s)) = Some other"
  by (auto simp: soc_stop_def loop_release_def loop_exit_def Let_def release_owner_slot split: soc_task.split)

lemma soc_foreign:
  assumes "soc_calm s e" "get_owner_manager (sc_slot s) = Some other" "other \<noteq> OWNER_SOC_CONTROLLER"
  shows "get_owner_manager (sc_slot (soc_step env ha s e)) = Some other"
proof (cases e)
  case (SetTarget t x)
  have "get_owner_manager (sc_slot (snd (soc_set_target env ha t x s))) = Some other"
    using assms(2,3) acquire_foreign [OF assms(2,3)] soc_stop_slot [of "s\<lparr>sc_target := None\<rparr>" other env ha]
    by (simp add: soc_set_target_def Let_def split_beta split: option.split sum.split soc_task.split)
  then show ?thesis using SetTarget by simp
next
  case Tick
  show ?thesis using assms(2)
    by (cases rule: tick_cases [of s env ha]) (auto simp: Tick soc_keeps_def loop_exit_def)
next
  case LoopRelease
  then show ?thesis using assms(2,3) by (simp add: loop_release_def Let_def release_owner_slot)
qed (use assms soc_stop_slot in \<open>auto simp: soc_calm_def soc_set_max_charge_def soc_set_max_discharge_def\<close>)

lemma block_foreign:
  assumes "get_owner_manager (cb_slot s) = Some other" "other \<noteq> OWNER_CHARGE_BLOCK"
  shows "get_owner_manager (cb_slot (block_step env ha s e)) = Some other"
proof (cases e)
  case BlockOn
  show ?thesis using assms acquire_foreign [OF assms] unfolding BlockOn
    by (cases rule: turn_on_cases [of env ha s]) auto
qed (use assms in \<open>auto simp: block_turn_off_def block_keepalive_def block_remove_def block_restore_limit_def
    Let_def split_beta release_owner_slot split: sum.split\<close>)

lemma limiter_foreign:
  assumes "get_owner_manager (gl_slot s) = Some other" "other \<noteq> OWNER_GRID_FEEDIN"
  shows "get_owner_manager (gl_slot (limiter_step env ha s e)) = Some other"
proof (cases e)
  case LimiterOn
  show ?thesis using assms acquire_foreign [OF assms] unfolding LimiterOn
    by (cases rule: limiter_on_cases [of env s]) (auto simp: cancel_control_def)
next
  case LimiterTick
  have "same_control (s\<lparr>gl_task := Some True\<rparr>) (limiter_turn env ha (s\<lparr>gl_task := Some True\<rparr>))" by simp
  then show ?thesis using assms
    by (auto simp: LimiterTick limiter_tick_def limiter_end_fields same_control_def release_owner_slot
        split: option.split)
qed (use assms in \<open>auto simp: limiter_turn_off_def limiter_cancelled_def limiter_remove_def set_feed_in_limit_def
    limiter_restore_limit_def cancel_control_def limiter_end_fields Let_def release_owner_slot\<close>)

interpretation soc_feature: reg_feature OWNER_SOC_CONTROLLER soc_share soc_put soc_running soc_inv soc_calm
  "soc_step env ha" for env ha
proof
  show "soc_inv s \<Longrightarrow> soc_calm s e \<Longrightarrow> soc_inv (soc_step env ha s e)" for s e
    by (rule soc_step_inv) (simp_all add: soc_calm_def)
  show "soc_calm s e \<Longrightarrow> get_owner_manager (snd (soc_share s)) = Some other \<Longrightarrow> other \<noteq> OWNER_SOC_CONTROLLER \<Longrightarrow>
      get_owner_manager (snd (soc_share (soc_step env ha s e))) = Some other" for s e other
    using soc_foreign [of s e other env ha] by (simp add: soc_share_def)
qed (auto simp: soc_share_def soc_put_def soc_running_def soc_inv_def owns_1038_def)

interpretation block_feature: reg_feature OWNER_CHARGE_BLOCK block_share block_put cb_on block_inv block_calm
  "block_step env ha" for env ha
proof
  show "block_inv s \<Longrightarrow> block_calm s e \<Longrightarrow> block_inv (block_step env ha s e)" for s e by (rule block_step_inv)
  show "block_calm s e \<Longrightarrow> get_owner_manager (snd (block_share s)) = Some other \<Longrightarrow> other \<noteq> OWNER_CHARGE_BLOCK \<Longrightarrow>
      get_owner_manager (snd (block_share (block_step env ha s e))) = Some other" for s e other
    using block_foreign [of s other env ha e] by (simp add: block_share_def)
qed (auto simp: block_share_def block_put_def block_inv_def)

interpretation limiter_feature: reg_feature OWNER_GRID_FEEDIN limiter_share limiter_put gl_on limiter_inv
  "\<lambda>_ _. True" "limiter_step env ha" for env ha
proof
  show "limiter_inv s \<Longrightarrow> limiter_inv (limiter_step env ha s e)" for s e by (rule limiter_step_inv)
  show "get_owner_manager (snd (limiter_share s)) = Some other \<Longrightarrow> other \<noteq> OWNER_GRID_FEEDIN \<Longrightarrow>
      get_owner_manager (snd (limiter_share (limiter_step env ha s e))) = Some other" for s e other
    using limiter_foreign [of s other env ha e] by (simp add: limiter_share_def)
qed (auto simp: limiter_share_def limiter_put_def limiter_inv_def)

section \<open>The composition\<close>

record 'w features =
  fs_soc :: "'w soc"
  fs_block :: "'w block"
  fs_limiter :: "'w limiter"

text \<open>The events of the features; other tasks change the coordinator between them.\<close>

datatype 'w features_event = SocEvent "'w soc_event" | BlockEvent block_event | LimiterEvent limiter_event
  | Elsewhere "'w coord \<Rightarrow> 'w coord"

fun features_step :: "'w env \<Rightarrow> 'w ha_env \<Rightarrow> 'w features \<Rightarrow> 'w features_event \<Rightarrow> 'w features" where
  "features_step env ha f (SocEvent e) = (let s = soc_step env ha (fs_soc f) e
     in \<lparr>fs_soc = s, fs_block = block_put (soc_share s) (fs_block f),
         fs_limiter = limiter_put (soc_share s) (fs_limiter f)\<rparr>)"
| "features_step env ha f (BlockEvent e) = (let s = block_step env ha (fs_block f) e
     in \<lparr>fs_soc = soc_put (block_share s) (fs_soc f), fs_block = s,
         fs_limiter = limiter_put (block_share s) (fs_limiter f)\<rparr>)"
| "features_step env ha f (LimiterEvent e) = (let s = limiter_step env ha (fs_limiter f) e
     in \<lparr>fs_soc = soc_put (limiter_share s) (fs_soc f), fs_block = block_put (limiter_share s) (fs_block f),
         fs_limiter = s\<rparr>)"
| "features_step env ha f (Elsewhere g) = (let v = (g (sc_coord (fs_soc f)), sc_slot (fs_soc f))
     in \<lparr>fs_soc = soc_put v (fs_soc f), fs_block = block_put v (fs_block f), fs_limiter = limiter_put v (fs_limiter f)\<rparr>)"

fun features_calm :: "'w features \<Rightarrow> 'w features_event \<Rightarrow> bool" where
  "features_calm f (SocEvent e) = soc_calm (fs_soc f) e"
| "features_calm f (BlockEvent e) = block_calm (fs_block f) e"
| "features_calm f _ = True"

fun features_run :: "'w env \<Rightarrow> 'w ha_env \<Rightarrow> 'w features \<Rightarrow> 'w features_event list \<Rightarrow> bool" where
  "features_run env ha f [] = True"
| "features_run env ha f (e # es) = (features_calm f e \<and> features_run env ha (features_step env ha f e) es)"

definition features_inv :: "'w features \<Rightarrow> bool" where
  "features_inv f \<longleftrightarrow> soc_inv (fs_soc f) \<and> block_inv (fs_block f) \<and> limiter_inv (fs_limiter f)
     \<and> block_share (fs_block f) = soc_share (fs_soc f) \<and> limiter_share (fs_limiter f) = soc_share (fs_soc f)"

text \<open>No two features control the battery, and the one that does owns the register.\<close>

definition features_exclusive :: "'w features \<Rightarrow> bool" where
  "features_exclusive f \<longleftrightarrow>
     \<not> (soc_running (fs_soc f) \<and> cb_on (fs_block f)) \<and> \<not> (soc_running (fs_soc f) \<and> gl_on (fs_limiter f))
     \<and> \<not> (cb_on (fs_block f) \<and> gl_on (fs_limiter f))
     \<and> (soc_running (fs_soc f) \<longrightarrow> get_owner_manager (sc_slot (fs_soc f)) = Some OWNER_SOC_CONTROLLER)
     \<and> (cb_on (fs_block f) \<longrightarrow> get_owner_manager (sc_slot (fs_soc f)) = Some OWNER_CHARGE_BLOCK)
     \<and> (gl_on (fs_limiter f) \<longrightarrow> get_owner_manager (sc_slot (fs_soc f)) = Some OWNER_GRID_FEEDIN)"

lemma owners_distinct:
  "OWNER_SOC_CONTROLLER \<noteq> OWNER_CHARGE_BLOCK" "OWNER_SOC_CONTROLLER \<noteq> OWNER_GRID_FEEDIN"
  "OWNER_CHARGE_BLOCK \<noteq> OWNER_GRID_FEEDIN"
  by (simp_all add: owner_names)

lemma features_inv_exclusive: "features_inv f \<Longrightarrow> features_exclusive f"
  using soc_feature.inv_owner [of "fs_soc f"] block_feature.inv_owner [of "fs_block f"]
    limiter_feature.inv_owner [of "fs_limiter f"] owners_distinct
  by (auto simp: features_inv_def features_exclusive_def soc_share_def)

lemma features_step_inv:
  assumes "features_inv f" "features_calm f e"
  shows "features_inv (features_step env ha f e)"
proof -
  note i = assms(1) [unfolded features_inv_def]
  note own = soc_feature.inv_owner [of "fs_soc f"] block_feature.inv_owner [of "fs_block f"]
    limiter_feature.inv_owner [of "fs_limiter f"]
  note facts = soc_feature.share_put block_feature.share_put limiter_feature.share_put features_inv_def Let_def
  show ?thesis
  proof (cases e)
    case (SocEvent x)
    have "cb_on (fs_block f) \<Longrightarrow> get_owner_manager (snd (soc_share (soc_step env ha (fs_soc f) x))) = Some OWNER_CHARGE_BLOCK"
      "gl_on (fs_limiter f) \<Longrightarrow> get_owner_manager (snd (soc_share (soc_step env ha (fs_soc f) x))) = Some OWNER_GRID_FEEDIN"
      using assms(2) i own(2,3) owners_distinct soc_feature.step_foreign [of "fs_soc f" x _ env ha] by (simp_all add: SocEvent)
    then show ?thesis
      using i assms(2) soc_feature.inv_step [of "fs_soc f" x env ha] block_feature.inv_put [of "fs_block f"]
        limiter_feature.inv_put [of "fs_limiter f"] by (simp add: SocEvent facts)
  next
    case (BlockEvent x)
    have "soc_running (fs_soc f) \<Longrightarrow> get_owner_manager (snd (block_share (block_step env ha (fs_block f) x))) = Some OWNER_SOC_CONTROLLER"
      "gl_on (fs_limiter f) \<Longrightarrow> get_owner_manager (snd (block_share (block_step env ha (fs_block f) x))) = Some OWNER_GRID_FEEDIN"
      using assms(2) i own(1,3) owners_distinct block_feature.step_foreign [of "fs_block f" x _ env ha] by (simp_all add: BlockEvent)
    then show ?thesis
      using i assms(2) block_feature.inv_step [of "fs_block f" x env ha] soc_feature.inv_put [of "fs_soc f"]
        limiter_feature.inv_put [of "fs_limiter f"] by (simp add: BlockEvent facts)
  next
    case (LimiterEvent x)
    have "soc_running (fs_soc f) \<Longrightarrow> get_owner_manager (snd (limiter_share (limiter_step env ha (fs_limiter f) x))) = Some OWNER_SOC_CONTROLLER"
      "cb_on (fs_block f) \<Longrightarrow> get_owner_manager (snd (limiter_share (limiter_step env ha (fs_limiter f) x))) = Some OWNER_CHARGE_BLOCK"
      using i own(1,2) owners_distinct limiter_feature.step_foreign [of "fs_limiter f" _ env ha x] by simp_all
    then show ?thesis
      using i limiter_feature.inv_step [of "fs_limiter f" env ha x] soc_feature.inv_put [of "fs_soc f"]
        block_feature.inv_put [of "fs_block f"] by (simp add: LimiterEvent facts)
  next
    case (Elsewhere g)
    let ?v = "(g (sc_coord (fs_soc f)), sc_slot (fs_soc f))"
    have "get_owner_manager (snd ?v) = get_owner_manager (snd (soc_share (fs_soc f)))" by (simp add: soc_share_def)
    then show ?thesis
      using i soc_feature.inv_put_after [of "fs_soc f" ?v] block_feature.inv_put_after [of "fs_block f" ?v]
        limiter_feature.inv_put_after [of "fs_limiter f" ?v] by (simp add: Elsewhere facts)
  qed
qed

definition features_new :: "'w coord \<Rightarrow> pyexc + 'w features" where
  "features_new c = bind_res (soc_new c None) (\<lambda>s. bind_res (block_new c None) (\<lambda>b.
     bind_res (limiter_new c None) (\<lambda>l. Inr \<lparr>fs_soc = s, fs_block = b, fs_limiter = l\<rparr>)))"

lemma features_new_inv: "features_new c = Inr f \<Longrightarrow> features_inv f"
  by (auto simp: features_new_def bind_res_Inr_iff features_inv_def soc_share_def block_share_def limiter_share_def
      soc_new_def block_new_def limiter_new_def soc_inv_def soc_running_def block_inv_def limiter_inv_def)

lemma features_run_inv: "features_inv f \<Longrightarrow> features_run env ha f es \<Longrightarrow> features_inv (foldl (features_step env ha) f es)"
  by (induction es arbitrary: f) (simp_all add: features_step_inv)

text \<open>C6: The SoC controller, the charge block and the feed-in optimizer never control the battery at the
  same time: over any sequence of their operations, turns and cancelled tasks and of polls in
  between, at most one is active, and it owns register 1038. Left out are a target set while
  an old loop of the SoC controller waits for its last writes and a turn-on of a charge block
  that is on already, which break it. Every operation and the end of a task of the optimizer is
  one step, so nothing is interleaved with the awaits inside it.\<close>

theorem features_never_conflict:
  "features_new c = Inr f \<Longrightarrow> features_run env ha f es \<Longrightarrow> features_exclusive (foldl (features_step env ha) f es)"
  by (rule features_inv_exclusive) (rule features_run_inv [OF features_new_inv])

theorem features_never_conflict_witness:
  "\<exists>f. features_new (test_coord (\<lambda>_. 0)) = Inr f \<and> features_exclusive (foldl (features_step mem_env test_ha) f
     [SocEvent (SetTarget False (Some (FFin 50))), BlockEvent BlockOn, LimiterEvent LimiterOn])"
proof -
  obtain s where s: "soc_new (test_coord (\<lambda>_. 0)) None = Inr s" using test_soc_new by blast
  have l: "get_device_power_limit_w (Some (co_device_info (test_coord (\<lambda>_. 0)))) DEFAULT_CONTROL_LIMIT_W
      = Inr (normalize_power_limit DEFAULT_CONTROL_LIMIT_W)"
    by (simp add: get_device_power_limit_w_def test_coord_def coord_new_def raw_power_limit_def to_finite_positive_def)
  obtain x where "default_feed_in_limit_w (normalize_power_limit DEFAULT_CONTROL_LIMIT_W) = Inr x"
    using default_feed_in_limit_steps by blast
  then obtain f where f: "features_new (test_coord (\<lambda>_. 0)) = Inr f"
    using s l by (simp add: features_new_def block_new_def limiter_new_def)
  then have z: "sc_ending (fs_soc f) = 0" "\<not> cb_on (fs_block f)"
    by (auto simp: features_new_def bind_res_Inr_iff soc_new_def block_new_def)
  have "features_run mem_env test_ha f
      [SocEvent (SetTarget False (Some (FFin 50))), BlockEvent BlockOn, LimiterEvent LimiterOn]"
    using z by (simp add: soc_calm_def calm_def block_calm_def block_put_def Let_def)
  then show ?thesis using features_never_conflict [OF f] f by blast
qed

end
