(* ===== verification/SwitchProofs.thy ===== *)
theory SwitchProofs
  imports Features1038
begin

text \<open>
  What the charge block and the feed-in optimizer command, and where they lose the register
  or the user's own limit.
\<close>

section \<open>The feed-in optimizer's limit\<close>

lemma limiter_write_audited:
  assumes "\<not> not_finite_float (VFloat x)"
  shows "\<exists>e. co_audit (gl_coord (limiter_write env ha x s)) = map_option (audit_log e) (co_audit (gl_coord s))
    \<and> (we_key e, we_value e) = (''bat_max_charge_limit'', VFloat x)"
proof -
  obtain res c where w: "limit_write env ha x (gl_coord s) = (res, c)" by fastforce
  then have "async_write_register env ha REG_BAT_MAX_CHARGE_LIMIT (VFloat x) ''modbus_coord'' None True (gl_coord s) = (res, c)"
    by (simp add: limit_write_def)
  from coordinator_write_event [OF this] show ?thesis
    using assms limit_registers_rw(2) w
    by (intro exI [of _ "write_event_of env ha REG_BAT_MAX_CHARGE_LIMIT (VFloat x) ''modbus_coord'' res c"])
       (simp add: limiter_write_def write_event_of_def, simp add: REG_BAT_MAX_CHARGE_LIMIT_def)
qed

lemma limiter_read_coord: "co_audit (gl_coord (snd (limiter_read env r s))) = co_audit (gl_coord s)"
proof -
  obtain res c where r: "on_client (read_register env r) (gl_coord s) = (res, c)" by fastforce
  show ?thesis using on_client_fields [OF r] by (simp add: limiter_read_def r Let_def split: sum.split)
qed

text \<open>A limit that keeps the feed-in at its cap: what is charged is surplus above the cap.\<close>

definition surplus_power :: "pyfloat \<Rightarrow> pyfloat \<Rightarrow> pyfloat \<Rightarrow> pyfloat" where
  "surplus_power feed_in pv home = fsub (fsub (dc_pv_power_to_ac_estimate_w pv) home) feed_in"

definition limit_ok :: "pyfloat \<Rightarrow> pyfloat \<Rightarrow> pyfloat \<Rightarrow> bool" where
  "limit_ok device surplus x \<longleftrightarrow> is_finite x \<and> fle (FFin 0) x \<and> fle x device
     \<and> (feq x (FFin 0) \<or> flt MIN_CHARGE_POWER_W surplus \<and> fle x surplus)"

lemma charge_limit_ok:
  assumes "is_finite d" "fle (FFin 0) d"
  shows "limit_ok d (surplus_power f p h) (charge_limit_for d f p h)"
proof -
  define s where "s = surplus_power f p h"
  define x where "x = (if flt MIN_CHARGE_POWER_W s then s else FFin 0)"
  have e: "charge_limit_for d f p h = py_max (FFin 0) (py_min d x)"
    by (simp add: charge_limit_for_def Let_def x_def s_def surplus_power_def)
  have x: "x \<noteq> FNaN" "fle (FFin 0) x"
    using flt_not_nan by (cases s; auto simp: x_def MIN_CHARGE_POWER_W_def fle_def)+
  have 1: "fle (FFin 0) (py_max (FFin 0) (py_min d x))" "fle (py_max (FFin 0) (py_min d x)) d"
    using py_clamp_bounds [OF assms(2)] by blast+
  have 2: "is_finite (py_max (FFin 0) (py_min d x))"
    using assms(1) 1 by (cases "py_max (FFin 0) (py_min d x)"; cases d) (auto simp: fle_def)
  have "feq (py_max (FFin 0) (py_min d x)) (FFin 0) \<or> flt MIN_CHARGE_POWER_W s \<and> fle (py_max (FFin 0) (py_min d x)) s"
  proof (cases "flt MIN_CHARGE_POWER_W s")
    case True
    then have "x = s" by (simp add: x_def)
    moreover have "fle (py_min d x) x" using x(1) assms
      by (cases d; cases x) (auto simp: py_min_def fle_def)
    ultimately show ?thesis using True x
      by (cases "py_min d x") (auto simp: py_max_def fle_def)
  next
    case False
    then have "x = FFin 0" by (simp add: x_def)
    then show ?thesis using assms by (cases d) (auto simp: py_max_def py_min_def fle_def)
  qed
  then show ?thesis using 1 2 unfolding limit_ok_def e s_def by blast
qed

text \<open>A turn of the feed-in optimizer writes at most one charge limit; it lies between zero and the
  device's limit and is either zero or part of the surplus above the feed-in limit, computed
  from the DC power and the house consumption read in that turn.\<close>

lemma limiter_turn_limits_charging:
  "is_finite (gl_limit s) \<Longrightarrow> fle (FFin 0) (gl_limit s) \<Longrightarrow>
   (co_audit (gl_coord (limiter_turn env ha s)) = co_audit (gl_coord s)
    \<or> (\<exists>e x p h. co_audit (gl_coord (limiter_turn env ha s)) = map_option (audit_log e) (co_audit (gl_coord s))
        \<and> we_key e = ''bat_max_charge_limit'' \<and> we_value e = VFloat x
        \<and> fst (limiter_read env REG_TOTAL_DC_POWER s) = Some p
        \<and> limit_ok (gl_limit s) (surplus_power (gl_feed_in s) p h) x))"
proof -
  assume d: "is_finite (gl_limit s)" "fle (FFin 0) (gl_limit s)"
  define s1 where "s1 = snd (limiter_read env REG_TOTAL_DC_POWER s)"
  define s2 where "s2 = snd (limiter_read env REG_HOME_FROM_PV s1)"
  define s3 where "s3 = snd (limiter_read env REG_HOME_FROM_BATTERY s2)"
  define s4 where "s4 = snd (limiter_read env REG_HOME_FROM_GRID s3)"
  define home where "home = sum_home_consumption_power_w (fst (limiter_read env REG_HOME_FROM_PV s1))
    (fst (limiter_read env REG_HOME_FROM_BATTERY s2)) (fst (limiter_read env REG_HOME_FROM_GRID s3))"
  have a: "co_audit (gl_coord s4) = co_audit (gl_coord s)"
    by (simp add: s1_def s2_def s3_def s4_def limiter_read_coord)
  have "same_control s s4" by (simp add: s1_def s2_def s3_def s4_def)
  then have c: "gl_limit s4 = gl_limit s" "gl_feed_in s4 = gl_feed_in s" by (simp_all add: same_control_def)
  have t: "limiter_turn env ha s = (case fst (limiter_read env REG_TOTAL_DC_POWER s) of
      None \<Rightarrow> s4\<lparr>gl_failed := gl_failed s4 + 1\<rparr>
    | Some p \<Rightarrow> (case home of None \<Rightarrow> s4\<lparr>gl_failed := 0\<rparr>
       | Some h \<Rightarrow> (let x = charge_limit_for (gl_limit s) (gl_feed_in s) p h
            in limiter_write env ha x (s4\<lparr>gl_failed := 0, gl_current := x\<rparr>))))"
    by (simp add: limiter_turn_def Let_def split_beta c flip: s1_def s2_def s3_def s4_def home_def
        cong: option.case_cong)
  show ?thesis
  proof (cases "fst (limiter_read env REG_TOTAL_DC_POWER s) = None \<or> home = None")
    case True
    then show ?thesis using a unfolding t by (auto split: option.split)
  next
    case False
    then obtain p h where p: "fst (limiter_read env REG_TOTAL_DC_POWER s) = Some p" "home = Some h" by auto
    let ?x = "charge_limit_for (gl_limit s) (gl_feed_in s) p h"
    have ok: "limit_ok (gl_limit s) (surplus_power (gl_feed_in s) p h) ?x" by (rule charge_limit_ok [OF d])
    then have "\<not> not_finite_float (VFloat ?x)"
      by (cases ?x) (auto simp: limit_ok_def not_finite_float_def)
    from limiter_write_audited [OF this, of env ha "s4\<lparr>gl_failed := 0, gl_current := ?x\<rparr>"] show ?thesis
      using ok p a unfolding t by (auto simp: Let_def)
  qed
qed

section \<open>Where the register or the limit is lost\<close>

text \<open>Turning on a switch that is on already loses the register when the write fails: the failure
  path releases register 1038 and forgets the limit to restore, but the switch stays on and its
  keep-alive task goes on writing zero to a register nobody owns.\<close>

lemma repeated_turn_on_loses_register:
  "cb_on s \<Longrightarrow> cb_keep s \<Longrightarrow> fst (block_turn_on env ha s) = Inl BlockFailed \<Longrightarrow>
   let s' = snd (block_turn_on env ha s)
   in cb_on s' \<and> cb_keep s' \<and> get_owner_manager (cb_slot s') = None \<and> cb_orig s' = None"
  using acquire_owner [of OWNER_CHARGE_BLOCK "cb_slot s"] acquire_ok_iff [of OWNER_CHARGE_BLOCK "cb_slot s"]
  by (cases rule: turn_on_cases [of env ha s]) (auto simp: release_owner_slot Let_def)

lemma busy_write: "fst (write_register busy_env r v p s) \<in> range Inl"
proof -
  have w: "raw_write busy_env a bs n c = (Inl SchedTimeout, c)" for a bs n c
    by (simp add: raw_write_def with_scheduler_def busy_env_def)
  have "fst (write_loop k busy_env r bs p c) \<in> range Inl" for k bs c
    by (cases k) (simp_all add: write_loop_0 write_loop_Suc w is_conn_error_def)
  then show ?thesis by (simp add: write_register_def split: sum.split)
qed

lemma busy_limit_write: "fst (limit_write busy_env ha x c) \<in> range Inl"
proof -
  obtain e c1 where "on_client (write_register busy_env REG_BAT_MAX_CHARGE_LIMIT (VFloat x) None)
      (pop_observation (rg_name REG_BAT_MAX_CHARGE_LIMIT) c) = (Inl e, c1)"
    using busy_write [of REG_BAT_MAX_CHARGE_LIMIT "VFloat x" None
      "co_client (pop_observation (rg_name REG_BAT_MAX_CHARGE_LIMIT) c)"]
    by (auto simp: on_client_def split_beta)
  then show ?thesis by (simp add: limit_write_def async_write_register_def sbind_def Let_def)
qed

text \<open>A block that is on, with the limit it will restore.\<close>

definition test_block :: "(nat \<Rightarrow> 16 word) block" where
  "test_block = \<lparr>cb_coord = test_coord (\<lambda>_. 0), cb_slot = Some (Some OWNER_CHARGE_BLOCK), cb_normal = FFin 10000,
     cb_on = True, cb_keep = True, cb_orig = Some (FFin 3000)\<rparr>"

lemma repeated_turn_on_loses_register_witness:
  "get_owner_manager (cb_slot (snd (block_turn_on busy_env test_ha test_block))) = None
   \<and> cb_on (snd (block_turn_on busy_env test_ha test_block))"
proof -
  obtain e c where w: "limit_write busy_env test_ha (FFin 0) (test_coord (\<lambda>_. 0)) = (Inl e, c)"
    using busy_limit_write [of test_ha "FFin 0" "test_coord (\<lambda>_. 0)"]
    by (cases "limit_write busy_env test_ha (FFin 0) (test_coord (\<lambda>_. 0))") auto
  have "acquire_or_raise OWNER_CHARGE_BLOCK (Some (Some OWNER_CHARGE_BLOCK)) = (Inr (), Some (Some OWNER_CHARGE_BLOCK))"
    by (simp add: acquire_or_raise_def try_acquire_def get_owner_manager_def)
  then have "fst (block_turn_on busy_env test_ha test_block) = Inl BlockFailed"
    using w by (simp add: block_turn_on_def snapshot_charge_limit_def test_block_def block_write_def Let_def)
  moreover have "cb_on test_block" "cb_keep test_block" by (simp_all add: test_block_def)
  ultimately show ?thesis
    using repeated_turn_on_loses_register [of test_block busy_env test_ha] unfolding Let_def by blast
qed

text \<open>Turning on the feed-in optimizer while it is on turns it off: the old task is cancelled without
  being waited for, and its end then switches the optimizer off and releases register 1038
  under the new task.\<close>

lemma second_turn_on_turns_off:
  "gl_on s \<Longrightarrow> gl_task s = Some True \<Longrightarrow> fst (limiter_turn_on env s) = Inr () \<Longrightarrow>
   let s' = limiter_cancelled env ha (snd (limiter_turn_on env s))
   in \<not> gl_on s' \<and> get_owner_manager (gl_slot s') = None"
  using acquire_owner [of OWNER_GRID_FEEDIN "gl_slot s"] acquire_ok_iff [of OWNER_GRID_FEEDIN "gl_slot s"]
  by (cases rule: limiter_on_cases [of env s])
     (auto simp: limiter_cancelled_def cancel_control_def limiter_end_fields release_owner_slot Let_def)

definition test_limiter :: "(nat \<Rightarrow> 16 word) limiter" where
  "test_limiter = \<lparr>gl_coord = test_coord (\<lambda>_. 0), gl_slot = Some (Some OWNER_GRID_FEEDIN), gl_limit = FFin 10000,
     gl_failed = 0, gl_on = True, gl_task = Some True, gl_dying = 0, gl_feed_in = FFin 6000,
     gl_current = FFin 0, gl_orig = Some (FFin 3000), gl_handled = False\<rparr>"

lemma second_turn_on_turns_off_witness:
  "\<not> gl_on (limiter_cancelled mem_env test_ha (snd (limiter_turn_on mem_env test_limiter)))"
proof -
  have "acquire_or_raise OWNER_GRID_FEEDIN (Some (Some OWNER_GRID_FEEDIN)) = (Inr (), Some (Some OWNER_GRID_FEEDIN))"
    by (simp add: acquire_or_raise_def try_acquire_def get_owner_manager_def)
  then have "fst (limiter_turn_on mem_env test_limiter) = Inr ()"
    by (simp add: limiter_turn_on_def snapshot_charge_limit_def test_limiter_def Let_def)
  moreover have "gl_on test_limiter" "gl_task test_limiter = Some True" by (simp_all add: test_limiter_def)
  ultimately show ?thesis
    using second_turn_on_turns_off [of test_limiter mem_env test_ha] unfolding Let_def by blast
qed

lemma block_write_audited:
  assumes "\<not> not_finite_float (VFloat x)"
  shows "\<exists>e. co_audit (cb_coord (snd (block_write env ha x s))) = map_option (audit_log e) (co_audit (cb_coord s))
    \<and> (we_key e, we_value e) = (''bat_max_charge_limit'', VFloat x)"
proof -
  obtain res c where w: "limit_write env ha x (cb_coord s) = (res, c)" by fastforce
  then have "async_write_register env ha REG_BAT_MAX_CHARGE_LIMIT (VFloat x) ''modbus_coord'' None True (cb_coord s) = (res, c)"
    by (simp add: limit_write_def)
  from coordinator_write_event [OF this] show ?thesis
    using assms limit_registers_rw(2) w
    by (intro exI [of _ "write_event_of env ha REG_BAT_MAX_CHARGE_LIMIT (VFloat x) ''modbus_coord'' res c"])
       (simp add: block_write_def write_event_of_def, simp add: REG_BAT_MAX_CHARGE_LIMIT_def)
qed

text \<open>Turning off a charge block that is off writes register 1038 although another feature owns it: the
  limit of that feature is replaced by the device's maximum, and its ownership is not asked.\<close>

lemma idle_turn_off_overwrites_owner:
  "\<not> cb_on s \<Longrightarrow> cb_orig s = None \<Longrightarrow> is_finite (cb_normal s) \<Longrightarrow>
   get_owner_manager (cb_slot s) = Some other \<Longrightarrow> other \<noteq> OWNER_CHARGE_BLOCK \<Longrightarrow>
   (\<exists>e. co_audit (cb_coord (block_turn_off env ha s)) = map_option (audit_log e) (co_audit (cb_coord s))
      \<and> we_key e = ''bat_max_charge_limit'' \<and> we_value e = VFloat (cb_normal s))
   \<and> get_owner_manager (cb_slot (block_turn_off env ha s)) = Some other"
proof -
  assume s: "\<not> cb_on s" "cb_orig s = None" "is_finite (cb_normal s)"
    and o: "get_owner_manager (cb_slot s) = Some other" "other \<noteq> OWNER_CHARGE_BLOCK"
  let ?s = "s\<lparr>cb_keep := False, cb_orig := None\<rparr>"
  have f: "\<not> not_finite_float (VFloat (cb_normal s))"
    using s(3) by (cases "cb_normal s") (simp_all add: not_finite_float_def)
  have c: "cb_coord (block_turn_off env ha s) = cb_coord (snd (block_write env ha (cb_normal s) ?s))"
    "cb_slot (block_turn_off env ha s) = release_reg_1038 OWNER_CHARGE_BLOCK (cb_slot s)"
    using s(2) by (simp_all add: block_turn_off_def block_restore_limit_def Let_def)
  show ?thesis
    using block_write_audited [OF f, of env ha ?s] o unfolding c by (auto simp: release_owner_slot)
qed

lemma idle_turn_off_overwrites_owner_witness:
  "get_owner_manager (cb_slot (block_turn_off mem_env test_ha (test_block
     \<lparr>cb_on := False, cb_keep := False, cb_orig := None, cb_slot := Some (Some OWNER_SOC_CONTROLLER)\<rparr>)))
   = Some OWNER_SOC_CONTROLLER"
proof -
  let ?s = "test_block\<lparr>cb_on := False, cb_keep := False, cb_orig := None, cb_slot := Some (Some OWNER_SOC_CONTROLLER)\<rparr>"
  have "\<not> cb_on ?s" "cb_orig ?s = None" "is_finite (cb_normal ?s)"
    "get_owner_manager (cb_slot ?s) = Some OWNER_SOC_CONTROLLER" "OWNER_SOC_CONTROLLER \<noteq> OWNER_CHARGE_BLOCK"
    by (simp_all add: test_block_def get_owner_manager_def owners_distinct)
  from idle_turn_off_overwrites_owner [OF this, of mem_env test_ha] show ?thesis by blast
qed

text \<open>
  A turn-on that is refused keeps the limit it read, which the other feature had set. The next
  turn-on does not read again, and the turn-off restores the other feature's limit.
\<close>

lemma refused_turn_on_keeps_snapshot:
  assumes "fst (block_turn_on env ha s) = Inl (OwnerRefused e)" "cb_orig (snd (block_turn_on env ha s)) = Some x"
    and "fst (block_turn_on env ha ((snd (block_turn_on env ha s))\<lparr>cb_slot := slot\<rparr>)) = Inr ()"
  shows "cb_orig (snd (block_turn_on env ha ((snd (block_turn_on env ha s))\<lparr>cb_slot := slot\<rparr>))) = Some x"
proof -
  let ?t = "(snd (block_turn_on env ha s))\<lparr>cb_slot := slot\<rparr>"
  have "cb_orig ?t = Some x" using assms(2) by simp
  then have sn: "snapshot_charge_limit env (cb_orig ?t) (cb_coord ?t) = (Inr (), Some x, cb_coord ?t)"
    by (simp add: snapshot_charge_limit_def)
  show ?thesis
    using assms(3) unfolding block_turn_on_def [of env ha ?t] sn
    by (auto simp: Let_def split_beta split: sum.splits)
qed

text \<open>One failed keep-alive write ends the task for good, while the switch stays on.\<close>

lemma keepalive_ends_at_first_failure:
  assumes "cb_on s" "cb_keep s" "fst (block_write env ha (FFin 0) s) = Inl e"
  shows "(block_keepalive env ha ^^ Suc n) s = (snd (block_write env ha (FFin 0) s))\<lparr>cb_keep := False\<rparr>"
    "cb_on ((block_keepalive env ha ^^ Suc n) s)"
proof -
  let ?t = "(snd (block_write env ha (FFin 0) s))\<lparr>cb_keep := False\<rparr>"
  have 1: "block_keepalive env ha s = ?t" using assms by (simp add: block_keepalive_def split_beta)
  have "block_keepalive env ha ?t = ?t" by (simp add: block_keepalive_def)
  then have "(block_keepalive env ha ^^ n) ?t = ?t" by (induction n) simp_all
  then show 2: "(block_keepalive env ha ^^ Suc n) s = ?t" by (simp only: funpow_Suc_right o_apply 1)
  show "cb_on ((block_keepalive env ha ^^ Suc n) s)" unfolding 2 using assms(1) by simp
qed

end
