(* ===== verification/PyStats.thy ===== *)
theory PyStats
  imports Helpers
begin

text \<open>
  What the monitors compute with: sums and means of floats as Python (3.12 and later) computes
  them, bounded deques, and readings looked up by name.
\<close>

section \<open>Sums\<close>

text \<open>
  \<open>sum\<close> of floats starts from the int 0 and compensates the rounding (Neumaier); the correction
  is added at the end if it is a number other than zero.
\<close>

fun sum_loop :: "pyfloat \<Rightarrow> pyfloat \<Rightarrow> pyfloat list \<Rightarrow> pyfloat" where
  "sum_loop f c [] = (if is_finite c \<and> \<not> feq c (FFin 0) then fadd f c else f)"
| "sum_loop f c (x # xs) = (let t = fadd f x
     in sum_loop t (fadd c (if fle (fabs x) (fabs f) then fadd (fsub f t) x else fadd (fsub x t) f)) xs)"

definition py_sum :: "pyfloat list \<Rightarrow> pyfloat" where
  "py_sum xs = (case xs of [] \<Rightarrow> FFin 0 | x # ys \<Rightarrow> sum_loop (fadd (FFin 0) x) (FFin 0) ys)"

text \<open>\<open>sum(xs) / len(xs)\<close>.\<close>

definition py_mean :: "pyfloat list \<Rightarrow> pyexc + pyfloat" where
  "py_mean xs = fdiv (py_sum xs) (FFin (of_nat (length xs)))"

lemma fdiv_pos: "0 < r \<Longrightarrow> \<exists>z. fdiv x (FFin r) = Inr z"
  by (auto simp: fdiv_def Let_def)

lemma py_mean_ok: "xs \<noteq> [] \<Longrightarrow> \<exists>z. py_mean xs = Inr z"
  unfolding py_mean_def by (rule fdiv_pos) simp

section \<open>Differences of times\<close>

lemma mk_float_not_nan [simp]: "mk_float neg r \<noteq> FNaN"
  by (simp add: mk_float_def Let_def)

lemma mk_float_mono:
  assumes "r \<le> q"
  shows "fle (mk_float m r) (mk_float n q)"
proof -
  have "round_to 53 (- 1022) r \<le> round_to 53 (- 1022) q" by (rule round_to_mono [OF assms]) simp
  moreover have "(0 :: rat) < pow2 1024" by (rule pow2_pos)
  ultimately show ?thesis
    by (auto simp: mk_float_def Let_def fle_def)
qed

lemma frat_fneg: "is_finite x \<Longrightarrow> is_finite (fneg x) \<and> frat (fneg x) = - frat x"
  by (cases x) auto

lemma fsub_finite: "is_finite x \<Longrightarrow> is_finite y \<Longrightarrow> \<exists>n. fsub x y = mk_float n (frat x - frat y)"
  using frat_fneg [of y] by (cases x; cases y) (auto simp: fsub_def)

lemma fsub_not_nan: "is_finite x \<Longrightarrow> is_finite y \<Longrightarrow> fsub x y \<noteq> FNaN"
  using fsub_finite [of x y] by (metis mk_float_not_nan)

lemma fle_frat: "is_finite x \<Longrightarrow> is_finite y \<Longrightarrow> fle x y \<longleftrightarrow> frat x \<le> frat y"
  by (cases x; cases y) (auto simp: fle_def)

lemma fsub_mono:
  assumes "is_finite x" "is_finite y" "is_finite z" "fle x y"
  shows "fle (fsub x z) (fsub y z)"
proof -
  obtain m where m: "fsub x z = mk_float m (frat x - frat z)" using fsub_finite assms by blast
  obtain n where n: "fsub y z = mk_float n (frat y - frat z)" using fsub_finite assms by blast
  show ?thesis unfolding m n by (rule mk_float_mono) (use assms fle_frat in auto)
qed

lemma fsub_self: "is_finite x \<Longrightarrow> \<exists>z. fsub x x = z \<and> is_finite z \<and> frat z = 0"
  using fsub_finite [of x x] by (auto simp: mk_float_def Let_def)

section \<open>Deques\<close>

definition deque_append :: "nat \<Rightarrow> 'a \<Rightarrow> 'a list \<Rightarrow> 'a list" where
  "deque_append n x xs = take_last n (xs @ [x])"

definition deque_extend :: "nat \<Rightarrow> 'a list \<Rightarrow> 'a list \<Rightarrow> 'a list" where
  "deque_extend n ys xs = take_last n (xs @ ys)"

interpretation deque: bounded_buffer n "\<lambda>xs. xs" "deque_append n" for n
  by unfold_locales (simp add: deque_append_def)

lemma set_deque_append: "set (deque_append n x xs) \<subseteq> insert x (set xs)"
  using set_take_last [of n "xs @ [x]"] by (auto simp: deque_append_def)

lemma deque_append_in: "0 < n \<Longrightarrow> x \<in> set (deque_append n x xs)"
  using deque.push_newest [of n x xs] by (metis append_is_Nil_conv deque_append_def last_in_set length_take_last
      length_0_conv length_append_singleton min_def nat.distinct(1) not_gr_zero)

lemma deque_append_keeps: "length xs < n \<Longrightarrow> deque_append n x xs = xs @ [x]"
  by (simp add: deque_append_def)

section \<open>Readings\<close>

text \<open>\<open>data.get(name)\<close>, and the number in it.\<close>

definition reading :: "(string \<times> pyval) list \<Rightarrow> string \<Rightarrow> pyval" where
  "reading d name = (case map_of d name of None \<Rightarrow> VNone | Some v \<Rightarrow> v)"

definition sensor :: "(string \<times> pyval) list \<Rightarrow> string \<Rightarrow> pyexc + pyfloat option" where
  "sensor d name = optional_float (reading d name)"

lemma optional_float_finite: "optional_float v = Inr (Some x) \<Longrightarrow> is_finite x"
  by (cases x) (auto simp: optional_float_def is_nan_def is_inf_def split: if_splits sum.splits)

lemma sensor_finite: "sensor d name = Inr (Some x) \<Longrightarrow> is_finite x"
  unfolding sensor_def by (rule optional_float_finite)

end
