(* ===== verification/FireSafety.thy ===== *)
theory FireSafety
  imports PyStats
begin

text \<open>
  The fire safety monitor (\<^verbatim>\<open>fire_safety.py\<close>): the histories of the readings, the five
  checks, the confirmation of grid alerts and the list of alerts without duplicates.

  Times are floats, as the code computes with them. The clock does not move within one call.
  An alert keeps its time, level, category and title; the texts for the user and the copied
  readings are left out. A conversion that overflows raises, and leaves the state as it is then.
\<close>

section \<open>Alerts\<close>

datatype risk = Safe | Monitor | Elevated | High | Emergency

instantiation risk :: linorder
begin

definition risk_rank :: "risk \<Rightarrow> nat" where
  "risk_rank r = (case r of Safe \<Rightarrow> 0 | Monitor \<Rightarrow> 1 | Elevated \<Rightarrow> 2 | High \<Rightarrow> 3 | Emergency \<Rightarrow> 4)"

definition less_eq_risk :: "risk \<Rightarrow> risk \<Rightarrow> bool" where
  "less_eq_risk a b \<longleftrightarrow> risk_rank a \<le> risk_rank b"

definition less_risk :: "risk \<Rightarrow> risk \<Rightarrow> bool" where
  "less_risk a b \<longleftrightarrow> risk_rank a < risk_rank b"

instance
  by standard (auto simp: less_eq_risk_def less_risk_def risk_rank_def split: risk.splits)

end

record alert =
  al_time :: pyfloat
  al_level :: risk
  al_category :: string
  al_title :: string

definition RATE_WINDOW_SECONDS :: pyfloat where "RATE_WINDOW_SECONDS = FFin 300"
definition MIN_SAMPLES_FOR_RATE :: nat where "MIN_SAMPLES_FOR_RATE = 3"
definition GRID_ALERT_CONFIRM_POLLS :: nat where "GRID_ALERT_CONFIRM_POLLS = 2"

type_synonym history = "(pyfloat \<times> pyfloat) list"

record fire =
  fs_alerts :: "alert list"
  fs_iso :: history
  fs_ctrl :: history
  fs_bat_temp :: history
  fs_bat_volt :: history
  fs_dc :: "nat \<Rightarrow> history"
  fs_last :: pyfloat
  fs_polls :: nat
  fs_bidirectional :: int
  fs_ratio :: history
  fs_empty :: nat
  fs_streak :: "(string \<times> nat) list"

definition fire_new :: "int \<Rightarrow> fire" where
  "fire_new num_bidirectional = \<lparr>fs_alerts = [], fs_iso = [], fs_ctrl = [], fs_bat_temp = [], fs_bat_volt = [],
     fs_dc = (\<lambda>_. []), fs_last = FFin 0, fs_polls = 0, fs_bidirectional = num_bidirectional, fs_ratio = [],
     fs_empty = 0, fs_streak = []\<rparr>"

definition is_active :: "pyfloat \<Rightarrow> alert \<Rightarrow> bool" where
  "is_active now a = flt (fsub now (al_time a)) (FFin 3600)"

definition active_alerts :: "pyfloat \<Rightarrow> fire \<Rightarrow> alert list" where
  "active_alerts now s = filter (is_active now) (fs_alerts s)"

definition thermal_category :: "string \<Rightarrow> bool" where
  "thermal_category c \<longleftrightarrow> c \<in> set [''battery_thermal'', ''battery_voltage_anomaly'', ''controller_thermal'']"

definition clear_stale_alerts :: "pyfloat \<Rightarrow> bool \<Rightarrow> fire \<Rightarrow> fire" where
  "clear_stale_alerts now pv_active s =
     (if pv_active then s
      else s\<lparr>fs_alerts := filter (\<lambda>a. flt (fsub now (al_time a))
             (FFin (if thermal_category (al_category a) then 3600 else 300))) (fs_alerts s)\<rparr>)"

definition current_risk_level :: "pyfloat \<Rightarrow> fire \<Rightarrow> risk" where
  "current_risk_level now s =
     (let levels = map al_level (active_alerts now s)
      in if levels = [] then Safe
         else if Emergency \<in> set levels then Emergency
         else if High \<in> set levels then High
         else if Elevated \<in> set levels then Elevated
         else if Monitor \<in> set levels then Monitor
         else Safe)"

definition alert_count :: "pyfloat \<Rightarrow> fire \<Rightarrow> nat" where
  "alert_count now s = length (active_alerts now s)"

section \<open>Histories\<close>

definition try_append :: "nat \<Rightarrow> pyfloat \<Rightarrow> pyval \<Rightarrow> history \<Rightarrow> pyexc + history" where
  "try_append n now v h = bind_res (optional_float v) (\<lambda>x. Inr (case x of
     None \<Rightarrow> h | Some f \<Rightarrow> deque_append n (now, f) h))"

text \<open>Append to the history a field holds; an exception leaves the field.\<close>

definition record_field ::
    "nat \<Rightarrow> pyfloat \<Rightarrow> pyval \<Rightarrow> (fire \<Rightarrow> history) \<Rightarrow> (history \<Rightarrow> fire \<Rightarrow> fire) \<Rightarrow> fire \<Rightarrow> (pyexc + unit) \<times> fire" where
  "record_field n now v get_h put_h s = (case try_append n now v (get_h s) of
     Inl e \<Rightarrow> (Inl e, s) | Inr h \<Rightarrow> (Inr (), put_h h s))"

definition rate_of_change :: "history \<Rightarrow> pyfloat \<Rightarrow> pyexc + pyfloat option" where
  "rate_of_change h window =
     (if length h < MIN_SAMPLES_FOR_RATE then Inr None
      else let cutoff = fsub (fst (last h)) window;
               w = filter (\<lambda>(t, v). fle cutoff t) h
           in if length w < MIN_SAMPLES_FOR_RATE then Inr None
              else let dt = fsub (fst (last w)) (fst (hd w))
                   in if flt dt (FFin 10) then Inr None
                      else bind_res (fdiv (fsub (snd (last w)) (snd (hd w))) dt) (\<lambda>q. Inr (Some (fmul q window))))"

definition pv_producing :: "pyfloat option \<Rightarrow> bool" where
  "pv_producing total_dc = (case total_dc of None \<Rightarrow> False | Some p \<Rightarrow> flt (FFin 50) p)"

text \<open>\<open>int\<close> of a float that is a number.\<close>

definition state_code :: "pyfloat option \<Rightarrow> int option" where
  "state_code x = map_option (\<lambda>f. trunc_rat (frat f)) x"

definition dc_name :: "nat \<Rightarrow> string \<Rightarrow> string" where
  "dc_name i what = ''dc'' @ nat_dec i @ what"

definition lift_res :: "pyexc + 'a \<Rightarrow> fire \<Rightarrow> (pyexc + 'a) \<times> fire" where
  "lift_res r s = (r, s)"

definition record_history :: "(string \<times> pyval) list \<Rightarrow> pyfloat \<Rightarrow> fire \<Rightarrow> (pyexc + unit) \<times> fire" where
  "record_history d now =
     sbind (lift_res (sensor d ''total_dc_power'')) (\<lambda>total_dc.
     sbind (lift_res (sensor d ''inverter_state'')) (\<lambda>state.
     sbind (if pv_producing total_dc
            then sbind (lift_res (normalize_isolation_resistance_ohm (reading d ''isolation_resistance'') True (state_code state)))
                   (\<lambda>iso. record_field 100 now (case iso of None \<Rightarrow> VNone | Some x \<Rightarrow> VFloat x) fs_iso (\<lambda>h s. s\<lparr>fs_iso := h\<rparr>))
            else lift_res (Inr ())) (\<lambda>_.
     sbind (record_field 100 now (reading d ''controller_temp'') fs_ctrl (\<lambda>h s. s\<lparr>fs_ctrl := h\<rparr>)) (\<lambda>_.
     sbind (record_field 100 now (reading d ''battery_temperature'') fs_bat_temp (\<lambda>h s. s\<lparr>fs_bat_temp := h\<rparr>)) (\<lambda>_.
     sbind (record_field 100 now (reading d ''battery_voltage'') fs_bat_volt (\<lambda>h s. s\<lparr>fs_bat_volt := h\<rparr>)) (\<lambda>_.
     sbind (record_field 60 now (reading d (dc_name 1 ''_power'')) (\<lambda>s. fs_dc s 1) (\<lambda>h s. s\<lparr>fs_dc := (fs_dc s)(1 := h)\<rparr>)) (\<lambda>_.
     sbind (record_field 60 now (reading d (dc_name 2 ''_power'')) (\<lambda>s. fs_dc s 2) (\<lambda>h s. s\<lparr>fs_dc := (fs_dc s)(2 := h)\<rparr>)) (\<lambda>_.
     record_field 60 now (reading d (dc_name 3 ''_power'')) (\<lambda>s. fs_dc s 3) (\<lambda>h s. s\<lparr>fs_dc := (fs_dc s)(3 := h)\<rparr>)))))))))"

section \<open>Isolation\<close>

definition check_isolation :: "(string \<times> pyval) list \<Rightarrow> pyfloat \<Rightarrow> fire \<Rightarrow> pyexc + alert list" where
  "check_isolation d now s =
     bind_res (sensor d ''inverter_state'') (\<lambda>state.
     bind_res (sensor d ''total_dc_power'') (\<lambda>total_dc.
     bind_res (normalize_isolation_resistance_ohm (reading d ''isolation_resistance'') (pv_producing total_dc) (state_code state))
       (\<lambda>iso. case iso of
          None \<Rightarrow> Inr []
        | Some x \<Rightarrow>
            if flt x (FFin 1000) \<and> (case total_dc of None \<Rightarrow> True | Some p \<Rightarrow> flt p (FFin 50)) then Inr []
            else if idle_state (state_code state) \<and> flt x (FFin 1000) then Inr []
            else if flt x (FFin 50000) then
              Inr [\<lparr>al_time = now, al_level = Emergency, al_category = ''isolation'',
                    al_title = ''CRITICAL: Isolation resistance dangerously low''\<rparr>]
            else if flt x (FFin 100000) then
              Inr [\<lparr>al_time = now, al_level = High, al_category = ''isolation'',
                    al_title = ''Isolation resistance critically low''\<rparr>]
            else if flt x (FFin 500000) then
              bind_res (rate_of_change (fs_iso s) RATE_WINDOW_SECONDS) (\<lambda>rate. Inr (case rate of
                 None \<Rightarrow> []
               | Some r \<Rightarrow> if flt r (FFin (- 50000))
                   then [\<lparr>al_time = now, al_level = Elevated, al_category = ''isolation'',
                          al_title = ''Isolation resistance dropping rapidly''\<rparr>] else []))
            else Inr [])))"

section \<open>The strings\<close>

text \<open>The power and voltage of each input; only the power decides.\<close>

fun string_powers :: "(string \<times> pyval) list \<Rightarrow> nat list \<Rightarrow> pyexc + (nat \<times> pyfloat) list" where
  "string_powers d [] = Inr []"
| "string_powers d (i # is) =
     bind_res (sensor d (dc_name i ''_power'')) (\<lambda>p.
     bind_res (sensor d (dc_name i ''_voltage'')) (\<lambda>_.
     bind_res (string_powers d is) (\<lambda>rest.
       Inr (case p of None \<Rightarrow> rest | Some x \<Rightarrow> if flt (FFin 20) x then (i, x) # rest else rest))))"

definition py_max_list :: "pyfloat list \<Rightarrow> pyfloat" where
  "py_max_list xs = (case xs of [] \<Rightarrow> FNaN | x # ys \<Rightarrow> foldl py_max x ys)"

fun fdiv_all :: "pyfloat list \<Rightarrow> pyfloat \<Rightarrow> pyexc + pyfloat list" where
  "fdiv_all [] y = Inr []"
| "fdiv_all (x # xs) y = bind_res (fdiv x y) (\<lambda>q. bind_res (fdiv_all xs y) (\<lambda>qs. Inr (q # qs)))"

definition is_stable_ratio :: "pyfloat \<Rightarrow> history \<Rightarrow> pyexc + bool" where
  "is_stable_ratio now h =
     (let w = map snd (filter (\<lambda>(t, x). flt (fsub now t) (FFin 1800)) h)
      in if length w < 10 then Inr False
         else bind_res (py_mean w) (\<lambda>avg.
           Inr (flt (py_max_list (map (\<lambda>x. fabs (fsub x avg)) w)) (mk_float False (5 / 100)))))"

definition record_ratio :: "pyfloat \<Rightarrow> pyfloat list \<Rightarrow> fire \<Rightarrow> (pyexc + unit) \<times> fire" where
  "record_ratio now ps s =
     (let tot = py_sum ps
      in if flt (FFin 0) tot
         then case bind_res (fdiv (FFin 1) (FFin (of_nat (length ps)))) (\<lambda>share.
                bind_res (fdiv_all ps tot) (\<lambda>qs. Inr (py_max_list (map (\<lambda>q. fabs (fsub q share)) qs)))) of
              Inl e \<Rightarrow> (Inl e, s)
            | Inr x \<Rightarrow> (Inr (), s\<lparr>fs_ratio := deque_append 200 (now, x) (fs_ratio s)\<rparr>)
         else (Inr (), s))"

definition string_alert :: "pyfloat \<Rightarrow> pyfloat \<Rightarrow> fire \<Rightarrow> nat \<times> pyfloat \<Rightarrow> pyexc + alert list" where
  "string_alert now avg s ip = (let (i, p) = ip in
     bind_res (fdiv (fabs (fsub p avg)) avg) (\<lambda>q.
     bind_res (rate_of_change (fs_dc s i) RATE_WINDOW_SECONDS) (\<lambda>rate.
     bind_res (is_stable_ratio now (fs_ratio s)) (\<lambda>stable.
       let deviation = fmul q (FFin 100) in Inr (
       if (case rate of None \<Rightarrow> False | Some r \<Rightarrow> flt (fmul p (FFin (1 / 2))) (fabs r)) \<and> flt (FFin 80) deviation \<and> \<not> stable
       then [\<lparr>al_time = now, al_level = Elevated, al_category = ''dc_arc_indicator'',
              al_title = ''DC string '' @ dc_name i ('' power fluctuating abnormally'')\<rparr>]
       else if flt p avg \<and> flt (FFin 85) deviation \<and> \<not> stable
       then [\<lparr>al_time = now, al_level = Monitor, al_category = ''dc_imbalance'',
              al_title = ''DC string '' @ dc_name i ('' significantly weaker than others'')\<rparr>]
       else [])))))"

fun concat_res :: "(pyexc + 'a list) list \<Rightarrow> pyexc + 'a list" where
  "concat_res [] = Inr []"
| "concat_res (r # rs) = bind_res r (\<lambda>x. bind_res (concat_res rs) (\<lambda>y. Inr (x @ y)))"

definition check_dc_string_anomaly ::
    "(string \<times> pyval) list \<Rightarrow> pyfloat \<Rightarrow> fire \<Rightarrow> (pyexc + alert list) \<times> fire" where
  "check_dc_string_anomaly d now s =
     (case string_powers d (if 1 \<le> fs_bidirectional s then [1, 2] else [1, 2, 3]) of
        Inl e \<Rightarrow> (Inl e, s)
      | Inr powers \<Rightarrow>
          if length powers < 2 then (Inr [], s)
          else case py_mean (map snd powers) of
            Inl e \<Rightarrow> (Inl e, s)
          | Inr avg \<Rightarrow>
              if flt avg (FFin 100) then (Inr [], s)
              else sbind (record_ratio now (map snd powers))
                     (\<lambda>_ s1. (concat_res (map (string_alert now avg s1) powers), s1)) s)"

section \<open>Temperatures\<close>

definition check_battery_thermal :: "(string \<times> pyval) list \<Rightarrow> pyfloat \<Rightarrow> fire \<Rightarrow> pyexc + alert list" where
  "check_battery_thermal d now s =
     bind_res (sensor d ''battery_temperature'') (\<lambda>t. case t of
       None \<Rightarrow> Inr []
     | Some temp \<Rightarrow>
         bind_res (sensor d ''battery_voltage'') (\<lambda>volt.
         bind_res (if flt (FFin 60) temp then
               Inr [\<lparr>al_time = now, al_level = Emergency, al_category = ''battery_thermal'',
                     al_title = ''CRITICAL: Battery temperature dangerously high''\<rparr>]
             else if flt (FFin 50) temp then
               Inr [\<lparr>al_time = now, al_level = High, al_category = ''battery_thermal'',
                     al_title = ''Battery temperature critically high''\<rparr>]
             else if flt (FFin 45) temp then
               bind_res (rate_of_change (fs_bat_temp s) RATE_WINDOW_SECONDS) (\<lambda>rate. Inr (case rate of
                  None \<Rightarrow> []
                | Some r \<Rightarrow> if flt (FFin 2) r
                    then [\<lparr>al_time = now, al_level = Elevated, al_category = ''battery_thermal'',
                           al_title = ''Battery temperature rising rapidly''\<rparr>] else []))
             else Inr []) (\<lambda>hot.
         bind_res (case volt of None \<Rightarrow> Inr []
             | Some v \<Rightarrow> bind_res (rate_of_change (fs_bat_volt s) RATE_WINDOW_SECONDS) (\<lambda>rate. Inr (case rate of
                  None \<Rightarrow> []
                | Some r \<Rightarrow> if flt (FFin 40) temp \<and> flt (FFin 5) (fabs r)
                    then [\<lparr>al_time = now, al_level = Elevated, al_category = ''battery_voltage_anomaly'',
                           al_title = ''Battery voltage anomaly during high temperature''\<rparr>] else []))) (\<lambda>anomaly.
         Inr (hot @ anomaly)))))"

definition check_controller_thermal :: "(string \<times> pyval) list \<Rightarrow> pyfloat \<Rightarrow> fire \<Rightarrow> pyexc + alert list" where
  "check_controller_thermal d now s =
     bind_res (sensor d ''controller_temp'') (\<lambda>t. case t of
       None \<Rightarrow> Inr []
     | Some temp \<Rightarrow>
         if flt (FFin 85) temp then
           Inr [\<lparr>al_time = now, al_level = High, al_category = ''controller_thermal'',
                 al_title = ''Controller temperature dangerously high''\<rparr>]
         else if flt (FFin 75) temp then
           bind_res (rate_of_change (fs_ctrl s) RATE_WINDOW_SECONDS) (\<lambda>rate. Inr (case rate of
              None \<Rightarrow> []
            | Some r \<Rightarrow> if flt (FFin 3) r
                then [\<lparr>al_time = now, al_level = Elevated, al_category = ''controller_thermal'',
                       al_title = ''Controller temperature rising rapidly''\<rparr>] else []))
         else Inr [])"

section \<open>The grid\<close>

definition detect_nominal_frequency_hz :: "pyfloat option \<Rightarrow> pyfloat" where
  "detect_nominal_frequency_hz f = (case f of None \<Rightarrow> FFin 50 | Some x \<Rightarrow> if fle (FFin 55) x then FFin 60 else FFin 50)"

definition detect_nominal_phase_voltage_v :: "pyfloat list \<Rightarrow> pyexc + pyfloat" where
  "detect_nominal_phase_voltage_v vs =
     (let active = filter (flt (FFin 80)) vs
      in if active = [] then Inr (FFin 230)
         else bind_res (py_mean active) (\<lambda>avg. Inr (if flt avg (FFin 180) then FFin 120 else FFin 230)))"

definition phase_alert :: "pyfloat \<Rightarrow> pyfloat \<Rightarrow> nat \<Rightarrow> pyfloat option \<Rightarrow> alert list" where
  "phase_alert now nominal phase v = (case v of
     None \<Rightarrow> []
   | Some x \<Rightarrow>
       (let (low, high) = (if fle nominal (FFin 130) then (FFin 95, FFin 145) else (FFin 180, FFin 270))
        in if flt high x \<or> flt x low
           then [\<lparr>al_time = now, al_level = High, al_category = ''voltage_extreme'',
                  al_title = ''Phase '' @ nat_dec phase @ '' voltage extreme''\<rparr>] else []))"

definition check_grid_emergency :: "(string \<times> pyval) list \<Rightarrow> pyfloat \<Rightarrow> pyexc + alert list" where
  "check_grid_emergency d now =
     bind_res (sensor d ''grid_frequency'') (\<lambda>freq.
     bind_res (sensor d ''phase1_voltage'') (\<lambda>v1.
     bind_res (sensor d ''phase2_voltage'') (\<lambda>v2.
     bind_res (sensor d ''phase3_voltage'') (\<lambda>v3.
     bind_res (detect_nominal_phase_voltage_v (List.map_filter id [v1, v2, v3])) (\<lambda>nominal.
       Inr ((case freq of None \<Rightarrow> []
             | Some f \<Rightarrow> if flt (FFin (3 / 2)) (fabs (fsub f (detect_nominal_frequency_hz freq)))
                 then [\<lparr>al_time = now, al_level = High, al_category = ''grid_emergency'',
                        al_title = ''Severe grid frequency deviation''\<rparr>] else [])
            @ phase_alert now nominal 1 v1 @ phase_alert now nominal 2 v2 @ phase_alert now nominal 3 v3))))))"

text \<open>An alert of the grid is confirmed when its condition holds in consecutive checks.\<close>

definition grid_key :: "alert \<Rightarrow> string" where
  "grid_key a = al_category a @ '':'' @ al_title a"

definition streak_of :: "fire \<Rightarrow> string \<Rightarrow> nat" where
  "streak_of s k = (case map_of (fs_streak s) k of None \<Rightarrow> 0 | Some n \<Rightarrow> n)"

definition confirm_grid_alerts :: "alert list \<Rightarrow> fire \<Rightarrow> alert list \<times> fire" where
  "confirm_grid_alerts candidates s =
     (let streak = dict_update [] (map (\<lambda>a. (grid_key a, streak_of s (grid_key a) + 1)) candidates);
          s1 = s\<lparr>fs_streak := streak\<rparr>
      in (filter (\<lambda>a. GRID_ALERT_CONFIRM_POLLS \<le> streak_of s1 (grid_key a)) candidates, s1))"

section \<open>One analysis\<close>

fun dedup_alerts :: "(string \<times> risk) list \<Rightarrow> alert list \<Rightarrow> fire \<Rightarrow> alert list \<times> fire" where
  "dedup_alerts keys [] s = ([], s)"
| "dedup_alerts keys (a # as) s =
     (let k = (al_category a, al_level a)
      in if k \<in> set keys then dedup_alerts keys as s
         else let (new, s1) = dedup_alerts (k # keys) as (s\<lparr>fs_alerts := deque_append 500 a (fs_alerts s)\<rparr>)
              in (a # new, s1))"

definition in_standby :: "pyval \<Rightarrow> pyexc + bool" where
  "in_standby v = (if v = VNone then Inr False
     else case int_of_val v of
       Inr n \<Rightarrow> Inr (idle_state (Some n)) | Inl e \<Rightarrow> if caught_conv e then Inr False else Inl e)"

definition count_empty :: "bool \<Rightarrow> fire \<Rightarrow> fire" where
  "count_empty has_data s = s\<lparr>fs_empty := (if has_data then 0 else fs_empty s + 1)\<rparr>"

text \<open>The checks that always run: the two temperatures and the grid.\<close>

definition always_checks :: "(string \<times> pyval) list \<Rightarrow> pyfloat \<Rightarrow> fire \<Rightarrow> (pyexc + alert list) \<times> fire" where
  "always_checks d now s =
     (case bind_res (check_battery_thermal d now s) (\<lambda>a. bind_res (check_controller_thermal d now s) (\<lambda>b.
        bind_res (check_grid_emergency d now) (\<lambda>c. Inr (a @ b, c)))) of
        Inl e \<Rightarrow> (Inl e, s)
      | Inr (hot, grid) \<Rightarrow> (let (confirmed, s1) = confirm_grid_alerts grid s in (Inr (hot @ confirmed), s1)))"

text \<open>The checks that need the strings to produce.\<close>

definition pv_checks :: "(string \<times> pyval) list \<Rightarrow> pyfloat \<Rightarrow> bool \<Rightarrow> fire \<Rightarrow> (pyexc + alert list) \<times> fire" where
  "pv_checks d now pv_active =
     sbind (lift_res (in_standby (reading d ''inverter_state''))) (\<lambda>standby.
       if pv_active \<and> \<not> standby
       then sbind (\<lambda>s. (check_isolation d now s, s)) (\<lambda>a.
            sbind (check_dc_string_anomaly d now) (\<lambda>b. lift_res (Inr (a @ b))))
       else lift_res (Inr []))"

text \<open>The bookkeeping before the checks: histories, missing data, alerts that are over.\<close>

definition fire_prepare :: "(string \<times> pyval) list \<Rightarrow> pyfloat \<Rightarrow> fire \<Rightarrow> (pyexc + bool) \<times> fire" where
  "fire_prepare d now =
     sbind (record_history d now) (\<lambda>_.
     sbind (lift_res (sensor d ''battery_temperature'')) (\<lambda>bat_temp.
     sbind (lift_res (sensor d ''controller_temp'')) (\<lambda>ctrl_temp.
     sbind (\<lambda>s. (Inr (), count_empty (bat_temp \<noteq> None \<or> ctrl_temp \<noteq> None) s)) (\<lambda>_.
     sbind (lift_res (sensor d ''total_dc_power'')) (\<lambda>total_dc.
     sbind (\<lambda>s. (Inr (), clear_stale_alerts now (pv_producing total_dc) s)) (\<lambda>_.
     lift_res (Inr (pv_producing total_dc))))))))"

definition fire_collect :: "(string \<times> pyval) list \<Rightarrow> pyfloat \<Rightarrow> fire \<Rightarrow> (pyexc + alert list) \<times> fire" where
  "fire_collect d now =
     sbind (fire_prepare d now) (\<lambda>pv_active.
     sbind (always_checks d now) (\<lambda>a.
     sbind (pv_checks d now pv_active) (\<lambda>b.
     lift_res (Inr (a @ b)))))"

definition analyze :: "(string \<times> pyval) list \<Rightarrow> pyfloat \<Rightarrow> fire \<Rightarrow> (pyexc + alert list) \<times> fire" where
  "analyze d now s =
     (if flt (fsub now (fs_last s)) (FFin 5) then (Inr [], s)
      else sbind (fire_collect d now) (\<lambda>new s1.
             let (added, s2) = dedup_alerts (map (\<lambda>a. (al_category a, al_level a)) (active_alerts now s1)) new s1
             in (Inr added, s2)) (s\<lparr>fs_last := now, fs_polls := fs_polls s + 1\<rparr>))"

end
