(* ===== verification/FireProofs.thy ===== *)
theory FireProofs
  imports FireSafety
begin

text \<open>
  The fire safety monitor over sequences of analyses: the risk it reports, the alerts it keeps,
  and the conditions it cannot miss or must not report.
\<close>

section \<open>The reported risk\<close>

lemma worst_of:
  fixes L :: "risk set"
  shows "(if Emergency \<in> L then Emergency else if High \<in> L then High else if Elevated \<in> L then Elevated
     else if Monitor \<in> L then Monitor else Safe) = Max (insert Safe L)" (is "?w = _")
proof -
  have "finite L" by (rule finite_subset [of _ "{Safe, Monitor, Elevated, High, Emergency}"])
    (use risk.exhaust in auto)
  moreover have "y \<le> ?w" if "y \<in> insert Safe L" for y
    using that by (cases y) (auto simp: less_eq_risk_def risk_rank_def)
  moreover have "?w \<in> insert Safe L" by auto
  ultimately have "Max (insert Safe L) = ?w" by (intro Max_eqI) auto
  then show ?thesis by (rule sym)
qed

text \<open>The risk the monitor reports is the worst level among the alerts of the last hour.\<close>

lemma current_risk_is_worst:
  "current_risk_level now s = Max (insert Safe (set (map al_level (active_alerts now s))))"
  unfolding worst_of [symmetric]
  by (cases "active_alerts now s = []") (simp_all add: current_risk_level_def Let_def)

section \<open>What the checks produce\<close>

text \<open>Alerts of one time and of the given categories.\<close>

definition alerts_of :: "pyfloat \<Rightarrow> string list \<Rightarrow> alert list \<Rightarrow> bool" where
  "alerts_of now cats as \<longleftrightarrow> (\<forall>a \<in> set as. al_time a = now \<and> al_category a \<in> set cats)"

lemma alerts_of_simps [simp]:
  "alerts_of now cats []" "alerts_of now cats (as @ bs) \<longleftrightarrow> alerts_of now cats as \<and> alerts_of now cats bs"
  "alerts_of now cats (a # as) \<longleftrightarrow> al_time a = now \<and> al_category a \<in> set cats \<and> alerts_of now cats as"
  by (auto simp: alerts_of_def)

lemma alerts_of_mono: "alerts_of now cats as \<Longrightarrow> set cats \<subseteq> set cats' \<Longrightarrow> alerts_of now cats' as"
  by (auto simp: alerts_of_def)

definition thermal_cats :: "string list" where
  "thermal_cats = [''battery_thermal'', ''battery_voltage_anomaly'', ''controller_thermal'']"

definition pv_cats :: "string list" where
  "pv_cats = [''isolation'', ''dc_arc_indicator'', ''dc_imbalance'']"

definition grid_cats :: "string list" where
  "grid_cats = [''grid_emergency'', ''voltage_extreme'']"

text \<open>A check whose result, if it does not raise, is such a list of bounded length.\<close>

definition check_ok :: "pyfloat \<Rightarrow> string list \<Rightarrow> nat \<Rightarrow> pyexc + alert list \<Rightarrow> bool" where
  "check_ok now cats n r \<longleftrightarrow> (\<forall>as. r = Inr as \<longrightarrow> alerts_of now cats as \<and> length as \<le> n)"

lemma check_okD: "check_ok now cats n (Inr as) \<Longrightarrow> alerts_of now cats as \<and> length as \<le> n"
  by (simp add: check_ok_def)

lemma check_ok_bind: "(\<And>a. check_ok now cats n (f a)) \<Longrightarrow> check_ok now cats n (bind_res r f)"
  by (cases r) (simp_all add: check_ok_def)

lemma check_ok_if:
  "(c \<Longrightarrow> check_ok now cats n a) \<Longrightarrow> (\<not> c \<Longrightarrow> check_ok now cats n b) \<Longrightarrow> check_ok now cats n (if c then a else b)"
  by simp

lemma check_ok_option:
  "check_ok now cats n a \<Longrightarrow> (\<And>x. check_ok now cats n (f x)) \<Longrightarrow> check_ok now cats n (case z of None \<Rightarrow> a | Some x \<Rightarrow> f x)"
  by (cases z) simp_all

lemma check_ok_Inr: "alerts_of now cats as \<Longrightarrow> length as \<le> n \<Longrightarrow> check_ok now cats n (Inr as)"
  by (simp add: check_ok_def)

lemma check_ok_append:
  "check_ok now cats n a \<Longrightarrow> check_ok now cats m b \<Longrightarrow>
   check_ok now cats (n + m) (bind_res a (\<lambda>x. bind_res b (\<lambda>y. Inr (x @ y))))"
  by (cases a; cases b) (auto simp: check_ok_def)

lemmas check_ok_intros = check_ok_bind check_ok_if check_ok_option

lemma isolation_alerts: "check_ok now pv_cats 1 (check_isolation d now s)"
  unfolding check_isolation_def
  by (intro check_ok_intros; rule check_ok_Inr) (simp_all add: pv_cats_def split: option.split)

lemma battery_alerts: "check_ok now thermal_cats 2 (check_battery_thermal d now s)"
  unfolding check_battery_thermal_def one_add_one [symmetric]
  by (intro check_ok_append check_ok_intros; rule check_ok_Inr) (simp_all add: thermal_cats_def split: option.split)

lemma controller_alerts: "check_ok now thermal_cats 1 (check_controller_thermal d now s)"
  unfolding check_controller_thermal_def
  by (intro check_ok_intros; rule check_ok_Inr) (simp_all add: thermal_cats_def split: option.split)

lemma phase_alerts: "alerts_of now grid_cats (phase_alert now nominal i v)" "length (phase_alert now nominal i v) \<le> 1"
  by (simp_all add: phase_alert_def Let_def grid_cats_def split: option.split)

lemma grid_alerts: "check_ok now grid_cats 4 (check_grid_emergency d now)"
proof -
  have "check_ok now grid_cats 4 (Inr (as @ phase_alert now n 1 a @ phase_alert now n 2 b @ phase_alert now n 3 c))"
    if "alerts_of now grid_cats as" "length as \<le> 1" for as n a b c
    using that phase_alerts(2) [of now n 1 a] phase_alerts(2) [of now n 2 b] phase_alerts(2) [of now n 3 c]
    by (intro check_ok_Inr) (simp_all add: phase_alerts(1))
  then show ?thesis unfolding check_grid_emergency_def
    by (simp add: check_ok_bind grid_cats_def split: option.split)
qed

lemma string_alerts: "check_ok now pv_cats 1 (string_alert now avg s ip)"
  unfolding string_alert_def Let_def prod.case_eq_if
  by (intro check_ok_intros; rule check_ok_Inr) (simp_all add: pv_cats_def)

lemma concat_alerts:
  "concat_res (map (string_alert now avg s) ps) = Inr as \<Longrightarrow> alerts_of now pv_cats as \<and> length as \<le> length ps"
proof (induction ps arbitrary: as)
  case (Cons p ps)
  then obtain x y where "string_alert now avg s p = Inr x" "concat_res (map (string_alert now avg s) ps) = Inr y" "as = x @ y"
    by (auto simp: bind_res_Inr_iff)
  then show ?case using Cons.IH [of y] string_alerts [of now avg s p] by (simp add: check_ok_def)
qed simp

lemma string_powers_length: "string_powers d is = Inr ps \<Longrightarrow> length ps \<le> length is"
proof (induction "is" arbitrary: ps)
  case (Cons i "is")
  then show ?case by (fastforce simp: bind_res_Inr_iff split: option.splits if_splits)
qed simp

lemma dc_alerts:
  "check_ok now pv_cats 3 (fst (check_dc_string_anomaly d now s))"
  unfolding check_ok_def
proof (intro allI impI)
  fix as
  assume "fst (check_dc_string_anomaly d now s) = Inr as"
  then obtain s' where c: "check_dc_string_anomaly d now s = (Inr as, s')" by (metis prod.collapse)
  obtain ps where p: "string_powers d (if 1 \<le> fs_bidirectional s then [1, 2] else [1, 2, 3]) = Inr ps"
    using c by (auto simp: check_dc_string_anomaly_def split: sum.splits)
  then have l: "length ps \<le> 3" using string_powers_length [OF p] by (auto split: if_splits)
  consider "as = []" | avg s1 where "concat_res (map (string_alert now avg s1) ps) = Inr as"
    using c p by (auto simp: check_dc_string_anomaly_def sbind_def split: sum.splits if_splits prod.splits)
  then show "alerts_of now pv_cats as \<and> length as \<le> 3"
  proof cases
    case 2
    then show ?thesis using concat_alerts [OF 2] l by simp
  qed simp
qed

section \<open>What the parts of an analysis keep\<close>

text \<open>An action that at most drops alerts and leaves the streaks.\<close>

definition drops_alerts :: "(fire \<Rightarrow> 'a \<times> fire) \<Rightarrow> bool" where
  "drops_alerts m \<longleftrightarrow> (\<forall>s. (\<exists>P. fs_alerts (snd (m s)) = filter P (fs_alerts s)) \<and> fs_streak (snd (m s)) = fs_streak s)"

lemma drops_refl: "(\<And>s. fs_alerts (snd (m s)) = fs_alerts s \<and> fs_streak (snd (m s)) = fs_streak s) \<Longrightarrow> drops_alerts m"
  unfolding drops_alerts_def by (auto intro: exI [of _ "\<lambda>_. True"])

lemma drops_sbind:
  assumes "drops_alerts m" "\<And>a. drops_alerts (k a)"
  shows "drops_alerts (sbind m k)"
  unfolding drops_alerts_def
proof
  fix s
  obtain r s1 where m: "m s = (r, s1)" by fastforce
  obtain P where P: "fs_alerts s1 = filter P (fs_alerts s)" "fs_streak s1 = fs_streak s"
    using assms(1) m unfolding drops_alerts_def by (metis snd_conv)
  show "(\<exists>P. fs_alerts (snd (sbind m k s)) = filter P (fs_alerts s)) \<and> fs_streak (snd (sbind m k s)) = fs_streak s"
  proof (cases r)
    case (Inl e)
    then show ?thesis using m P by (auto simp: sbind_def)
  next
    case (Inr a)
    obtain Q where "fs_alerts (snd (k a s1)) = filter Q (fs_alerts s1)" "fs_streak (snd (k a s1)) = fs_streak s1"
      using assms(2) [of a] unfolding drops_alerts_def by blast
    then have "fs_alerts (snd (sbind m k s)) = filter (\<lambda>x. P x \<and> Q x) (fs_alerts s)"
      "fs_streak (snd (sbind m k s)) = fs_streak s"
      using Inr m P by (simp_all add: sbind_def conj_commute)
    then show ?thesis by blast
  qed
qed

lemma drops_lift: "drops_alerts (lift_res r)"
  by (rule drops_refl) (simp add: lift_res_def)

lemma drops_field:
  assumes "\<And>h s. fs_alerts (put_h h s) = fs_alerts s \<and> fs_streak (put_h h s) = fs_streak s"
  shows "drops_alerts (record_field n now v get_h put_h)"
  by (rule drops_refl) (simp add: record_field_def assms split: sum.split)

lemma drops_history: "drops_alerts (record_history d now)"
  unfolding record_history_def
  by (intro drops_sbind drops_lift) (auto intro!: drops_sbind drops_lift drops_field)

lemma drops_clear: "drops_alerts (\<lambda>s. (Inr (), clear_stale_alerts now pv s))"
  unfolding drops_alerts_def clear_stale_alerts_def by (auto intro: exI [of _ "\<lambda>_. True"])

lemma drops_dc: "drops_alerts (check_dc_string_anomaly d now)"
  by (rule drops_refl)
     (auto simp: check_dc_string_anomaly_def sbind_def record_ratio_def Let_def split: sum.split)

lemma drops_pv: "drops_alerts (pv_checks d now pv)"
proof -
  have "drops_alerts (\<lambda>s. (check_isolation d now s, s))" by (rule drops_refl) simp
  then show ?thesis unfolding pv_checks_def
    by (intro drops_sbind drops_lift) (simp add: drops_sbind drops_lift drops_dc)
qed

section \<open>Alerts without duplicates\<close>

abbreviation alert_key :: "alert \<Rightarrow> string \<times> risk" where
  "alert_key a \<equiv> (al_category a, al_level a)"

lemma dedup_keeps:
  "dedup_alerts keys as s = (added, s') \<Longrightarrow> fs_streak s' = fs_streak s \<and> fs_last s' = fs_last s \<and> set added \<subseteq> set as
   \<and> (length (fs_alerts s) + length as \<le> 500 \<longrightarrow> fs_alerts s' = fs_alerts s @ added)
   \<and> (\<forall>a \<in> set as. alert_key a \<in> set keys \<or> (\<exists>b \<in> set added. alert_key b = alert_key a))"
proof (induction keys as s arbitrary: added s' rule: dedup_alerts.induct)
  case (2 keys a as s)
  show ?case
  proof (cases "alert_key a \<in> set keys")
    case True
    then show ?thesis using "2.IH"(1) [OF refl True] "2.prems" by (auto simp: Let_def)
  next
    case False
    obtain new s1 where n: "dedup_alerts (alert_key a # keys) as (s\<lparr>fs_alerts := deque_append 500 a (fs_alerts s)\<rparr>) = (new, s1)"
      by fastforce
    then have e: "added = a # new" "s' = s1" using "2.prems" False by (auto simp: Let_def)
    show ?thesis using "2.IH"(2) [OF refl False n] e
      by (auto simp: deque_append_keeps)
  qed
qed simp

text \<open>Two alerts of the same kind are an hour apart.\<close>

definition spaced :: "alert \<Rightarrow> alert \<Rightarrow> bool" where
  "spaced a b \<longleftrightarrow> alert_key a = alert_key b \<longrightarrow> fle (FFin 3600) (fsub (al_time b) (al_time a))"

text \<open>The alerts are in the order of their times, and of the known categories.\<close>

definition not_after :: "alert \<Rightarrow> alert \<Rightarrow> bool" where
  "not_after a b \<longleftrightarrow> fle (al_time a) (al_time b)"

definition alert_cats :: "string list" where
  "alert_cats = thermal_cats @ pv_cats @ grid_cats"

definition fire_inv :: "pyfloat \<Rightarrow> fire \<Rightarrow> bool" where
  "fire_inv t s \<longleftrightarrow> sorted_wrt spaced (fs_alerts s) \<and> sorted_wrt not_after (fs_alerts s)
     \<and> (\<forall>a \<in> set (fs_alerts s). is_finite (al_time a) \<and> fle (al_time a) t \<and> al_category a \<in> set alert_cats)"

lemma sorted_wrt_take_last: "sorted_wrt P xs \<Longrightarrow> sorted_wrt P (take_last n xs)"
  by (simp add: take_last_def sorted_wrt_drop)

lemma fire_inv_append:
  assumes "fire_inv t s" "is_finite t" "al_time a = t" "alert_key a \<notin> alert_key ` set (active_alerts t s)"
    "al_category a \<in> set alert_cats"
  shows "fire_inv t (s\<lparr>fs_alerts := deque_append 500 a (fs_alerts s)\<rparr>)"
proof -
  have "spaced b a" if "b \<in> set (fs_alerts s)" for b
  proof -
    have f: "is_finite (al_time b)" using assms(1) that by (simp add: fire_inv_def)
    have "alert_key b = alert_key a \<Longrightarrow> \<not> is_active t b"
    proof
      assume k: "alert_key b = alert_key a" and "is_active t b"
      then have "b \<in> set (active_alerts t s)" using that by (simp add: active_alerts_def)
      then have "alert_key b \<in> alert_key ` set (active_alerts t s)" by (rule imageI)
      then show False using assms(4) unfolding k by blast
    qed
    then show ?thesis
      using not_flt_fle [OF fsub_not_nan [OF assms(2) f], of "FFin 3600"] assms(3) by (simp add: spaced_def is_active_def)
  qed
  then have "sorted_wrt spaced (fs_alerts s @ [a])"
    using assms(1) by (simp add: fire_inv_def sorted_wrt_append)
  moreover have "sorted_wrt not_after (fs_alerts s @ [a])"
    using assms(1,3) by (auto simp: fire_inv_def sorted_wrt_append not_after_def)
  moreover have "fle t t" using assms(2) by (cases t) (simp_all add: fle_def)
  ultimately show ?thesis
    using assms set_deque_append [of 500 a "fs_alerts s"]
    by (auto simp: fire_inv_def deque_append_def sorted_wrt_take_last)
qed

lemma active_after_append:
  "alert_key ` set (active_alerts t (s\<lparr>fs_alerts := deque_append 500 a (fs_alerts s)\<rparr>))
     \<subseteq> insert (alert_key a) (alert_key ` set (active_alerts t s))"
  using set_deque_append [of 500 a "fs_alerts s"] by (auto simp: active_alerts_def)

lemma dedup_inv:
  "fire_inv t s \<Longrightarrow> is_finite t \<Longrightarrow> \<forall>a \<in> set as. al_time a = t \<and> al_category a \<in> set alert_cats \<Longrightarrow>
   alert_key ` set (active_alerts t s) \<subseteq> set keys \<Longrightarrow> fire_inv t (snd (dedup_alerts keys as s))"
proof (induction keys as s rule: dedup_alerts.induct)
  case (2 keys a as s)
  show ?case
  proof (cases "alert_key a \<in> set keys")
    case True
    then show ?thesis using "2.IH"(1) [OF refl True] "2.prems" by (simp add: Let_def)
  next
    case False
    let ?s = "s\<lparr>fs_alerts := deque_append 500 a (fs_alerts s)\<rparr>"
    have "fire_inv t ?s" using fire_inv_append [of t s a] "2.prems" False by auto
    moreover have "alert_key ` set (active_alerts t ?s) \<subseteq> set (alert_key a # keys)"
      by (rule subset_trans [OF active_after_append]) (use "2.prems"(4) in auto)
    ultimately show ?thesis using "2.IH"(2) [OF refl False] "2.prems" False by (simp add: Let_def split_beta)
  qed
qed simp

lemma fire_inv_filter: "fire_inv t s \<Longrightarrow> fs_alerts s' = filter P (fs_alerts s) \<Longrightarrow> fire_inv t s'"
  by (auto simp: fire_inv_def sorted_wrt_filter)

lemma fire_inv_later:
  assumes "fire_inv t s" "fle t u"
  shows "fire_inv u s"
  using assms fle_trans unfolding fire_inv_def by blast

text \<open>The first part of an analysis: the alerts it keeps, the streaks and the new alerts.\<close>

lemma drops_prepare: "drops_alerts (fire_prepare d now)"
proof -
  have c: "drops_alerts (\<lambda>s. (Inr (), count_empty b s))" for b by (rule drops_refl) (simp add: count_empty_def)
  show ?thesis unfolding fire_prepare_def
    by (intro drops_sbind drops_lift drops_history drops_clear c)
qed

lemma confirm_fields:
  "fs_alerts (snd (confirm_grid_alerts cs s)) = fs_alerts s" "set (fst (confirm_grid_alerts cs s)) \<subseteq> set cs"
  "length (fst (confirm_grid_alerts cs s)) \<le> length cs" "fs_last (snd (confirm_grid_alerts cs s)) = fs_last s"
  by (auto simp: confirm_grid_alerts_def Let_def)

lemma alerts_of_subset: "alerts_of now cats as \<Longrightarrow> set bs \<subseteq> set as \<Longrightarrow> alerts_of now cats bs"
  by (auto simp: alerts_of_def)

text \<open>The checks that always run: what they add, and the streaks they leave.\<close>

lemma always_alerts:
  assumes "always_checks d now s = (r, s1)"
  shows "fs_alerts s1 = fs_alerts s"
    "r = Inr as \<Longrightarrow> \<exists>hot grid. check_grid_emergency d now = Inr grid \<and> s1 = snd (confirm_grid_alerts grid s)
       \<and> as = hot @ fst (confirm_grid_alerts grid s) \<and> alerts_of now thermal_cats hot \<and> length as \<le> 7"
proof -
  show "fs_alerts s1 = fs_alerts s"
    using assms by (auto simp: always_checks_def confirm_fields split_beta Let_def split: sum.splits)
  assume "r = Inr as"
  then obtain a b c where e: "check_battery_thermal d now s = Inr a" "check_controller_thermal d now s = Inr b"
      "check_grid_emergency d now = Inr c" "as = (a @ b) @ fst (confirm_grid_alerts c s)"
      "s1 = snd (confirm_grid_alerts c s)"
    using assms by (auto simp: always_checks_def split_beta Let_def bind_res_Inr_iff split: sum.splits)
  have k: "alerts_of now thermal_cats (a @ b)" "length (a @ b) \<le> 3" "length c \<le> 4"
    using battery_alerts [of now d s] controller_alerts [of now d s] grid_alerts [of now d] e(1-3)
    by (auto simp: check_ok_def)
  moreover have "length as \<le> 7" using k confirm_fields(3) [of c s] e(4) by simp
  ultimately show "\<exists>hot grid. check_grid_emergency d now = Inr grid \<and> s1 = snd (confirm_grid_alerts grid s)
       \<and> as = hot @ fst (confirm_grid_alerts grid s) \<and> alerts_of now thermal_cats hot \<and> length as \<le> 7"
    using e by blast
qed

lemma pv_alerts:
  assumes "pv_checks d now pv s = (Inr as, s1)"
  shows "alerts_of now pv_cats as \<and> length as \<le> 4"
proof -
  consider "as = []" | a b s2 where "check_isolation d now s = Inr a"
      "check_dc_string_anomaly d now s = (Inr b, s2)" "as = a @ b"
    using assms by (auto simp: pv_checks_def sbind_def lift_res_def split: sum.splits if_splits prod.splits)
  then show ?thesis
  proof cases
    case 2
    then show ?thesis
      using isolation_alerts [of now d s] dc_alerts [of now d s] by (auto simp: check_ok_def)
  qed simp
qed

lemma collect_alerts:
  assumes "fire_collect d now s = (r, s1)"
  shows "\<exists>P. fs_alerts s1 = filter P (fs_alerts s)"
    "r = Inr new \<Longrightarrow> \<exists>hot grid rest s0. check_grid_emergency d now = Inr grid \<and> fs_streak s0 = fs_streak s
       \<and> fs_streak s1 = fs_streak (snd (confirm_grid_alerts grid s0))
       \<and> new = hot @ fst (confirm_grid_alerts grid s0) @ rest
       \<and> alerts_of now thermal_cats hot \<and> alerts_of now pv_cats rest \<and> length new \<le> 11"
proof -
  obtain q s2 where p: "fire_prepare d now s = (q, s2)" by fastforce
  obtain P where P: "fs_alerts s2 = filter P (fs_alerts s)" "fs_streak s2 = fs_streak s"
    using drops_prepare [of d now] p unfolding drops_alerts_def by (metis snd_conv)
  obtain a s3 where a: "always_checks d now s2 = (a, s3)" by fastforce
  have k: "\<exists>Q. fs_alerts (snd (pv_checks d now pv s3)) = filter Q (fs_alerts s3)"
    "fs_streak (snd (pv_checks d now pv s3)) = fs_streak s3" for pv
    using drops_pv [of d now pv] unfolding drops_alerts_def by blast+
  have u: "fs_alerts s3 = filter P (fs_alerts s)" using always_alerts(1) [OF a] P by simp
  have f: "\<exists>Q. filter R (filter P xs) = filter Q xs" for R and xs :: "alert list"
    by (rule exI [of _ "\<lambda>x. P x \<and> R x"]) (simp add: conj_commute)
  show "\<exists>P. fs_alerts s1 = filter P (fs_alerts s)"
  proof (cases q)
    case (Inl e)
    then show ?thesis using assms p P by (auto simp: fire_collect_def sbind_def)
  next
    case q: (Inr pv)
    show ?thesis
    proof (cases a)
      case (Inl e)
      then show ?thesis using assms p q a u by (auto simp: fire_collect_def sbind_def)
    next
      case (Inr x)
      then have "s1 = snd (pv_checks d now pv s3)"
        using assms p q a by (auto simp: fire_collect_def sbind_def lift_res_def split: prod.splits sum.splits)
      then show ?thesis using k(1) [of pv] u f by auto
    qed
  qed
  assume "r = Inr new"
  then obtain pv x y where e: "q = Inr pv" "a = Inr x" "pv_checks d now pv s3 = (Inr y, s1)" "new = x @ y"
    using assms p a by (auto simp: fire_collect_def sbind_def lift_res_def split: prod.splits sum.splits)
  obtain hot grid where g: "check_grid_emergency d now = Inr grid" "s3 = snd (confirm_grid_alerts grid s2)"
      "x = hot @ fst (confirm_grid_alerts grid s2)" "alerts_of now thermal_cats hot" "length x \<le> 7"
    using always_alerts(2) [OF a e(2)] by blast
  have "fs_streak s1 = fs_streak s3" using k(2) [of pv] e(3) by simp
  then show "\<exists>hot grid rest s0. check_grid_emergency d now = Inr grid \<and> fs_streak s0 = fs_streak s
       \<and> fs_streak s1 = fs_streak (snd (confirm_grid_alerts grid s0))
       \<and> new = hot @ fst (confirm_grid_alerts grid s0) @ rest
       \<and> alerts_of now thermal_cats hot \<and> alerts_of now pv_cats rest \<and> length new \<le> 11"
    using g pv_alerts [OF e(3)] e(4) P(2)
    by (intro exI [of _ hot] exI [of _ grid] exI [of _ y] exI [of _ s2]) simp
qed

lemma collect_time:
  assumes "fire_collect d now s = (Inr new, s1)"
  shows "\<forall>a \<in> set new. al_time a = now \<and> al_category a \<in> set alert_cats"
proof -
  obtain hot grid rest s0 where e: "check_grid_emergency d now = Inr grid" "new = hot @ fst (confirm_grid_alerts grid s0) @ rest"
      "alerts_of now thermal_cats hot" "alerts_of now pv_cats rest"
    using collect_alerts(2) [OF assms refl] by blast
  have "alerts_of now grid_cats (fst (confirm_grid_alerts grid s0))"
    using alerts_of_subset [OF _ confirm_fields(2)] grid_alerts [of now d] e(1) by (simp add: check_ok_def)
  then show ?thesis using e(2-4) by (auto simp: alerts_of_def alert_cats_def)
qed

lemma analyze_cases:
  obtains (throttled) "flt (fsub now (fs_last s)) (FFin 5)" "analyze d now s = (Inr [], s)"
  | (raised) e s1 where "\<not> flt (fsub now (fs_last s)) (FFin 5)" "analyze d now s = (Inl e, s1)"
      "fire_collect d now (s\<lparr>fs_last := now, fs_polls := fs_polls s + 1\<rparr>) = (Inl e, s1)"
  | (finished) new s1 where "\<not> flt (fsub now (fs_last s)) (FFin 5)"
      "fire_collect d now (s\<lparr>fs_last := now, fs_polls := fs_polls s + 1\<rparr>) = (Inr new, s1)"
      "analyze d now s = (Inr (fst (dedup_alerts (map alert_key (active_alerts now s1)) new s1)),
         snd (dedup_alerts (map alert_key (active_alerts now s1)) new s1))"
proof -
  obtain r s1 where c: "fire_collect d now (s\<lparr>fs_last := now, fs_polls := fs_polls s + 1\<rparr>) = (r, s1)" by fastforce
  show ?thesis
  proof (cases "flt (fsub now (fs_last s)) (FFin 5)")
    case True
    then show ?thesis using throttled by (simp add: analyze_def)
  next
    case False
    then show ?thesis using raised [OF False _] finished [OF False _] c
      by (cases r) (simp_all add: analyze_def sbind_def split_beta Let_def)
  qed
qed

lemma analyze_inv:
  assumes "fire_inv t s" "fle t now" "is_finite now"
  shows "fire_inv now (snd (analyze d now s))"
proof -
  let ?s = "s\<lparr>fs_last := now, fs_polls := fs_polls s + 1\<rparr>"
  have i: "fire_inv now ?s" using fire_inv_later [OF assms(1,2)] by (simp add: fire_inv_def)
  show ?thesis
  proof (cases rule: analyze_cases [of now s d])
    case throttled
    then show ?thesis using fire_inv_later [OF assms(1,2)] by simp
  next
    case (raised e s1)
    then show ?thesis using collect_alerts(1) [OF raised(3)] fire_inv_filter [OF i] by auto
  next
    case (finished new s1)
    have n: "\<forall>a \<in> set new. al_time a = now \<and> al_category a \<in> set alert_cats" using collect_time [OF finished(2)] .
    have "fire_inv now s1" using collect_alerts(1) [OF finished(2)] fire_inv_filter [OF i] by auto
    then have "fire_inv now (snd (dedup_alerts (map alert_key (active_alerts now s1)) new s1))"
      using dedup_inv assms(3) n by auto
    then show ?thesis using finished(3) by simp
  qed
qed

definition fire_run :: "((string \<times> pyval) list \<times> pyfloat) list \<Rightarrow> fire \<Rightarrow> fire" where
  "fire_run obs s = foldl (\<lambda>s (d, t). snd (analyze d t s)) s obs"

lemma fire_run_inv:
  "fire_inv t s \<Longrightarrow> sorted_wrt fle (t # map snd obs) \<Longrightarrow> \<forall>u \<in> snd ` set obs. is_finite u \<Longrightarrow>
   fire_inv (last (t # map snd obs)) (fire_run obs s)"
proof (induction obs arbitrary: t s)
  case (Cons o' obs)
  obtain d u where o': "o' = (d, u)" by fastforce
  have "fire_inv u (snd (analyze d u s))" using analyze_inv [OF Cons.prems(1)] Cons.prems(2,3) o' by simp
  then have "fire_inv (last (u # map snd obs)) (fire_run obs (snd (analyze d u s)))"
    using Cons.IH Cons.prems(2,3) o' by simp
  then show ?case using o' by (simp add: fire_run_def)
qed (simp add: fire_run_def)

lemma distinct_active:
  assumes "fire_inv t s" "fle t now" "is_finite now"
  shows "distinct (map alert_key (active_alerts now s))"
proof -
  have f: "is_finite (al_time a) \<and> fle (al_time a) now" if "a \<in> set (fs_alerts s)" for a
    using assms that fle_trans unfolding fire_inv_def by blast
  have "sorted_wrt (\<lambda>a b. alert_key a \<noteq> alert_key b) (active_alerts now s)"
  proof (rule sorted_wrt_mono_rel)
    show "sorted_wrt spaced (active_alerts now s)"
      using assms(1) by (simp add: active_alerts_def fire_inv_def sorted_wrt_filter)
    fix a b
    assume a: "a \<in> set (active_alerts now s)" and b: "b \<in> set (active_alerts now s)" and sp: "spaced a b"
    show "alert_key a \<noteq> alert_key b"
    proof
      assume "alert_key a = alert_key b"
      then have "fle (FFin 3600) (fsub (al_time b) (al_time a))" using sp by (simp add: spaced_def)
      moreover have "fle (fsub (al_time b) (al_time a)) (fsub now (al_time a))"
        using f a b assms(3) by (intro fsub_mono) (auto simp: active_alerts_def)
      ultimately have "fle (FFin 3600) (fsub now (al_time a))" by (rule fle_trans)
      then show False using a flt_fle_contra by (auto simp: active_alerts_def is_active_def)
    qed
  qed
  then show ?thesis by (simp add: distinct_map_filter sorted_wrt_map distinct_conv_nth sorted_wrt_iff_nth_less) (metis linorder_neq_iff)
qed

text \<open>C40: However often the monitor analyses the readings, at finite times that do not go back, it
  keeps at most one alert of each category and level from the last hour, at any finite time from
  the last analysis on.\<close>

theorem fire_alerts_distinct:
  "sorted_wrt fle (FFin 0 # map snd obs) \<Longrightarrow> \<forall>u \<in> snd ` set obs. is_finite u \<Longrightarrow>
   is_finite now \<Longrightarrow> fle (last (FFin 0 # map snd obs)) now \<Longrightarrow>
   distinct (map alert_key (active_alerts now (fire_run obs (fire_new n))))"
  using distinct_active [OF fire_run_inv [of "FFin 0" "fire_new n" obs]]
  by (simp add: fire_inv_def fire_new_def)

text \<open>Readings of a battery on fire.\<close>

definition hot_readings :: "(string \<times> pyval) list" where
  "hot_readings = [(''battery_temperature'', VFloat (FFin 75))]"

section \<open>An analysis returns\<close>

definition returns :: "(fire \<Rightarrow> (pyexc + 'a) \<times> fire) \<Rightarrow> bool" where
  "returns m \<longleftrightarrow> (\<forall>s. \<exists>a s'. m s = (Inr a, s'))"

lemma returns_sbind: "returns m \<Longrightarrow> (\<And>a. returns (k a)) \<Longrightarrow> returns (sbind m k)"
  unfolding returns_def sbind_def by (metis (no_types, lifting) case_prod_conv old.sum.simps(6))

lemma returns_lift: "r \<in> range Inr \<Longrightarrow> returns (lift_res r)"
  by (auto simp: returns_def lift_res_def)

lemma returns_state: "returns (\<lambda>s. (Inr a, f s))"
  by (simp add: returns_def)

lemma bind_range: "r \<in> range Inr \<Longrightarrow> (\<And>a. f a \<in> range Inr) \<Longrightarrow> bind_res r f \<in> range Inr"
  by auto

lemma returns_field: "optional_float v \<in> range Inr \<Longrightarrow> returns (record_field n now v g p)"
  by (auto simp: returns_def record_field_def try_append_def)

lemma rate_returns: "rate_of_change h w \<in> range Inr"
proof -
  have "fdiv x dt \<in> range Inr" if "\<not> flt dt (FFin 10)" for x dt
    using that by (cases dt) (auto simp: fdiv_def Let_def)
  then show ?thesis by (auto simp: rate_of_change_def Let_def intro!: bind_range)
qed

lemma mean_returns: "xs \<noteq> [] \<Longrightarrow> py_mean xs \<in> range Inr"
  using py_mean_ok by fastforce

lemma stable_returns: "is_stable_ratio now h \<in> range Inr"
  by (auto simp: is_stable_ratio_def Let_def intro!: bind_range mean_returns)

lemma fdiv_all_returns: "flt (FFin 0) y \<Longrightarrow> fdiv_all xs y \<in> range Inr"
proof (induction xs)
  case (Cons x xs)
  have "fdiv x y \<in> range Inr" using Cons.prems by (cases y) (auto simp: fdiv_def Let_def)
  then show ?case using Cons by (auto intro!: bind_range)
qed simp

lemma isolation_returns: "optional_float v \<in> range Inr \<Longrightarrow> normalize_isolation_resistance_ohm v pv st \<in> range Inr"
  by (cases "float_of_val v") (auto simp: optional_float_def normalize_isolation_resistance_ohm_def caught_conv_def split: if_splits)

lemma dc_returns:
  assumes sen: "\<And>k. sensor d k \<in> range Inr"
  shows "returns (check_dc_string_anomaly d now)"
  unfolding returns_def
proof
  have pow: "string_powers d is \<in> range Inr" for "is"
    by (induction "is") (auto intro!: bind_range sen)
  fix s :: fire
  let ?is = "if 1 \<le> fs_bidirectional s then [1, 2] else [1, 2, 3 :: nat]"
  obtain ps where ps: "string_powers d ?is = Inr ps" using pow [of ?is] by blast
  show "\<exists>x s'. check_dc_string_anomaly d now s = (Inr x, s')"
  proof (cases "length ps < 2")
    case True
    then show ?thesis using ps by (simp add: check_dc_string_anomaly_def)
  next
    case False
    then obtain avg where avg: "py_mean (map snd ps) = Inr avg" using mean_returns [of "map snd ps"] by force
    have "string_alert now avg s1 ip \<in> range Inr" if "\<not> flt avg (FFin 100)" for s1 ip
    proof -
      have "fdiv x avg \<in> range Inr" for x using that by (cases avg) (auto simp: fdiv_def Let_def)
      then show ?thesis unfolding string_alert_def Let_def
        by (auto intro!: bind_range rate_returns stable_returns split: prod.split)
    qed
    then have c: "concat_res (map (string_alert now avg s1) ps) \<in> range Inr" if "\<not> flt avg (FFin 100)" for s1
      using that by (induction ps) (auto intro!: bind_range)
    have "returns (record_ratio now (map snd ps))"
      unfolding returns_def
    proof
      fix s :: fire
      have "fdiv (FFin 1) (FFin (of_nat (length (map snd ps)))) \<in> range Inr"
        using fdiv_pos [of "of_nat (length (map snd ps))" "FFin 1"] False by force
      then have "bind_res (fdiv (FFin 1) (FFin (of_nat (length (map snd ps))))) (\<lambda>share.
          bind_res (fdiv_all (map snd ps) (py_sum (map snd ps))) (\<lambda>qs. Inr (py_max_list (map (\<lambda>q. fabs (fsub q share)) qs))))
        \<in> range Inr" if "flt (FFin 0) (py_sum (map snd ps))"
        using fdiv_all_returns [OF that] by (auto intro!: bind_range)
      then show "\<exists>x s'. record_ratio now (map snd ps) s = (Inr x, s')"
        by (auto simp: record_ratio_def Let_def)
    qed
    then obtain u s1 where u: "record_ratio now (map snd ps) s = (Inr u, s1)" unfolding returns_def by blast
    show ?thesis
    proof (cases "flt avg (FFin 100)")
      case True
      then show ?thesis using ps False avg by (simp add: check_dc_string_anomaly_def)
    next
      case low: False
      then obtain r where "concat_res (map (string_alert now avg s1) ps) = Inr r" using c [of s1] by blast
      then show ?thesis using ps False avg u low by (simp add: check_dc_string_anomaly_def sbind_def)
    qed
  qed
qed

lemma analyze_returns:
  assumes sen: "\<And>k. sensor d k \<in> range Inr" and st: "in_standby (reading d ''inverter_state'') \<in> range Inr"
  shows "\<exists>added s'. analyze d now s = (Inr added, s')"
proof -
  have o: "optional_float (reading d k) \<in> range Inr" for k using sen unfolding sensor_def .
  have iso: "normalize_isolation_resistance_ohm (reading d k) pv c \<in> range Inr" for k pv c
    using o by (rule isolation_returns)
  have opt: "optional_float (case z of None \<Rightarrow> VNone | Some x \<Rightarrow> VFloat x) \<in> range Inr" for z
    by (cases z) (auto simp: optional_float_def)
  have 1: "returns (record_history d now)" unfolding record_history_def
    by (auto intro!: returns_sbind returns_lift sen returns_field o iso opt simp: pv_producing_def)
  have 2: "returns (fire_prepare d now)" unfolding fire_prepare_def
    by (intro returns_sbind returns_lift returns_state 1 sen) simp
  have bat: "check_battery_thermal d now s \<in> range Inr" for s unfolding check_battery_thermal_def
    by (auto intro!: bind_range sen rate_returns split: option.split)
  have ctrl: "check_controller_thermal d now s \<in> range Inr" for s unfolding check_controller_thermal_def
    by (auto intro!: bind_range sen rate_returns split: option.split)
  have nom: "detect_nominal_phase_voltage_v vs \<in> range Inr" for vs
    by (auto simp: detect_nominal_phase_voltage_v_def Let_def intro!: bind_range mean_returns)
  have grid: "check_grid_emergency d now \<in> range Inr" unfolding check_grid_emergency_def
    by (intro bind_range sen nom) simp
  have 3: "returns (always_checks d now)"
    unfolding returns_def
  proof
    fix s :: fire
    obtain a b c where "check_battery_thermal d now s = Inr a" "check_controller_thermal d now s = Inr b"
        "check_grid_emergency d now = Inr c"
      using bat [of s] ctrl [of s] grid by blast
    then show "\<exists>x s'. always_checks d now s = (Inr x, s')" by (simp add: always_checks_def split_beta Let_def)
  qed
  have is1: "check_isolation d now s \<in> range Inr" for s unfolding check_isolation_def
    by (auto intro!: bind_range sen iso rate_returns split: option.split)
  have dc: "returns (check_dc_string_anomaly d now)" using sen by (rule dc_returns)
  have 4: "returns (pv_checks d now pv)" for pv
  proof -
    have "returns (\<lambda>s. (check_isolation d now s, s))" using is1 by (fastforce simp: returns_def)
    then show ?thesis unfolding pv_checks_def
      by (auto intro!: returns_sbind returns_lift st dc)
  qed
  have "returns (fire_collect d now)" unfolding fire_collect_def
    by (intro returns_sbind returns_lift 2 3 4) simp
  then obtain a s1 where "fire_collect d now (s\<lparr>fs_last := now, fs_polls := fs_polls s + 1\<rparr>) = (Inr a, s1)"
    unfolding returns_def by blast
  then show ?thesis by (cases rule: analyze_cases [of now s d]) auto
qed

section \<open>Overheating is reported\<close>

lemma collect_hot:
  assumes "fire_collect d now s = (Inr new, s1)" "sensor d ''battery_temperature'' = Inr (Some t)" "flt (FFin 60) t"
  shows "\<exists>e \<in> set new. alert_key e = (''battery_thermal'', Emergency)"
proof -
  obtain pv s2 a s3 b where e: "fire_prepare d now s = (Inr pv, s2)" "always_checks d now s2 = (Inr a, s3)" "new = a @ b"
    using assms(1) by (auto simp: fire_collect_def sbind_def lift_res_def split: prod.splits sum.splits)
  obtain hot where "check_battery_thermal d now s2 = Inr hot" "set hot \<subseteq> set a"
    using e(2) by (auto simp: always_checks_def split_beta Let_def bind_res_Inr_iff split: sum.splits)
  moreover have "\<exists>e \<in> set hot. alert_key e = (''battery_thermal'', Emergency)"
    if "check_battery_thermal d now s2 = Inr hot" for hot
    using that assms(2,3) by (auto simp: check_battery_thermal_def bind_res_Inr_iff)
  ultimately show ?thesis using e(3) by auto
qed

text \<open>At most forty alerts are active at a time: one for each category and level.\<close>

lemma active_bound:
  assumes "fire_inv t s" "fle t now" "is_finite now"
  shows "length (active_alerts now s) \<le> 40"
proof -
  let ?ks = "map alert_key (active_alerts now s)"
  let ?all = "set alert_cats \<times> {Safe, Monitor, Elevated, High, Emergency}"
  have "set ?ks \<subseteq> ?all"
    using assms(1) by (auto simp: fire_inv_def active_alerts_def intro: risk.exhaust)
  then have "card (set ?ks) \<le> card ?all" by (intro card_mono) simp_all
  also have "\<dots> \<le> length alert_cats * 5"
    unfolding card_cartesian_product by (intro mult_le_mono card_length) simp
  finally show ?thesis using distinct_card [OF distinct_active [OF assms]]
    by (simp add: alert_cats_def thermal_cats_def pv_cats_def grid_cats_def)
qed

lemma fsub_antimono:
  assumes "is_finite x" "is_finite y" "is_finite z" "fle x y"
  shows "fle (fsub z y) (fsub z x)"
proof -
  obtain m k where "fsub z y = mk_float m (frat z - frat y)" "fsub z x = mk_float k (frat z - frat x)"
    using fsub_finite assms by metis
  moreover have "frat x \<le> frat y" using assms by (cases x; cases y) (auto simp: fle_def)
  ultimately show ?thesis using mk_float_mono [of "frat z - frat y" "frat z - frat x" m k] by simp
qed

lemma fle_flt_trans: "fle x y \<Longrightarrow> flt y z \<Longrightarrow> flt x z"
  by (cases x; cases y; cases z) (auto simp: fle_def)

text \<open>Every alert behind an active one is active too.\<close>

lemma active_suffix:
  assumes "fire_inv t s" "fle t now" "is_finite now" "fs_alerts s = xs @ e # ys" "is_active now e"
  shows "length (e # ys) \<le> 40"
proof -
  have "is_active now b" if b: "b \<in> set ys" for b
  proof -
    have "fle (fsub now (al_time b)) (fsub now (al_time e))"
      using assms(1,3,4) b by (intro fsub_antimono) (auto simp: fire_inv_def sorted_wrt_append not_after_def)
    then show ?thesis using assms(5) fle_flt_trans unfolding is_active_def by blast
  qed
  then have "filter (is_active now) (e # ys) = e # ys" using assms(5) by simp
  then have "length (e # ys) \<le> length (active_alerts now s)" by (simp add: active_alerts_def assms(4))
  then show ?thesis using active_bound [OF assms(1-3)] by simp
qed

text \<open>What is dropped from the full list of alerts are the oldest ones.\<close>

lemma take_last_suffix: "length ys \<le> n \<Longrightarrow> \<exists>zs. take_last n (xs @ ys) = zs @ ys"
  by (auto simp: take_last_def)

lemma dedup_suffix:
  "dedup_alerts keys as s = (added, s') \<Longrightarrow> fs_alerts s = xs @ ys \<Longrightarrow> length ys + length as \<le> 500 \<Longrightarrow>
   \<exists>zs. fs_alerts s' = zs @ ys @ added"
proof (induction keys as s arbitrary: xs ys added s' rule: dedup_alerts.induct)
  case (2 keys a as s)
  show ?case
  proof (cases "alert_key a \<in> set keys")
    case True
    then show ?thesis using "2.IH"(1) [OF refl True] "2.prems" by (auto simp: Let_def)
  next
    case False
    let ?s = "s\<lparr>fs_alerts := deque_append 500 a (fs_alerts s)\<rparr>"
    obtain new s1 where n: "dedup_alerts (alert_key a # keys) as ?s = (new, s1)" by fastforce
    then have e: "added = a # new" "s' = s1" using "2.prems"(1) False by (auto simp: Let_def)
    obtain zs where "fs_alerts ?s = zs @ (ys @ [a])"
      using take_last_suffix [of "ys @ [a]" 500 xs] "2.prems"(2,3) by (auto simp: deque_append_def)
    then show ?thesis using "2.IH"(2) [OF refl False n] "2.prems"(3) e by fastforce
  qed
qed auto

lemma overheating_alert:
  "sorted_wrt fle (FFin 0 # map snd obs) \<Longrightarrow> \<forall>u \<in> snd ` set obs. is_finite u \<Longrightarrow>
   is_finite now \<Longrightarrow> fle (last (FFin 0 # map snd obs)) now \<Longrightarrow> s = fire_run obs (fire_new n) \<Longrightarrow>
   sensor d ''battery_temperature'' = Inr (Some t) \<Longrightarrow> flt (FFin 60) t \<Longrightarrow>
   \<not> flt (fsub now (fs_last s)) (FFin 5) \<Longrightarrow>
   analyze d now s = (Inr added, s') \<Longrightarrow> (\<exists>b \<in> set (active_alerts now s'). alert_key b = (''battery_thermal'', Emergency))"
proof -
  assume run: "sorted_wrt fle (FFin 0 # map snd obs)" "\<forall>u \<in> snd ` set obs. is_finite u"
    and h3: "is_finite now" and l: "fle (last (FFin 0 # map snd obs)) now" and s: "s = fire_run obs (fire_new n)"
    and h: "sensor d ''battery_temperature'' = Inr (Some t)" "flt (FFin 60) t"
    and due: "\<not> flt (fsub now (fs_last s)) (FFin 5)" and a: "analyze d now s = (Inr added, s')"
  let ?s0 = "s\<lparr>fs_last := now, fs_polls := fs_polls s + 1\<rparr>"
  have "fire_inv (last (FFin 0 # map snd obs)) s"
    unfolding s by (rule fire_run_inv [OF _ run]) (simp add: fire_inv_def fire_new_def)
  then have i0: "fire_inv now ?s0" using fire_inv_later [OF _ l] by (simp add: fire_inv_def)
  obtain new s1 where c: "fire_collect d now ?s0 = (Inr new, s1)"
      "dedup_alerts (map alert_key (active_alerts now s1)) new s1 = (added, s')"
    using due a by (cases rule: analyze_cases [of now s d]) auto
  have i1: "fire_inv now s1" using collect_alerts(1) [OF c(1)] fire_inv_filter [OF i0] by auto
  have n: "length new \<le> 11" using collect_alerts(2) [OF c(1) refl] by blast
  have r: "fle now now" using h3 by (cases now) (simp_all add: fle_def)
  obtain e where e: "e \<in> set new" "alert_key e = (''battery_thermal'', Emergency)"
    using collect_hot [OF c(1) h] by blast
  have "\<exists>b \<in> set (active_alerts now s'). alert_key b = alert_key e"
  proof (cases "alert_key e \<in> set (map alert_key (active_alerts now s1))")
    case True
    then obtain b where b: "b \<in> set (fs_alerts s1)" "is_active now b" "alert_key b = alert_key e"
      by (auto simp: active_alerts_def)
    then obtain xs ys where x: "fs_alerts s1 = xs @ b # ys" by (meson split_list)
    have "length (b # ys) \<le> 40" by (rule active_suffix [OF i1 r h3 x b(2)])
    then obtain zs where "fs_alerts s' = zs @ (b # ys) @ added"
      using dedup_suffix [OF c(2) x] n by force
    then show ?thesis using b by (auto simp: active_alerts_def)
  next
    case False
    then obtain b where b: "b \<in> set added" "alert_key b = alert_key e" using dedup_keeps [OF c(2)] e(1) by blast
    have "al_time b = now" using collect_time [OF c(1)] dedup_keeps [OF c(2)] b(1) by auto
    moreover obtain z where "fsub now now = z" "is_finite z" "frat z = 0" using fsub_self [OF h3] by blast
    ultimately have "is_active now b" by (cases z) (simp_all add: is_active_def)
    moreover obtain zs where "fs_alerts s' = zs @ [] @ added" using dedup_suffix [OF c(2), of "fs_alerts s1" "[]"] n by auto
    ultimately show ?thesis using b by (auto simp: active_alerts_def)
  qed
  then show ?thesis using e(2) by simp
qed

text \<open>C17: A battery above 60 degrees is an emergency: whatever the monitor has analysed before, at times
  that never go back, after an analysis that is due and does not raise the reported risk is
  Emergency, whatever the inverter's state and whether or not the strings produce. An older
  alert of the same kind is not pushed out of the bounded list of alerts by newer ones.\<close>

theorem overheating_is_emergency:
  "sorted_wrt fle (FFin 0 # map snd obs) \<Longrightarrow> \<forall>u \<in> snd ` set obs. is_finite u \<Longrightarrow>
   is_finite now \<Longrightarrow> fle (last (FFin 0 # map snd obs)) now \<Longrightarrow> s = fire_run obs (fire_new n) \<Longrightarrow>
   sensor d ''battery_temperature'' = Inr (Some t) \<Longrightarrow> flt (FFin 60) t \<Longrightarrow>
   \<not> flt (fsub now (fs_last s)) (FFin 5) \<Longrightarrow>
   analyze d now s = (Inr added, s') \<Longrightarrow> current_risk_level now s' = Emergency"
proof -
  assume h: "sorted_wrt fle (FFin 0 # map snd obs)" "\<forall>u \<in> snd ` set obs. is_finite u" "is_finite now"
    "fle (last (FFin 0 # map snd obs)) now" "s = fire_run obs (fire_new n)"
    "sensor d ''battery_temperature'' = Inr (Some t)" "flt (FFin 60) t"
    "\<not> flt (fsub now (fs_last s)) (FFin 5)" "analyze d now s = (Inr added, s')"
  obtain b where b: "b \<in> set (active_alerts now s')" "al_level b = Emergency"
    using overheating_alert [OF h] by auto
  have "Emergency \<in> set (map al_level (active_alerts now s'))" using imageI [OF b(1), of al_level] b(2) by simp
  moreover have "active_alerts now s' \<noteq> []" using b(1) by auto
  ultimately show ?thesis by (simp add: current_risk_level_def Let_def)
qed

lemma fire_run_Nil: "s = fire_run [] s"
  by (simp add: fire_run_def)

lemma hot_analysis:
  "\<exists>added. analyze hot_readings (FFin 10) (fire_new 1) = (Inr added, fire_run [(hot_readings, FFin 10)] (fire_new 1))"
  "sensor hot_readings ''battery_temperature'' = Inr (Some (FFin 75))"
  "\<not> flt (fsub (FFin 10) (fs_last (fire_new 1))) (FFin 5)"
proof -
  have r: "reading hot_readings k = (if k = ''battery_temperature'' then VFloat (FFin 75) else VNone)" for k
    by (simp add: reading_def hot_readings_def)
  have 1: "sensor hot_readings k \<in> range Inr" for k
    by (auto simp: sensor_def r optional_float_def is_nan_def is_inf_def)
  have 2: "in_standby (reading hot_readings ''inverter_state'') \<in> range Inr" by (auto simp: in_standby_def r)
  obtain added s' where a: "analyze hot_readings (FFin 10) (fire_new 1) = (Inr added, s')"
    using analyze_returns [OF 1 2] by blast
  then show "\<exists>added. analyze hot_readings (FFin 10) (fire_new 1) = (Inr added, fire_run [(hot_readings, FFin 10)] (fire_new 1))"
    by (simp add: fire_run_def)
  show "sensor hot_readings ''battery_temperature'' = Inr (Some (FFin 75))"
    by (simp add: sensor_def r optional_float_def is_nan_def is_inf_def)
  show "\<not> flt (fsub (FFin 10) (fs_last (fire_new 1))) (FFin 5)"
    using mk_float_of_int [of 10] by (simp add: fire_new_def fsub_def)
qed

theorem overheating_is_emergency_witness:
  "\<exists>added s'. analyze hot_readings (FFin 10) (fire_new 1) = (Inr added, s')
     \<and> current_risk_level (FFin 10) s' = Emergency"
proof -
  obtain added where a: "analyze hot_readings (FFin 10) (fire_new 1) = (Inr added, fire_run [(hot_readings, FFin 10)] (fire_new 1))"
    using hot_analysis(1) by blast
  show ?thesis
    using overheating_is_emergency [of "[]" "FFin 10" "fire_new 1" 1, OF _ _ _ _ fire_run_Nil hot_analysis(2) _ hot_analysis(3) a] a
    by (auto simp: fle_def)
qed

theorem fire_alerts_distinct_witness:
  "\<exists>ks. ks = map alert_key (active_alerts (FFin 10) (fire_run [(hot_readings, FFin 10)] (fire_new 1)))
     \<and> (''battery_thermal'', Emergency) \<in> set ks \<and> distinct ks"
proof -
  obtain added where a: "analyze hot_readings (FFin 10) (fire_new 1) = (Inr added, fire_run [(hot_readings, FFin 10)] (fire_new 1))"
    using hot_analysis(1) by blast
  define as where "as = active_alerts (FFin 10) (fire_run [(hot_readings, FFin 10)] (fire_new 1))"
  have "\<exists>b \<in> set as. alert_key b = (''battery_thermal'', Emergency)"
    unfolding as_def
    using overheating_alert [of "[]" "FFin 10" "fire_new 1" 1, OF _ _ _ _ fire_run_Nil hot_analysis(2) _ hot_analysis(3) a]
    by (simp add: fle_def)
  then obtain b where b: "b \<in> set as" "alert_key b = (''battery_thermal'', Emergency)" by blast
  have "distinct (map alert_key as)"
    unfolding as_def by (rule fire_alerts_distinct) simp_all
  then show ?thesis using imageI [OF b(1), of alert_key] unfolding b(2) as_def [symmetric] by simp
qed

section \<open>A single glitch of the grid\<close>

lemma streak_update:
  "map_of (dict_update [] (map (\<lambda>a. (grid_key a, streak_of s (grid_key a) + 1)) cs)) k =
     (if k \<in> grid_key ` set cs then Some (streak_of s k + 1) else None)"
proof -
  let ?new = "map (\<lambda>a. (grid_key a, streak_of s (grid_key a) + 1)) cs"
  have "map_of (rev ?new) k = (if k \<in> grid_key ` set cs then Some (streak_of s k + 1) else None)"
  proof (cases "map_of (rev ?new) k")
    case None
    then have "k \<notin> fst ` set (rev ?new)" by (simp add: map_of_eq_None_iff)
    then show ?thesis using None by (auto simp: image_iff)
  next
    case (Some v)
    then have "(k, v) \<in> set (rev ?new)" by (rule map_of_SomeD)
    then show ?thesis using Some by auto
  qed
  then show ?thesis by (simp add: map_of_dict_update)
qed

lemma streak_of_confirm:
  "streak_of (snd (confirm_grid_alerts cs s)) k = (if k \<in> grid_key ` set cs then streak_of s k + 1 else 0)"
proof -
  have o: "streak_of (s\<lparr>fs_streak := m\<rparr>) k = (case map_of m k of None \<Rightarrow> 0 | Some n \<Rightarrow> n)" for m
    by (simp add: streak_of_def)
  show ?thesis unfolding confirm_grid_alerts_def Let_def snd_conv o streak_update by simp
qed

lemma confirmed_streak: "a \<in> set (fst (confirm_grid_alerts cs s)) \<Longrightarrow> 0 < streak_of s (grid_key a)"
  using streak_of_confirm [of cs s "grid_key a"]
  by (auto simp: confirm_grid_alerts_def Let_def GRID_ALERT_CONFIRM_POLLS_def)

lemma streak_of_cong: "fs_streak s = fs_streak t \<Longrightarrow> streak_of s k = streak_of t k"
  by (simp add: streak_of_def)

text \<open>A single bad sample of the grid alarms nobody: an alert about the grid's frequency or a phase's
  voltage is only given when the analysis before it, at least five seconds earlier, found the
  same condition.\<close>

lemma grid_alert_needs_two_polls:
  "analyze d1 t1 s0 = (Inr added1, s1) \<Longrightarrow> \<not> flt (fsub t1 (fs_last s0)) (FFin 5) \<Longrightarrow>
   analyze d2 t2 s1 = (Inr added2, s2) \<Longrightarrow> a \<in> set added2 \<Longrightarrow> al_category a \<in> set grid_cats \<Longrightarrow>
   \<exists>c g. check_grid_emergency d1 t1 = Inr g \<and> c \<in> set g \<and> grid_key c = grid_key a"
proof -
  assume a1: "analyze d1 t1 s0 = (Inr added1, s1)" "\<not> flt (fsub t1 (fs_last s0)) (FFin 5)"
    and a2: "analyze d2 t2 s1 = (Inr added2, s2)" and a: "a \<in> set added2" "al_category a \<in> set grid_cats"
  obtain new1 u1 where c1: "fire_collect d1 t1 (s0\<lparr>fs_last := t1, fs_polls := fs_polls s0 + 1\<rparr>) = (Inr new1, u1)"
      "dedup_alerts (map alert_key (active_alerts t1 u1)) new1 u1 = (added1, s1)"
    using a1 by (cases rule: analyze_cases [of t1 s0 d1]) auto
  obtain new2 u2 where c2: "fire_collect d2 t2 (s1\<lparr>fs_last := t2, fs_polls := fs_polls s1 + 1\<rparr>) = (Inr new2, u2)"
      "dedup_alerts (map alert_key (active_alerts t2 u2)) new2 u2 = (added2, s2)"
    using a2 a(1) by (cases rule: analyze_cases [of t2 s1 d2]) auto
  obtain hot g2 rest v2 where n2: "new2 = hot @ fst (confirm_grid_alerts g2 v2) @ rest"
      "fs_streak v2 = fs_streak s1" "alerts_of t2 thermal_cats hot" "alerts_of t2 pv_cats rest"
    using collect_alerts(2) [OF c2(1) refl] by auto
  obtain g1 v1 where n1: "check_grid_emergency d1 t1 = Inr g1" "fs_streak u1 = fs_streak (snd (confirm_grid_alerts g1 v1))"
    using collect_alerts(2) [OF c1(1) refl] by blast
  have "a \<in> set new2" using dedup_keeps [OF c2(2)] a(1) by blast
  moreover have "a \<notin> set hot" "a \<notin> set rest"
    using a(2) n2(3,4) by (auto simp: alerts_of_def thermal_cats_def pv_cats_def grid_cats_def)
  ultimately have "a \<in> set (fst (confirm_grid_alerts g2 v2))" using n2(1) by simp
  then have "0 < streak_of v2 (grid_key a)" by (rule confirmed_streak)
  moreover have "streak_of v2 (grid_key a) = streak_of (snd (confirm_grid_alerts g1 v1)) (grid_key a)"
    using n2(2) n1(2) dedup_keeps [OF c1(2)] by (intro streak_of_cong) simp
  ultimately have "grid_key a \<in> grid_key ` set g1" by (simp add: streak_of_confirm split: if_splits)
  then show ?thesis using n1(1) by auto
qed

text \<open>Readings of a grid at 40 hertz.\<close>

definition low_grid :: "(string \<times> pyval) list" where
  "low_grid = [(''grid_frequency'', VFloat (FFin 40))]"

lemma low_reading: "reading low_grid k = (if k = ''grid_frequency'' then VFloat (FFin 40) else VNone)"
  by (simp add: reading_def low_grid_def)

lemma low_sensor: "sensor low_grid k = Inr (if k = ''grid_frequency'' then Some (FFin 40) else None)"
  by (simp add: sensor_def low_reading optional_float_def is_nan_def is_inf_def)

definition low_alert :: "pyfloat \<Rightarrow> alert" where
  "low_alert now = \<lparr>al_time = now, al_level = High, al_category = ''grid_emergency'',
     al_title = ''Severe grid frequency deviation''\<rparr>"

lemma low_prepare: "fire_prepare low_grid now s = (Inr False, clear_stale_alerts now False (count_empty False s))"
proof -
  have "try_append n now VNone h = Inr h" for n h by (simp add: try_append_def optional_float_def)
  then have "record_history low_grid now s = (Inr (), s)"
    by (simp add: record_history_def sbind_def lift_res_def low_sensor low_reading pv_producing_def
        record_field_def dc_name_def)
  then show ?thesis
    by (simp add: fire_prepare_def sbind_def lift_res_def low_sensor pv_producing_def)
qed

lemma low_check: "check_grid_emergency low_grid now = Inr [low_alert now]"
  using mk_float_of_int [of 10] mk_float_of_int [of "-10"]
  by (simp add: check_grid_emergency_def low_sensor phase_alert_def low_alert_def detect_nominal_frequency_hz_def
      detect_nominal_phase_voltage_v_def fsub_def)

lemma low_collect: "fire_collect low_grid now s =
  map_prod Inr id (confirm_grid_alerts [low_alert now] (clear_stale_alerts now False (count_empty False s)))"
  by (simp add: fire_collect_def sbind_def low_prepare always_checks_def check_battery_thermal_def
      check_controller_thermal_def low_sensor low_check pv_checks_def lift_res_def low_reading in_standby_def split_beta
      map_prod_def)

lemma low_first: "analyze low_grid (FFin 10) (fire_new 1) =
  (Inr [], (fire_new 1)\<lparr>fs_last := FFin 10, fs_polls := 1, fs_empty := fs_empty (count_empty False (fire_new 1)),
     fs_streak := [(grid_key (low_alert (FFin 10)), 1)]\<rparr>)"
  using mk_float_of_int [of 10]
  by (simp add: analyze_def fire_new_def fsub_def sbind_def low_collect confirm_grid_alerts_def count_empty_def
      clear_stale_alerts_def streak_of_def GRID_ALERT_CONFIRM_POLLS_def active_alerts_def dict_update_def)

lemma grid_alert_needs_two_polls_witness:
  "\<exists>s1 added2 s2 c g.
     analyze low_grid (FFin 10) (fire_new 1) = (Inr [], s1) \<and> analyze low_grid (FFin 20) s1 = (Inr added2, s2)
     \<and> low_alert (FFin 20) \<in> set added2
     \<and> check_grid_emergency low_grid (FFin 10) = Inr g \<and> c \<in> set g \<and> grid_key c = grid_key (low_alert (FFin 20))"
proof -
  let ?s1 = "snd (analyze low_grid (FFin 10) (fire_new 1))"
  have k: "grid_key (low_alert t) = ''grid_emergency:Severe grid frequency deviation''" for t
    by (simp add: grid_key_def low_alert_def)
  have 2: "fst (analyze low_grid (FFin 20) ?s1) = Inr [low_alert (FFin 20)]"
    using mk_float_of_int [of 10]
    by (simp add: low_first analyze_def fire_new_def fsub_def sbind_def low_collect confirm_grid_alerts_def count_empty_def
        clear_stale_alerts_def streak_of_def GRID_ALERT_CONFIRM_POLLS_def active_alerts_def dict_update_def k)
  then obtain s2 where s2: "analyze low_grid (FFin 20) ?s1 = (Inr [low_alert (FFin 20)], s2)" by (metis prod.collapse)
  have 1: "analyze low_grid (FFin 10) (fire_new 1) = (Inr [], ?s1)" by (simp add: low_first)
  have d: "\<not> flt (fsub (FFin 10) (fs_last (fire_new 1))) (FFin 5)"
    using mk_float_of_int [of 10] by (simp add: fire_new_def fsub_def)
  have c: "low_alert (FFin 20) \<in> set [low_alert (FFin 20)]" "al_category (low_alert (FFin 20)) \<in> set grid_cats"
    by (simp_all add: low_alert_def grid_cats_def)
  show ?thesis
    using grid_alert_needs_two_polls [OF 1 d s2 c] 1 s2 c(1) by blast
qed

end
