(* ===== verification/Degradation.thy ===== *)
theory Degradation
  imports PyStats
begin

text \<open>
  The long-term tracker (\<^verbatim>\<open>degradation_tracker.py\<close>): daily snapshots of eight parameters,
  averages, trend and alerts, and their stored form.

  Names, units and messages for the user are left out; a parameter is known by its key. The
  counts of a day stay below \<open>2 ^ 53\<close>, where a float is exact. The stored form is typed: a key may
  be missing, but a value has the type the code stored.
\<close>

definition MAX_DAILY_SNAPSHOTS :: nat where "MAX_DAILY_SNAPSHOTS = 730"
definition BASELINE_DAYS :: nat where "BASELINE_DAYS = 7"
definition SECONDS_PER_DAY :: pyfloat where "SECONDS_PER_DAY = FFin 86400"
definition SEASONAL_WINDOW_DAYS :: int where "SEASONAL_WINDOW_DAYS = 15"

section \<open>Days\<close>

record day_snap =
  ds_day :: int
  ds_min :: pyfloat
  ds_max :: pyfloat
  ds_sum :: pyfloat
  ds_count :: int

definition snap_avg :: "day_snap \<Rightarrow> pyexc + pyfloat" where
  "snap_avg s = (if 0 < ds_count s then fdiv (ds_sum s) (FFin (of_int (ds_count s))) else Inr (FFin 0))"

record tracked =
  tp_snaps :: "day_snap list"
  tp_day :: int
  tp_cur :: "day_snap option"

definition tracked_new :: tracked where
  "tracked_new = \<lparr>tp_snaps = [], tp_day = 0, tp_cur = None\<rparr>"

definition day_of :: "pyfloat \<Rightarrow> pyexc + int" where
  "day_of now = bind_res (fdiv now SECONDS_PER_DAY) int_of_float"

definition first_of_day :: "int \<Rightarrow> pyfloat \<Rightarrow> day_snap" where
  "first_of_day day x = \<lparr>ds_day = day, ds_min = x, ds_max = x, ds_sum = x, ds_count = 1\<rparr>"

definition add_to_day :: "pyfloat \<Rightarrow> day_snap \<Rightarrow> day_snap" where
  "add_to_day x c = c\<lparr>ds_min := py_min (ds_min c) x, ds_max := py_max (ds_max c) x,
     ds_sum := fadd (ds_sum c) x, ds_count := ds_count c + 1\<rparr>"

definition record_on :: "int \<Rightarrow> pyfloat \<Rightarrow> tracked \<Rightarrow> tracked" where
  "record_on day x t = (case tp_cur t of
     None \<Rightarrow> t\<lparr>tp_day := day, tp_cur := Some (first_of_day day x)\<rparr>
   | Some c \<Rightarrow>
       if tp_day t \<noteq> day
       then t\<lparr>tp_snaps := (let snaps = tp_snaps t @ [c]
                in if MAX_DAILY_SNAPSHOTS < length snaps then take_last MAX_DAILY_SNAPSHOTS snaps else snaps),
              tp_day := day, tp_cur := Some (first_of_day day x)\<rparr>
       else t\<lparr>tp_cur := Some (add_to_day x c)\<rparr>)"

definition record_value :: "pyfloat \<Rightarrow> pyfloat \<Rightarrow> tracked \<Rightarrow> pyexc + tracked" where
  "record_value x now t = bind_res (day_of now) (\<lambda>day. Inr (record_on day x t))"

section \<open>Averages\<close>

definition days_tracked :: "tracked \<Rightarrow> nat" where
  "days_tracked t = length (tp_snaps t) + (if tp_cur t = None then 0 else 1)"

fun avgs :: "day_snap list \<Rightarrow> pyexc + pyfloat list" where
  "avgs [] = Inr []"
| "avgs (s # ss) = bind_res (snap_avg s) (\<lambda>a. bind_res (avgs ss) (\<lambda>as. Inr (a # as)))"

definition mean_avg :: "day_snap list \<Rightarrow> pyexc + pyfloat option" where
  "mean_avg ss = bind_res (avgs ss) (\<lambda>as. bind_res (py_mean as) (\<lambda>m. Inr (Some m)))"

definition mean_peak :: "day_snap list \<Rightarrow> pyexc + pyfloat option" where
  "mean_peak ss = bind_res (py_mean (map ds_max ss)) (\<lambda>m. Inr (Some m))"

definition baseline_avg :: "tracked \<Rightarrow> pyexc + pyfloat option" where
  "baseline_avg t = (let baseline = take BASELINE_DAYS (tp_snaps t)
     in if length baseline < BASELINE_DAYS then Inr None else mean_avg baseline)"

definition baseline_peak :: "tracked \<Rightarrow> pyexc + pyfloat option" where
  "baseline_peak t = (let baseline = take BASELINE_DAYS (tp_snaps t)
     in if length baseline < BASELINE_DAYS then Inr None else mean_peak baseline)"

text \<open>The last seven days with today's data in progress.\<close>

definition recent_days :: "tracked \<Rightarrow> day_snap list" where
  "recent_days t = (let recent = take_last 7 (tp_snaps t) in case tp_cur t of
     None \<Rightarrow> recent
   | Some c \<Rightarrow>
       if 0 < ds_count c
       then if recent \<noteq> [] \<and> ds_day (last recent) = ds_day c then butlast recent @ [c]
            else take_last 7 (recent @ [c])
       else recent)"

definition current_peak :: "tracked \<Rightarrow> pyexc + pyfloat option" where
  "current_peak t = (if recent_days t = [] then Inr None else mean_peak (recent_days t))"

definition current_avg :: "tracked \<Rightarrow> pyexc + pyfloat option" where
  "current_avg t = (if recent_days t = [] then Inr None else mean_avg (recent_days t))"

text \<open>How far \<open>cr\<close> is from \<open>base\<close>, in percent.\<close>

definition deviation_pct :: "pyfloat option \<Rightarrow> pyfloat option \<Rightarrow> pyexc + pyfloat option" where
  "deviation_pct base cr = (case (base, cr) of
     (Some b, Some c) \<Rightarrow>
       if feq b (FFin 0) then Inr None
       else bind_res (fdiv (fsub c b) (fabs b)) (\<lambda>q. Inr (Some (fmul q (FFin 100))))
   | _ \<Rightarrow> Inr None)"

definition peak_deviation_pct :: "tracked \<Rightarrow> pyexc + pyfloat option" where
  "peak_deviation_pct t = bind_res (baseline_peak t) (\<lambda>b. bind_res (current_peak t) (deviation_pct b))"

definition baseline_deviation_pct :: "tracked \<Rightarrow> pyexc + pyfloat option" where
  "baseline_deviation_pct t = bind_res (baseline_avg t) (\<lambda>b. bind_res (current_avg t) (deviation_pct b))"

section \<open>Trend\<close>

text \<open>\<open>x ** 2\<close> of a float.\<close>

definition fsquare :: "pyfloat \<Rightarrow> pyexc + pyfloat" where
  "fsquare x = (let y = fmul x x in if is_finite x \<and> is_inf y then Inl OverflowError else Inr y)"

fun map_res :: "('a \<Rightarrow> 'e + 'b) \<Rightarrow> 'a list \<Rightarrow> 'e + 'b list" where
  "map_res f [] = Inr []"
| "map_res f (x # xs) = bind_res (f x) (\<lambda>y. bind_res (map_res f xs) (\<lambda>ys. Inr (y # ys)))"

definition all_snaps :: "tracked \<Rightarrow> day_snap list" where
  "all_snaps t = tp_snaps t @ (case tp_cur t of None \<Rightarrow> [] | Some c \<Rightarrow> [c])"

definition degradation_rate_per_month :: "tracked \<Rightarrow> pyexc + pyfloat option" where
  "degradation_rate_per_month t = (let ss = all_snaps t in
     if length ss < 7 then Inr None
     else bind_res (map_res (\<lambda>s. float_of_int (ds_day s - ds_day (hd ss))) ss) (\<lambda>x.
          bind_res (avgs ss) (\<lambda>y.
          bind_res (py_mean x) (\<lambda>x_mean.
          bind_res (py_mean y) (\<lambda>y_mean.
            let numerator = py_sum (map (\<lambda>(xi, yi). fmul (fsub xi x_mean) (fsub yi y_mean)) (zip x y))
            in bind_res (map_res (\<lambda>xi. fsquare (fsub xi x_mean)) x) (\<lambda>sq.
                 let denominator = py_sum sq
                 in if feq denominator (FFin 0) then Inr None
                    else bind_res (fdiv numerator denominator) (\<lambda>slope. Inr (Some (fmul slope (FFin 30))))))))))"

definition same_season :: "int \<Rightarrow> day_snap \<Rightarrow> bool" where
  "same_season day_of_year s = (let diff = \<bar>ds_day s mod 365 - day_of_year\<bar>
     in (if 182 < diff then 365 - diff else diff) \<le> SEASONAL_WINDOW_DAYS)"

definition seasonal_avg :: "int option \<Rightarrow> tracked \<Rightarrow> pyexc + pyfloat option" where
  "seasonal_avg target_day t =
     (if tp_snaps t = [] then Inr None
      else let target = (case target_day of None \<Rightarrow> ds_day (last (tp_snaps t)) | Some d \<Rightarrow> d);
               matching = filter (same_season (target mod 365)) (tp_snaps t)
           in if matching = [] then Inr None else mean_avg matching)"

definition seasonal_deviation_pct :: "tracked \<Rightarrow> pyexc + pyfloat option" where
  "seasonal_deviation_pct t = bind_res (seasonal_avg None t) (\<lambda>s. bind_res (current_avg t) (deviation_pct s))"

definition trend :: "tracked \<Rightarrow> pyexc + string" where
  "trend t = bind_res (degradation_rate_per_month t) (\<lambda>rate. Inr (case rate of
     None \<Rightarrow> ''unbekannt''
   | Some r \<Rightarrow> if flt (fabs r) (mk_float False (1 / 10)) then ''stabil''
              else if flt (FFin 0) r then ''steigend'' else ''fallend''))"

section \<open>The tracker\<close>

record tracker =
  dt_isolation :: tracked
  dt_soh :: tracked
  dt_capacity :: tracked
  dt_bat_temp :: tracked
  dt_ctrl_temp :: tracked
  dt_dc1 :: tracked
  dt_dc2 :: tracked
  dt_yield :: tracked

definition tracker_new :: tracker where
  "tracker_new = \<lparr>dt_isolation = tracked_new, dt_soh = tracked_new, dt_capacity = tracked_new,
     dt_bat_temp = tracked_new, dt_ctrl_temp = tracked_new, dt_dc1 = tracked_new, dt_dc2 = tracked_new,
     dt_yield = tracked_new\<rparr>"

definition all_parameters :: "tracker \<Rightarrow> (string \<times> tracked) list" where
  "all_parameters s = [(''isolation'', dt_isolation s), (''battery_soh'', dt_soh s),
     (''battery_capacity'', dt_capacity s), (''battery_temp'', dt_bat_temp s),
     (''controller_temp'', dt_ctrl_temp s), (''dc1_peak'', dt_dc1 s), (''dc2_peak'', dt_dc2 s),
     (''daily_yield'', dt_yield s)]"

text \<open>A \<open>try\<close> block that records at most one value: a failed conversion is passed over.\<close>

definition try_put :: "(tracked \<Rightarrow> tracker \<Rightarrow> tracker) \<Rightarrow> pyexc + tracked \<Rightarrow> tracker \<Rightarrow> (pyexc + unit) \<times> tracker" where
  "try_put put r s = (case r of
     Inr t \<Rightarrow> (Inr (), put t s)
   | Inl e \<Rightarrow> if caught_conv e then (Inr (), s) else (Inl e, s))"

definition record_reading ::
    "pyfloat \<Rightarrow> (pyfloat \<Rightarrow> bool) \<Rightarrow> pyval \<Rightarrow> (tracker \<Rightarrow> tracked) \<Rightarrow> (tracked \<Rightarrow> tracker \<Rightarrow> tracker)
      \<Rightarrow> tracker \<Rightarrow> (pyexc + unit) \<times> tracker" where
  "record_reading now accept v get_t put s =
     (if v = VNone then (Inr (), s)
      else try_put put (bind_res (float_of_val v) (\<lambda>x.
             if accept x then record_value x now (get_t s) else Inr (get_t s))) s)"

definition total_dc_power :: "(string \<times> pyval) list \<Rightarrow> pyexc + pyfloat" where
  "total_dc_power d = (case float_of_val (reading d ''total_dc_power'') of
     Inr x \<Rightarrow> Inr x | Inl e \<Rightarrow> if caught_conv e then Inr (FFin 0) else Inl e)"

definition tracker_state :: "(string \<times> pyval) list \<Rightarrow> pyexc + int option" where
  "tracker_state d = (let v = reading d ''inverter_state'' in
     if v = VNone then Inr None
     else case bind_res (float_of_val v) int_of_float of
       Inr n \<Rightarrow> Inr (Some n) | Inl e \<Rightarrow> if caught_conv e then Inr None else Inl e)"

definition isolation_sample :: "pyval \<Rightarrow> bool \<Rightarrow> int option \<Rightarrow> pyexc + pyfloat option" where
  "isolation_sample v pv_active state = bind_res (float_of_val v) (\<lambda>x.
     if is_isolation_sentinel_ohm x
     then if isolation_sentinel_as_off_scale_high pv_active state
          then bind_res (fdiv ISOLATION_SENTINEL_OHM (FFin 1000)) (\<lambda>q. Inr (Some q))
          else Inr None
     else bind_res (normalize_isolation_resistance_ohm v pv_active state) (\<lambda>ohm. case ohm of
            None \<Rightarrow> Inr None
          | Some y \<Rightarrow> bind_res (fdiv y (FFin 1000)) (\<lambda>q. Inr (Some q))))"

definition record_isolation ::
    "pyfloat \<Rightarrow> (string \<times> pyval) list \<Rightarrow> bool \<Rightarrow> int option \<Rightarrow> tracker \<Rightarrow> (pyexc + unit) \<times> tracker" where
  "record_isolation now d pv_active state s = (let v = reading d ''isolation_resistance'' in
     if v \<noteq> VNone \<and> pv_active
     then try_put (\<lambda>t s. s\<lparr>dt_isolation := t\<rparr>)
            (bind_res (isolation_sample v pv_active state) (\<lambda>x. case x of
               None \<Rightarrow> Inr (dt_isolation s) | Some y \<Rightarrow> record_value y now (dt_isolation s))) s
     else (Inr (), s))"

definition update_from_modbus :: "(string \<times> pyval) list \<Rightarrow> pyfloat \<Rightarrow> tracker \<Rightarrow> (pyexc + unit) \<times> tracker" where
  "update_from_modbus d now =
     sbind (\<lambda>s. (total_dc_power d, s)) (\<lambda>total_dc.
     sbind (\<lambda>s. (tracker_state d, s)) (\<lambda>state.
     sbind (record_isolation now d (flt (FFin 50) total_dc) state) (\<lambda>_.
     sbind (record_reading now (\<lambda>_. True) (reading d ''battery_temperature'') dt_bat_temp (\<lambda>t s. s\<lparr>dt_bat_temp := t\<rparr>)) (\<lambda>_.
     sbind (record_reading now (\<lambda>_. True) (reading d ''controller_temp'') dt_ctrl_temp (\<lambda>t s. s\<lparr>dt_ctrl_temp := t\<rparr>)) (\<lambda>_.
     sbind (record_reading now (flt (FFin 100)) (reading d ''dc1_power'') dt_dc1 (\<lambda>t s. s\<lparr>dt_dc1 := t\<rparr>)) (\<lambda>_.
     sbind (record_reading now (flt (FFin 100)) (reading d ''dc2_power'') dt_dc2 (\<lambda>t s. s\<lparr>dt_dc2 := t\<rparr>)) (\<lambda>_.
     sbind (record_reading now (flt (FFin 0)) (reading d ''daily_yield'') dt_yield (\<lambda>t s. s\<lparr>dt_yield := t\<rparr>)) (\<lambda>_.
     record_reading now (\<lambda>_. True) (reading d ''battery_work_capacity'') dt_capacity (\<lambda>t s. s\<lparr>dt_capacity := t\<rparr>)))))))))"

definition update_battery_soh :: "pyfloat \<Rightarrow> pyfloat \<Rightarrow> tracker \<Rightarrow> pyexc + tracker" where
  "update_battery_soh soh now s = bind_res (record_value soh now (dt_soh s)) (\<lambda>t. Inr (s\<lparr>dt_soh := t\<rparr>))"

section \<open>Alerts\<close>

datatype trend_severity = Warnung | Hinweis

definition param_alert :: "string \<Rightarrow> tracked \<Rightarrow> pyexc + (string \<times> trend_severity) list" where
  "param_alert name t =
     bind_res (degradation_rate_per_month t) (\<lambda>rate.
     bind_res (baseline_deviation_pct t) (\<lambda>_.
     case rate of None \<Rightarrow> Inr []
     | Some r \<Rightarrow>
         if name = ''isolation'' \<and> flt r (FFin (- 50)) then Inr [(name, Warnung)]
         else if name = ''battery_soh'' \<and> flt r (FFin (- 1 / 2)) then Inr [(name, Warnung)]
         else if name = ''controller_temp'' \<and> flt (FFin 1) r then Inr [(name, Hinweis)]
         else if name \<in> set [''dc1_peak'', ''dc2_peak''] then
           bind_res (peak_deviation_pct t) (\<lambda>peak.
           bind_res (seasonal_deviation_pct t) (\<lambda>seasonal.
             Inr (case (if seasonal \<noteq> None then seasonal else peak) of
                None \<Rightarrow> [] | Some dev \<Rightarrow> if flt dev (FFin (- 10)) then [(name, Hinweis)] else [])))
         else Inr []))"

fun concat_alerts_res :: "(string \<times> tracked) list \<Rightarrow> pyexc + (string \<times> trend_severity) list" where
  "concat_alerts_res [] = Inr []"
| "concat_alerts_res ((n, t) # ps) =
     bind_res (param_alert n t) (\<lambda>a. bind_res (concat_alerts_res ps) (\<lambda>b. Inr (a @ b)))"

definition get_alerts :: "tracker \<Rightarrow> pyexc + (string \<times> trend_severity) list" where
  "get_alerts s = concat_alerts_res (all_parameters s)"

section \<open>Storage\<close>

text \<open>A stored snapshot; a field that is \<open>None\<close> is a key that is missing.\<close>

record stored_snap =
  st_day :: "int option"
  st_min :: "pyfloat option"
  st_max :: "pyfloat option"
  st_sum :: "pyfloat option"
  st_count :: "int option"

definition snap_to_dict :: "day_snap \<Rightarrow> stored_snap" where
  "snap_to_dict s = \<lparr>st_day = Some (ds_day s), st_min = Some (ds_min s), st_max = Some (ds_max s),
     st_sum = Some (ds_sum s), st_count = Some (ds_count s)\<rparr>"

definition stored :: "'a option \<Rightarrow> pyexc + 'a" where
  "stored x = (case x of None \<Rightarrow> Inl KeyError | Some a \<Rightarrow> Inr a)"

definition snap_from_dict :: "stored_snap \<Rightarrow> pyexc + day_snap" where
  "snap_from_dict d =
     bind_res (stored (st_day d)) (\<lambda>day. bind_res (stored (st_min d)) (\<lambda>mn. bind_res (stored (st_max d)) (\<lambda>mx.
     bind_res (stored (st_sum d)) (\<lambda>sm. bind_res (stored (st_count d)) (\<lambda>c.
       Inr \<lparr>ds_day = day, ds_min = mn, ds_max = mx, ds_sum = sm, ds_count = c\<rparr>)))))"

definition empty_dict :: "stored_snap \<Rightarrow> bool" where
  "empty_dict d \<longleftrightarrow> st_day d = None \<and> st_min d = None \<and> st_max d = None \<and> st_sum d = None \<and> st_count d = None"

text \<open>A stored parameter; \<open>sp_labels\<close> says that it has a name and a unit.\<close>

record stored_param =
  sp_labels :: bool
  sp_snaps :: "stored_snap list option"
  sp_day :: "int option"
  sp_cur :: "stored_snap option"

definition param_to_dict :: "tracked \<Rightarrow> stored_param" where
  "param_to_dict t = \<lparr>sp_labels = True, sp_snaps = Some (map snap_to_dict (tp_snaps t)),
     sp_day = Some (tp_day t), sp_cur = map_option snap_to_dict (tp_cur t)\<rparr>"

definition param_from_dict :: "stored_param \<Rightarrow> pyexc + tracked" where
  "param_from_dict d =
     (if \<not> sp_labels d then Inl KeyError
      else bind_res (map_res snap_from_dict (case sp_snaps d of None \<Rightarrow> [] | Some ss \<Rightarrow> ss)) (\<lambda>snaps.
           bind_res (case sp_cur d of
               None \<Rightarrow> Inr None
             | Some c \<Rightarrow> if empty_dict c then Inr None else bind_res (snap_from_dict c) (\<lambda>s. Inr (Some s))) (\<lambda>cur.
             Inr \<lparr>tp_snaps = snaps, tp_day = (case sp_day d of None \<Rightarrow> 0 | Some n \<Rightarrow> n), tp_cur = cur\<rparr>)))"

definition tracker_to_dict :: "tracker \<Rightarrow> (string \<times> stored_param) list" where
  "tracker_to_dict s = map (\<lambda>(n, t). (n, param_to_dict t)) (all_parameters s)"

text \<open>A parameter that cannot be restored stays as it is.\<close>

definition restore_param :: "(string \<times> stored_param) list \<Rightarrow> string \<Rightarrow> tracked \<Rightarrow> tracked" where
  "restore_param d name t = (case map_of d name of
     None \<Rightarrow> t
   | Some p \<Rightarrow> (case param_from_dict p of Inl _ \<Rightarrow> t | Inr t' \<Rightarrow> t'))"

definition restore_from_dict :: "(string \<times> stored_param) list \<Rightarrow> tracker \<Rightarrow> tracker" where
  "restore_from_dict d s =
     \<lparr>dt_isolation = restore_param d ''isolation'' (dt_isolation s),
      dt_soh = restore_param d ''battery_soh'' (dt_soh s),
      dt_capacity = restore_param d ''battery_capacity'' (dt_capacity s),
      dt_bat_temp = restore_param d ''battery_temp'' (dt_bat_temp s),
      dt_ctrl_temp = restore_param d ''controller_temp'' (dt_ctrl_temp s),
      dt_dc1 = restore_param d ''dc1_peak'' (dt_dc1 s),
      dt_dc2 = restore_param d ''dc2_peak'' (dt_dc2 s),
      dt_yield = restore_param d ''daily_yield'' (dt_yield s)\<rparr>"

end
