(* ===== verification/DegradationProofs.thy ===== *)
theory DegradationProofs
  imports Degradation
begin

text \<open>
  The long-term tracker: its snapshots are the summaries of the days, storing and restoring
  changes nothing, and what its baseline and its seasonal average really are.
\<close>

section \<open>The snapshots are the days' summaries\<close>

text \<open>The reference: the values of one day, summarised at once.\<close>

definition values_on :: "(int \<times> pyfloat) list \<Rightarrow> int \<Rightarrow> pyfloat list" where
  "values_on obs d = map snd (filter (\<lambda>p. fst p = d) obs)"

definition day_summary :: "(int \<times> pyfloat) list \<Rightarrow> int \<Rightarrow> day_snap" where
  "day_summary obs d = (let xs = values_on obs d in
     \<lparr>ds_day = d, ds_min = foldl py_min (hd xs) (tl xs), ds_max = foldl py_max (hd xs) (tl xs),
      ds_sum = foldl fadd (hd xs) (tl xs), ds_count = int (length xs)\<rparr>)"

definition days_of :: "(int \<times> pyfloat) list \<Rightarrow> int list" where
  "days_of obs = sorted_list_of_set (fst ` set obs)"

definition days_run :: "(int \<times> pyfloat) list \<Rightarrow> tracked \<Rightarrow> tracked" where
  "days_run obs t = foldl (\<lambda>t (d, x). record_on d x t) t obs"

lemma values_on_snoc:
  "values_on (obs @ [(d, x)]) d = values_on obs d @ [x]"
  "d' \<noteq> d \<Longrightarrow> values_on (obs @ [(d, x)]) d' = values_on obs d'"
  by (simp_all add: values_on_def)

lemma day_summary_other: "d' \<noteq> d \<Longrightarrow> day_summary (obs @ [(d, x)]) d' = day_summary obs d'"
  by (simp add: day_summary_def values_on_snoc)

lemma day_summary_first: "d \<notin> fst ` set obs \<Longrightarrow> day_summary (obs @ [(d, x)]) d = first_of_day d x"
proof -
  assume "d \<notin> fst ` set obs"
  then have "values_on obs d = []" by (auto simp: values_on_def filter_empty_conv)
  then show ?thesis by (simp add: day_summary_def values_on_snoc first_of_day_def)
qed

lemma day_summary_add:
  assumes "d \<in> fst ` set obs"
  shows "day_summary (obs @ [(d, x)]) d = add_to_day x (day_summary obs d)"
proof -
  have "values_on obs d \<noteq> []" using assms by (auto simp: values_on_def filter_empty_conv)
  then show ?thesis by (cases "values_on obs d") (simp_all add: day_summary_def values_on_snoc add_to_day_def)
qed

lemma days_of_snoc:
  assumes "sorted (map fst (obs @ [(d, x)]))"
  shows "d \<in> fst ` set obs \<Longrightarrow> days_of (obs @ [(d, x)]) = days_of obs"
    "d \<notin> fst ` set obs \<Longrightarrow> days_of (obs @ [(d, x)]) = days_of obs @ [d]"
proof -
  have le: "\<forall>e \<in> fst ` set obs. e \<le> d" using assms by (auto simp: sorted_append)
  show "days_of (obs @ [(d, x)]) = days_of obs" if "d \<in> fst ` set obs"
    using that by (simp add: days_of_def insert_absorb)
  assume n: "d \<notin> fst ` set obs"
  then have "days_of (obs @ [(d, x)]) = insort d (days_of obs)" by (simp add: days_of_def)
  also have "\<dots> = days_of obs @ [d]"
    by (rule sorted_insort_is_snoc) (use le in \<open>simp_all add: days_of_def\<close>)
  finally show "days_of (obs @ [(d, x)]) = days_of obs @ [d]" .
qed

lemma last_days_of:
  assumes "sorted (map fst obs)" "obs \<noteq> []"
  shows "days_of obs \<noteq> []" "last (days_of obs) = fst (last obs)"
proof -
  show n: "days_of obs \<noteq> []" using assms(2) by (simp add: days_of_def)
  obtain ys y where y: "days_of obs = ys @ [y]" using n by (cases "days_of obs" rule: rev_cases) auto
  have ds: "set (days_of obs) = fst ` set obs" "sorted (days_of obs)" by (simp_all add: days_of_def)
  have le: "e \<le> fst (last obs)" if "e \<in> fst ` set obs" for e
    using that assms by (cases obs rule: rev_cases) (auto simp: sorted_append)
  have "y \<le> fst (last obs)" using ds(1) y by (intro le) auto
  moreover have "fst (last obs) \<in> set (ys @ [y])" using ds(1) assms(2) by (simp add: y [symmetric])
  then have "fst (last obs) \<le> y" using ds(2) by (auto simp: y sorted_append)
  ultimately show "last (days_of obs) = fst (last obs)" by (simp add: y)
qed

lemma days_run_state:
  "sorted (map fst obs) \<Longrightarrow> obs \<noteq> [] \<Longrightarrow> days_run obs tracked_new =
     \<lparr>tp_snaps = take_last MAX_DAILY_SNAPSHOTS (map (day_summary obs) (butlast (days_of obs))),
      tp_day = fst (last obs), tp_cur = Some (day_summary obs (fst (last obs)))\<rparr>"
proof (induction obs rule: rev_induct)
  case (snoc p obs)
  obtain d x where p: "p = (d, x)" by fastforce
  have s: "sorted (map fst obs)" using snoc.prems(1) by (simp add: sorted_append)
  let ?obs = "obs @ [(d, x)]"
  show ?case
  proof (cases "obs = []")
    case True
    then show ?thesis using day_summary_first [of d "[]" x]
      by (simp add: p days_run_def record_on_def tracked_new_def days_of_def take_last_def)
  next
    case False
    let ?l = "fst (last obs)"
    note t = snoc.IH [OF s False]
    note ld = last_days_of [OF s False]
    have le: "\<forall>e \<in> fst ` set obs. e \<le> d" using snoc.prems(1) p by (auto simp: sorted_append)
    have ds: "days_of obs = butlast (days_of obs) @ [?l]" using ld by (metis append_butlast_last_id)
    have dist: "distinct (days_of obs)" by (simp add: days_of_def)
    have r: "days_run ?obs tracked_new = record_on d x (days_run obs tracked_new)" by (simp add: days_run_def)
    show ?thesis
    proof (cases "d = ?l")
      case True
      then have m: "d \<in> fst ` set obs" using False by simp
      have "d \<notin> set (butlast (days_of obs))" using dist ds True by (metis distinct_butlast not_distinct_conv_prefix)
      then have m2: "map (day_summary ?obs) (butlast (days_of obs)) = map (day_summary obs) (butlast (days_of obs))"
        by (intro map_cong) (auto intro!: day_summary_other)
      show ?thesis unfolding p r t
        by (simp add: record_on_def True [symmetric] m2 days_of_snoc(1) [OF snoc.prems(1) [unfolded p] m]
            day_summary_add [OF m, of x] del: map_eq_conv)
    next
      case new: False
      then have m: "d \<notin> fst ` set obs"
        using le s False by (cases obs rule: rev_cases) (auto simp: sorted_append)
      have "map (day_summary ?obs) (days_of obs) = map (day_summary obs) (days_of obs)"
        using m by (intro map_cong) (auto intro!: day_summary_other simp: days_of_def)
      moreover have "map (day_summary obs) (days_of obs) = map (day_summary obs) (butlast (days_of obs)) @ [day_summary obs ?l]"
        by (subst ds) simp
      ultimately show ?thesis
        using days_of_snoc(2) [OF snoc.prems(1) [unfolded p] m] day_summary_first [OF m, of x] new
        by (simp add: p r t record_on_def Let_def take_last_take_last_snoc)
    qed
  qed
qed simp

lemma all_snaps_run:
  "sorted (map fst obs) \<Longrightarrow> obs \<noteq> [] \<Longrightarrow>
   all_snaps (days_run obs tracked_new) = take_last 731 (map (day_summary obs) (days_of obs))"
proof -
  assume o': "sorted (map fst obs)" "obs \<noteq> []"
  have ds: "days_of obs = butlast (days_of obs) @ [fst (last obs)]"
    using last_days_of [OF o'] by (metis append_butlast_last_id)
  have "take_last 731 (xs @ [y]) = take_last 730 xs @ [y]" for xs and y :: day_snap
    by (simp add: take_last_def)
  then show ?thesis
    by (subst ds) (simp add: days_run_state [OF o'] all_snaps_def MAX_DAILY_SNAPSHOTS_def)
qed

text \<open>C23: Values recorded one by one, at days that never go back, leave exactly the summaries of the
  days: the minimum, maximum, sum and number of all values of each day, for the newest 731 days
  on which anything was recorded.\<close>

theorem snapshots_are_daily_summaries:
  "sorted (map fst obs) \<Longrightarrow> obs \<noteq> [] \<Longrightarrow>
   all_snaps (days_run obs tracked_new) = take_last 731 (map (day_summary obs) (days_of obs))"
  by (rule all_snaps_run)

definition three_values :: "(int \<times> pyfloat) list" where
  "three_values = [(4, FFin 2), (4, FFin 1), (5, FFin 7)]"

theorem snapshots_are_daily_summaries_witness:
  "all_snaps (days_run three_values tracked_new) = take_last 731 (map (day_summary three_values) (days_of three_values))
   \<and> values_on three_values 4 = [FFin 2, FFin 1]"
proof
  show "all_snaps (days_run three_values tracked_new) = take_last 731 (map (day_summary three_values) (days_of three_values))"
    by (rule snapshots_are_daily_summaries) (simp_all add: three_values_def)
qed (simp add: three_values_def values_on_def)

section \<open>The baseline\<close>

text \<open>The baseline is the first seven days only for two years: once values were recorded on more than
  731 days the day the tracker began with is gone, and the baseline moves along with the data.\<close>

lemma baseline_moves:
  "sorted (map fst obs) \<Longrightarrow> 731 < card (fst ` set obs) \<Longrightarrow>
   fst (hd obs) \<notin> ds_day ` set (all_snaps (days_run obs tracked_new))
   \<and> baseline_avg (days_run obs tracked_new)
       = mean_avg (map (day_summary obs) (take 7 (take_last 731 (days_of obs))))"
proof
  assume s: "sorted (map fst obs)" and c: "731 < card (fst ` set obs)"
  then have ne: "obs \<noteq> []" by auto
  have l: "length (days_of obs) = card (fst ` set obs)" by (simp add: days_of_def)
  have ds: "sorted_wrt (<) (days_of obs)" "set (days_of obs) = fst ` set obs" by (simp_all add: days_of_def)
  define k where "k = length (days_of obs) - 731"
  have a: "all_snaps (days_run obs tracked_new) = map (day_summary obs) (drop k (days_of obs))"
    using all_snaps_run [OF s ne] by (simp add: take_last_def drop_map k_def)
  have k: "0 < k" "k < length (days_of obs)" using c l by (simp_all add: k_def)
  have "fst (hd obs) \<noteq> d" if d: "d \<in> set (drop k (days_of obs))" for d
  proof -
    obtain j where j: "j < length (drop k (days_of obs))" "drop k (days_of obs) ! j = d"
      using d unfolding in_set_conv_nth by blast
    then have i: "d = days_of obs ! (k + j)" "k + j < length (days_of obs)" using k by simp_all
    have "days_of obs ! 0 < d" using ds(1) i k by (simp add: sorted_wrt_iff_nth_less)
    moreover have "fst (hd obs) \<le> days_of obs ! 0"
    proof -
      have "days_of obs ! 0 \<in> fst ` set obs" using ds(2) k by (metis nth_mem order_less_trans)
      then show ?thesis using s ne by (cases obs) auto
    qed
    ultimately show ?thesis by simp
  qed
  then have "fst (hd obs) \<notin> set (drop k (days_of obs))" by blast
  then show "fst (hd obs) \<notin> ds_day ` set (all_snaps (days_run obs tracked_new))"
    by (simp add: a image_image day_summary_def Let_def)
  have "take 7 (tp_snaps (days_run obs tracked_new)) = take 7 (all_snaps (days_run obs tracked_new))"
    using days_run_state [OF s ne] l c by (simp add: all_snaps_def MAX_DAILY_SNAPSHOTS_def)
  then show "baseline_avg (days_run obs tracked_new)
       = mean_avg (map (day_summary obs) (take 7 (take_last 731 (days_of obs))))"
    using l c by (simp add: baseline_avg_def BASELINE_DAYS_def a take_last_def k_def take_map)
qed

text \<open>A value on each of 732 days.\<close>

definition two_years :: "(int \<times> pyfloat) list" where
  "two_years = map (\<lambda>d. (int d, FFin 1)) [0 ..< 732]"

lemma baseline_moves_witness:
  "0 \<notin> ds_day ` set (all_snaps (days_run two_years tracked_new)) \<and> fst (hd two_years) = 0"
proof -
  have s: "sorted (map fst two_years)" by (simp add: two_years_def comp_def sorted_map sorted_wrt_upt)
  have "inj_on int {0 ..< 732}" by simp
  then have c: "card (fst ` set two_years) = 732" by (simp add: two_years_def image_image card_image)
  have h: "fst (hd two_years) = 0" by (simp add: two_years_def hd_map)
  show ?thesis using baseline_moves [OF s] c h by simp
qed

section \<open>The seasonal average\<close>

lemma avg_ok: "\<exists>a. snap_avg s = Inr a"
  using fdiv_pos [of "of_int (ds_count s)"] by (simp add: snap_avg_def)

lemma avgs_ok: "\<exists>as. avgs ss = Inr as \<and> length as = length ss"
proof (induction ss)
  case (Cons s ss)
  then show ?case using avg_ok [of s] by auto
qed simp

lemma mean_avg_ok: "ss \<noteq> [] \<Longrightarrow> \<exists>m. mean_avg ss = Inr (Some m)"
proof -
  assume "ss \<noteq> []"
  moreover obtain as where "avgs ss = Inr as" "length as = length ss" using avgs_ok by blast
  ultimately show ?thesis using py_mean_ok [of as] by (cases as) (auto simp: mean_avg_def)
qed

lemma newest_in_season: "ss \<noteq> [] \<Longrightarrow> last ss \<in> set (filter (same_season (ds_day (last ss) mod 365)) ss)"
  by (simp add: same_season_def SEASONAL_WINDOW_DAYS_def)

lemma seasonal_always_available:
  assumes "tp_snaps t \<noteq> []"
  shows "\<exists>m. seasonal_avg None t = Inr (Some m)"
proof -
  let ?m = "filter (same_season (ds_day (last (tp_snaps t)) mod 365)) (tp_snaps t)"
  have "?m \<noteq> []" using newest_in_season [OF assms] by (metis empty_iff empty_set)
  then show ?thesis using mean_avg_ok [of ?m] assms by (simp add: seasonal_avg_def)
qed

lemma season_diff:
  fixes a b :: int
  assumes "a - 15 \<le> b" "b \<le> a"
  shows "\<bar>b mod 365 - a mod 365\<bar> \<le> 15 \<or> 350 \<le> \<bar>b mod 365 - a mod 365\<bar>"
proof -
  define r k where "r = a mod 365" and "k = a - b"
  have r: "0 \<le> r" "r < 365" and k: "0 \<le> k" "k \<le> 15" using assms by (simp_all add: r_def k_def)
  have "b mod 365 = (r - k) mod 365" by (simp add: r_def k_def mod_diff_left_eq)
  also have "\<dots> = (if k \<le> r then r - k else r - k + 365)"
    using r k mod_pos_pos_trivial [of "r - k" 365] mod_pos_pos_trivial [of "r - k + 365" 365] by simp
  finally show ?thesis using k r by (auto simp: r_def [symmetric] split: if_splits)
qed

text \<open>The seasonal average needs no earlier year: from the first finished day on it is there, and in the
  first two weeks it is the average of those very days. The alerts of the strings, which prefer
  the seasonal deviation, therefore compare the newest days with themselves.\<close>

lemma seasonal_average_of_itself:
  "tp_snaps t \<noteq> [] \<Longrightarrow> (\<And>s. s \<in> set (tp_snaps t) \<Longrightarrow> ds_day (last (tp_snaps t)) - 15 \<le> ds_day s
      \<and> ds_day s \<le> ds_day (last (tp_snaps t))) \<Longrightarrow>
   seasonal_avg None t = mean_avg (tp_snaps t)"
proof -
  assume ne: "tp_snaps t \<noteq> []"
    and d: "\<And>s. s \<in> set (tp_snaps t) \<Longrightarrow> ds_day (last (tp_snaps t)) - 15 \<le> ds_day s
      \<and> ds_day s \<le> ds_day (last (tp_snaps t))"
  have "same_season (ds_day (last (tp_snaps t)) mod 365) s" if "s \<in> set (tp_snaps t)" for s
    using season_diff [of "ds_day (last (tp_snaps t))" "ds_day s"] d [OF that]
    by (auto simp: same_season_def SEASONAL_WINDOW_DAYS_def Let_def)
  then have "filter (same_season (ds_day (last (tp_snaps t)) mod 365)) (tp_snaps t) = tp_snaps t" by simp
  then show ?thesis using ne by (simp add: seasonal_avg_def)
qed

lemma dc_param_alert:
  "n = ''dc1_peak'' \<or> n = ''dc2_peak'' \<Longrightarrow> param_alert n t =
     bind_res (degradation_rate_per_month t) (\<lambda>rate. bind_res (baseline_deviation_pct t) (\<lambda>_.
       if rate = None then Inr []
       else bind_res (peak_deviation_pct t) (\<lambda>peak. bind_res (seasonal_deviation_pct t) (\<lambda>seasonal.
         Inr (case (if seasonal \<noteq> None then seasonal else peak) of
            None \<Rightarrow> [] | Some dev \<Rightarrow> if flt dev (FFin (- 10)) then [(n, Hinweis)] else [])))))"
  unfolding param_alert_def
  by (intro arg_cong [where f = "bind_res (degradation_rate_per_month t)"] arg_cong [where f = "bind_res (baseline_deviation_pct t)"] ext)
     (auto split: option.split)

lemma dc_alert_seasonal:
  assumes "param_alert n t = Inr as" "n = ''dc1_peak'' \<or> n = ''dc2_peak''"
    and "seasonal_deviation_pct t = Inr (Some dev)" "as \<noteq> []"
  shows "flt dev (FFin (- 10))"
  using assms(1,3,4) unfolding dc_param_alert [OF assms(2)]
  by (auto simp: bind_res_Inr_iff split: if_splits)

section \<open>Storage\<close>

lemma snap_roundtrip [simp]: "snap_from_dict (snap_to_dict s) = Inr s"
  by (simp add: snap_from_dict_def snap_to_dict_def stored_def)

lemma stored_not_empty [simp]: "\<not> empty_dict (snap_to_dict s)"
  by (simp add: empty_dict_def snap_to_dict_def)

lemma map_res_roundtrip [simp]: "map_res snap_from_dict (map snap_to_dict ss) = Inr ss"
  by (induction ss) simp_all

lemma param_roundtrip [simp]: "param_from_dict (param_to_dict t) = Inr t"
  by (cases t) (simp add: param_from_dict_def param_to_dict_def split: option.split)

lemma restore_to_dict: "restore_from_dict (tracker_to_dict s) s0 = s"
  by (cases s) (simp add: restore_from_dict_def tracker_to_dict_def all_parameters_def restore_param_def)

text \<open>
  Everything that feeds the tracker: the readings of a Modbus poll, whatever one of them raises,
  and a state of health from the REST interface.
\<close>

datatype tracker_event = Readings "(string \<times> pyval) list" pyfloat | SohValue pyfloat pyfloat

fun tracker_step :: "tracker \<Rightarrow> tracker_event \<Rightarrow> tracker" where
  "tracker_step s (Readings d now) = snd (update_from_modbus d now s)"
| "tracker_step s (SohValue soh now) = (case update_battery_soh soh now s of Inl _ \<Rightarrow> s | Inr s' \<Rightarrow> s')"

definition tracker_run :: "tracker_event list \<Rightarrow> tracker \<Rightarrow> tracker" where
  "tracker_run es s = foldl tracker_step s es"

text \<open>C30: A restart loses nothing: a tracker that is stored at any point, after any sequence of polls and
  states of health, and restored into a new one goes on exactly as if it had never been stopped.\<close>

theorem restart_is_invisible:
  "tracker_run later (restore_from_dict (tracker_to_dict (tracker_run earlier tracker_new)) tracker_new)
     = tracker_run (earlier @ later) tracker_new"
  by (simp add: restore_to_dict tracker_run_def)

text \<open>A state of health reaches its parameter.\<close>

lemma soh_is_tracked:
  "dt_soh (tracker_run [SohValue (FFin 97) (FFin 86400)] tracker_new) \<noteq> dt_soh tracker_new"
proof -
  have "day_of (FFin 86400) = Inr 1"
    using mk_float_of_int [of 1] by (simp add: day_of_def fdiv_def SECONDS_PER_DAY_def trunc_rat_def is_inf_def is_nan_def)
  then show ?thesis
    by (simp add: tracker_run_def update_battery_soh_def record_value_def record_on_def tracker_new_def tracked_new_def)
qed

end
