(* ===== verification/HealthMonitor.thy ===== *)
theory HealthMonitor
  imports PyStats
begin

text \<open>
  The health monitor (\<^verbatim>\<open>health_monitor.py\<close>): 22 trackers with three levels of thresholds,
  the live state of the isolation measurement, the learned share of each string, and the
  assessments computed from them.

  The trackers are kept as the dictionary \<open>all_trackers\<close> of the code. Messages, names and units
  are left out. The clock does not move within a call. Sorting is the stable sort of lists
  without NaN, which the client's range rules drop.
\<close>

section \<open>Median\<close>

fun insert_float :: "pyfloat \<Rightarrow> pyfloat list \<Rightarrow> pyfloat list" where
  "insert_float x [] = [x]"
| "insert_float x (y # ys) = (if flt x y then x # y # ys else y # insert_float x ys)"

definition py_sorted :: "pyfloat list \<Rightarrow> pyfloat list" where
  "py_sorted xs = foldl (\<lambda>ys x. insert_float x ys) [] xs"

definition py_median :: "pyfloat list \<Rightarrow> pyexc + pyfloat" where
  "py_median xs = (let ys = py_sorted xs; n = length ys in
     if n = 0 then Inl ValueError
     else if n mod 2 = 1 then Inr (ys ! (n div 2))
     else fdiv (fadd (ys ! (n div 2 - 1)) (ys ! (n div 2))) (FFin 2))"

section \<open>Trackers\<close>

datatype health_level = Good | Info | Warning | Critical | Unknown

record limits =
  li_info_low :: "pyfloat option"
  li_info_high :: "pyfloat option"
  li_warning_low :: "pyfloat option"
  li_warning_high :: "pyfloat option"
  li_critical_low :: "pyfloat option"
  li_critical_high :: "pyfloat option"

definition no_limits :: limits where
  "no_limits = \<lparr>li_info_low = None, li_info_high = None, li_warning_low = None, li_warning_high = None,
     li_critical_low = None, li_critical_high = None\<rparr>"

definition low_limits :: "pyfloat \<Rightarrow> pyfloat \<Rightarrow> pyfloat \<Rightarrow> limits" where
  "low_limits info warning critical = no_limits\<lparr>li_info_low := Some info, li_warning_low := Some warning,
     li_critical_low := Some critical\<rparr>"

definition high_limits :: "pyfloat \<Rightarrow> pyfloat \<Rightarrow> pyfloat \<Rightarrow> limits" where
  "high_limits info warning critical = no_limits\<lparr>li_info_high := Some info, li_warning_high := Some warning,
     li_critical_high := Some critical\<rparr>"

definition band_limits :: "pyfloat \<times> pyfloat \<Rightarrow> pyfloat \<times> pyfloat \<Rightarrow> pyfloat \<times> pyfloat \<Rightarrow> limits" where
  "band_limits info warning critical =
     \<lparr>li_info_low = Some (fst info), li_info_high = Some (snd info),
      li_warning_low = Some (fst warning), li_warning_high = Some (snd warning),
      li_critical_low = Some (fst critical), li_critical_high = Some (snd critical)\<rparr>"

record ptracker =
  pt_samples :: "(pyfloat \<times> pyfloat) list"
  pt_limits :: limits

definition MAX_HISTORY_SIZE :: nat where "MAX_HISTORY_SIZE = 2000"

definition pt_record :: "pyfloat \<Rightarrow> pyfloat \<Rightarrow> ptracker \<Rightarrow> ptracker" where
  "pt_record now x t = t\<lparr>pt_samples := deque_append MAX_HISTORY_SIZE (now, x) (pt_samples t)\<rparr>"

definition pt_values :: "ptracker \<Rightarrow> pyfloat list" where
  "pt_values t = map snd (pt_samples t)"

definition pt_current :: "ptracker \<Rightarrow> pyfloat option" where
  "pt_current t = (if pt_values t = [] then None else Some (last (pt_values t)))"

definition pt_min :: "ptracker \<Rightarrow> pyfloat option" where
  "pt_min t = (case pt_values t of [] \<Rightarrow> None | x # xs \<Rightarrow> Some (foldl py_min x xs))"

definition pt_max :: "ptracker \<Rightarrow> pyfloat option" where
  "pt_max t = (case pt_values t of [] \<Rightarrow> None | x # xs \<Rightarrow> Some (foldl py_max x xs))"

definition pt_avg :: "ptracker \<Rightarrow> pyexc + pyfloat option" where
  "pt_avg t = (if pt_values t = [] then Inr None else bind_res (py_mean (pt_values t)) (\<lambda>m. Inr (Some m)))"

definition below :: "pyfloat \<Rightarrow> pyfloat option \<Rightarrow> bool" where
  "below x b = (case b of None \<Rightarrow> False | Some y \<Rightarrow> flt x y)"

definition above :: "pyfloat \<Rightarrow> pyfloat option \<Rightarrow> bool" where
  "above x b = (case b of None \<Rightarrow> False | Some y \<Rightarrow> flt y x)"

definition level_of :: "limits \<Rightarrow> pyfloat \<Rightarrow> health_level" where
  "level_of l x =
     (if below x (li_critical_low l) then Critical
      else if above x (li_critical_high l) then Critical
      else if below x (li_warning_low l) then Warning
      else if above x (li_warning_high l) then Warning
      else if below x (li_info_low l) then Info
      else if above x (li_info_high l) then Info
      else Good)"

definition pt_level :: "ptracker \<Rightarrow> health_level" where
  "pt_level t = (case pt_current t of None \<Rightarrow> Unknown | Some x \<Rightarrow> level_of (pt_limits t) x)"

definition pt_trend :: "ptracker \<Rightarrow> pyexc + string" where
  "pt_trend t = (let recent = pt_values t; half = length recent div 2 in
     if length recent < 10 then Inr ''insufficient_data''
     else bind_res (py_mean (take half recent)) (\<lambda>a.
          bind_res (py_mean (drop half recent)) (\<lambda>b.
            let diff = fsub b a
            in bind_res (if feq a (FFin 0) then Inr (FFin 0)
                         else bind_res (fdiv diff a) (\<lambda>q. Inr (fmul (fabs q) (FFin 100)))) (\<lambda>pct.
                 Inr (if flt pct (FFin 1) then ''stable''
                      else if flt (FFin 0) diff then ''rising'' else ''falling'')))))"

section \<open>The monitor\<close>

record health_event =
  he_time :: pyfloat
  he_category :: string
  he_level :: health_level
  he_value :: "pyfloat option"

record health =
  hm_trackers :: "(string \<times> ptracker) list"
  hm_bidirectional :: int
  hm_min_samples :: nat
  hm_long :: "(string \<times> pyfloat list) list"
  hm_short :: "(string \<times> pyfloat list) list"
  hm_active :: "string list"
  hm_events :: "health_event list"
  hm_errors :: "pyfloat list"
  hm_polls :: int
  hm_failed :: int
  hm_changes :: "health_event list"
  hm_state :: "int option"
  hm_iso_raw :: "pyfloat option"
  hm_iso_unavailable :: bool
  hm_iso_off_scale :: bool
  hm_iso_origin :: string

definition DC_SHARE_LONG_MAXLEN :: nat where "DC_SHARE_LONG_MAXLEN = 17280"
definition DC_SHARE_SHORT_MAXLEN :: nat where "DC_SHARE_SHORT_MAXLEN = 60"
definition DC_SHARE_MIN_SAMPLES :: nat where "DC_SHARE_MIN_SAMPLES = 720"
definition DC_SHARE_MIN_TOTAL_W :: pyfloat where "DC_SHARE_MIN_TOTAL_W = FFin 200"
definition DC_SHARE_FREEZE_THRESHOLD :: pyfloat where "DC_SHARE_FREEZE_THRESHOLD = mk_float False (20 / 100)"
definition DC_SHARE_COLLAPSE_FLOOR :: pyfloat where "DC_SHARE_COLLAPSE_FLOOR = mk_float False (2 / 100)"
definition DC_SHARE_ACTIVITY_FLOOR :: pyfloat where "DC_SHARE_ACTIVITY_FLOOR = mk_float False (5 / 100)"

definition PHASE_LIMITS_230 :: limits where
  "PHASE_LIMITS_230 = band_limits (FFin 207, FFin 253) (FFin 195, FFin 255) (FFin 185, FFin 265)"

definition PHASE_LIMITS_120 :: limits where
  "PHASE_LIMITS_120 = band_limits (FFin 108, FFin 132) (FFin 102, FFin 138) (FFin 95, FFin 145)"

definition tenths :: "rat \<Rightarrow> pyfloat" where
  "tenths n = mk_float False (n / 10)"

definition initial_limits :: "(string \<times> limits) list" where
  "initial_limits =
    [(''isolation_resistance'', low_limits (FFin 1000000) (FFin 500000) (FFin 100000)),
     (''controller_temperature'', high_limits (FFin 62) (FFin 70) (FFin 80)),
     (''battery_temperature'', high_limits (FFin 38) (FFin 45) (FFin 55)),
     (''battery_soh'', low_limits (FFin 90) (FFin 80) (FFin 60)),
     (''battery_cycles'', high_limits (FFin 3000) (FFin 5000) (FFin 8000)),
     (''battery_voltage'', no_limits), (''battery_capacity'', no_limits),
     (''grid_frequency'', band_limits (tenths 497, tenths 503) (tenths 495, tenths 505) (FFin 49, FFin 51)),
     (''phase1_voltage'', PHASE_LIMITS_230), (''phase2_voltage'', PHASE_LIMITS_230),
     (''phase3_voltage'', PHASE_LIMITS_230),
     (''cos_phi'', no_limits), (''pm_cos_phi'', no_limits),
     (''dc1_voltage'', no_limits), (''dc2_voltage'', no_limits), (''dc3_voltage'', no_limits),
     (''dc1_power'', no_limits), (''dc2_power'', no_limits), (''dc3_power'', no_limits),
     (''power_limit_evu'', no_limits),
     (''active_errors'', high_limits (FFin 0) (FFin 1) (FFin 5)),
     (''active_warnings'', high_limits (FFin 0) (FFin 3) (FFin 10))]"

definition health_new :: "int \<Rightarrow> nat \<Rightarrow> health" where
  "health_new num_bidirectional dc_share_min_samples =
     \<lparr>hm_trackers = map (\<lambda>(n, l). (n, \<lparr>pt_samples = [], pt_limits = l\<rparr>)) initial_limits,
      hm_bidirectional = num_bidirectional, hm_min_samples = dc_share_min_samples,
      hm_long = [], hm_short = [], hm_active = [], hm_events = [], hm_errors = [], hm_polls = 0, hm_failed = 0,
      hm_changes = [], hm_state = None, hm_iso_raw = None, hm_iso_unavailable = True,
      hm_iso_off_scale = False, hm_iso_origin = ''none''\<rparr>"

definition tracker_of :: "health \<Rightarrow> string \<Rightarrow> ptracker" where
  "tracker_of s name = (case map_of (hm_trackers s) name of
     None \<Rightarrow> \<lparr>pt_samples = [], pt_limits = no_limits\<rparr> | Some t \<Rightarrow> t)"

definition hm_record :: "pyfloat \<Rightarrow> string \<Rightarrow> pyfloat \<Rightarrow> health \<Rightarrow> health" where
  "hm_record now name x s = s\<lparr>hm_trackers := dict_set name (pt_record now x (tracker_of s name)) (hm_trackers s)\<rparr>"

definition set_limits :: "string \<Rightarrow> limits \<Rightarrow> health \<Rightarrow> health" where
  "set_limits name l s = s\<lparr>hm_trackers := dict_set name ((tracker_of s name)\<lparr>pt_limits := l\<rparr>) (hm_trackers s)\<rparr>"

definition invalidate_isolation_measurement :: "health \<Rightarrow> health" where
  "invalidate_isolation_measurement s = s\<lparr>hm_iso_unavailable := True, hm_iso_off_scale := False, hm_iso_raw := None\<rparr>"

section \<open>The profile of the grid and the inverter's state\<close>

text \<open>\<open>_safe_float\<close>, which keeps NaN and infinities.\<close>

definition safe_float :: "pyval \<Rightarrow> pyexc + pyfloat option" where
  "safe_float v = (case float_of_val v of
     Inr x \<Rightarrow> Inr (Some x) | Inl e \<Rightarrow> if caught_conv e then Inr None else Inl e)"

definition safe_int :: "pyval \<Rightarrow> pyexc + int option" where
  "safe_int v = (if v = VNone then Inr None
     else case bind_res (float_of_val v) int_of_float of
       Inr n \<Rightarrow> Inr (Some n) | Inl e \<Rightarrow> if caught_conv e then Inr None else Inl e)"

definition nominal_frequency :: "pyfloat option \<Rightarrow> pyfloat" where
  "nominal_frequency f = (case f of None \<Rightarrow> FFin 50 | Some x \<Rightarrow> if fle (FFin 55) x then FFin 60 else FFin 50)"

definition nominal_voltage :: "pyfloat list \<Rightarrow> pyexc + pyfloat" where
  "nominal_voltage vs = (let active = filter (flt (FFin 80)) vs in
     if active = [] then Inr (FFin 230)
     else bind_res (py_mean active) (\<lambda>avg. Inr (if flt avg (FFin 180) then FFin 120 else FFin 230)))"

definition frequency_limits :: "pyfloat \<Rightarrow> limits" where
  "frequency_limits n = band_limits (fsub n (tenths 3), fadd n (tenths 3)) (fsub n (tenths 5), fadd n (tenths 5))
     (fsub n (FFin 1), fadd n (FFin 1))"

definition phase_limits :: "pyfloat \<Rightarrow> limits" where
  "phase_limits nominal = (if fle nominal (FFin 130) then PHASE_LIMITS_120 else PHASE_LIMITS_230)"

definition track_state :: "pyfloat \<Rightarrow> pyval \<Rightarrow> health \<Rightarrow> (pyexc + unit) \<times> health" where
  "track_state now v s =
     (if v = VNone then (Inr (), s)
      else case int_of_val v of
        Inl e \<Rightarrow> if caught_conv e then (Inr (), s) else (Inl e, s)
      | Inr n \<Rightarrow>
          if hm_state s \<noteq> None \<and> hm_state s \<noteq> Some n
          then (case float_of_int n of
             Inl e \<Rightarrow> if caught_conv e then (Inr (), s) else (Inl e, s)
           | Inr x \<Rightarrow> (Inr (), s\<lparr>hm_changes := deque_append 100
                 \<lparr>he_time = now, he_category = ''state_change'', he_level = Info, he_value = Some x\<rparr> (hm_changes s),
                 hm_state := Some n\<rparr>))
          else (Inr (), s\<lparr>hm_state := Some n\<rparr>))"

definition apply_grid_profile :: "(string \<times> pyval) list \<Rightarrow> pyfloat \<Rightarrow> health \<Rightarrow> (pyexc + unit) \<times> health" where
  "apply_grid_profile d now =
     sbind (\<lambda>s. (safe_float (reading d ''grid_frequency''), s)) (\<lambda>freq.
     sbind (\<lambda>s. (Inr (), set_limits ''grid_frequency'' (frequency_limits (nominal_frequency freq)) s)) (\<lambda>_.
     sbind (\<lambda>s. (safe_float (reading d ''phase1_voltage''), s)) (\<lambda>v1.
     sbind (\<lambda>s. (safe_float (reading d ''phase2_voltage''), s)) (\<lambda>v2.
     sbind (\<lambda>s. (safe_float (reading d ''phase3_voltage''), s)) (\<lambda>v3.
     sbind (\<lambda>s. (nominal_voltage (List.map_filter id [v1, v2, v3]), s)) (\<lambda>nominal.
     sbind (\<lambda>s. (Inr (), fold (\<lambda>n. set_limits n (phase_limits nominal))
                    [''phase1_voltage'', ''phase2_voltage'', ''phase3_voltage''] s)) (\<lambda>_.
     track_state now (reading d ''inverter_state''))))))))"

section \<open>Readings\<close>

text \<open>The readings and their trackers, in the order of the code.\<close>

definition reading_trackers :: "(string \<times> string) list" where
  "reading_trackers =
    [(''isolation_resistance'', ''isolation_resistance''), (''controller_temp'', ''controller_temperature''),
     (''battery_temperature'', ''battery_temperature''), (''battery_voltage'', ''battery_voltage''),
     (''battery_cycles'', ''battery_cycles''), (''grid_frequency'', ''grid_frequency''),
     (''phase1_voltage'', ''phase1_voltage''), (''phase2_voltage'', ''phase2_voltage''),
     (''phase3_voltage'', ''phase3_voltage''), (''cos_phi'', ''cos_phi''), (''pm_cos_phi'', ''pm_cos_phi''),
     (''dc1_voltage'', ''dc1_voltage''), (''dc2_voltage'', ''dc2_voltage''), (''dc3_voltage'', ''dc3_voltage''),
     (''dc1_power'', ''dc1_power''), (''dc2_power'', ''dc2_power''), (''dc3_power'', ''dc3_power''),
     (''power_limit_evu'', ''power_limit_evu''), (''battery_work_capacity'', ''battery_capacity'')]"

definition record_isolation_reading ::
    "pyfloat \<Rightarrow> bool \<Rightarrow> bool \<Rightarrow> int option \<Rightarrow> pyval \<Rightarrow> pyfloat \<Rightarrow> health \<Rightarrow> (pyexc + unit) \<times> health" where
  "record_isolation_reading now isolation_current pv_active state v x s =
     (if \<not> isolation_current \<or> \<not> is_finite x then (Inr (), s)
      else let s1 = s\<lparr>hm_iso_raw := Some x\<rparr> in
        if \<not> isolation_measurement_expected pv_active state
        then (Inr (), s1\<lparr>hm_iso_unavailable := True, hm_iso_off_scale := False\<rparr>)
        else if is_isolation_sentinel_ohm x
        then if isolation_sentinel_as_off_scale_high pv_active state
             then (Inr (), (hm_record now ''isolation_resistance'' ISOLATION_SENTINEL_OHM
                     (s1\<lparr>hm_iso_unavailable := False, hm_iso_off_scale := True\<rparr>))\<lparr>hm_iso_origin := ''modbus''\<rparr>)
             else (Inr (), s1\<lparr>hm_iso_unavailable := True, hm_iso_off_scale := False\<rparr>)
        else let s2 = s1\<lparr>hm_iso_off_scale := False\<rparr> in
          case normalize_isolation_resistance_ohm v pv_active state of
            Inl e \<Rightarrow> (Inl e, s2)
          | Inr None \<Rightarrow> (Inr (), s2\<lparr>hm_iso_unavailable := True\<rparr>)
          | Inr (Some y) \<Rightarrow> (Inr (), hm_record now ''isolation_resistance'' y
                               (s2\<lparr>hm_iso_unavailable := False, hm_iso_origin := ''modbus''\<rparr>)))"

definition record_one ::
    "pyfloat \<Rightarrow> bool \<Rightarrow> bool \<Rightarrow> int option \<Rightarrow> (string \<times> pyval) list \<Rightarrow> string \<times> string \<Rightarrow> health \<Rightarrow> (pyexc + unit) \<times> health" where
  "record_one now isolation_current pv_active state d kt s = (let (key, name) = kt; v = reading d key in
     if v = VNone then (Inr (), s)
     else case sbind (\<lambda>s. (float_of_val v, s)) (\<lambda>x.
            if key = ''isolation_resistance''
            then record_isolation_reading now isolation_current pv_active state v x
            else (\<lambda>s. (Inr (), hm_record now name x s))) s of
       (Inr u, s1) \<Rightarrow> (Inr (), s1)
     | (Inl e, s1) \<Rightarrow> if caught_conv e then (Inr (), s1) else (Inl e, s1))"

fun each_res :: "('a \<Rightarrow> 's \<Rightarrow> ('e + unit) \<times> 's) \<Rightarrow> 'a list \<Rightarrow> 's \<Rightarrow> ('e + unit) \<times> 's" where
  "each_res f [] s = (Inr (), s)"
| "each_res f (x # xs) s = sbind (f x) (\<lambda>_. each_res f xs) s"

section \<open>The strings\<close>

definition pv_keys :: "health \<Rightarrow> string list" where
  "pv_keys s = [''dc1_power'', ''dc2_power''] @ (if hm_bidirectional s < 1 then [''dc3_power''] else [])"

fun positive_powers :: "(string \<times> pyval) list \<Rightarrow> string list \<Rightarrow> pyexc + (string \<times> pyfloat) list" where
  "positive_powers d [] = Inr []"
| "positive_powers d (k # ks) = bind_res (safe_float (reading d k)) (\<lambda>v. bind_res (positive_powers d ks) (\<lambda>rest.
     Inr (case v of None \<Rightarrow> rest | Some x \<Rightarrow> (k, py_max x (FFin 0)) # rest)))"

fun share_list :: "(string \<times> pyfloat) list \<Rightarrow> pyfloat \<Rightarrow> pyexc + (string \<times> pyfloat) list" where
  "share_list [] tot = Inr []"
| "share_list ((k, p) # ps) tot = bind_res (fdiv p tot) (\<lambda>q. bind_res (share_list ps tot) (\<lambda>rest. Inr ((k, q) # rest)))"

definition window :: "(string \<times> pyfloat list) list \<Rightarrow> string \<Rightarrow> pyfloat list" where
  "window m k = (case map_of m k of None \<Rightarrow> [] | Some xs \<Rightarrow> xs)"

text \<open>A share is learned unless the poll is suspect or the string already deviates hard.\<close>

definition may_learn :: "bool \<Rightarrow> nat \<Rightarrow> pyfloat list \<Rightarrow> pyfloat list \<Rightarrow> pyexc + bool" where
  "may_learn suspect min_samples long_q short_q =
     (if suspect then Inr False
      else if min_samples \<le> length long_q \<and> 5 \<le> length short_q
      then bind_res (py_median short_q) (\<lambda>a. bind_res (py_median long_q) (\<lambda>b.
             Inr (\<not> flt DC_SHARE_FREEZE_THRESHOLD (fabs (fsub a b)))))
      else Inr True)"

text \<open>The share of one string: always in the short window, in the long one if it may be learned.\<close>

definition learn_share :: "bool \<Rightarrow> string \<times> pyfloat \<Rightarrow> health \<Rightarrow> (pyexc + unit) \<times> health" where
  "learn_share suspect ks s = (let (key, share) = ks;
       long_q = window (hm_long s) key; short_q = deque_append DC_SHARE_SHORT_MAXLEN share (window (hm_short s) key);
       s1 = s\<lparr>hm_long := dict_set key long_q (hm_long s), hm_short := dict_set key short_q (hm_short s)\<rparr>
     in case may_learn suspect (hm_min_samples s) long_q short_q of
          Inl e \<Rightarrow> (Inl e, s1)
        | Inr ok \<Rightarrow> (Inr (), if ok
            then s1\<lparr>hm_long := dict_set key (deque_append DC_SHARE_LONG_MAXLEN share long_q) (hm_long s1)\<rparr> else s1))"

definition suspect_shares :: "(string \<times> pyfloat) list \<Rightarrow> bool" where
  "suspect_shares shares \<longleftrightarrow> list_ex (\<lambda>(k, x). flt x DC_SHARE_COLLAPSE_FLOOR) shares"

definition record_dc_shares :: "(string \<times> pyval) list \<Rightarrow> health \<Rightarrow> (pyexc + unit) \<times> health" where
  "record_dc_shares d s =
     (case positive_powers d (pv_keys s) of
        Inl e \<Rightarrow> (Inl e, s)
      | Inr powers \<Rightarrow>
          if length powers < 2 then (Inr (), s)
          else let tot = py_sum (map snd powers) in
            if flt tot DC_SHARE_MIN_TOTAL_W then (Inr (), s)
            else case share_list powers tot of
              Inl e \<Rightarrow> (Inl e, s)
            | Inr shares \<Rightarrow>
                let active = hm_active s @ map fst (filter (\<lambda>(k, x). fle DC_SHARE_ACTIVITY_FLOOR x \<and> k \<notin> set (hm_active s)) shares);
                    used = filter (\<lambda>(k, x). k \<in> set active) shares; s1 = s\<lparr>hm_active := active\<rparr>
                in if length used < 2 then (Inr (), s1)
                   else each_res (learn_share (suspect_shares used)) used s1)"

definition update_health :: "(string \<times> pyval) list \<Rightarrow> bool \<Rightarrow> pyfloat \<Rightarrow> health \<Rightarrow> (pyexc + unit) \<times> health" where
  "update_health d isolation_current now =
     sbind (\<lambda>s. (Inr (), invalidate_isolation_measurement (s\<lparr>hm_polls := hm_polls s + 1\<rparr>))) (\<lambda>_.
     sbind (apply_grid_profile d now) (\<lambda>_.
     sbind (\<lambda>s. (safe_float (reading d ''total_dc_power''), s)) (\<lambda>total_dc.
     sbind (\<lambda>s. (safe_float (reading d ''inverter_state''), s)) (\<lambda>raw.
     sbind (\<lambda>s. (case raw of None \<Rightarrow> Inr None | Some x \<Rightarrow> bind_res (int_of_float x) (\<lambda>n. Inr (Some n)), s)) (\<lambda>state.
     sbind (each_res (record_one now isolation_current
              (case total_dc of None \<Rightarrow> False | Some p \<Rightarrow> flt (FFin 5) p) state d) reading_trackers) (\<lambda>_.
     record_dc_shares d))))))"

section \<open>Other inputs\<close>

definition update_battery_soh_level :: "pyfloat \<Rightarrow> pyfloat \<Rightarrow> health \<Rightarrow> health" where
  "update_battery_soh_level soh now s = (if fle soh (FFin 0) then s else hm_record now ''battery_soh'' soh s)"

definition update_error_counts :: "int \<Rightarrow> int \<Rightarrow> pyfloat \<Rightarrow> health \<Rightarrow> (pyexc + unit) \<times> health" where
  "update_error_counts errors warnings now =
     sbind (\<lambda>s. (float_of_int errors, s)) (\<lambda>e.
     sbind (\<lambda>s. (Inr (), hm_record now ''active_errors'' e s)) (\<lambda>_.
     sbind (\<lambda>s. (float_of_int warnings, s)) (\<lambda>w s. (Inr (), hm_record now ''active_warnings'' w s))))"

definition record_error :: "string \<Rightarrow> pyfloat \<Rightarrow> health \<Rightarrow> health" where
  "record_error category now s = s\<lparr>hm_errors := deque_append MAX_HISTORY_SIZE now (hm_errors s),
     hm_failed := hm_failed s + 1,
     hm_events := deque_append MAX_HISTORY_SIZE
       \<lparr>he_time = now, he_category = category, he_level = Warning, he_value = None\<rparr> (hm_events s)\<rparr>"

definition record_event :: "string \<Rightarrow> health_level \<Rightarrow> pyfloat option \<Rightarrow> pyfloat \<Rightarrow> health \<Rightarrow> health" where
  "record_event category level v now s = s\<lparr>hm_events := deque_append MAX_HISTORY_SIZE
     \<lparr>he_time = now, he_category = category, he_level = level, he_value = v\<rparr> (hm_events s)\<rparr>"

text \<open>The counters of the REST interface: the modules with their values, or the count of the event
  coordinator when the module has no error counter.\<close>

definition resolve_active_error_warning_counts ::
    "(string \<times> (string \<times> pyval) list) list option \<Rightarrow> (string \<times> pyval) list option \<Rightarrow> pyexc + (int \<times> int) option" where
  "resolve_active_error_warning_counts process_data event_snapshot =
     bind_res (case process_data of
         None \<Rightarrow> Inr (None, None)
       | Some p \<Rightarrow> (case map_of p ''scb:event'' of
            None \<Rightarrow> Inr (None, None)
          | Some m \<Rightarrow> bind_res (safe_int (reading m ''Event:ActiveErrorCnt'')) (\<lambda>e.
                      bind_res (safe_int (reading m ''Event:ActiveWarningCnt'')) (\<lambda>w. Inr (e, w))))) (\<lambda>(errors, warnings).
     bind_res (case (errors, event_snapshot) of
         (None, Some ev) \<Rightarrow> safe_int (reading ev ''active_error_events_count'')
       | _ \<Rightarrow> Inr errors) (\<lambda>errors.
     Inr (case errors of None \<Rightarrow> None | Some e \<Rightarrow> Some (e, case warnings of None \<Rightarrow> 0 | Some w \<Rightarrow> w))))"

section \<open>The isolation measurement\<close>

definition get_isolation_resistance_ohm :: "health \<Rightarrow> pyfloat option" where
  "get_isolation_resistance_ohm s =
     (if hm_iso_unavailable s then None else pt_current (tracker_of s ''isolation_resistance''))"

definition isolation_basis :: "health \<Rightarrow> string" where
  "isolation_basis s =
     (let current = (if hm_iso_origin s = ''modbus'' then get_isolation_resistance_ohm s else None)
      in if current \<noteq> None then ''current''
         else if pt_current (tracker_of s ''isolation_resistance'') \<noteq> None then ''historical''
         else ''unavailable'')"

section \<open>Assessments\<close>

fun string_deviations :: "health \<Rightarrow> (string \<times> pyfloat list) list \<Rightarrow> pyexc + pyfloat list" where
  "string_deviations s [] = Inr []"
| "string_deviations s ((k, long_q) # ms) = (let short_q = window (hm_short s) k in
     if length long_q < hm_min_samples s \<or> length short_q < 5 then string_deviations s ms
     else bind_res (py_median short_q) (\<lambda>a. bind_res (py_median long_q) (\<lambda>b.
          bind_res (string_deviations s ms) (\<lambda>rest. Inr (fmul (fabs (fsub a b)) (FFin 100) # rest)))))"

definition dc_string_baseline_deviation :: "health \<Rightarrow> pyexc + pyfloat option" where
  "dc_string_baseline_deviation s = bind_res (string_deviations s (hm_long s)) (\<lambda>devs.
     Inr (case devs of [] \<Rightarrow> None | x # xs \<Rightarrow> Some (foldl py_max x xs)))"

fun collapsed_strings :: "(string \<times> pyfloat list) list \<Rightarrow> pyexc + string list" where
  "collapsed_strings [] = Inr []"
| "collapsed_strings ((k, short_q) # ms) =
     (if length short_q < 5 then collapsed_strings ms
      else bind_res (py_median short_q) (\<lambda>m. bind_res (collapsed_strings ms) (\<lambda>rest.
             Inr (if flt m DC_SHARE_COLLAPSE_FLOOR then k # rest else rest))))"

definition dc_string_collapsed :: "health \<Rightarrow> pyexc + string list" where
  "dc_string_collapsed s = collapsed_strings (hm_short s)"

definition error_rate_per_hour :: "pyfloat \<Rightarrow> health \<Rightarrow> pyfloat" where
  "error_rate_per_hour now s = FFin (of_nat (length (filter (flt (fsub now (FFin 3600))) (hm_errors s))))"

definition communication_reliability :: "health \<Rightarrow> pyexc + pyfloat" where
  "communication_reliability s =
     (if hm_polls s = 0 then Inr (FFin 100)
      else bind_res (fdiv (FFin (of_int (hm_polls s - hm_failed s))) (FFin (of_int (hm_polls s)))) (\<lambda>q.
             Inr (fmul q (FFin 100))))"

text \<open>The largest distance from the mean, in percent of it.\<close>

definition spread_pct :: "pyfloat list \<Rightarrow> pyfloat \<Rightarrow> pyexc + pyfloat option" where
  "spread_pct xs avg = (case map (\<lambda>x. fabs (fsub x avg)) xs of
     [] \<Rightarrow> Inl ValueError
   | d # ds \<Rightarrow> bind_res (fdiv (foldl py_max d ds) avg) (\<lambda>q. Inr (Some (fmul q (FFin 100)))))"

definition current_values :: "health \<Rightarrow> string list \<Rightarrow> pyfloat \<Rightarrow> pyfloat list" where
  "current_values s names least =
     filter (flt least) (List.map_filter (\<lambda>n. pt_current (tracker_of s n)) names)"

definition dc_string_imbalance :: "health \<Rightarrow> pyexc + pyfloat option" where
  "dc_string_imbalance s = (let active = current_values s (pv_keys s) (FFin 50) in
     if length active < 2 then Inr None
     else bind_res (py_mean active) (\<lambda>avg. if flt avg (FFin 50) then Inr None else spread_pct active avg))"

definition phase_voltage_imbalance :: "health \<Rightarrow> pyexc + pyfloat option" where
  "phase_voltage_imbalance s =
     (let active = current_values s [''phase1_voltage'', ''phase2_voltage'', ''phase3_voltage''] (FFin 100) in
      if length active < 2 then Inr None else bind_res (py_mean active) (spread_pct active))"

definition overall_health :: "pyfloat \<Rightarrow> health \<Rightarrow> health_level" where
  "overall_health now s =
     (let levels = map pt_level (filter (\<lambda>t. pt_current t \<noteq> None) (map snd (hm_trackers s)))
      in if levels = [] then Unknown
         else if Critical \<in> set levels then Critical
         else if Warning \<in> set levels then Warning
         else if Info \<in> set levels then Info
         else if flt (FFin 5) (error_rate_per_hour now s) then Warning
         else Good)"

definition level_cost :: "health_level \<Rightarrow> int" where
  "level_cost l = (case l of Critical \<Rightarrow> 20 | Warning \<Rightarrow> 8 | Info \<Rightarrow> 3 | _ \<Rightarrow> 0)"

definition health_score :: "pyfloat \<Rightarrow> health \<Rightarrow> pyexc + int" where
  "health_score now s =
     bind_res (communication_reliability s) (\<lambda>rel.
     bind_res (dc_string_baseline_deviation s) (\<lambda>bdev.
     bind_res (if (case bdev of None \<Rightarrow> False | Some b \<Rightarrow> flt (FFin 25) b) then Inr True
               else bind_res (dc_string_collapsed s) (\<lambda>c. Inr (c \<noteq> []))) (\<lambda>dc.
     let score = 100 - sum_list (map (\<lambda>(n, t). level_cost (pt_level t)) (hm_trackers s))
           - (if flt (FFin 5) (error_rate_per_hour now s) then 10 else 0)
           - (if flt rel (FFin 95) then 10 else 0) - (if dc then 5 else 0)
     in Inr (max 0 (min 100 score)))))"

end
