(* ===== verification/HealthProofs.thy ===== *)
theory HealthProofs
  imports HealthMonitor
begin

text \<open>
  The health monitor: its live isolation value is never an old one, a dead string never becomes the
  learned normal, and where a warning or a counter is lost.
\<close>

section \<open>Parts of the state an action keeps\<close>

definition keeps_part :: "('s \<Rightarrow> 'v) \<Rightarrow> ('s \<Rightarrow> 'r \<times> 's) \<Rightarrow> bool" where
  "keeps_part f m \<longleftrightarrow> (\<forall>s. f (snd (m s)) = f s)"

lemma keeps_partD: "keeps_part f m \<Longrightarrow> f (snd (m s)) = f s"
  by (simp add: keeps_part_def)

lemma keeps_part_result: "keeps_part f (\<lambda>s. (r s, s))"
  by (simp add: keeps_part_def)

lemma keeps_part_state: "(\<And>s. f (g s) = f s) \<Longrightarrow> keeps_part f (\<lambda>s. (r s, g s))"
  by (simp add: keeps_part_def)

lemma keeps_part_sbind:
  assumes "keeps_part f m" "\<And>a. keeps_part f (k a)"
  shows "keeps_part f (sbind m k)"
  unfolding keeps_part_def
proof
  fix s
  obtain r s1 where m: "m s = (r, s1)" by fastforce
  then have "f s1 = f s" using keeps_partD [OF assms(1), of s] by simp
  then show "f (snd (sbind m k s)) = f s"
    using m keeps_partD [OF assms(2), of _ s1] by (cases r) (simp_all add: sbind_def)
qed

lemma keeps_part_each: "(\<And>x. x \<in> set xs \<Longrightarrow> keeps_part f (m x)) \<Longrightarrow> keeps_part f (each_res m xs)"
proof (induction xs)
  case (Cons x xs)
  have "each_res m (x # xs) = sbind (m x) (\<lambda>_. each_res m xs)" by (rule ext) simp
  then show ?case using Cons by (simp add: keeps_part_sbind)
qed (simp add: keeps_part_def)

lemmas keeps_part_intros = keeps_part_sbind keeps_part_result keeps_part_each

section \<open>The live isolation value\<close>

text \<open>What the live value depends on.\<close>

definition iso_part :: "health \<Rightarrow> bool \<times> pyfloat list" where
  "iso_part s = (hm_iso_unavailable s, pt_values (tracker_of s ''isolation_resistance''))"

lemma tracker_of_record:
  "tracker_of (hm_record now n x s) m = (if m = n then pt_record now x (tracker_of s n) else tracker_of s m)"
  by (simp add: tracker_of_def hm_record_def)

lemma tracker_of_limits:
  "tracker_of (set_limits n l s) m = (if m = n then (tracker_of s n)\<lparr>pt_limits := l\<rparr> else tracker_of s m)"
  by (simp add: tracker_of_def set_limits_def)

lemma hm_record_fields [simp]:
  "hm_iso_unavailable (hm_record now n x s) = hm_iso_unavailable s" "hm_long (hm_record now n x s) = hm_long s"
  "hm_active (hm_record now n x s) = hm_active s" "hm_bidirectional (hm_record now n x s) = hm_bidirectional s"
  "hm_min_samples (hm_record now n x s) = hm_min_samples s"
  by (simp_all add: hm_record_def)

lemma set_limits_fields [simp]:
  "hm_iso_unavailable (set_limits n l s) = hm_iso_unavailable s" "hm_long (set_limits n l s) = hm_long s"
  "hm_active (set_limits n l s) = hm_active s" "hm_bidirectional (set_limits n l s) = hm_bidirectional s"
  "hm_min_samples (set_limits n l s) = hm_min_samples s"
  by (simp_all add: set_limits_def)

lemma tracker_of_cong: "hm_trackers s = hm_trackers t \<Longrightarrow> tracker_of s n = tracker_of t n"
  by (simp add: tracker_of_def)

lemma iso_part_cong:
  "hm_trackers s = hm_trackers t \<Longrightarrow> hm_iso_unavailable s = hm_iso_unavailable t \<Longrightarrow> iso_part s = iso_part t"
  by (simp add: iso_part_def tracker_of_cong [of s t])

lemma iso_part_record: "n \<noteq> ''isolation_resistance'' \<Longrightarrow> iso_part (hm_record now n x s) = iso_part s"
  by (simp add: iso_part_def tracker_of_record)

lemma iso_part_limits: "iso_part (set_limits n l s) = iso_part s"
  by (simp add: iso_part_def tracker_of_limits pt_values_def)

lemma track_state_same:
  "hm_trackers (snd (track_state now v s)) = hm_trackers s" "hm_iso_unavailable (snd (track_state now v s)) = hm_iso_unavailable s"
  "hm_long (snd (track_state now v s)) = hm_long s" "hm_active (snd (track_state now v s)) = hm_active s"
  "hm_bidirectional (snd (track_state now v s)) = hm_bidirectional s"
  by (auto simp: track_state_def split: sum.split)

lemma profile_keeps:
  assumes "\<And>n l s. f (set_limits n l s) = f s" "\<And>v s. f (snd (track_state now v s)) = f s"
  shows "keeps_part f (apply_grid_profile d now)"
proof -
  have l: "f (fold (\<lambda>n. set_limits n l) ns s) = f s" for l ns s by (induction ns arbitrary: s) (simp_all add: assms(1))
  have t: "keeps_part f (track_state now v)" for v using assms(2) by (simp add: keeps_part_def)
  show ?thesis unfolding apply_grid_profile_def
    by (intro keeps_part_sbind keeps_part_result t; rule keeps_part_state; rule l assms(1))
qed

lemma record_one_keeps:
  assumes "\<And>x s. f (hm_record now name x s) = f s" "key \<noteq> ''isolation_resistance''"
  shows "keeps_part f (record_one now c pv st d (key, name))"
  using assms by (auto simp: keeps_part_def record_one_def sbind_def Let_def split: sum.split)

lemma learn_share_same:
  "hm_trackers (snd (learn_share b ks s)) = hm_trackers s" "hm_iso_unavailable (snd (learn_share b ks s)) = hm_iso_unavailable s"
  "hm_active (snd (learn_share b ks s)) = hm_active s" "hm_bidirectional (snd (learn_share b ks s)) = hm_bidirectional s"
  by (cases ks, simp add: learn_share_def Let_def split: sum.split)+

lemma shares_iso: "iso_part (snd (record_dc_shares d s)) = iso_part s"
proof -
  have e: "keeps_part iso_part (each_res (learn_share b) xs)" for b xs
    by (intro keeps_part_each) (simp add: keeps_part_def iso_part_cong [OF learn_share_same(1,2)])
  have "iso_part (s\<lparr>hm_active := a\<rparr>) = iso_part s" for a by (rule iso_part_cong) simp_all
  then show ?thesis
    by (simp add: record_dc_shares_def Let_def keeps_partD [OF e] split: sum.split)
qed

text \<open>What one poll makes the live value.\<close>

definition live_from :: "(string \<times> pyval) list \<Rightarrow> bool \<Rightarrow> pyfloat \<Rightarrow> bool" where
  "live_from d isolation_current x \<longleftrightarrow> isolation_current \<and> (\<exists>v pv st.
     float_of_val (reading d ''isolation_resistance'') = Inr v \<and> is_finite v \<and> isolation_measurement_expected pv st \<and>
     (if is_isolation_sentinel_ohm v then x = ISOLATION_SENTINEL_OHM
      else normalize_isolation_resistance_ohm (reading d ''isolation_resistance'') pv st = Inr (Some x)))"

lemma pt_current_record: "pt_current (pt_record now x t) = Some x"
proof -
  have "last (deque_append MAX_HISTORY_SIZE (now, x) ys) = (now, x)" for ys :: "(pyfloat \<times> pyfloat) list"
    by (simp add: deque_append_def last_take_last MAX_HISTORY_SIZE_def)
  moreover have "deque_append MAX_HISTORY_SIZE (now, x) ys \<noteq> []" for ys :: "(pyfloat \<times> pyfloat) list"
    using deque_append_in [of MAX_HISTORY_SIZE "(now, x)" ys] by (auto simp: MAX_HISTORY_SIZE_def)
  ultimately show ?thesis by (simp add: pt_current_def pt_values_def pt_record_def last_map)
qed

lemma record_isolation_live:
  assumes "hm_iso_unavailable s"
    and "record_one now c pv st d (''isolation_resistance'', ''isolation_resistance'') s = (r, s1)"
    and "\<not> hm_iso_unavailable s1"
  shows "\<exists>x. pt_current (tracker_of s1 ''isolation_resistance'') = Some x \<and> live_from d c x"
proof -
  let ?v = "reading d ''isolation_resistance''"
  let ?s1 = "\<lambda>v. snd (record_isolation_reading now c pv st ?v v s)"
  have ne: "?v \<noteq> VNone" using assms by (auto simp: record_one_def)
  then obtain v where v: "float_of_val ?v = Inr v" "s1 = ?s1 v"
    using assms by (cases "float_of_val ?v")
      (auto simp: record_one_def sbind_def Let_def split: if_splits prod.splits sum.splits)
  have c: "c" "is_finite v" "isolation_measurement_expected pv st"
    using assms(1,3) v(2) by (auto simp: record_isolation_reading_def Let_def split: if_splits)
  show ?thesis
  proof (cases "is_isolation_sentinel_ohm v")
    case True
    then have "s1 = (hm_record now ''isolation_resistance'' ISOLATION_SENTINEL_OHM
        (s\<lparr>hm_iso_raw := Some v, hm_iso_unavailable := False, hm_iso_off_scale := True\<rparr>))\<lparr>hm_iso_origin := ''modbus''\<rparr>"
      using c assms(1,3) v(2) by (simp add: record_isolation_reading_def Let_def isolation_sentinel_as_off_scale_high_def)
    then have "pt_current (tracker_of s1 ''isolation_resistance'') = Some ISOLATION_SENTINEL_OHM"
      by (simp add: tracker_of_record tracker_of_cong [of "_\<lparr>hm_iso_origin := _\<rparr>"] pt_current_record)
    then show ?thesis using True c v(1) unfolding live_from_def by auto
  next
    case False
    then obtain y where y: "normalize_isolation_resistance_ohm ?v pv st = Inr (Some y)"
      using c assms(1,3) v(2) by (auto simp: record_isolation_reading_def Let_def split: sum.splits option.splits)
    then have "pt_current (tracker_of s1 ''isolation_resistance'') = Some y"
      using False c v(2) by (simp add: record_isolation_reading_def Let_def tracker_of_record pt_current_record)
    then show ?thesis using False c v(1) y unfolding live_from_def by auto
  qed
qed

text \<open>C21: The live isolation value is never an old one: whatever a poll brings, and even if its evaluation
  raises, the value shown afterwards, if any, comes from the reading of this very poll, which was
  current, finite and taken while a measurement is expected.\<close>

theorem live_isolation_is_this_polls:
  "update_health d isolation_current now s = (r, s') \<Longrightarrow> get_isolation_resistance_ohm s' = Some x \<Longrightarrow>
   live_from d isolation_current x"
proof -
  assume u: "update_health d isolation_current now s = (r, s')" and g: "get_isolation_resistance_ohm s' = Some x"
  let ?s0 = "invalidate_isolation_measurement (s\<lparr>hm_polls := hm_polls s + 1\<rparr>)"
  let ?iso = "(''isolation_resistance'', ''isolation_resistance'')"
  have s0: "hm_iso_unavailable ?s0" by (simp add: invalidate_isolation_measurement_def)
  have g': "\<not> fst (iso_part s')" "pt_current (tracker_of s' ''isolation_resistance'') = Some x"
    using g by (auto simp: get_isolation_resistance_ohm_def iso_part_def split: if_splits)
  have cur: "pt_current (tracker_of t n) = (if ys = [] then None else Some (last ys))"
    if "iso_part t = (b, ys)" "n = ''isolation_resistance''" for t n b ys
    using that by (simp add: iso_part_def pt_current_def)
  have k1: "keeps_part iso_part (apply_grid_profile d now)"
    by (rule profile_keeps) (simp_all add: iso_part_limits iso_part_cong [OF track_state_same(1,2)])
  have k2: "keeps_part iso_part (each_res (record_one now isolation_current pv st d) (tl reading_trackers))" for pv st
    by (intro keeps_part_each) (auto simp: reading_trackers_def intro!: record_one_keeps iso_part_record)
  have k3: "keeps_part iso_part (record_dc_shares d)" using shares_iso by (simp add: keeps_part_def)
  obtain q1 s1 where p: "apply_grid_profile d now ?s0 = (q1, s1)" by fastforce
  have s1: "iso_part s1 = iso_part ?s0" using keeps_partD [OF k1, of ?s0] p by simp
  then have un1: "hm_iso_unavailable s1" using s0 by (simp add: iso_part_def)
  have ne: "s' \<noteq> s1" using g'(1) un1 by (auto simp: iso_part_def)
  have "\<exists>pv st. sbind (each_res (record_one now isolation_current pv st d) reading_trackers)
      (\<lambda>_. record_dc_shares d) s1 = (r, s')"
    using u p ne by (auto simp: update_health_def sbind_def split: sum.splits intro!: exI)
  then obtain pv st where e: "(r, s') = sbind (each_res (record_one now isolation_current pv st d) reading_trackers)
      (\<lambda>_. record_dc_shares d) s1" by metis
  have rt: "reading_trackers = ?iso # tl reading_trackers" by (simp add: reading_trackers_def)
  obtain q2 s2 where o': "record_one now isolation_current pv st d ?iso s1 = (q2, s2)" by fastforce
  have "iso_part s' = iso_part s2"
  proof (cases q2)
    case (Inl err)
    then show ?thesis using e o' by (subst (asm) rt) (simp add: sbind_def)
  next
    case (Inr w)
    let ?m = "sbind (each_res (record_one now isolation_current pv st d) (tl reading_trackers)) (\<lambda>_. record_dc_shares d)"
    have "(r, s') = ?m s2" using e o' Inr by (subst (asm) rt) (simp add: sbind_def)
    then have "s' = snd (?m s2)" by (metis snd_conv)
    then show ?thesis using keeps_partD [OF keeps_part_sbind [OF k2 k3]] by simp
  qed
  then have same: "hm_iso_unavailable s2 = hm_iso_unavailable s'"
      "pt_values (tracker_of s2 ''isolation_resistance'') = pt_values (tracker_of s' ''isolation_resistance'')"
    by (simp_all add: iso_part_def)
  then have un: "\<not> hm_iso_unavailable s2" and c2: "pt_current (tracker_of s2 ''isolation_resistance'') = Some x"
    using g' by (simp_all only: iso_part_def pt_current_def same fst_conv simp_thms)
  show ?thesis using record_isolation_live [OF un1 o' un] c2 by auto
qed

section \<open>A dead string\<close>

text \<open>The shares of a poll that has enough power, and that one input has collapsed in it.\<close>

definition poll_shares :: "(string \<times> pyval) list \<Rightarrow> string list \<Rightarrow> (string \<times> pyfloat) list" where
  "poll_shares d keys = (case positive_powers d keys of
     Inl _ \<Rightarrow> []
   | Inr ps \<Rightarrow> (case share_list ps (py_sum (map snd ps)) of Inl _ \<Rightarrow> [] | Inr shares \<Rightarrow> shares))"

definition collapsed_in :: "(string \<times> pyval) list \<Rightarrow> string list \<Rightarrow> string \<Rightarrow> bool" where
  "collapsed_in d keys k \<longleftrightarrow> (\<exists>x. (k, x) \<in> set (poll_shares d keys) \<and> flt x DC_SHARE_COLLAPSE_FLOOR)"

definition learned :: "health \<Rightarrow> string \<Rightarrow> pyfloat list" where
  "learned s = window (hm_long s)"

lemma window_set [simp]: "window (dict_set k xs m) j = (if j = k then xs else window m j)"
  by (simp add: window_def)

lemma suspect_learns_nothing: "learned (snd (learn_share True ks s)) = learned s"
  by (cases ks) (auto simp: learned_def learn_share_def may_learn_def Let_def)

lemma suspect_each: "keeps_part learned (each_res (learn_share True) xs)"
  by (intro keeps_part_each) (simp add: keeps_part_def suspect_learns_nothing)

lemma active_each:
  "keeps_part hm_active (each_res (learn_share b) xs)" "keeps_part hm_bidirectional (each_res (learn_share b) xs)"
  by (intro keeps_part_each, simp add: keeps_part_def learn_share_same)+

lemma shares_collapsed:
  assumes "k \<in> set (hm_active s)" "collapsed_in d (pv_keys s) k"
  shows "learned (snd (record_dc_shares d s)) = learned s"
proof -
  obtain x where x: "(k, x) \<in> set (poll_shares d (pv_keys s))" "flt x DC_SHARE_COLLAPSE_FLOOR"
    using assms(2) by (auto simp: collapsed_in_def)
  then obtain ps where p1: "positive_powers d (pv_keys s) = Inr ps"
    by (cases "positive_powers d (pv_keys s)") (auto simp: poll_shares_def)
  then obtain shares where p: "positive_powers d (pv_keys s) = Inr ps"
      "share_list ps (py_sum (map snd ps)) = Inr shares" "(k, x) \<in> set shares"
    using x(1) by (cases "share_list ps (py_sum (map snd ps))") (auto simp: poll_shares_def)
  have sus: "P (k, x) \<Longrightarrow> suspect_shares (filter P shares)" for P
    using p(3) x(2) by (auto simp: suspect_shares_def list_ex_iff)
  have l: "learned (s\<lparr>hm_active := a\<rparr>) = learned s" for a by (simp add: learned_def)
  show ?thesis
    using assms(1) by (simp add: record_dc_shares_def p(1,2) Let_def sus keeps_partD [OF suspect_each] l)
qed

lemma shares_active:
  "set (hm_active s) \<subseteq> set (hm_active (snd (record_dc_shares d s)))"
  "hm_bidirectional (snd (record_dc_shares d s)) = hm_bidirectional s"
  by (auto simp: record_dc_shares_def Let_def keeps_partD [OF active_each(1)] keeps_partD [OF active_each(2)]
      split: sum.split)

text \<open>What the learned shares depend on.\<close>

definition share_part :: "health \<Rightarrow> (string \<times> pyfloat list) list \<times> string list \<times> int" where
  "share_part s = (hm_long s, hm_active s, hm_bidirectional s)"

lemma isolation_reading_share: "share_part (snd (record_isolation_reading now c pv st v x s)) = share_part s"
  by (auto simp: record_isolation_reading_def Let_def share_part_def split: sum.split option.split)

lemma record_one_share: "keeps_part share_part (record_one now c pv st d kt)"
proof -
  have "share_part (hm_record now n x s) = share_part s" for n x s by (simp add: share_part_def)
  moreover have "\<exists>q. record_isolation_reading now c pv st v x s = (q, t) \<Longrightarrow> share_part t = share_part s" for v x s t
    using isolation_reading_share [of now c pv st v x s] by auto
  ultimately show ?thesis
    by (cases kt) (force simp: keeps_part_def record_one_def sbind_def Let_def split: sum.split prod.split)
qed

lemma update_shares:
  "\<exists>t. share_part t = share_part s \<and>
    (snd (update_health d c now s) = t \<or> snd (update_health d c now s) = snd (record_dc_shares d t))"
proof -
  have k1: "keeps_part share_part (apply_grid_profile d now)"
    by (rule profile_keeps) (simp_all add: share_part_def track_state_same)
  have k2: "keeps_part share_part (each_res (record_one now c pv st d) reading_trackers)" for pv st
    by (intro keeps_part_each record_one_share)
  have k0: "share_part (invalidate_isolation_measurement (s\<lparr>hm_polls := hm_polls s + 1\<rparr>)) = share_part s"
    by (simp add: share_part_def invalidate_isolation_measurement_def)
  obtain q1 s1 where p: "apply_grid_profile d now (invalidate_isolation_measurement (s\<lparr>hm_polls := hm_polls s + 1\<rparr>)) = (q1, s1)"
    by fastforce
  have s1: "share_part s1 = share_part s" using keeps_partD [OF k1] k0 p by (metis snd_conv)
  have e: "share_part (snd (each_res (record_one now c pv st d) reading_trackers s1)) = share_part s" for pv st
    using keeps_partD [OF k2, of pv st s1] s1 by simp
  have "snd (update_health d c now s) = s1 \<or> (\<exists>pv st. snd (update_health d c now s) =
      snd (sbind (each_res (record_one now c pv st d) reading_trackers) (\<lambda>_. record_dc_shares d) s1))"
    using p by (auto simp: update_health_def sbind_def split: sum.split intro!: exI)
  then consider "snd (update_health d c now s) = s1" | pv st where "snd (update_health d c now s) =
      snd (sbind (each_res (record_one now c pv st d) reading_trackers) (\<lambda>_. record_dc_shares d) s1)"
    by blast
  then show ?thesis
  proof cases
    case 1
    then show ?thesis using s1 by blast
  next
    case (2 pv st)
    obtain q s2 where "each_res (record_one now c pv st d) reading_trackers s1 = (q, s2)" by fastforce
    then show ?thesis using 2 e [of pv st] by (cases q) (auto simp: sbind_def)
  qed
qed

definition health_run :: "((string \<times> pyval) list \<times> bool \<times> pyfloat) list \<Rightarrow> health \<Rightarrow> health" where
  "health_run polls s = foldl (\<lambda>s (d, c, now). snd (update_health d c now s)) s polls"

text \<open>C22: A string that has died never becomes the learned normal: while an input that has produced is
  below two percent of the power in every poll, the learned shares of all strings stay as they
  were, for any number of polls.\<close>

theorem dead_string_is_not_learned:
  "k \<in> set (hm_active s) \<Longrightarrow> \<forall>(d, c, now) \<in> set polls. collapsed_in d (pv_keys s) k \<Longrightarrow>
   learned (health_run polls s) = learned s"
proof (induction polls arbitrary: s)
  case (Cons p polls)
  obtain d c now where p: "p = (d, c, now)" by (metis prod_cases3)
  let ?s = "snd (update_health d c now s)"
  obtain t where t: "share_part t = share_part s" "?s = t \<or> ?s = snd (record_dc_shares d t)"
    using update_shares by blast
  have a: "k \<in> set (hm_active t)" "pv_keys t = pv_keys s" "learned t = learned s" "hm_bidirectional t = hm_bidirectional s"
    using t(1) Cons.prems(1) by (simp_all add: share_part_def pv_keys_def learned_def)
  have "collapsed_in d (pv_keys t) k" using Cons.prems(2) a(2) p by simp
  then have "learned ?s = learned s" using t(2) a(1,3) shares_collapsed [of k t d] by auto
  moreover have "k \<in> set (hm_active ?s)" "hm_bidirectional ?s = hm_bidirectional s"
    using t(2) a(1,4) shares_active [where s = t and d = d] by auto
  moreover from this(2) have "pv_keys ?s = pv_keys s" by (simp add: pv_keys_def)
  ultimately have s: "k \<in> set (hm_active ?s)" "pv_keys ?s = pv_keys s" "learned ?s = learned s" by blast+
  have "learned (health_run polls ?s) = learned ?s"
    using Cons.prems(2) s(1) by (intro Cons.IH) (auto simp: s(2))
  then show ?case by (simp add: health_run_def p s(3))
qed (simp add: health_run_def)

text \<open>Two strings of which the second has died.\<close>

definition dead_readings :: "(string \<times> pyval) list" where
  "dead_readings = [(''dc1_power'', VInt 1000), (''dc2_power'', VInt 0)]"

definition two_strings :: health where
  "two_strings = (health_new 1 720)\<lparr>hm_active := [''dc1_power'', ''dc2_power'']\<rparr>"

lemma mk_float_pos:
  assumes "pow2 k \<le> x" "- 1022 \<le> k"
  shows "flt (FFin 0) (mk_float n x)"
proof -
  have "round_to 53 (- 1022) (pow2 k) = pow2 k"
    using assms(2) by (intro round_to_exact [where m = 1 and e = k]) simp_all
  then have "pow2 k \<le> round_to 53 (- 1022) x" using round_to_mono [OF assms(1), of 53 "- 1022"] by simp
  then have "0 < round_to 53 (- 1022) x" using pow2_pos [of k] by linarith
  moreover have "(0 :: rat) < pow2 1024" by (rule pow2_pos)
  ultimately show ?thesis by (auto simp: mk_float_def Let_def)
qed

lemma collapse_floor_pos: "flt (FFin 0) DC_SHARE_COLLAPSE_FLOOR"
  unfolding DC_SHARE_COLLAPSE_FLOOR_def by (rule mk_float_pos [of "- 6"]) (simp_all add: pow2_def)

lemma dead_collapsed: "collapsed_in dead_readings [''dc1_power'', ''dc2_power''] ''dc2_power''"
proof -
  have f: "mk_float False 1000 = FFin 1000" using mk_float_of_int [of 1000] by simp
  have r: "reading dead_readings ''dc1_power'' = VInt 1000" "reading dead_readings ''dc2_power'' = VInt 0"
    by (simp_all add: reading_def dead_readings_def)
  have m: "float_of_int 1000 = Inr (FFin 1000)" "float_of_int 0 = Inr (FFin 0)"
    using f mk_float_of_int [of 0] by (simp_all add: float_of_int_def is_inf_def Let_def)
  have p: "positive_powers dead_readings [''dc1_power'', ''dc2_power''] = Inr [(''dc1_power'', FFin 1000), (''dc2_power'', FFin 0)]"
    by (simp add: r m safe_float_def py_max_def)
  have "fdiv (FFin 0) (FFin 1000) = Inr (FFin 0)"
    using mk_float_of_int [of 0] by (simp_all add: fdiv_def Let_def is_inf_def is_nan_def)
  moreover have "py_sum [FFin 1000, FFin 0] = FFin 1000"
    using f mk_float_of_int [of 0] by (simp add: py_sum_def fsub_def Let_def fle_def)
  ultimately have "poll_shares dead_readings [''dc1_power'', ''dc2_power''] = [(''dc1_power'', x), (''dc2_power'', FFin 0)]"
    if "fdiv (FFin 1000) (FFin 1000) = Inr x" for x
    using that by (simp add: poll_shares_def p del: positive_powers.simps)
  moreover obtain x where "fdiv (FFin 1000) (FFin 1000) = Inr x" using fdiv_pos [of 1000] by auto
  ultimately show ?thesis using collapse_floor_pos by (auto simp: collapsed_in_def)
qed

theorem dead_string_is_not_learned_witness:
  "learned (health_run [(dead_readings, True, FFin 10), (dead_readings, True, FFin 20)] two_strings) = learned two_strings"
  by (rule dead_string_is_not_learned [where k = "''dc2_power''"])
     (simp_all add: two_strings_def health_new_def pv_keys_def dead_collapsed)

section \<open>What is lost\<close>

lemma mk_float_int: "\<bar>n\<bar> < 2 ^ 53 \<Longrightarrow> n \<noteq> 0 \<Longrightarrow> mk_float neg (of_int n) = FFin (of_int n)"
  using mk_float_of_int [of n] by (auto simp: mk_float_def Let_def split: if_splits)

text \<open>A single tracker at the info level hides the warning for any rate of errors.\<close>

lemma info_hides_error_rate:
  assumes "t \<in> set (map snd (hm_trackers s))" "pt_level t = Info"
    and "\<forall>t \<in> set (map snd (hm_trackers s)). pt_level t \<noteq> Critical \<and> pt_level t \<noteq> Warning"
  shows "overall_health now s = Info"
proof -
  have "pt_current t \<noteq> None" using assms(2) by (cases "pt_current t") (simp_all add: pt_level_def)
  then have t: "t \<in> set (filter (\<lambda>t. pt_current t \<noteq> None) (map snd (hm_trackers s)))" (is "_ \<in> set ?ts")
    using assms(1) by simp
  then have "Info \<in> set (map pt_level ?ts)" using assms(2) by (metis imageI set_map)
  moreover have "Critical \<notin> set (map pt_level ?ts)" "Warning \<notin> set (map pt_level ?ts)" using assms(3) by auto
  moreover have "map pt_level ?ts \<noteq> []" using t by (metis emptyE empty_set map_is_Nil_conv)
  ultimately show ?thesis unfolding overall_health_def Let_def by simp
qed

text \<open>Errors are counted as failed polls but not as polls, so the reliability can fall below zero.\<close>

lemma reliability_below_zero:
  "communication_reliability (record_error c t (record_error c u ((health_new 0 720)\<lparr>hm_polls := 1\<rparr>))) = Inr (FFin (- 100))"
  using mk_float_int [of "-1" True] mk_float_int [of "-100" True]
  by (simp add: communication_reliability_def record_error_def health_new_def fdiv_def fmul_def Let_def is_inf_def is_nan_def)

text \<open>A reading during production.\<close>

definition day_readings :: "(string \<times> pyval) list" where
  "day_readings = [(''isolation_resistance'', VInt 200000), (''total_dc_power'', VInt 500)]"

lemma day_reading: "reading day_readings k = (if k = ''isolation_resistance'' then VInt 200000
    else if k = ''total_dc_power'' then VInt 500 else VNone)"
  by (simp add: reading_def day_readings_def)

lemma day_floats:
  "float_of_val (VInt 200000) = Inr (FFin 200000)" "float_of_val (VInt 500) = Inr (FFin 500)"
  using mk_float_int [of 200000 False] mk_float_int [of 500 False]
  by (simp_all add: float_of_int_def is_inf_def Let_def)

lemma day_live: "get_isolation_resistance_ohm (snd (update_health day_readings True (FFin 10) (health_new 1 720))) = Some (FFin 200000)"
proof -
  have sf: "safe_float VNone = Inr None" "safe_float (VInt 500) = Inr (Some (FFin 500))"
    by (simp_all add: safe_float_def caught_conv_def day_floats del: float_of_val.simps(3))
  let ?s0 = "invalidate_isolation_measurement ((health_new 1 720)\<lparr>hm_polls := hm_polls (health_new 1 720) + 1\<rparr>)"
  have "fst (apply_grid_profile day_readings (FFin 10) s) = Inr ()" for s :: health
    by (simp add: apply_grid_profile_def sbind_def sf day_reading nominal_voltage_def track_state_def)
  then obtain s1 where p: "apply_grid_profile day_readings (FFin 10) ?s0 = (Inr (), s1)" by (metis prod.collapse)
  have o': "record_one now c pv st day_readings kt s = (Inr (), s)" if "kt \<in> set (tl reading_trackers)" for now c pv st kt s
    using that by (auto simp: reading_trackers_def record_one_def day_reading)
  have each: "each_res (record_one now c pv st day_readings) kts s = (Inr (), s)" if "set kts \<subseteq> set (tl reading_trackers)"
    for now c pv st kts s
    using that by (induction kts) (simp_all add: o' sbind_def)
  have i: "record_one (FFin 10) True True None day_readings (''isolation_resistance'', ''isolation_resistance'') s =
      (Inr (), hm_record (FFin 10) ''isolation_resistance'' (FFin 200000)
        (s\<lparr>hm_iso_raw := Some (FFin 200000), hm_iso_off_scale := False, hm_iso_unavailable := False, hm_iso_origin := ''modbus''\<rparr>))" for s
    by (simp add: record_one_def day_reading sbind_def day_floats record_isolation_reading_def Let_def
        isolation_measurement_expected_def is_isolation_sentinel_ohm_def ISOLATION_SENTINEL_OHM_def
        normalize_isolation_resistance_ohm_def idle_state_def is_nan_def is_inf_def ISOLATION_KOHM_HEURISTIC_MAX_def
        fle_def del: float_of_val.simps(3))
  have rt: "reading_trackers = (''isolation_resistance'', ''isolation_resistance'') # tl reading_trackers"
    by (simp add: reading_trackers_def)
  have "record_dc_shares day_readings s = (Inr (), s)" for s
    by (simp add: record_dc_shares_def pv_keys_def day_reading sf)
  then have "snd (update_health day_readings True (FFin 10) (health_new 1 720)) =
      snd (record_one (FFin 10) True True None day_readings (''isolation_resistance'', ''isolation_resistance'') s1)"
    unfolding update_health_def by (subst rt) (simp add: sbind_def p sf day_reading i each)
  then show ?thesis
    by (simp add: i get_isolation_resistance_ohm_def tracker_of_record pt_current_record)
qed

theorem live_isolation_is_this_polls_witness:
  "\<exists>r s'. update_health day_readings True (FFin 10) (health_new 1 720) = (r, s')
     \<and> get_isolation_resistance_ohm s' = Some (FFin 200000) \<and> live_from day_readings True (FFin 200000)"
  using live_isolation_is_this_polls [OF prod.collapse [symmetric] day_live] day_live
  by (metis prod.collapse)

end
