(* ===== verification/SohCalculator.thy ===== *)
theory SohCalculator
  imports PyStats
begin

text \<open>
  The state-of-health calculator (\<^verbatim>\<open>battery_soh_calculator.py\<close>): the baseline, the samples,
  the derived values, and how the state is saved.

  Saving is a machine of steps between the points where the code waits: the debounced save sleeps,
  takes its snapshot and writes; the shutdown stops the input, waits for the save and flushes.
  The storage file is part of the machine's state; each write may fail. A shutdown that is
  itself cancelled is left out.
\<close>

definition MAX_SAMPLES :: nat where "MAX_SAMPLES = 500"
definition SAMPLE_MIN_INTERVAL_S :: pyfloat where "SAMPLE_MIN_INTERVAL_S = FFin (3 * 3600)"
definition BASELINE_RAISE_DELTA :: pyfloat where "BASELINE_RAISE_DELTA = mk_float False (5 / 1000)"
definition MIN_SAMPLES_FOR_SLOPE :: nat where "MIN_SAMPLES_FOR_SLOPE = 30"
definition MIN_PROJECTION_AGE_S :: pyfloat where "MIN_PROJECTION_AGE_S = FFin (30 * 86400)"
definition SECONDS_PER_YEAR :: pyfloat where "SECONDS_PER_YEAR = FFin (36525 * 864)"
definition MAX_PLAUSIBLE_CAPACITY_WH :: pyfloat where "MAX_PLAUSIBLE_CAPACITY_WH = FFin 10000000"
definition STORE_VERSION :: nat where "STORE_VERSION = 2"

type_synonym soh_sample = "pyfloat \<times> pyfloat \<times> pyfloat"

text \<open>What is stored. A sample that is not a list is \<open>None\<close>; a list of samples that is missing or
  null is \<open>[]\<close>.\<close>

record soh_stored =
  sd_baseline :: pyval
  sd_set_at :: pyval
  sd_samples :: "pyval list option list"

datatype save_task = Sleeping | Cancelling | Writing soh_stored

record soh_calc =
  so_loaded :: bool
  so_task :: "save_task option"
  so_updates :: bool
  so_load_failed :: bool
  so_listener :: bool
  so_stopped :: bool
  so_baseline :: "pyfloat option"
  so_set_at :: "pyfloat option"
  so_current :: "pyfloat option"
  so_cycles :: "pyfloat option"
  so_discharge :: "pyfloat option"
  so_charge :: "pyfloat option"
  so_samples :: "soh_sample list"
  so_last_mono :: pyfloat

definition soh_calc_new :: soh_calc where
  "soh_calc_new = \<lparr>so_loaded = False, so_task = None, so_updates = False, so_load_failed = False, so_listener = False,
     so_stopped = False, so_baseline = None, so_set_at = None, so_current = None, so_cycles = None,
     so_discharge = None, so_charge = None, so_samples = [], so_last_mono = FFin 0\<rparr>"

section \<open>Loading and saving\<close>

definition migrate_soh :: "nat \<Rightarrow> soh_stored \<Rightarrow> soh_stored" where
  "migrate_soh old_major old = (if old_major < 2 then old\<lparr>sd_samples := []\<rparr> else old)"

fun load_samples :: "pyval list option list \<Rightarrow> soh_calc \<Rightarrow> (pyexc + unit) \<times> soh_calc" where
  "load_samples [] s = (Inr (), s)"
| "load_samples (Some [x, y, z] # rest) s =
     (case bind_res (optional_float x) (\<lambda>a. bind_res (optional_float y) (\<lambda>b. bind_res (optional_float z) (\<lambda>c. Inr (a, b, c)))) of
        Inl e \<Rightarrow> (Inl e, s)
      | Inr (Some a, Some b, Some c) \<Rightarrow>
          load_samples rest (s\<lparr>so_samples := deque_append MAX_SAMPLES (a, b, c) (so_samples s)\<rparr>)
      | Inr _ \<Rightarrow> load_samples rest s)"
| "load_samples (_ # rest) s = load_samples rest s"

text \<open>The answer of the store: a failure, nothing, or the stored data.\<close>

definition soh_load :: "unit + soh_stored option \<Rightarrow> soh_calc \<Rightarrow> (pyexc + unit) \<times> soh_calc" where
  "soh_load answer s =
     sbind (case answer of
         Inl _ \<Rightarrow> (\<lambda>s. (Inr (), s\<lparr>so_load_failed := True\<rparr>))
       | Inr None \<Rightarrow> (\<lambda>s. (Inr (), s\<lparr>so_load_failed := False\<rparr>))
       | Inr (Some raw) \<Rightarrow>
           sbind (\<lambda>s. (optional_float (sd_baseline raw), s\<lparr>so_load_failed := False\<rparr>)) (\<lambda>b.
           sbind (\<lambda>s. (optional_float (sd_set_at raw), s\<lparr>so_baseline := b\<rparr>)) (\<lambda>t.
           sbind (\<lambda>s. (Inr (), s\<lparr>so_set_at := t\<rparr>)) (\<lambda>_. load_samples (sd_samples raw)))))
       (\<lambda>_ s. (Inr (), s\<lparr>so_loaded := True\<rparr>)) s"

definition opt_val :: "pyfloat option \<Rightarrow> pyval" where
  "opt_val x = (case x of None \<Rightarrow> VNone | Some f \<Rightarrow> VFloat f)"

definition soh_snapshot :: "soh_calc \<Rightarrow> soh_stored" where
  "soh_snapshot s = \<lparr>sd_baseline = opt_val (so_baseline s), sd_set_at = opt_val (so_set_at s),
     sd_samples = map (\<lambda>(a, b, c). Some [VFloat a, VFloat b, VFloat c]) (so_samples s)\<rparr>"

definition register_stop_listener :: "soh_calc \<Rightarrow> soh_calc" where
  "register_stop_listener s = s\<lparr>so_listener := True\<rparr>"

definition schedule_save :: "soh_calc \<Rightarrow> soh_calc" where
  "schedule_save s =
     (if so_stopped s then s else if so_task s \<noteq> None then s else s\<lparr>so_task := Some Sleeping\<rparr>)"

definition cancel_pending_save :: "soh_calc \<Rightarrow> soh_calc" where
  "cancel_pending_save s = s\<lparr>so_task := (if so_task s = Some Sleeping then Some Cancelling else so_task s),
     so_listener := False\<rparr>"

section \<open>Readings\<close>

definition or_zero :: "pyfloat option \<Rightarrow> pyfloat" where
  "or_zero x = (case x of None \<Rightarrow> FFin 0 | Some v \<Rightarrow> if feq v (FFin 0) then FFin 0 else v)"

definition plausible_capacity :: "pyfloat \<Rightarrow> bool" where
  "plausible_capacity cap \<longleftrightarrow> \<not> fle cap (FFin 0) \<and> \<not> flt MAX_PLAUSIBLE_CAPACITY_WH cap"

definition RAISE_FACTOR :: pyfloat where
  "RAISE_FACTOR = fadd (FFin 1) BASELINE_RAISE_DELTA"

definition raise_baseline :: "pyfloat \<Rightarrow> pyfloat \<Rightarrow> soh_calc \<Rightarrow> bool \<times> soh_calc" where
  "raise_baseline cap now_unix s = (case so_baseline s of
     None \<Rightarrow> (True, s\<lparr>so_baseline := Some cap, so_set_at := Some now_unix\<rparr>)
   | Some b \<Rightarrow> if flt (fmul b RAISE_FACTOR) cap then (True, s\<lparr>so_baseline := Some cap, so_set_at := Some now_unix\<rparr>)
              else (False, s))"

definition take_sample :: "pyfloat \<Rightarrow> pyfloat \<Rightarrow> pyfloat \<Rightarrow> pyfloat \<Rightarrow> soh_calc \<Rightarrow> bool \<times> soh_calc" where
  "take_sample discharge_kwh cap now_unix now_mono s =
     (if feq (so_last_mono s) (FFin 0) \<or> fle SAMPLE_MIN_INTERVAL_S (fsub now_mono (so_last_mono s))
      then (True, s\<lparr>so_samples := deque_append MAX_SAMPLES (discharge_kwh, cap, now_unix) (so_samples s),
                    so_last_mono := now_mono\<rparr>)
      else (False, s))"

definition accept_capacity :: "pyfloat \<Rightarrow> pyfloat \<Rightarrow> pyfloat \<Rightarrow> pyfloat \<Rightarrow> soh_calc \<Rightarrow> (pyexc + bool) \<times> soh_calc" where
  "accept_capacity discharge_kwh cap now_unix now_mono s =
     (let (raised, s1) = raise_baseline cap now_unix s;
          (sampled, s2) = take_sample discharge_kwh cap now_unix now_mono s1
      in (Inr (raised \<or> sampled), if raised \<or> sampled then s2\<lparr>so_updates := True\<rparr> else s2))"

definition update_soh :: "(string \<times> pyval) list \<Rightarrow> pyfloat \<Rightarrow> pyfloat \<Rightarrow> soh_calc \<Rightarrow> (pyexc + bool) \<times> soh_calc" where
  "update_soh d now_unix now_mono s =
     (if so_stopped s then (Inr False, s)
      else case sensor d ''battery_work_capacity'' of
        Inl e \<Rightarrow> (Inl e, s)
      | Inr None \<Rightarrow> (Inr False, s)
      | Inr (Some cap) \<Rightarrow>
          if \<not> plausible_capacity cap then (Inr False, s)
          else sbind (\<lambda>s. (sensor d ''total_dc_charge'', s\<lparr>so_current := Some cap\<rparr>)) (\<lambda>charge.
               sbind (\<lambda>s. (sensor d ''total_dc_discharge'', s)) (\<lambda>discharge.
               sbind (\<lambda>s. (fdiv (or_zero discharge) (FFin 1000), s)) (\<lambda>discharge_kwh.
               sbind (\<lambda>s. (fdiv (or_zero charge) (FFin 1000), s\<lparr>so_discharge := Some discharge_kwh\<rparr>)) (\<lambda>charge_kwh.
               sbind (\<lambda>s. (sensor d ''battery_cycles'', s\<lparr>so_charge := Some charge_kwh\<rparr>)) (\<lambda>cycles.
               sbind (\<lambda>s. (Inr (), case cycles of None \<Rightarrow> s | Some c \<Rightarrow> s\<lparr>so_cycles := Some c\<rparr>)) (\<lambda>_.
               accept_capacity discharge_kwh cap now_unix now_mono)))))) s)"

section \<open>Derived values\<close>

definition total_throughput_kwh :: "soh_calc \<Rightarrow> pyfloat option" where
  "total_throughput_kwh s = (case (so_charge s, so_discharge s) of
     (Some c, Some d) \<Rightarrow> Some (fadd c d) | _ \<Rightarrow> None)"

definition baseline_age_days :: "pyfloat \<Rightarrow> soh_calc \<Rightarrow> pyexc + pyfloat option" where
  "baseline_age_days now s = (case so_set_at s of
     None \<Rightarrow> Inr None | Some t \<Rightarrow> bind_res (fdiv (fsub now t) (FFin 86400)) (\<lambda>q. Inr (Some q)))"

definition soh_pct :: "soh_calc \<Rightarrow> pyexc + pyfloat option" where
  "soh_pct s = (case (so_baseline s, so_current s) of
     (Some base, Some cur) \<Rightarrow>
       if fle base (FFin 0) then Inr None
       else bind_res (fdiv cur base) (\<lambda>q. Inr (Some (fmul q (FFin 100))))
   | _ \<Rightarrow> Inr None)"

definition has_min_window :: "soh_calc \<Rightarrow> bool" where
  "has_min_window s =
     (if length (so_samples s) < 2 then False
      else fle MIN_PROJECTION_AGE_S (fsub (snd (snd (last (so_samples s)))) (snd (snd (hd (so_samples s))))))"

definition projection_reliable :: "soh_calc \<Rightarrow> bool" where
  "projection_reliable s \<longleftrightarrow> MIN_SAMPLES_FOR_SLOPE \<le> length (so_samples s) \<and> has_min_window s"

definition degradation_per_kwh :: "soh_calc \<Rightarrow> pyexc + pyfloat option" where
  "degradation_per_kwh s =
     (if length (so_samples s) < MIN_SAMPLES_FOR_SLOPE then Inr None
      else if \<not> has_min_window s then Inr None
      else let n = FFin (of_nat (length (so_samples s)));
               sx = py_sum (map fst (so_samples s));
               sy = py_sum (map (\<lambda>(x, y, t). y) (so_samples s));
               sxx = py_sum (map (\<lambda>(x, y, t). fmul x x) (so_samples s));
               sxy = py_sum (map (\<lambda>(x, y, t). fmul x y) (so_samples s));
               denom = fsub (fmul n sxx) (fmul sx sx)
           in if feq denom (FFin 0) then Inr None
              else bind_res (fdiv (fsub (fmul n sxy) (fmul sx sy)) denom) (\<lambda>q. Inr (Some q)))"

definition annual_throughput_kwh :: "soh_calc \<Rightarrow> pyexc + pyfloat option" where
  "annual_throughput_kwh s =
     (if length (so_samples s) < 2 then Inr None
      else let first = hd (so_samples s); newest = last (so_samples s);
               d_kwh = fsub (fst newest) (fst first); d_sec = fsub (snd (snd newest)) (snd (snd first))
           in if fle d_sec (FFin 0) then Inr None
              else bind_res (fdiv d_kwh d_sec) (\<lambda>q. Inr (Some (fmul q SECONDS_PER_YEAR))))"

definition soh_projection_5y_pct :: "soh_calc \<Rightarrow> pyexc + pyfloat option" where
  "soh_projection_5y_pct s =
     bind_res (degradation_per_kwh s) (\<lambda>slope.
     bind_res (annual_throughput_kwh s) (\<lambda>annual.
     case (slope, annual, so_current s, so_baseline s) of
       (Some m, Some a, Some cur, Some base) \<Rightarrow>
         if fle base (FFin 0) then Inr None
         else if fle (FFin 0) m then soh_pct s
         else let lost = fmul (fneg m) (fmul a (FFin 5)); projected = py_max (FFin 0) (fsub cur lost)
              in bind_res (fdiv projected base) (\<lambda>q. Inr (Some (fmul q (FFin 100))))
     | _ \<Rightarrow> Inr None))"

section \<open>The machine of saves\<close>

datatype shutdown_phase = Running | Draining | Flushing soh_stored | Finished "bool option"

record soh_system =
  sy_calc :: soh_calc
  sy_file :: "soh_stored option"
  sy_phase :: shutdown_phase

datatype soh_event =
    SohReading "(string \<times> pyval) list" pyfloat pyfloat
  | SohWake | SohWritten bool | SohCancelled
  | SohShutdown bool | SohDrain | SohFlushed bool

text \<open>The sleeping save wakes: it takes its snapshot, unless the storage could not be read.\<close>

definition save_wake :: "soh_calc \<Rightarrow> soh_calc" where
  "save_wake s = (if so_task s = Some Sleeping
     then s\<lparr>so_task := (if so_load_failed s then None else Some (Writing (soh_snapshot s)))\<rparr> else s)"

definition shutdown_begin :: "bool \<Rightarrow> soh_calc \<Rightarrow> soh_calc" where
  "shutdown_begin from_event s = cancel_pending_save (s\<lparr>so_stopped := True,
     so_listener := (if from_event then False else so_listener s)\<rparr>)"

fun soh_machine :: "soh_event \<Rightarrow> soh_system \<Rightarrow> soh_system" where
  "soh_machine (SohReading d u m) y = (case update_soh d u m (sy_calc y) of
     (Inr True, s) \<Rightarrow> y\<lparr>sy_calc := schedule_save s\<rparr> | (_, s) \<Rightarrow> y\<lparr>sy_calc := s\<rparr>)"
| "soh_machine SohWake y = y\<lparr>sy_calc := save_wake (sy_calc y)\<rparr>"
| "soh_machine (SohWritten ok) y = (case so_task (sy_calc y) of
     Some (Writing snap) \<Rightarrow> y\<lparr>sy_calc := (sy_calc y)\<lparr>so_task := None\<rparr>, sy_file := (if ok then Some snap else sy_file y)\<rparr>
   | _ \<Rightarrow> y)"
| "soh_machine SohCancelled y =
     (if so_task (sy_calc y) = Some Cancelling then y\<lparr>sy_calc := (sy_calc y)\<lparr>so_task := None\<rparr>\<rparr> else y)"
| "soh_machine (SohShutdown from_event) y =
     (if sy_phase y = Running \<and> \<not> so_stopped (sy_calc y)
      then y\<lparr>sy_calc := shutdown_begin from_event (sy_calc y), sy_phase := Draining\<rparr> else y)"
| "soh_machine SohDrain y =
     (if sy_phase y = Draining \<and> so_task (sy_calc y) = None
      then y\<lparr>sy_phase := (if so_updates (sy_calc y) \<and> \<not> so_load_failed (sy_calc y)
                          then Flushing (soh_snapshot (sy_calc y)) else Finished None)\<rparr> else y)"
| "soh_machine (SohFlushed ok) y = (case sy_phase y of
     Flushing snap \<Rightarrow> y\<lparr>sy_file := (if ok then Some snap else sy_file y), sy_phase := Finished (Some ok)\<rparr>
   | _ \<Rightarrow> y)"

end
