(* ===== verification/SohCalcProofs.thy ===== *)
theory SohCalcProofs
  imports SohCalculator
begin

text \<open>
  The state-of-health calculator over runs of readings, saves and the shutdown: what is on disk in
  the end, what a restart finds there, and the baseline.
\<close>

section \<open>The shutdown\<close>

lemma update_stopped: "so_stopped s \<Longrightarrow> update_soh d u m s = (Inr False, s)"
  by (simp add: update_soh_def)

lemma update_keeps_control:
  "so_stopped (snd (update_soh d u m s)) = so_stopped s \<and> so_load_failed (snd (update_soh d u m s)) = so_load_failed s
   \<and> so_task (snd (update_soh d u m s)) = so_task s"
  by (auto simp: update_soh_def sbind_def accept_capacity_def raise_baseline_def take_sample_def split_beta Let_def
      split: sum.split option.split)

lemma snapshot_task [simp]: "soh_snapshot (s\<lparr>so_task := t\<rparr>) = soh_snapshot s"
  by (simp add: soh_snapshot_def)

definition shutdown_inv :: "soh_system \<Rightarrow> bool" where
  "shutdown_inv y \<longleftrightarrow> (case sy_phase y of
     Running \<Rightarrow> \<not> so_stopped (sy_calc y)
   | Draining \<Rightarrow> so_stopped (sy_calc y)
   | Flushing snap \<Rightarrow> so_stopped (sy_calc y) \<and> so_task (sy_calc y) = None \<and> snap = soh_snapshot (sy_calc y)
   | Finished None \<Rightarrow> so_stopped (sy_calc y) \<and> so_task (sy_calc y) = None \<and> (\<not> so_updates (sy_calc y) \<or> so_load_failed (sy_calc y))
   | Finished (Some ok) \<Rightarrow> so_stopped (sy_calc y) \<and> so_task (sy_calc y) = None
       \<and> (ok \<longrightarrow> sy_file y = Some (soh_snapshot (sy_calc y))))"

lemma shutdown_step: "shutdown_inv y \<Longrightarrow> shutdown_inv (soh_machine e y)"
proof (cases e)
  case (SohReading d u m)
  assume i: "shutdown_inv y"
  show ?thesis
  proof (cases "so_stopped (sy_calc y)")
    case True
    then show ?thesis using i SohReading by (simp add: update_stopped)
  next
    case False
    then have "sy_phase y = Running" using i by (auto simp: shutdown_inv_def split: shutdown_phase.splits option.splits)
    moreover obtain r s where "update_soh d u m (sy_calc y) = (r, s)" by fastforce
    ultimately show ?thesis
      using i SohReading update_keeps_control [of d u m "sy_calc y"]
      by (auto simp: shutdown_inv_def schedule_save_def split: sum.split bool.split)
  qed
next
  case SohWake
  assume "shutdown_inv y"
  then show ?thesis using SohWake
    by (auto simp: shutdown_inv_def save_wake_def split: shutdown_phase.splits option.splits)
next
  case (SohWritten ok)
  assume "shutdown_inv y"
  then show ?thesis using SohWritten
    by (auto simp: shutdown_inv_def split: shutdown_phase.splits option.splits save_task.splits)
next
  case SohCancelled
  assume "shutdown_inv y"
  then show ?thesis using SohCancelled
    by (auto simp: shutdown_inv_def split: shutdown_phase.splits option.splits)
next
  case (SohShutdown b)
  assume "shutdown_inv y"
  then show ?thesis using SohShutdown
    by (auto simp: shutdown_inv_def shutdown_begin_def cancel_pending_save_def split: shutdown_phase.splits)
next
  case SohDrain
  assume "shutdown_inv y"
  then show ?thesis using SohDrain by (auto simp: shutdown_inv_def split: shutdown_phase.splits)
next
  case (SohFlushed ok)
  assume "shutdown_inv y"
  then show ?thesis using SohFlushed by (auto simp: shutdown_inv_def split: shutdown_phase.splits)
qed

definition soh_run :: "soh_event list \<Rightarrow> soh_system \<Rightarrow> soh_system" where
  "soh_run es y = foldl (\<lambda>y e. soh_machine e y) y es"

lemma shutdown_run: "shutdown_inv y \<Longrightarrow> shutdown_inv (soh_run es y)"
  unfolding soh_run_def by (induction es arbitrary: y) (simp_all add: shutdown_step)

section \<open>What a restart finds\<close>

definition wf_readings :: "(string \<times> pyval) list \<Rightarrow> bool" where
  "wf_readings d \<longleftrightarrow> (\<forall>(k, v) \<in> set d. case v of VFloat x \<Rightarrow> wf_float x | _ \<Rightarrow> True)"

lemma double_01: "is_double 0" "is_double 1"
  using pow2_mono [of 0 1024] pow2_nat [of 0] round_to_of_int [of 1 53 "- 1022"] pow2_pos [of 1024]
    pow2_strict_mono [of 0 1024]
  by (auto simp: is_double_def)

lemma wf_float_of_val: "(case v of VFloat x \<Rightarrow> wf_float x | _ \<Rightarrow> True) \<Longrightarrow> float_of_val v = Inr x \<Longrightarrow> wf_float x"
  by (cases v) (auto simp: float_of_int_def float_of_str_def Let_def wf_mk_float double_01
      split: if_splits option.splits prod.splits)

lemma wf_sensor:
  assumes "wf_readings d" "sensor d k = Inr (Some x)"
  shows "wf_float x"
proof (cases "map_of d k")
  case None
  then show ?thesis using assms(2) by (simp add: sensor_def reading_def optional_float_def)
next
  case (Some v)
  then have "case v of VFloat x \<Rightarrow> wf_float x | _ \<Rightarrow> True"
    using assms(1) map_of_SomeD [OF Some] by (auto simp: wf_readings_def)
  moreover have "float_of_val v = Inr x"
    using assms(2) Some by (auto simp: sensor_def reading_def optional_float_def split: if_splits sum.splits)
  ultimately show ?thesis by (rule wf_float_of_val)
qed

lemma finite_wf_bound: "wf_float x \<Longrightarrow> is_finite x \<Longrightarrow> round_to 53 (- 1022) (frat x) = frat x \<and> \<bar>frat x\<bar> < pow2 1024"
  by (cases x) (auto simp: is_double_def pow2_pos)

lemma mk_float_finite: "\<bar>r\<bar> \<le> \<bar>q\<bar> \<Longrightarrow> round_to 53 (- 1022) q = q \<Longrightarrow> \<bar>q\<bar> < pow2 1024 \<Longrightarrow> is_finite (mk_float n r)"
proof -
  assume h: "\<bar>r\<bar> \<le> \<bar>q\<bar>" "round_to 53 (- 1022) q = q" "\<bar>q\<bar> < pow2 1024"
  have a: "round_to 53 (- 1022) \<bar>q\<bar> = \<bar>q\<bar>" using h(2) by (simp add: abs_if round_to_minus)
  have "round_to 53 (- 1022) r \<le> round_to 53 (- 1022) \<bar>q\<bar>" by (rule round_to_mono) (use h(1) in auto)
  moreover have "round_to 53 (- 1022) (- \<bar>q\<bar>) \<le> round_to 53 (- 1022) r" by (rule round_to_mono) (use h(1) in auto)
  ultimately have "\<bar>round_to 53 (- 1022) r\<bar> < pow2 1024" using a h(3) by (simp add: round_to_minus)
  then show ?thesis by (auto simp: mk_float_def Let_def)
qed

lemma thousandth_finite:
  assumes "wf_float x" "is_finite x" "fdiv x (FFin 1000) = Inr q"
  shows "is_finite q"
proof -
  have "q = mk_float (fsign x \<noteq> False) (frat x / 1000)"
    using assms by (cases x) (auto simp: fdiv_def Let_def is_nan_def is_inf_def)
  moreover have "\<bar>frat x / 1000\<bar> \<le> \<bar>frat x\<bar>" by simp
  ultimately show ?thesis using mk_float_finite finite_wf_bound [OF assms(1,2)] by blast
qed

definition finite_calc :: "soh_calc \<Rightarrow> bool" where
  "finite_calc s \<longleftrightarrow> (\<forall>b. so_baseline s = Some b \<longrightarrow> is_finite b) \<and> (\<forall>t. so_set_at s = Some t \<longrightarrow> is_finite t)
     \<and> (\<forall>(a, b, c) \<in> set (so_samples s). is_finite a \<and> is_finite b \<and> is_finite c) \<and> length (so_samples s) \<le> MAX_SAMPLES"

lemma finite_calc_append:
  "finite_calc s \<Longrightarrow> is_finite a \<Longrightarrow> is_finite b \<Longrightarrow> is_finite c \<Longrightarrow>
   finite_calc (s\<lparr>so_samples := deque_append MAX_SAMPLES (a, b, c) (so_samples s), so_last_mono := z\<rparr>)"
  using set_deque_append [of MAX_SAMPLES "(a, b, c)" "so_samples s"]
  by (fastforce simp: finite_calc_def deque_append_def)

lemma finite_calc_cong:
  "so_baseline s = so_baseline t \<Longrightarrow> so_set_at s = so_set_at t \<Longrightarrow> so_samples s = so_samples t \<Longrightarrow> finite_calc s = finite_calc t"
  by (simp add: finite_calc_def)

lemma accept_finite:
  assumes "finite_calc s" "is_finite k" "is_finite cap" "is_finite u"
  shows "finite_calc (snd (accept_capacity k cap u m s))"
proof -
  have r: "finite_calc (snd (raise_baseline cap u s))"
    using assms by (auto simp: raise_baseline_def finite_calc_def split: option.split)
  have t: "finite_calc (snd (take_sample k cap u m s1))" if "finite_calc s1" for s1
    using finite_calc_append [OF that assms(2-4)] that by (simp add: take_sample_def)
  have c: "finite_calc (s2\<lparr>so_updates := True\<rparr>) = finite_calc s2" for s2 by (rule finite_calc_cong) simp_all
  show ?thesis using t [OF r] by (auto simp: accept_capacity_def split_beta Let_def c)
qed

lemma or_zero_ok: "(\<And>x. z = Some x \<Longrightarrow> wf_float x \<and> is_finite x) \<Longrightarrow> wf_float (or_zero z) \<and> is_finite (or_zero z)"
  by (cases z) (auto simp: or_zero_def double_01)

lemma update_finite:
  assumes "finite_calc s" "wf_readings d" "is_finite u"
  shows "finite_calc (snd (update_soh d u m s))"
proof -
  have k: "is_finite q" if "sensor d n = Inr z" "fdiv (or_zero z) (FFin 1000) = Inr q" for n z q
    using thousandth_finite [OF _ _ that(2)] or_zero_ok [of z] wf_sensor [OF assms(2), of n] sensor_finite [of d n] that(1)
    by auto
  have c: "finite_calc (t\<lparr>so_current := x\<rparr>) = finite_calc t" "finite_calc (t\<lparr>so_discharge := x\<rparr>) = finite_calc t"
    "finite_calc (t\<lparr>so_charge := x\<rparr>) = finite_calc t" "finite_calc (t\<lparr>so_cycles := x\<rparr>) = finite_calc t" for t x
    by (simp_all add: finite_calc_def)
  show ?thesis
    using assms k sensor_finite [of d "''battery_work_capacity''"]
    by (auto simp: update_soh_def sbind_def c intro!: accept_finite split: sum.split option.split)
qed

lemma machine_finite:
  assumes "finite_calc (sy_calc y)" "\<And>d u m. e = SohReading d u m \<Longrightarrow> wf_readings d \<and> is_finite u"
  shows "finite_calc (sy_calc (soh_machine e y))"
proof -
  have c: "finite_calc (t\<lparr>so_task := x\<rparr>) = finite_calc t" for t x by (simp add: finite_calc_def)
  show ?thesis
  proof (cases e)
    case (SohReading d u m)
    obtain r s where u: "update_soh d u m (sy_calc y) = (r, s)" by fastforce
    then have "finite_calc s" using update_finite [OF assms(1), of d u m] assms(2) SohReading by simp
    then show ?thesis using u SohReading by (auto simp: schedule_save_def c split: sum.split bool.split)
  qed (use assms(1) in \<open>auto simp: save_wake_def shutdown_begin_def cancel_pending_save_def c finite_calc_def
      split: option.split save_task.split shutdown_phase.split\<close>)
qed

definition good_events :: "soh_event list \<Rightarrow> bool" where
  "good_events es \<longleftrightarrow> (\<forall>e \<in> set es. case e of SohReading d u m \<Rightarrow> wf_readings d \<and> is_finite u | _ \<Rightarrow> True)"

lemma run_finite: "finite_calc (sy_calc y) \<Longrightarrow> good_events es \<Longrightarrow> finite_calc (sy_calc (soh_run es y))"
  unfolding soh_run_def
proof (induction es arbitrary: y)
  case (Cons e es)
  have "finite_calc (sy_calc (soh_machine e y))"
    using Cons.prems by (intro machine_finite) (auto simp: good_events_def)
  then show ?case using Cons.IH Cons.prems(2) by (simp add: good_events_def)
qed simp

lemma optional_float_finite_val: "is_finite x \<Longrightarrow> optional_float (VFloat x) = Inr (Some x)"
  by (cases x) (simp_all add: optional_float_def is_nan_def is_inf_def)

lemma load_samples_snapshot:
  "\<forall>(a, b, c) \<in> set xs. is_finite a \<and> is_finite b \<and> is_finite c \<Longrightarrow> length (so_samples s) + length xs \<le> MAX_SAMPLES \<Longrightarrow>
   load_samples (map (\<lambda>(a, b, c). Some [VFloat a, VFloat b, VFloat c]) xs) s
     = (Inr (), s\<lparr>so_samples := so_samples s @ xs\<rparr>)"
proof (induction xs arbitrary: s)
  case (Cons x xs)
  obtain a b c where x: "x = (a, b, c)" by (metis prod_cases3)
  then show ?case using Cons by (simp add: optional_float_finite_val deque_append_keeps)
qed simp

lemma load_snapshot:
  assumes "finite_calc s"
  shows "soh_load (Inr (Some (soh_snapshot s))) soh_calc_new =
    (Inr (), soh_calc_new\<lparr>so_loaded := True, so_baseline := so_baseline s, so_set_at := so_set_at s, so_samples := so_samples s\<rparr>)"
proof -
  have o': "optional_float (opt_val z) = Inr z" if "\<And>x. z = Some x \<Longrightarrow> is_finite x" for z
    using that by (cases z) (simp_all add: opt_val_def optional_float_finite_val, simp add: optional_float_def)
  have "length (so_samples t) + length (so_samples s) \<le> MAX_SAMPLES" if "so_samples t = []" for t
    using assms that by (simp add: finite_calc_def)
  then show ?thesis
    using assms by (simp add: soh_load_def soh_snapshot_def sbind_def o' load_samples_snapshot finite_calc_def soh_calc_new_def)
qed

text \<open>C16: A shutdown loses nothing: whatever readings, saves and failures come before and in between, when
  the last write of the shutdown succeeds a new calculator that loads the file has the baseline,
  its date and the samples the old one had, and a shutdown without a last write had nothing new.\<close>

theorem shutdown_is_durable:
  "\<not> so_stopped c \<Longrightarrow> finite_calc c \<Longrightarrow> good_events es \<Longrightarrow>
   soh_run es \<lparr>sy_calc = c, sy_file = f, sy_phase = Running\<rparr> = y \<Longrightarrow>
   (sy_phase y = Finished (Some True) \<longrightarrow> soh_load (Inr (sy_file y)) soh_calc_new =
      (Inr (), soh_calc_new\<lparr>so_loaded := True, so_baseline := so_baseline (sy_calc y),
         so_set_at := so_set_at (sy_calc y), so_samples := so_samples (sy_calc y)\<rparr>))
   \<and> (sy_phase y = Finished None \<longrightarrow> \<not> so_updates (sy_calc y) \<or> so_load_failed (sy_calc y))"
proof -
  assume h: "\<not> so_stopped c" "finite_calc c" "good_events es"
    and r: "soh_run es \<lparr>sy_calc = c, sy_file = f, sy_phase = Running\<rparr> = y"
  have i: "shutdown_inv y" using shutdown_run [of "\<lparr>sy_calc = c, sy_file = f, sy_phase = Running\<rparr>" es] h(1) r
    by (simp add: shutdown_inv_def)
  have "finite_calc (sy_calc y)" using run_finite [of "\<lparr>sy_calc = c, sy_file = f, sy_phase = Running\<rparr>" es] h(2,3) r by simp
  then show ?thesis using i load_snapshot by (auto simp: shutdown_inv_def)
qed

section \<open>The baseline\<close>

lemma mk_float_between:
  assumes "of_int a \<le> r" "r \<le> of_int b" "0 \<le> a" "0 < r" "b < 2 ^ 53" "pow2 (- 8) \<le> r"
  shows "\<exists>q. mk_float n r = FFin q \<and> of_int a \<le> q \<and> q \<le> of_int b \<and> 0 < q"
proof -
  let ?f = "round_to 53 (- 1022)"
  have ab: "0 \<le> b" using assms(2,4) by (metis less_le_trans of_int_0_less_iff order_less_imp_le)
  have "(of_int a :: rat) \<le> of_int b" using assms(1,2) by linarith
  then have "\<bar>a\<bar> < 2 ^ 53" "\<bar>b\<bar> < 2 ^ 53" using assms(3,5) ab by simp_all
  then have e: "?f (of_int a) = of_int a" "?f (of_int b) = of_int b" by (simp_all add: round_to_of_int)
  have "?f (pow2 (- 8)) = pow2 (- 8)" by (intro round_to_exact [where m = 1 and e = "- 8"]) simp_all
  moreover have "?f (pow2 (- 8)) \<le> ?f r" by (rule round_to_mono [OF assms(6)]) simp
  ultimately have p: "0 < ?f r" using pow2_pos [of "- 8"] by linarith
  have l: "of_int a \<le> ?f r" "?f r \<le> of_int b"
    using round_to_mono [OF assms(1), of 53 "- 1022"] round_to_mono [OF assms(2), of 53 "- 1022"] e by simp_all
  have "(of_int b :: rat) < of_int (2 ^ 53)" using assms(5) by (simp only: of_int_less_iff)
  also have "\<dots> \<le> pow2 1024" using pow2_mono [of 53 1024] pow2_nat [of 53] by simp
  finally have "?f r < pow2 1024" using l(2) by linarith
  then show ?thesis using p l pow2_pos [of 1024] by (auto simp: mk_float_def Let_def)
qed

lemma raise_factor: "\<exists>f. RAISE_FACTOR = FFin f \<and> 1 \<le> f"
proof -
  have "\<exists>q. mk_float False (5 / 1000) = FFin q \<and> of_int 0 \<le> q \<and> q \<le> of_int 1 \<and> 0 < q"
    by (intro mk_float_between) (simp_all add: pow2_def)
  then obtain q where q: "mk_float False (5 / 1000) = FFin q" "0 \<le> q" "q \<le> 1" by auto
  have "\<exists>f. mk_float False (1 + q) = FFin f \<and> of_int 1 \<le> f \<and> f \<le> of_int 2 \<and> 0 < f"
    using q by (intro mk_float_between) (simp_all add: pow2_def)
  then obtain f where "mk_float False (1 + q) = FFin f" "1 \<le> f" by auto
  then show ?thesis
    by (intro exI [of _ f]) (simp add: RAISE_FACTOR_def BASELINE_RAISE_DELTA_def q(1) [simplified])
qed

definition capped :: "pyfloat \<Rightarrow> pyfloat \<Rightarrow> bool" where
  "capped b cap \<longleftrightarrow> fle cap (fmul b RAISE_FACTOR)"

lemma mk_float_id: "wf_float (FFin r) \<Longrightarrow> r \<noteq> 0 \<Longrightarrow> mk_float n r = FFin r"
  using pow2_pos [of 1024] by (auto simp: mk_float_def is_double_def Let_def abs_if split: if_splits)

lemma plausible_pos: "plausible_capacity x \<Longrightarrow> is_finite x \<Longrightarrow> \<exists>r. x = FFin r \<and> 0 < r"
  by (cases x) (auto simp: plausible_capacity_def fle_def)

lemma fmul_pos: "0 < r \<Longrightarrow> 1 \<le> f \<Longrightarrow> fmul (FFin r) (FFin f) = mk_float False (r * f)"
  by (simp add: fmul_def is_nan_def is_inf_def)

lemma capped_self: "wf_float (FFin r) \<Longrightarrow> 0 < r \<Longrightarrow> capped (FFin r) (FFin r)"
proof -
  assume r: "wf_float (FFin r)" "0 < r"
  obtain f where f: "RAISE_FACTOR = FFin f" "1 \<le> f" using raise_factor by blast
  have "r * 1 \<le> r * f" using r(2) f(2) by (intro mult_left_mono) simp_all
  then have "fle (mk_float False r) (mk_float False (r * f))" by (intro mk_float_mono) simp
  then show ?thesis unfolding capped_def f(1) using r f(2) by (simp add: fmul_pos mk_float_id)
qed

definition base_inv :: "soh_calc \<Rightarrow> bool" where
  "base_inv s \<longleftrightarrow> (\<forall>b. so_baseline s = Some b \<longrightarrow> wf_float b \<and> (\<exists>r. b = FFin r \<and> 0 < r))
     \<and> (\<forall>(k, cap, t) \<in> set (so_samples s). \<exists>b. so_baseline s = Some b \<and> capped b cap)"

lemma fmul_not_nan: "0 < r \<Longrightarrow> fmul (FFin r) RAISE_FACTOR \<noteq> FNaN"
proof -
  assume "0 < r"
  moreover obtain f where f: "RAISE_FACTOR = FFin f" "1 \<le> f" using raise_factor by blast
  ultimately show ?thesis unfolding f(1) by (simp add: fmul_pos)
qed

lemma raise_inv:
  assumes "base_inv s" "wf_float cap" "cap = FFin r" "0 < r"
  shows "base_inv (snd (raise_baseline cap u s))
    \<and> (\<exists>b. so_baseline (snd (raise_baseline cap u s)) = Some b \<and> capped b cap)"
proof (cases "so_baseline s")
  case None
  then have "so_samples s = []" using assms(1) by (cases "so_samples s") (auto simp: base_inv_def)
  then show ?thesis using None assms capped_self [of r] by (simp add: raise_baseline_def base_inv_def)
next
  case (Some b)
  then obtain q where b: "b = FFin q" "0 < q" "wf_float b" using assms(1) by (auto simp: base_inv_def)
  show ?thesis
  proof (cases "flt (fmul b RAISE_FACTOR) cap")
    case True
    have "capped cap old" if "capped b old" for old
    proof -
      have "fle old cap" using that True fle_trans [of old "fmul b RAISE_FACTOR" cap] by (auto simp: capped_def fle_def)
      then show ?thesis using capped_self [of r] assms(2-4) fle_trans by (auto simp: capped_def)
    qed
    then show ?thesis using Some True assms capped_self [of r]
      by (fastforce simp: raise_baseline_def base_inv_def)
  next
    case False
    then have "capped b cap"
      using not_flt_fle [of "fmul b RAISE_FACTOR" cap] fmul_not_nan [OF b(2)] b(1) assms(3) by (simp add: capped_def)
    then show ?thesis using Some False assms(1) by (simp add: raise_baseline_def)
  qed
qed

lemma accept_inv:
  assumes "base_inv s" "wf_float cap" "cap = FFin r" "0 < r"
  shows "base_inv (snd (accept_capacity k cap u m s))"
proof -
  let ?s = "snd (raise_baseline cap u s)"
  note i = raise_inv [OF assms, of u]
  have "base_inv (snd (take_sample k cap u m ?s))"
    using i set_deque_append [of MAX_SAMPLES "(k, cap, u)" "so_samples ?s"]
    by (fastforce simp: take_sample_def base_inv_def)
  moreover have "base_inv (t\<lparr>so_updates := True\<rparr>) = base_inv t" for t by (simp add: base_inv_def)
  ultimately show ?thesis by (simp add: accept_capacity_def split_beta Let_def)
qed

lemma update_inv:
  assumes "base_inv s" "wf_readings d"
  shows "base_inv (snd (update_soh d u m s))"
proof -
  have c: "base_inv (t\<lparr>so_current := x\<rparr>) = base_inv t" "base_inv (t\<lparr>so_discharge := x\<rparr>) = base_inv t"
    "base_inv (t\<lparr>so_charge := x\<rparr>) = base_inv t" "base_inv (t\<lparr>so_cycles := x\<rparr>) = base_inv t" for t x
    by (simp_all add: base_inv_def)
  have a: "base_inv (snd (accept_capacity k cap u m t))"
    if h: "sensor d ''battery_work_capacity'' = Inr (Some cap)" "plausible_capacity cap" "base_inv t" for k cap t
  proof -
    obtain r where "cap = FFin r" "0 < r" using plausible_pos [OF h(2) sensor_finite [OF h(1)]] by blast
    then show ?thesis using accept_inv [OF h(3) wf_sensor [OF assms(2) h(1)]] by blast
  qed
  show ?thesis
    using assms by (auto simp: update_soh_def sbind_def c intro!: a split: sum.split option.split)
qed

lemma machine_inv:
  assumes "base_inv (sy_calc y)" "\<And>d u m. e = SohReading d u m \<Longrightarrow> wf_readings d \<and> is_finite u"
  shows "base_inv (sy_calc (soh_machine e y))"
proof -
  have c: "base_inv (t\<lparr>so_task := x\<rparr>) = base_inv t" for t x by (simp add: base_inv_def)
  show ?thesis
  proof (cases e)
    case (SohReading d u m)
    obtain r s where u: "update_soh d u m (sy_calc y) = (r, s)" by fastforce
    then have "base_inv s" using update_inv [OF assms(1), of d u m] assms(2) SohReading by simp
    then show ?thesis using u SohReading by (auto simp: schedule_save_def c split: sum.split bool.split)
  qed (use assms(1) in \<open>auto simp: save_wake_def shutdown_begin_def cancel_pending_save_def base_inv_def
      split: option.split save_task.split shutdown_phase.split\<close>)
qed

lemma base_run: "base_inv (sy_calc y) \<Longrightarrow> good_events es \<Longrightarrow> base_inv (sy_calc (soh_run es y))"
  unfolding soh_run_def
proof (induction es arbitrary: y)
  case (Cons e es)
  have "base_inv (sy_calc (soh_machine e y))"
    using Cons.prems by (intro machine_inv) (auto simp: good_events_def)
  then show ?case using Cons.IH Cons.prems(2) by (simp add: good_events_def)
qed simp

text \<open>The baseline is the largest capacity ever accepted, up to the half percent that is taken for
  noise: over any run every sampled capacity is at most the baseline times 1.005.\<close>

lemma baseline_bounds_samples:
  "good_events es \<Longrightarrow> y = soh_run es \<lparr>sy_calc = soh_calc_new, sy_file = f, sy_phase = Running\<rparr> \<Longrightarrow>
   (k, cap, t) \<in> set (so_samples (sy_calc y)) \<Longrightarrow>
   \<exists>b. so_baseline (sy_calc y) = Some b \<and> fle cap (fmul b RAISE_FACTOR)"
proof -
  assume g: "good_events es" and y: "y = soh_run es \<lparr>sy_calc = soh_calc_new, sy_file = f, sy_phase = Running\<rparr>"
    and s: "(k, cap, t) \<in> set (so_samples (sy_calc y))"
  have "base_inv (sy_calc y)" unfolding y
    by (rule base_run [OF _ g]) (simp add: base_inv_def soh_calc_new_def)
  then show ?thesis using s by (auto simp: base_inv_def capped_def)
qed

section \<open>The derived values\<close>

text \<open>C38: The derived values always exist as values: whatever was loaded or read, computing the state of
  health, the slope, the throughput and the projection never raises.\<close>

theorem derived_values_never_raise:
  "is_ok (soh_pct s) \<and> is_ok (degradation_per_kwh s) \<and> is_ok (annual_throughput_kwh s) \<and> is_ok (soh_projection_5y_pct s)"
proof -
  have z: "\<not> fle base (FFin 0) \<Longrightarrow> \<not> feq base (FFin 0)" for base by (simp add: fle_def)
  have ok: "\<not> feq y (FFin 0) \<Longrightarrow> is_ok (bind_res (fdiv x y) (\<lambda>q. Inr (Some (g q))))" for x y and g :: "pyfloat \<Rightarrow> pyfloat"
    by (auto simp: fdiv_def Let_def)
  have p: "is_ok (soh_pct s)"
    by (cases "so_baseline s"; cases "so_current s") (simp_all add: soh_pct_def ok z)
  have d: "is_ok (degradation_per_kwh s)" by (simp add: degradation_per_kwh_def Let_def ok [where g = "\<lambda>q. q"])
  have a: "is_ok (annual_throughput_kwh s)" by (simp add: annual_throughput_kwh_def Let_def ok z)
  obtain x y where xy: "degradation_per_kwh s = Inr x" "annual_throughput_kwh s = Inr y"
    using d a by (cases "degradation_per_kwh s"; cases "annual_throughput_kwh s") simp_all
  have "is_ok (soh_projection_5y_pct s)"
    by (cases x; cases y; cases "so_baseline s"; cases "so_current s")
       (simp_all add: soh_projection_5y_pct_def xy Let_def ok z p)
  then show ?thesis using p d a by simp
qed

section \<open>Concrete runs\<close>

definition battery_readings :: "(string \<times> pyval) list" where
  "battery_readings = [(''battery_work_capacity'', VInt 9000), (''total_dc_discharge'', VInt 0)]"

definition battery_run :: "soh_event list" where
  "battery_run = [SohReading battery_readings (FFin 50) (FFin 7), SohWake, SohShutdown True, SohWritten False,
     SohDrain, SohFlushed True]"

lemma battery_good: "good_events battery_run"
  by (simp add: good_events_def battery_run_def wf_readings_def battery_readings_def)

lemma battery_update: "update_soh battery_readings (FFin 50) (FFin 7) soh_calc_new =
  (Inr True, soh_calc_new\<lparr>so_current := Some (FFin 9000), so_discharge := Some (FFin 0), so_charge := Some (FFin 0),
     so_baseline := Some (FFin 9000), so_set_at := Some (FFin 50), so_samples := [(FFin 0, FFin 9000, FFin 50)],
     so_last_mono := FFin 7, so_updates := True\<rparr>)"
proof -
  have i: "float_of_int 9000 = Inr (FFin 9000)" "float_of_int 0 = Inr (FFin 0)"
    using mk_float_of_int [of 9000] mk_float_of_int [of 0] by (simp_all add: float_of_int_def is_inf_def Let_def)
  have r: "sensor battery_readings k = Inr (if k = ''battery_work_capacity'' then Some (FFin 9000)
      else if k = ''total_dc_discharge'' then Some (FFin 0) else None)" for k
    by (simp add: sensor_def reading_def battery_readings_def optional_float_def i is_nan_def is_inf_def)
  have d: "fdiv (FFin 0) (FFin 1000) = Inr (FFin 0)"
    using mk_float_of_int [of 0] by (simp add: fdiv_def Let_def is_nan_def is_inf_def)
  show ?thesis
    by (simp add: update_soh_def sbind_def r or_zero_def d plausible_capacity_def MAX_PLAUSIBLE_CAPACITY_WH_def fle_def
        accept_capacity_def raise_baseline_def take_sample_def soh_calc_new_def deque_append_keeps MAX_SAMPLES_def)
qed

lemma battery_end:
  "sy_phase (soh_run battery_run \<lparr>sy_calc = soh_calc_new, sy_file = None, sy_phase = Running\<rparr>) = Finished (Some True)"
  "so_samples (sy_calc (soh_run battery_run \<lparr>sy_calc = soh_calc_new, sy_file = None, sy_phase = Running\<rparr>)) = [(FFin 0, FFin 9000, FFin 50)]"
  by (simp_all add: soh_run_def battery_run_def battery_update, simp_all add: soh_calc_new_def schedule_save_def save_wake_def
      shutdown_begin_def cancel_pending_save_def)

theorem shutdown_is_durable_witness:
  "\<exists>y. soh_run battery_run \<lparr>sy_calc = soh_calc_new, sy_file = None, sy_phase = Running\<rparr> = y
     \<and> sy_phase y = Finished (Some True) \<and> so_samples (sy_calc y) = [(FFin 0, FFin 9000, FFin 50)]
     \<and> so_samples (snd (soh_load (Inr (sy_file y)) soh_calc_new)) = so_samples (sy_calc y)"
proof -
  have c: "\<not> so_stopped soh_calc_new" "finite_calc soh_calc_new" by (simp_all add: soh_calc_new_def finite_calc_def)
  show ?thesis using shutdown_is_durable [OF c battery_good refl, of None] battery_end by auto
qed

lemma baseline_bounds_samples_witness:
  "\<exists>b. so_baseline (sy_calc (soh_run battery_run \<lparr>sy_calc = soh_calc_new, sy_file = None, sy_phase = Running\<rparr>)) = Some b
     \<and> fle (FFin 9000) (fmul b RAISE_FACTOR)"
  by (rule baseline_bounds_samples [OF battery_good refl]) (simp add: battery_end)

end
