(* ===== verification/Longevity.thy ===== *)
theory Longevity
  imports HealthMonitor
begin

text \<open>
  Battery chemistries (\<^verbatim>\<open>battery_chemistry.py\<close>) and the longevity advisor
  (\<^verbatim>\<open>longevity_advisor.py\<close>). A tip keeps its component, its priority and what it is about; the
  texts are left out, but the conversions in them that may raise are kept.
\<close>

section \<open>Chemistries\<close>

datatype chemistry = LFP | NMC | UnknownChemistry | NoBattery

record battery_thresholds =
  bt_chemistry :: chemistry
  bt_temp_optimal_max :: pyfloat
  bt_temp_acceptable_max :: pyfloat
  bt_temp_warning_max :: pyfloat
  bt_temp_critical_max :: pyfloat
  bt_temp_optimal_min :: pyfloat
  bt_temp_acceptable_min :: pyfloat
  bt_cycles_good :: int
  bt_cycles_warning :: int
  bt_cycles_critical :: int
  bt_soh_info :: pyfloat
  bt_soh_warning :: pyfloat
  bt_soh_critical :: pyfloat

definition LFP_THRESHOLDS :: battery_thresholds where
  "LFP_THRESHOLDS = \<lparr>bt_chemistry = LFP,
     bt_temp_optimal_max = FFin 30, bt_temp_acceptable_max = FFin 40, bt_temp_warning_max = FFin 50,
     bt_temp_critical_max = FFin 60, bt_temp_optimal_min = FFin 10, bt_temp_acceptable_min = FFin 0,
     bt_cycles_good = 4000, bt_cycles_warning = 6000, bt_cycles_critical = 8000,
     bt_soh_info = FFin 90, bt_soh_warning = FFin 80, bt_soh_critical = FFin 60\<rparr>"

definition NMC_THRESHOLDS :: battery_thresholds where
  "NMC_THRESHOLDS = \<lparr>bt_chemistry = NMC,
     bt_temp_optimal_max = FFin 25, bt_temp_acceptable_max = FFin 35, bt_temp_warning_max = FFin 45,
     bt_temp_critical_max = FFin 55, bt_temp_optimal_min = FFin 10, bt_temp_acceptable_min = FFin 0,
     bt_cycles_good = 3000, bt_cycles_warning = 4000, bt_cycles_critical = 6000,
     bt_soh_info = FFin 90, bt_soh_warning = FFin 80, bt_soh_critical = FFin 60\<rparr>"

definition CONSERVATIVE_THRESHOLDS :: battery_thresholds where
  "CONSERVATIVE_THRESHOLDS = \<lparr>bt_chemistry = UnknownChemistry,
     bt_temp_optimal_max = FFin 25, bt_temp_acceptable_max = FFin 35, bt_temp_warning_max = FFin 45,
     bt_temp_critical_max = FFin 55, bt_temp_optimal_min = FFin 10, bt_temp_acceptable_min = FFin 0,
     bt_cycles_good = 2500, bt_cycles_warning = 4000, bt_cycles_critical = 6000,
     bt_soh_info = FFin 90, bt_soh_warning = FFin 80, bt_soh_critical = FFin 60\<rparr>"

definition NO_BATTERY_THRESHOLDS :: battery_thresholds where
  "NO_BATTERY_THRESHOLDS = \<lparr>bt_chemistry = NoBattery,
     bt_temp_optimal_max = FFin 0, bt_temp_acceptable_max = FFin 0, bt_temp_warning_max = FFin 0,
     bt_temp_critical_max = FFin 0, bt_temp_optimal_min = FFin 0, bt_temp_acceptable_min = FFin 0,
     bt_cycles_good = 0, bt_cycles_warning = 0, bt_cycles_critical = 0,
     bt_soh_info = FFin 0, bt_soh_warning = FFin 0, bt_soh_critical = FFin 0\<rparr>"

definition TYPE_TO_CHEMISTRY :: "(int \<times> chemistry) list" where
  "TYPE_TO_CHEMISTRY = [(0x0004, LFP), (0x0200, LFP), (0x2000, LFP), (0x0040, NMC), (0x0008, NMC),
     (0x0010, NMC), (0x1000, LFP), (0x4000, LFP), (0x0002, NMC), (0x0400, LFP)]"

definition detect_chemistry :: "int option \<Rightarrow> battery_thresholds" where
  "detect_chemistry battery_type_code = (case battery_type_code of
     None \<Rightarrow> CONSERVATIVE_THRESHOLDS
   | Some c \<Rightarrow>
       if c = 0 then NO_BATTERY_THRESHOLDS
       else case map_of TYPE_TO_CHEMISTRY c of
         Some LFP \<Rightarrow> LFP_THRESHOLDS
       | Some NMC \<Rightarrow> NMC_THRESHOLDS
       | _ \<Rightarrow> CONSERVATIVE_THRESHOLDS)"

section \<open>Tips\<close>

datatype tip_component = TipBattery | TipInverter | TipPv
datatype tip_priority = Hoch | Mittel | InfoTip
datatype tip_about = AvgTempHigh | AvgTempAboveOptimum | PeakTemp | Cycles | SohFalling
  | StringCollapsed | SharesShifted | IsolationFalling

type_synonym tip = "tip_component \<times> tip_priority \<times> tip_about"

datatype temp_assessment = NoBatteryInstalled | NoTemperature | Optimal | Acceptable | Raised | CriticalTemp

definition has_battery :: "battery_thresholds \<Rightarrow> bool" where
  "has_battery bt \<longleftrightarrow> bt_chemistry bt \<noteq> NoBattery"

definition get_battery_temp_assessment :: "battery_thresholds \<Rightarrow> health \<Rightarrow> temp_assessment" where
  "get_battery_temp_assessment bt h =
     (if \<not> has_battery bt then NoBatteryInstalled
      else case pt_current (tracker_of h ''battery_temperature'') of
        None \<Rightarrow> NoTemperature
      | Some temp \<Rightarrow>
          if fle temp (bt_temp_optimal_max bt) then Optimal
          else if fle temp (bt_temp_acceptable_max bt) then Acceptable
          else if fle temp (bt_temp_warning_max bt) then Raised
          else CriticalTemp)"

definition get_inverter_temp_assessment :: "health \<Rightarrow> temp_assessment" where
  "get_inverter_temp_assessment h = (case pt_current (tracker_of h ''controller_temperature'') of
     None \<Rightarrow> NoTemperature
   | Some temp \<Rightarrow> if fle temp (FFin 50) then Optimal else if fle temp (FFin 65) then Acceptable else Raised)"

definition exceeds :: "pyfloat option \<Rightarrow> pyfloat \<Rightarrow> bool" where
  "exceeds x b = (case x of None \<Rightarrow> False | Some v \<Rightarrow> flt b v)"

definition battery_tips :: "battery_thresholds \<Rightarrow> health \<Rightarrow> pyexc + tip list" where
  "battery_tips bt h =
     (if \<not> has_battery bt then Inr []
      else let temp = tracker_of h ''battery_temperature''; cycles = pt_current (tracker_of h ''battery_cycles'');
               soh_t = tracker_of h ''battery_soh''
      in bind_res (pt_avg temp) (\<lambda>avg.
         bind_res (if exceeds cycles (FFin (of_int (bt_cycles_warning bt)))
                   then bind_res (int_of_float (the cycles)) (\<lambda>_. Inr [(TipBattery, Mittel, Cycles)]) else Inr []) (\<lambda>cyc.
         bind_res (case pt_current soh_t of
             None \<Rightarrow> Inr []
           | Some soh \<Rightarrow> bind_res (pt_trend soh_t) (\<lambda>tr. Inr (if flt soh (bt_soh_warning bt) \<and> tr = ''falling''
                           then [(TipBattery, Hoch, SohFalling)] else []))) (\<lambda>fal.
         Inr ((if exceeds avg (bt_temp_acceptable_max bt) then [(TipBattery, Hoch, AvgTempHigh)]
               else if exceeds avg (bt_temp_optimal_max bt) then [(TipBattery, InfoTip, AvgTempAboveOptimum)] else [])
              @ (if exceeds (pt_max temp) (bt_temp_acceptable_max bt) then [(TipBattery, Mittel, PeakTemp)] else [])
              @ cyc @ fal)))))"

definition inverter_tips :: "health \<Rightarrow> pyexc + tip list" where
  "inverter_tips h = (let temp = tracker_of h ''controller_temperature'' in
     bind_res (pt_avg temp) (\<lambda>avg. Inr (
       (if exceeds avg (FFin 55) then [(TipInverter, Mittel, AvgTempHigh)] else [])
       @ (if exceeds (pt_max temp) (FFin 70) then [(TipInverter, Hoch, PeakTemp)] else []))))"

definition pv_tips :: "health \<Rightarrow> pyexc + tip list" where
  "pv_tips h = (let iso_t = tracker_of h ''isolation_resistance'' in
     bind_res (dc_string_collapsed h) (\<lambda>collapsed.
     bind_res (dc_string_baseline_deviation h) (\<lambda>bdev.
     bind_res (pt_trend iso_t) (\<lambda>tr.
     Inr ((if collapsed \<noteq> [] then [(TipPv, Hoch, StringCollapsed)] else [])
          @ (if exceeds bdev (FFin 20) then [(TipPv, Mittel, SharesShifted)] else [])
          @ (case pt_current iso_t of None \<Rightarrow> []
             | Some x \<Rightarrow> if tr = ''falling'' \<and> flt x (FFin 1500000) then [(TipPv, Hoch, IsolationFalling)] else []))))))"

definition get_tips :: "battery_thresholds \<Rightarrow> health \<Rightarrow> pyexc + tip list" where
  "get_tips bt h = bind_res (battery_tips bt h) (\<lambda>a. bind_res (inverter_tips h) (\<lambda>b.
     bind_res (pv_tips h) (\<lambda>c. Inr (a @ b @ c))))"

section \<open>Order of the thresholds\<close>

definition ordered_thresholds_of :: "battery_thresholds \<Rightarrow> bool" where
  "ordered_thresholds_of bt \<longleftrightarrow>
     fle (bt_temp_acceptable_min bt) (bt_temp_optimal_min bt) \<and> fle (bt_temp_optimal_min bt) (bt_temp_optimal_max bt)
     \<and> fle (bt_temp_optimal_max bt) (bt_temp_acceptable_max bt) \<and> fle (bt_temp_acceptable_max bt) (bt_temp_warning_max bt)
     \<and> fle (bt_temp_warning_max bt) (bt_temp_critical_max bt)
     \<and> bt_cycles_good bt \<le> bt_cycles_warning bt \<and> bt_cycles_warning bt \<le> bt_cycles_critical bt
     \<and> fle (bt_soh_critical bt) (bt_soh_warning bt) \<and> fle (bt_soh_warning bt) (bt_soh_info bt)"

lemma thresholds_ordered: "ordered_thresholds_of (detect_chemistry c)"
proof -
  have "\<forall>bt \<in> {LFP_THRESHOLDS, NMC_THRESHOLDS, CONSERVATIVE_THRESHOLDS, NO_BATTERY_THRESHOLDS}. ordered_thresholds_of bt"
    by (simp add: ordered_thresholds_of_def LFP_THRESHOLDS_def NMC_THRESHOLDS_def CONSERVATIVE_THRESHOLDS_def
        NO_BATTERY_THRESHOLDS_def fle_def)
  moreover have "detect_chemistry c \<in> {LFP_THRESHOLDS, NMC_THRESHOLDS, CONSERVATIVE_THRESHOLDS, NO_BATTERY_THRESHOLDS}"
    by (auto simp: detect_chemistry_def split: option.split chemistry.split)
  ultimately show ?thesis by blast
qed

text \<open>The fallback is the strictest profile of a real battery: what it calls optimal or acceptable is so
  for every chemistry.\<close>

lemma conservative_is_strictest:
  "has_battery (detect_chemistry c) \<Longrightarrow>
   fle (bt_temp_optimal_max CONSERVATIVE_THRESHOLDS) (bt_temp_optimal_max (detect_chemistry c))
   \<and> fle (bt_temp_acceptable_max CONSERVATIVE_THRESHOLDS) (bt_temp_acceptable_max (detect_chemistry c))
   \<and> fle (bt_temp_critical_max CONSERVATIVE_THRESHOLDS) (bt_temp_critical_max (detect_chemistry c))
   \<and> bt_cycles_warning CONSERVATIVE_THRESHOLDS \<le> bt_cycles_warning (detect_chemistry c)"
  by (auto simp: detect_chemistry_def has_battery_def LFP_THRESHOLDS_def NMC_THRESHOLDS_def CONSERVATIVE_THRESHOLDS_def
      NO_BATTERY_THRESHOLDS_def fle_def split: option.split chemistry.split)

end
