(* ===== verification/PyJson.thy ===== *)
theory PyJson
  imports PyText
begin

text \<open>
  Python's \<^verbatim>\<open>json.loads\<close> and \<open>repr\<close> of a string, as far as the code looks at their results: a
  scalar is a value, of a list or an object only the type matters. A JSON escape of a code
  point above 255 is shown as a question mark, a character that no number contains.
\<close>

section \<open>Scanning\<close>

datatype json = JVal pyval | JList | JDict

definition json_ws :: "char \<Rightarrow> bool" where
  "json_ws c \<longleftrightarrow> c = CHR '' '' \<or> c = CHR 0x09 \<or> c = CHR 0x0A \<or> c = CHR 0x0D"

definition skip_ws :: "string \<Rightarrow> string" where
  "skip_ws = dropWhile json_ws"

definition hex_val :: "char \<Rightarrow> nat option" where
  "hex_val c = (let n = of_char c
     in if 48 \<le> n \<and> n \<le> 57 then Some (n - 48)
        else if 97 \<le> n \<and> n \<le> 102 then Some (n - 87)
        else if 65 \<le> n \<and> n \<le> 70 then Some (n - 55) else None)"

definition hex4 :: "string \<Rightarrow> nat option" where
  "hex4 s = (if length s < 4 then None
     else foldl (\<lambda>a c. case (a, hex_val c) of (Some x, Some d) \<Rightarrow> Some (x * 16 + d) | _ \<Rightarrow> None)
            (Some 0) (take 4 s))"

definition code_char :: "nat \<Rightarrow> char" where
  "code_char n = (if n < 256 then char_of n else CHR ''?'')"

definition simple_escape :: "char \<Rightarrow> char option" where
  "simple_escape c = map_of
     [(CHR 0x22, CHR 0x22), (CHR 0x5C, CHR 0x5C), (CHR ''/'', CHR ''/''), (CHR ''b'', CHR 0x08),
      (CHR ''f'', CHR 0x0C), (CHR ''n'', CHR 0x0A), (CHR ''r'', CHR 0x0D), (CHR ''t'', CHR 0x09)] c"

text \<open>The rest of a string literal after its opening quote; control characters are refused.\<close>

fun json_string :: "string \<Rightarrow> (string \<times> string) option" where
  "json_string [] = None"
| "json_string (c # r) =
     (if c = CHR 0x22 then Some ([], r)
      else if c = CHR 0x5C then (case r of
          [] \<Rightarrow> None
        | e # r1 \<Rightarrow>
            if e = CHR ''u'' then (case hex4 r1 of
                None \<Rightarrow> None
              | Some n \<Rightarrow> map_option (\<lambda>(t, q). (code_char n # t, q)) (json_string (drop 4 r1)))
            else (case simple_escape e of
                None \<Rightarrow> None
              | Some d \<Rightarrow> map_option (\<lambda>(t, q). (d # t, q)) (json_string r1)))
      else if (of_char c :: nat) < 32 then None
      else map_option (\<lambda>(t, q). (c # t, q)) (json_string r))"

text \<open>The parts of a number: sign and integer, fraction, exponent, each as it is written.\<close>

definition number_int :: "string \<Rightarrow> (string \<times> string) option" where
  "number_int s = (let (sign, t) = (case s of c # cs \<Rightarrow> if c = CHR ''-'' then ([c], cs) else ([], s) | [] \<Rightarrow> ([], []))
     in case t of
          [] \<Rightarrow> None
        | c # cs \<Rightarrow> if c = CHR ''0'' then Some (sign @ [c], cs)
                  else if is_digit c then Some (sign @ takeWhile is_digit t, dropWhile is_digit t)
                  else None)"

definition number_frac :: "string \<Rightarrow> string \<times> string" where
  "number_frac s = (case s of
       c # cs \<Rightarrow> if c = CHR ''.'' \<and> takeWhile is_digit cs \<noteq> []
                then (c # takeWhile is_digit cs, dropWhile is_digit cs) else ([], s)
     | [] \<Rightarrow> ([], []))"

definition number_exp :: "string \<Rightarrow> string \<times> string" where
  "number_exp s = (case s of
       c # cs \<Rightarrow>
         (let (sign, t) = (case cs of d # ds \<Rightarrow> if d = CHR ''-'' \<or> d = CHR ''+'' then ([d], ds) else ([], cs) | [] \<Rightarrow> ([], []))
          in if (c = CHR ''e'' \<or> c = CHR ''E'') \<and> takeWhile is_digit t \<noteq> []
             then (c # sign @ takeWhile is_digit t, dropWhile is_digit t) else ([], s))
     | [] \<Rightarrow> ([], []))"

text \<open>An integer of more than 4300 digits raises \<^verbatim>\<open>ValueError\<close>, as text that is not JSON does.\<close>

definition json_number :: "string \<Rightarrow> (json \<times> string) option" where
  "json_number s = (case number_int s of
       None \<Rightarrow> None
     | Some (i, r) \<Rightarrow>
         (let (f, r1) = number_frac r; (x, r2) = number_exp r1
          in if f = [] \<and> x = [] then (case int_of_str i of Inl _ \<Rightarrow> None | Inr n \<Rightarrow> Some (JVal (VInt n), r2))
             else (case float_of_str (i @ f @ x) of Inl _ \<Rightarrow> None | Inr y \<Rightarrow> Some (JVal (VFloat y), r2))))"

definition JSON_WORDS :: "(string \<times> pyval) list" where
  "JSON_WORDS = [(''null'', VNone), (''true'', VBool True), (''false'', VBool False), (''NaN'', VFloat FNaN),
     (''Infinity'', VFloat FPosInf), (''-Infinity'', VFloat FNegInf)]"

definition json_word :: "string \<Rightarrow> (json \<times> string) option" where
  "json_word s = map_option (\<lambda>(w, v). (JVal v, drop (length w) s))
     (find (\<lambda>(w, v). starts_with w s) JSON_WORDS)"

text \<open>
  Values, the elements of a list and the members of an object after their opening bracket.
  Every call with less fuel either consumes a character or is the first step into a list.
\<close>

fun json_value :: "nat \<Rightarrow> string \<Rightarrow> (json \<times> string) option"
  and json_items :: "nat \<Rightarrow> string \<Rightarrow> (json \<times> string) option"
  and json_pairs :: "nat \<Rightarrow> string \<Rightarrow> (json \<times> string) option" where
  "json_value 0 s = None"
| "json_value (Suc n) s = (case s of
     [] \<Rightarrow> None
   | c # r \<Rightarrow>
       if c = CHR 0x22 then map_option (\<lambda>(t, q). (JVal (VStr t), q)) (json_string r)
       else if c = CHR ''{'' then (case skip_ws r of
           [] \<Rightarrow> None
         | d # q \<Rightarrow> if d = CHR ''}'' then Some (JDict, q) else json_pairs n (d # q))
       else if c = CHR ''['' then (case skip_ws r of
           [] \<Rightarrow> None
         | d # q \<Rightarrow> if d = CHR '']'' then Some (JList, q) else json_items n (d # q))
       else (case json_word s of Some x \<Rightarrow> Some x | None \<Rightarrow> json_number s))"
| "json_items 0 s = None"
| "json_items (Suc n) s = (case json_value n s of
     None \<Rightarrow> None
   | Some (_, r) \<Rightarrow> (case skip_ws r of
       [] \<Rightarrow> None
     | d # q \<Rightarrow> if d = CHR '']'' then Some (JList, q)
               else if d = CHR '','' then json_items n (skip_ws q) else None))"
| "json_pairs 0 s = None"
| "json_pairs (Suc n) s = (case s of
     [] \<Rightarrow> None
   | c # r \<Rightarrow> if c \<noteq> CHR 0x22 then None else (case json_string r of
       None \<Rightarrow> None
     | Some (_, r1) \<Rightarrow> (case skip_ws r1 of
         [] \<Rightarrow> None
       | d # q \<Rightarrow> if d \<noteq> CHR '':'' then None else (case json_value n (skip_ws q) of
           None \<Rightarrow> None
         | Some (_, r2) \<Rightarrow> (case skip_ws r2 of
             [] \<Rightarrow> None
           | d # q \<Rightarrow> if d = CHR ''}'' then Some (JDict, q)
                     else if d = CHR '','' then json_pairs n (skip_ws q) else None)))))"

text \<open>\<open>None\<close> is the \<^verbatim>\<open>ValueError\<close> of a text that is not one JSON value.\<close>

definition json_loads :: "string \<Rightarrow> json option" where
  "json_loads s = (case json_value (2 * length s + 2) (skip_ws s) of
     None \<Rightarrow> None
   | Some (v, r) \<Rightarrow> if skip_ws r = [] then Some v else None)"

definition json_type :: "json \<Rightarrow> string" where
  "json_type j = (case j of
     JList \<Rightarrow> ''list'' | JDict \<Rightarrow> ''dict''
   | JVal v \<Rightarrow> (case v of VNone \<Rightarrow> ''NoneType'' | VBool _ \<Rightarrow> ''bool'' | VInt _ \<Rightarrow> ''int''
       | VFloat _ \<Rightarrow> ''float'' | VStr _ \<Rightarrow> ''str''))"

section \<open>The representation of a string\<close>

definition hex_digit :: "nat \<Rightarrow> char" where
  "hex_digit n = ''0123456789abcdef'' ! n"

definition repr_char :: "char \<Rightarrow> char \<Rightarrow> string" where
  "repr_char quote c = (let n = of_char c :: nat
     in if c = quote \<or> c = CHR 0x5C then [CHR 0x5C, c]
        else if n = 9 then [CHR 0x5C, CHR ''t''] else if n = 10 then [CHR 0x5C, CHR ''n'']
        else if n = 13 then [CHR 0x5C, CHR ''r'']
        else if n < 32 \<or> (127 \<le> n \<and> n \<le> 160) \<or> n = 173
             then [CHR 0x5C, CHR ''x'', hex_digit (n div 16), hex_digit (n mod 16)]
        else [c])"

definition py_repr :: "string \<Rightarrow> string" where
  "py_repr s = (let quote = if CHR 0x27 \<in> set s \<and> CHR 0x22 \<notin> set s then CHR 0x22 else CHR 0x27
     in [quote] @ concat (map (repr_char quote) s) @ [quote])"

section \<open>The fuel is enough\<close>

lemma length_skip_ws: "length (skip_ws s) \<le> length s"
  by (simp add: skip_ws_def length_dropWhile_le)

lemma json_string_shorter: "json_string s = Some (t, r) \<Longrightarrow> length r < length s"
proof (induction s arbitrary: t r rule: json_string.induct)
  case (2 c r)
  then show ?case
    by (auto split: if_splits list.splits option.splits) fastforce+
qed simp

lemma skip_ws_Cons: "skip_ws s = d # q \<Longrightarrow> length q < length s"
  using length_skip_ws [of s] by simp

lemma json_number_shorter: "json_number s = Some (v, r) \<Longrightarrow> length r < length s"
proof -
  have i: "length q < length s" if "number_int s = Some (p, q)" for p q s
    using that by (cases s) (auto simp: number_int_def Let_def length_dropWhile_le less_Suc_eq_le
        split: if_splits list.splits intro: le_trans [OF length_dropWhile_le])
  have f: "length (snd (number_frac q)) \<le> length q" for q
    by (cases q) (auto simp: number_frac_def intro: le_SucI length_dropWhile_le)
  have x: "length (snd (number_exp q)) \<le> length q" for q
    by (cases q) (auto simp: number_exp_def Let_def intro: le_SucI length_dropWhile_le split: list.splits)
  assume n: "json_number s = Some (v, r)"
  obtain p q where "number_int s = Some (p, q)" "r = snd (number_exp (snd (number_frac q)))"
    using n by (auto simp: json_number_def Let_def split: option.splits if_splits sum.splits prod.splits)
  then show ?thesis using i [of s p q] f [of q] x [of "snd (number_frac q)"] by simp
qed

lemma json_word_shorter: "json_word s = Some (v, r) \<Longrightarrow> length r < length s"
  by (auto simp: json_word_def JSON_WORDS_def starts_with_iff split: if_splits)

lemma json_shorter:
  "(\<forall>v r. json_value n s = Some (v, r) \<longrightarrow> length r < length s)
   \<and> (\<forall>v r. json_items n s = Some (v, r) \<longrightarrow> length r < length s)
   \<and> (\<forall>v r. json_pairs n s = Some (v, r) \<longrightarrow> length r < length s)"
proof (induction n arbitrary: s)
  case (Suc n)
  have v: "length r < length s" if "json_value n s = Some (v, r)" for v r s using Suc that by blast
  have i: "length r < length s" if "json_items n s = Some (v, r)" for v r s using Suc that by blast
  have p: "length r < length s" if "json_pairs n s = Some (v, r)" for v r s using Suc that by blast
  have "length r < length s" if "json_value (Suc n) s = Some (v, r)" for v r
    using that length_skip_ws [of "tl s"]
    by (auto split: list.splits if_splits option.splits
        dest!: v i p json_string_shorter json_number_shorter json_word_shorter skip_ws_Cons)
  moreover have "length r < length s" if "json_items (Suc n) s = Some (v, r)" for v r
    using that
    by (auto split: list.splits if_splits option.splits dest!: v i skip_ws_Cons) 
       (meson length_skip_ws le_less_trans less_trans order.strict_trans1)
  moreover have "length r < length s" if pe: "json_pairs (Suc n) s = Some (v, r)" for v r
  proof -
    obtain c s1 where s: "s = c # s1" using pe by (cases s) auto
    obtain x r1 where r1: "json_string s1 = Some (x, r1)" using pe by (auto simp: s split: if_splits option.splits)
    obtain d q where q: "skip_ws r1 = d # q" using pe r1 by (auto simp: s split: if_splits list.splits)
    obtain y r2 where r2: "json_value n (skip_ws q) = Some (y, r2)"
      using pe r1 q by (auto simp: s split: if_splits option.splits)
    obtain e u where u: "skip_ws r2 = e # u" using pe r1 q r2 by (auto simp: s split: if_splits list.splits)
    have "r = u \<or> json_pairs n (skip_ws u) = Some (v, r)"
      using pe r1 q r2 u by (auto simp: s split: if_splits)
    moreover have "length u < length s" using s json_string_shorter [OF r1] skip_ws_Cons [OF q]
        v [OF r2] skip_ws_Cons [OF u] length_skip_ws [of q] by simp
    ultimately show ?thesis using p [of "skip_ws u" v r] length_skip_ws [of u] by auto
  qed
  ultimately show ?case by blast
qed simp

lemma json_fuel:
  "n \<le> m \<Longrightarrow> (2 * length s + 1 \<le> n \<longrightarrow> json_value n s = json_value m s)
     \<and> (2 * length s + 2 \<le> n \<longrightarrow> json_items n s = json_items m s)
     \<and> (2 * length s + 2 \<le> n \<longrightarrow> json_pairs n s = json_pairs m s)"
proof (induction n arbitrary: s m)
  case (Suc n)
  obtain k where m: "m = Suc k" "n \<le> k" using Suc.prems by (cases m) auto
  have v: "json_value n s = json_value k s" if "2 * length s + 1 \<le> n" for s using Suc.IH m(2) that by blast
  have i: "json_items n s = json_items k s" if "2 * length s + 2 \<le> n" for s using Suc.IH m(2) that by blast
  have p: "json_pairs n s = json_pairs k s" if "2 * length s + 2 \<le> n" for s using Suc.IH m(2) that by blast
  have "json_value (Suc n) s = json_value (Suc k) s" if l: "2 * length s + 1 \<le> Suc n"
  proof (cases s)
    case (Cons c r)
    have "2 * length (skip_ws r) + 2 \<le> n" using l length_skip_ws [of r] by (simp add: Cons)
    then show ?thesis using i [of "skip_ws r"] p [of "skip_ws r"]
      by (auto simp: Cons split: list.split)
  qed simp
  moreover have "json_items (Suc n) s = json_items (Suc k) s" if l: "2 * length s + 2 \<le> Suc n"
  proof (cases "json_value k s")
    case (Some x)
    have "json_value n s = Some x" using v [of s] l Some by simp
    moreover have "json_items n (skip_ws q) = json_items k (skip_ws q)" if "skip_ws (snd x) = d # q" for d q
      using i [of "skip_ws q"] l that skip_ws_Cons [OF that] length_skip_ws [of q] json_shorter [of k s] Some
      by (cases x) fastforce
    ultimately show ?thesis using Some by (cases x) (auto split: list.split)
  qed (use v [of s] l in simp)
  moreover have "json_pairs (Suc n) s = json_pairs (Suc k) s" if l: "2 * length s + 2 \<le> Suc n"
  proof (cases s)
    case (Cons c s1)
    have a: "json_value n (skip_ws q) = json_value k (skip_ws q) \<and> length (skip_ws q) < length s1"
      if "json_string s1 = Some (x, r1)" "skip_ws r1 = d # q" for x r1 d q
      using v [of "skip_ws q"] l that(1) json_string_shorter [OF that(1)] skip_ws_Cons [OF that(2)]
        length_skip_ws [of q] by (simp add: Cons)
    have b: "json_pairs n (skip_ws u) = json_pairs k (skip_ws u)"
      if "json_value k t = Some (y, r2)" "length t < length s1" "skip_ws r2 = e # u" for t y r2 e u
      using p [of "skip_ws u"] l that json_shorter [of k t] skip_ws_Cons [OF that(3)] length_skip_ws [of u]
      by (fastforce simp: Cons)
    show ?thesis
      by (auto simp: Cons a b split: list.split option.split)
  qed simp
  ultimately show ?case unfolding m(1) by blast
qed simp

text \<open>More fuel than \<open>json_loads\<close> gives never changes its result.\<close>

lemma json_loads_fuel:
  "2 * length s + 2 \<le> n \<Longrightarrow> json_loads s = (case json_value n (skip_ws s) of
     None \<Rightarrow> None | Some (v, r) \<Rightarrow> if skip_ws r = [] then Some v else None)"
  using json_fuel [of "2 * length s + 2" n "skip_ws s"] length_skip_ws [of s]
  by (simp add: json_loads_def)

end
