(* ===== verification/MqttBridge.thy ===== *)
theory MqttBridge
  imports CoordWrites Helpers PyStats PyJson
begin

text \<open>
  The MQTT bridge (\<^verbatim>\<open>mqtt_bridge.py\<close>): its start and stop with rollback and the background
  retry, what it publishes after each poll, and the commands external systems send.

  The MQTT integration and its broker are parameters: whether it is loaded and connected, and
  how each subscription and publication ends. A command is handled in two steps, because the
  code waits for the write lock in between: the step that validates it and takes the
  rate-limit slot, and the step that holds the lock and writes. The lock is first come, first
  served, so the waiting commands are a queue.
\<close>

section \<open>Constants\<close>

definition MQTT_EXCLUDED_NAMES :: "string list" where
  "MQTT_EXCLUDED_NAMES = [''modbus_enable'', ''unit_id'', ''byte_order'']"

definition SAFE_WRITABLE_REGISTERS :: "modbus_register list" where
  "SAFE_WRITABLE_REGISTERS = filter (\<lambda>r. rg_name r \<notin> set MQTT_EXCLUDED_NAMES) WRITABLE_REGISTERS"

definition TOPIC_PREFIX :: string where "TOPIC_PREFIX = ''kostal_kore''"
definition RETRY_INITIAL_DELAY :: rat where "RETRY_INITIAL_DELAY = 5"
definition RETRY_MAX_DELAY :: rat where "RETRY_MAX_DELAY = 300"
definition RATE_LIMIT_SECONDS :: rat where "RATE_LIMIT_SECONDS = 1"

definition PROXY_COMMAND_MAP :: "(string \<times> modbus_register) list" where
  "PROXY_COMMAND_MAP =
     [(''battery_charge'', REG_BAT_CHARGE_DC_ABS_POWER),
      (''battery_min_soc'', REG_BAT_MIN_SOC),
      (''battery_max_soc'', REG_BAT_MAX_SOC)]"

section \<open>State\<close>

text \<open>How a call of the MQTT integration ends; the payloads that are published.\<close>

datatype mqtt_result = MqttOk | MqttHaError | MqttOtherError | MqttCancelled

datatype payload = PText string | PState readings | PValue pyval | PMetadata

record mqtt_msg =
  mm_topic :: string
  mm_payload :: string
  mm_retain :: bool

text \<open>A command that was accepted and waits for the write lock.\<close>

record command =
  cm_reg :: modbus_register
  cm_value :: pyval
  cm_source :: string

record 'w bridge =
  br_coord :: "'w coord"
  br_device_id :: string
  br_entry_id :: string
  br_installer :: bool
  br_subs :: "string list"
  br_listening :: bool
  br_started :: bool
  br_attempted :: bool
  br_retrying :: bool
  br_last_write :: "string \<Rightarrow> rat option"
  br_command_count :: nat
  br_rate_limited :: nat
  br_queue :: "command list"
  br_publish_task :: "readings option"
  br_refreshes :: nat
  br_sent :: "(string \<times> payload) list"

text \<open>
  What is outside: the coordinator's environments, the SoC controller's activity and the owner
  of register 1038, and the MQTT integration. \<open>be_connected\<close> is \<open>None\<close> where the query raises.
\<close>

record 'w br_env =
  be_env :: "'w env"
  be_ha :: "'w ha_env"
  be_soc_active :: "'w \<Rightarrow> bool"
  be_locked :: "'w \<Rightarrow> bool"
  be_loaded :: "'w \<Rightarrow> bool"
  be_connected :: "'w \<Rightarrow> bool option"
  be_subscribe :: "string \<Rightarrow> 'w \<Rightarrow> mqtt_result \<times> 'w"
  be_publish :: "string \<Rightarrow> payload \<Rightarrow> 'w \<Rightarrow> mqtt_result \<times> 'w"

definition bridge_new :: "'w coord \<Rightarrow> string \<Rightarrow> bool \<Rightarrow> string \<Rightarrow> 'w bridge" where
  "bridge_new c device_id installer entry_id =
     \<lparr>br_coord = c, br_device_id = device_id, br_entry_id = entry_id, br_installer = installer,
      br_subs = [], br_listening = False, br_started = False, br_attempted = False, br_retrying = False,
      br_last_write = (\<lambda>_. None), br_command_count = 0, br_rate_limited = 0, br_queue = [],
      br_publish_task = None, br_refreshes = 0, br_sent = []\<rparr>"

definition topic_base :: "'w bridge \<Rightarrow> string" where
  "topic_base b = TOPIC_PREFIX @ ''/'' @ br_device_id b @ ''/modbus''"

definition proxy_base :: "'w bridge \<Rightarrow> string" where
  "proxy_base b = TOPIC_PREFIX @ ''/'' @ br_device_id b @ ''/proxy''"

definition br_world :: "'w bridge \<Rightarrow> 'w" where
  "br_world b = cl_world (co_client (br_coord b))"

definition set_world :: "'w \<Rightarrow> 'w bridge \<Rightarrow> 'w bridge" where
  "set_world w b = b\<lparr>br_coord := (br_coord b)\<lparr>co_client := (co_client (br_coord b))\<lparr>cl_world := w\<rparr>\<rparr>\<rparr>"

definition has_mqtt :: "'w br_env \<Rightarrow> 'w bridge \<Rightarrow> bool" where
  "has_mqtt be b = be_loaded be (br_world b)"

text \<open>A publication with the retain flag; \<open>br_sent\<close> holds those that succeeded, newest first.\<close>

definition mqtt_publish :: "'w br_env \<Rightarrow> string \<Rightarrow> payload \<Rightarrow> 'w bridge \<Rightarrow> mqtt_result \<times> 'w bridge" where
  "mqtt_publish be topic p b = (let (r, w) = be_publish be topic p (br_world b); b1 = set_world w b
     in (r, if r = MqttOk then b1\<lparr>br_sent := (topic, p) # br_sent b1\<rparr> else b1))"

section \<open>Lifecycle\<close>

definition command_topics :: "'w bridge \<Rightarrow> string list" where
  "command_topics b = map (\<lambda>r. topic_base b @ ''/command/'' @ rg_name r) SAFE_WRITABLE_REGISTERS
     @ map (\<lambda>(n, r). proxy_base b @ ''/command/'' @ n) PROXY_COMMAND_MAP"

fun subscribe_all :: "'w br_env \<Rightarrow> string list \<Rightarrow> 'w bridge \<Rightarrow> mqtt_result \<times> 'w bridge" where
  "subscribe_all be [] b = (MqttOk, b)"
| "subscribe_all be (t # ts) b =
     (let (r, w) = be_subscribe be t (br_world b); b1 = set_world w b
      in if r = MqttOk then subscribe_all be ts (b1\<lparr>br_subs := br_subs b1 @ [t]\<rparr>) else (r, b1))"

definition publish_register_metadata :: "'w br_env \<Rightarrow> 'w bridge \<Rightarrow> mqtt_result \<times> 'w bridge" where
  "publish_register_metadata be b =
     (if \<not> has_mqtt be b then (MqttOk, b) else mqtt_publish be (topic_base b @ ''/config'') PMetadata b)"

definition rollback_partial_start :: "'w bridge \<Rightarrow> 'w bridge" where
  "rollback_partial_start b = b\<lparr>br_listening := False, br_subs := []\<rparr>"

text \<open>Each publication is tried; only a cancellation ends the clean-up early.\<close>

definition best_effort_clear_retained :: "'w br_env \<Rightarrow> 'w bridge \<Rightarrow> mqtt_result \<times> 'w bridge" where
  "best_effort_clear_retained be b =
     (if \<not> has_mqtt be b then (MqttOk, b)
      else let (r, b1) = mqtt_publish be (topic_base b @ ''/config'') (PText '''') b
        in if r = MqttCancelled then (r, b1)
           else let (r2, b2) = mqtt_publish be (topic_base b @ ''/available'') (PText ''offline'') b1
             in (if r2 = MqttCancelled then r2 else MqttOk, b2))"

datatype start_result = StartOk | StartFailed | StartRaised | StartCancelled

text \<open>The steps of a start up to the commit point.\<close>

definition wire_up :: "'w br_env \<Rightarrow> 'w bridge \<Rightarrow> mqtt_result \<times> 'w bridge" where
  "wire_up be b =
     (let (r, b1) = subscribe_all be (command_topics b) b
      in if r \<noteq> MqttOk then (r, b1)
         else let (r2, b2) = publish_register_metadata be (b1\<lparr>br_listening := True\<rparr>)
           in if r2 \<noteq> MqttOk then (r2, b2)
              else mqtt_publish be (topic_base b2 @ ''/available'') (PText ''online'') b2)"

definition try_start :: "'w br_env \<Rightarrow> 'w bridge \<Rightarrow> start_result \<times> 'w bridge" where
  "try_start be b =
     (if be_connected be (br_world b) = Some False then (StartFailed, b)
      else let (r, b1) = wire_up be (b\<lparr>br_attempted := True\<rparr>)
        in if r = MqttOk then (StartOk, b1\<lparr>br_started := True\<rparr>)
           else let (r2, b2) = best_effort_clear_retained be (rollback_partial_start b1)
             in (if r2 = MqttCancelled then StartCancelled
                 else case r of MqttCancelled \<Rightarrow> StartCancelled | MqttHaError \<Rightarrow> StartFailed
                   | _ \<Rightarrow> StartRaised, b2))"

definition schedule_start_retry :: "'w bridge \<Rightarrow> 'w bridge" where
  "schedule_start_retry b = b\<lparr>br_retrying := True\<rparr>"

definition async_start :: "'w br_env \<Rightarrow> 'w bridge \<Rightarrow> start_result \<times> 'w bridge" where
  "async_start be b =
     (if br_started b \<or> br_retrying b then (StartOk, b)
      else if \<not> has_mqtt be b then (StartOk, schedule_start_retry b)
      else case try_start be b of
             (StartFailed, b1) \<Rightarrow> (StartOk, schedule_start_retry b1)
           | x \<Rightarrow> x)"

text \<open>
  The background loop; \<open>None\<close> when it never ends. It returns whether it ended by itself or was
  cancelled within an attempt; a cancellation while it sleeps is part of the stop.
\<close>

definition next_delay :: "rat \<Rightarrow> rat" where
  "next_delay delay = min (delay * 2) RETRY_MAX_DELAY"

definition loop_sleep :: "'w br_env \<Rightarrow> rat \<Rightarrow> 'w bridge \<Rightarrow> 'w bridge" where
  "loop_sleep be delay b = set_world (ev_sleep (be_env be) delay (br_world b)) b"

partial_function (option) retry_loop :: "'w br_env \<Rightarrow> rat \<Rightarrow> 'w bridge \<Rightarrow> (start_result \<times> 'w bridge) option" where
  "retry_loop be delay b =
     (if br_started b then Some (StartOk, b\<lparr>br_retrying := False\<rparr>)
      else let b1 = loop_sleep be delay b
        in if \<not> has_mqtt be b1 then retry_loop be (next_delay delay) b1
           else let (r, b2) = try_start be b1
             in if r = StartOk \<or> r = StartCancelled then Some (r, b2\<lparr>br_retrying := False\<rparr>)
                else retry_loop be (next_delay delay) b2)"

definition start_retry_loop :: "'w br_env \<Rightarrow> 'w bridge \<Rightarrow> (start_result \<times> 'w bridge) option" where
  "start_retry_loop be b = retry_loop be RETRY_INITIAL_DELAY b"

text \<open>A stop that meets the retry loop asleep; the result is how it ends.\<close>

definition async_stop :: "'w br_env \<Rightarrow> 'w bridge \<Rightarrow> mqtt_result \<times> 'w bridge" where
  "async_stop be b0 =
     (let b = b0\<lparr>br_retrying := False\<rparr>
      in if \<not> br_started b then
           (if br_attempted b
            then let (r, b1) = best_effort_clear_retained be b
              in if r = MqttOk then (r, b1\<lparr>br_attempted := False\<rparr>) else (r, b1)
            else (MqttOk, b))
         else
           let b1 = b\<lparr>br_listening := False, br_publish_task := None, br_subs := []\<rparr>;
               (r, b2) = (if has_mqtt be b1
                 then mqtt_publish be (topic_base b1 @ ''/available'') (PText ''offline'') b1
                 else (MqttOk, b1))
           in if r = MqttOk then (r, b2\<lparr>br_started := False, br_attempted := False\<rparr>) else (r, b2))"

section \<open>Publishing\<close>

definition on_coordinator_update :: "'w bridge \<Rightarrow> 'w bridge" where
  "on_coordinator_update b =
     (if \<not> br_started b then b
      else case co_data (br_coord b) of None \<Rightarrow> b | Some d \<Rightarrow> b\<lparr>br_publish_task := Some d\<rparr>)"

text \<open>\<open>str(round(float(v), 1))\<close>; an integer too large for a float is not caught.\<close>

definition fmt_value :: "(pyfloat \<Rightarrow> string) \<Rightarrow> pyval \<Rightarrow> pyexc + string option" where
  "fmt_value frepr v = (if v = VNone then Inr None
     else case float_of_val v of
       Inr x \<Rightarrow> Inr (Some (frepr (round_nd 1 x)))
     | Inl e \<Rightarrow> if caught_conv e then Inr (Some (str_of_val frepr v)) else Inl e)"

definition float_val :: "pyfloat option \<Rightarrow> pyval" where
  "float_val x = (case x of None \<Rightarrow> VNone | Some f \<Rightarrow> VFloat f)"

definition state_text :: "(pyfloat \<Rightarrow> string) \<Rightarrow> pyval \<Rightarrow> pyexc + string option" where
  "state_text frepr v = (if v = VNone then Inr None
     else case int_of_val v of
       Inr i \<Rightarrow> Inr (Some (case map_of INVERTER_STATES i of None \<Rightarrow> str_of_val frepr v | Some t \<Rightarrow> t))
     | Inl e \<Rightarrow> if caught_conv e then Inr (Some (str_of_val frepr v)) else Inl e)"

definition proxy_topics :: "(pyfloat \<Rightarrow> string) \<Rightarrow> readings \<Rightarrow> pyexc + (string \<times> string option) list" where
  "proxy_topics frepr d =
     bind_res (optional_float (reading d ''home_from_pv'')) (\<lambda>hp.
     bind_res (optional_float (reading d ''home_from_battery'')) (\<lambda>hb.
     bind_res (optional_float (reading d ''home_from_grid'')) (\<lambda>hg.
     let home = sum_home_consumption_power_w hp hb hg in
     bind_res (optional_float (reading d ''total_dc_power'')) (\<lambda>dc.
     bind_res (fmt_value frepr (float_val dc)) (\<lambda>pv.
     bind_res (fmt_value frepr (float_val (map_option dc_pv_power_to_ac_estimate_w dc))) (\<lambda>ac.
     bind_res (fmt_value frepr (reading d ''pm_total_active'')) (\<lambda>grid.
     bind_res (fmt_value frepr (reading d ''battery_cd_power'')) (\<lambda>bat.
     bind_res (fmt_value frepr (reading d ''battery_soc'')) (\<lambda>soc.
     bind_res (fmt_value frepr (float_val home)) (\<lambda>hf.
     bind_res (state_text frepr (reading d ''inverter_state'')) (\<lambda>st.
       Inr [(''pv_power'', pv), (''pv_power_dc'', pv), (''pv_power_ac_est'', ac), (''grid_power'', grid),
            (''battery_power'', bat), (''battery_soc'', soc), (''home_power'', hf),
            (''inverter_state'', st)])))))))))))"

text \<open>One after the other; the first that fails ends the task.\<close>

fun publish_each :: "'w br_env \<Rightarrow> (string \<times> payload) list \<Rightarrow> 'w bridge \<Rightarrow> mqtt_result \<times> 'w bridge" where
  "publish_each be [] b = (MqttOk, b)"
| "publish_each be ((t, p) # ps) b =
     (let (r, b1) = mqtt_publish be t p b in if r = MqttOk then publish_each be ps b1 else (r, b1))"

definition publish_proxy_topics :: "'w br_env \<Rightarrow> readings \<Rightarrow> 'w bridge \<Rightarrow> mqtt_result \<times> 'w bridge" where
  "publish_proxy_topics be d b =
     (if \<not> has_mqtt be b then (MqttOk, b)
      else case proxy_topics (ha_frepr (be_ha be)) d of
        Inl _ \<Rightarrow> (MqttOtherError, b)
      | Inr ts \<Rightarrow> publish_each be
          (concat (map (\<lambda>(n, v). case v of None \<Rightarrow> [] | Some t \<Rightarrow> [(proxy_base b @ ''/'' @ n, PText t)]) ts)) b)"

definition register_payload :: "pyval \<Rightarrow> payload" where
  "register_payload v = (case v of VStr s \<Rightarrow> PText s | _ \<Rightarrow> PValue v)"

text \<open>The registers are published together, whatever becomes of each of them.\<close>

definition publish_data :: "'w br_env \<Rightarrow> readings \<Rightarrow> 'w bridge \<Rightarrow> mqtt_result \<times> 'w bridge" where
  "publish_data be d b =
     (if \<not> has_mqtt be b then (MqttOk, b)
      else let (r, b1) = mqtt_publish be (topic_base b @ ''/state'') (PState d) b
        in if r \<noteq> MqttOk then (r, b1)
           else publish_proxy_topics be d
             (foldl (\<lambda>b (k, v). snd (mqtt_publish be (topic_base b @ ''/register/'' @ k) (register_payload v) b)) b1 d))"

section \<open>Commands\<close>

definition check_rate_limit :: "rat \<Rightarrow> string \<Rightarrow> 'w bridge \<Rightarrow> bool \<times> 'w bridge" where
  "check_rate_limit now name b =
     (let last_time = (case br_last_write b name of None \<Rightarrow> 0 | Some t \<Rightarrow> t)
      in if now - last_time < RATE_LIMIT_SECONDS then (False, b)
         else (True, b\<lparr>br_last_write := (br_last_write b)(name \<mapsto> now)\<rparr>))"

definition log_audit_rejection :: "'w br_env \<Rightarrow> string \<Rightarrow> pyval \<Rightarrow> string \<Rightarrow> string \<Rightarrow> 'w bridge \<Rightarrow> 'w bridge" where
  "log_audit_rejection be key v result detail b =
     b\<lparr>br_coord := audit_event (be_env be) ''mqtt'' key v result detail (br_coord b)\<rparr>"

definition reg_1038_locked_by_integration :: "'w br_env \<Rightarrow> string \<Rightarrow> 'w \<Rightarrow> bool" where
  "reg_1038_locked_by_integration be entry_id w \<longleftrightarrow> entry_id \<noteq> [] \<and> be_locked be w"

definition reg_1038_owned :: "'w br_env \<Rightarrow> modbus_register \<Rightarrow> 'w bridge \<Rightarrow> bool" where
  "reg_1038_owned be r b \<longleftrightarrow> rg_name r = rg_name REG_BAT_MAX_CHARGE_LIMIT
     \<and> reg_1038_locked_by_integration be (br_entry_id b) (br_world b)"

text \<open>
  The value of a payload: a number, a rejection with its audit detail, or the
  \<^verbatim>\<open>OverflowError\<close> of an integer that no float holds, which the command's handler catches.
\<close>

datatype parsed = Parsed pyval | Rejected string | ParseRaised

definition finite_or_reject :: "pyval \<Rightarrow> parsed" where
  "finite_or_reject v = (case float_of_val v of
     Inl _ \<Rightarrow> ParseRaised
   | Inr x \<Rightarrow> if is_nan x \<or> is_inf x then Rejected ''NaN/Inf'' else Parsed v)"

definition parse_payload :: "string \<Rightarrow> parsed" where
  "parse_payload payload = (case (case json_loads payload of None \<Rightarrow> JVal (VStr payload) | Some j \<Rightarrow> j) of
     JVal (VStr s) \<Rightarrow> (case float_of_str s of
       Inl _ \<Rightarrow> Rejected (''non-numeric='' @ py_repr payload)
     | Inr x \<Rightarrow> finite_or_reject (VFloat x))
   | JVal (VInt i) \<Rightarrow> finite_or_reject (VInt i)
   | JVal (VFloat x) \<Rightarrow> finite_or_reject (VFloat x)
   | j \<Rightarrow> Rejected (''type='' @ json_type j))"

text \<open>The first part of a write: arbitration, validation and the rate limit.\<close>

definition accept_write :: "'w br_env \<Rightarrow> modbus_register \<Rightarrow> string \<Rightarrow> string \<Rightarrow> 'w bridge \<Rightarrow> 'w bridge" where
  "accept_write be r payload source b =
     (if rg_name r \<in> set BATTERY_CONTROL_NAMES \<and> \<not> br_installer b
      then log_audit_rejection be (rg_name r) VNone ''rejected_installer'' source b
      else if rg_name r \<in> set BATTERY_CONTROL_NAMES \<and> be_soc_active be (br_world b)
      then log_audit_rejection be (rg_name r) VNone ''rejected_soc_active'' source b
      else if reg_1038_owned be r b
      then log_audit_rejection be (rg_name r) VNone ''rejected_reg_1038_owner'' source b
      else case parse_payload payload of
        ParseRaised \<Rightarrow> b
      | Rejected d \<Rightarrow> log_audit_rejection be (rg_name r) VNone ''rejected_validation'' d b
      | Parsed v \<Rightarrow>
          (let (ok, b1) = check_rate_limit (ev_now (be_env be) (br_world b)) (rg_name r) b
           in if \<not> ok
              then log_audit_rejection be (rg_name r) v ''rejected_rate'' source
                     (b1\<lparr>br_rate_limited := br_rate_limited b1 + 1\<rparr>)
              else b1\<lparr>br_queue := br_queue b1 @ [\<lparr>cm_reg = r, cm_value = v, cm_source = source\<rparr>]\<rparr>))"

text \<open>The second part, under the lock, for the command that waited longest.\<close>

definition mqtt_precondition :: "'w br_env \<Rightarrow> modbus_register \<Rightarrow> 'w bridge \<Rightarrow> ('w client \<Rightarrow> bool) option" where
  "mqtt_precondition be r b = (if rg_name r = rg_name REG_BAT_MAX_CHARGE_LIMIT
     then Some (\<lambda>cl. \<not> reg_1038_locked_by_integration be (br_entry_id b) (cl_world cl)) else None)"

definition perform_write :: "'w br_env \<Rightarrow> command \<Rightarrow> 'w bridge \<Rightarrow> 'w bridge" where
  "perform_write be c b =
     (let r = cm_reg c
      in if reg_1038_owned be r b
         then log_audit_rejection be (rg_name r) (cm_value c) ''rejected_reg_1038_owner'' (cm_source c) b
         else let (x, co) = async_write_register (be_env be) (be_ha be) r (cm_value c) ''mqtt''
                              (mqtt_precondition be r b) True (br_coord b)
           in case x of
                Inl _ \<Rightarrow> b\<lparr>br_coord := co\<rparr>
              | Inr _ \<Rightarrow> b\<lparr>br_coord := co, br_command_count := br_command_count b + 1,
                           br_refreshes := br_refreshes b + 1\<rparr>)"

definition write_next :: "'w br_env \<Rightarrow> 'w bridge \<Rightarrow> 'w bridge" where
  "write_next be b = (case br_queue b of
     [] \<Rightarrow> b | c # q \<Rightarrow> perform_write be c (b\<lparr>br_queue := q\<rparr>))"

definition name_after :: "string \<Rightarrow> string \<Rightarrow> string option" where
  "name_after prefix topic = (if \<not> starts_with prefix topic then None
     else let n = drop (length prefix) topic in if n = [] \<or> CHR ''/'' \<in> set n then None else Some n)"

definition handle_command :: "'w br_env \<Rightarrow> mqtt_msg \<Rightarrow> 'w bridge \<Rightarrow> 'w bridge" where
  "handle_command be msg b =
     (if \<not> br_started b \<or> mm_retain msg then b
      else case name_after (topic_base b @ ''/command/'') (mm_topic msg) of
        None \<Rightarrow> b
      | Some n \<Rightarrow> (case REGISTER_BY_NAME n of
          None \<Rightarrow> b
        | Some r \<Rightarrow> if rg_access r \<noteq> RW \<or> rg_name r \<in> set MQTT_EXCLUDED_NAMES then b
                    else accept_write be r (mm_payload msg) (''mqtt/command/'' @ n) b))"

definition handle_proxy_command :: "'w br_env \<Rightarrow> mqtt_msg \<Rightarrow> 'w bridge \<Rightarrow> 'w bridge" where
  "handle_proxy_command be msg b =
     (if \<not> br_started b \<or> mm_retain msg then b
      else case name_after (proxy_base b @ ''/command/'') (mm_topic msg) of
        None \<Rightarrow> b
      | Some n \<Rightarrow> (case map_of PROXY_COMMAND_MAP n of
          None \<Rightarrow> b
        | Some r \<Rightarrow> accept_write be r (mm_payload msg) (''proxy/'' @ n) b))"

section \<open>Runs\<close>

text \<open>
  Messages, writes, starts and stops, polls and publications of the bridge, and everything else
  that happens to the coordinator, its client and the world: the clock, the polls and writes
  of other parts, the owner of register 1038, the SoC controller.
\<close>

datatype 'w bridge_step = BrCommand mqtt_msg | BrProxyCommand mqtt_msg | BrWrite | BrStart | BrRetry | BrStop
  | BrUpdate | BrPublish | BrOther "'w coord \<Rightarrow> 'w coord"

fun br_step :: "'w br_env \<Rightarrow> 'w bridge_step \<Rightarrow> 'w bridge \<Rightarrow> 'w bridge" where
  "br_step be (BrCommand m) b = handle_command be m b"
| "br_step be (BrProxyCommand m) b = handle_proxy_command be m b"
| "br_step be BrWrite b = write_next be b"
| "br_step be BrStart b = snd (async_start be b)"
| "br_step be BrRetry b = (if br_retrying b then case start_retry_loop be b of None \<Rightarrow> b | Some (_, b') \<Rightarrow> b' else b)"
| "br_step be BrStop b = snd (async_stop be b)"
| "br_step be BrUpdate b = on_coordinator_update b"
| "br_step be BrPublish b = (case br_publish_task b of
     None \<Rightarrow> b | Some d \<Rightarrow> snd (publish_data be d (b\<lparr>br_publish_task := None\<rparr>)))"
| "br_step be (BrOther f) b = b\<lparr>br_coord := f (br_coord b)\<rparr>"

definition br_run :: "'w br_env \<Rightarrow> 'w bridge_step list \<Rightarrow> 'w bridge \<Rightarrow> 'w bridge" where
  "br_run be ss b = foldl (\<lambda>b s. br_step be s b) b ss"

end
