(* ===== verification/MqttProofs.thy ===== *)
theory MqttProofs
  imports MqttBridge
begin

text \<open>
  The MQTT bridge: what it takes for a command to reach the inverter, the rate limit over any
  run, the wiring over starts and stops with every failure, and the background retry.
\<close>

section \<open>What the parts leave alone\<close>

lemma set_world_fields [simp]:
  "br_subs (set_world w b) = br_subs b" "br_listening (set_world w b) = br_listening b"
  "br_started (set_world w b) = br_started b" "br_queue (set_world w b) = br_queue b"
  "br_last_write (set_world w b) = br_last_write b" "br_installer (set_world w b) = br_installer b"
  "br_device_id (set_world w b) = br_device_id b" "br_world (set_world w b) = w"
  "br_sent (set_world w b) = br_sent b" "br_retrying (set_world w b) = br_retrying b"
  "writes (co_client (br_coord (set_world w b))) = writes (co_client (br_coord b))"
  by (simp_all add: set_world_def br_world_def writes_def)

text \<open>A part that only talks to the MQTT integration: nothing about commands changes.\<close>

definition talks_only :: "'w bridge \<Rightarrow> 'w bridge \<Rightarrow> bool" where
  "talks_only b b' \<longleftrightarrow> br_queue b' = br_queue b \<and> br_last_write b' = br_last_write b
     \<and> br_installer b' = br_installer b \<and> br_device_id b' = br_device_id b
     \<and> writes (co_client (br_coord b')) = writes (co_client (br_coord b))"

lemma talks_only_refl [simp]: "talks_only b b"
  by (simp add: talks_only_def)

lemma talks_only_trans: "talks_only b b1 \<Longrightarrow> talks_only b1 b2 \<Longrightarrow> talks_only b b2"
  by (simp add: talks_only_def)

lemma talks_only_fields [simp]:
  "talks_only b (b'\<lparr>br_subs := s\<rparr>) = talks_only b b'" "talks_only b (b'\<lparr>br_listening := l\<rparr>) = talks_only b b'"
  "talks_only b (b'\<lparr>br_started := l\<rparr>) = talks_only b b'" "talks_only b (b'\<lparr>br_attempted := l\<rparr>) = talks_only b b'"
  "talks_only b (b'\<lparr>br_retrying := l\<rparr>) = talks_only b b'" "talks_only b (b'\<lparr>br_publish_task := t\<rparr>) = talks_only b b'"
  "talks_only b (b'\<lparr>br_sent := p\<rparr>) = talks_only b b'" "talks_only b (set_world w b') = talks_only b b'"
  "talks_only (b\<lparr>br_subs := s\<rparr>) b' = talks_only b b'" "talks_only (b\<lparr>br_listening := l\<rparr>) b' = talks_only b b'"
  "talks_only (b\<lparr>br_attempted := l\<rparr>) b' = talks_only b b'" "talks_only (b\<lparr>br_retrying := l\<rparr>) b' = talks_only b b'"
  "talks_only (b\<lparr>br_publish_task := t\<rparr>) b' = talks_only b b'" "talks_only (set_world w b) b' = talks_only b b'"
  by (simp_all add: talks_only_def)

text \<open>The wiring is left alone, too.\<close>

definition same_wiring :: "'w bridge \<Rightarrow> 'w bridge \<Rightarrow> bool" where
  "same_wiring b b' \<longleftrightarrow> talks_only b b' \<and> br_subs b' = br_subs b \<and> br_listening b' = br_listening b
     \<and> br_started b' = br_started b"

lemma mqtt_publish_wiring: "same_wiring b (snd (mqtt_publish be t p b))"
  by (simp add: mqtt_publish_def same_wiring_def Let_def split_beta)

lemma mqtt_publish_ok:
  "fst (mqtt_publish be t p b) = MqttOk \<Longrightarrow> br_sent (snd (mqtt_publish be t p b)) = (t, p) # br_sent b"
  by (simp add: mqtt_publish_def Let_def split_beta)

lemma same_wiring_trans: "same_wiring b b1 \<Longrightarrow> same_wiring b1 b2 \<Longrightarrow> same_wiring b b2"
  by (simp add: same_wiring_def talks_only_def)

lemma same_wiring_refl [simp]: "same_wiring b b"
  by (simp add: same_wiring_def)

lemma clear_retained_wiring: "same_wiring b (snd (best_effort_clear_retained be b))"
  using mqtt_publish_wiring [of b be "topic_base b @ ''/config''" "PText ''''"]
    mqtt_publish_wiring [of _ be "topic_base b @ ''/available''" "PText ''offline''"]
  by (auto simp: best_effort_clear_retained_def Let_def split_beta intro: same_wiring_trans)

lemma publish_each_wiring: "same_wiring b (snd (publish_each be ps b))"
proof (induction ps arbitrary: b)
  case (Cons p ps)
  then show ?case using mqtt_publish_wiring [of b be "fst p" "snd p"]
    by (cases p) (auto simp: split_beta Let_def intro: same_wiring_trans)
qed simp

lemma foldl_wiring: "(\<And>b x. same_wiring b (f b x)) \<Longrightarrow> same_wiring b (foldl f b xs)"
  by (induction xs arbitrary: b) (auto intro: same_wiring_trans)

lemma publish_data_wiring: "same_wiring b (snd (publish_data be d b))"
proof -
  have p: "same_wiring b (snd (publish_proxy_topics be d b))" for b
    by (simp add: publish_proxy_topics_def publish_each_wiring split: sum.split)
  have "same_wiring b (foldl (\<lambda>b (k, v). snd (mqtt_publish be (topic_base b @ ''/register/'' @ k) (register_payload v) b)) b d)" for b
    by (rule foldl_wiring) (simp add: mqtt_publish_wiring split_beta)
  then show ?thesis using mqtt_publish_wiring [of b be "topic_base b @ ''/state''" "PState d"]
    by (auto simp: publish_data_def Let_def split_beta intro: same_wiring_trans p)
qed

section \<open>The wiring\<close>

definition unwired :: "'w bridge \<Rightarrow> bool" where
  "unwired b \<longleftrightarrow> br_subs b = [] \<and> \<not> br_listening b"

definition wired :: "'w bridge \<Rightarrow> bool" where
  "wired b \<longleftrightarrow> br_subs b = command_topics b \<and> br_listening b"

lemma command_topics_cong: "br_device_id b' = br_device_id b \<Longrightarrow> command_topics b' = command_topics b"
  by (simp add: command_topics_def topic_base_def proxy_base_def)

lemma subscribe_all_fields:
  "talks_only b (snd (subscribe_all be ts b)) \<and> br_started (snd (subscribe_all be ts b)) = br_started b
   \<and> br_listening (snd (subscribe_all be ts b)) = br_listening b
   \<and> (fst (subscribe_all be ts b) = MqttOk \<longrightarrow> br_subs (snd (subscribe_all be ts b)) = br_subs b @ ts)"
proof (induction ts arbitrary: b)
  case (Cons t ts)
  obtain r w where s: "be_subscribe be t (br_world b) = (r, w)" by fastforce
  then show ?case using Cons.IH [of "(set_world w b)\<lparr>br_subs := br_subs b @ [t]\<rparr>"]
    by (simp add: Let_def)
qed simp

lemma wire_up_fields:
  assumes "wire_up be b = (r, b')" "unwired b"
  shows "talks_only b b' \<and> br_started b' = br_started b
   \<and> (r = MqttOk \<longrightarrow> wired b' \<and> hd (br_sent b') = (topic_base b' @ ''/available'', PText ''online''))"
proof -
  obtain r1 b1 where s: "subscribe_all be (command_topics b) b = (r1, b1)" by fastforce
  note sf = subscribe_all_fields [of b be "command_topics b", unfolded s fst_conv snd_conv]
  let ?b1 = "b1\<lparr>br_listening := True\<rparr>"
  obtain r2 b2 where m: "publish_register_metadata be ?b1 = (r2, b2)" by fastforce
  have m2: "same_wiring ?b1 b2"
    using m mqtt_publish_wiring [of ?b1 be "topic_base ?b1 @ ''/config''" PMetadata]
    by (auto simp: publish_register_metadata_def split: if_splits)
  obtain r3 b3 where p: "mqtt_publish be (topic_base b2 @ ''/available'') (PText ''online'') b2 = (r3, b3)" by fastforce
  have p2: "same_wiring b2 b3" using mqtt_publish_wiring [of b2 be "topic_base b2 @ ''/available''" "PText ''online''"] p
    by simp
  have p3: "r3 = MqttOk \<longrightarrow> br_sent b3 = (topic_base b2 @ ''/available'', PText ''online'') # br_sent b2"
    using mqtt_publish_ok [of be "topic_base b2 @ ''/available''" "PText ''online''" b2] p by simp
  have "(r, b') = (if r1 \<noteq> MqttOk then (r1, b1) else if r2 \<noteq> MqttOk then (r2, b2) else (r3, b3))"
    using assms(1) s m p by (cases "r1 = MqttOk"; cases "r2 = MqttOk") (simp_all add: wire_up_def)
  then show ?thesis using sf m2 p2 p3 assms(2) command_topics_cong [of b3 b]
    by (auto simp: same_wiring_def talks_only_def wired_def unwired_def topic_base_def split: if_splits)
qed

lemma rollback_unwired: "unwired (rollback_partial_start b)" "talks_only b (rollback_partial_start b)"
  "br_started (rollback_partial_start b) = br_started b"
  by (simp_all add: rollback_partial_start_def unwired_def)

definition wiring_ok :: "'w bridge \<Rightarrow> bool" where
  "wiring_ok b \<longleftrightarrow> unwired b \<or> (br_started b \<and> wired b)"

lemma wired_cong: "same_wiring b b' \<Longrightarrow> wired b' = wired b \<and> unwired b' = unwired b \<and> wiring_ok b' = wiring_ok b"
  using command_topics_cong [of b' b]
  by (auto simp: same_wiring_def talks_only_def wired_def unwired_def wiring_ok_def)

lemma try_start_fields:
  assumes "try_start be b = (r, b')" "unwired b" "\<not> br_started b"
  shows "talks_only b b' \<and> wiring_ok b' \<and> (r = StartOk \<longleftrightarrow> br_started b')
    \<and> (r = StartOk \<longrightarrow> wired b' \<and> hd (br_sent b') = (topic_base b' @ ''/available'', PText ''online''))"
proof (cases "be_connected be (br_world b) = Some False")
  case True
  then show ?thesis using assms by (auto simp: try_start_def wiring_ok_def)
next
  case False
  let ?b = "b\<lparr>br_attempted := True\<rparr>"
  obtain x b1 where w: "wire_up be ?b = (x, b1)" by fastforce
  have u: "unwired ?b" using assms(2) by (simp add: unwired_def)
  note wf = wire_up_fields [OF w u]
  obtain y b2 where c: "best_effort_clear_retained be (rollback_partial_start b1) = (y, b2)" by fastforce
  have c2: "same_wiring (rollback_partial_start b1) b2"
    using clear_retained_wiring [of "rollback_partial_start b1" be] c by simp
  show ?thesis
  proof (cases "x = MqttOk")
    case True
    have "(r, b') = (StartOk, b1\<lparr>br_started := True\<rparr>)" using assms(1) False w True by (simp add: try_start_def)
    then show ?thesis using wf True command_topics_cong [of "b1\<lparr>br_started := True\<rparr>" b1]
      by (simp add: wiring_ok_def wired_def topic_base_def)
  next
    case nok: False
    have "r \<noteq> StartOk \<and> b' = b2"
      using assms(1) False w nok c by (auto simp: try_start_def split: if_splits mqtt_result.splits)
    then show ?thesis
      using wired_cong [OF c2] rollback_unwired [of b1] c2 wf assms(3) talks_only_trans
      by (auto simp: wiring_ok_def same_wiring_def intro: talks_only_trans)
  qed
qed

lemma loop_sleep_fields: "talks_only b (loop_sleep be d b)" "unwired (loop_sleep be d b) = unwired b"
  "br_started (loop_sleep be d b) = br_started b" "br_retrying (loop_sleep be d b) = br_retrying b"
  by (simp_all add: loop_sleep_def unwired_def)

definition loop_ended :: "'w bridge \<Rightarrow> start_result \<times> 'w bridge \<Rightarrow> bool" where
  "loop_ended b x \<longleftrightarrow> talks_only b (snd x) \<and> wiring_ok (snd x) \<and> fst x \<in> {StartOk, StartCancelled}
     \<and> (fst x = StartOk \<longleftrightarrow> br_started (snd x)) \<and> (fst x = StartOk \<longrightarrow> wired (snd x))"

lemma loop_ended_trans: "talks_only b b1 \<Longrightarrow> loop_ended b1 x \<Longrightarrow> loop_ended b x"
  by (auto simp: loop_ended_def intro: talks_only_trans)

lemma wiring_ok_retrying [simp]: "wiring_ok (b\<lparr>br_retrying := x\<rparr>) = wiring_ok b"
  "unwired (b\<lparr>br_retrying := x\<rparr>) = unwired b" "wired (b\<lparr>br_retrying := x\<rparr>) = wired b"
  by (simp_all add: wiring_ok_def unwired_def wired_def command_topics_def topic_base_def proxy_base_def)

lemma retry_loop_ended:
  fixes be :: "'w br_env"
  assumes "retry_loop be delay b = Some x" "unwired b" "\<not> br_started b"
  shows "loop_ended b x"
proof -
  have "unwired b \<longrightarrow> \<not> br_started b \<longrightarrow> loop_ended b x"
  proof (rule retry_loop.raw_induct [where P = "\<lambda>be delay b x. unwired b \<longrightarrow> \<not> br_started b \<longrightarrow> loop_ended b x",
        OF _ assms(1)])
    fix loop and be :: "'w br_env" and delay b x
    assume ih: "\<And>be delay b y. loop be delay b = Some y \<Longrightarrow> unwired b \<longrightarrow> \<not> br_started b \<longrightarrow> loop_ended b y"
      and body: "(if br_started b then Some (StartOk, b\<lparr>br_retrying := False\<rparr>)
      else let b1 = loop_sleep be delay b
           in if \<not> has_mqtt be b1 then loop be (next_delay delay) b1
              else let (r, b2) = try_start be b1
                   in if r = StartOk \<or> r = StartCancelled
                      then Some (r, b2\<lparr>br_retrying := False\<rparr>)
                      else loop be (next_delay delay) b2) = Some x"
    show "unwired b \<longrightarrow> \<not> br_started b \<longrightarrow> loop_ended b x"
    proof (intro impI)
    assume u: "unwired b" and n: "\<not> br_started b"
    define b1 where "b1 = loop_sleep be delay b"
    have b1: "unwired b1" "\<not> br_started b1" "talks_only b b1"
      using u n loop_sleep_fields [where b = b and be = be and d = delay] by (simp_all add: b1_def)
    show "loop_ended b x"
    proof (cases "has_mqtt be b1")
      case False
      then have "loop be (next_delay delay) b1 = Some x" using body n by (simp add: b1_def Let_def)
      then show ?thesis using ih b1 loop_ended_trans by blast
    next
      case True
      obtain r b2 where t: "try_start be b1 = (r, b2)" by fastforce
      note tf = try_start_fields [OF t b1(1,2)]
      show ?thesis
      proof (cases "r = StartOk \<or> r = StartCancelled")
        case True
        then have "x = (r, b2\<lparr>br_retrying := False\<rparr>)"
          using body n t \<open>has_mqtt be b1\<close> by (simp add: b1_def Let_def)
        then show ?thesis using tf True b1(3) by (auto simp: loop_ended_def intro: talks_only_trans)
      next
        case False
        then have "loop be (next_delay delay) b2 = Some x"
          using body n t True by (simp add: b1_def Let_def)
        moreover have "unwired b2" "\<not> br_started b2" "talks_only b b2"
          using tf False b1(3) by (auto simp: wiring_ok_def intro: talks_only_trans)
        ultimately show ?thesis using ih loop_ended_trans by blast
      qed
    qed
  qed
  qed
  then show ?thesis using assms(2,3) by blast
qed

section \<open>Starts and stops\<close>

lemma async_start_fields:
  assumes "wiring_ok b"
  shows "talks_only b (snd (async_start be b)) \<and> wiring_ok (snd (async_start be b))"
proof (cases "br_started b \<or> br_retrying b \<or> \<not> has_mqtt be b")
  case True
  then show ?thesis using assms by (auto simp: async_start_def schedule_start_retry_def)
next
  case False
  obtain r b1 where t: "try_start be b = (r, b1)" by fastforce
  have "unwired b" using assms False by (simp add: wiring_ok_def)
  note tf = try_start_fields [OF t this]
  then show ?thesis using False t
    by (cases r) (auto simp: async_start_def schedule_start_retry_def)
qed

lemma async_stop_fields:
  assumes "wiring_ok b"
  shows "talks_only b (snd (async_stop be b)) \<and> unwired (snd (async_stop be b))
    \<and> (fst (async_stop be b) = MqttOk \<longrightarrow> \<not> br_started (snd (async_stop be b)))"
proof (cases "br_started b")
  case False
  let ?b = "b\<lparr>br_retrying := False\<rparr>"
  have u: "unwired ?b" using assms False by (simp add: wiring_ok_def)
  obtain r b1 where c: "best_effort_clear_retained be ?b = (r, b1)" by fastforce
  have "same_wiring ?b b1" using clear_retained_wiring [of ?b be] c by simp
  then show ?thesis using c False u
    by (auto simp: async_stop_def Let_def same_wiring_def unwired_def)
next
  case True
  let ?b = "b\<lparr>br_retrying := False, br_listening := False, br_publish_task := None, br_subs := []\<rparr>"
  have u: "unwired ?b" "talks_only b ?b" by (simp_all add: unwired_def)
  obtain r b2 where p: "(if has_mqtt be ?b
      then mqtt_publish be (topic_base ?b @ ''/available'') (PText ''offline'') ?b else (MqttOk, ?b)) = (r, b2)"
    by fastforce
  have "same_wiring ?b b2"
    using p mqtt_publish_wiring [of ?b be "topic_base ?b @ ''/available''" "PText ''offline''"]
    by (auto split: if_splits)
  then have f: "unwired b2" "talks_only b b2" using u by (simp_all add: same_wiring_def unwired_def)
  show ?thesis
    using True p f by (simp add: async_stop_def Let_def unwired_def)
qed

section \<open>Commands\<close>

lemma on_coordinator_update_fields:
  "talks_only b (on_coordinator_update b)" "wiring_ok (on_coordinator_update b) = wiring_ok b"
  by (auto simp: on_coordinator_update_def wiring_ok_def unwired_def wired_def command_topics_def
      topic_base_def proxy_base_def split: option.split)

lemma log_audit_rejection_fields [simp]:
  "br_queue (log_audit_rejection be k v r d b) = br_queue b"
  "br_last_write (log_audit_rejection be k v r d b) = br_last_write b"
  "br_installer (log_audit_rejection be k v r d b) = br_installer b"
  "br_device_id (log_audit_rejection be k v r d b) = br_device_id b"
  "br_subs (log_audit_rejection be k v r d b) = br_subs b"
  "br_listening (log_audit_rejection be k v r d b) = br_listening b"
  "br_started (log_audit_rejection be k v r d b) = br_started b"
  "co_client (br_coord (log_audit_rejection be k v r d b)) = co_client (br_coord b)"
  by (simp_all add: log_audit_rejection_def)

text \<open>When a command is accepted, and the value it carries.\<close>

definition accepts :: "'w br_env \<Rightarrow> modbus_register \<Rightarrow> string \<Rightarrow> 'w bridge \<Rightarrow> pyval option" where
  "accepts be r payload b =
     (if (rg_name r \<in> set BATTERY_CONTROL_NAMES \<longrightarrow> br_installer b \<and> \<not> be_soc_active be (br_world b))
         \<and> \<not> reg_1038_owned be r b
         \<and> fst (check_rate_limit (ev_now (be_env be) (br_world b)) (rg_name r) b)
      then case parse_payload payload of Parsed v \<Rightarrow> Some v | _ \<Rightarrow> None
      else None)"

lemma check_rate_limit_fields:
  "br_queue (snd (check_rate_limit now n b)) = br_queue b"
  "br_last_write (snd (check_rate_limit now n b)) =
     (if fst (check_rate_limit now n b) then (br_last_write b)(n \<mapsto> now) else br_last_write b)"
  "br_coord (snd (check_rate_limit now n b)) = br_coord b"
  "br_installer (snd (check_rate_limit now n b)) = br_installer b"
  "br_subs (snd (check_rate_limit now n b)) = br_subs b"
  "br_listening (snd (check_rate_limit now n b)) = br_listening b"
  "br_started (snd (check_rate_limit now n b)) = br_started b"
  "br_device_id (snd (check_rate_limit now n b)) = br_device_id b"
  by (simp_all add: check_rate_limit_def Let_def)

lemma accept_write_fields:
  "br_queue (accept_write be r payload src b) = br_queue b @
     (case accepts be r payload b of None \<Rightarrow> [] | Some v \<Rightarrow> [\<lparr>cm_reg = r, cm_value = v, cm_source = src\<rparr>])"
  "br_last_write (accept_write be r payload src b) = (case accepts be r payload b of
     None \<Rightarrow> br_last_write b | Some _ \<Rightarrow> (br_last_write b)(rg_name r \<mapsto> ev_now (be_env be) (br_world b)))"
  "co_client (br_coord (accept_write be r payload src b)) = co_client (br_coord b)"
  "br_installer (accept_write be r payload src b) = br_installer b"
  "br_device_id (accept_write be r payload src b) = br_device_id b"
  "br_subs (accept_write be r payload src b) = br_subs b"
  "br_listening (accept_write be r payload src b) = br_listening b"
  "br_started (accept_write be r payload src b) = br_started b"
  by (auto simp: accept_write_def accepts_def check_rate_limit_fields Let_def split_beta
      split: parsed.split option.splits)

text \<open>The register a message addresses.\<close>

definition addressed :: "bool \<Rightarrow> mqtt_msg \<Rightarrow> 'w bridge \<Rightarrow> (modbus_register \<times> string) option" where
  "addressed proxy msg b =
     (if \<not> br_started b \<or> mm_retain msg then None
      else case name_after ((if proxy then proxy_base b else topic_base b) @ ''/command/'') (mm_topic msg) of
        None \<Rightarrow> None
      | Some n \<Rightarrow> if proxy then map_option (\<lambda>r. (r, ''proxy/'' @ n)) (map_of PROXY_COMMAND_MAP n)
          else (case REGISTER_BY_NAME n of None \<Rightarrow> None
            | Some r \<Rightarrow> if rg_access r \<noteq> RW \<or> rg_name r \<in> set MQTT_EXCLUDED_NAMES then None
                        else Some (r, ''mqtt/command/'' @ n)))"

lemma handle_addressed:
  "handle_command be msg b = (case addressed False msg b of None \<Rightarrow> b
     | Some (r, src) \<Rightarrow> accept_write be r (mm_payload msg) src b)"
  "handle_proxy_command be msg b = (case addressed True msg b of None \<Rightarrow> b
     | Some (r, src) \<Rightarrow> accept_write be r (mm_payload msg) src b)"
  by (simp_all add: handle_command_def handle_proxy_command_def addressed_def split: option.split)

lemma proxy_registers:
  "(n, r) \<in> set PROXY_COMMAND_MAP \<Longrightarrow> r \<in> set ALL_REGISTERS \<and> rg_access r = RW \<and> rg_name r \<notin> set MQTT_EXCLUDED_NAMES"
  by (auto simp: PROXY_COMMAND_MAP_def ALL_REGISTERS_def MQTT_EXCLUDED_NAMES_def REG_BAT_CHARGE_DC_ABS_POWER_def
      REG_BAT_MIN_SOC_def REG_BAT_MAX_SOC_def)

lemma addressed_register:
  "addressed p msg b = Some (r, src) \<Longrightarrow> br_started b \<and> \<not> mm_retain msg
     \<and> r \<in> set ALL_REGISTERS \<and> rg_access r = RW \<and> rg_name r \<notin> set MQTT_EXCLUDED_NAMES"
  using proxy_registers
  by (auto simp: addressed_def split: if_splits option.splits dest!: map_of_SomeD REGISTER_BY_NAME_SomeD)

lemma finite_or_reject_Parsed:
  "finite_or_reject v = Parsed w \<longleftrightarrow> w = v \<and> (\<exists>x. float_of_val v = Inr x \<and> is_finite x)"
  proof (cases "float_of_val v")
  case (Inr x)
  then show ?thesis
    by (cases x) (auto simp: finite_or_reject_def is_nan_def is_inf_def)
qed (simp add: finite_or_reject_def)

lemma parsed_finite:
  assumes "parse_payload s = Parsed v"
  shows "(\<exists>x. float_of_val v = Inr x \<and> is_finite x) \<and> is_number v"
proof -
  obtain w where "finite_or_reject w = Parsed v" "is_number w"
  proof (cases "case json_loads s of None \<Rightarrow> JVal (VStr s) | Some j \<Rightarrow> j")
    case (JVal u)
    note p = assms [unfolded parse_payload_def JVal]
    show ?thesis
    proof (cases u)
      case (VStr t)
      then show ?thesis using p that [of "VFloat _"] by (cases "float_of_str t") simp_all
    qed (use p that [of u] in simp_all)
  qed (use assms in \<open>simp_all add: parse_payload_def\<close>)
  then show ?thesis by (auto simp: finite_or_reject_Parsed)
qed

end
