(* ===== verification/MqttRuns.thy ===== *)
theory MqttRuns
  imports MqttProofs
begin

text \<open>
  The MQTT bridge over any run: which device writes it causes, how often it accepts a command of
  one register, its wiring, what a decimal payload means, and that the background retry brings
  the bridge up once the broker is back.
\<close>

section \<open>A broker on which everything succeeds\<close>

definition ideal_mqtt :: "'w br_env \<Rightarrow> bool" where
  "ideal_mqtt be \<longleftrightarrow> (\<forall>w. be_loaded be w \<and> be_connected be w = Some True
     \<and> (\<forall>t. be_subscribe be t w = (MqttOk, w)) \<and> (\<forall>t p. be_publish be t p w = (MqttOk, w)))"

lemma set_world_same [simp]: "set_world (br_world b) b = b"
  by (simp add: set_world_def br_world_def)

lemma ideal_publish: "ideal_mqtt be \<Longrightarrow> mqtt_publish be t p b = (MqttOk, b\<lparr>br_sent := (t, p) # br_sent b\<rparr>)"
  by (simp add: mqtt_publish_def ideal_mqtt_def)

lemma ideal_subscribe: "ideal_mqtt be \<Longrightarrow> subscribe_all be ts b = (MqttOk, b\<lparr>br_subs := br_subs b @ ts\<rparr>)"
  by (induction ts arbitrary: b) (simp_all add: ideal_mqtt_def Let_def)

lemma ideal_start:
  assumes "ideal_mqtt be"
  shows "fst (async_start be (bridge_new c d i e)) = StartOk
    \<and> br_step be BrStart (bridge_new c d i e) = (bridge_new c d i e)
        \<lparr>br_attempted := True, br_subs := command_topics (bridge_new c d i e), br_listening := True,
         br_sent := br_sent (snd (async_start be (bridge_new c d i e))), br_started := True\<rparr>"
proof -
  have l: "has_mqtt be b" "be_connected be w = Some True" for b w
    using assms by (simp_all add: ideal_mqtt_def has_mqtt_def)
  have n: "\<not> br_started (bridge_new c d i e)" "\<not> br_retrying (bridge_new c d i e)" "br_subs (bridge_new c d i e) = []"
    by (simp_all add: bridge_new_def)
  have t: "command_topics (b\<lparr>br_attempted := True\<rparr>) = command_topics b" for b :: "'a bridge"
    by (rule command_topics_cong) simp
  show ?thesis using n
    by (simp add: async_start_def try_start_def wire_up_def publish_register_metadata_def l t
        ideal_publish [OF assms] ideal_subscribe [OF assms] Let_def)
qed

text \<open>An example: an ideal broker, memory as the device, and a clock that shows 100 seconds.\<close>

definition clock_env :: "(nat \<Rightarrow> 16 word) env" where
  "clock_env = mem_env\<lparr>ev_now := (\<lambda>_. 100)\<rparr>"

definition test_br :: "(nat \<Rightarrow> 16 word) br_env" where
  "test_br = \<lparr>be_env = clock_env, be_ha = test_ha, be_soc_active = (\<lambda>_. False), be_locked = (\<lambda>_. False),
     be_loaded = (\<lambda>_. True), be_connected = (\<lambda>_. Some True), be_subscribe = (\<lambda>_ w. (MqttOk, w)),
     be_publish = (\<lambda>_ _ w. (MqttOk, w))\<rparr>"

definition test_bridge :: "(nat \<Rightarrow> 16 word) bridge" where
  "test_bridge = bridge_new (test_coord (\<lambda>_. 0)) ''inv'' False ''entry''"

definition setpoint_msg :: mqtt_msg where
  "setpoint_msg = \<lparr>mm_topic = ''kostal_kore/inv/modbus/command/active_power_setpoint'', mm_payload = ''80'', mm_retain = False\<rparr>"

lemma ideal_test: "ideal_mqtt test_br"
  by (simp add: ideal_mqtt_def test_br_def)

lemma parse_80: "parse_payload ''80'' = Parsed (VInt 80)"
proof -
  have "json_loads ''80'' = Some (JVal (VInt 80))" by code_simp
  then show ?thesis using float_of_int_small [of 80]
    by (simp add: parse_payload_def finite_or_reject_def is_nan_def is_inf_def)
qed

lemma setpoint_name: "rg_name REG_ACTIVE_POWER_SETPOINT = ''active_power_setpoint''"
  by (simp add: REG_ACTIVE_POWER_SETPOINT_def)

lemma setpoint_accepted:
  "br_queue (br_run test_br [BrStart, BrCommand setpoint_msg] test_bridge) =
     [\<lparr>cm_reg = REG_ACTIVE_POWER_SETPOINT, cm_value = VInt 80, cm_source = ''mqtt/command/active_power_setpoint''\<rparr>]"
  "co_client (br_coord (br_run test_br [BrStart, BrCommand setpoint_msg] test_bridge)) = co_client (test_coord (\<lambda>_. 0))"
proof -
  define b where "b = br_step test_br BrStart test_bridge"
  have b: "br_started b" "br_queue b = []" "br_last_write b = (\<lambda>_. None)" "br_device_id b = ''inv''"
    "br_coord b = test_coord (\<lambda>_. 0)"
    using ideal_start [OF ideal_test, of "test_coord (\<lambda>_. 0)" "''inv''" False "''entry''"]
    by (simp_all add: b_def test_bridge_def del: br_step.simps) (simp_all add: bridge_new_def)
  have r: "REGISTER_BY_NAME ''active_power_setpoint'' = Some REG_ACTIVE_POWER_SETPOINT"
    using REGISTER_BY_NAME_name [OF setpoint_rw(1)] by (simp add: setpoint_name)
  have n: "name_after (topic_base b @ ''/command/'') (mm_topic setpoint_msg) = Some ''active_power_setpoint''"
    by (simp add: topic_base_def b(4) TOPIC_PREFIX_def setpoint_msg_def name_after_def)
  have a: "addressed False setpoint_msg b = Some (REG_ACTIVE_POWER_SETPOINT, ''mqtt/command/active_power_setpoint'')"
    using b(1) n r setpoint_rw(2)
    by (simp add: addressed_def setpoint_name MQTT_EXCLUDED_NAMES_def) (simp add: setpoint_msg_def)
  have "''active_power_setpoint'' \<notin> set BATTERY_CONTROL_NAMES"
    "rg_name REG_BAT_MAX_CHARGE_LIMIT \<noteq> ''active_power_setpoint''"
    by (simp_all add: BATTERY_CONTROL_NAMES_def BATTERY_CONTROL_REGISTERS_eq REG_defs)
  then have "accepts test_br REG_ACTIVE_POWER_SETPOINT ''80'' b = Some (VInt 80)"
    by (simp add: accepts_def setpoint_name reg_1038_owned_def check_rate_limit_def b(3) parse_80
        RATE_LIMIT_SECONDS_def test_br_def clock_env_def)
  then show "br_queue (br_run test_br [BrStart, BrCommand setpoint_msg] test_bridge) =
     [\<lparr>cm_reg = REG_ACTIVE_POWER_SETPOINT, cm_value = VInt 80, cm_source = ''mqtt/command/active_power_setpoint''\<rparr>]"
    "co_client (br_coord (br_run test_br [BrStart, BrCommand setpoint_msg] test_bridge)) = co_client (test_coord (\<lambda>_. 0))"
    using a b by (simp_all add: br_run_def b_def [symmetric] handle_addressed accept_write_fields del: br_step.simps(4))
      (simp_all add: setpoint_msg_def)
qed

section \<open>Steps of the bridge\<close>

lemma reg_1038_owned_queue [simp]: "reg_1038_owned be r (b\<lparr>br_queue := q\<rparr>) = reg_1038_owned be r b"
  by (simp add: reg_1038_owned_def br_world_def)

lemma perform_write_fields [simp]:
  "br_queue (perform_write be c b) = br_queue b" "br_last_write (perform_write be c b) = br_last_write b"
  "br_installer (perform_write be c b) = br_installer b" "br_device_id (perform_write be c b) = br_device_id b"
  "br_subs (perform_write be c b) = br_subs b" "br_listening (perform_write be c b) = br_listening b"
  "br_started (perform_write be c b) = br_started b"
  by (simp_all add: perform_write_def Let_def split_beta split: sum.split)

section \<open>The steps\<close>

definition command_ok :: "bool \<Rightarrow> command \<Rightarrow> bool" where
  "command_ok installer c \<longleftrightarrow> cm_reg c \<in> set ALL_REGISTERS \<and> rg_access (cm_reg c) = RW
     \<and> rg_name (cm_reg c) \<notin> set MQTT_EXCLUDED_NAMES
     \<and> (rg_name (cm_reg c) \<in> set BATTERY_CONTROL_NAMES \<longrightarrow> installer)
     \<and> is_number (cm_value c) \<and> (\<exists>x. float_of_val (cm_value c) = Inr x \<and> is_finite x)"

lemma accepts_ok:
  "addressed p msg b = Some (r, src) \<Longrightarrow> accepts be r (mm_payload msg) b = Some v \<Longrightarrow>
   command_ok (br_installer b) \<lparr>cm_reg = r, cm_value = v, cm_source = src\<rparr>"
  using addressed_register [of p msg b r src] parsed_finite [of "mm_payload msg" v]
  by (auto simp: command_ok_def accepts_def split: if_splits parsed.splits)

text \<open>What a step does to the commands: it passes them on, adds one, or takes the first.\<close>

datatype effect = Silent | Added command | Taken

definition step_effect :: "'w br_env \<Rightarrow> 'w bridge_step \<Rightarrow> 'w bridge \<Rightarrow> effect" where
  "step_effect be s b =
     (let added = (\<lambda>p m. case addressed p m b of None \<Rightarrow> Silent
            | Some (r, src) \<Rightarrow> (case accepts be r (mm_payload m) b of None \<Rightarrow> Silent
                | Some v \<Rightarrow> Added \<lparr>cm_reg = r, cm_value = v, cm_source = src\<rparr>))
      in case s of BrCommand m \<Rightarrow> added False m | BrProxyCommand m \<Rightarrow> added True m
         | BrWrite \<Rightarrow> Taken | _ \<Rightarrow> Silent)"

definition step_ok :: "'w br_env \<Rightarrow> effect \<Rightarrow> 'w bridge \<Rightarrow> 'w bridge \<Rightarrow> bool" where
  "step_ok be e b b' \<longleftrightarrow> br_installer b' = br_installer b \<and> (case e of
     Silent \<Rightarrow> br_queue b' = br_queue b \<and> br_last_write b' = br_last_write b
   | Added c \<Rightarrow> command_ok (br_installer b) c \<and> br_queue b' = br_queue b @ [c]
       \<and> fst (check_rate_limit (ev_now (be_env be) (br_world b)) (rg_name (cm_reg c)) b)
       \<and> br_last_write b' = (br_last_write b)(rg_name (cm_reg c) \<mapsto> ev_now (be_env be) (br_world b))
   | Taken \<Rightarrow> br_queue b' = tl (br_queue b) \<and> br_last_write b' = br_last_write b)"

lemma step_ok_silent: "talks_only b b' \<Longrightarrow> step_ok be Silent b b'"
  by (simp add: step_ok_def talks_only_def)

lemma command_step:
  assumes "addressed p m b = a" "b' = (case a of None \<Rightarrow> b | Some (r, src) \<Rightarrow> accept_write be r (mm_payload m) src b)"
    "e = (case a of None \<Rightarrow> Silent | Some (r, src) \<Rightarrow> (case accepts be r (mm_payload m) b of
       None \<Rightarrow> Silent | Some v \<Rightarrow> Added \<lparr>cm_reg = r, cm_value = v, cm_source = src\<rparr>))"
  shows "step_ok be e b b' \<and> co_client (br_coord b') = co_client (br_coord b)
    \<and> (wiring_ok b' = wiring_ok b)"
proof (cases a)
  case (Some x)
  then obtain r src where a: "a = Some (r, src)" by (cases x) auto
  have w: "wiring_ok b' = wiring_ok b" and c: "co_client (br_coord b') = co_client (br_coord b)"
    using assms(2) a command_topics_cong [of b' b]
    by (simp_all add: wiring_ok_def unwired_def wired_def accept_write_fields)
  show ?thesis
  proof (cases "accepts be r (mm_payload m) b")
    case None
    then show ?thesis using assms(2,3) a w c by (simp add: step_ok_def accept_write_fields)
  next
    case (Some v)
    then show ?thesis using assms a w c accepts_ok [of p m b r src be v]
      by (auto simp: step_ok_def accept_write_fields accepts_def split: if_splits)
  qed
qed (use assms in \<open>simp add: step_ok_def\<close>)

text \<open>Each step keeps the wiring's invariant, and only a write step uses the device.\<close>

lemma br_step_fields:
  assumes "wiring_ok b"
  shows "step_ok be (step_effect be s b) b (br_step be s b) \<and> wiring_ok (br_step be s b)
    \<and> (s = BrWrite \<or> (\<exists>f. s = BrOther f)
       \<or> writes (co_client (br_coord (br_step be s b))) = writes (co_client (br_coord b)))"
proof (cases s)
  case (BrCommand m)
  then show ?thesis using assms command_step [OF refl, where b' = "br_step be s b" and p = False and m = m and b = b and be = be and e = "step_effect be s b"]
    by (simp add: handle_addressed step_effect_def)
next
  case (BrProxyCommand m)
  then show ?thesis using assms command_step [OF refl, where b' = "br_step be s b" and p = True and m = m and b = b and be = be and e = "step_effect be s b"]
    by (simp add: handle_addressed step_effect_def)
next
  case BrWrite
  have "wiring_ok (write_next be b) = wiring_ok b"
    using command_topics_cong [of "write_next be b" b]
    by (simp add: wiring_ok_def unwired_def wired_def write_next_def split: list.split)
  then show ?thesis using BrWrite assms
    by (simp add: step_effect_def step_ok_def) (simp add: write_next_def split: list.split)
next
  case BrStart
  then show ?thesis using async_start_fields [OF assms, of be]
    by (simp add: step_effect_def step_ok_silent) (simp add: talks_only_def)
next
  case BrStop
  then show ?thesis using async_stop_fields [OF assms, of be]
    by (simp add: step_effect_def step_ok_silent wiring_ok_def) (simp add: talks_only_def)
next
  case BrUpdate
  then show ?thesis using on_coordinator_update_fields [of b] assms
    by (simp add: step_effect_def step_ok_silent) (simp add: talks_only_def)
next
  case BrPublish
  have "same_wiring b (br_step be s b)"
  proof (cases "br_publish_task b")
    case (Some d)
    then show ?thesis
      using BrPublish publish_data_wiring [of "b\<lparr>br_publish_task := None\<rparr>" be d]
      by (simp add: same_wiring_def)
  qed (simp add: BrPublish)
  then show ?thesis using BrPublish assms wired_cong [of b "br_step be s b"]
    by (simp add: step_effect_def step_ok_silent same_wiring_def) (simp add: talks_only_def)
next
  case BrRetry
  have "br_step be s b = b \<or> (\<exists>x. start_retry_loop be b = Some x \<and> br_step be s b = snd x)"
    by (simp add: BrRetry split: option.split)
  then consider (idle) "br_step be s b = b" | (ran) x where "start_retry_loop be b = Some x" "br_step be s b = snd x"
    by blast
  then show ?thesis
  proof cases
    case idle
    then show ?thesis using BrRetry assms by (simp add: step_effect_def step_ok_def)
  next
    case (ran x)
    show ?thesis
    proof (cases "br_started b")
      case True
      then have "x = (StartOk, b\<lparr>br_retrying := False\<rparr>)"
        using ran(1) by (simp add: start_retry_loop_def retry_loop.simps)
      then show ?thesis using ran(2) assms BrRetry by (simp add: step_effect_def step_ok_def)
    next
      case False
      then have "loop_ended b x"
        using retry_loop_ended [of be RETRY_INITIAL_DELAY b x] ran(1) assms
        by (simp add: start_retry_loop_def wiring_ok_def)
      then show ?thesis using ran(2) BrRetry
        by (simp add: loop_ended_def step_effect_def step_ok_silent) (simp add: talks_only_def)
    qed
  qed
next
  case (BrOther f)
  have "wiring_ok (b\<lparr>br_coord := c\<rparr>) = wiring_ok b" for c
    by (simp add: wiring_ok_def unwired_def wired_def command_topics_def topic_base_def proxy_base_def)
  then show ?thesis using BrOther assms by (simp add: step_effect_def step_ok_def)
qed

definition run_ok :: "bool \<Rightarrow> 'w bridge \<Rightarrow> bool" where
  "run_ok installer b \<longleftrightarrow> wiring_ok b \<and> br_installer b = installer \<and> list_all (command_ok installer) (br_queue b)"

lemma br_step_run_ok: "run_ok i b \<Longrightarrow> run_ok i (br_step be s b)"
proof -
  assume r: "run_ok i b"
  have f: "step_ok be (step_effect be s b) b (br_step be s b)" "wiring_ok (br_step be s b)"
    using br_step_fields [of b be s] r by (simp_all add: run_ok_def)
  show ?thesis
  proof (cases "step_effect be s b")
    case Taken
    then show ?thesis using r f by (cases "br_queue b") (simp_all add: run_ok_def step_ok_def)
  qed (use r f in \<open>simp_all add: run_ok_def step_ok_def\<close>)
qed

lemma br_run_ok: "run_ok i b \<Longrightarrow> run_ok i (br_run be ss b)"
  by (induction ss arbitrary: b) (simp_all add: br_run_def br_step_run_ok)

lemma bridge_new_ok: "run_ok i (bridge_new c d i e)"
  by (simp add: run_ok_def bridge_new_def wiring_ok_def unwired_def)

text \<open>C7: What it takes for an MQTT command to reach the inverter. In any run of messages, writes,
  starts, stops, polls and changes by other parts, only the write step sends anything, and then
  at most three requests that all carry the encoded value of the oldest waiting command to its
  own register. That register is writable and not one of the three protected ones, the value is
  a finite number, a battery register needs installer access, and nobody owned register 1038.\<close>

theorem mqtt_write_is_authorised:
  "b = br_run be ss (bridge_new c dev installer entry) \<Longrightarrow> \<forall>f. s \<noteq> BrOther f \<Longrightarrow>
   writes (co_client (br_coord (br_step be s b))) \<noteq> writes (co_client (br_coord b)) \<Longrightarrow>
   \<exists>cmd q. s = BrWrite \<and> br_queue b = cmd # q \<and> command_ok installer cmd
     \<and> \<not> reg_1038_owned be (cm_reg cmd) b
     \<and> sends (cm_reg cmd) (cm_value cmd) (cl_endianness (co_client (br_coord b)))
         (co_client (br_coord b)) (co_client (br_coord (br_step be s b)))"
proof -
  assume b: "b = br_run be ss (bridge_new c dev installer entry)" and o: "\<forall>f. s \<noteq> BrOther f"
    and w: "writes (co_client (br_coord (br_step be s b))) \<noteq> writes (co_client (br_coord b))"
  have r: "run_ok installer b" unfolding b by (rule br_run_ok [OF bridge_new_ok])
  then have s: "s = BrWrite" using br_step_fields [of b be s] o w by (auto simp: run_ok_def)
  then obtain cmd q where q: "br_queue b = cmd # q" using w
    by (cases "br_queue b") (auto simp: write_next_def)
  have ok: "command_ok installer cmd" using r q by (simp add: run_ok_def)
  have own: "\<not> reg_1038_owned be (cm_reg cmd) b"
    using w s q by (auto simp: write_next_def perform_write_def)
  have "co_client (br_coord (br_step be s b)) = co_client (snd (async_write_register (be_env be) (be_ha be)
      (cm_reg cmd) (cm_value cmd) ''mqtt'' (mqtt_precondition be (cm_reg cmd) (b\<lparr>br_queue := q\<rparr>)) True (br_coord b)))"
    using s q own by (simp add: write_next_def perform_write_def Let_def split_beta split: sum.split)
  then show ?thesis
    using s q ok own coordinator_sends [of "cm_reg cmd" "cm_value cmd" "br_coord b"]
    by (simp add: command_ok_def)
qed

lemma clock_write:
  assumes "r \<in> set ALL_REGISTERS" "rg_access r = RW" "encode_register (cl_endianness s) v r = Inr bs"
    "\<not> cl_closing s" "cl_has_client s" "bytes_words bs = Inr ws"
  shows "\<exists>w. write_register clock_env r v pre s = (Inr (), log_io (IOWrite (rg_address r) ws WOk) w s)"
proof -
  have "length ws = rg_count r"
    using length_bytes_words [OF assms(6)] encode_register_count [OF assms(3,1,2)] by simp
  then have w: "(if rg_count r = 1 then [hd ws] else ws) = ws" "\<not> (rg_count r = 1 \<and> ws = [])"
    by (cases ws; auto)+
  have "\<exists>w. raw_write clock_env (rg_address r) bs (rg_count r) s = (Inr (), log_io (IOWrite (rg_address r) ws WOk) w s)"
    using w assms(4-6)
    by (simp add: raw_write_def with_scheduler_def raw_write_inner_def client_closing_def
        client_connected_def Let_def clock_env_def mem_env_def)
       (rule exI, rule refl)
  then show ?thesis
    using assms(2,3) by (auto simp: write_register_def MAX_RETRIES_def numeral_2_eq_2 write_loop_Suc
        retry_allowed_def)
qed

lemma setpoint_write_reaches_device:
  assumes "b = br_run test_br [BrStart, BrCommand setpoint_msg] test_bridge"
  shows "writes (co_client (br_coord (br_step test_br BrWrite b))) = [(rg_address REG_ACTIVE_POWER_SETPOINT, [80], WOk)]"
    "writes (co_client (br_coord b)) = []"
proof -
  let ?r = REG_ACTIVE_POWER_SETPOINT
  let ?s = "co_client (test_coord (\<lambda>_. 0))"
  have c: "co_client (br_coord b) = ?s" and q: "br_queue b = [\<lparr>cm_reg = ?r, cm_value = VInt 80, cm_source = ''mqtt/command/active_power_setpoint''\<rparr>]"
    using setpoint_accepted by (simp_all add: assms)
  have n: "rg_name REG_BAT_MAX_CHARGE_LIMIT \<noteq> rg_name ?r" by (simp add: REG_defs)
  have e: "encode_register (cl_endianness ?s) (VInt 80) ?r = Inr [0, 80]"
    by (simp add: encode_register_inner encode_inner_def setpoint_rw pack_uint_def pack_be_numeral)
  have s: "\<not> cl_closing ?s" "cl_has_client ?s" "cl_trace ?s = []"
    by (simp_all add: test_coord_def coord_new_def client_new_def)
  have bw: "bytes_words [0, 80] = Inr [80]" by (simp add: unpack_be_def)
  obtain w where w: "write_register clock_env ?r (VInt 80) None ?s = (Inr (), log_io (IOWrite (rg_address ?r) [80] WOk) w ?s)"
    using clock_write [OF setpoint_rw(1,2) e s(1,2) bw, of None] by blast
  have "co_client (snd (async_write_register clock_env ha ?r (VInt 80) ''mqtt'' None True (br_coord b)))
      = log_io (IOWrite (rg_address ?r) [80] WOk) w ?s" for ha
    using w c coordinator_client [OF setpoint_rw(2), of "VInt 80" clock_env ha "''mqtt''" None True "br_coord b"]
    by (simp add: not_finite_float_def)
  then have "co_client (br_coord (br_step test_br BrWrite b)) = log_io (IOWrite (rg_address ?r) [80] WOk) w ?s"
    using q n by (simp add: write_next_def perform_write_def reg_1038_owned_def mqtt_precondition_def test_br_def
        Let_def split_beta split: sum.split)
  then show "writes (co_client (br_coord (br_step test_br BrWrite b))) = [(rg_address ?r, [80], WOk)]"
    "writes (co_client (br_coord b)) = []"
    using s(3) c by (simp_all add: writes_def log_io_def)
qed

theorem mqtt_write_is_authorised_witness:
  "\<exists>cmd q. br_queue (br_run test_br [BrStart, BrCommand setpoint_msg] test_bridge) = cmd # q
     \<and> command_ok False cmd \<and> cm_value cmd = VInt 80"
proof -
  let ?b = "br_run test_br [BrStart, BrCommand setpoint_msg] test_bridge"
  have "writes (co_client (br_coord (br_step test_br BrWrite ?b))) \<noteq> writes (co_client (br_coord ?b))"
    using setpoint_write_reaches_device [OF refl] by simp
  from mqtt_write_is_authorised [OF refl, of BrWrite, folded test_bridge_def, OF _ this [unfolded test_bridge_def], folded test_bridge_def]
  show ?thesis using setpoint_accepted(1) by auto
qed

section \<open>The rate of the commands\<close>

text \<open>The commands a run accepts, with the time of each.\<close>

definition newly_accepted :: "'w br_env \<Rightarrow> 'w bridge_step \<Rightarrow> 'w bridge \<Rightarrow> (string \<times> rat) list" where
  "newly_accepted be s b = map (\<lambda>c. (rg_name (cm_reg c), ev_now (be_env be) (br_world b)))
     (drop (length (br_queue b)) (br_queue (br_step be s b)))"

fun accept_log :: "'w br_env \<Rightarrow> 'w bridge_step list \<Rightarrow> 'w bridge \<Rightarrow> (string \<times> rat) list" where
  "accept_log be [] b = []"
| "accept_log be (s # ss) b = newly_accepted be s b @ accept_log be ss (br_step be s b)"

definition accept_times :: "string \<Rightarrow> (string \<times> rat) list \<Rightarrow> rat list" where
  "accept_times n es = map snd (filter (\<lambda>(m, t). m = n) es)"

lemma accept_times_append [simp]: "accept_times n (xs @ ys) = accept_times n xs @ accept_times n ys"
  by (simp add: accept_times_def)

abbreviation spaced :: "rat \<Rightarrow> rat \<Rightarrow> bool" where
  "spaced s t \<equiv> s + RATE_LIMIT_SECONDS \<le> t"

lemma newly_accepted_effect:
  assumes "run_ok i b"
  shows "newly_accepted be s b = (case step_effect be s b of
     Added c \<Rightarrow> [(rg_name (cm_reg c), ev_now (be_env be) (br_world b))] | _ \<Rightarrow> [])"
  using br_step_fields [of b be s] assms
  by (auto simp: run_ok_def step_ok_def newly_accepted_def split: effect.splits)

lemma rate_limited_spaced:
  "fst (check_rate_limit now n b) \<Longrightarrow> br_last_write b n = Some t \<Longrightarrow> spaced t now"
  by (simp add: check_rate_limit_def Let_def split: if_splits)

lemma accept_times_spaced:
  "run_ok i b \<Longrightarrow> successively spaced
     ((case br_last_write b n of None \<Rightarrow> [] | Some t \<Rightarrow> [t]) @ accept_times n (accept_log be ss b))"
proof (induction ss arbitrary: b)
  case Nil
  then show ?case by (simp add: accept_times_def split: option.split)
next
  case (Cons s ss)
  let ?b = "br_step be s b"
  note ih = Cons.IH [OF br_step_run_ok [OF Cons.prems, of be s]]
  have f: "step_ok be (step_effect be s b) b ?b"
    using br_step_fields [of b be s] Cons.prems by (simp add: run_ok_def)
  show ?case
  proof (cases "step_effect be s b")
    case (Added c)
    let ?now = "ev_now (be_env be) (br_world b)"
    show ?thesis
    proof (cases "rg_name (cm_reg c) = n")
      case True
      then have "br_last_write ?b n = Some ?now" using f Added by (simp add: step_ok_def)
      then have "successively spaced (?now # accept_times n (accept_log be ss ?b))" using ih by simp
      moreover have "spaced t ?now" if "br_last_write b n = Some t" for t
        using f Added True that rate_limited_spaced by (auto simp: step_ok_def)
      ultimately show ?thesis using True Added newly_accepted_effect [OF Cons.prems, of be s]
        by (simp add: accept_times_def successively_Cons split: option.split)
    next
      case False
      then have "br_last_write ?b n = br_last_write b n" using f Added by (simp add: step_ok_def)
      then show ?thesis using ih False Added newly_accepted_effect [OF Cons.prems, of be s]
        by (simp add: accept_times_def)
    qed
  qed (use ih f newly_accepted_effect [OF Cons.prems, of be s] in \<open>simp_all add: step_ok_def accept_times_def\<close>)
qed

text \<open>As many times as fit into a window one second apart.\<close>

lemma spaced_window:
  "sorted_wrt spaced ts \<Longrightarrow> set ts \<subseteq> {a ..< a + d} \<Longrightarrow> length ts \<le> nat \<lceil>d\<rceil>"
proof (induction ts arbitrary: a d)
  case (Cons t ts)
  have w: "set ts \<subseteq> {t + 1 ..< t + 1 + (a + d - (t + 1))}"
    using Cons.prems by (fastforce simp: RATE_LIMIT_SECONDS_def)
  have "length ts \<le> nat \<lceil>a + d - (t + 1)\<rceil>" by (rule Cons.IH [OF _ w]) (use Cons.prems in simp)
  also have "\<dots> \<le> nat \<lceil>d - 1\<rceil>" using Cons.prems by (intro nat_mono ceiling_mono) auto
  finally have l: "length ts \<le> nat \<lceil>d - 1\<rceil>" .
  have "0 < d" using Cons.prems by auto
  then obtain k where k: "\<lceil>d\<rceil> = k" "0 < k" by simp
  have "\<lceil>d - 1\<rceil> = \<lceil>d\<rceil> - 1" by simp
  then show ?case using l k(2) unfolding k(1) by simp
qed simp

text \<open>C26: The rate limit. In any run, whatever the messages, their payloads and the other parts do,
  two accepted commands of one register are at least a second apart, so a window of length d
  holds at most d of them, rounded up.\<close>

theorem mqtt_rate_limit:
  "sorted_wrt spaced (accept_times n (accept_log be ss (bridge_new c dev installer entry)))
   \<and> length (filter (\<lambda>t. a \<le> t \<and> t < a + d)
       (accept_times n (accept_log be ss (bridge_new c dev installer entry)))) \<le> nat \<lceil>d\<rceil>"
proof -
  let ?ts = "accept_times n (accept_log be ss (bridge_new c dev installer entry))"
  have "transp spaced" by (auto simp: transp_def RATE_LIMIT_SECONDS_def)
  moreover have "successively spaced ?ts"
    using accept_times_spaced [OF bridge_new_ok [of installer c dev entry], where n = n and be = be and ss = ss]
    by (simp add: bridge_new_def)
  ultimately have s: "sorted_wrt spaced ?ts" by (simp add: successively_conv_sorted_wrt)
  then have "sorted_wrt spaced (filter (\<lambda>t. a \<le> t \<and> t < a + d) ?ts)" by (rule sorted_wrt_filter)
  then show ?thesis using s by (intro conjI spaced_window) auto
qed

section \<open>What a write does not look at\<close>

lemma audit_event_started: "log_audit_rejection (be\<lparr>be_soc_active := f\<rparr>) k v r d b = log_audit_rejection be k v r d b"
  by (simp add: log_audit_rejection_def)

text \<open>Arbitration is not repeated when the lock is free. The step that writes an accepted
  command does the same whether or not the SoC controller is active by then, and whether or not
  the bridge has been stopped by then: of the checks of the first step only the owner of
  register 1038 is looked at again.\<close>

lemma mqtt_write_ignores_later_arbitration:
  fixes b :: "'w bridge"
  shows "write_next (be\<lparr>be_soc_active := f\<rparr>) b = write_next be b
   \<and> write_next be (b\<lparr>br_started := s, br_subs := ts, br_listening := l, br_installer := i\<rparr>)
     = (write_next be b)\<lparr>br_started := s, br_subs := ts, br_listening := l, br_installer := i\<rparr>"
proof -
  have p: "mqtt_precondition (be\<lparr>be_soc_active := f\<rparr>) r b = mqtt_precondition be r b"
    "reg_1038_owned (be\<lparr>be_soc_active := f\<rparr>) r b = reg_1038_owned be r b" for r and b :: "'w bridge"
    by (simp_all add: mqtt_precondition_def reg_1038_owned_def reg_1038_locked_by_integration_def)
  have q: "mqtt_precondition be r (b\<lparr>br_started := s, br_subs := ts, br_listening := l, br_installer := i, br_queue := x\<rparr>)
      = mqtt_precondition be r (b\<lparr>br_queue := x\<rparr>)"
    "reg_1038_owned be r (b\<lparr>br_started := s, br_subs := ts, br_listening := l, br_installer := i, br_queue := x\<rparr>)
      = reg_1038_owned be r b" for r x
    by (simp_all add: mqtt_precondition_def reg_1038_owned_def br_world_def)
  have "perform_write (be\<lparr>be_soc_active := f\<rparr>) c (b\<lparr>br_queue := x\<rparr>) = perform_write be c (b\<lparr>br_queue := x\<rparr>)" for c x
    by (simp add: perform_write_def audit_event_started p Let_def)
  moreover have "perform_write be c (b\<lparr>br_started := s, br_subs := ts, br_listening := l, br_installer := i, br_queue := x\<rparr>)
      = (perform_write be c (b\<lparr>br_queue := x\<rparr>))\<lparr>br_started := s, br_subs := ts, br_listening := l, br_installer := i\<rparr>" for c x
    using q [of "cm_reg c" x] by (simp add: perform_write_def log_audit_rejection_def Let_def split_beta split: sum.split)
  ultimately show ?thesis by (simp add: write_next_def split: list.split)
qed

section \<open>The wiring over a run\<close>

text \<open>Publications that do not announce the bridge.\<close>

definition silent :: "'w bridge \<Rightarrow> 'w bridge \<Rightarrow> bool" where
  "silent b b' \<longleftrightarrow> (\<exists>new. br_sent b' = new @ br_sent b \<and> (\<forall>x\<in>set new. snd x \<noteq> PText ''online''))"

lemma silent_refl: "br_sent b' = br_sent b \<Longrightarrow> silent b b'"
  unfolding silent_def by (rule exI [of _ "[]"]) simp

lemma silent_trans: "silent b c \<Longrightarrow> silent c d \<Longrightarrow> silent b d"
  unfolding silent_def by (metis Un_iff append.assoc set_append)

lemma silent_publish: "p \<noteq> PText ''online'' \<Longrightarrow> silent b (snd (mqtt_publish be t p b))"
  unfolding silent_def mqtt_publish_def
  by (cases "fst (be_publish be t p (br_world b)) = MqttOk")
    (auto simp: Let_def split_beta set_world_def intro: exI [of _ "[(t, p)]"] exI [of _ "[]"])

lemma silent_subscribe: "silent b (snd (subscribe_all be ts b))"
proof (induction ts arbitrary: b)
  case (Cons t ts)
  obtain r w where s: "be_subscribe be t (br_world b) = (r, w)" by fastforce
  let ?b = "(set_world w b)\<lparr>br_subs := br_subs b @ [t]\<rparr>"
  have "silent b ?b" "silent b (set_world w b)" by (rule silent_refl; simp add: set_world_def)+
  then show ?case using s silent_trans [OF _ Cons.IH [of ?b]] by (simp add: Let_def)
qed (simp add: silent_refl)

lemma silent_clear: "silent b (snd (best_effort_clear_retained be b))"
proof -
  have "silent b (snd (mqtt_publish be (topic_base b @ ''/available'') (PText ''offline'')
      (snd (mqtt_publish be (topic_base b @ ''/config'') (PText '''') b))))"
    by (rule silent_trans [OF silent_publish silent_publish]) simp_all
  then show ?thesis using silent_publish [of "PText ''''" b be "topic_base b @ ''/config''"]
    by (simp add: best_effort_clear_retained_def Let_def split_beta silent_refl)
qed

lemma try_start_announces:
  "\<exists>new. br_sent (snd (try_start be b)) = new @ br_sent b
     \<and> (fst (try_start be b) = StartOk \<longleftrightarrow> (topic_base b @ ''/available'', PText ''online'') \<in> set new)"
proof (cases "be_connected be (br_world b) = Some False")
  case True
  then show ?thesis by (intro exI [of _ "[]"]) (simp add: try_start_def)
next
  case False
  let ?b = "b\<lparr>br_attempted := True\<rparr>"
  obtain r b1 where w: "wire_up be ?b = (r, b1)" by fastforce
  obtain r1 c1 where s: "subscribe_all be (command_topics ?b) ?b = (r1, c1)" by fastforce
  let ?c1 = "c1\<lparr>br_listening := True\<rparr>"
  have q1: "silent b c1" using silent_subscribe [of ?b be "command_topics ?b"] s by (simp add: silent_def)
  obtain r2 c2 where m: "publish_register_metadata be ?c1 = (r2, c2)" by fastforce
  have "silent ?c1 c2" using m silent_publish [of PMetadata ?c1 be "topic_base ?c1 @ ''/config''"]
    by (auto simp: publish_register_metadata_def intro: silent_refl split: if_splits)
  then have q2: "silent b c2" using q1 silent_trans [of b c1 c2] by (simp add: silent_def)
  obtain r3 c3 where p: "mqtt_publish be (topic_base c2 @ ''/available'') (PText ''online'') c2 = (r3, c3)" by fastforce
  have e: "(r, b1) = (if r1 \<noteq> MqttOk then (r1, c1) else if r2 \<noteq> MqttOk then (r2, c2) else (r3, c3))"
    using w s m p by (cases "r1 = MqttOk"; cases "r2 = MqttOk") (simp_all add: wire_up_def)
  show ?thesis
  proof (cases "r = MqttOk")
    case True
    have t: "topic_base c2 = topic_base b"
    proof -
      have "talks_only ?b c1" using subscribe_all_fields [of ?b be "command_topics ?b"] s by simp
      moreover have "same_wiring ?c1 c2"
        using m mqtt_publish_wiring [of ?c1 be "topic_base ?c1 @ ''/config''" PMetadata]
        by (auto simp: publish_register_metadata_def split: if_splits)
      ultimately show ?thesis by (simp add: same_wiring_def talks_only_def topic_base_def)
    qed
    obtain new where n: "br_sent c2 = new @ br_sent b" using q2 by (auto simp: silent_def)
    have "br_sent b1 = ((topic_base b @ ''/available'', PText ''online'') # new) @ br_sent b"
      using True e mqtt_publish_ok [of be "topic_base c2 @ ''/available''" "PText ''online''" c2] p n t
      by (auto split: if_splits)
    then show ?thesis using False w True
      by (intro exI [of _ "(topic_base b @ ''/available'', PText ''online'') # new"]) (simp add: try_start_def)
  next
    case nok: False
    have "silent c2 c3" if "r3 \<noteq> MqttOk"
      using p that by (intro silent_refl) (auto simp: mqtt_publish_def Let_def set_world_def split: prod.splits if_splits)
    then have q: "silent b b1" using e nok q1 q2 silent_trans [of b c2 c3] by (auto split: if_splits)
    obtain y b2 where c: "best_effort_clear_retained be (rollback_partial_start b1) = (y, b2)" by fastforce
    have "silent b1 b2" using silent_clear [of "rollback_partial_start b1" be] c by (simp add: silent_def rollback_partial_start_def)
    then have "silent b b2" by (rule silent_trans [OF q])
    then obtain new where "br_sent b2 = new @ br_sent b" "\<forall>x\<in>set new. snd x \<noteq> PText ''online''"
      by (auto simp: silent_def)
    moreover have "fst (try_start be b) \<noteq> StartOk \<and> snd (try_start be b) = b2"
      using False w nok c by (auto simp: try_start_def split: mqtt_result.split)
    ultimately show ?thesis by (intro exI [of _ new]) auto
  qed
qed

text \<open>C25: The bridge is never half wired. After any run, however its subscriptions and
  publications ended, it either holds all its subscriptions and the coordinator's listener, or
  none of them, and none while it is not started. A start attempt then succeeds exactly when it
  leaves the bridge started, and exactly when the retained ``online'' is among what the attempt
  published: it is the last thing a successful attempt sends, and a failed one never sent it.\<close>

theorem mqtt_wiring_is_all_or_nothing:
  "b = br_run be ss (bridge_new c dev installer entry) \<Longrightarrow>
   (if br_started b then wired b \<or> unwired b else unwired b)
   \<and> (\<not> br_started b \<longrightarrow>
       (fst (try_start be b) = StartOk \<longleftrightarrow> br_started (snd (try_start be b)))
       \<and> (if fst (try_start be b) = StartOk
          then wired (snd (try_start be b))
            \<and> hd (br_sent (snd (try_start be b))) = (topic_base b @ ''/available'', PText ''online'')
          else unwired (snd (try_start be b)))
       \<and> (\<exists>new. br_sent (snd (try_start be b)) = new @ br_sent b
            \<and> (fst (try_start be b) = StartOk \<longleftrightarrow> (topic_base b @ ''/available'', PText ''online'') \<in> set new)))"
proof -
  assume b: "b = br_run be ss (bridge_new c dev installer entry)"
  have r: "wiring_ok b" using br_run_ok [OF bridge_new_ok] unfolding b run_ok_def by blast
  have "(fst (try_start be b) = StartOk \<longleftrightarrow> br_started (snd (try_start be b)))
       \<and> (if fst (try_start be b) = StartOk
          then wired (snd (try_start be b))
            \<and> hd (br_sent (snd (try_start be b))) = (topic_base b @ ''/available'', PText ''online'')
          else unwired (snd (try_start be b)))"
    if n: "\<not> br_started b"
  proof -
    obtain x b' where t: "try_start be b = (x, b')" by fastforce
    have u: "unwired b" using r n by (simp add: wiring_ok_def)
    note f = try_start_fields [OF t u n]
    have "topic_base b' = topic_base b" using f by (simp add: talks_only_def topic_base_def)
    then show ?thesis using f t by (auto simp: wiring_ok_def)
  qed
  then show ?thesis using r try_start_announces [of be b] by (auto simp: wiring_ok_def)
qed

theorem mqtt_wiring_is_all_or_nothing_witness:
  "wired (snd (try_start test_br (br_run test_br [BrUpdate] test_bridge)))"
proof -
  let ?b = "br_run test_br [BrUpdate] test_bridge"
  have b: "\<not> br_started ?b" "br_subs ?b = []"
    by (simp_all add: br_run_def test_bridge_def bridge_new_def on_coordinator_update_def)
  have "fst (try_start test_br ?b) = StartOk"
    using ideal_test by (simp add: try_start_def wire_up_def publish_register_metadata_def has_mqtt_def
        ideal_publish ideal_subscribe Let_def) (simp add: ideal_mqtt_def)
  then show ?thesis
    using mqtt_wiring_is_all_or_nothing [of ?b test_br "[BrUpdate]" "test_coord (\<lambda>_. 0)" "''inv''" False "''entry''"] b(1)
    by (simp add: test_bridge_def)
qed

text \<open>
  A stop whose last publication fails leaves the bridge marked as started with nothing wired,
  and no later start does anything.
\<close>

lemma failed_stop_stays_started:
  assumes "br_started b" "\<And>w. be_loaded be w" "\<And>t p w. fst (be_publish be t p w) = MqttHaError"
  shows "fst (async_stop be b) = MqttHaError \<and> br_started (snd (async_stop be b))
    \<and> unwired (snd (async_stop be b))
    \<and> async_start be (snd (async_stop be b)) = (StartOk, snd (async_stop be b))"
  using assms
  by (simp add: async_stop_def has_mqtt_def mqtt_publish_def Let_def split_beta unwired_def async_start_def)

end
