(* ===== verification/MqttLive.thy ===== *)
theory MqttLive
  imports MqttRuns
begin

text \<open>
  The MQTT bridge: its background retry ends once the broker is back, and a decimal integer on a
  command topic is understood as that integer.
\<close>

section \<open>The retry comes to an end\<close>

abbreviation br_now :: "'w br_env \<Rightarrow> 'w \<Rightarrow> rat" where
  "br_now be \<equiv> ev_now (be_env be)"

text \<open>
  From a time on the MQTT integration is loaded, the broker connected, and every subscription
  and publication succeeds. A sleep takes its time, and no call turns the clock back or is
  cancelled.
\<close>

definition broker_from :: "rat \<Rightarrow> 'w br_env \<Rightarrow> bool" where
  "broker_from t be \<longleftrightarrow> (\<forall>w.
     (t \<le> br_now be w \<longrightarrow> be_loaded be w \<and> be_connected be w \<noteq> Some False
        \<and> (\<forall>n. fst (be_subscribe be n w) = MqttOk) \<and> (\<forall>n p. fst (be_publish be n p w) = MqttOk))
     \<and> (\<forall>d. br_now be w + d \<le> br_now be (ev_sleep (be_env be) d w))
     \<and> (\<forall>n. br_now be w \<le> br_now be (snd (be_subscribe be n w)) \<and> fst (be_subscribe be n w) \<noteq> MqttCancelled)
     \<and> (\<forall>n p. br_now be w \<le> br_now be (snd (be_publish be n p w)) \<and> fst (be_publish be n p w) \<noteq> MqttCancelled))"

text \<open>A part of an attempt: the clock goes forward, it is not cancelled, and it succeeds late enough.\<close>

definition attempt_ok :: "rat \<Rightarrow> 'w br_env \<Rightarrow> 'w bridge \<Rightarrow> mqtt_result \<times> 'w bridge \<Rightarrow> bool" where
  "attempt_ok t be b x \<longleftrightarrow> br_now be (br_world b) \<le> br_now be (br_world (snd x)) \<and> fst x \<noteq> MqttCancelled
     \<and> (t \<le> br_now be (br_world b) \<longrightarrow> fst x = MqttOk)"

lemma br_world_fields [simp]:
  "br_world (b\<lparr>br_subs := s\<rparr>) = br_world b" "br_world (b\<lparr>br_listening := l\<rparr>) = br_world b"
  "br_world (b\<lparr>br_sent := p\<rparr>) = br_world b" "br_world (b\<lparr>br_attempted := l\<rparr>) = br_world b"
  "br_world (b\<lparr>br_started := l\<rparr>) = br_world b" "br_world (b\<lparr>br_retrying := l\<rparr>) = br_world b"
  "br_world (rollback_partial_start b) = br_world b"
  by (simp_all add: br_world_def rollback_partial_start_def)

lemma attempt_publish: "broker_from t be \<Longrightarrow> attempt_ok t be b (mqtt_publish be n p b)"
  by (simp add: broker_from_def attempt_ok_def mqtt_publish_def Let_def split_beta)

lemma attempt_subscribe: "broker_from t be \<Longrightarrow> attempt_ok t be b (subscribe_all be ts b)"
proof (induction ts arbitrary: b)
  case (Cons n ts)
  obtain r w where s: "be_subscribe be n (br_world b) = (r, w)" by fastforce
  have f: "br_now be (br_world b) \<le> br_now be w" "r \<noteq> MqttCancelled" "t \<le> br_now be (br_world b) \<longrightarrow> r = MqttOk"
    using Cons.prems s unfolding broker_from_def by (metis fst_conv snd_conv)+
  then show ?case using s Cons.IH [OF Cons.prems, of "(set_world w b)\<lparr>br_subs := br_subs b @ [n]\<rparr>"]
    by (auto simp: attempt_ok_def Let_def)
qed (simp add: attempt_ok_def)

lemma attempt_wire_up: "broker_from t be \<Longrightarrow> attempt_ok t be b (wire_up be b)"
proof -
  assume be: "broker_from t be"
  obtain r1 b1 where s: "subscribe_all be (command_topics b) b = (r1, b1)" by fastforce
  let ?b1 = "b1\<lparr>br_listening := True\<rparr>"
  obtain r2 b2 where m: "publish_register_metadata be ?b1 = (r2, b2)" by fastforce
  obtain r3 b3 where p: "mqtt_publish be (topic_base b2 @ ''/available'') (PText ''online'') b2 = (r3, b3)" by fastforce
  have a1: "attempt_ok t be b (r1, b1)" using attempt_subscribe [OF be, of b "command_topics b"] s by simp
  have a2: "attempt_ok t be b1 (r2, b2)"
    using m attempt_publish [OF be, of ?b1 "topic_base ?b1 @ ''/config''" PMetadata]
    by (auto simp: publish_register_metadata_def attempt_ok_def split: if_splits)
  have a3: "attempt_ok t be b2 (r3, b3)" using attempt_publish [OF be, of b2] p by metis
  have "wire_up be b = (if r1 \<noteq> MqttOk then (r1, b1) else if r2 \<noteq> MqttOk then (r2, b2) else (r3, b3))"
    using s m p by (cases "r1 = MqttOk"; cases "r2 = MqttOk") (simp_all add: wire_up_def)
  then show ?thesis using a1 a2 a3 by (auto simp: attempt_ok_def)
qed

lemma attempt_clear:
  assumes "broker_from t be"
  shows "br_now be (br_world b) \<le> br_now be (br_world (snd (best_effort_clear_retained be b)))
    \<and> fst (best_effort_clear_retained be b) \<noteq> MqttCancelled"
proof -
  obtain r1 b1 where p1: "mqtt_publish be (topic_base b @ ''/config'') (PText '''') b = (r1, b1)" by fastforce
  obtain r2 b2 where p2: "mqtt_publish be (topic_base b @ ''/available'') (PText ''offline'') b1 = (r2, b2)" by fastforce
  have "br_device_id b1 = br_device_id b"
    using mqtt_publish_wiring [of b be "topic_base b @ ''/config''" "PText ''''"] p1
    by (simp add: same_wiring_def talks_only_def)
  then have "topic_base b1 = topic_base b" by (simp add: topic_base_def)
  then show ?thesis
    using attempt_publish [OF assms, of b "topic_base b @ ''/config''" "PText ''''"]
      attempt_publish [OF assms, of b1 "topic_base b @ ''/available''" "PText ''offline''"] p1 p2
    by (auto simp: best_effort_clear_retained_def attempt_ok_def)
qed

lemma attempt_try_start:
  assumes "broker_from t be" "try_start be b = (r, b')"
  shows "br_now be (br_world b) \<le> br_now be (br_world b') \<and> r \<noteq> StartCancelled
    \<and> (t \<le> br_now be (br_world b) \<longrightarrow> r = StartOk)"
proof (cases "be_connected be (br_world b) = Some False")
  case True
  then show ?thesis using assms unfolding broker_from_def by (auto simp: try_start_def)
next
  case False
  let ?b = "b\<lparr>br_attempted := True\<rparr>"
  obtain x b1 where w: "wire_up be ?b = (x, b1)" by fastforce
  have a: "attempt_ok t be b (x, b1)" using attempt_wire_up [OF assms(1), of ?b] w by (simp add: attempt_ok_def)
  obtain y b2 where c: "best_effort_clear_retained be (rollback_partial_start b1) = (y, b2)" by fastforce
  have a2: "br_now be (br_world b1) \<le> br_now be (br_world b2)" "y \<noteq> MqttCancelled"
    using attempt_clear [OF assms(1), of "rollback_partial_start b1"] c by simp_all
  show ?thesis
    using assms(2) False w c a a2
    by (cases "x = MqttOk") (auto simp: try_start_def attempt_ok_def split: mqtt_result.splits if_splits)
qed

lemma retry_loop_not_retrying:
  fixes be :: "'w br_env"
  assumes "retry_loop be delay b = Some x"
  shows "\<not> br_retrying (snd x)"
  by (rule retry_loop.raw_induct [where P = "\<lambda>be delay b x. \<not> br_retrying (snd x)", OF _ assms])
     (auto simp: Let_def split_beta split: if_splits)

lemma next_delay_min: "RETRY_INITIAL_DELAY \<le> d \<Longrightarrow> RETRY_INITIAL_DELAY \<le> next_delay d"
  by (simp add: next_delay_def RETRY_INITIAL_DELAY_def RETRY_MAX_DELAY_def)

text \<open>How many initial delays fit until a time; it falls with each sleep before that time.\<close>

definition turns_until :: "rat \<Rightarrow> rat \<Rightarrow> nat" where
  "turns_until t now = nat \<lceil>(t - now) / RETRY_INITIAL_DELAY\<rceil>"

lemma turns_until_less:
  assumes "now + RETRY_INITIAL_DELAY \<le> now'" "now < t"
  shows "turns_until t now' < turns_until t now"
proof -
  have "(t - now') / 5 \<le> (t - now) / 5 - 1" "0 < (t - now) / 5"
    using assms by (simp_all add: RETRY_INITIAL_DELAY_def field_simps)
  then have "\<lceil>(t - now') / 5\<rceil> \<le> \<lceil>(t - now) / 5\<rceil> - 1" "0 < \<lceil>(t - now) / 5\<rceil>"
    by (metis ceiling_diff_one ceiling_mono) (use assms(2) in simp)
  then show ?thesis by (simp add: turns_until_def RETRY_INITIAL_DELAY_def)
qed

lemma retry_loop_ends:
  assumes "broker_from t be"
  shows "unwired b \<Longrightarrow> \<not> br_started b \<Longrightarrow> RETRY_INITIAL_DELAY \<le> d \<Longrightarrow>
   \<exists>b'. retry_loop be d b = Some (StartOk, b')"
proof (induction "turns_until t (br_now be (br_world b))" arbitrary: b d rule: less_induct)
  case less
  define b1 where "b1 = loop_sleep be d b"
  have b1: "unwired b1" "\<not> br_started b1"
    using less.prems loop_sleep_fields [where b = b and be = be and d = d] by (simp_all add: b1_def)
  have now: "br_now be (br_world b) + RETRY_INITIAL_DELAY \<le> br_now be (br_world b1)"
    using assms less.prems(3) unfolding broker_from_def b1_def loop_sleep_def set_world_fields
    by (metis add_left_mono order_trans)
  have step: "retry_loop be d b = (if \<not> has_mqtt be b1 then retry_loop be (next_delay d) b1
      else let (r, b2) = try_start be b1
        in if r = StartOk \<or> r = StartCancelled then Some (r, b2\<lparr>br_retrying := False\<rparr>)
           else retry_loop be (next_delay d) b2)"
    using less.prems(2) by (subst retry_loop.simps) (simp add: b1_def)
  note again = less.hyps [OF turns_until_less _ _ next_delay_min [OF less.prems(3)]]
  have early: "br_now be (br_world b) < t" if "br_now be (br_world b1) < t"
    using now that by (simp add: RETRY_INITIAL_DELAY_def)
  show ?case
  proof (cases "has_mqtt be b1")
    case False
    then have "br_now be (br_world b1) < t" using assms unfolding broker_from_def has_mqtt_def
      by (metis not_le_imp_less)
    then have "\<exists>b'. retry_loop be (next_delay d) b1 = Some (StartOk, b')" using again [OF now _ b1] early by blast
    then show ?thesis using step False by simp
  next
    case True
    obtain r b2 where s: "try_start be b1 = (r, b2)" by fastforce
    note a = attempt_try_start [OF assms s] and f = try_start_fields [OF s b1]
    show ?thesis
    proof (cases "r = StartOk")
      case True
      then show ?thesis using step s \<open>has_mqtt be b1\<close> by simp
    next
      case False
      then have b2: "unwired b2" "\<not> br_started b2" using f by (auto simp: wiring_ok_def)
      have n2: "br_now be (br_world b) + RETRY_INITIAL_DELAY \<le> br_now be (br_world b2)" using now a by linarith
      have "br_now be (br_world b1) < t" using a False by (meson not_le_imp_less)
      then have "\<exists>b'. retry_loop be (next_delay d) b2 = Some (StartOk, b')"
        using again [OF n2 _ b2] early by blast
      then show ?thesis using step s \<open>has_mqtt be b1\<close> False a by simp
    qed
  qed
qed

text \<open>C19: The background retry ends. If the broker is reachable from some time on, however the
  attempts before that failed, the loop that waits for it terminates and the bridge is started
  with all its subscriptions.\<close>

theorem mqtt_retry_terminates:
  "broker_from t be \<Longrightarrow> unwired b \<Longrightarrow> \<not> br_started b \<Longrightarrow>
   \<exists>b'. start_retry_loop be b = Some (StartOk, b') \<and> br_started b' \<and> wired b' \<and> \<not> br_retrying b'"
proof -
  assume be: "broker_from t be" and b: "unwired b" "\<not> br_started b"
  obtain b' where r: "retry_loop be RETRY_INITIAL_DELAY b = Some (StartOk, b')"
    using retry_loop_ends [OF be b order_refl] by blast
  then show ?thesis using retry_loop_ended [OF r b] retry_loop_not_retrying [OF r]
    by (auto simp: loop_ended_def start_retry_loop_def)
qed

text \<open>A broker that comes up a minute after the start; the world is the clock.\<close>

definition late_env :: "rat env" where
  "late_env = \<lparr>ev_connect = (\<lambda>w. (ConnRefused, w)), ev_connected = (\<lambda>w. False), ev_read = (\<lambda>a n w. (RTimeout, w)),
     ev_write = (\<lambda>single a ws w. (WTimeout, w)), ev_sleep = (\<lambda>d w. w + d), ev_now = (\<lambda>w. w),
     ev_closing = (\<lambda>w. False), ev_sched = (\<lambda>w. (True, w))\<rparr>"

definition late_br :: "rat br_env" where
  "late_br = \<lparr>be_env = late_env, be_ha = test_ha, be_soc_active = (\<lambda>_. False), be_locked = (\<lambda>_. False),
     be_loaded = (\<lambda>w. 20 \<le> w), be_connected = (\<lambda>_. None),
     be_subscribe = (\<lambda>_ w. (if 60 \<le> w then MqttOk else MqttHaError, w)),
     be_publish = (\<lambda>_ _ w. (if 60 \<le> w then MqttOk else MqttOtherError, w))\<rparr>"

theorem mqtt_retry_terminates_witness:
  "\<exists>b'. start_retry_loop late_br (bridge_new (coord_new (client_new ''big'' ''keep_last'' 0) []) ''inv'' False [])
     = Some (StartOk, b') \<and> br_started b' \<and> wired b' \<and> \<not> br_retrying b'"
proof (rule mqtt_retry_terminates)
  show "broker_from 60 late_br" by (simp add: broker_from_def late_br_def late_env_def)
qed (simp_all add: bridge_new_def unwired_def)

section \<open>Decimal payloads\<close>

lemma nat_dec_length: "n < 10 ^ Suc k \<Longrightarrow> length (nat_dec n) \<le> Suc k"
proof (induction n arbitrary: k rule: nat_dec.induct)
  case (1 n)
  show ?case
  proof (cases "n < 10")
    case True
    then show ?thesis by (subst nat_dec.simps) simp
  next
    case False
    then obtain j where j: "k = Suc j" using 1(2) by (cases k) auto
    have "n div 10 < 10 ^ Suc j" using 1(2) unfolding j by (simp add: less_mult_imp_div_less mult.commute)
    then have "length (nat_dec (n div 10)) \<le> Suc j" using 1(1) False by blast
    then show ?thesis using False by (subst nat_dec.simps) (simp add: j)
  qed
qed

lemma nat_dec_leading: "0 < n \<Longrightarrow> hd (nat_dec n) \<noteq> CHR ''0''"
proof (induction n rule: nat_dec.induct)
  case (1 n)
  show ?case
  proof (cases "n < 10")
    case True
    have "char_of (n + 48) \<noteq> CHR ''0''"
    proof
      assume "char_of (n + 48) = CHR ''0''"
      then have "digit_val (char_of (n + 48)) = digit_val CHR ''0''" by simp
      then show False using digit_char [OF True] 1(2) by (simp add: digit_val_def)
    qed
    then show ?thesis using True by (subst nat_dec.simps) simp
  next
    case False
    then show ?thesis using 1 nat_dec_nonempty [of "n div 10"] by (subst nat_dec.simps) simp
  qed
qed

lemma digit_not_special:
  "is_digit c \<Longrightarrow> c \<noteq> CHR 0x22 \<and> c \<noteq> CHR ''{'' \<and> c \<noteq> CHR ''['' \<and> c \<noteq> CHR ''-'' \<and> c \<noteq> CHR ''+'' \<and> c \<noteq> CHR ''I''
     \<and> c \<noteq> CHR ''n'' \<and> c \<noteq> CHR ''t'' \<and> c \<noteq> CHR ''f'' \<and> c \<noteq> CHR ''N'' \<and> \<not> json_ws c \<and> \<not> is_space c"
  by (auto simp: is_digit_def json_ws_def is_space_def)

lemma strip_no_space:
  "s \<noteq> [] \<Longrightarrow> \<not> is_space (hd s) \<Longrightarrow> \<not> is_space (last s) \<Longrightarrow> py_strip s = s"
proof -
  assume s: "s \<noteq> []" "\<not> is_space (hd s)" "\<not> is_space (last s)"
  have "dropWhile is_space s = s" using s(1,2) by (cases s) auto
  moreover have "dropWhile is_space (rev s) = rev s" using s(1,3) by (cases s rule: rev_cases) auto
  ultimately show ?thesis by (simp add: py_strip_def rstrip_chars_def)
qed

lemma int_of_digits:
  assumes "s \<noteq> []" "list_all is_digit s" "length s \<le> 4300"
  shows "int_of_str s = Inr (digits_value (map digit_val s))"
    "int_of_str (CHR ''-'' # s) = Inr (- digits_value (map digit_val s))"
proof -
  have h: "is_digit (hd s)" "is_digit (last s)" using assms(1,2) by (simp_all add: list_all_iff)
  then have st: "py_strip s = s" "py_strip (CHR ''-'' # s) = CHR ''-'' # s"
    using assms(1) digit_not_special by (auto intro!: strip_no_space simp: is_space_def)
  have "split_sign s = (False, s)" using assms(1) h(1) digit_not_special by (cases s) (auto simp: split_sign_def)
  then show "int_of_str s = Inr (digits_value (map digit_val s))"
    using assms st by (simp add: int_of_str_def digits_us_digits)
  show "int_of_str (CHR ''-'' # s) = Inr (- digits_value (map digit_val s))"
    using assms st by (simp add: int_of_str_def split_sign_def digits_us_digits)
qed

lemma json_number_digits:
  assumes "s \<noteq> []" "list_all is_digit s" "length s \<le> 4300" "hd s = CHR ''0'' \<longrightarrow> s = ''0''" "g \<in> {[], ''-''}"
  shows "json_number (g @ s) = Some (JVal (VInt (if g = [] then digits_value (map digit_val s)
    else - digits_value (map digit_val s))), [])"
proof -
  obtain c cs where s: "s = c # cs" using assms(1) by (cases s) auto
  have c: "is_digit c" using assms(2) s by simp
  have t: "takeWhile is_digit s = s" "dropWhile is_digit s = []"
    using assms(2) by (simp_all add: list_all_iff takeWhile_eq_all_conv)
  have "number_int (g @ s) = Some (g @ s, [])"
  proof (cases "c = CHR ''0''")
    case True
    then have "cs = []" using assms(4) s by simp
    then show ?thesis using True s assms(5) by (auto simp: number_int_def)
  next
    case False
    then show ?thesis using t s c assms(5) digit_not_special [OF c] by (auto simp: number_int_def)
  qed
  then show ?thesis using assms(5) int_of_digits [OF assms(1-3)]
    by (auto simp: json_number_def number_frac_def number_exp_def)
qed

lemma json_loads_digits:
  assumes "s \<noteq> []" "list_all is_digit s" "length s \<le> 4300" "hd s = CHR ''0'' \<longrightarrow> s = ''0''" "g \<in> {[], ''-''}"
  shows "json_loads (g @ s) = Some (JVal (VInt (if g = [] then digits_value (map digit_val s)
    else - digits_value (map digit_val s))))"
proof -
  obtain c cs where s: "s = c # cs" using assms(1) by (cases s) auto
  have c: "is_digit c" using assms(2) s by simp
  have w: "skip_ws (g @ s) = g @ s" using digit_not_special [OF c] s assms(5)
    by (auto simp: skip_ws_def json_ws_def)
  have jw: "json_word (g @ s) = None" using digit_not_special [OF c] s assms(5)
    by (auto simp: json_word_def JSON_WORDS_def)
  have "json_value (Suc n) (g @ s) = json_number (g @ s)" for n
    using jw digit_not_special [OF c] s assms(5) by auto
  then have "json_value (2 * length (g @ s) + 2) (skip_ws (g @ s)) = json_number (g @ s)"
    using w by (metis add_2_eq_Suc')
  then show ?thesis using json_number_digits [OF assms] by (simp add: json_loads_def skip_ws_def)
qed

text \<open>A command whose payload is a decimal integer, as Python prints one, carries exactly that
  integer, for every integer below \<open>2 ^ 53\<close> in size: it is parsed as JSON, passes the
  validation and is neither rejected nor changed.\<close>

lemma mqtt_decimal_payload:
  "\<bar>i\<bar> < 2 ^ 53 \<Longrightarrow> parse_payload (int_dec i) = Parsed (VInt i)"
proof -
  assume i: "\<bar>i\<bar> < 2 ^ 53"
  define n where "n = nat \<bar>i\<bar>"
  have "n < 2 ^ 53" using i by (simp add: n_def nat_less_iff)
  then have "n < 10 ^ Suc 19" by simp
  then have l: "length (nat_dec n) \<le> 4300" using nat_dec_length [of n 19] by simp
  have z: "hd (nat_dec n) = CHR ''0'' \<longrightarrow> nat_dec n = ''0''"
    using nat_dec_leading [of n] by (cases "n = 0") (simp_all add: nat_dec.simps)
  define g where "g = (if i < 0 then ''-'' else [])"
  have g: "int_dec i = g @ nat_dec n" "g \<in> {[], ''-''}" by (auto simp: g_def n_def int_dec_def)
  have "json_loads (int_dec i) = Some (JVal (VInt i))"
    unfolding g(1) using json_loads_digits [OF nat_dec_nonempty nat_dec_digits l z g(2)]
    by (auto simp: nat_dec_value n_def g_def)
  moreover have "float_of_int i = Inr (FFin (of_int i))" by (rule float_of_int_small [OF i])
  ultimately show ?thesis by (simp add: parse_payload_def finite_or_reject_Parsed)
qed

lemma mqtt_decimal_payload_witness: "parse_payload ''-3500'' = Parsed (VInt (- 3500))"
proof -
  have "int_dec (- 3500) = ''-3500''" by code_simp
  then show ?thesis using mqtt_decimal_payload [of "- 3500"] by simp
qed

end
