(* ===== verification/BatteryTest.thy ===== *)
theory BatteryTest
  imports CoordWrites Owner1038 PyStats
begin

text \<open>
  The battery charge and discharge test (\<^verbatim>\<open>battery_test.py\<close>): its ownership of register 1038, the
  pre-flight checks, the phases with their keepalive and safety limits, and the reset at its end.

  Whether the user asked for an abort is a question to the world, because that may happen at
  every wait; so is the SoC controller's activity. The suite has a Home Assistant and an entry.
  The log, the debug file, the notifications and the measured averages are not modelled.
\<close>

section \<open>Constants and data\<close>

definition BT_KEEPALIVE_INTERVAL :: rat where "BT_KEEPALIVE_INTERVAL = 15"
definition MONITOR_INTERVAL :: rat where "MONITOR_INTERVAL = 8"
definition MIN_SOC_FOR_DISCHARGE :: pyfloat where "MIN_SOC_FOR_DISCHARGE = FFin 10"
definition MAX_SOC_FOR_CHARGE :: pyfloat where "MAX_SOC_FOR_CHARGE = FFin 98"
definition BT_MAX_BATTERY_TEMP_C :: pyfloat where "BT_MAX_BATTERY_TEMP_C = FFin 48"
definition MAX_CONSECUTIVE_KA_FAILURES :: nat where "MAX_CONSECUTIVE_KA_FAILURES = 3"
definition DEFAULT_LIMIT_W :: pyfloat where "DEFAULT_LIMIT_W = FFin 20000"

definition FAST_REGS :: "string list" where
  "FAST_REGS = [''battery_cd_power'', ''battery_soc'', ''pm_total_active'', ''battery_temperature'', ''inverter_state'']"

definition FULL_REGS :: "string list" where
  "FULL_REGS = FAST_REGS @ [''battery_state_of_charge'', ''battery_voltage'', ''battery_actual_current'',
     ''total_ac_power'', ''controller_temp'', ''isolation_resistance'', ''home_from_battery'', ''home_from_grid'',
     ''home_from_pv'', ''total_dc_power'', ''bat_charge_dc_abs_power'', ''bat_max_charge_limit'',
     ''bat_max_discharge_limit'']"

record test_phase =
  ph_name :: string
  ph_power :: int
  ph_duration :: int

definition DEFAULT_PHASES :: "test_phase list" where
  "DEFAULT_PHASES =
     [\<lparr>ph_name = ''Netzladung 1 kW'', ph_power = 1000, ph_duration = 300\<rparr>,
      \<lparr>ph_name = ''Netzladung 5 kW'', ph_power = 5000, ph_duration = 240\<rparr>,
      \<lparr>ph_name = ''Netzentladung 1 kW'', ph_power = - 1000, ph_duration = 300\<rparr>,
      \<lparr>ph_name = ''Netzentladung 5 kW'', ph_power = - 5000, ph_duration = 240\<rparr>]"

record 'w btest =
  bt_coord :: "'w coord"
  bt_slot :: owner_slot
  bt_running :: bool
  bt_orig_charge :: pyval
  bt_orig_discharge :: pyval

record 'w bt_env =
  te_env :: "'w env"
  te_ha :: "'w ha_env"
  te_abort :: "'w \<Rightarrow> bool"
  te_soc_active :: "'w \<Rightarrow> bool"

definition btest_new :: "'w coord \<Rightarrow> owner_slot \<Rightarrow> 'w btest" where
  "btest_new c slot = \<lparr>bt_coord = c, bt_slot = slot, bt_running = False, bt_orig_charge = VNone,
     bt_orig_discharge = VNone\<rparr>"

definition bt_world :: "'w btest \<Rightarrow> 'w" where
  "bt_world s = cl_world (co_client (bt_coord s))"

definition bt_now :: "'w bt_env \<Rightarrow> 'w btest \<Rightarrow> rat" where
  "bt_now te s = ev_now (te_env te) (bt_world s)"

section \<open>Reads and writes\<close>

definition bt_sleep :: "'w bt_env \<Rightarrow> rat \<Rightarrow> 'w btest \<Rightarrow> 'w btest" where
  "bt_sleep te t s = s\<lparr>bt_coord := (bt_coord s)\<lparr>co_client := client_sleep (te_env te) t (co_client (bt_coord s))\<rparr>\<rparr>"

definition bt_rd :: "'w bt_env \<Rightarrow> string \<Rightarrow> 'w btest \<Rightarrow> pyval \<times> 'w btest" where
  "bt_rd te name s = (case REGISTER_BY_NAME name of
     None \<Rightarrow> (VNone, s)
   | Some r \<Rightarrow>
       (let (x, c) = on_client (read_register (te_env te) r) (bt_coord s); s1 = s\<lparr>bt_coord := c\<rparr>
        in (case x of Inl _ \<Rightarrow> VNone | Inr v \<Rightarrow> v, s1)))"

definition bt_wr :: "'w bt_env \<Rightarrow> string \<Rightarrow> pyfloat \<Rightarrow> 'w btest \<Rightarrow> bool \<times> 'w btest" where
  "bt_wr te name v s = (case REGISTER_BY_NAME name of
     None \<Rightarrow> (False, s)
   | Some r \<Rightarrow>
       (let (x, c) = async_write_register (te_env te) (te_ha te) r (VFloat v) ''modbus_coord'' None True (bt_coord s)
        in (is_ok x, s\<lparr>bt_coord := c\<rparr>)))"

text \<open>\<open>float(v)\<close>, or the value itself where that raises a type or value error.\<close>

definition sample_value :: "pyval \<Rightarrow> pyexc + pyval" where
  "sample_value v = (case float_of_val v of
     Inr x \<Rightarrow> Inr (VFloat x) | Inl e \<Rightarrow> if e = TypeError \<or> e = ValueError then Inr v else Inl e)"

fun read_all :: "'w bt_env \<Rightarrow> string list \<Rightarrow> 'w btest \<Rightarrow> (pyexc + readings) \<times> 'w btest" where
  "read_all te [] s = (Inr [], s)"
| "read_all te (n # ns) s =
     (let (v, s1) = bt_rd te n s
      in if v = VNone then read_all te ns s1
         else case sample_value v of
           Inl e \<Rightarrow> (Inl e, s1)
         | Inr x \<Rightarrow> (let (rest, s2) = read_all te ns s1 in (map_sum id (\<lambda>d. (n, x) # d) rest, s2)))"

definition read_sample :: "'w bt_env \<Rightarrow> bool \<Rightarrow> 'w btest \<Rightarrow> (pyexc + readings) \<times> 'w btest" where
  "read_sample te full s = read_all te (if full then FULL_REGS else FAST_REGS) s"

section \<open>Control writes\<close>

definition bt_write_charge :: "'w bt_env \<Rightarrow> pyfloat \<Rightarrow> 'w btest \<Rightarrow> bool \<times> 'w btest" where
  "bt_write_charge te p s =
     (let (ok1, s1) = bt_wr te ''bat_charge_dc_abs_power'' (fneg (fabs p)) s;
          (ok2, s2) = bt_wr te ''bat_max_charge_limit'' (FFin 20000) s1
      in (ok1 \<and> ok2, s2))"

definition bt_write_discharge :: "'w bt_env \<Rightarrow> pyfloat \<Rightarrow> 'w btest \<Rightarrow> bool \<times> 'w btest" where
  "bt_write_discharge te p s =
     (let (ok1, s1) = bt_wr te ''bat_charge_dc_abs_power'' (fabs p) s;
          (ok2, s2) = bt_wr te ''bat_max_charge_limit'' (FFin 0) s1
      in (ok1 \<and> ok2, s2))"

text \<open>The limit read before the test, if it was read and is a number.\<close>

definition restore_limit :: "pyval \<Rightarrow> pyexc + pyfloat" where
  "restore_limit v = (if v = VNone then Inr DEFAULT_LIMIT_W
     else case float_of_val v of
       Inr x \<Rightarrow> Inr x | Inl e \<Rightarrow> if e = TypeError \<or> e = ValueError then Inr DEFAULT_LIMIT_W else Inl e)"

definition bt_write_normal :: "'w bt_env \<Rightarrow> 'w btest \<Rightarrow> (pyexc + unit) \<times> 'w btest" where
  "bt_write_normal te s =
     (let s1 = snd (bt_wr te ''bat_charge_dc_abs_power'' (FFin 0) s)
      in case bind_res (restore_limit (bt_orig_charge s1)) (\<lambda>c.
              bind_res (restore_limit (bt_orig_discharge s1)) (\<lambda>d. Inr (c, d))) of
           Inl e \<Rightarrow> (Inl e, s1)
         | Inr (c, d) \<Rightarrow> (Inr (), snd (bt_wr te ''bat_max_discharge_limit'' d
                                    (snd (bt_wr te ''bat_max_charge_limit'' c s1)))))"

definition bt_keepalive :: "'w bt_env \<Rightarrow> pyfloat \<Rightarrow> bool \<Rightarrow> 'w btest \<Rightarrow> bool \<times> 'w btest" where
  "bt_keepalive te p charging s =
     (if charging then bt_wr te ''bat_charge_dc_abs_power'' (fneg (fabs p)) s
      else let (ok1, s1) = bt_wr te ''bat_charge_dc_abs_power'' (fabs p) s;
               (ok2, s2) = bt_wr te ''bat_max_charge_limit'' (FFin 0) s1
        in (ok1 \<and> ok2, s2))"

section \<open>Values of a sample\<close>

text \<open>A number for an ordering, an arithmetic operation or a float format; text raises.\<close>

definition py_num :: "pyval \<Rightarrow> pyexc + pyfloat" where
  "py_num v = (case v of VStr _ \<Rightarrow> Inl TypeError | VNone \<Rightarrow> Inl TypeError | _ \<Rightarrow> float_of_val v)"

definition sample_soc :: "readings \<Rightarrow> pyval" where
  "sample_soc d = (let a = reading d ''battery_soc''; b = reading d ''battery_state_of_charge''
     in if py_truth a then a else if py_truth b then b else VInt 0)"

definition sample_get :: "readings \<Rightarrow> string \<Rightarrow> pyval" where
  "sample_get d n = (case map_of d n of None \<Rightarrow> VInt 0 | Some v \<Rightarrow> v)"

text \<open>The states in which the inverter is not active; a state that is not a number is ignored.\<close>

definition INACTIVE_STATES :: "int list" where
  "INACTIVE_STATES = [0, 1, 10, 15]"

definition inactive_state :: "pyval \<Rightarrow> pyexc + bool" where
  "inactive_state v = (if v = VNone then Inr False
     else case int_of_val v of
       Inr i \<Rightarrow> Inr (i \<in> set INACTIVE_STATES)
     | Inl e \<Rightarrow> if e = TypeError \<or> e = ValueError then Inr False else Inl e)"

section \<open>Pre-flight\<close>

definition max_power :: "pyval \<Rightarrow> pyexc + int" where
  "max_power raw = (if \<not> py_truth raw then Inr 10000
     else case int_of_val raw of
       Inr i \<Rightarrow> Inr (if i \<le> 0 then 10000 else i)
     | Inl e \<Rightarrow> if e = TypeError \<or> e = ValueError then Inr 10000 else Inl e)"

text \<open>The checks on what was read, before the first write.\<close>

definition preflight_checks :: "test_phase list \<Rightarrow> pyval \<Rightarrow> pyval \<Rightarrow> readings \<Rightarrow> pyexc + bool" where
  "preflight_checks phases mgmt raw_max d =
     bind_res (if mgmt = VNone then Inr 0 else int_of_val mgmt) (\<lambda>_.
     bind_res (max_power raw_max) (\<lambda>limit.
     if phases = [] then Inl ValueError
     else bind_res (py_num (sample_soc d)) (\<lambda>soc.
       let temp = reading d ''battery_temperature'' in
       bind_res (if py_truth temp then py_num temp else Inr (FFin 0)) (\<lambda>t.
         Inr (Max (set (map (\<lambda>p. \<bar>ph_power p\<bar>) phases)) \<le> limit
              \<and> flt (FFin 0) soc
              \<and> \<not> (list_ex (\<lambda>p. 0 < ph_power p) phases \<and> fle MAX_SOC_FOR_CHARGE soc)
              \<and> \<not> (list_ex (\<lambda>p. ph_power p < 0) phases \<and> fle soc MIN_SOC_FOR_DISCHARGE)
              \<and> \<not> (py_truth temp \<and> flt BT_MAX_BATTERY_TEMP_C t))))))"

text \<open>The snapshot of the limits and the write test; also after a failed check.\<close>

definition preflight_writes :: "'w bt_env \<Rightarrow> 'w btest \<Rightarrow> bool \<times> 'w btest" where
  "preflight_writes te s =
     (let (c, s1) = bt_rd te ''bat_max_charge_limit'' s;
          (d, s2) = bt_rd te ''bat_max_discharge_limit'' s1;
          (ok, s3) = bt_wr te ''bat_charge_dc_abs_power'' (FFin 0)
                       (s2\<lparr>bt_orig_charge := c, bt_orig_discharge := d\<rparr>)
      in if \<not> ok then (False, s3)
         else let s4 = snd (bt_rd te ''bat_charge_dc_abs_power'' (bt_sleep te (1 / 2) s3));
                  s5 = snd (bt_wr te ''bat_max_charge_limit'' (FFin 20000) s4)
           in (True, snd (bt_wr te ''bat_max_discharge_limit'' (FFin 20000) s5)))"

definition preflight :: "'w bt_env \<Rightarrow> test_phase list \<Rightarrow> 'w btest \<Rightarrow> (pyexc + bool) \<times> 'w btest" where
  "preflight te phases = sbind (read_sample te True) (\<lambda>d s1.
     let (mgmt, s2) = bt_rd te ''battery_mgmt_mode'' s1
     in case preflight_checks phases mgmt (reading (co_device_info (bt_coord s1)) ''inverter_max_power'') d of
          Inl e \<Rightarrow> (Inl e, s2)
        | Inr ok \<Rightarrow> (let (w, s3) = preflight_writes te s2 in (Inr (ok \<and> w), s3)))"

section \<open>A phase\<close>

datatype phase_end = PhaseCompleted | PhaseAborted

record phase_vars =
  pl_start :: rat
  pl_last_write :: rat
  pl_cycle :: nat
  pl_failures :: nat

text \<open>The safety limits of a sample.\<close>

definition sample_stops :: "int \<Rightarrow> readings \<Rightarrow> pyexc + bool" where
  "sample_stops watts d =
     bind_res (py_num (sample_get d ''battery_cd_power'')) (\<lambda>_.
     bind_res (py_num (sample_get d ''pm_total_active'')) (\<lambda>_.
     bind_res (py_num (sample_soc d)) (\<lambda>soc.
     let temp = reading d ''battery_temperature'' in
     bind_res (if py_truth temp then py_num temp else Inr (FFin 0)) (\<lambda>t.
     if 0 < watts \<and> fle (FFin 99) soc then Inr True
     else if watts < 0 \<and> fle soc MIN_SOC_FOR_DISCHARGE then Inr True
     else if py_truth temp \<and> flt BT_MAX_BATTERY_TEMP_C t then Inr True
     else inactive_state (reading d ''inverter_state'')))))"

definition phase_pause :: "test_phase \<Rightarrow> phase_vars \<Rightarrow> rat \<Rightarrow> rat" where
  "phase_pause p l now =
     max 1 (min (min MONITOR_INTERVAL (BT_KEEPALIVE_INTERVAL - (now - pl_last_write l) - 2))
                (of_int (ph_duration p) - (now - pl_start l)))"

text \<open>The power of a phase is a small integer, so its float is exact.\<close>

definition phase_power :: "test_phase \<Rightarrow> pyfloat" where
  "phase_power p = FFin (of_int (ph_power p))"

text \<open>The keepalive of a turn, when it is due; \<open>False\<close> ends the phase.\<close>

definition turn_keepalive :: "'w bt_env \<Rightarrow> test_phase \<Rightarrow> phase_vars \<Rightarrow> 'w btest \<Rightarrow> (bool \<times> phase_vars) \<times> 'w btest" where
  "turn_keepalive te p l s =
     (if bt_now te s - pl_last_write l < BT_KEEPALIVE_INTERVAL then ((True, l), s)
      else let (ok, s1) = bt_keepalive te (phase_power p) (0 < ph_power p) s;
               l1 = l\<lparr>pl_last_write := bt_now te s1, pl_failures := if ok then 0 else pl_failures l + 1\<rparr>
        in ((pl_failures l1 < MAX_CONSECUTIVE_KA_FAILURES, l1), s1))"

text \<open>One turn of the monitoring loop: it ends the phase or goes on after a pause.\<close>

definition phase_turn ::
    "'w bt_env \<Rightarrow> test_phase \<Rightarrow> phase_vars \<Rightarrow> 'w btest \<Rightarrow> (pyexc + (phase_end + phase_vars)) \<times> 'w btest" where
  "phase_turn te p l s =
     (if of_int (ph_duration p) \<le> bt_now te s - pl_start l then (Inr (Inl PhaseCompleted), s)
      else if te_abort te (bt_world s) then (Inr (Inl PhaseAborted), s)
      else let ((go, l1), s1) = turn_keepalive te p (l\<lparr>pl_cycle := pl_cycle l + 1\<rparr>) s
        in if \<not> go then (Inr (Inl PhaseAborted), s1)
           else case read_sample te (pl_cycle l1 mod 3 = 0) s1 of
                  (Inl e, s2) \<Rightarrow> (Inl e, s2)
                | (Inr d, s2) \<Rightarrow> (case sample_stops (ph_power p) d of
                    Inl e \<Rightarrow> (Inl e, s2)
                  | Inr True \<Rightarrow> (Inr (Inl PhaseAborted), s2)
                  | Inr False \<Rightarrow> (Inr (Inr l1), bt_sleep te (phase_pause p l1 (bt_now te s2)) s2)))"

partial_function (option) phase_loop ::
    "'w bt_env \<Rightarrow> test_phase \<Rightarrow> phase_vars \<Rightarrow> 'w btest \<Rightarrow> ((pyexc + phase_end) \<times> 'w btest) option" where
  "phase_loop te p l s = (let (r, s1) = phase_turn te p l s in
     case r of
       Inl e \<Rightarrow> Some (Inl e, s1)
     | Inr x \<Rightarrow> (case x of Inl e \<Rightarrow> Some (Inr e, s1) | Inr l1 \<Rightarrow> phase_loop te p l1 s1))"

definition run_phase ::
    "'w bt_env \<Rightarrow> test_phase \<Rightarrow> 'w btest \<Rightarrow> ((pyexc + phase_end) \<times> 'w btest) option" where
  "run_phase te p s =
     (let start = bt_now te s;
          (ok, s1) = (if 0 < ph_power p then bt_write_charge te (phase_power p) s
                      else bt_write_discharge te (phase_power p) s)
      in if \<not> ok then Some (Inr PhaseAborted, s1)
         else let last_write = bt_now te s1;
                  s2 = snd (bt_rd te ''bat_charge_dc_abs_power'' (bt_sleep te 2 s1));
                  s3 = snd (bt_rd te ''battery_cd_power'' s2)
           in phase_loop te p \<lparr>pl_start = start, pl_last_write = last_write, pl_cycle = 0, pl_failures = 0\<rparr> s3)"

section \<open>The run\<close>

text \<open>A phase's result: skipped because the inverter is not active, or how it ended.\<close>

datatype phase_result = PhaseSkipped | PhaseEnded phase_end

fun run_phases ::
    "'w bt_env \<Rightarrow> test_phase list \<Rightarrow> 'w btest \<Rightarrow> ((pyexc + phase_result list) \<times> 'w btest) option" where
  "run_phases te [] s = Some (Inr [], s)"
| "run_phases te (p # ps) s =
     (if te_abort te (bt_world s) then Some (Inr [], s)
      else let (v, s1) = bt_rd te ''inverter_state'' s
        in case inactive_state v of
             Inl e \<Rightarrow> Some (Inl e, s1)
           | Inr off \<Rightarrow>
               if off \<and> ph_power p < 0
               then map_option (\<lambda>(r, s2). (map_sum id ((#) PhaseSkipped) r, s2)) (run_phases te ps s1)
               else (case run_phase te p s1 of
                   None \<Rightarrow> None
                 | Some (Inl e, s2) \<Rightarrow> Some (Inl e, s2)
                 | Some (Inr PhaseAborted, s2) \<Rightarrow> Some (Inr [PhaseEnded PhaseAborted], s2)
                 | Some (Inr PhaseCompleted, s2) \<Rightarrow>
                     map_option (\<lambda>(r, s3). (map_sum id ((#) (PhaseEnded PhaseCompleted)) r, s3))
                       (run_phases te ps (if ps = [] then s2 else bt_sleep te 3 s2))))"

text \<open>Already running or the controller active, an exception, or the results.\<close>

datatype test_result = TestRefused | TestRaised pyexc | TestDone "phase_result list"

definition test_body ::
    "'w bt_env \<Rightarrow> test_phase list \<Rightarrow> 'w btest \<Rightarrow> ((pyexc + phase_result list) \<times> 'w btest) option" where
  "test_body te phases s = (case preflight te phases s of
     (Inl e, s1) \<Rightarrow> Some (Inl e, s1)
   | (Inr ok, s1) \<Rightarrow> if \<not> ok then Some (Inr [], s1) else run_phases te phases s1)"

text \<open>The \<^verbatim>\<open>finally\<close> block: the register is released, then the limits are written.\<close>

definition test_finally :: "'w bt_env \<Rightarrow> bool \<Rightarrow> pyexc + phase_result list \<Rightarrow> 'w btest \<Rightarrow> test_result \<times> 'w btest" where
  "test_finally te acquired r s =
     (let s1 = (if acquired then s\<lparr>bt_slot := release_reg_1038 OWNER_BATTERY_TEST (bt_slot s)\<rparr> else s)
      in case bt_write_normal te s1 of
           (Inl e, s2) \<Rightarrow> (TestRaised e, s2)
         | (Inr _, s2) \<Rightarrow> (case r of Inl e \<Rightarrow> TestRaised e | Inr rs \<Rightarrow> TestDone rs, s2\<lparr>bt_running := False\<rparr>))"

definition run_test ::
    "'w bt_env \<Rightarrow> test_phase list \<Rightarrow> 'w btest \<Rightarrow> (test_result \<times> 'w btest) option" where
  "run_test te phases s =
     (if bt_running s \<or> te_soc_active te (bt_world s) then Some (TestRefused, s)
      else let (a, slot) = acquire_or_raise OWNER_BATTERY_TEST (bt_slot s);
               s1 = s\<lparr>bt_running := True, bt_slot := slot\<rparr>
        in case a of
             Inl _ \<Rightarrow> Some (test_finally te False (Inr []) s1)
           | Inr _ \<Rightarrow> map_option (\<lambda>(r, s2). test_finally te True r s2) (test_body te phases s1))"

end
