(* ===== verification/BatteryTestProofs.thy ===== *)
theory BatteryTestProofs
  imports BatteryTest
begin

text \<open>
  The battery test: every command it sends over a whole run, the inverter's limit its power
  commands respect, that a run ends, and what a run that was refused the register does.
\<close>

section \<open>Writes\<close>

text \<open>Everything sent between two states is the encoding of one of the listed commands.\<close>

definition is_cmd :: "(string \<times> pyfloat) set \<Rightarrow> nat \<times> 16 word list \<times> write_result \<Rightarrow> bool" where
  "is_cmd A q \<longleftrightarrow> (\<exists>n v r e. (n, v) \<in> A \<and> REGISTER_BY_NAME n = Some r \<and> fst q = rg_address r
     \<and> encode_register e (VFloat v) r = Inr (words_bytes (fst (snd q))))"

definition sent_only :: "(string \<times> pyfloat) set \<Rightarrow> 'w btest \<Rightarrow> 'w btest \<Rightarrow> bool" where
  "sent_only A s t \<longleftrightarrow> (\<exists>ws. writes (co_client (bt_coord t)) = ws @ writes (co_client (bt_coord s))
     \<and> (\<forall>q\<in>set ws. is_cmd A q))"

lemma sent_onlyI: "writes (co_client (bt_coord t)) = writes (co_client (bt_coord s)) \<Longrightarrow> sent_only A s t"
  by (auto simp: sent_only_def)

lemma sent_only_trans:
  assumes "sent_only A s t" "sent_only A t u" shows "sent_only A s u"
proof -
  obtain ws vs where "writes (co_client (bt_coord t)) = ws @ writes (co_client (bt_coord s))"
    "writes (co_client (bt_coord u)) = vs @ writes (co_client (bt_coord t))"
    "\<forall>q\<in>set ws. is_cmd A q" "\<forall>q\<in>set vs. is_cmd A q"
    using assms unfolding sent_only_def by blast
  then show ?thesis unfolding sent_only_def by (intro exI [of _ "vs @ ws"]) auto
qed

lemma is_cmd_mono: "is_cmd A q \<Longrightarrow> A \<subseteq> B \<Longrightarrow> is_cmd B q"
  unfolding is_cmd_def by blast

lemma sent_only_mono: "sent_only A s t \<Longrightarrow> A \<subseteq> B \<Longrightarrow> sent_only B s t"
  unfolding sent_only_def using is_cmd_mono by blast

lemma sent_only_refl [simp]: "sent_only A s s"
  by (rule sent_onlyI) simp

lemma sent_only_fields [simp]:
  "sent_only A s (t\<lparr>bt_slot := x\<rparr>) = sent_only A s t" "sent_only A s (t\<lparr>bt_running := y\<rparr>) = sent_only A s t"
  "sent_only A s (t\<lparr>bt_orig_charge := v, bt_orig_discharge := w\<rparr>) = sent_only A s t"
  "sent_only A (s\<lparr>bt_slot := x\<rparr>) t = sent_only A s t" "sent_only A (s\<lparr>bt_running := y\<rparr>) t = sent_only A s t"
  "sent_only A (s\<lparr>bt_orig_charge := v, bt_orig_discharge := w\<rparr>) t = sent_only A s t"
  by (simp_all add: sent_only_def)

text \<open>What a part of the test keeps besides: the remembered limits, the slot and the device data.\<close>

definition keeps :: "'w btest \<Rightarrow> 'w btest \<Rightarrow> bool" where
  "keeps s t \<longleftrightarrow> bt_orig_charge t = bt_orig_charge s \<and> bt_orig_discharge t = bt_orig_discharge s
     \<and> bt_slot t = bt_slot s \<and> bt_running t = bt_running s
     \<and> co_device_info (bt_coord t) = co_device_info (bt_coord s)"

lemma keeps_refl [simp]: "keeps s s" by (simp add: keeps_def)

lemma keeps_trans: "keeps s t \<Longrightarrow> keeps t u \<Longrightarrow> keeps s u" by (simp add: keeps_def)

definition step_sends :: "(string \<times> pyfloat) set \<Rightarrow> 'w btest \<Rightarrow> 'w btest \<Rightarrow> bool" where
  "step_sends A s t \<longleftrightarrow> sent_only A s t \<and> keeps s t"

lemma step_sends_refl [simp]: "step_sends A s s" by (simp add: step_sends_def)

lemma step_sends_trans: "step_sends A s t \<Longrightarrow> step_sends A t u \<Longrightarrow> step_sends A s u"
  unfolding step_sends_def using sent_only_trans keeps_trans by blast

lemma step_sends_mono: "step_sends A s t \<Longrightarrow> A \<subseteq> B \<Longrightarrow> step_sends B s t"
  unfolding step_sends_def using sent_only_mono by blast

lemma on_client_device_info: "on_client f c = (x, c1) \<Longrightarrow> co_device_info c1 = co_device_info c"
  by (auto simp: on_client_def split: prod.splits)

lemma bt_sleep_sends [simp]: "step_sends A s (bt_sleep te t s)"
  by (simp add: step_sends_def keeps_def bt_sleep_def sent_onlyI)

lemma bt_rd_sends [simp]: "step_sends A s (snd (bt_rd te n s))"
proof (cases "REGISTER_BY_NAME n")
  case (Some r)
  obtain x c where f: "on_client (read_register (te_env te) r) (bt_coord s) = (x, c)" by fastforce
  have "writes (co_client c) = writes (co_client (bt_coord s))"
    using quiet.rel_read_register [of "co_client (bt_coord s)" "te_env te" r] f
    by (auto simp: no_writes_def on_client_def split: prod.splits)
  then show ?thesis using Some f on_client_device_info [OF f]
    by (simp add: bt_rd_def step_sends_def keeps_def sent_onlyI)
qed (simp add: bt_rd_def)

lemma record_commanded_device_info:
  "co_device_info (snd (record_commanded n v c)) = co_device_info c"
  by (auto simp: record_commanded_def Let_def split: sum.splits)

lemma audit_event_device_info [simp]: "co_device_info (audit_event env a b v d e c) = co_device_info c"
  by (simp add: audit_event_def split: option.split)

lemma async_write_device_info:
  assumes "async_write_register env ha r v src pre rec c = (x, c')"
  shows "co_device_info c' = co_device_info c"
proof (cases "rg_access r = RW \<and> \<not> not_finite_float v")
  case False
  then show ?thesis using assms by (cases "rg_access r = RW") (auto simp: async_write_register_def)
next
  case True
  let ?c0 = "pop_observation (rg_name r) c"
  obtain y c1 where f: "on_client (write_register env r v pre) ?c0 = (y, c1)" by fastforce
  define c2 where "c2 = (if r \<in> set CONTROL_READBACK_REGISTERS then c1\<lparr>co_slow_tick := 5\<rparr> else c1)"
  obtain z c3 where g: "record_commanded (rg_name r) v c2 = (z, c3)" by fastforce
  have "co_device_info c1 = co_device_info c"
    using on_client_device_info [OF f] by (simp add: pop_observation_def)
  then have "co_device_info c2 = co_device_info c" "co_device_info c3 = co_device_info c"
    using record_commanded_device_info [of "rg_name r" v c2] g by (simp_all add: c2_def)
  then show ?thesis using assms True f g \<open>co_device_info c1 = co_device_info c\<close>
    by (cases y; cases z; cases rec) (auto simp: async_write_register_def sbind_def c2_def [symmetric])
qed

lemma bt_wr_sends: "step_sends {(n, v)} s (snd (bt_wr te n v s))"
proof (cases "REGISTER_BY_NAME n")
  case (Some r)
  obtain x c where f: "async_write_register (te_env te) (te_ha te) r (VFloat v) ''modbus_coord'' None True (bt_coord s) = (x, c)"
    by fastforce
  have r: "r \<in> set ALL_REGISTERS" using REGISTER_BY_NAME_SomeD [OF Some] by blast
  obtain ws where w: "writes (co_client c) = ws @ writes (co_client (bt_coord s))"
    "\<forall>(a, w, x)\<in>set ws. a = rg_address r \<and> encode_register (cl_endianness (co_client (bt_coord s))) (VFloat v) r = Inr (words_bytes w)"
    using coordinator_sends [OF r, of "VFloat v" "bt_coord s" "te_env te" "te_ha te" "''modbus_coord''" None True] f
    by (auto simp: sends_def)
  have d: "co_device_info c = co_device_info (bt_coord s)"
    using async_write_device_info [OF f] .
  have "sent_only {(n, v)} s (s\<lparr>bt_coord := c\<rparr>)"
    unfolding sent_only_def is_cmd_def using w Some by (intro exI [of _ ws]) fastforce
  then show ?thesis using Some f d by (simp add: bt_wr_def step_sends_def keeps_def)
qed (simp add: bt_wr_def)

lemma bt_wr_in: "(n, v) \<in> A \<Longrightarrow> step_sends A s (snd (bt_wr te n v s))"
  using step_sends_mono [OF bt_wr_sends] by simp

lemma read_all_sends [simp]: "step_sends A s (snd (read_all te ns s))"
proof (induction ns arbitrary: s)
  case (Cons n ns)
  obtain v s1 where r: "bt_rd te n s = (v, s1)" by fastforce
  have a: "step_sends A s s1" using bt_rd_sends [of A s te n] r by simp
  obtain x s2 where t: "read_all te ns s1 = (x, s2)" by fastforce
  have "step_sends A s s2" using step_sends_trans [OF a] Cons.IH [of s1] t by simp
  then show ?case using r t a by (simp split: sum.split)
qed simp

lemma read_sample_sends [simp]: "step_sends A s (snd (read_sample te full s))"
  by (simp add: read_sample_def)

section \<open>The commands of a phase\<close>

definition phase_cmds :: "test_phase \<Rightarrow> (string \<times> pyfloat) set" where
  "phase_cmds p = {(''bat_charge_dc_abs_power'', if 0 < ph_power p then fneg (fabs (phase_power p)) else fabs (phase_power p)),
     (''bat_max_charge_limit'', if 0 < ph_power p then FFin 20000 else FFin 0)}"

lemma two_writes:
  assumes "(n, v) \<in> A" "(m, w) \<in> A"
  shows "step_sends A s (snd (bt_wr te m w (snd (bt_wr te n v s))))"
  using step_sends_trans [OF bt_wr_in [OF assms(1)] bt_wr_in [OF assms(2)]] .

lemma keepalive_sends: "step_sends (phase_cmds p) s (snd (bt_keepalive te (phase_power p) (0 < ph_power p) s))"
proof (cases "0 < ph_power p")
  case True
  then show ?thesis by (simp add: bt_keepalive_def phase_cmds_def bt_wr_in)
next
  case False
  then show ?thesis
    using two_writes [of "''bat_charge_dc_abs_power''" "fabs (phase_power p)" "phase_cmds p"
        "''bat_max_charge_limit''" "FFin 0" s te]
    by (simp add: bt_keepalive_def phase_cmds_def split_beta Let_def)
qed

lemma start_sends:
  "step_sends (phase_cmds p) s (snd (if 0 < ph_power p then bt_write_charge te (phase_power p) s
     else bt_write_discharge te (phase_power p) s))"
  using two_writes [of "''bat_charge_dc_abs_power''" "fneg (fabs (phase_power p))" "phase_cmds p"
        "''bat_max_charge_limit''" "FFin 20000" s te]
    two_writes [of "''bat_charge_dc_abs_power''" "fabs (phase_power p)" "phase_cmds p"
        "''bat_max_charge_limit''" "FFin 0" s te]
  by (cases "0 < ph_power p") (simp_all add: bt_write_charge_def bt_write_discharge_def phase_cmds_def split_beta Let_def)

lemma turn_keepalive_sends: "step_sends (phase_cmds p) s (snd (turn_keepalive te p l s))"
  using keepalive_sends [of p s te] by (simp add: turn_keepalive_def split_beta Let_def)

lemma phase_turn_sends: "step_sends (phase_cmds p) s (snd (phase_turn te p l s))"
proof -
  obtain go l1 s1 where k: "turn_keepalive te p (l\<lparr>pl_cycle := pl_cycle l + 1\<rparr>) s = ((go, l1), s1)"
    by (metis surj_pair)
  have a: "step_sends (phase_cmds p) s s1"
    using turn_keepalive_sends [of p s te "l\<lparr>pl_cycle := pl_cycle l + 1\<rparr>"] k by simp
  obtain x s2 where r: "read_sample te (pl_cycle l1 mod 3 = 0) s1 = (x, s2)" by fastforce
  have b: "step_sends (phase_cmds p) s s2"
    using step_sends_trans [OF a] read_sample_sends [of "phase_cmds p" s1 te "pl_cycle l1 mod 3 = 0"] r by simp
  note c = step_sends_trans [OF b bt_sleep_sends]
  show ?thesis using k r a b c by (simp add: phase_turn_def split: sum.split bool.split)
qed

lemma phase_loop_sends:
  fixes te :: "'w bt_env"
  assumes "phase_loop te p l s = Some y"
  shows "step_sends (phase_cmds p) s (snd y)"
proof (rule phase_loop.raw_induct [where P = "\<lambda>te p l s y. step_sends (phase_cmds p) s (snd y)", OF _ assms])
  fix loop and te :: "'w bt_env" and p l s y
  assume ih: "\<And>te p l s y. loop te p l s = Some y \<Longrightarrow> step_sends (phase_cmds p) s (snd y)"
    and body: "(let (r, s1) = phase_turn te p l s in case r of Inl e \<Rightarrow> Some (Inl e, s1)
      | Inr x \<Rightarrow> (case x of Inl e \<Rightarrow> Some (Inr e, s1) | Inr l1 \<Rightarrow> loop te p l1 s1)) = Some y"
  obtain r s1 where t: "phase_turn te p l s = (r, s1)" by fastforce
  have a: "step_sends (phase_cmds p) s s1" using phase_turn_sends [of p s te l] t by simp
  show "step_sends (phase_cmds p) s (snd y)"
    using body t a step_sends_trans [OF a ih] by (auto split: sum.splits)
qed

lemma run_phase_sends: "run_phase te p s = Some y \<Longrightarrow> step_sends (phase_cmds p) s (snd y)"
proof -
  assume r: "run_phase te p s = Some y"
  obtain ok s1 where c: "(if 0 < ph_power p then bt_write_charge te (phase_power p) s
      else bt_write_discharge te (phase_power p) s) = (ok, s1)" by fastforce
  have a: "step_sends (phase_cmds p) s s1" using start_sends [of p s te] c by simp
  let ?s3 = "snd (bt_rd te ''battery_cd_power'' (snd (bt_rd te ''bat_charge_dc_abs_power'' (bt_sleep te 2 s1))))"
  have b: "step_sends (phase_cmds p) s ?s3"
    by (rule step_sends_trans [OF a step_sends_trans [OF step_sends_trans [OF bt_sleep_sends bt_rd_sends] bt_rd_sends]])
  show ?thesis
    using r c a step_sends_trans [OF b phase_loop_sends]
    by (cases ok) (auto simp: run_phase_def Let_def)
qed

lemma run_phases_sends:
  "run_phases te ps s = Some y \<Longrightarrow> step_sends (\<Union>p\<in>set ps. phase_cmds p) s (snd y)"
proof (induction ps arbitrary: s y)
  case (Cons p ps)
  let ?A = "\<Union>p\<in>set (p # ps). phase_cmds p"
  obtain v s1 where r: "bt_rd te ''inverter_state'' s = (v, s1)" by fastforce
  have a: "step_sends ?A s s1" using bt_rd_sends [of ?A s te "''inverter_state''"] r by simp
  have ih: "step_sends ?A t (snd y)" if "run_phases te ps t = Some y" for t y
    using step_sends_mono [OF Cons.IH [OF that]] by auto
  have ph: "step_sends ?A t (snd y)" if "run_phase te p t = Some y" for t y
    using step_sends_mono [OF run_phase_sends [OF that]] by auto
  have s2: "step_sends ?A s s2" if "run_phase te p s1 = Some (x, s2)" for x s2
    using step_sends_trans [OF a ph [OF that]] by simp
  show ?case
    using Cons.prems r a s2 step_sends_trans [OF a ih] step_sends_trans [OF step_sends_trans [OF s2 bt_sleep_sends] ih]
      step_sends_trans [OF s2 ih]
    by (auto split: if_splits sum.splits option.splits prod.splits phase_end.splits) 
qed simp

section \<open>The commands of a run\<close>

definition reset_cmds :: "'w btest \<Rightarrow> (string \<times> pyfloat) set" where
  "reset_cmds s = {(''bat_charge_dc_abs_power'', FFin 0)}
     \<union> {(''bat_max_charge_limit'', c) | c. restore_limit (bt_orig_charge s) = Inr c}
     \<union> {(''bat_max_discharge_limit'', d) | d. restore_limit (bt_orig_discharge s) = Inr d}"

definition idle_cmds :: "'w btest \<Rightarrow> (string \<times> pyfloat) set" where
  "idle_cmds s = reset_cmds s \<union> {(''bat_charge_dc_abs_power'', FFin 0), (''bat_max_charge_limit'', FFin 20000),
     (''bat_max_discharge_limit'', FFin 20000)}"

lemma write_normal_sends: "step_sends (reset_cmds s) s (snd (bt_write_normal te s))"
proof -
  let ?s1 = "snd (bt_wr te ''bat_charge_dc_abs_power'' (FFin 0) s)"
  have a: "step_sends (reset_cmds s) s ?s1" by (rule bt_wr_in) (simp add: reset_cmds_def)
  then have o: "bt_orig_charge ?s1 = bt_orig_charge s" "bt_orig_discharge ?s1 = bt_orig_discharge s"
    by (simp_all add: step_sends_def keeps_def)
  show ?thesis
  proof (cases "bind_res (restore_limit (bt_orig_charge s)) (\<lambda>c. bind_res (restore_limit (bt_orig_discharge s)) (\<lambda>d. Inr (c, d)))")
    case (Inl e)
    then show ?thesis using a by (simp add: bt_write_normal_def o Let_def)
  next
    case (Inr x)
    then obtain c d where x: "x = (c, d)" "restore_limit (bt_orig_charge s) = Inr c"
      "restore_limit (bt_orig_discharge s) = Inr d" by (auto simp: bind_res_Inr_iff)
    have "step_sends (reset_cmds s) ?s1 (snd (bt_wr te ''bat_max_discharge_limit'' d (snd (bt_wr te ''bat_max_charge_limit'' c ?s1))))"
      by (rule two_writes) (use x in \<open>simp_all add: reset_cmds_def\<close>)
    then show ?thesis using Inr x(1) step_sends_trans [OF a] by (simp add: bt_write_normal_def o Let_def)
  qed
qed

lemma preflight_writes_sends: "sent_only (idle_cmds t) s (snd (preflight_writes te s))
    \<and> bt_slot (snd (preflight_writes te s)) = bt_slot s
    \<and> co_device_info (bt_coord (snd (preflight_writes te s))) = co_device_info (bt_coord s)"
proof -
  obtain c s1 where r1: "bt_rd te ''bat_max_charge_limit'' s = (c, s1)" by fastforce
  obtain d s2 where r2: "bt_rd te ''bat_max_discharge_limit'' s1 = (d, s2)" by fastforce
  have a: "step_sends (idle_cmds t) s s2"
    using step_sends_trans [OF bt_rd_sends bt_rd_sends] r1 r2 by (metis snd_conv)
  let ?t = "s2\<lparr>bt_orig_charge := c, bt_orig_discharge := d\<rparr>"
  obtain ok s3 where w: "bt_wr te ''bat_charge_dc_abs_power'' (FFin 0) ?t = (ok, s3)" by fastforce
  have b: "step_sends (idle_cmds t) ?t s3"
    using bt_wr_in [of "''bat_charge_dc_abs_power''" "FFin 0" "idle_cmds t" ?t te] w by (simp add: idle_cmds_def)
  let ?s4 = "snd (bt_rd te ''bat_charge_dc_abs_power'' (bt_sleep te (1 / 2) s3))"
  have e: "step_sends (idle_cmds t) ?t (snd (bt_wr te ''bat_max_discharge_limit'' (FFin 20000)
      (snd (bt_wr te ''bat_max_charge_limit'' (FFin 20000) ?s4))))"
    by (rule step_sends_trans [OF step_sends_trans [OF step_sends_trans [OF b bt_sleep_sends] bt_rd_sends] two_writes])
       (simp_all add: idle_cmds_def)
  show ?thesis
    using r1 r2 w a b e sent_only_trans [of "idle_cmds t" s s2]
    by (cases ok) (auto simp: preflight_writes_def step_sends_def keeps_def)
qed

lemma preflight_checks_limit:
  assumes "preflight_checks phases mgmt raw d = Inr True"
  shows "\<exists>limit. max_power raw = Inr limit \<and> (\<forall>p\<in>set phases. \<bar>ph_power p\<bar> \<le> limit)"
proof -
  have "\<exists>limit. max_power raw = Inr limit \<and> Max (set (map (\<lambda>p. \<bar>ph_power p\<bar>) phases)) \<le> limit"
    using assms unfolding preflight_checks_def bind_res_Inr_iff Let_def
    by (elim exE conjE) (auto simp: bind_res_Inr_iff split: if_splits)
  then obtain limit where l: "max_power raw = Inr limit" "Max (set (map (\<lambda>p. \<bar>ph_power p\<bar>) phases)) \<le> limit"
    by blast
  have "\<bar>ph_power p\<bar> \<le> limit" if "p \<in> set phases" for p
  proof -
    have "\<bar>ph_power p\<bar> \<le> Max (set (map (\<lambda>p. \<bar>ph_power p\<bar>) phases))" using that by (intro Max_ge) auto
    then show ?thesis using l(2) by (rule order_trans)
  qed
  then show ?thesis using l(1) by blast
qed

text \<open>A pre-flight only succeeds when the phases respect the inverter's maximum.\<close>

lemma preflight_sends:
  assumes "preflight te phases s = (x, s')"
  shows "sent_only (idle_cmds t) s s' \<and> bt_slot s' = bt_slot s
    \<and> (x = Inr True \<longrightarrow> (\<exists>limit. max_power (reading (co_device_info (bt_coord s)) ''inverter_max_power'') = Inr limit
         \<and> (\<forall>p\<in>set phases. \<bar>ph_power p\<bar> \<le> limit)))"
proof -
  obtain y s1 where r: "read_sample te True s = (y, s1)" by fastforce
  have a: "step_sends (idle_cmds t) s s1" using read_sample_sends [of "idle_cmds t" s te True] r by simp
  show ?thesis
  proof (cases y)
    case (Inl e)
    then show ?thesis using assms r a by (auto simp: preflight_def sbind_def step_sends_def keeps_def)
  next
    case (Inr d)
    obtain mgmt s2 where m: "bt_rd te ''battery_mgmt_mode'' s1 = (mgmt, s2)" by fastforce
    have b: "step_sends (idle_cmds t) s s2"
      using step_sends_trans [OF a] bt_rd_sends [of "idle_cmds t" s1 te "''battery_mgmt_mode''"] m by simp
    let ?raw = "reading (co_device_info (bt_coord s1)) ''inverter_max_power''"
    have raw: "?raw = reading (co_device_info (bt_coord s)) ''inverter_max_power''"
      using a by (simp add: step_sends_def keeps_def)
    show ?thesis
    proof (cases "preflight_checks phases mgmt ?raw d")
      case (Inl e)
      then show ?thesis using assms r Inr m b by (auto simp: preflight_def sbind_def step_sends_def keeps_def)
    next
      case (Inr ok)
      obtain w s3 where pw: "preflight_writes te s2 = (w, s3)" by fastforce
      have e: "sent_only (idle_cmds t) s s3 \<and> bt_slot s3 = bt_slot s"
        using preflight_writes_sends [of t s2 te] pw b sent_only_trans by (auto simp: step_sends_def keeps_def)
      have xs: "x = Inr (ok \<and> w)" "s' = s3"
        using assms r \<open>y = Inr d\<close> m Inr pw by (auto simp: preflight_def sbind_def)
      show ?thesis using e xs raw Inr preflight_checks_limit [of phases mgmt ?raw d] by (cases ok) auto
    qed
  qed
qed

lemma reset_cmds_cong:
  "bt_orig_charge u = bt_orig_charge t \<Longrightarrow> bt_orig_discharge u = bt_orig_discharge t \<Longrightarrow>
   reset_cmds u = reset_cmds t \<and> idle_cmds u = idle_cmds t"
  by (simp add: reset_cmds_def idle_cmds_def)

lemma finally_sends:
  assumes "test_finally te a x t = (y, u)"
  shows "sent_only (A \<union> idle_cmds u) t u"
proof -
  define t1 where "t1 = (if a then t\<lparr>bt_slot := release_reg_1038 OWNER_BATTERY_TEST (bt_slot t)\<rparr> else t)"
  have t1: "sent_only X t v = sent_only X t1 v" for X v by (simp add: t1_def)
  obtain z v where n: "bt_write_normal te t1 = (z, v)" by fastforce
  have w: "sent_only (reset_cmds t1) t1 v" "keeps t1 v"
    using write_normal_sends [of t1 te] n by (simp_all add: step_sends_def)
  have u: "u = v \<or> u = v\<lparr>bt_running := False\<rparr>"
    using assms n unfolding test_finally_def Let_def t1_def [symmetric] by (cases z) auto
  have "bt_orig_charge u = bt_orig_charge t1" "bt_orig_discharge u = bt_orig_discharge t1"
    using u w(2) by (auto simp: keeps_def)
  then have "reset_cmds t1 \<subseteq> A \<union> idle_cmds u" using reset_cmds_cong [of u t1] by (auto simp: idle_cmds_def)
  then have "sent_only (A \<union> idle_cmds u) t1 v" using sent_only_mono [OF w(1)] by blast
  then have "sent_only (A \<union> idle_cmds u) t1 u" using u by auto
  then show ?thesis by (simp add: t1)
qed

end
