(* ===== verification/BatteryTestEnds.thy ===== *)
theory BatteryTestEnds
  imports BatteryTestProofs
begin

text \<open>
  The battery test: a run ends whenever waiting takes time, it gives the register back, and a
  run that was refused the register writes it nevertheless.
\<close>

section \<open>Time\<close>

text \<open>A sleep lasts at least as long as asked, and nothing turns the clock back.\<close>

definition clock_forward :: "'w env \<Rightarrow> bool" where
  "clock_forward env \<longleftrightarrow>
     (\<forall>w. ev_now env w \<le> ev_now env (snd (ev_connect env w)))
     \<and> (\<forall>w a n. ev_now env w \<le> ev_now env (snd (ev_read env a n w)))
     \<and> (\<forall>w b a ws. ev_now env w \<le> ev_now env (snd (ev_write env b a ws w)))
     \<and> (\<forall>w. ev_now env w \<le> ev_now env (snd (ev_sched env w)))
     \<and> (\<forall>w t. ev_now env w + max 0 t \<le> ev_now env (ev_sleep env t w))"

definition not_before :: "'w env \<Rightarrow> 'w client \<Rightarrow> 'w client \<Rightarrow> bool" where
  "not_before env s t \<longleftrightarrow> ev_now env (cl_world s) \<le> ev_now env (cl_world t)"

lemma clock_client_rel:
  assumes "clock_forward env" shows "client_rel env (not_before env)"
proof -
  have c: "ev_now env w \<le> ev_now env v" if "ev_connect env w = (x, v)" for w v x
    using assms that unfolding clock_forward_def by (metis snd_conv)
  have r: "ev_now env w \<le> ev_now env v" if "ev_read env a n w = (x, v)" for w v x a n
    using assms that unfolding clock_forward_def by (metis snd_conv)
  have d: "ev_now env w \<le> ev_now env v" if "ev_sched env w = (x, v)" for w v x
    using assms that unfolding clock_forward_def by (metis snd_conv)
  have wr: "ev_now env w \<le> ev_now env v" if "ev_write env b a ws w = (x, v)" for w v x b a ws
    using assms that unfolding clock_forward_def by (metis snd_conv)
  have sl: "ev_now env w \<le> ev_now env (ev_sleep env t w)" for w t
  proof -
    have "ev_now env w + max 0 t \<le> ev_now env (ev_sleep env t w)"
      using assms unfolding clock_forward_def by blast
    then show ?thesis by linarith
  qed
  show ?thesis
    by unfold_locales (auto simp: not_before_def log_io_def store_filtered_def Let_def sl dest: c r d wr)
qed

definition later :: "'w bt_env \<Rightarrow> 'w btest \<Rightarrow> 'w btest \<Rightarrow> bool" where
  "later te s t \<longleftrightarrow> bt_now te s \<le> bt_now te t"

lemma later_trans: "later te s t \<Longrightarrow> later te t u \<Longrightarrow> later te s u" by (simp add: later_def)

lemma later_client:
  "later te s (s\<lparr>bt_coord := c\<rparr>) = not_before (te_env te) (co_client (bt_coord s)) (co_client c)"
  by (simp add: later_def not_before_def bt_now_def bt_world_def)

lemma bt_rd_later: "clock_forward (te_env te) \<Longrightarrow> later te s (snd (bt_rd te n s))"
proof (cases "REGISTER_BY_NAME n")
  case (Some r)
  assume c: "clock_forward (te_env te)"
  obtain x d where f: "on_client (read_register (te_env te) r) (bt_coord s) = (x, d)" by fastforce
  have "not_before (te_env te) (co_client (bt_coord s)) (co_client d)"
    using client_reads.rel_read_register [OF client_rel.axioms(1) [OF clock_client_rel [OF c]], of "co_client (bt_coord s)" r] f
    by (auto simp: on_client_def split: prod.splits)
  then show ?thesis using Some f by (simp add: bt_rd_def later_client)
qed (simp add: bt_rd_def later_def)

lemma bt_wr_later: "clock_forward (te_env te) \<Longrightarrow> later te s (snd (bt_wr te n v s))"
proof (cases "REGISTER_BY_NAME n")
  case (Some r)
  assume c: "clock_forward (te_env te)"
  note l = clock_client_rel [OF c]
  obtain x d where f: "async_write_register (te_env te) (te_ha te) r (VFloat v) ''modbus_coord'' None True (bt_coord s) = (x, d)"
    by fastforce
  have "not_before (te_env te) (co_client (bt_coord s)) (co_client d)"
  proof (cases "rg_access r = RW \<and> \<not> not_finite_float (VFloat v)")
    case True
    then have "co_client d = snd (write_register (te_env te) r (VFloat v) None (co_client (bt_coord s)))"
      using coordinator_client [of r "VFloat v" "te_env te" "te_ha te" "''modbus_coord''" None True "bt_coord s"] f by simp
    then show ?thesis using client_rel.rel_write_register [OF l] by simp
  next
    case False
    then have "d = bt_coord s" using f by (cases "rg_access r = RW") (auto simp: async_write_register_def)
    then show ?thesis by (simp add: not_before_def)
  qed
  then show ?thesis using Some f by (simp add: bt_wr_def later_client)
qed (simp add: bt_wr_def later_def)

lemma bt_sleep_now:
  assumes "clock_forward (te_env te)" "0 \<le> t"
  shows "bt_now te s + t \<le> bt_now te (bt_sleep te t s)"
proof -
  have "ev_now (te_env te) w + max 0 t \<le> ev_now (te_env te) (ev_sleep (te_env te) t w)" for w
    using assms(1) unfolding clock_forward_def by blast
  then show ?thesis using assms(2)
    by (simp add: bt_now_def bt_world_def bt_sleep_def client_sleep_def log_io_def)
qed

lemma read_all_later: "clock_forward (te_env te) \<Longrightarrow> later te s (snd (read_all te ns s))"
proof (induction ns arbitrary: s)
  case (Cons n ns)
  obtain v s1 where r: "bt_rd te n s = (v, s1)" by fastforce
  have a: "later te s s1" using bt_rd_later [OF Cons.prems, of s n] r by simp
  obtain x s2 where t: "read_all te ns s1 = (x, s2)" by fastforce
  have "later te s s2" using later_trans [OF a Cons.IH [OF Cons.prems]] t by (metis snd_conv)
  then show ?case using r t a by (simp split: sum.split)
qed (simp add: later_def)

lemma turn_keepalive_later: "clock_forward (te_env te) \<Longrightarrow> later te s (snd (turn_keepalive te p l s))"
proof -
  assume c: "clock_forward (te_env te)"
  have "later te s (snd (bt_keepalive te (phase_power p) (0 < ph_power p) s))"
    using later_trans [OF bt_wr_later [OF c] bt_wr_later [OF c]] bt_wr_later [OF c]
    by (simp add: bt_keepalive_def split_beta Let_def)
  then show ?thesis by (simp add: turn_keepalive_def split_beta Let_def later_def)
qed

lemma turn_keepalive_start: "pl_start (snd (fst (turn_keepalive te p l s))) = pl_start l"
  by (simp add: turn_keepalive_def split_beta Let_def)

section \<open>The phases end\<close>

text \<open>A turn that goes on slept for at least a second.\<close>

lemma phase_turn_time:
  assumes "clock_forward (te_env te)" "phase_turn te p l s = (Inr (Inr l'), s')"
  shows "pl_start l' = pl_start l \<and> bt_now te s + 1 \<le> bt_now te s'
    \<and> bt_now te s - pl_start l < of_int (ph_duration p)"
proof -
  let ?l = "l\<lparr>pl_cycle := pl_cycle l + 1\<rparr>"
  obtain go l1 s1 where k: "turn_keepalive te p ?l s = ((go, l1), s1)" by (metis surj_pair)
  have a: "bt_now te s \<le> bt_now te s1" "pl_start l1 = pl_start l"
    using turn_keepalive_later [OF assms(1), of s p ?l] turn_keepalive_start [of te p ?l s] k by (simp_all add: later_def)
  obtain x s2 where r: "read_sample te (pl_cycle l1 mod 3 = 0) s1 = (x, s2)" by fastforce
  have b: "bt_now te s1 \<le> bt_now te s2"
    using read_all_later [OF assms(1), of s1 "if pl_cycle l1 mod 3 = 0 then FULL_REGS else FAST_REGS"] r
    by (simp add: later_def read_sample_def)
  have e: "\<not> of_int (ph_duration p) \<le> bt_now te s - pl_start l"
    "l' = l1" "s' = bt_sleep te (phase_pause p l1 (bt_now te s2)) s2"
    using assms(2) k r by (auto simp: phase_turn_def split: if_splits sum.splits bool.splits)
  have "1 \<le> phase_pause p l1 (bt_now te s2)" by (simp add: phase_pause_def)
  then show ?thesis
    using bt_sleep_now [OF assms(1), of "phase_pause p l1 (bt_now te s2)" s2] a b e by auto
qed

lemma phase_loop_ends:
  assumes "clock_forward (te_env te)"
  shows "\<exists>y. phase_loop te p l s = Some y"
proof (induction "nat \<lceil>of_int (ph_duration p) - (bt_now te s - pl_start l)\<rceil>" arbitrary: l s rule: less_induct)
  case less
  obtain r s1 where t: "phase_turn te p l s = (r, s1)" by fastforce
  consider (ends) "\<nexists>l'. r = Inr (Inr l')" | (goes) l' where "r = Inr (Inr l')" by blast
  then show ?case
  proof cases
    case ends
    then show ?thesis using t by (subst phase_loop.simps) (auto split: sum.splits)
  next
    case (goes l')
    note tm = phase_turn_time [OF assms t [unfolded goes]]
    let ?old = "of_int (ph_duration p) - (bt_now te s - pl_start l)"
    let ?new = "of_int (ph_duration p) - (bt_now te s1 - pl_start l')"
    have "?new \<le> ?old - 1" "0 < ?old" using tm by auto
    then have "\<lceil>?new\<rceil> \<le> \<lceil>?old\<rceil> - 1" "0 < \<lceil>?old\<rceil>"
      by (metis ceiling_diff_one ceiling_mono) (use \<open>0 < ?old\<close> in \<open>simp only: zero_less_ceiling\<close>)
    then have "nat \<lceil>?new\<rceil> < nat \<lceil>?old\<rceil>" by linarith
    from less.hyps [OF this] show ?thesis using t goes by (subst phase_loop.simps) simp
  qed
qed

lemma run_phase_ends:
  assumes "clock_forward (te_env te)"
  shows "\<exists>y. run_phase te p s = Some y"
proof -
  have l: "phase_loop te q l t \<noteq> None" for q l t using phase_loop_ends [OF assms] by (metis option.distinct(1))
  have "run_phase te p s \<noteq> None" using l by (simp add: run_phase_def Let_def split_beta)
  then show ?thesis by blast
qed

lemma run_phases_ends: "clock_forward (te_env te) \<Longrightarrow> \<exists>y. run_phases te ps s = Some y"
proof (induction ps arbitrary: s)
  case (Cons p ps)
  obtain v s1 where r: "bt_rd te ''inverter_state'' s = (v, s1)" by fastforce
  obtain x s2 where ph: "run_phase te p s1 = Some (x, s2)" using run_phase_ends [OF Cons.prems] by (metis surj_pair)
  obtain y1 where y1: "run_phases te ps s1 = Some y1" using Cons by blast
  obtain y2 where y2: "run_phases te ps s2 = Some y2" using Cons by blast
  obtain y3 where y3: "run_phases te ps (bt_sleep te 3 s2) = Some y3" using Cons by blast
  show ?case using r ph y1 y2 y3 by (auto split: sum.split phase_end.split)
qed simp

text \<open>C18: A battery test ends. If a wait lasts as long as it was asked for and no call turns the
  clock back, the run returns, whatever the phases, the device and the measurements are: every
  turn of the monitoring loop that goes on waits for at least a second of its phase.\<close>

theorem battery_test_terminates:
  "clock_forward (te_env te) \<Longrightarrow> \<exists>r s'. run_test te phases s = Some (r, s')"
proof -
  assume c: "clock_forward (te_env te)"
  have b: "\<exists>y. test_body te phases t = Some y" for t
    using run_phases_ends [OF c] by (simp add: test_body_def split: prod.split sum.split)
  show ?thesis
  proof (cases "bt_running s \<or> te_soc_active te (bt_world s)")
    case False
    obtain a slot where acq: "acquire_or_raise OWNER_BATTERY_TEST (bt_slot s) = (a, slot)" by fastforce
    obtain x s2 where "test_body te phases (s\<lparr>bt_running := True, bt_slot := slot\<rparr>) = Some (x, s2)"
      using b by (metis surj_pair)
    then show ?thesis using False acq by (cases a; cases "test_finally te True x s2"; cases "test_finally te False (Inr []) (s\<lparr>bt_running := True, bt_slot := slot\<rparr>)")
      (simp_all add: run_test_def Let_def)
  qed (simp add: run_test_def)
qed

definition stopwatch :: "rat env" where
  "stopwatch = \<lparr>ev_connect = (\<lambda>w. (ConnRefused, w)), ev_connected = (\<lambda>w. False), ev_read = (\<lambda>a n w. (RTimeout, w)),
     ev_write = (\<lambda>single a ws w. (WTimeout, w)), ev_sleep = (\<lambda>d w. w + max 0 d), ev_now = (\<lambda>w. w),
     ev_closing = (\<lambda>w. False), ev_sched = (\<lambda>w. (True, w))\<rparr>"

theorem battery_test_terminates_witness:
  "\<exists>r s'. run_test \<lparr>te_env = stopwatch, te_ha = test_ha, te_abort = (\<lambda>w. False), te_soc_active = (\<lambda>w. False)\<rparr>
     DEFAULT_PHASES (btest_new (coord_new (client_new ''big'' ''keep_last'' 0) []) None) = Some (r, s')"
  by (rule battery_test_terminates) (simp add: clock_forward_def stopwatch_def)

section \<open>The register\<close>

lemma write_normal_slot: "bt_slot (snd (bt_write_normal te s)) = bt_slot s"
  using write_normal_sends [of s te] by (simp add: step_sends_def keeps_def)

lemma finally_slot: "bt_slot (snd (test_finally te a r s)) =
    (if a then release_reg_1038 OWNER_BATTERY_TEST (bt_slot s) else bt_slot s)"
  using write_normal_slot [of te s]
    write_normal_slot [of te "s\<lparr>bt_slot := release_reg_1038 OWNER_BATTERY_TEST (bt_slot s)\<rparr>"]
  by (auto simp: test_finally_def Let_def split: prod.split sum.split)

text \<open>A write only looks at the coordinator.\<close>

lemma bt_wr_coord: "bt_coord s = bt_coord t \<Longrightarrow> bt_coord (snd (bt_wr te n v s)) = bt_coord (snd (bt_wr te n v t))"
  by (simp add: bt_wr_def Let_def split_beta split: option.split)

definition reset_writes :: "'w bt_env \<Rightarrow> 'w btest \<Rightarrow> 'w btest" where
  "reset_writes te s = snd (bt_wr te ''bat_max_discharge_limit'' (FFin 20000)
     (snd (bt_wr te ''bat_max_charge_limit'' (FFin 20000) (snd (bt_wr te ''bat_charge_dc_abs_power'' (FFin 0) s)))))"

lemma refused_run:
  "get_owner_manager (bt_slot s) = Some other \<Longrightarrow> other \<noteq> OWNER_BATTERY_TEST \<Longrightarrow> \<not> bt_running s \<Longrightarrow>
   \<not> te_soc_active te (bt_world s) \<Longrightarrow> bt_orig_charge s = VNone \<Longrightarrow> bt_orig_discharge s = VNone \<Longrightarrow>
   \<exists>s'. run_test te phases s = Some (TestDone [], s') \<and> get_owner_manager (bt_slot s') = Some other
     \<and> bt_coord s' = bt_coord (reset_writes te s)"
proof -
  assume own: "get_owner_manager (bt_slot s) = Some other" "other \<noteq> OWNER_BATTERY_TEST"
    and n: "\<not> bt_running s" "\<not> te_soc_active te (bt_world s)" "bt_orig_charge s = VNone" "bt_orig_discharge s = VNone"
  obtain a slot where acq: "acquire_or_raise OWNER_BATTERY_TEST (bt_slot s) = (a, slot)" by fastforce
  have sl: "get_owner_manager slot = Some other"
    using acquire_owner [of OWNER_BATTERY_TEST "bt_slot s"] own acq by simp
  have "a \<noteq> Inr ()" using acquire_ok_iff [of OWNER_BATTERY_TEST "bt_slot s"] own acq by simp
  then obtain e where a: "a = Inl e" by (cases a) auto
  let ?s1 = "s\<lparr>bt_running := True, bt_slot := slot\<rparr>"
  let ?w = "snd (bt_wr te ''bat_charge_dc_abs_power'' (FFin 0) ?s1)"
  have o: "bt_orig_charge ?w = VNone" "bt_orig_discharge ?w = VNone"
    using bt_wr_sends [of "''bat_charge_dc_abs_power''" "FFin 0" ?s1 te] n by (simp_all add: step_sends_def keeps_def)
  have w: "bt_write_normal te ?s1 = (Inr (), reset_writes te ?s1)"
    unfolding bt_write_normal_def Let_def o by (simp add: restore_limit_def reset_writes_def DEFAULT_LIMIT_W_def)
  have c: "bt_coord (reset_writes te ?s1) = bt_coord (reset_writes te s)"
    unfolding reset_writes_def by (intro bt_wr_coord) simp
  have "bt_slot (reset_writes te ?s1) = slot"
    using write_normal_slot [of te ?s1] w by simp
  then show ?thesis using n acq a w c sl
    by (simp add: run_test_def test_finally_def Let_def)
qed

text \<open>A battery test that is refused register 1038 writes it all the same. While another
  feature owns the register, a first run of the test returns without results and leaves the
  ownership alone, but its clean-up stops the battery power and sets both limits to 20000 W: the
  owner's charge limit is gone although the owner still holds the register.\<close>

lemma refused_battery_test_overwrites_limit:
  "get_owner_manager (bt_slot s) = Some other \<Longrightarrow> other \<noteq> OWNER_BATTERY_TEST \<Longrightarrow> \<not> bt_running s \<Longrightarrow>
   \<not> te_soc_active te (bt_world s) \<Longrightarrow> bt_orig_charge s = VNone \<Longrightarrow> bt_orig_discharge s = VNone \<Longrightarrow>
   \<exists>s'. run_test te phases s = Some (TestDone [], s') \<and> get_owner_manager (bt_slot s') = Some other
     \<and> bt_coord s' = bt_coord (reset_writes te s)"
  by (rule refused_run)

text \<open>On memory as the device every write goes through and is the last command of its register.\<close>

definition ready :: "(nat \<Rightarrow> 16 word) coord \<Rightarrow> bool" where
  "ready c \<longleftrightarrow> \<not> cl_closing (co_client c) \<and> cl_has_client (co_client c) \<and> cl_endianness (co_client c) = ''big''"

lemma mem_bt_wr:
  assumes "te_env te = mem_env" "REGISTER_BY_NAME n = Some r" "rg_access r = RW" "rg_dtype r = FLOAT32"
    "is_ok (encode_register ''big'' (VFloat v) r)" "is_finite v" "ready (bt_coord s)"
  shows "ready (bt_coord (snd (bt_wr te n v s)))
    \<and> last_commanded (bt_coord (snd (bt_wr te n v s))) m = (if m = n then Some v else last_commanded (bt_coord s) m)"
proof -
  let ?c0 = "pop_observation (rg_name r) (bt_coord s)"
  let ?s = "co_client (bt_coord s)"
  have r: "r \<in> set ALL_REGISTERS" "rg_name r = n" using REGISTER_BY_NAME_SomeD [OF assms(2)] by simp_all
  obtain bs where b: "encode_register (cl_endianness ?s) (VFloat v) r = Inr bs"
    using assms(5,7) by (auto simp: ready_def is_ok_def split: sum.splits)
  obtain ws where w: "bytes_words bs = Inr ws"
    using bytes_words_total length_encode_register [OF b] by blast
  have k: "\<not> cl_closing ?s" "cl_has_client ?s" using assms(7) by (simp_all add: ready_def)
  obtain u where m: "write_register mem_env r (VFloat v) None ?s = (Inr (), log_io (IOWrite (rg_address r) ws WOk) u ?s)"
    using mem_write [OF r(1) assms(3) b k w, of None] by blast
  define c1 where "c1 = ?c0\<lparr>co_client := log_io (IOWrite (rg_address r) ws WOk) u ?s\<rparr>"
  have f: "on_client (write_register mem_env r (VFloat v) None) ?c0 = (Inr (), c1)"
    using m by (simp add: on_client_def pop_observation_def c1_def)
  define c2 where "c2 = (if r \<in> set CONTROL_READBACK_REGISTERS then c1\<lparr>co_slow_tick := 5\<rparr> else c1)"
  have cv: "commanded_value n v = Inr v"
    using assms(2,4) by (simp add: commanded_value_def INTEGER_WRITE_DATA_TYPES_def)
  have nf: "\<not> not_finite_float (VFloat v)"
    using assms(6) by (cases v) (simp_all add: not_finite_float_def is_nan_def is_inf_def)
  have g: "co_generation c2 = co_generation (bt_coord s)" "co_commanded c2 = co_commanded (bt_coord s)"
    "cl_closing (co_client c2) = cl_closing ?s" "cl_has_client (co_client c2) = cl_has_client ?s"
    "cl_endianness (co_client c2) = cl_endianness ?s"
    by (simp_all add: c2_def c1_def co_generation_def log_io_def pop_observation_def)
  obtain c3 where a: "async_write_register mem_env (te_ha te) r (VFloat v) ''modbus_coord'' None True (bt_coord s)
      = (Inr (), c3)" "co_client c3 = co_client c2"
    "co_commanded c3 = (co_commanded c2)(n \<mapsto> (v, co_generation c2))"
    using f cv nf assms(3) r(2)
    by (simp add: async_write_register_def sbind_def c2_def [symmetric] record_commanded_def Let_def
        co_generation_def audit_event_def split: option.split)
  have "bt_coord (snd (bt_wr te n v s)) = c3" using assms(1,2) a(1) by (simp add: bt_wr_def)
  moreover have "co_generation c3 = co_generation (bt_coord s)" using a(2) g(1) by (simp add: co_generation_def)
  moreover have "ready c3" using a(2) g assms(7) by (simp add: ready_def)
  ultimately show ?thesis using a(3) g(1,2)
    by (simp add: last_commanded_def split: option.split prod.split)
qed

definition blocked_coord :: "(nat \<Rightarrow> 16 word) coord" where
  "blocked_coord = (test_coord (\<lambda>_. 0))\<lparr>co_commanded := [''bat_max_charge_limit'' \<mapsto> (FFin 0, 0)]\<rparr>"

lemma refused_battery_test_overwrites_limit_witness:
  "\<exists>s'. run_test \<lparr>te_env = mem_env, te_ha = test_ha, te_abort = (\<lambda>w. False), te_soc_active = (\<lambda>w. False)\<rparr>
       DEFAULT_PHASES (btest_new blocked_coord (Some (Some OWNER_CHARGE_BLOCK))) = Some (TestDone [], s')
     \<and> get_owner_manager (bt_slot s') = Some OWNER_CHARGE_BLOCK
     \<and> last_commanded blocked_coord ''bat_max_charge_limit'' = Some (FFin 0)
     \<and> last_commanded (bt_coord s') ''bat_max_charge_limit'' = Some (FFin 20000)"
proof -
  let ?te = "\<lparr>te_env = mem_env, te_ha = test_ha, te_abort = (\<lambda>w. False), te_soc_active = (\<lambda>w. False)\<rparr> :: (nat \<Rightarrow> 16 word) bt_env"
  let ?s = "btest_new blocked_coord (Some (Some OWNER_CHARGE_BLOCK))"
  have r: "ready (bt_coord ?s)" "last_commanded blocked_coord ''bat_max_charge_limit'' = Some (FFin 0)"
    by (simp_all add: ready_def btest_new_def blocked_coord_def test_coord_def coord_new_def client_new_def
        last_commanded_def co_generation_def)
  have e: "is_ok (encode_register ''big'' (VFloat (FFin 0)) REG_BAT_CHARGE_DC_ABS_POWER)"
    "is_ok (encode_register ''big'' (VFloat (FFin 20000)) REG_BAT_MAX_CHARGE_LIMIT)"
    "is_ok (encode_register ''big'' (VFloat (FFin 20000)) REG_BAT_MAX_DISCHARGE_LIMIT)"
    by code_simp+
  have n: "REGISTER_BY_NAME ''bat_charge_dc_abs_power'' = Some REG_BAT_CHARGE_DC_ABS_POWER"
    "REGISTER_BY_NAME ''bat_max_charge_limit'' = Some REG_BAT_MAX_CHARGE_LIMIT"
    "REGISTER_BY_NAME ''bat_max_discharge_limit'' = Some REG_BAT_MAX_DISCHARGE_LIMIT"
    using REGISTER_BY_NAME_name [of REG_BAT_CHARGE_DC_ABS_POWER] REGISTER_BY_NAME_name [of REG_BAT_MAX_CHARGE_LIMIT]
      REGISTER_BY_NAME_name [of REG_BAT_MAX_DISCHARGE_LIMIT]
    by (simp_all add: ALL_REGISTERS_def REG_BAT_CHARGE_DC_ABS_POWER_def REG_BAT_MAX_CHARGE_LIMIT_def
        REG_BAT_MAX_DISCHARGE_LIMIT_def)
  have p: "rg_access REG_BAT_CHARGE_DC_ABS_POWER = RW" "rg_dtype REG_BAT_CHARGE_DC_ABS_POWER = FLOAT32"
    "rg_access REG_BAT_MAX_CHARGE_LIMIT = RW" "rg_dtype REG_BAT_MAX_CHARGE_LIMIT = FLOAT32"
    "rg_access REG_BAT_MAX_DISCHARGE_LIMIT = RW" "rg_dtype REG_BAT_MAX_DISCHARGE_LIMIT = FLOAT32"
    by (simp_all add: REG_BAT_CHARGE_DC_ABS_POWER_def REG_BAT_MAX_CHARGE_LIMIT_def REG_BAT_MAX_DISCHARGE_LIMIT_def)
  have te: "te_env ?te = mem_env" by simp
  let ?s1 = "snd (bt_wr ?te ''bat_charge_dc_abs_power'' (FFin 0) ?s)"
  let ?s2 = "snd (bt_wr ?te ''bat_max_charge_limit'' (FFin 20000) ?s1)"
  have 1: "ready (bt_coord ?s1)" using mem_bt_wr [OF te n(1) p(1,2) e(1) _ r(1)] by simp
  have 2: "ready (bt_coord ?s2)" "last_commanded (bt_coord ?s2) ''bat_max_charge_limit'' = Some (FFin 20000)"
    using mem_bt_wr [OF te n(2) p(3,4) e(2) _ 1, of "''bat_max_charge_limit''"] by simp_all
  have 3: "last_commanded (bt_coord (reset_writes ?te ?s)) ''bat_max_charge_limit'' = Some (FFin 20000)"
    using mem_bt_wr [OF te n(3) p(5,6) e(3) _ 2(1), of "''bat_max_charge_limit''"] 2(2) by (simp add: reset_writes_def)
  have o: "get_owner_manager (bt_slot ?s) = Some OWNER_CHARGE_BLOCK" "OWNER_CHARGE_BLOCK \<noteq> OWNER_BATTERY_TEST"
    by (simp_all add: btest_new_def get_owner_manager_def owner_names)
  show ?thesis
    using refused_battery_test_overwrites_limit [OF o, of ?te DEFAULT_PHASES] r(2) 3
    by (auto simp: btest_new_def)
qed

section \<open>What a test may send\<close>

text \<open>C11: What the battery test may send. Every write request of a whole run, whatever the device,
  the measurements, the user and the phases do, is a zero of the battery power, one of the two
  limits at 20000 W or at the value read before the test, or belongs to one of the phases; and
  the latter only if the power of every phase is within the inverter's maximum power.\<close>

theorem battery_test_commands:
  "run_test te phases s = Some (r, s') \<Longrightarrow>
   sent_only (idle_cmds s') s s'
   \<or> (\<exists>limit. max_power (reading (co_device_info (bt_coord s)) ''inverter_max_power'') = Inr limit
        \<and> (\<forall>p\<in>set phases. \<bar>ph_power p\<bar> \<le> limit)
        \<and> sent_only (idle_cmds s' \<union> (\<Union>p\<in>set phases. phase_cmds p)) s s')"
proof -
  assume run: "run_test te phases s = Some (r, s')"
  note fin = finally_sends
  show ?thesis
  proof (cases "bt_running s \<or> te_soc_active te (bt_world s)")
    case True
    then show ?thesis using run by (simp add: run_test_def)
  next
    case False
    obtain a slot where acq: "acquire_or_raise OWNER_BATTERY_TEST (bt_slot s) = (a, slot)" by fastforce
    let ?s1 = "s\<lparr>bt_running := True, bt_slot := slot\<rparr>"
    show ?thesis
    proof (cases a)
      case (Inl e)
      then have "test_finally te False (Inr []) ?s1 = (r, s')" using run False acq by (simp add: run_test_def Let_def)
      from fin [OF this, of "{}"] show ?thesis by simp
    next
      case (Inr u)
      obtain x s2 where b: "test_body te phases ?s1 = Some (x, s2)" "test_finally te True x s2 = (r, s')"
        using run False acq Inr by (auto simp: run_test_def)
      obtain y s3 where p: "preflight te phases ?s1 = (y, s3)" by fastforce
      note ps = preflight_sends [OF p, of s']
      show ?thesis
      proof (cases "y = Inr True")
        case False
        then have "s2 = s3" using b(1) p by (auto simp: test_body_def split: sum.splits if_splits)
        then have "sent_only (idle_cmds s') ?s1 s'"
          using ps sent_only_trans [OF _ fin [OF b(2), of "{}"]] by simp
        then show ?thesis by simp
      next
        case True
        then have rp: "run_phases te phases s3 = Some (x, s2)" using b(1) p by (simp add: test_body_def)
        let ?A = "\<Union>p\<in>set phases. phase_cmds p"
        have "sent_only (idle_cmds s' \<union> ?A) ?s1 s3" "sent_only (idle_cmds s' \<union> ?A) s3 s2"
          using ps run_phases_sends [OF rp] by (auto simp: step_sends_def intro: sent_only_mono)
        then have "sent_only (idle_cmds s' \<union> ?A) ?s1 s'"
          using sent_only_trans [OF sent_only_trans fin [OF b(2), of ?A]] by (simp add: Un_commute)
        then show ?thesis using ps True by simp
      qed
    qed
  qed
qed

theorem battery_test_commands_witness:
  "\<exists>s'. run_test \<lparr>te_env = mem_env, te_ha = test_ha, te_abort = (\<lambda>w. False), te_soc_active = (\<lambda>w. False)\<rparr>
       DEFAULT_PHASES (btest_new blocked_coord (Some (Some OWNER_CHARGE_BLOCK))) = Some (TestDone [], s')
     \<and> (sent_only (idle_cmds s') (btest_new blocked_coord (Some (Some OWNER_CHARGE_BLOCK))) s'
       \<or> (\<exists>limit. max_power VNone = Inr limit \<and> (\<forall>p\<in>set DEFAULT_PHASES. \<bar>ph_power p\<bar> \<le> limit)
          \<and> sent_only (idle_cmds s' \<union> (\<Union>p\<in>set DEFAULT_PHASES. phase_cmds p))
              (btest_new blocked_coord (Some (Some OWNER_CHARGE_BLOCK))) s'))"
proof -
  let ?te = "\<lparr>te_env = mem_env, te_ha = test_ha, te_abort = (\<lambda>w. False), te_soc_active = (\<lambda>w. False)\<rparr> :: (nat \<Rightarrow> 16 word) bt_env"
  let ?s = "btest_new blocked_coord (Some (Some OWNER_CHARGE_BLOCK))"
  have o: "get_owner_manager (bt_slot ?s) = Some OWNER_CHARGE_BLOCK" "OWNER_CHARGE_BLOCK \<noteq> OWNER_BATTERY_TEST"
    by (simp_all add: btest_new_def get_owner_manager_def owner_names)
  obtain s' where run: "run_test ?te DEFAULT_PHASES ?s = Some (TestDone [], s')"
    using refused_run [OF o, of ?te DEFAULT_PHASES] by (auto simp: btest_new_def)
  have i: "reading (co_device_info (bt_coord ?s)) ''inverter_max_power'' = VNone"
    by (simp add: btest_new_def blocked_coord_def test_coord_def coord_new_def reading_def)
  show ?thesis using run battery_test_commands [OF run] unfolding i by blast
qed

end
