(* ===== verification/ModbusNumber.thy ===== *)
theory ModbusNumber
  imports CoordWrites PyStats
begin

text \<open>
  The Modbus number entities (\<^verbatim>\<open>modbus_number.py\<close>): a write from the user interface with its
  read-back confirmation, and the keepalive of the cyclic limits.

  Refreshing the coordinator is Home Assistant's part: \<open>ne_refresh\<close> and \<open>ne_request_refresh\<close> may
  change the coordinator in any way. \<open>ne_others\<close> is what other tasks do to the coordinator while a
  read waits, and \<open>ne_superseded\<close> tells whether another task recorded a command while the
  keepalive's own write is under way. One turn of the keepalive loop, from its wake-up to its next
  sleep, is a step. The notification of a lost lease is the flag \<open>mn_lease_lost\<close>; other log lines
  and the entity's icon and category are not modelled.
\<close>

section \<open>Constants\<close>

definition FALLBACK_MAX_POWER :: int where "FALLBACK_MAX_POWER = 20000"
definition G3_KEEPALIVE_DIVISOR :: pyfloat where "G3_KEEPALIVE_DIVISOR = FFin 2"
definition G3_KEEPALIVE_MIN_SECONDS :: int where "G3_KEEPALIVE_MIN_SECONDS = 15"
definition G3_KEEPALIVE_MAX_SECONDS :: int where "G3_KEEPALIVE_MAX_SECONDS = 300"
definition G3_DEFAULT_FALLBACK_SECONDS :: int where "G3_DEFAULT_FALLBACK_SECONDS = 60"
definition READBACK_ATTEMPTS :: nat where "READBACK_ATTEMPTS = 3"
definition READBACK_RETRY_SECONDS :: rat where "READBACK_RETRY_SECONDS = 1 / 5"
definition READBACK_POWER_REL_TOL :: pyfloat where "READBACK_POWER_REL_TOL = mk_float False (5 / 1000)"
definition READBACK_POWER_MIN_ABS_TOL_W :: pyfloat where "READBACK_POWER_MIN_ABS_TOL_W = FFin 5"
definition ALLOWANCE_LOG_MIN_CHANGE_W :: pyfloat where "ALLOWANCE_LOG_MIN_CHANGE_W = FFin 100"
definition ALLOWANCE_LOG_REL_CHANGE :: pyfloat where "ALLOWANCE_LOG_REL_CHANGE = mk_float False (5 / 100)"

datatype command_outcome =
  CommandConfirmed | CommandLimited | CommandInvalidated
  | ReadbackAbove | ReadbackBelow | ReadbackUnreadable

definition EFFECTIVE_LIMIT_REGISTERS :: "string list" where
  "EFFECTIVE_LIMIT_REGISTERS = [rg_name REG_BAT_MAX_CHARGE_LIMIT, rg_name REG_BAT_MAX_DISCHARGE_LIMIT]"

definition G3_CYCLIC_REGISTERS :: "string list" where
  "G3_CYCLIC_REGISTERS = [rg_name REG_G3_MAX_CHARGE, rg_name REG_G3_MAX_DISCHARGE]"

definition CURTAILMENT_REGISTER_NAME :: string where
  "CURTAILMENT_REGISTER_NAME = rg_name REG_ACTIVE_POWER_SETPOINT"

section \<open>The entities\<close>

record number_desc =
  nd_register :: modbus_register
  nd_name :: string
  nd_min :: int
  nd_max :: int
  nd_step :: int
  nd_unit :: string

definition build_descriptions :: "int \<Rightarrow> number_desc list" where
  "build_descriptions max_power =
     [\<lparr>nd_register = REG_BAT_CHARGE_DC_ABS_POWER, nd_name = ''Battery Charge Power (Modbus)'',
       nd_min = - max_power, nd_max = max_power, nd_step = 100, nd_unit = ''W''\<rparr>,
      \<lparr>nd_register = REG_BAT_MAX_CHARGE_LIMIT, nd_name = ''Battery Max Charge Limit (Modbus)'',
       nd_min = 0, nd_max = max_power, nd_step = 100, nd_unit = ''W''\<rparr>,
      \<lparr>nd_register = REG_BAT_MAX_DISCHARGE_LIMIT, nd_name = ''Battery Max Discharge Limit (Modbus)'',
       nd_min = 0, nd_max = max_power, nd_step = 100, nd_unit = ''W''\<rparr>,
      \<lparr>nd_register = REG_BAT_MIN_SOC, nd_name = ''Battery Min SoC (Modbus)'',
       nd_min = 5, nd_max = 100, nd_step = 1, nd_unit = ''%''\<rparr>,
      \<lparr>nd_register = REG_BAT_MAX_SOC, nd_name = ''Battery Max SoC (Modbus)'',
       nd_min = 5, nd_max = 100, nd_step = 1, nd_unit = ''%''\<rparr>,
      \<lparr>nd_register = REG_ACTIVE_POWER_SETPOINT, nd_name = ''Active Power Setpoint (Modbus)'',
       nd_min = 1, nd_max = 100, nd_step = 1, nd_unit = ''%''\<rparr>,
      \<lparr>nd_register = REG_G3_MAX_CHARGE, nd_name = ''G3 Max Battery Charge Power (Modbus)'',
       nd_min = 0, nd_max = max_power, nd_step = 100, nd_unit = ''W''\<rparr>,
      \<lparr>nd_register = REG_G3_MAX_DISCHARGE, nd_name = ''G3 Max Battery Discharge Power (Modbus)'',
       nd_min = 0, nd_max = max_power, nd_step = 100, nd_unit = ''W''\<rparr>]"

record number_cfg =
  nc_register :: modbus_register
  nc_min :: pyfloat
  nc_max :: pyfloat
  nc_step :: pyfloat
  nc_read_only :: bool

text \<open>The keepalive task: none, created, or asleep for so many seconds.\<close>

datatype ka_task = KaNone | KaNew | KaSleeping int

record 'w mnum =
  mn_coord :: "'w coord"
  mn_task :: ka_task
  mn_keepalive :: "pyfloat option"
  mn_ka_generation :: "nat option"
  mn_ka_incidents :: int
  mn_last_command :: "(nat \<times> command_outcome \<times> pyfloat option) option"
  mn_baseline :: "(nat \<times> pyfloat) option"
  mn_allowance :: "(pyfloat \<times> pyfloat) option"
  mn_lease_lost :: bool

record 'w num_env =
  ne_env :: "'w env"
  ne_ha :: "'w ha_env"
  ne_refresh :: "'w coord \<Rightarrow> 'w coord"
  ne_request_refresh :: "'w coord \<Rightarrow> 'w coord"
  ne_others :: "'w coord \<Rightarrow> 'w coord"
  ne_superseded :: "string \<Rightarrow> 'w \<Rightarrow> bool"

definition mnum_new :: "'w coord \<Rightarrow> 'w mnum" where
  "mnum_new c = \<lparr>mn_coord = c, mn_task = KaNone, mn_keepalive = None, mn_ka_generation = None,
     mn_ka_incidents = 0, mn_last_command = None, mn_baseline = None, mn_allowance = None,
     mn_lease_lost = False\<rparr>"

section \<open>Creation\<close>

text \<open>The inverter's maximum power, and whether the entities may write.\<close>

definition number_max_power :: "readings \<Rightarrow> pyexc + int" where
  "number_max_power d = (case reading d (rg_name REG_INVERTER_MAX_POWER) of
     VNone \<Rightarrow> Inr FALLBACK_MAX_POWER
   | raw \<Rightarrow> (case int_of_val raw of
       Inr i \<Rightarrow> Inr i
     | Inl e \<Rightarrow> if e = TypeError \<or> e = ValueError then Inr FALLBACK_MAX_POWER else Inl e))"

definition probe_modbus_access :: "'w num_env \<Rightarrow> 'w coord \<Rightarrow> bool \<times> 'w coord" where
  "probe_modbus_access te c = (case on_client (read_register (ne_env te) REG_BAT_MIN_SOC) c of
     (Inl _, c1) \<Rightarrow> (False, c1)
   | (Inr v, c1) \<Rightarrow> (is_ok (float_of_val v), c1))"

text \<open>\<open>None\<close> is a mode that is not a number; it is probed like any other mode, and read-only.\<close>

definition mgmt_mode :: "pyval \<Rightarrow> pyexc + int option" where
  "mgmt_mode v = (case bind_res (float_of_val v) int_of_float of
     Inr i \<Rightarrow> Inr (Some i)
   | Inl e \<Rightarrow> if e = TypeError \<or> e = ValueError then Inr None else Inl e)"

definition number_read_only :: "'w num_env \<Rightarrow> 'w coord \<Rightarrow> (pyexc + bool) \<times> 'w coord" where
  "number_read_only te c = (case reading (co_device_info c) (rg_name REG_BATTERY_MGMT_MODE) of
     VNone \<Rightarrow> (Inr False, c)
   | v \<Rightarrow> (case mgmt_mode v of
       Inl e \<Rightarrow> (Inl e, c)
     | Inr m \<Rightarrow>
         if m = Some 2 then (Inr False, c)
         else let (ok, c1) = probe_modbus_access te c
           in (Inr (m \<noteq> Some 0 \<or> \<not> ok), c1)))"

definition number_of_desc :: "bool \<Rightarrow> number_desc \<Rightarrow> pyexc + number_cfg" where
  "number_of_desc ro d =
     bind_res (float_of_int (nd_min d)) (\<lambda>lo.
     bind_res (float_of_int (nd_max d)) (\<lambda>hi.
     bind_res (float_of_int (nd_step d)) (\<lambda>st.
       Inr \<lparr>nc_register = nd_register d, nc_min = lo, nc_max = hi, nc_step = st, nc_read_only = ro\<rparr>)))"

fun numbers_of :: "bool \<Rightarrow> number_desc list \<Rightarrow> pyexc + number_cfg list" where
  "numbers_of ro [] = Inr []"
| "numbers_of ro (d # ds) =
     bind_res (number_of_desc ro d) (\<lambda>n. bind_res (numbers_of ro ds) (\<lambda>ns. Inr (n # ns)))"

definition create_number_entities :: "'w num_env \<Rightarrow> 'w coord \<Rightarrow> (pyexc + number_cfg list) \<times> 'w coord" where
  "create_number_entities te c = (case number_max_power (co_device_info c) of
     Inl e \<Rightarrow> (Inl e, c)
   | Inr p \<Rightarrow> (case number_read_only te c of
       (Inl e, c1) \<Rightarrow> (Inl e, c1)
     | (Inr ro, c1) \<Rightarrow> (numbers_of ro (build_descriptions p), c1)))"

section \<open>Read-back\<close>

text \<open>\<open>math.isclose(a, b, rel_tol=1e-6, abs_tol=t)\<close>.\<close>

definition is_close :: "pyfloat \<Rightarrow> pyfloat \<Rightarrow> pyfloat \<Rightarrow> bool" where
  "is_close a b t \<longleftrightarrow> feq a b \<or> \<not> is_inf a \<and> \<not> is_inf b \<and>
     (let rel = mk_float False (1 / 1000000); diff = fabs (fsub b a)
      in fle diff (fabs (fmul rel b)) \<or> fle diff (fabs (fmul rel a)) \<or> fle diff t)"

definition half :: "pyfloat \<Rightarrow> pyfloat" where
  "half x = fmul x (FFin (1 / 2))"

definition readback_matches :: "number_cfg \<Rightarrow> pyfloat \<Rightarrow> pyfloat \<Rightarrow> bool" where
  "readback_matches cfg observed v =
     (if feq v (FFin 0) \<or> feq observed (FFin 0) then feq observed v
      else if rg_unit (nc_register cfg) \<noteq> Some ''W'' then is_close observed v (mk_float False (1 / 1000000))
      else let tol = py_max READBACK_POWER_MIN_ABS_TOL_W (fmul (fabs v) READBACK_POWER_REL_TOL)
        in if \<not> flt (FFin 0) (nc_step cfg) then is_close observed v tol
           else \<not> fle (half (nc_step cfg)) (fabs (fsub observed v))
                \<and> is_close observed v (py_min tol (half (nc_step cfg))))"

definition readback_limited :: "number_cfg \<Rightarrow> pyfloat \<Rightarrow> pyfloat \<Rightarrow> pyfloat option \<Rightarrow> bool" where
  "readback_limited cfg observed v previous \<longleftrightarrow>
     rg_name (nc_register cfg) \<in> set EFFECTIVE_LIMIT_REGISTERS \<and> fle (FFin 0) observed \<and> flt observed v
     \<and> (case previous of None \<Rightarrow> True | Some p \<Rightarrow> fle v p \<or> \<not> readback_matches cfg observed p)"

definition readback_outcome :: "pyfloat option \<Rightarrow> pyfloat \<Rightarrow> command_outcome" where
  "readback_outcome observed v = (case observed of
     None \<Rightarrow> ReadbackUnreadable | Some x \<Rightarrow> if flt v x then ReadbackAbove else ReadbackBelow)"

definition allowance_logged :: "pyfloat \<Rightarrow> pyfloat \<Rightarrow> 'w mnum \<Rightarrow> bool \<times> 'w mnum" where
  "allowance_logged v observed s =
     (if (case mn_allowance s of
            None \<Rightarrow> False
          | Some (command, allowance) \<Rightarrow> feq command v
              \<and> fle (fabs (fsub observed allowance))
                    (py_max ALLOWANCE_LOG_MIN_CHANGE_W (fmul (fabs allowance) ALLOWANCE_LOG_REL_CHANGE)))
      then (True, s) else (False, s\<lparr>mn_allowance := Some (v, observed)\<rparr>))"

definition record_last_command :: "nat \<Rightarrow> command_outcome \<Rightarrow> pyfloat option \<Rightarrow> 'w mnum \<Rightarrow> 'w mnum" where
  "record_last_command revision outcome observed s =
     (if (case mn_last_command s of None \<Rightarrow> True | Some (r, _) \<Rightarrow> r \<le> revision)
      then s\<lparr>mn_last_command := Some (revision, outcome, observed)\<rparr> else s)"

text \<open>What the read-back loop found: nothing was read, a failed read, or a value.\<close>

datatype readback = NotRead | ReadFailed | ReadVerified pyfloat | ReadLimited pyfloat | ReadMismatch pyfloat

fun rb_observed :: "readback \<Rightarrow> pyfloat option" where
  "rb_observed (ReadVerified x) = Some x"
| "rb_observed (ReadLimited x) = Some x"
| "rb_observed (ReadMismatch x) = Some x"
| "rb_observed _ = None"

definition mn_name :: "number_cfg \<Rightarrow> string" where
  "mn_name cfg = rg_name (nc_register cfg)"

definition read_number :: "'w num_env \<Rightarrow> number_cfg \<Rightarrow> 'w mnum \<Rightarrow> pyfloat option \<times> 'w mnum" where
  "read_number te cfg s =
     (let (x, c) = on_client (read_register (ne_env te) (nc_register cfg)) (ne_others te (mn_coord s))
      in (case x of Inl _ \<Rightarrow> None | Inr v \<Rightarrow> (case float_of_val v of Inl _ \<Rightarrow> None | Inr y \<Rightarrow> Some y),
          s\<lparr>mn_coord := c\<rparr>))"

definition trusted_reading :: "number_cfg \<Rightarrow> nat \<Rightarrow> pyfloat \<Rightarrow> 'w mnum \<Rightarrow> bool" where
  "trusted_reading cfg generation x s \<longleftrightarrow> co_generation (mn_coord s) = generation
     \<and> rg_address (nc_register cfg) \<notin> cl_retained (co_client (mn_coord s)) \<and> is_finite x"

definition mn_sleep :: "'w num_env \<Rightarrow> rat \<Rightarrow> 'w mnum \<Rightarrow> 'w mnum" where
  "mn_sleep te t s = s\<lparr>mn_coord := (mn_coord s)\<lparr>co_client := client_sleep (ne_env te) t (co_client (mn_coord s))\<rparr>\<rparr>"

fun readback_loop ::
    "'w num_env \<Rightarrow> number_cfg \<Rightarrow> pyfloat \<Rightarrow> pyfloat option \<Rightarrow> nat \<Rightarrow> nat \<Rightarrow> 'w mnum \<Rightarrow> readback \<times> 'w mnum" where
  "readback_loop te cfg v previous generation 0 s = (NotRead, s)"
| "readback_loop te cfg v previous generation (Suc left) s =
     (let s0 = (if Suc left = READBACK_ATTEMPTS then s else mn_sleep te READBACK_RETRY_SECONDS s)
      in case read_number te cfg s0 of
           (None, s1) \<Rightarrow> (ReadFailed, s1)
         | (Some x, s1) \<Rightarrow>
             if \<not> trusted_reading cfg generation x s1 then (ReadFailed, s1)
             else if readback_matches cfg x v then (ReadVerified x, s1)
             else if left \<noteq> 0 then readback_loop te cfg v previous generation left s1
             else if readback_limited cfg x v previous then (ReadLimited x, snd (allowance_logged v x s1))
             else (ReadMismatch x, s1))"

section \<open>A write from the user interface\<close>

datatype number_error =
  NumberReadOnly | NumberNotFinite | NumberOutOfRange | NumberWrite modbus_error
  | NumberUnconfirmed command_outcome | NumberInvalidated | NumberRaised pyexc

definition is_cyclic :: "number_cfg \<Rightarrow> bool" where
  "is_cyclic cfg \<longleftrightarrow> mn_name cfg \<in> set G3_CYCLIC_REGISTERS"

definition cancel_keepalive :: "'w mnum \<Rightarrow> 'w mnum" where
  "cancel_keepalive s = s\<lparr>mn_keepalive := None, mn_task := KaNone\<rparr>"

definition start_keepalive :: "pyfloat \<Rightarrow> 'w mnum \<Rightarrow> 'w mnum" where
  "start_keepalive v s = s\<lparr>mn_keepalive := Some v, mn_ka_generation := Some (co_generation (mn_coord s)),
     mn_ka_incidents := cm_incidents (co_comm (mn_coord s)),
     mn_task := (if mn_task s = KaNone then KaNew else mn_task s)\<rparr>"

text \<open>The completed poll of a monitored control: confirmed, limited, and the value decided on.\<close>

definition refresh_decision ::
    "'w num_env \<Rightarrow> number_cfg \<Rightarrow> pyfloat \<Rightarrow> pyfloat option \<Rightarrow> readback \<Rightarrow> 'w coord
     \<Rightarrow> pyexc + bool \<times> bool \<times> pyfloat option" where
  "refresh_decision te cfg v previous rb c =
     (let limited = (case rb of ReadLimited _ \<Rightarrow> True | _ \<Rightarrow> False)
      in if nc_register cfg \<notin> set CONTROL_READBACK_REGISTERS then Inr (True, limited, rb_observed rb)
         else let fresh = rg_address (nc_register cfg) \<notin> cl_retained (co_client c)
           in case (case map_of (proxy_cache_data (ne_env te) c) (mn_name cfg) of
                 None \<Rightarrow> Inr FNaN | Some VNone \<Rightarrow> Inr FNaN | Some x \<Rightarrow> float_of_val x) of
                Inr x \<Rightarrow>
                  (let matched = (is_finite x \<and> readback_matches cfg x v);
                       lim = (\<not> matched \<and> readback_limited cfg x v previous)
                   in Inr ((matched \<or> lim) \<and> fresh, lim, Some x))
              | Inl e \<Rightarrow> if e = TypeError \<or> e = ValueError then Inr (False, limited, rb_observed rb) else Inl e)"

definition finish_write ::
    "'w num_env \<Rightarrow> number_cfg \<Rightarrow> pyfloat \<Rightarrow> pyfloat option \<Rightarrow> nat \<Rightarrow> nat \<Rightarrow> readback \<Rightarrow> 'w mnum
     \<Rightarrow> (number_error + unit) \<times> 'w mnum" where
  "finish_write te cfg v previous generation revision rb s =
     (let c = ne_refresh te (mn_coord s); s1 = s\<lparr>mn_coord := c\<rparr>
      in case refresh_decision te cfg v previous rb c of
           Inl e \<Rightarrow> (Inl (NumberRaised e), s1)
         | Inr (confirmed, limited, decided) \<Rightarrow>
             if co_generation c \<noteq> generation \<or> \<not> client_connected (ne_env te) (co_client c)
                \<or> \<not> co_last_update_success c \<or> \<not> confirmed
             then let s2 = record_last_command revision CommandInvalidated (rb_observed rb) s1
               in (Inl NumberInvalidated, if is_cyclic cfg then s2\<lparr>mn_lease_lost := True\<rparr> else s2)
             else let s2 = record_last_command revision (if limited then CommandLimited else CommandConfirmed) decided s1;
                      s3 = s2\<lparr>mn_baseline := None\<rparr>;
                      s4 = (if limited then s3 else s3\<lparr>mn_allowance := None\<rparr>)
               in (Inr (), if is_cyclic cfg then (start_keepalive v s4)\<lparr>mn_lease_lost := False\<rparr> else s4))"

definition confirm_write ::
    "'w num_env \<Rightarrow> number_cfg \<Rightarrow> pyfloat \<Rightarrow> pyfloat option \<Rightarrow> 'w mnum \<Rightarrow> (number_error + unit) \<times> 'w mnum" where
  "confirm_write te cfg v previous s =
     (let generation = co_generation (mn_coord s);
          revision = command_revision (mn_coord s) (mn_name cfg);
          (rb, s1) = (if mn_name cfg = CURTAILMENT_REGISTER_NAME then (NotRead, s)
                      else readback_loop te cfg v previous generation READBACK_ATTEMPTS s);
          verified = (case rb of ReadVerified _ \<Rightarrow> True | _ \<Rightarrow> False);
          limited = (case rb of ReadLimited _ \<Rightarrow> True | _ \<Rightarrow> False);
          outcome = readback_outcome (rb_observed rb) v
      in if is_cyclic cfg \<and> \<not> verified
         then (Inl (NumberUnconfirmed outcome),
               (record_last_command revision outcome (rb_observed rb) s1)\<lparr>mn_lease_lost := True\<rparr>)
         else if \<not> verified \<and> \<not> limited \<and> mn_name cfg \<noteq> CURTAILMENT_REGISTER_NAME
         then let s2 = record_last_command revision outcome (rb_observed rb) s1;
                  s3 = (case previous of
                          Some p \<Rightarrow> if outcome = ReadbackBelow \<and> mn_name cfg \<in> set EFFECTIVE_LIMIT_REGISTERS
                                    then s2\<lparr>mn_baseline := Some (revision, p)\<rparr> else s2
                        | None \<Rightarrow> s2)
           in (Inl (NumberUnconfirmed outcome),
               if rb = ReadFailed then s3 else s3\<lparr>mn_coord := ne_request_refresh te (mn_coord s3)\<rparr>)
         else finish_write te cfg v previous generation revision rb s1)"

text \<open>The command a new one is compared with: a retry of an ignored one keeps the command before it.\<close>

definition effective_previous :: "number_cfg \<Rightarrow> 'w mnum \<Rightarrow> pyfloat option" where
  "effective_previous cfg s = (case mn_baseline s of
     Some (revision, p) \<Rightarrow>
       if revision = command_revision (mn_coord s) (mn_name cfg) then Some p
       else last_commanded (mn_coord s) (mn_name cfg)
   | None \<Rightarrow> last_commanded (mn_coord s) (mn_name cfg))"

text \<open>A new command is logged again; the keepalive of the old one ends.\<close>

definition prepare_write :: "number_cfg \<Rightarrow> pyfloat \<Rightarrow> 'w mnum \<Rightarrow> 'w mnum" where
  "prepare_write cfg v s =
     (let s1 = (if (case last_commanded (mn_coord s) (mn_name cfg) of None \<Rightarrow> False | Some p \<Rightarrow> feq p v)
                then s else s\<lparr>mn_allowance := None\<rparr>)
      in if is_cyclic cfg then cancel_keepalive s1 else s1)"

definition set_native_value ::
    "'w num_env \<Rightarrow> number_cfg \<Rightarrow> pyfloat \<Rightarrow> 'w mnum \<Rightarrow> (number_error + unit) \<times> 'w mnum" where
  "set_native_value te cfg v s =
     (if nc_read_only cfg then (Inl NumberReadOnly, s)
      else if is_nan v \<or> is_inf v then (Inl NumberNotFinite, s)
      else if \<not> (fle (nc_min cfg) v \<and> fle v (nc_max cfg)) then (Inl NumberOutOfRange, s)
      else
        let s1 = prepare_write cfg v s; previous = effective_previous cfg s1
        in case async_write_register (ne_env te) (ne_ha te) (nc_register cfg) (VFloat v) ''modbus_coord'' None True
                  (mn_coord s1) of
             (Inl e, c) \<Rightarrow> (Inl (NumberWrite e), s1\<lparr>mn_coord := c\<rparr>)
           | (Inr _, c) \<Rightarrow> confirm_write te cfg v previous (s1\<lparr>mn_coord := c\<rparr>))"

section \<open>The keepalive of a cyclic limit\<close>

definition get_keepalive_interval :: "readings option \<Rightarrow> pyexc + int" where
  "get_keepalive_interval data =
     bind_res (case data of
         None \<Rightarrow> Inr G3_DEFAULT_FALLBACK_SECONDS
       | Some d \<Rightarrow> (case reading d (rg_name REG_G3_FALLBACK_TIME) of
           VNone \<Rightarrow> Inr G3_DEFAULT_FALLBACK_SECONDS
         | raw \<Rightarrow> (case bind_res (float_of_val raw) int_of_float of
             Inr i \<Rightarrow> Inr i
           | Inl e \<Rightarrow> if e = TypeError \<or> e = ValueError then Inr G3_DEFAULT_FALLBACK_SECONDS else Inl e)))
       (\<lambda>fallback. bind_res (float_of_int fallback) (\<lambda>f.
        bind_res (fdiv f G3_KEEPALIVE_DIVISOR) (\<lambda>x.
        bind_res (if flt (FFin (of_int G3_KEEPALIVE_MIN_SECONDS)) x then int_of_float x
                  else Inr G3_KEEPALIVE_MIN_SECONDS) (\<lambda>i.
          Inr (min i G3_KEEPALIVE_MAX_SECONDS)))))"

text \<open>The next sleep; an error that the loop does not expect ends the task and nothing is told.\<close>

definition keepalive_sleep :: "'w mnum \<Rightarrow> 'w mnum" where
  "keepalive_sleep s = (case get_keepalive_interval (co_data (mn_coord s)) of
     Inr i \<Rightarrow> s\<lparr>mn_task := KaSleeping i\<rparr>
   | Inl e \<Rightarrow> s\<lparr>mn_task := (if e \<in> {TypeError, ValueError, ZeroDivisionError}
                then KaSleeping (G3_DEFAULT_FALLBACK_SECONDS div 2) else KaNone)\<rparr>)"

definition lease_held :: "'w num_env \<Rightarrow> number_cfg \<Rightarrow> pyfloat \<Rightarrow> 'w mnum \<Rightarrow> bool" where
  "lease_held te cfg v s =
     (let c = mn_coord s
      in client_connected (ne_env te) (co_client c) \<and> co_last_update_success c \<and> \<not> co_slow_stale c
         \<and> cm_faults (co_comm c) = [] \<and> cm_incidents (co_comm c) = mn_ka_incidents s
         \<and> Some (co_generation c) = mn_ka_generation s
         \<and> (case last_commanded c (mn_name cfg) of None \<Rightarrow> False | Some p \<Rightarrow> feq p v))"

definition keepalive_precondition :: "'w num_env \<Rightarrow> number_cfg \<Rightarrow> 'w mnum \<Rightarrow> 'w client \<Rightarrow> bool" where
  "keepalive_precondition te cfg s cl \<longleftrightarrow>
     Some (cl_generation cl) = mn_ka_generation s \<and> \<not> ne_superseded te (mn_name cfg) (cl_world cl)"

definition keepalive_lost :: "'w mnum \<Rightarrow> 'w mnum" where
  "keepalive_lost s = s\<lparr>mn_keepalive := None, mn_task := KaNone, mn_lease_lost := True\<rparr>"

definition keepalive_wake :: "'w num_env \<Rightarrow> number_cfg \<Rightarrow> 'w mnum \<Rightarrow> 'w mnum" where
  "keepalive_wake te cfg s = (case mn_keepalive s of
     None \<Rightarrow> s\<lparr>mn_task := KaNone\<rparr>
   | Some v \<Rightarrow>
       if \<not> lease_held te cfg v s then keepalive_lost s
       else case async_write_register (ne_env te) (ne_ha te) (nc_register cfg) (VFloat v) ''modbus_coord''
              (Some (keepalive_precondition te cfg s)) False (mn_coord s) of
              (Inr _, c) \<Rightarrow> keepalive_sleep (s\<lparr>mn_coord := c\<rparr>)
            | (Inl _, c) \<Rightarrow> keepalive_lost (s\<lparr>mn_coord := c\<rparr>))"

definition keepalive_turn :: "'w num_env \<Rightarrow> number_cfg \<Rightarrow> 'w mnum \<Rightarrow> 'w mnum" where
  "keepalive_turn te cfg s = (case mn_task s of
     KaNone \<Rightarrow> s
   | KaNew \<Rightarrow> (if mn_keepalive s = None then s\<lparr>mn_task := KaNone\<rparr> else keepalive_sleep s)
   | KaSleeping _ \<Rightarrow> keepalive_wake te cfg s)"

section \<open>What the entity shows\<close>

definition native_value :: "number_cfg \<Rightarrow> 'w mnum \<Rightarrow> pyexc + pyfloat option" where
  "native_value cfg s =
     (let fallback = (if mn_name cfg = CURTAILMENT_REGISTER_NAME
                      then last_commanded (mn_coord s) (mn_name cfg) else None)
      in case co_data (mn_coord s) of
           None \<Rightarrow> Inr fallback
         | Some d \<Rightarrow> (case reading d (mn_name cfg) of
             VNone \<Rightarrow> Inr fallback
           | v \<Rightarrow> (case float_of_val v of
               Inr x \<Rightarrow> Inr (Some x)
             | Inl e \<Rightarrow> if e = TypeError \<or> e = ValueError then Inr None else Inl e)))"

text \<open>The command next to the value: the outcome only while the write is still the last command.\<close>

definition command_attributes ::
    "number_cfg \<Rightarrow> 'w mnum \<Rightarrow> (pyfloat \<times> (command_outcome \<times> pyfloat option) option) option" where
  "command_attributes cfg s = (case last_commanded (mn_coord s) (mn_name cfg) of
     None \<Rightarrow> None
   | Some v \<Rightarrow> Some (v, case mn_last_command s of
       None \<Rightarrow> None
     | Some (r, outcome, observed) \<Rightarrow>
         if r = command_revision (mn_coord s) (mn_name cfg) then Some (outcome, observed) else None))"

record curtailment =
  cu_active :: bool
  cu_full :: bool
  cu_commanded :: "pyfloat option"
  cu_minimum :: pyfloat

definition curtailment_attributes :: "number_cfg \<Rightarrow> 'w mnum \<Rightarrow> pyexc + curtailment" where
  "curtailment_attributes cfg s = bind_res (native_value cfg s) (\<lambda>v.
     Inr \<lparr>cu_active = (case v of None \<Rightarrow> False | Some x \<Rightarrow> flt x (FFin 100)),
       cu_full = (case v of None \<Rightarrow> False | Some x \<Rightarrow> fle (FFin 100) x),
       cu_commanded = last_commanded (mn_coord s) (mn_name cfg), cu_minimum = nc_min cfg\<rparr>)"

end
