(* ===== verification/NumberProofs.thy ===== *)
theory NumberProofs
  imports ModbusNumber
begin

text \<open>
  The number entity: what a confirmed write means, how close a read-back is to the command, and
  what the keepalive may send.
\<close>

section \<open>The tolerance of a read-back\<close>

lemma fabs_ge:
  assumes "0 < q" "is_double q" "q \<le> \<bar>d\<bar>"
  shows "fle (FFin q) (fabs (mk_float m d))"
proof -
  have e: "mk_float n q = FFin q" "mk_float n (- q) = FFin (- q)" for n
    using assms(1,2) round_to_minus [of 53 "- 1022" q] by (simp_all add: mk_float_def is_double_def Let_def)
  show ?thesis
  proof (cases "0 \<le> d")
    case True
    then have "fle (FFin q) (mk_float m d)" using mk_float_mono [of q d m m] assms(3) e by simp
    then show ?thesis using assms(1) by (cases "mk_float m d") (auto simp: fle_def)
  next
    case False
    then have "fle (mk_float m d) (FFin (- q))" using mk_float_mono [of d "- q" m m] assms(3) e by simp
    then show ?thesis using assms(1) by (cases "mk_float m d") (auto simp: fle_def)
  qed
qed

lemma half_step:
  assumes "0 < n" "n < 2 ^ 52"
  shows "half (FFin (of_int n)) = FFin (of_int n / 2)" "is_double (of_int n / 2)"
proof -
  have r: "round_to 53 (- 1022) (of_int n / 2) = of_int n / 2"
    by (rule round_to_exact [where m = n and e = "- 1"]) (use assms in \<open>auto simp: pow2_def\<close>)
  have "(of_int n :: rat) < of_int (2 ^ 52)" using assms(2) by (simp only: of_int_less_iff)
  then have "(of_int n / 2 :: rat) < pow2 1024"
    using pow2_mono [of 52 1024] pow2_nat [of 52] assms(1) by simp
  then show "is_double (of_int n / 2)" using r assms(1) by (simp add: is_double_def)
  show "half (FFin (of_int n)) = FFin (of_int n / 2)"
    using r \<open>of_int n / 2 < pow2 1024\<close> assms(1)
    by (simp add: half_def fmul_def mk_float_def is_nan_def is_inf_def Let_def)
qed

text \<open>A read-back confirms a command only if it is less than half an input step away from it,
  and a zero confirms nothing but a zero: the exact difference of the two floats is meant, so no
  rounding of the comparison lets a command that was ignored by one step pass.\<close>

lemma readback_within_half_step:
  "readback_matches cfg observed v \<Longrightarrow> is_finite observed \<Longrightarrow> is_finite v \<Longrightarrow>
   rg_unit (nc_register cfg) = Some ''W'' \<Longrightarrow> nc_step cfg = FFin (of_int n) \<Longrightarrow> 0 < n \<Longrightarrow> n < 2 ^ 52 \<Longrightarrow>
   \<bar>frat observed - frat v\<bar> < of_int n / 2 \<and> (frat observed = 0 \<longleftrightarrow> frat v = 0)"
proof -
  assume m: "readback_matches cfg observed v" and f: "is_finite observed" "is_finite v"
    and c: "rg_unit (nc_register cfg) = Some ''W''" "nc_step cfg = FFin (of_int n)" "0 < n" "n < 2 ^ 52"
  have z: "feq x (FFin 0) \<longleftrightarrow> frat x = 0" if "is_finite x" for x using that by (cases x) auto
  have e: "feq observed v \<longleftrightarrow> frat observed = frat v" using f by (cases observed; cases v) auto
  show ?thesis
  proof (cases "feq v (FFin 0) \<or> feq observed (FFin 0)")
    case True
    then show ?thesis using m c(3) f by (auto simp: readback_matches_def e z)
  next
    case False
    have "\<not> fle (FFin (of_int n / 2)) (fabs (fsub observed v))"
      using m False c half_step(1) [OF c(3,4)] by (simp add: readback_matches_def Let_def)
    moreover obtain k where "fsub observed v = mk_float k (frat observed - frat v)" using fsub_finite f by blast
    ultimately have "\<not> of_int n / 2 \<le> \<bar>frat observed - frat v\<bar>"
      using fabs_ge [OF _ half_step(2) [OF c(3,4)]] c(3) by fastforce
    then show ?thesis using False f by (simp add: z)
  qed
qed

definition charge_cfg :: number_cfg where
  "charge_cfg = \<lparr>nc_register = REG_BAT_MAX_CHARGE_LIMIT, nc_min = FFin 0, nc_max = FFin 10000,
     nc_step = FFin 100, nc_read_only = False\<rparr>"

lemma readback_within_half_step_witness:
  "readback_matches charge_cfg (FFin 998) (FFin 1000) \<and> \<bar>frat (FFin 998) - frat (FFin 1000)\<bar> < (of_int 100 / 2 :: rat)"
proof -
  have s: "fsub (FFin 998) (FFin 1000) = FFin (- 2)" "fsub (FFin 1000) (FFin 998) = FFin 2"
    using mk_float_of_int [of "- 2"] mk_float_of_int [of 2] by (simp_all add: fsub_def)
  have "fle (FFin 2) (fmul (fabs (FFin 1000)) READBACK_POWER_REL_TOL) \<or> fle (FFin 2) (FFin 5)" by (simp add: fle_def)
  have t: "fle (FFin 2) (py_min (py_max (FFin 5) x) (FFin 50))" for x
    by (cases x) (auto simp: py_min_def py_max_def fle_def)
  have h: "half (FFin 100) = FFin 50" using half_step(1) [of 100] by simp
  have m: "readback_matches charge_cfg (FFin 998) (FFin 1000)"
    using t by (simp add: readback_matches_def charge_cfg_def REG_BAT_MAX_CHARGE_LIMIT_def s h is_close_def
        is_inf_def READBACK_POWER_MIN_ABS_TOL_W_def Let_def fle_def)
  then show ?thesis using readback_within_half_step [OF m, of 100]
    by (simp add: charge_cfg_def REG_BAT_MAX_CHARGE_LIMIT_def)
qed

section \<open>A write that returns\<close>

lemma guarded_Inr:
  "(if a then (Inl e1, s) else if b then (Inl e2, s) else if \<not> (l \<and> h) then (Inl e3, s) else m) = (Inr u, s') \<Longrightarrow>
   (\<not> a) \<and> (\<not> b) \<and> (l \<and> h) \<and> m = (Inr u, s')"
  by (simp split: if_splits)

lemma finish_write_ok:
  assumes "finish_write te cfg v previous g rv rb s = (Inr (), s')"
  shows "mn_coord s' = ne_refresh te (mn_coord s) \<and> co_generation (mn_coord s') = g
    \<and> client_connected (ne_env te) (co_client (mn_coord s')) \<and> co_last_update_success (mn_coord s')
    \<and> (\<exists>lm dec. refresh_decision te cfg v previous rb (mn_coord s') = Inr (True, lm, dec))
    \<and> (is_cyclic cfg \<longrightarrow> mn_keepalive s' = Some v \<and> mn_ka_generation s' = Some g
        \<and> mn_ka_incidents s' = cm_incidents (co_comm (mn_coord s')))
    \<and> (\<not> is_cyclic cfg \<longrightarrow> mn_keepalive s' = mn_keepalive s)"
  using assms
  by (auto simp: finish_write_def record_last_command_def start_keepalive_def Let_def
      split: sum.splits prod.splits if_splits)

text \<open>
  A read of the register after the write, on the connection of the write and not a retained
  value, that reads the command or, for a limit that may be lowered, a value from zero up to it.
\<close>

definition read_back_ok :: "'w num_env \<Rightarrow> number_cfg \<Rightarrow> pyfloat \<Rightarrow> nat \<Rightarrow> bool" where
  "read_back_ok te cfg v generation \<longleftrightarrow> (\<exists>t x t'. read_number te cfg t = (Some x, t')
     \<and> co_generation (mn_coord t') = generation \<and> rg_address (nc_register cfg) \<notin> cl_retained (co_client (mn_coord t'))
     \<and> is_finite x \<and> (readback_matches cfg x v
       \<or> \<not> is_cyclic cfg \<and> mn_name cfg \<in> set EFFECTIVE_LIMIT_REGISTERS \<and> fle (FFin 0) x \<and> flt x v))"

lemma readback_loop_ok:
  assumes "readback_loop te cfg v previous g n s = (rb, s')" "rb = ReadVerified x \<or> rb = ReadLimited x"
  shows "\<exists>t t'. read_number te cfg t = (Some x, t') \<and> trusted_reading cfg g x t'
    \<and> (rb = ReadVerified x \<and> readback_matches cfg x v \<or> rb = ReadLimited x \<and> readback_limited cfg x v previous)"
  using assms
proof (induction n arbitrary: s)
  case (Suc n)
  let ?t = "if Suc n = READBACK_ATTEMPTS then s else mn_sleep te READBACK_RETRY_SECONDS s"
  obtain y s1 where y: "read_number te cfg ?t = (y, s1)" by fastforce
  show ?case
  proof (cases "\<exists>z. y = Some z \<and> trusted_reading cfg g z s1 \<and> \<not> readback_matches cfg z v \<and> n \<noteq> 0")
    case True
    then have "readback_loop te cfg v previous g n s1 = (rb, s')" using Suc.prems(1) y by (auto simp: Let_def)
    then show ?thesis using Suc.IH Suc.prems(2) by blast
  next
    case False
    then show ?thesis using Suc.prems y
      by (intro exI [of _ ?t] exI [of _ s1]) (auto simp: Let_def split: option.splits if_splits)
  qed
qed simp

lemma confirm_write_ok:
  assumes "confirm_write te cfg v previous s = (Inr (), s')"
  obtains rb s1 where "finish_write te cfg v previous (co_generation (mn_coord s))
      (command_revision (mn_coord s) (mn_name cfg)) rb s1 = (Inr (), s')"
    "mn_name cfg \<noteq> CURTAILMENT_REGISTER_NAME \<Longrightarrow> read_back_ok te cfg v (co_generation (mn_coord s))"
proof -
  let ?g = "co_generation (mn_coord s)"
  obtain rb s1 where r: "(if mn_name cfg = CURTAILMENT_REGISTER_NAME then (NotRead, s)
      else readback_loop te cfg v previous ?g READBACK_ATTEMPTS s) = (rb, s1)" by fastforce
  have f: "finish_write te cfg v previous ?g (command_revision (mn_coord s) (mn_name cfg)) rb s1 = (Inr (), s')"
    and c: "is_cyclic cfg \<longrightarrow> (\<exists>x. rb = ReadVerified x)"
      "mn_name cfg = CURTAILMENT_REGISTER_NAME \<or> (\<exists>x. rb = ReadVerified x \<or> rb = ReadLimited x)"
    using assms r by (auto simp: confirm_write_def Let_def split: if_splits readback.splits)
  have "read_back_ok te cfg v ?g" if n: "mn_name cfg \<noteq> CURTAILMENT_REGISTER_NAME"
  proof -
    obtain x where x: "rb = ReadVerified x \<or> rb = ReadLimited x" using c(2) n by blast
    have "readback_loop te cfg v previous ?g READBACK_ATTEMPTS s = (rb, s1)" using r n by simp
    from readback_loop_ok [OF this x] obtain t t' where t: "read_number te cfg t = (Some x, t')" "trusted_reading cfg ?g x t'"
      "rb = ReadVerified x \<and> readback_matches cfg x v \<or> rb = ReadLimited x \<and> readback_limited cfg x v previous" by blast
    then show ?thesis using c(1) unfolding read_back_ok_def
      by (intro exI [of _ t] exI [of _ x] exI [of _ t'])
        (auto simp: trusted_reading_def readback_limited_def mn_name_def)
  qed
  then show ?thesis using that f by blast
qed

definition confirmed_by :: "'w num_env \<Rightarrow> number_cfg \<Rightarrow> pyfloat \<Rightarrow> 'w coord \<Rightarrow> bool" where
  "confirmed_by te cfg v c \<longleftrightarrow> rg_address (nc_register cfg) \<notin> cl_retained (co_client c) \<and>
     (\<exists>y x. map_of (proxy_cache_data (ne_env te) c) (mn_name cfg) = Some y \<and> float_of_val y = Inr x
       \<and> (is_finite x \<and> readback_matches cfg x v
          \<or> mn_name cfg \<in> set EFFECTIVE_LIMIT_REGISTERS \<and> fle (FFin 0) x \<and> flt x v))"

lemma refresh_decision_confirmed:
  assumes "refresh_decision te cfg v previous rb c = Inr (True, lm, dec)"
    "nc_register cfg \<in> set CONTROL_READBACK_REGISTERS"
  shows "confirmed_by te cfg v c"
proof -
  let ?m = "map_of (proxy_cache_data (ne_env te) c) (mn_name cfg)"
  have n: "\<not> readback_limited cfg FNaN v previous" by (simp add: readback_limited_def fle_def)
  show ?thesis
  proof (cases ?m)
    case None
    then show ?thesis using assms n by (auto simp: refresh_decision_def Let_def)
  next
    case (Some y)
    show ?thesis
    proof (cases "y = VNone")
      case True
      then show ?thesis using assms n Some by (auto simp: refresh_decision_def Let_def)
    next
      case False
      have f: "(case Some y of None \<Rightarrow> Inr FNaN | Some VNone \<Rightarrow> Inr FNaN | Some x \<Rightarrow> float_of_val x) = float_of_val y"
        using False by (cases y) auto
      show ?thesis using assms Some
        unfolding refresh_decision_def Some f confirmed_by_def
        by (auto simp: Let_def readback_limited_def mn_name_def split: sum.splits if_splits)
    qed
  qed
qed


definition g3_cfg :: number_cfg where
  "g3_cfg = \<lparr>nc_register = REG_G3_MAX_CHARGE, nc_min = FFin 0, nc_max = FFin 20000, nc_step = FFin 100,
     nc_read_only = False\<rparr>"

text \<open>A device whose limits read 0 W, and a poll that observes it.\<close>

definition limit_num :: "unit num_env" where
  "limit_num = \<lparr>ne_env = \<lparr>ev_connect = (\<lambda>w. (ConnOk, w)), ev_connected = (\<lambda>w. True),
       ev_read = (\<lambda>a n w. (RResp [0, 0], w)), ev_write = (\<lambda>single a ws w. (WOk, w)), ev_sleep = (\<lambda>t w. w),
       ev_now = (\<lambda>w. 0), ev_closing = (\<lambda>w. False), ev_sched = (\<lambda>w. (True, w))\<rparr>,
     ne_ha = test_ha,
     ne_refresh = (\<lambda>c. c\<lparr>co_obs := [(''g3_max_charge'', VFloat (FFin 0), 0, co_generation c)]\<rparr>),
     ne_request_refresh = id, ne_others = id, ne_superseded = (\<lambda>_ _. False)\<rparr>"

definition limit_new :: "unit mnum" where
  "limit_new = mnum_new (coord_new ((client_new ''big'' ''keep_last'' ())\<lparr>cl_has_client := True\<rparr>) [])"

lemma limit_set_ok: "is_ok (fst (set_native_value limit_num g3_cfg (FFin 0) limit_new))"
  by code_simp


end
