(* ===== verification/NumberRuns.thy ===== *)
theory NumberRuns
  imports NumberProofs
begin

text \<open>
  What the number entity sends: the keepalive writes only while its lease is held and never after
  a reconnect, and no request of a run carries a value outside the entity's range.
\<close>

section \<open>Writes and reconnects\<close>

fun is_write :: "io \<Rightarrow> bool" where
  "is_write (IOWrite _ _ _) = True"
| "is_write _ = False"

definition links :: "io list \<Rightarrow> nat" where
  "links tr = length (filter (\<lambda>e. e = IOConnect ConnOk) tr)"

lemma links_simps [simp]: "links [] = 0" "links (e # tr) = (if e = IOConnect ConnOk then 1 else 0) + links tr"
  "links (xs @ ys) = links xs + links ys"
  by (simp_all add: links_def)

text \<open>The newest request comes first: no write has a successful connection attempt before it.\<close>

fun no_late_write :: "io list \<Rightarrow> bool" where
  "no_late_write [] = True"
| "no_late_write (e # tr) = ((is_write e \<longrightarrow> links tr = 0) \<and> no_late_write tr)"

lemma no_late_write_append: "\<forall>e\<in>set xs. \<not> is_write e \<Longrightarrow> no_late_write ys \<Longrightarrow> no_late_write (xs @ ys)"
  by (induction xs) auto

text \<open>Requests that are no writes; the generation counts the connections.\<close>

definition reads_only :: "'w client \<Rightarrow> 'w client \<Rightarrow> bool" where
  "reads_only s t \<longleftrightarrow> (\<exists>tr. cl_trace t = tr @ cl_trace s \<and> (\<forall>e\<in>set tr. \<not> is_write e)
     \<and> cl_generation t = cl_generation s + links tr)"

lemma reads_only_refl: "cl_trace t = cl_trace s \<Longrightarrow> cl_generation t = cl_generation s \<Longrightarrow> reads_only s t"
  by (simp add: reads_only_def)

lemma reads_only_trans:
  assumes "reads_only s t" "reads_only t u" shows "reads_only s u"
proof -
  obtain xs where x: "cl_trace t = xs @ cl_trace s" "\<forall>e\<in>set xs. \<not> is_write e" "cl_generation t = cl_generation s + links xs"
    using assms(1) by (auto simp: reads_only_def)
  obtain ys where y: "cl_trace u = ys @ cl_trace t" "\<forall>e\<in>set ys. \<not> is_write e" "cl_generation u = cl_generation t + links ys"
    using assms(2) by (auto simp: reads_only_def)
  show ?thesis unfolding reads_only_def by (rule exI [of _ "ys @ xs"]) (use x y in auto)
qed

lemma reads_only_log: "\<not> is_write e \<Longrightarrow> cl_trace t = e # cl_trace s \<Longrightarrow>
    cl_generation t = cl_generation s + (if e = IOConnect ConnOk then 1 else 0) \<Longrightarrow> reads_only s t"
  unfolding reads_only_def by (rule exI [of _ "[e]"]) simp

lemma reads_only_sleep: "reads_only s (client_sleep env t s)"
  by (rule reads_only_log [of "IOSleep t"]) (simp_all add: client_sleep_def log_io_def)

lemma reads_only_connect: "reads_only s (snd (client_connect env s))"
proof -
  obtain r w where "ev_connect env (cl_world s) = (r, w)" by fastforce
  then show ?thesis
    by (cases r) (auto simp: client_connect_def log_io_def Let_def intro: reads_only_refl reads_only_log [of "IOConnect r"])
qed

lemma reads_only_reconnect: "reads_only s (snd (client_reconnect env s))"
  using reads_only_connect [of "client_disconnect s" env]
  by (auto simp: client_reconnect_def client_disconnect_def reads_only_def)

lemma reads_only_raw_read: "reads_only s (snd (raw_read env a n s))"
proof -
  obtain ok w where sch: "ev_sched env (cl_world s) = (ok, w)" by fastforce
  obtain r w' where rd: "ev_read env a n w = (r, w')" by fastforce
  show ?thesis
    by (cases r) (auto simp: raw_read_def with_scheduler_def sch raw_read_inner_def rd log_io_def Let_def
      intro: reads_only_refl reads_only_log [of "IORead a n r"])
qed

lemma reads_only_sbind:
  "reads_only s (snd (m s)) \<Longrightarrow> (\<And>a t. reads_only t (snd (k a t))) \<Longrightarrow> reads_only s (snd (sbind m k s))"
  using reads_only_trans by (cases "m s"; cases "fst (m s)") (fastforce simp: sbind_def)+

lemma reads_only_detect: "reads_only s (snd (detect_endianness env s))"
  unfolding detect_endianness_def
  by (rule reads_only_sbind) (auto simp: reads_only_raw_read reads_only_refl Let_def split: sum.splits)

lemma reads_only_recover: "reads_only s (snd (write_recover env s))"
  unfolding write_recover_def
  by (rule reads_only_sbind) (auto simp: reads_only_reconnect reads_only_refl reads_only_detect intro!: reads_only_sbind)

lemma raw_write_trace:
  "\<exists>tr. cl_trace (snd (raw_write env a bs n s)) = tr @ cl_trace s \<and> no_late_write tr \<and> links tr = 0
     \<and> cl_generation (snd (raw_write env a bs n s)) = cl_generation s"
proof -
  obtain ok w where sch: "ev_sched env (cl_world s) = (ok, w)" by fastforce
  have one: "\<exists>tr. e # cl_trace s = tr @ cl_trace s \<and> no_late_write tr \<and> links tr = 0" if "is_write e" for e
    by (rule exI [of _ "[e]"]) (use that in auto)
  show ?thesis
    using one
    by (auto simp: raw_write_def with_scheduler_def sch raw_write_inner_def log_io_def Let_def
        split: sum.split prod.split write_result.split)
qed

text \<open>From \<open>s\<close> on, every write came before any reconnect.\<close>

definition early_writes :: "'w client \<Rightarrow> 'w client \<Rightarrow> bool" where
  "early_writes s t \<longleftrightarrow> (\<exists>tr. cl_trace t = tr @ cl_trace s \<and> no_late_write tr
     \<and> cl_generation t = cl_generation s + links tr)"

lemma early_writes_reads: "early_writes s t \<Longrightarrow> reads_only t u \<Longrightarrow> early_writes s u"
  unfolding early_writes_def reads_only_def
  by clarsimp (metis append.assoc add.assoc add.commute links_simps(3) no_late_write_append)

lemma early_writes_raw:
  assumes "early_writes s t" "cl_generation t = cl_generation s"
  shows "early_writes s (snd (raw_write env a bs n t))"
proof -
  obtain xs where x: "cl_trace t = xs @ cl_trace s" "no_late_write xs" "links xs = 0"
    using assms by (auto simp: early_writes_def)
  obtain ys where y: "cl_trace (snd (raw_write env a bs n t)) = ys @ cl_trace t" "no_late_write ys" "links ys = 0"
    "cl_generation (snd (raw_write env a bs n t)) = cl_generation t"
    using raw_write_trace [of env a bs n t] by blast
  have "no_late_write (ys @ xs)" using y(2,3) x(2,3) by (induction ys) auto
  then show ?thesis using x y assms(2) unfolding early_writes_def by (intro exI [of _ "ys @ xs"]) simp
qed

lemma write_loop_early:
  assumes "\<And>u. p u \<Longrightarrow> cl_generation u = cl_generation s" "early_writes s t"
    "left = MAX_RETRIES \<Longrightarrow> cl_generation t = cl_generation s" "left \<le> MAX_RETRIES"
  shows "early_writes s (snd (write_loop left env r bs (Some p) t))"
  using assms(2-4)
proof (induction left arbitrary: t)
  case (0 t)
  show ?case
  proof (cases "retry_allowed 0 (Some p) t")
    case True
    then have "cl_generation t = cl_generation s" using 0 assms(1) by (auto simp: retry_allowed_def MAX_RETRIES_def)
    note early_writes_raw [OF 0(1) this, of env "rg_address r" bs "rg_count r"]
    then show ?thesis using True
      by (auto simp: write_loop_0 split: prod.splits sum.splits modbus_error.splits)
  qed (use 0 in \<open>simp add: write_loop_0\<close>)
next
  case (Suc k t)
  show ?case
  proof (cases "retry_allowed (Suc k) (Some p) t")
    case True
    then have g: "cl_generation t = cl_generation s" using Suc.prems assms(1) by (auto simp: retry_allowed_def)
    obtain x t1 where f: "raw_write env (rg_address r) bs (rg_count r) t = (x, t1)" by fastforce
    have e: "early_writes s t1" using early_writes_raw [OF Suc.prems(1) g, of env "rg_address r" bs "rg_count r"] f by simp
    have ih: "early_writes s u \<Longrightarrow> early_writes s (snd (write_loop k env r bs (Some p) u))" for u
      using Suc.IH [of u] Suc.prems(3) by simp
    have sl: "early_writes s (client_sleep env d t1)" for d
      by (rule early_writes_reads [OF e reads_only_sleep])
    obtain y t2 where h: "write_recover env t1 = (y, t2)" by fastforce
    have e2: "early_writes s t2" using early_writes_reads [OF e] reads_only_recover [of t1 env] h by simp
    show ?thesis
    proof (cases x)
      case (Inr u)
      then show ?thesis using True f e by (simp add: write_loop_Suc)
    next
      case (Inl c)
      then show ?thesis using True f h e e2 ih [OF sl] ih [OF e2]
        by (cases c; cases y) (auto simp: write_loop_Suc is_conn_error_def)
    qed
  qed (use Suc.prems in \<open>simp add: write_loop_Suc\<close>)
qed


lemma write_register_early:
  assumes "\<And>u. p u \<Longrightarrow> cl_generation u = cl_generation s"
  shows "early_writes s (snd (write_register env r v (Some p) s))"
proof -
  have r: "early_writes s s" by (simp add: early_writes_def exI [of _ "[]"])
  show ?thesis
  proof (cases "encode_register (cl_endianness s) v r")
    case (Inr bs)
    then show ?thesis using write_loop_early [of p s s MAX_RETRIES env r bs, OF assms r] r
      by (simp add: write_register_def)
  qed (use r in \<open>simp add: write_register_def\<close>)
qed

section \<open>The keepalive\<close>

lemma async_write_silent:
  "co_commanded (snd (async_write_register env ha r v src pre False c)) = co_commanded c
   \<and> co_revision (snd (async_write_register env ha r v src pre False c)) = co_revision c"
proof -
  obtain x c1 where f: "on_client (write_register env r v pre) (pop_observation (rg_name r) c) = (x, c1)" by fastforce
  then have "co_commanded c1 = co_commanded c" "co_revision c1 = co_revision c"
    by (auto simp: on_client_def pop_observation_def split: prod.splits)
  then show ?thesis using f
    by (cases x) (auto simp: async_write_register_def sbind_def audit_event_def Let_def split: option.split)
qed

lemma keepalive_sleep_fields: "mn_coord (keepalive_sleep s) = mn_coord s" "mn_keepalive (keepalive_sleep s) = mn_keepalive s"
  by (simp_all add: keepalive_sleep_def split: sum.split)

definition keepalive_sends ::
    "number_cfg \<Rightarrow> pyfloat \<Rightarrow> 'w coord \<Rightarrow> 'w coord \<Rightarrow> bool" where
  "keepalive_sends cfg v c c' \<longleftrightarrow> co_commanded c' = co_commanded c \<and> co_revision c' = co_revision c
     \<and> (\<exists>tr. cl_trace (co_client c') = tr @ cl_trace (co_client c) \<and> no_late_write tr
        \<and> (\<forall>(a, w, x)\<in>set (io_writes tr). a = rg_address (nc_register cfg)
            \<and> encode_register (cl_endianness (co_client c)) (VFloat v) (nc_register cfg) = Inr (words_bytes w)))"

lemma keepalive_sends_refl: "keepalive_sends cfg v c c"
  by (auto simp: keepalive_sends_def intro: exI [of _ "[]"])

lemma io_writes_append: "io_writes (xs @ ys) = io_writes xs @ io_writes ys"
  by (induction xs rule: io_writes.induct) auto

lemma keepalive_write_sends:
  assumes "nc_register cfg \<in> set ALL_REGISTERS" "Some (co_generation (mn_coord s)) = mn_ka_generation s"
  shows "keepalive_sends cfg v (mn_coord s) (snd (async_write_register (ne_env te) (ne_ha te) (nc_register cfg) (VFloat v)
    ''modbus_coord'' (Some (keepalive_precondition te cfg s)) False (mn_coord s)))" (is "keepalive_sends cfg v ?c ?d")
proof (cases "rg_access (nc_register cfg) = RW \<and> \<not> not_finite_float (VFloat v)")
  case False
  then have "?d = ?c" by (cases "rg_access (nc_register cfg) = RW") (simp_all add: async_write_register_def)
  then show ?thesis by (simp add: keepalive_sends_refl)
next
  case True
  let ?r = "nc_register cfg" and ?p = "keepalive_precondition te cfg s"
  have cl: "co_client ?d = snd (write_register (ne_env te) ?r (VFloat v) (Some ?p) (co_client ?c))"
    using True by (intro coordinator_client) simp_all
  have "early_writes (co_client ?c) (co_client ?d)" unfolding cl
    by (rule write_register_early) (use assms(2) in \<open>simp add: keepalive_precondition_def co_generation_def, metis option.inject\<close>)
  then obtain tr where t: "cl_trace (co_client ?d) = tr @ cl_trace (co_client ?c)" "no_late_write tr"
    by (auto simp: early_writes_def)
  have "sends ?r (VFloat v) (cl_endianness (co_client ?c)) (co_client ?c) (co_client ?d)"
    by (rule coordinator_sends [OF assms(1)])
  then have "\<forall>(a, w, x)\<in>set (io_writes tr). a = rg_address ?r
      \<and> encode_register (cl_endianness (co_client ?c)) (VFloat v) ?r = Inr (words_bytes w)"
    by (auto simp: sends_def writes_def t(1) io_writes_append)
  then show ?thesis using t async_write_silent [of "ne_env te" "ne_ha te" ?r "VFloat v" "''modbus_coord''" "Some ?p" ?c]
    by (auto simp: keepalive_sends_def)
qed

lemma keepalive_turn_sends:
  "nc_register cfg \<in> set ALL_REGISTERS \<Longrightarrow>
   mn_coord (keepalive_turn te cfg s) = mn_coord s
   \<or> (\<exists>v. mn_keepalive s = Some v \<and> lease_held te cfg v s
        \<and> keepalive_sends cfg v (mn_coord s) (mn_coord (keepalive_turn te cfg s)))"
proof -
  assume r: "nc_register cfg \<in> set ALL_REGISTERS"
  show ?thesis
  proof (cases "mn_keepalive s")
    case None
    then show ?thesis by (simp add: keepalive_turn_def keepalive_wake_def split: ka_task.split)
  next
    case (Some v)
    show ?thesis
    proof (cases "lease_held te cfg v s")
      case False
      then show ?thesis using Some
        by (simp add: keepalive_turn_def keepalive_wake_def keepalive_lost_def keepalive_sleep_fields split: ka_task.split)
    next
      case True
      then have "Some (co_generation (mn_coord s)) = mn_ka_generation s" by (simp add: lease_held_def Let_def)
      note ks = keepalive_write_sends [OF r this, of v te]
      obtain x c where w: "async_write_register (ne_env te) (ne_ha te) (nc_register cfg) (VFloat v) ''modbus_coord''
          (Some (keepalive_precondition te cfg s)) False (mn_coord s) = (x, c)" by fastforce
      then have "mn_coord (keepalive_wake te cfg s) = c"
        using Some True by (cases x) (simp_all add: keepalive_wake_def keepalive_lost_def keepalive_sleep_fields)
      then show ?thesis using ks w Some True
        by (auto simp: keepalive_turn_def keepalive_sleep_fields split: ka_task.split)
    qed
  qed
qed

text \<open>A retry within the turn: none once another command or a reconnect has taken over.\<close>

lemma keepalive_write_stops:
  assumes "nc_register cfg \<in> set ALL_REGISTERS"
    "\<forall>t. client_later (ne_env te) (co_client (mn_coord s)) t \<longrightarrow> requests (co_client (mn_coord s)) < requests t
       \<longrightarrow> ne_superseded te (mn_name cfg) (cl_world t)"
  shows "requests (co_client (snd (async_write_register (ne_env te) (ne_ha te) (nc_register cfg) (VFloat v)
    ''modbus_coord'' (Some (keepalive_precondition te cfg s)) False (mn_coord s)))) \<le> requests (co_client (mn_coord s)) + 1"
    (is "requests (co_client ?d) \<le> requests (co_client ?c) + 1")
proof (cases "rg_access (nc_register cfg) = RW \<and> \<not> not_finite_float (VFloat v)")
  case False
  then have "?d = ?c" by (cases "rg_access (nc_register cfg) = RW") (simp_all add: async_write_register_def)
  then show ?thesis by simp
next
  case True
  then have "co_client ?d = snd (write_register (ne_env te) (nc_register cfg) (VFloat v)
      (Some (keepalive_precondition te cfg s)) (co_client ?c))"
    by (intro coordinator_client) simp_all
  moreover have "requests (snd (write_register (ne_env te) (nc_register cfg) (VFloat v)
      (Some (keepalive_precondition te cfg s)) (co_client ?c))) \<le> requests (co_client ?c) + 1"
    by (rule write_register_stops [OF assms(1)]) (use assms(2) in \<open>auto simp: keepalive_precondition_def Suc_le_eq\<close>)
  ultimately show ?thesis by simp
qed

lemma keepalive_turn_stops:
  assumes "nc_register cfg \<in> set ALL_REGISTERS"
    "\<forall>t. client_later (ne_env te) (co_client (mn_coord s)) t \<longrightarrow> requests (co_client (mn_coord s)) < requests t
       \<longrightarrow> ne_superseded te (mn_name cfg) (cl_world t)"
  shows "requests (co_client (mn_coord (keepalive_turn te cfg s))) \<le> requests (co_client (mn_coord s)) + 1"
proof -
  have "mn_coord (keepalive_wake te cfg s) = mn_coord s
    \<or> (\<exists>v. mn_coord (keepalive_wake te cfg s) = snd (async_write_register (ne_env te) (ne_ha te) (nc_register cfg) (VFloat v)
        ''modbus_coord'' (Some (keepalive_precondition te cfg s)) False (mn_coord s)))"
  proof (cases "\<exists>v. mn_keepalive s = Some v \<and> lease_held te cfg v s")
    case True
    then obtain v x c where v: "mn_keepalive s = Some v" "lease_held te cfg v s"
      and w: "async_write_register (ne_env te) (ne_ha te) (nc_register cfg) (VFloat v) ''modbus_coord''
          (Some (keepalive_precondition te cfg s)) False (mn_coord s) = (x, c)" by fastforce
    then have "mn_coord (keepalive_wake te cfg s) = c"
      by (cases x) (simp_all add: keepalive_wake_def keepalive_lost_def keepalive_sleep_fields)
    then show ?thesis using w by (metis snd_conv)
  next
    case False
    then show ?thesis
      by (cases "mn_keepalive s") (simp_all add: keepalive_wake_def keepalive_lost_def keepalive_sleep_fields)
  qed
  then have "requests (co_client (mn_coord (keepalive_wake te cfg s))) \<le> requests (co_client (mn_coord s)) + 1"
    using keepalive_write_stops [OF assms] by auto
  then show ?thesis by (simp add: keepalive_turn_def keepalive_sleep_fields split: ka_task.split)
qed


definition mn_writes :: "'w mnum \<Rightarrow> (nat \<times> 16 word list \<times> write_result) list" where
  "mn_writes s = writes (co_client (mn_coord s))"

text \<open>The state after a confirmed limit of 0 W.\<close>

definition limit_sleeping :: "unit mnum" where
  "limit_sleeping = limit_new\<lparr>mn_coord := (mn_coord limit_new)\<lparr>co_commanded := [''g3_max_charge'' \<mapsto> (FFin 0, 0)]\<rparr>,
     mn_task := KaSleeping 30, mn_keepalive := Some (FFin 0), mn_ka_generation := Some 0\<rparr>"

lemma limit_sleeping_lease: "lease_held limit_num g3_cfg (FFin 0) limit_sleeping"
  by code_simp

lemma limit_sleeping_writes:
  "length (mn_writes (keepalive_turn limit_num g3_cfg limit_sleeping)) = length (mn_writes limit_sleeping) + 1"
proof -
  obtain x c where w: "async_write_register (ne_env limit_num) (ne_ha limit_num) (nc_register g3_cfg) (VFloat (FFin 0))
      ''modbus_coord'' (Some (keepalive_precondition limit_num g3_cfg limit_sleeping)) False (mn_coord limit_sleeping) = (x, c)"
    by fastforce
  have "length (writes (co_client (snd (async_write_register (ne_env limit_num) (ne_ha limit_num) (nc_register g3_cfg)
      (VFloat (FFin 0)) ''modbus_coord'' (Some (keepalive_precondition limit_num g3_cfg limit_sleeping)) False
      (mn_coord limit_sleeping))))) = length (mn_writes limit_sleeping) + 1"
    by code_simp
  moreover have "mn_coord (keepalive_turn limit_num g3_cfg limit_sleeping) = c"
    using w limit_sleeping_lease
    by (cases x) (simp_all add: keepalive_turn_def keepalive_wake_def keepalive_lost_def keepalive_sleep_fields
        limit_sleeping_def)
  ultimately show ?thesis using w by (simp add: mn_writes_def)
qed


section \<open>Requests stay in the entity's range\<close>

datatype 'w num_event = SetValue pyfloat | KeepaliveTurn | Elsewhere "'w coord \<Rightarrow> 'w coord"

fun num_step :: "'w num_env \<Rightarrow> number_cfg \<Rightarrow> 'w num_event \<Rightarrow> 'w mnum \<Rightarrow> 'w mnum" where
  "num_step te cfg (SetValue v) s = snd (set_native_value te cfg v s)"
| "num_step te cfg KeepaliveTurn s = keepalive_turn te cfg s"
| "num_step te cfg (Elsewhere f) s = s\<lparr>mn_coord := f (mn_coord s)\<rparr>"

inductive num_reach :: "'w num_env \<Rightarrow> number_cfg \<Rightarrow> 'w mnum \<Rightarrow> bool" for te cfg where
  start: "num_reach te cfg (mnum_new c)"
| step: "num_reach te cfg s \<Longrightarrow> num_reach te cfg (num_step te cfg e s)"

definition in_range :: "number_cfg \<Rightarrow> pyfloat \<Rightarrow> bool" where
  "in_range cfg v \<longleftrightarrow> is_finite v \<and> fle (nc_min cfg) v \<and> fle v (nc_max cfg) \<and> \<not> nc_read_only cfg"

text \<open>What the other tasks and the polls send is not this entity's.\<close>

definition others_silent :: "'w num_env \<Rightarrow> bool" where
  "others_silent te \<longleftrightarrow> (\<forall>c. writes (co_client (ne_refresh te c)) = writes (co_client c)
     \<and> writes (co_client (ne_request_refresh te c)) = writes (co_client c)
     \<and> writes (co_client (ne_others te c)) = writes (co_client c))"

lemma read_number_frame:
  "mn_keepalive (snd (read_number te cfg s)) = mn_keepalive s
   \<and> (others_silent te \<longrightarrow> mn_writes (snd (read_number te cfg s)) = mn_writes s)"
  using quiet.rel_read_register [of "co_client (ne_others te (mn_coord s))" "ne_env te" "nc_register cfg"]
  by (simp add: read_number_def on_client_def mn_writes_def no_writes_def others_silent_def Let_def split_beta)

lemma mn_frames:
  "mn_keepalive (mn_sleep te t s) = mn_keepalive s" "mn_writes (mn_sleep te t s) = mn_writes s"
  "mn_keepalive (snd (allowance_logged v x s)) = mn_keepalive s"
  "mn_writes (snd (allowance_logged v x s)) = mn_writes s"
  by (simp_all add: mn_sleep_def mn_writes_def allowance_logged_def)

lemma readback_loop_frame:
  "mn_keepalive (snd (readback_loop te cfg v previous g n s)) = mn_keepalive s
   \<and> (others_silent te \<longrightarrow> mn_writes (snd (readback_loop te cfg v previous g n s)) = mn_writes s)"
proof (induction n arbitrary: s)
  case (Suc n)
  define t where "t = (if Suc n = READBACK_ATTEMPTS then s else mn_sleep te READBACK_RETRY_SECONDS s)"
  have t: "mn_keepalive t = mn_keepalive s" "mn_writes t = mn_writes s" by (simp_all add: t_def mn_frames)
  obtain x s1 where x: "read_number te cfg t = (x, s1)" by fastforce
  then have "mn_keepalive s1 = mn_keepalive s" "others_silent te \<Longrightarrow> mn_writes s1 = mn_writes s"
    using read_number_frame [of te cfg t] t by auto
  then show ?case using x Suc.IH [of s1]
    by (cases x) (simp_all add: t_def [symmetric] Let_def mn_frames)
qed simp

lemma record_last_command_frame [simp]:
  "mn_keepalive (record_last_command rv x y s) = mn_keepalive s" "mn_coord (record_last_command rv x y s) = mn_coord s"
  by (simp_all add: record_last_command_def)

text \<open>After the write the entity sends nothing more, and keeps at most the new value alive.\<close>

definition after_write :: "'w num_env \<Rightarrow> pyfloat \<Rightarrow> 'w mnum \<Rightarrow> 'w mnum \<Rightarrow> bool" where
  "after_write te v s t \<longleftrightarrow> mn_keepalive t \<in> {Some v, mn_keepalive s} \<and> (others_silent te \<longrightarrow> mn_writes t = mn_writes s)"

lemma finish_write_frame: "after_write te v s (snd (finish_write te cfg v previous g rv rb s))"
  by (simp add: finish_write_def after_write_def start_keepalive_def mn_writes_def others_silent_def Let_def
      split: sum.split prod.split)

lemma confirm_write_frame: "after_write te v s (snd (confirm_write te cfg v previous s))"
proof -
  let ?g = "co_generation (mn_coord s)"
  obtain rb s1 where r: "(if mn_name cfg = CURTAILMENT_REGISTER_NAME then (NotRead, s)
      else readback_loop te cfg v previous ?g READBACK_ATTEMPTS s) = (rb, s1)" by fastforce
  have 1: "mn_keepalive s1 = mn_keepalive s" "others_silent te \<Longrightarrow> mn_writes s1 = mn_writes s"
    using readback_loop_frame [of te cfg v previous ?g READBACK_ATTEMPTS s] r by (auto split: if_splits)
  have f: "after_write te v s (snd (finish_write te cfg v previous ?g rv rb s1))" for rv
    using finish_write_frame [of te v s1 cfg previous ?g rv rb] 1 by (auto simp: after_write_def)
  show ?thesis using f 1
    unfolding confirm_write_def Let_def r
    by (auto simp: after_write_def mn_writes_def others_silent_def split: option.split)
qed

text \<open>A request of the entity: its register, and a value in its range.\<close>

definition range_cmd :: "number_cfg \<Rightarrow> nat \<times> 16 word list \<times> write_result \<Rightarrow> bool" where
  "range_cmd cfg q \<longleftrightarrow> fst q = rg_address (nc_register cfg)
     \<and> (\<exists>v e. in_range cfg v \<and> encode_register e (VFloat v) (nc_register cfg) = Inr (words_bytes (fst (snd q))))"

definition range_step :: "number_cfg \<Rightarrow> 'w mnum \<Rightarrow> 'w mnum \<Rightarrow> bool" where
  "range_step cfg s t \<longleftrightarrow> (\<exists>ws. mn_writes t = ws @ mn_writes s \<and> (\<forall>q\<in>set ws. range_cmd cfg q))"

definition ka_ok :: "number_cfg \<Rightarrow> 'w mnum \<Rightarrow> bool" where
  "ka_ok cfg s \<longleftrightarrow> (\<forall>v. mn_keepalive s = Some v \<longrightarrow> in_range cfg v)"

lemma range_step_refl: "mn_writes t = mn_writes s \<Longrightarrow> range_step cfg s t"
  by (auto simp: range_step_def)

lemma prepare_write_fields:
  "mn_coord (prepare_write cfg v s) = mn_coord s" "mn_keepalive (prepare_write cfg v s) \<in> {None, mn_keepalive s}"
  by (simp_all add: prepare_write_def cancel_keepalive_def Let_def)

lemma guarded_cases:
  assumes "P (if a then (Inl e1, s) else if b then (Inl e2, s) else if \<not> (l \<and> h) then (Inl e3, s) else m)"
  obtains e where "P (Inl e, s)" | "\<not> a" "\<not> b" "l" "h" "P m"
  using assms by (auto split: if_splits)

text \<open>A write from the user interface sends its own value, if that is in range, and nothing else.\<close>

lemma set_native_value_range:
  assumes "nc_register cfg \<in> set ALL_REGISTERS" "ka_ok cfg s"
  shows "ka_ok cfg (snd (set_native_value te cfg v s))
    \<and> (others_silent te \<longrightarrow> range_step cfg s (snd (set_native_value te cfg v s)))"
proof -
  define P where "P = (\<lambda>q :: (number_error + unit) \<times> 'a mnum. ka_ok cfg (snd q) \<and> (others_silent te \<longrightarrow> range_step cfg s (snd q)))"
  let ?s = "prepare_write cfg v s" and ?r = "nc_register cfg"
  obtain x c where w: "async_write_register (ne_env te) (ne_ha te) ?r (VFloat v) ''modbus_coord'' None True
      (mn_coord ?s) = (x, c)" by fastforce
  let ?t = "?s\<lparr>mn_coord := c\<rparr>"
  have k: "mn_keepalive ?t \<in> {None, mn_keepalive s}" using prepare_write_fields(2) [of cfg v s] by simp
  obtain ws where ws: "writes (co_client c) = ws @ mn_writes s"
    "\<forall>(a, w, x)\<in>set ws. a = rg_address ?r \<and> encode_register (cl_endianness (co_client (mn_coord s))) (VFloat v) ?r = Inr (words_bytes w)"
    using coordinator_sends [OF assms(1), of "VFloat v" "mn_coord ?s" "ne_env te" "ne_ha te" "''modbus_coord''" None True] w
    by (auto simp: sends_def mn_writes_def prepare_write_fields(1))
  have m: "P (case (x, c) of (Inl e, c) \<Rightarrow> (Inl (NumberWrite e), ?s\<lparr>mn_coord := c\<rparr>)
      | (Inr _, c) \<Rightarrow> confirm_write te cfg v (effective_previous cfg ?s) (?s\<lparr>mn_coord := c\<rparr>))" if r: "in_range cfg v"
  proof -
    have q: "\<forall>q\<in>set ws. range_cmd cfg q" using ws(2) r by (fastforce simp: range_cmd_def)
    have k': "ka_ok cfg t" if "mn_keepalive t \<in> {Some v, mn_keepalive ?t}" for t :: "'a mnum"
      using that k assms(2) r by (auto simp: ka_ok_def)
    have st: "range_step cfg s t" if "mn_writes t = writes (co_client c)" for t :: "'a mnum"
      using that ws(1) q by (auto simp: range_step_def)
    note f = confirm_write_frame [of te v ?t cfg "effective_previous cfg ?s", unfolded after_write_def]
    show ?thesis
    proof (cases x)
      case (Inl e)
      then show ?thesis using k' [of ?t] st [of ?t] by (simp add: P_def mn_writes_def)
    next
      case (Inr u)
      then show ?thesis using f k' st by (simp add: P_def mn_writes_def)
    qed
  qed
  have i: "P (Inl e, s)" for e using assms(2) by (simp add: P_def range_step_refl)
  have "P (set_native_value te cfg v s)"
    unfolding set_native_value_def Let_def w
    using i m by (auto simp: in_range_def intro: finite_iff [THEN iffD2])
  then show ?thesis by (simp add: P_def)
qed

lemma keepalive_turn_range:
  assumes "nc_register cfg \<in> set ALL_REGISTERS" "ka_ok cfg s"
  shows "ka_ok cfg (keepalive_turn te cfg s) \<and> range_step cfg s (keepalive_turn te cfg s)"
proof
  have "mn_keepalive (keepalive_turn te cfg s) \<in> {None, mn_keepalive s}"
    by (auto simp: keepalive_turn_def keepalive_wake_def keepalive_lost_def keepalive_sleep_fields
        split: ka_task.split option.split prod.split sum.split)
  then show "ka_ok cfg (keepalive_turn te cfg s)" using assms(2) by (auto simp: ka_ok_def)
  show "range_step cfg s (keepalive_turn te cfg s)"
    using keepalive_turn_sends [OF assms(1), of te s]
  proof
    assume "mn_coord (keepalive_turn te cfg s) = mn_coord s"
    then show ?thesis by (simp add: range_step_refl mn_writes_def)
  next
    assume "\<exists>v. mn_keepalive s = Some v \<and> lease_held te cfg v s
        \<and> keepalive_sends cfg v (mn_coord s) (mn_coord (keepalive_turn te cfg s))"
    then obtain v tr where v: "in_range cfg v"
      "cl_trace (co_client (mn_coord (keepalive_turn te cfg s))) = tr @ cl_trace (co_client (mn_coord s))"
      "\<forall>(a, w, x)\<in>set (io_writes tr). a = rg_address (nc_register cfg)
         \<and> encode_register (cl_endianness (co_client (mn_coord s))) (VFloat v) (nc_register cfg) = Inr (words_bytes w)"
      using assms(2) by (auto simp: keepalive_sends_def ka_ok_def)
    then have "\<forall>q\<in>set (io_writes tr). range_cmd cfg q" by (fastforce simp: range_cmd_def)
    then show ?thesis using v(2) by (auto simp: range_step_def mn_writes_def writes_def io_writes_append)
  qed
qed

lemma num_reach_ka_ok: "num_reach te cfg s \<Longrightarrow> nc_register cfg \<in> set ALL_REGISTERS \<Longrightarrow> ka_ok cfg s"
proof (induction rule: num_reach.induct)
  case (start c)
  then show ?case by (simp add: ka_ok_def mnum_new_def)
next
  case (step s e)
  then have k: "ka_ok cfg s" by simp
  show ?case
    using set_native_value_range [OF step.prems k] keepalive_turn_range [OF step.prems k] k
    by (cases e) (simp_all add: ka_ok_def)
qed

subsection \<open>The entities of an inverter\<close>

lemma float_of_int_minus:
  assumes "float_of_int p = Inr hi"
  shows "\<exists>q. hi = FFin q \<and> float_of_int (- p) = Inr (FFin (- q))"
  using assms round_to_minus [of 53 "- 1022" "of_int p"]
  by (auto simp: float_of_int_def mk_float_def is_inf_def Let_def split: if_splits)

lemma numbers_of_set: "numbers_of ro ds = Inr cfgs \<Longrightarrow> cfg \<in> set cfgs \<Longrightarrow> \<exists>d\<in>set ds. number_of_desc ro d = Inr cfg"
  by (induction ds arbitrary: cfgs) (auto simp: bind_res_Inr_iff)

lemma description_register: "d \<in> set (build_descriptions p) \<Longrightarrow> nd_register d \<in> set ALL_REGISTERS"
proof -
  have "set (map nd_register (build_descriptions p)) \<subseteq> set ALL_REGISTERS"
    by (simp add: build_descriptions_def ALL_REGISTERS_def)
  then show "d \<in> set (build_descriptions p) \<Longrightarrow> nd_register d \<in> set ALL_REGISTERS" by auto
qed

lemma description_power:
  "d \<in> set (build_descriptions p) \<Longrightarrow> rg_unit (nd_register d) = Some ''W'' \<Longrightarrow>
   nd_max d = p \<and> (nd_min d = 0 \<or> nd_min d = - p)"
  by (auto simp: build_descriptions_def REG_BAT_MIN_SOC_def REG_BAT_MAX_SOC_def REG_ACTIVE_POWER_SETPOINT_def)

text \<open>A value in the range of a power limit is within the inverter's power.\<close>

lemma in_range_power:
  assumes "d \<in> set (build_descriptions p)" "number_of_desc ro d = Inr cfg"
    "rg_unit (nc_register cfg) = Some ''W''" "in_range cfg v"
  shows "\<exists>q. float_of_int p = Inr (FFin q) \<and> \<bar>frat v\<bar> \<le> q"
proof -
  obtain lo hi where c: "float_of_int (nd_min d) = Inr lo" "float_of_int (nd_max d) = Inr hi"
    "nc_min cfg = lo" "nc_max cfg = hi" "nc_register cfg = nd_register d"
    using assms(2) by (auto simp: number_of_desc_def bind_res_Inr_iff)
  then have n: "nd_max d = p" "nd_min d = 0 \<or> nd_min d = - p" using description_power [OF assms(1)] assms(3) by simp_all
  obtain q where q: "hi = FFin q" "float_of_int (- p) = Inr (FFin (- q))" using float_of_int_minus c(2) n(1) by blast
  have z: "float_of_int 0 = Inr (FFin 0)" using float_of_int_small [of 0] by simp
  have "frat v \<le> q" "lo = FFin 0 \<or> lo = FFin (- q)" "fle lo v" "is_finite v"
    using assms(4) c n q z by (auto simp: in_range_def fle_frat)
  then show ?thesis using c(2) n(1) q(1) by (auto simp: fle_frat)
qed

text \<open>C10: An entity never sends a value outside its range. In every reachable state of a number
  entity that was created for the inverter, whatever other tasks did to the coordinator, a write
  from the user interface or a turn of the keepalive sends only to the entity's register, and only
  finite values within its range; for a power limit that is at most the inverter's maximum power.\<close>

theorem number_requests_in_range:
  "create_number_entities te c = (Inr cfgs, c1) \<Longrightarrow> number_max_power (co_device_info c) = Inr p \<Longrightarrow>
   cfg \<in> set cfgs \<Longrightarrow> others_silent te \<Longrightarrow> num_reach te cfg s \<Longrightarrow> (\<forall>f. e \<noteq> Elsewhere f) \<Longrightarrow>
   \<exists>ws. mn_writes (num_step te cfg e s) = ws @ mn_writes s
     \<and> (\<forall>(a, w, x)\<in>set ws. a = rg_address (nc_register cfg)
        \<and> (\<exists>v en. encode_register en (VFloat v) (nc_register cfg) = Inr (words_bytes w)
             \<and> is_finite v \<and> fle (nc_min cfg) v \<and> fle v (nc_max cfg)
             \<and> (rg_unit (nc_register cfg) = Some ''W'' \<longrightarrow> (\<exists>q. float_of_int p = Inr (FFin q) \<and> \<bar>frat v\<bar> \<le> q))))"
proof -
  assume cr: "create_number_entities te c = (Inr cfgs, c1)" "number_max_power (co_device_info c) = Inr p"
    and m: "cfg \<in> set cfgs" and q: "others_silent te" and r: "num_reach te cfg s" and e: "\<forall>f. e \<noteq> Elsewhere f"
  obtain ro where "numbers_of ro (build_descriptions p) = Inr cfgs"
    using cr by (auto simp: create_number_entities_def split: prod.splits sum.splits)
  then obtain d where d: "d \<in> set (build_descriptions p)" "number_of_desc ro d = Inr cfg"
    using numbers_of_set m by blast
  then have reg: "nc_register cfg \<in> set ALL_REGISTERS"
    using description_register by (auto simp: number_of_desc_def bind_res_Inr_iff)
  have "range_step cfg s (num_step te cfg e s)"
    using set_native_value_range [OF reg num_reach_ka_ok [OF r reg]] keepalive_turn_range [OF reg num_reach_ka_ok [OF r reg]] q e
    by (cases e) auto
  then obtain ws where ws: "mn_writes (num_step te cfg e s) = ws @ mn_writes s" "\<forall>q\<in>set ws. range_cmd cfg q"
    by (auto simp: range_step_def)
  show ?thesis
  proof (intro exI conjI ballI)
    show "mn_writes (num_step te cfg e s) = ws @ mn_writes s" by (rule ws(1))
    fix y assume "y \<in> set ws"
    then have "range_cmd cfg y" using ws(2) by blast
    then show "case y of (a, w, x) \<Rightarrow> a = rg_address (nc_register cfg)
        \<and> (\<exists>v en. encode_register en (VFloat v) (nc_register cfg) = Inr (words_bytes w)
             \<and> is_finite v \<and> fle (nc_min cfg) v \<and> fle v (nc_max cfg)
             \<and> (rg_unit (nc_register cfg) = Some ''W'' \<longrightarrow> (\<exists>q. float_of_int p = Inr (FFin q) \<and> \<bar>frat v\<bar> \<le> q)))"
      using in_range_power [OF d] by (cases y) (auto simp: range_cmd_def in_range_def)
  qed
qed

definition idle_num :: "(nat \<Rightarrow> 16 word) num_env" where
  "idle_num = \<lparr>ne_env = mem_env, ne_ha = test_ha, ne_refresh = id, ne_request_refresh = id, ne_others = id,
     ne_superseded = (\<lambda>_ _. False)\<rparr>"

theorem number_requests_in_range_witness:
  "\<exists>cfgs. create_number_entities idle_num (test_coord (\<lambda>_. 0)) = (Inr cfgs, test_coord (\<lambda>_. 0)) \<and>
     (\<forall>cfg\<in>set cfgs. \<exists>ws.
        mn_writes (num_step idle_num cfg (SetValue (FFin 1000)) (mnum_new (test_coord (\<lambda>_. 0)))) = ws
        \<and> (\<forall>(a, w, x)\<in>set ws. a = rg_address (nc_register cfg)))"
proof -
  let ?c = "test_coord (\<lambda>_. 0)"
  have z: "float_of_int n = Inr (FFin (of_int n))" if "\<bar>n\<bar> < 2 ^ 53" for n using float_of_int_small that by simp
  have i: "co_device_info ?c = []" by (simp add: test_coord_def coord_new_def)
  have p: "number_max_power (co_device_info ?c) = Inr 20000"
    by (simp add: i number_max_power_def reading_def FALLBACK_MAX_POWER_def)
  have "\<exists>cfgs. numbers_of False (build_descriptions 20000) = Inr cfgs"
    by (simp add: build_descriptions_def number_of_desc_def z)
  then obtain cfgs where c: "create_number_entities idle_num ?c = (Inr cfgs, ?c)"
    using p by (auto simp: create_number_entities_def number_read_only_def i reading_def)
  have q: "others_silent idle_num" by (simp add: others_silent_def idle_num_def)
  have "writes (co_client ?c) = []"
    by (simp add: test_coord_def coord_new_def client_new_def writes_def)
  then have "\<exists>ws. mn_writes (num_step idle_num cfg (SetValue (FFin 1000)) (mnum_new ?c)) = ws
      \<and> (\<forall>(a, w, x)\<in>set ws. a = rg_address (nc_register cfg))" if "cfg \<in> set cfgs" for cfg
    using number_requests_in_range [OF c p that q num_reach.start, of "SetValue (FFin 1000)" ?c]
    by (force simp: mn_writes_def mnum_new_def)
  then show ?thesis using c by blast
qed

end
