(* ===== verification/DiagnosticsEngine.thy ===== *)
theory DiagnosticsEngine
  imports HealthMonitor FireSafety
begin

text \<open>
  The diagnostics engine (\<^verbatim>\<open>diagnostics_engine.py\<close>): a status and a finding for each of five areas,
  from the health monitor and the fire monitor. A finding is named by a constructor, with the
  alert, the strings or the phases its text mentions; the German texts are not modelled, but
  whether formatting them raises is.
\<close>

section \<open>Results\<close>

datatype diag_status = DiagOk | DiagUnknown | DiagHint | DiagWarning | DiagCritical

datatype raw_value =
  RawFloat pyfloat | RawInt int | RawText string | RawStrings "string list"
  | RawShares "(string \<times> pyfloat \<times> pyfloat) list" | RawRisk risk | RawNone

datatype diag_finding =
  DcCableFault alert | DcImbalance alert | DcCollapsed "string list" | DcShifted
  | GridFrequency | GridVoltageOut "(nat \<times> pyfloat) list" | GridVoltageEdge "(nat \<times> pyfloat) list"
  | BatteryCritical alert | BatteryHot | BatteryWorn | BatteryAging
  | InverterHot | InverterErrors int | InverterWarm | InverterComm
  | SafetyEmergency "alert option" | SafetyHigh "alert option" | SafetyIsolation pyfloat | SafetyIsolationLow
  | NoData | AllNormal

record diagnosis =
  dg_area :: string
  dg_status :: diag_status
  dg_finding :: diag_finding
  dg_raw :: "(string \<times> raw_value) list"

definition diag :: "string \<Rightarrow> diag_status \<Rightarrow> diag_finding \<Rightarrow> (string \<times> raw_value) list \<Rightarrow> pyexc + diagnosis" where
  "diag area st f raw = Inr \<lparr>dg_area = area, dg_status = st, dg_finding = f, dg_raw = raw\<rparr>"

text \<open>An entry of the raw values, if there is a value.\<close>

definition raw_opt :: "string \<Rightarrow> nat \<Rightarrow> pyfloat option \<Rightarrow> (string \<times> raw_value) list" where
  "raw_opt key n v = (case v of None \<Rightarrow> [] | Some x \<Rightarrow> [(key, RawFloat (round_nd n x))])"

definition health_current :: "health \<Rightarrow> string \<Rightarrow> pyfloat option" where
  "health_current h name = pt_current (tracker_of h name)"

definition above_limit :: "pyfloat \<Rightarrow> pyfloat option \<Rightarrow> bool" where
  "above_limit x v \<longleftrightarrow> (case v of None \<Rightarrow> False | Some y \<Rightarrow> flt x y)"

definition below_limit :: "pyfloat \<Rightarrow> pyfloat option \<Rightarrow> bool" where
  "below_limit x v \<longleftrightarrow> (case v of None \<Rightarrow> False | Some y \<Rightarrow> flt y x)"

definition severe :: "alert \<Rightarrow> bool" where
  "severe a \<longleftrightarrow> al_level a = High \<or> al_level a = Emergency"

section \<open>The strings\<close>

text \<open>The learned and the recent share of each string, in percent.\<close>

fun share_baseline :: "health \<Rightarrow> (string \<times> pyfloat list) list \<Rightarrow> pyexc + (string \<times> pyfloat \<times> pyfloat) list" where
  "share_baseline h [] = Inr []"
| "share_baseline h ((k, long_q) # ms) = (let short_q = window (hm_short h) k in
     if length long_q < hm_min_samples h \<or> short_q = [] then share_baseline h ms
     else bind_res (py_median long_q) (\<lambda>a. bind_res (py_median short_q) (\<lambda>b.
          bind_res (share_baseline h ms) (\<lambda>rest.
            Inr ((k, round_nd 1 (fmul a (FFin 100)), round_nd 1 (fmul b (FFin 100))) # rest)))))"

definition dc_raw_powers :: "health \<Rightarrow> (string \<times> raw_value) list" where
  "dc_raw_powers h = concat (map (\<lambda>i.
       raw_opt (''dc'' @ nat_dec i @ ''_power_w'') 0 (health_current h (''dc'' @ nat_dec i @ ''_power''))
     @ raw_opt (''dc'' @ nat_dec i @ ''_voltage_v'') 1 (health_current h (''dc'' @ nat_dec i @ ''_voltage'')))
     [1 ..< (if 1 \<le> hm_bidirectional h then 3 else 4)])"

definition dc_arc_alerts :: "pyfloat \<Rightarrow> fire \<Rightarrow> alert list" where
  "dc_arc_alerts now s = filter (\<lambda>a. al_category a = ''dc_arc_indicator'' \<or> al_category a = ''dc_imbalance'') (active_alerts now s)"

definition dc_status :: "alert list \<Rightarrow> string list \<Rightarrow> pyfloat option \<Rightarrow> bool \<Rightarrow> diag_status \<times> diag_finding" where
  "dc_status alerts collapsed baseline_dev nothing = (case alerts of
     a # _ \<Rightarrow> if severe a then (DiagCritical, DcCableFault a) else (DiagWarning, DcImbalance a)
   | [] \<Rightarrow>
       if collapsed \<noteq> [] then (DiagWarning, DcCollapsed collapsed)
       else if (case baseline_dev of None \<Rightarrow> False | Some x \<Rightarrow> flt (FFin 20) x) then (DiagHint, DcShifted)
       else if nothing then (DiagUnknown, NoData) else (DiagOk, AllNormal))"

definition diagnose_dc_solar :: "pyfloat \<Rightarrow> health \<Rightarrow> fire \<Rightarrow> pyexc + diagnosis" where
  "diagnose_dc_solar now h s =
     bind_res (dc_string_imbalance h) (\<lambda>imbalance.
     bind_res (dc_string_baseline_deviation h) (\<lambda>dev.
     bind_res (if dev = None then Inr [] else map_sum id (\<lambda>m. [(''share_baseline'', RawShares m)]) (share_baseline h (hm_long h)))
       (\<lambda>shares.
     bind_res (dc_string_collapsed h) (\<lambda>collapsed.
       let raw = dc_raw_powers h @ raw_opt ''imbalance_pct'' 1 imbalance
             @ raw_opt ''baseline_deviation_pp'' 1 dev @ shares
             @ (if collapsed = [] then [] else [(''collapsed_strings'', RawStrings collapsed)]);
           (st, f) = dc_status (dc_arc_alerts now s) collapsed dev (raw = [])
       in diag ''dc_solar'' st f raw))))"

section \<open>The grid\<close>

definition phase_name :: "nat \<Rightarrow> string" where
  "phase_name i = ''phase'' @ nat_dec i @ ''_voltage''"

text \<open>The normal and the warning band of the phase voltage.\<close>

definition voltage_bands :: "pyfloat \<Rightarrow> (rat \<times> rat) \<times> rat \<times> rat" where
  "voltage_bands nominal = (if fle nominal (FFin 130) then ((108, 132), 102, 138) else ((207, 253), 195, 260))"

definition outside :: "rat \<times> rat \<Rightarrow> pyfloat \<Rightarrow> bool" where
  "outside band v \<longleftrightarrow> flt (FFin (snd band)) v \<or> flt v (FFin (fst band))"

definition phase_readings :: "health \<Rightarrow> (nat \<times> pyfloat) list" where
  "phase_readings h = List.map_filter (\<lambda>i. map_option (Pair i) (health_current h (phase_name i))) [1, 2, 3]"

definition grid_status ::
    "pyfloat option \<Rightarrow> (nat \<times> pyfloat) list \<Rightarrow> pyfloat \<Rightarrow> bool \<Rightarrow> diag_status \<times> diag_finding" where
  "grid_status freq phases nominal nothing =
     (if (case freq of None \<Rightarrow> False | Some f \<Rightarrow> flt (FFin 1) (fabs (fsub f (detect_nominal_frequency_hz freq))))
      then (DiagCritical, GridFrequency)
      else let (normal, warning) = voltage_bands nominal; issues = filter (\<lambda>(i, v). outside normal v) phases
        in if issues \<noteq> []
           then if list_ex (\<lambda>(i, v). outside warning v) issues then (DiagWarning, GridVoltageOut issues)
                else (DiagHint, GridVoltageEdge issues)
           else if nothing then (DiagUnknown, NoData) else (DiagOk, AllNormal))"

definition diagnose_ac_grid :: "health \<Rightarrow> pyexc + diagnosis" where
  "diagnose_ac_grid h =
     (let phases = phase_readings h; freq = health_current h ''grid_frequency''
      in bind_res (phase_voltage_imbalance h) (\<lambda>imb.
         bind_res (detect_nominal_phase_voltage_v (map snd phases)) (\<lambda>nominal.
           let raw = map (\<lambda>(i, v). (phase_name i @ ''_v'', RawFloat (round_nd 1 v))) phases
                 @ raw_opt ''frequency_hz'' 2 freq @ raw_opt ''cos_phi'' 3 (health_current h ''cos_phi'')
                 @ raw_opt ''phase_imbalance_pct'' 1 imb;
               (st, f) = grid_status freq phases nominal (raw = [])
           in diag ''ac_grid'' st f raw)))"

section \<open>The battery\<close>

definition battery_alerts_of :: "pyfloat \<Rightarrow> fire \<Rightarrow> alert list" where
  "battery_alerts_of now s =
     filter (\<lambda>a. al_category a = ''battery_thermal'' \<or> al_category a = ''battery_voltage_anomaly'') (active_alerts now s)"

text \<open>The text of the critical finding formats the temperature, which may be missing.\<close>

definition battery_status ::
    "alert list \<Rightarrow> pyfloat option \<Rightarrow> pyfloat option \<Rightarrow> bool \<Rightarrow> pyexc + diag_status \<times> diag_finding" where
  "battery_status alerts temp soh nothing =
     (if list_ex severe alerts
      then if temp = None then Inl TypeError else Inr (DiagCritical, BatteryCritical (hd alerts))
      else if above_limit (FFin 42) temp then Inr (DiagWarning, BatteryHot)
      else if below_limit (FFin 80) soh then Inr (DiagWarning, BatteryWorn)
      else if below_limit (FFin 90) soh then Inr (DiagHint, BatteryAging)
      else if nothing then Inr (DiagUnknown, NoData) else Inr (DiagOk, AllNormal))"

definition diagnose_battery :: "pyfloat \<Rightarrow> health \<Rightarrow> fire \<Rightarrow> pyexc + diagnosis" where
  "diagnose_battery now h s =
     (let temp = health_current h ''battery_temperature''; soh = health_current h ''battery_soh'';
          cycles = health_current h ''battery_cycles''; voltage = health_current h ''battery_voltage''
      in bind_res (pt_trend (tracker_of h ''battery_temperature'')) (\<lambda>temp_trend.
         bind_res (pt_trend (tracker_of h ''battery_soh'')) (\<lambda>soh_trend.
         bind_res (battery_status (battery_alerts_of now s) temp soh
             (temp = None \<and> soh = None \<and> cycles = None \<and> voltage = None)) (\<lambda>(st, f).
           diag ''battery'' st f (raw_opt ''temperature_c'' 1 temp @ raw_opt ''soh_pct'' 1 soh
             @ raw_opt ''cycles'' 0 cycles @ raw_opt ''voltage_v'' 1 voltage
             @ [(''temp_trend'', RawText temp_trend), (''soh_trend'', RawText soh_trend)])))))"

section \<open>The inverter\<close>

definition raw_int :: "string \<Rightarrow> pyfloat option \<Rightarrow> pyexc + (string \<times> raw_value) list" where
  "raw_int key v = (case v of None \<Rightarrow> Inr [] | Some x \<Rightarrow> bind_res (int_of_float x) (\<lambda>i. Inr [(key, RawInt i)]))"

definition inverter_status ::
    "pyfloat option \<Rightarrow> pyfloat option \<Rightarrow> pyfloat \<Rightarrow> bool \<Rightarrow> pyexc + diag_status \<times> diag_finding" where
  "inverter_status temp errors reliability nothing =
     (if above_limit (FFin 78) temp then Inr (DiagCritical, InverterHot)
      else case (if above_limit (FFin 0) errors then errors else None) of
        Some e \<Rightarrow> bind_res (int_of_float e) (\<lambda>n. Inr (DiagWarning, InverterErrors n))
      | None \<Rightarrow>
          if above_limit (FFin 65) temp then Inr (DiagHint, InverterWarm)
          else if flt reliability (FFin 90) then Inr (DiagHint, InverterComm)
          else if nothing then Inr (DiagUnknown, NoData) else Inr (DiagOk, AllNormal))"

definition diagnose_inverter :: "pyfloat \<Rightarrow> health \<Rightarrow> pyexc + diagnosis" where
  "diagnose_inverter now h =
     (let temp = health_current h ''controller_temperature''; errors = health_current h ''active_errors'';
          warnings = health_current h ''active_warnings'';
          peak = (case pt_max (tracker_of h ''controller_temperature'') of None \<Rightarrow> RawNone | Some x \<Rightarrow> RawFloat x)
      in bind_res (raw_int ''active_errors'' errors) (\<lambda>e.
         bind_res (raw_int ''active_warnings'' warnings) (\<lambda>w.
         bind_res (communication_reliability h) (\<lambda>reliability.
         bind_res (inverter_status temp errors reliability (temp = None \<and> errors = None \<and> warnings = None)) (\<lambda>(st, f).
           diag ''inverter'' st f ((case temp of None \<Rightarrow> []
               | Some x \<Rightarrow> [(''controller_temp_c'', RawFloat (round_nd 1 x)), (''controller_temp_peak'', peak)])
             @ e @ w @ [(''state_changes'', RawInt (int (length (hm_changes h)))),
                (''comm_reliability_pct'', RawFloat (round_nd 1 reliability)),
                (''error_rate_per_hour'', RawFloat (round_nd 1 (error_rate_per_hour now h)))]))))))"

section \<open>Safety\<close>

text \<open>The most severe active alert, the oldest of them first.\<close>

definition worst_alert :: "alert list \<Rightarrow> alert option" where
  "worst_alert as = (case sort_key (\<lambda>a. 4 - risk_rank (al_level a)) as of [] \<Rightarrow> None | a # _ \<Rightarrow> Some a)"

definition safety_status ::
    "risk \<Rightarrow> alert list \<Rightarrow> pyfloat option \<Rightarrow> bool \<Rightarrow> diag_status \<times> diag_finding" where
  "safety_status level alerts isol nothing =
     (if level = Emergency then (DiagCritical, SafetyEmergency (worst_alert alerts))
      else if level = High
      then (DiagCritical,
        if list_ex (\<lambda>a. al_category a = ''isolation'' \<and> al_level a = High) alerts
        then SafetyIsolation (case isol of None \<Rightarrow> FFin 0 | Some x \<Rightarrow> x) else SafetyHigh (worst_alert alerts))
      else if below_limit (FFin 800000) isol then (DiagHint, SafetyIsolationLow)
      else if nothing then (DiagUnknown, NoData) else (DiagOk, AllNormal))"

definition diagnose_safety :: "pyfloat \<Rightarrow> health \<Rightarrow> fire \<Rightarrow> pyexc + diagnosis" where
  "diagnose_safety now h s =
     (let isol = health_current h ''isolation_resistance''
      in bind_res (case isol of None \<Rightarrow> Inr []
           | Some x \<Rightarrow> bind_res (fdiv x (FFin 1000)) (\<lambda>k.
               bind_res (pt_trend (tracker_of h ''isolation_resistance'')) (\<lambda>t.
                 Inr [(''isolation_kohm'', RawFloat (round_nd 0 k)), (''isolation_trend'', RawText t)]))) (\<lambda>raw.
         let (st, f) = safety_status (current_risk_level now s) (active_alerts now s) isol
               (isol = None \<and> alert_count now s = 0 \<and> fs_alerts s = [])
         in diag ''safety'' st f (raw @ [(''fire_risk_level'', RawRisk (current_risk_level now s)),
              (''active_safety_alerts'', RawInt (int (alert_count now s)))])))"

definition diagnose_all :: "pyfloat \<Rightarrow> health \<Rightarrow> fire \<Rightarrow> pyexc + diagnosis list" where
  "diagnose_all now h s =
     bind_res (diagnose_dc_solar now h s) (\<lambda>a. bind_res (diagnose_ac_grid h) (\<lambda>b.
     bind_res (diagnose_battery now h s) (\<lambda>c. bind_res (diagnose_inverter now h) (\<lambda>d.
     bind_res (diagnose_safety now h s) (\<lambda>e. Inr [a, b, c, d, e])))))"

end
