(* ===== verification/DiagProofs.thy ===== *)
theory DiagProofs
  imports DiagnosticsEngine FireProofs
begin

text \<open>
  The diagnoses against the fire monitor: the safety area follows the risk level and shows the
  worst alert; which levels it does not show; and a finding of the string area that never occurs.
\<close>

section \<open>The safety area\<close>

lemma worst_alert_Some:
  assumes "as \<noteq> []"
  shows "\<exists>a. worst_alert as = Some a \<and> a \<in> set as \<and> (\<forall>b\<in>set as. al_level b \<le> al_level a)"
proof -
  let ?k = "\<lambda>a. 4 - risk_rank (al_level a)"
  have r: "risk_rank x \<le> 4" for x by (cases x) (simp_all add: risk_rank_def)
  obtain a rest where s: "sort_key ?k as = a # rest"
    using assms by (metis length_0_conv length_sort neq_Nil_conv)
  then have "set as = insert a (set rest)" using set_sort [of ?k as] by simp
  moreover have "\<forall>b\<in>set rest. ?k a \<le> ?k b" using sorted_sort_key [of ?k as] s by auto
  ultimately have "\<forall>b\<in>set as. risk_rank (al_level b) \<le> risk_rank (al_level a)"
    using r by (metis diff_le_mono2 diff_diff_cancel insert_iff order_refl)
  then show ?thesis using s \<open>set as = insert a (set rest)\<close>
    by (auto simp: worst_alert_def less_eq_risk_def)
qed

text \<open>With a risk above safe, the worst alert is of that level.\<close>

lemma worst_alert_level:
  assumes "current_risk_level now s \<noteq> Safe"
  shows "\<exists>a. worst_alert (active_alerts now s) = Some a \<and> a \<in> set (active_alerts now s)
    \<and> al_level a = current_risk_level now s"
proof -
  let ?as = "active_alerts now s"
  have m: "current_risk_level now s = Max (insert Safe (set (map al_level ?as)))" by (rule current_risk_is_worst)
  then have "current_risk_level now s \<in> insert Safe (set (map al_level ?as))" by (metis Max_in finite_insert List.finite_set insert_not_empty)
  then obtain b where b: "b \<in> set ?as" "al_level b = current_risk_level now s" using assms by auto
  then obtain a where a: "worst_alert ?as = Some a" "a \<in> set ?as" "\<forall>b\<in>set ?as. al_level b \<le> al_level a"
    using worst_alert_Some [of ?as] by (metis empty_iff list.set(1))
  have "al_level a \<le> current_risk_level now s" using m a(2) by simp
  then show ?thesis using a b by (metis order_antisym)
qed

lemma diagnose_safety_status:
  assumes "diagnose_safety now h s = Inr d"
  shows "(dg_status d, dg_finding d) = safety_status (current_risk_level now s) (active_alerts now s)
      (health_current h ''isolation_resistance'')
      (health_current h ''isolation_resistance'' = None \<and> alert_count now s = 0 \<and> fs_alerts s = [])"
  using assms by (auto simp: diagnose_safety_def diag_def Let_def bind_res_Inr_iff split_beta)

definition one_alert :: "risk \<Rightarrow> string \<Rightarrow> fire" where
  "one_alert level cat = (fire_new 1)\<lparr>fs_alerts :=
     [\<lparr>al_time = FFin 10, al_level = level, al_category = cat, al_title = ''title''\<rparr>]\<rparr>"

lemma health_current_new: "health_current (health_new n m) k = None"
  by (auto simp: health_current_def tracker_of_def health_new_def pt_current_def pt_values_def
      dest!: map_of_SomeD split: option.split)

lemma one_alert_active: "active_alerts (FFin 20) (one_alert level cat) = fs_alerts (one_alert level cat)"
  using mk_float_of_int [of 10] by (simp add: active_alerts_def one_alert_def is_active_def fsub_def)

lemma one_alert_risk: "current_risk_level (FFin 20) (one_alert level cat) = level"
  by (cases level) (simp_all add: current_risk_is_worst one_alert_active, simp_all add: one_alert_def less_eq_risk_def max_def risk_rank_def)

lemma one_alert_diagnosis: "\<exists>d. diagnose_safety now (health_new 1 720) s = Inr d"
  by (simp add: diagnose_safety_def health_current_new diag_def Let_def split_beta)

text \<open>C20: The safety area is critical exactly when an active alert of the fire monitor is high or an
  emergency, and the alert it shows then is an active one of the highest level there is; if it
  shows the isolation instead, there is an active isolation alert of the level high.\<close>

theorem safety_diagnosis_follows_risk:
  "diagnose_safety now h s = Inr d \<Longrightarrow>
   (dg_status d = DiagCritical \<longleftrightarrow> (\<exists>a\<in>set (active_alerts now s). severe a))
   \<and> (dg_status d = DiagCritical \<longrightarrow>
        (\<exists>a\<in>set (active_alerts now s). (\<forall>b\<in>set (active_alerts now s). al_level b \<le> al_level a)
          \<and> (dg_finding d = SafetyEmergency (Some a) \<and> al_level a = Emergency
             \<or> dg_finding d = SafetyHigh (Some a) \<and> al_level a = High
             \<or> (\<exists>x. dg_finding d = SafetyIsolation x) \<and> al_category a = ''isolation'' \<and> al_level a = High)))"
proof -
  assume "diagnose_safety now h s = Inr d"
  note st = diagnose_safety_status [OF this]
  let ?as = "active_alerts now s" and ?r = "current_risk_level now s"
  have le: "al_level b \<le> ?r" if "b \<in> set ?as" for b
    using that by (simp add: current_risk_is_worst)
  have sev: "severe a \<longleftrightarrow> High \<le> al_level a" for a
    by (cases "al_level a") (simp_all add: severe_def less_eq_risk_def risk_rank_def)
  have crit: "dg_status d = DiagCritical \<longleftrightarrow> ?r = Emergency \<or> ?r = High"
    using st by (auto simp: safety_status_def split: if_splits)
  have hr: "?r = Emergency \<or> ?r = High \<longleftrightarrow> High \<le> ?r"
    by (cases ?r) (simp_all add: less_eq_risk_def risk_rank_def)
  show ?thesis
  proof (cases "High \<le> ?r")
    case False
    then show ?thesis using crit hr sev le by (metis order_trans)
  next
    case True
    then have "?r \<noteq> Safe" by (auto simp: less_eq_risk_def risk_rank_def)
    then obtain a where a: "worst_alert ?as = Some a" "a \<in> set ?as" "al_level a = ?r"
      using worst_alert_level by blast
    have w: "\<forall>b\<in>set ?as. al_level b \<le> al_level a" using le a(3) by simp
    have "severe a" using sev True a(3) by simp
    moreover have "\<exists>a\<in>set ?as. (\<forall>b\<in>set ?as. al_level b \<le> al_level a)
        \<and> (dg_finding d = SafetyEmergency (Some a) \<and> al_level a = Emergency
           \<or> dg_finding d = SafetyHigh (Some a) \<and> al_level a = High
           \<or> (\<exists>x. dg_finding d = SafetyIsolation x) \<and> al_category a = ''isolation'' \<and> al_level a = High)"
    proof (cases "?r = High \<and> list_ex (\<lambda>a. al_category a = ''isolation'' \<and> al_level a = High) ?as")
      case False
      then show ?thesis using st a w True hr
        by (intro bexI [of _ a]) (auto simp: safety_status_def split: if_splits)
    next
      case iso: True
      then obtain b where b: "b \<in> set ?as" "al_category b = ''isolation''" "al_level b = High"
        by (auto simp: list_ex_iff)
      moreover have "\<exists>x. dg_finding d = SafetyIsolation x" using st iso by (simp add: safety_status_def)
      ultimately show ?thesis using w a(3) iso by (intro bexI [of _ b]) auto
    qed
    ultimately show ?thesis using crit hr True a(2) by blast
  qed
qed

theorem safety_diagnosis_follows_risk_witness:
  "\<exists>d. diagnose_safety (FFin 20) (health_new 1 720) (one_alert High ''isolation'') = Inr d
     \<and> dg_status d = DiagCritical"
proof -
  obtain d where d: "diagnose_safety (FFin 20) (health_new 1 720) (one_alert High ''isolation'') = Inr d"
    using one_alert_diagnosis by blast
  have "\<exists>a\<in>set (active_alerts (FFin 20) (one_alert High ''isolation'')). severe a"
    by (simp add: one_alert_active) (simp add: one_alert_def severe_def)
  then show ?thesis using safety_diagnosis_follows_risk [OF d] d by blast
qed

text \<open>A risk below high is not shown. While the fire monitor has an elevated alert, such as a
  suspected arc in a string or a battery that heats up fast, and the isolation is fine, the safety
  area reports that everything is normal.\<close>

lemma elevated_risk_reported_normal:
  "diagnose_safety now h s = Inr d \<Longrightarrow> current_risk_level now s = Elevated \<Longrightarrow>
   \<not> below_limit (FFin 800000) (health_current h ''isolation_resistance'') \<Longrightarrow>
   dg_status d = DiagOk \<and> dg_finding d = AllNormal"
proof -
  assume d: "diagnose_safety now h s = Inr d" and r: "current_risk_level now s = Elevated"
    and i: "\<not> below_limit (FFin 800000) (health_current h ''isolation_resistance'')"
  have "fs_alerts s \<noteq> []" using r by (auto simp: current_risk_level_def active_alerts_def Let_def split: if_splits)
  then show ?thesis using diagnose_safety_status [OF d] r i by (simp add: safety_status_def)
qed

lemma elevated_risk_reported_normal_witness:
  "\<exists>d. diagnose_safety (FFin 20) (health_new 1 720) (one_alert Elevated ''dc_arc_indicator'') = Inr d
     \<and> dg_status d = DiagOk \<and> dg_finding d = AllNormal"
proof -
  obtain d where d: "diagnose_safety (FFin 20) (health_new 1 720) (one_alert Elevated ''dc_arc_indicator'') = Inr d"
    using one_alert_diagnosis by blast
  then show ?thesis using elevated_risk_reported_normal [OF d one_alert_risk]
    by (simp add: health_current_new below_limit_def)
qed

section \<open>The string area\<close>

definition mild :: "alert \<Rightarrow> bool" where
  "mild a \<longleftrightarrow> (al_category a = ''dc_arc_indicator'' \<or> al_category a = ''dc_imbalance'' \<longrightarrow> \<not> severe a)"

lemma mild_cats: "alerts_of now cats as \<Longrightarrow> set cats \<inter> {''dc_arc_indicator'', ''dc_imbalance''} = {} \<Longrightarrow> \<forall>a\<in>set as. mild a"
  by (auto simp: alerts_of_def mild_def)

definition check_mild :: "pyexc + alert list \<Rightarrow> bool" where
  "check_mild r \<longleftrightarrow> (\<forall>as. r = Inr as \<longrightarrow> (\<forall>a\<in>set as. mild a))"

lemma check_mild_bind: "(\<And>a. check_mild (f a)) \<Longrightarrow> check_mild (bind_res r f)"
  by (cases r) (simp_all add: check_mild_def)

lemma isolation_mild: "check_mild (check_isolation d now s)"
  unfolding check_isolation_def
  by (intro check_mild_bind) (auto simp: check_mild_def mild_def bind_res_Inr_iff Let_def split: if_splits option.splits)

lemma string_alert_mild: "check_mild (string_alert now avg s ip)"
  unfolding string_alert_def Let_def prod.case_eq_if
  by (intro check_mild_bind) (auto simp: check_mild_def mild_def severe_def)

lemma strings_mild: "check_mild (concat_res (map (string_alert now avg s) ps))"
proof (induction ps)
  case (Cons p ps)
  then show ?case using string_alert_mild [of now avg s p] by (auto simp: check_mild_def bind_res_Inr_iff)
qed (simp add: check_mild_def)

lemma dc_mild: "check_mild (fst (check_dc_string_anomaly d now s))"
  using strings_mild
  by (auto simp: check_dc_string_anomaly_def sbind_def check_mild_def split: sum.split prod.split)

lemma collect_mild:
  assumes "fire_collect d now s = (Inr new, s1)"
  shows "\<forall>a\<in>set new. mild a"
proof -
  obtain pv s2 a s3 b s4 where e: "fire_prepare d now s = (Inr pv, s2)" "always_checks d now s2 = (Inr a, s3)"
    "pv_checks d now pv s3 = (Inr b, s4)" "new = a @ b"
    using assms by (auto simp: fire_collect_def sbind_def lift_res_def split: prod.splits sum.splits)
  obtain hot grid where h: "check_grid_emergency d now = Inr grid" "a = hot @ fst (confirm_grid_alerts grid s2)"
    "alerts_of now thermal_cats hot"
    using always_alerts(2) [OF e(2) refl] by blast
  have "alerts_of now grid_cats (fst (confirm_grid_alerts grid s2))"
    using grid_alerts [of now d] h(1) alerts_of_subset confirm_fields(2) by (metis check_okD)
  then have a: "\<forall>x\<in>set a. mild x" using h(2) mild_cats [OF h(3)] mild_cats
    by (auto simp: thermal_cats_def grid_cats_def)
  have b: "\<forall>x\<in>set b. mild x"
    using e(3) isolation_mild [of d now s3] dc_mild
    by (auto simp: pv_checks_def sbind_def lift_res_def check_mild_def split: sum.splits if_splits prod.splits)
      (metis fst_conv)+
  then show ?thesis using a e(4) by auto
qed

lemma dedup_set: "dedup_alerts ks as s = (added, s') \<Longrightarrow> set (fs_alerts s') \<subseteq> set (fs_alerts s) \<union> set as"
proof (induction ks as s arbitrary: added s' rule: dedup_alerts.induct)
  case (2 ks a as s)
  then show ?case using set_deque_append [of 500 a "fs_alerts s"]
    by (fastforce simp: Let_def split: if_splits prod.splits)
qed simp

definition mild_fire :: "fire \<Rightarrow> bool" where
  "mild_fire s \<longleftrightarrow> (\<forall>a\<in>set (fs_alerts s). mild a)"

lemma analyze_mild: "mild_fire s \<Longrightarrow> mild_fire (snd (analyze d now s))"
proof (cases rule: analyze_cases [of now s d])
  case (raised e s1)
  assume "mild_fire s"
  then show ?thesis using raised collect_alerts(1) [OF raised(3)] by (auto simp: mild_fire_def)
next
  case (finished new s1)
  assume m: "mild_fire s"
  obtain added s' where f: "dedup_alerts (map alert_key (active_alerts now s1)) new s1 = (added, s')" by fastforce
  show ?thesis using m f finished collect_alerts(1) [OF finished(2)] collect_mild [OF finished(2)] dedup_set [OF f]
    by (auto simp: mild_fire_def)
qed (simp_all add: mild_fire_def)

lemma fire_run_mild: "mild_fire s \<Longrightarrow> mild_fire (fire_run obs s)"
  by (induction obs arbitrary: s) (auto simp: fire_run_def analyze_mild)

text \<open>C39: The critical finding of the string area never occurs. Whatever readings the fire monitor
  has analysed at whatever times, no alert about the strings is high or an emergency, so the area
  never reports the possible cable fault that its critical branch is for: a suspected arc is
  shown as a string that is weaker than the others.\<close>

theorem string_area_never_critical:
  "diagnose_dc_solar now h (fire_run obs (fire_new n)) = Inr d \<Longrightarrow> dg_status d \<noteq> DiagCritical"
proof -
  assume d: "diagnose_dc_solar now h (fire_run obs (fire_new n)) = Inr d"
  let ?as = "dc_arc_alerts now (fire_run obs (fire_new n))"
  have "mild_fire (fire_run obs (fire_new n))" by (rule fire_run_mild) (simp add: mild_fire_def fire_new_def)
  then have m: "\<forall>a\<in>set ?as. \<not> severe a"
    by (auto simp: mild_fire_def dc_arc_alerts_def active_alerts_def mild_def)
  obtain c dev b where "(dg_status d, dg_finding d) = dc_status ?as c dev b"
    using d by (auto simp: diagnose_dc_solar_def diag_def Let_def bind_res_Inr_iff split_beta)
  then have "dg_status d = fst (dc_status ?as c dev b)" by (metis fst_conv)
  then show ?thesis using m by (auto simp: dc_status_def split: list.split)
qed

theorem string_area_never_critical_witness:
  "\<exists>d. diagnose_dc_solar (FFin 20) (health_new 1 720) (fire_run [(hot_readings, FFin 10)] (fire_new 1)) = Inr d
     \<and> dg_status d \<noteq> DiagCritical"
proof -
  let ?h = "health_new 1 720" and ?s = "fire_run [(hot_readings, FFin 10)] (fire_new 1)"
  have "dc_string_imbalance ?h = Inr None" "dc_string_baseline_deviation ?h = Inr None" "dc_string_collapsed ?h = Inr []"
    using health_current_new [of 1 720]
    by (simp_all add: dc_string_imbalance_def current_values_def dc_string_baseline_deviation_def
        dc_string_collapsed_def health_current_def List.map_filter_def Let_def) (simp_all add: health_new_def)
  then obtain d where d: "diagnose_dc_solar (FFin 20) ?h ?s = Inr d"
    by (simp add: diagnose_dc_solar_def diag_def Let_def split_beta)
  then show ?thesis using string_area_never_critical by blast
qed

end
