(* ===== verification/Ksem.thy ===== *)
theory Ksem
  imports Codec
begin

text \<open>
  The optional energy meter (\<^verbatim>\<open>ksem_coordinator.py\<close>): one connection, a poll of ten register pairs.

  The connection of the library is the record \<open>ksem_env\<close> on a world; a connection attempt returns
  a client that is or is not connected, or raises one of the caught errors. \<open>ke_others\<close> is what
  other tasks do while a task waits for the lock, for instance a shutdown between the connection
  check and the read.
\<close>

section \<open>Data\<close>


datatype ksem_read = KsRegs "16 word list" | KsIsError | KsRaised

datatype ksem_error = KsemFailed | StructFailed pyexc

record 'w ksem_env =
  ke_connected :: "'w \<Rightarrow> bool"
  ke_connect :: "'w \<Rightarrow> bool option \<times> 'w"
  ke_read :: "nat \<Rightarrow> nat \<Rightarrow> 'w \<Rightarrow> ksem_read \<times> 'w"
  ke_close :: "'w \<Rightarrow> 'w"
  ke_others :: "bool \<times> 'w \<Rightarrow> bool \<times> 'w"

text \<open>Whether there is a client, and the world.\<close>

record 'w ksem =
  ks_client :: bool
  ks_world :: 'w

definition ksem_connected :: "'w ksem_env \<Rightarrow> 'w ksem \<Rightarrow> bool" where
  "ksem_connected ke s \<longleftrightarrow> ks_client s \<and> ke_connected ke (ks_world s)"

definition take_lock :: "'w ksem_env \<Rightarrow> 'w ksem \<Rightarrow> 'w ksem" where
  "take_lock ke s = (let (c, w) = ke_others ke (ks_client s, ks_world s) in \<lparr>ks_client = c, ks_world = w\<rparr>)"

definition ksem_shutdown :: "'w ksem_env \<Rightarrow> 'w ksem \<Rightarrow> 'w ksem" where
  "ksem_shutdown ke s = (let s1 = take_lock ke s in
     if ks_client s1 then s1\<lparr>ks_client := False, ks_world := ke_close ke (ks_world s1)\<rparr> else s1)"

section \<open>The connection\<close>

definition ensure_connected :: "'w ksem_env \<Rightarrow> 'w ksem \<Rightarrow> (ksem_error + unit) \<times> 'w ksem" where
  "ensure_connected ke s = (let s1 = take_lock ke s in
     if ksem_connected ke s1 then (Inr (), s1)
     else let (ok, w) = ke_connect ke (ks_world s1)
       in if ok = Some True then (Inr (), s1\<lparr>ks_client := True, ks_world := w\<rparr>)
          else (Inl KsemFailed, s1\<lparr>ks_world := ke_close ke w\<rparr>))"

definition read_registers :: "'w ksem_env \<Rightarrow> nat \<Rightarrow> nat \<Rightarrow> 'w ksem \<Rightarrow> (ksem_error + 16 word list) \<times> 'w ksem" where
  "read_registers ke address n = sbind (ensure_connected ke) (\<lambda>_ s. let s1 = take_lock ke s in
     if \<not> ks_client s1 then (Inl KsemFailed, s1)
     else let (r, w) = ke_read ke address n (ks_world s1); s2 = s1\<lparr>ks_world := w\<rparr>
       in case r of
            KsIsError \<Rightarrow> (Inl KsemFailed, s2)
          | KsRaised \<Rightarrow> (Inl KsemFailed, s2\<lparr>ks_client := False, ks_world := ke_close ke w\<rparr>)
          | KsRegs ws \<Rightarrow> if length ws < n then (Inl KsemFailed, s2) else (Inr ws, s2))"

definition pair_bytes :: "16 word list \<Rightarrow> pyexc + byte list" where
  "pair_bytes ws = pack_HH (uint (ws ! 0)) (uint (ws ! 1))"

definition scaled :: "pyexc + int \<Rightarrow> pyfloat \<Rightarrow> ksem_error + pyfloat" where
  "scaled r scale = (case bind_res r float_of_int of Inl e \<Rightarrow> Inl (StructFailed e) | Inr x \<Rightarrow> Inr (fmul x scale))"

definition read_u32 :: "'w ksem_env \<Rightarrow> pyfloat \<Rightarrow> nat \<Rightarrow> 'w ksem \<Rightarrow> (ksem_error + pyfloat) \<times> 'w ksem" where
  "read_u32 ke scale address = sbind (read_registers ke address 2)
     (\<lambda>ws s. (scaled (bind_res (pair_bytes ws) (unpack_uint 4)) scale, s))"

definition read_i32 :: "'w ksem_env \<Rightarrow> pyfloat \<Rightarrow> nat \<Rightarrow> 'w ksem \<Rightarrow> (ksem_error + pyfloat) \<times> 'w ksem" where
  "read_i32 ke scale address = sbind (read_registers ke address 2)
     (\<lambda>ws s. (scaled (bind_res (pair_bytes ws) (unpack_sint 4)) scale, s))"

section \<open>The poll\<close>

definition tenth :: pyfloat where "tenth = mk_float False (1 / 10)"
definition thousandth :: pyfloat where "thousandth = mk_float False (1 / 1000)"

definition ksem_poll :: "'w ksem_env \<Rightarrow> 'w ksem \<Rightarrow> (ksem_error + (string \<times> pyfloat) list) \<times> 'w ksem" where
  "ksem_poll ke =
     sbind (ensure_connected ke) (\<lambda>_. sbind (read_u32 ke tenth 0) (\<lambda>imp. sbind (read_u32 ke tenth 2) (\<lambda>exp.
     sbind (read_u32 ke thousandth 26) (\<lambda>freq. sbind (read_i32 ke thousandth 24) (\<lambda>pf.
     sbind (read_u32 ke thousandth 62) (\<lambda>v1. sbind (read_u32 ke thousandth 102) (\<lambda>v2.
     sbind (read_u32 ke thousandth 142) (\<lambda>v3. sbind (read_i32 ke tenth 40) (\<lambda>p1.
     sbind (read_i32 ke tenth 80) (\<lambda>p2. sbind (read_i32 ke tenth 120) (\<lambda>p3 s.
       (Inr [(''active_power_import_w'', imp), (''active_power_export_w'', exp), (''net_active_power_w'', fsub imp exp),
         (''frequency_hz'', freq), (''power_factor'', pf), (''l1_voltage_v'', v1), (''l2_voltage_v'', v2),
         (''l3_voltage_v'', v3), (''l1_active_power_w'', p1), (''l2_active_power_w'', p2),
         (''l3_active_power_w'', p3)], s))))))))))))"

section \<open>A value of the meter arrives\<close>

text \<open>The words the meter holds for a number, high word first.\<close>

definition meter_words :: "int \<Rightarrow> 16 word list" where
  "meter_words v = [word_of_int (v div 65536), word_of_int v]"

lemma pair_bytes_words:
  assumes "0 \<le> u" "u < 2 ^ 32"
  shows "pair_bytes (meter_words u) = Inr (pack_be 4 u)"
proof -
  have h: "u div 65536 < 65536" "0 \<le> u div 65536" using assms by simp_all
  then have "(u div 65536) mod 65536 = u div 65536" by simp
  moreover have "pack_be 2 (u mod 65536) = [word_of_int (u div 256), word_of_int u]"
  proof -
    have "u mod 65536 div 256 = u div 256 mod 256" using mod_mult2_eq' [of u 256 256]
      by (simp add: zmod_zmult2_eq [of 256 u 256, simplified])
    then have "word_of_int (u mod 65536 div 256) = (word_of_int (u div 256) :: byte)"
      by (simp add: word_of_int_eq_iff take_bit_eq_mod)
    moreover have "word_of_int (u mod 65536) = (word_of_int u :: byte)"
      using mod_mod_cancel [of 256 "65536 :: int" u] by (simp add: word_of_int_eq_iff take_bit_eq_mod)
    ultimately show ?thesis by (simp add: numeral_2_eq_2)
  qed
  moreover have "pack_be 4 u = pack_be 2 (u div 65536) @ [word_of_int (u div 256), word_of_int u]"
    by (simp add: eval_nat_numeral zdiv_zmult2_eq [symmetric] div_mult2_eq)
  ultimately show ?thesis
    using h by (simp add: pair_bytes_def meter_words_def pack_HH_def pack_uint_def uint_word_of_int)
qed

lemma unsigned_arrives:
  "0 \<le> u \<Longrightarrow> u < 2 ^ 32 \<Longrightarrow> bind_res (pair_bytes (meter_words u)) (unpack_uint 4) = Inr u"
  using unpack_pack_be [of 4 u] by (simp add: pair_bytes_words unpack_uint_def)

lemma signed_arrives:
  assumes "- (2 ^ 31) \<le> v" "v < 2 ^ 31"
  shows "bind_res (pair_bytes (meter_words (v mod 2 ^ 32))) (unpack_sint 4) = Inr v"
proof -
  have u: "bind_res (pair_bytes (meter_words (v mod 2 ^ 32))) (unpack_uint 4) = Inr (v mod 2 ^ 32)"
    by (rule unsigned_arrives) simp_all
  have "v mod 2 ^ 32 = (if v < 0 then v + 2 ^ 32 else v)"
  proof (cases "v < 0")
    case True
    then have "(v + 2 ^ 32) mod 2 ^ 32 = v + 2 ^ 32" using assms by (intro mod_pos_pos_trivial) simp_all
    then show ?thesis using True by simp
  qed (use assms in simp)
  then show ?thesis using u assms by (auto simp: pair_bytes_words unpack_sint_def bind_res_Inr_iff)
qed

section \<open>A poll delivers what the meter holds\<close>

text \<open>A meter that holds the numbers \<open>m\<close> (by address) and stays reachable.\<close>

definition good_meter :: "'w ksem_env \<Rightarrow> (nat \<Rightarrow> int) \<Rightarrow> bool" where
  "good_meter ke m \<longleftrightarrow> (\<forall>w. ke_connect ke w = (Some True, w)) \<and> (\<forall>x. ke_others ke x = x)
     \<and> (\<forall>a w. ke_read ke a 2 w = (KsRegs (meter_words (m a mod 2 ^ 32)), w))"

definition unsigned_addresses :: "nat list" where "unsigned_addresses = [0, 2, 26, 62, 102, 142]"
definition signed_addresses :: "nat list" where "signed_addresses = [24, 40, 80, 120]"

definition meter_float :: "int \<Rightarrow> pyfloat \<Rightarrow> pyfloat" where
  "meter_float v scale = fmul (FFin (of_int v)) scale"

lemma take_lock_good: "good_meter ke m \<Longrightarrow> take_lock ke s = s"
  by (simp add: take_lock_def good_meter_def)

lemma ensure_connected_good:
  "good_meter ke m \<Longrightarrow> \<exists>s'. ensure_connected ke s = (Inr (), s') \<and> ks_client s' \<and> ks_world s' = ks_world s"
  using take_lock_good [of ke m s] by (auto simp: ensure_connected_def ksem_connected_def good_meter_def Let_def)

lemma read_registers_good:
  assumes "good_meter ke m"
  shows "\<exists>s'. read_registers ke a 2 s = (Inr (meter_words (m a mod 2 ^ 32)), s')"
proof -
  obtain s' where "ensure_connected ke s = (Inr (), s')" "ks_client s'" using ensure_connected_good [OF assms] by blast
  then show ?thesis using take_lock_good [OF assms, of s'] assms
    by (simp add: read_registers_def sbind_def good_meter_def meter_words_def Let_def)
qed

lemma scaled_exact: "\<bar>v\<bar> < 2 ^ 53 \<Longrightarrow> scaled (Inr v) scale = Inr (meter_float v scale)"
  by (simp add: scaled_def float_of_int_def mk_float_of_int meter_float_def Let_def)

lemma read_u32_good:
  assumes "good_meter ke m" "0 \<le> m a" "m a < 2 ^ 32"
  shows "\<exists>s'. read_u32 ke scale a s = (Inr (meter_float (m a) scale), s')"
proof -
  have "m a mod 2 ^ 32 = m a" using assms(2,3) by simp
  then show ?thesis
    using read_registers_good [OF assms(1), of a s] unsigned_arrives [OF assms(2,3)] scaled_exact [of "m a" scale] assms(2,3)
    by (auto simp: read_u32_def sbind_def)
qed

lemma read_i32_good:
  assumes "good_meter ke m" "- (2 ^ 31) \<le> m a" "m a < 2 ^ 31"
  shows "\<exists>s'. read_i32 ke scale a s = (Inr (meter_float (m a) scale), s')"
  using read_registers_good [OF assms(1), of a s] signed_arrives [OF assms(2,3)] scaled_exact [of "m a" scale] assms(2,3)
  by (auto simp: read_i32_def sbind_def)

text \<open>C31: While the meter answers, a poll of the energy meter succeeds from any state of the
  connection, and every entry is the number the meter holds at its address times its scale: the
  phase powers and the power factor keep their sign over the two words they arrive in, the other
  numbers use all 32 bits.\<close>

theorem ksem_poll_delivers:
  "good_meter ke m \<Longrightarrow> list_all (\<lambda>a. 0 \<le> m a \<and> m a < 2 ^ 32) unsigned_addresses \<Longrightarrow>
   list_all (\<lambda>a. - (2 ^ 31) \<le> m a \<and> m a < 2 ^ 31) signed_addresses \<Longrightarrow>
   fst (ksem_poll ke s) = Inr
     [(''active_power_import_w'', meter_float (m 0) tenth), (''active_power_export_w'', meter_float (m 2) tenth),
      (''net_active_power_w'', fsub (meter_float (m 0) tenth) (meter_float (m 2) tenth)),
      (''frequency_hz'', meter_float (m 26) thousandth), (''power_factor'', meter_float (m 24) thousandth),
      (''l1_voltage_v'', meter_float (m 62) thousandth), (''l2_voltage_v'', meter_float (m 102) thousandth),
      (''l3_voltage_v'', meter_float (m 142) thousandth), (''l1_active_power_w'', meter_float (m 40) tenth),
      (''l2_active_power_w'', meter_float (m 80) tenth), (''l3_active_power_w'', meter_float (m 120) tenth)]"
proof -
  assume g: "good_meter ke m" and u: "list_all (\<lambda>a. 0 \<le> m a \<and> m a < 2 ^ 32) unsigned_addresses"
    and i: "list_all (\<lambda>a. - (2 ^ 31) \<le> m a \<and> m a < 2 ^ 31) signed_addresses"
  have U: "\<exists>s'. read_u32 ke scale a s = (Inr (meter_float (m a) scale), s')" if "a \<in> set unsigned_addresses" for a s scale
    using read_u32_good [OF g, of a scale s] u that by (simp add: list_all_iff)
  have I: "\<exists>s'. read_i32 ke scale a s = (Inr (meter_float (m a) scale), s')" if "a \<in> set signed_addresses" for a s scale
    using read_i32_good [OF g, of a scale s] i that by (simp add: list_all_iff)
  note U' = U [unfolded unsigned_addresses_def] and I' = I [unfolded signed_addresses_def]
  obtain s0 where 0: "ensure_connected ke s = (Inr (), s0)" using ensure_connected_good [OF g] by blast
  obtain s1 where 1: "read_u32 ke tenth 0 s0 = (Inr (meter_float (m 0) tenth), s1)" using U' [of 0 tenth s0] by auto
  obtain s2 where 2: "read_u32 ke tenth 2 s1 = (Inr (meter_float (m 2) tenth), s2)" using U' [of 2 tenth s1] by auto
  obtain s3 where 3: "read_u32 ke thousandth 26 s2 = (Inr (meter_float (m 26) thousandth), s3)" using U' [of 26 thousandth s2] by auto
  obtain s4 where 4: "read_i32 ke thousandth 24 s3 = (Inr (meter_float (m 24) thousandth), s4)" using I' [of 24 thousandth s3] by auto
  obtain s5 where 5: "read_u32 ke thousandth 62 s4 = (Inr (meter_float (m 62) thousandth), s5)" using U' [of 62 thousandth s4] by auto
  obtain s6 where 6: "read_u32 ke thousandth 102 s5 = (Inr (meter_float (m 102) thousandth), s6)" using U' [of 102 thousandth s5] by auto
  obtain s7 where 7: "read_u32 ke thousandth 142 s6 = (Inr (meter_float (m 142) thousandth), s7)" using U' [of 142 thousandth s6] by auto
  obtain s8 where 8: "read_i32 ke tenth 40 s7 = (Inr (meter_float (m 40) tenth), s8)" using I' [of 40 tenth s7] by auto
  obtain s9 where 9: "read_i32 ke tenth 80 s8 = (Inr (meter_float (m 80) tenth), s9)" using I' [of 80 tenth s8] by auto
  obtain s10 where 10: "read_i32 ke tenth 120 s9 = (Inr (meter_float (m 120) tenth), s10)" using I' [of 120 tenth s9] by auto
  show ?thesis unfolding ksem_poll_def
      by (simp add: 0 1 2 3 4 5 6 7 8 9 10 sbind_Inr)
qed

definition steady_env :: "unit ksem_env" where
  "steady_env = \<lparr>ke_connected = (\<lambda>_. False), ke_connect = (\<lambda>w. (Some True, w)),
     ke_read = (\<lambda>a n w. (KsRegs (meter_words ((if a = 40 then - 12345 else 500) mod 2 ^ 32)), w)),
     ke_close = (\<lambda>w. w), ke_others = (\<lambda>x. x)\<rparr>"

theorem ksem_poll_delivers_witness:
  "\<exists>vs. fst (ksem_poll steady_env \<lparr>ks_client = False, ks_world = ()\<rparr>) = Inr vs
     \<and> (''l1_active_power_w'', meter_float (- 12345) tenth) \<in> set vs"
  using ksem_poll_delivers [of steady_env "\<lambda>a. if a = 40 then - 12345 else 500" "\<lparr>ks_client = False, ks_world = ()\<rparr>"]
  by (simp add: good_meter_def steady_env_def unsigned_addresses_def signed_addresses_def)

end
