(* ===== verification/Spec2Isabelle.thy ===== *)
theory Spec2Isabelle
  imports Prelude PyFloat Registers PyText Codec PowerLimits Owner1038 WriteAudit Scheduler
    Communication ModbusClient ClientWrites ClientBatch ClientFrames ModbusCoordinator CoordProofs
    CoordWrites ModbusProxy ProxyImage ProxyWrites ProxyStream Helpers HelperProofs SocController SocProofs SocCommands
    SocEnds ChargeBlock GridLimiter Features1038 SwitchProofs PyStats FireSafety FireProofs
    Degradation DegradationProofs HealthMonitor HealthProofs SohCalculator SohCalcProofs Longevity
    PyJson MqttBridge MqttProofs MqttRuns MqttLive BatteryTest BatteryTestProofs BatteryTestEnds
    ModbusNumber NumberProofs NumberRuns DiagnosticsEngine DiagProofs Ksem
begin

text \<open>
  A verification library for the Home Assistant integration KOSTAL KORE
  (\<^verbatim>\<open>custom_components/kostal_kore\<close>), which controls a solar inverter and its battery.

  The program. The Modbus client (\<^verbatim>\<open>modbus_client.py\<close>) owns the one connection to the inverter;
  every request passes the request scheduler (\<^verbatim>\<open>request_scheduler.py\<close>). The coordinator
  (\<^verbatim>\<open>modbus_coordinator.py\<close>) polls registers in a fast and a slow batch, keeps what the device
  was observed to hold and what it was commanded, and writes. Whoever wants to command the battery
  goes through the coordinator: the number entities (\<^verbatim>\<open>modbus_number.py\<close>), the SoC controller,
  the charge block switch, the feed-in optimizer, the battery test, the MQTT bridge and the proxy
  (\<^verbatim>\<open>modbus_proxy.py\<close>), which serves other Modbus clients from the coordinator's observations.
  Register 1038, the battery's charge limit, has an owner (\<^verbatim>\<open>battery_reg_1038_owner.py\<close>), which a
  feature takes before it writes and which the proxy and the bridge respect. The monitors
  (\<^verbatim>\<open>health_monitor.py\<close>, \<^verbatim>\<open>fire_safety.py\<close>, \<^verbatim>\<open>degradation_tracker.py\<close>,
  \<^verbatim>\<open>battery_soh_calculator.py\<close>) are fed with the coordinator's readings and only assess.

  The theories. The base:
  \<^item> \<open>Prelude\<close>: results of code that may raise, dictionaries, the end of a list; the interfaces
    \<open>clamp_op\<close>, \<open>bounded_buffer\<close> and \<open>invariant_machine\<close>, each interpreted on the
    components that implement it.
  \<^item> \<open>PyFloat\<close>, \<open>PyText\<close>, \<open>PyStats\<close>, \<open>PyJson\<close>: Python's floats (IEEE doubles as rationals with
    rounding), integers, strings, number parsing, the dynamically typed value \<open>pyval\<close>, sums, means
    and deques, and the JSON parser, whose fuel \<open>2 * length + 2\<close> is proved to be enough.
  \<^item> \<open>Registers\<close>: \<^verbatim>\<open>modbus_registers.py\<close>, one definition per register.
  \<^item> \<open>Codec\<close>: struct packing; the decoders and encoders of client and proxy, and their round trips.

  The connection to the device:
  \<^item> \<open>PowerLimits\<close>, \<open>Owner1038\<close>, \<open>WriteAudit\<close>, \<open>Scheduler\<close>, \<open>Communication\<close>, \<open>Helpers\<close> (with
    \<open>HelperProofs\<close>): one file of the program each; \<open>Scheduler\<close> proves that requests do not overlap.
  \<^item> \<open>ModbusClient\<close>: the client. \<open>ClientWrites\<close>: what a write sends. \<open>ClientBatch\<close>: batch reads
    against single reads, suppression. \<open>ClientFrames\<close>: the interface \<open>client_reads\<close>, extended by
    \<open>client_rel\<close>, of a relation that every read, or every operation, keeps; it is interpreted for
    the growth of the connection generation, for sending no write and for a clock going forward.
  \<^item> \<open>ModbusCoordinator\<close>: the coordinator. \<open>CoordProofs\<close>: its invariant over runs.
    \<open>CoordWrites\<close>: audit, commanded values, the zero filter.
  \<^item> \<open>ModbusProxy\<close>: the proxy. \<open>ProxyImage\<close>: reads. \<open>ProxyWrites\<close>: arbitration and delivery.
    \<open>ProxyStream\<close>: sequences of requests and the byte stream.

  What commands the battery:
  \<^item> \<open>ModbusNumber\<close>: the number entities. \<open>NumberProofs\<close>: what a returned write and a matching
    read-back mean. \<open>NumberRuns\<close>: what writes and the keepalive may send over a run of events.
  \<^item> \<open>SocController\<close>: the battery SoC controller (\<^verbatim>\<open>battery_soc_controller.py\<close>); one turn of
    its loop is a step, the end of the loop two. \<open>SocProofs\<close>: its ownership of register 1038 over
    runs of events. \<open>SocCommands\<close>: what it commands. \<open>SocEnds\<close>: how control ends.
  \<^item> \<open>ChargeBlock\<close>, \<open>GridLimiter\<close>: the two switches (\<^verbatim>\<open>charge_block_switch.py\<close>,
    \<^verbatim>\<open>grid_charge_limiter.py\<close>). \<open>Features1038\<close>: the interface \<open>reg_feature\<close> of a user of register
    1038, interpreted for the three features, and their composition. \<open>SwitchProofs\<close>: what the
    switches command and leave behind.
  \<^item> \<open>BatteryTest\<close>: the battery test (\<^verbatim>\<open>battery_test.py\<close>). \<open>BatteryTestProofs\<close>: all it may send.
    \<open>BatteryTestEnds\<close>: that it ends, and a run that is refused the register.
  \<^item> \<open>MqttBridge\<close>: the MQTT bridge (\<^verbatim>\<open>mqtt_bridge.py\<close>). \<open>MqttProofs\<close>, \<open>MqttRuns\<close>: its wiring,
    authorisation and rate limit over runs. \<open>MqttLive\<close>: its retry loop ends; payloads.

  What watches:
  \<^item> \<open>FireSafety\<close> with \<open>FireProofs\<close>, \<open>Degradation\<close> with \<open>DegradationProofs\<close>, \<open>HealthMonitor\<close> with
    \<open>HealthProofs\<close>, \<open>SohCalculator\<close> with \<open>SohCalcProofs\<close>, \<open>Longevity\<close>
    (\<^verbatim>\<open>battery_chemistry.py\<close>, \<^verbatim>\<open>longevity_advisor.py\<close>): the state after any sequence of
    measurements, the alerts they raise, and that storing and loading loses nothing.
  \<^item> \<open>DiagnosticsEngine\<close> with \<open>DiagProofs\<close> (\<^verbatim>\<open>diagnostics_engine.py\<close>): the status of five areas, and
    how the reports follow the alerts of the fire monitor.
  \<^item> \<open>Ksem\<close> (\<^verbatim>\<open>ksem_coordinator.py\<close>): the energy meter, and that a poll delivers its numbers.

  How state is modelled. An operation is a function from a state to a result and a state; an
  exception is the left side of a sum. What is outside the repository (the Modbus connection,
  the broker, the clock, the lock, other tasks) is a record of functions on a world of any type,
  which is part of the state, so an answer may depend on everything before it. A ghost trace
  records the requests sent. Time is an exact rational number. A task's loop is modelled turn by
  turn, and the events between the turns are arbitrary; the awaits inside
  one operation or turn are not interleaved, unless the theory says so (the end of the SoC loop, the
  queue of the bridge, the scheduler, the saves of the SoH calculator). Loops with a bounded number of attempts
  count down from the code's own bound (\<open>MAX_RETRIES = 2\<close>, \<open>READBACK_ATTEMPTS = 3\<close>), so no fuel
  can run out; the loop over a byte stream ends because every turn consumes a header. The loops
  that wait for the clock (the phases of the battery test, the retries of the bridge) are partial
  functions, and that they return is proved for every clock that goes forward.

  Not modelled: Home Assistant itself, notifications, storage files, sockets and server life
  cycle, log messages, and the components listed as such in the manifest, with the reason there.
\<close>

end
